(* ===== verification/JS_Prelude.thy ===== *)
theory JS_Prelude
  imports Complex_Main "HOL-Library.AList" "HOL-Library.Monad_Syntax"
begin

text \<open>
  The JavaScript layer of the model, shared by every component: insertion-ordered
  \<open>Set\<close> and \<open>Map\<close> objects (duplicate-free lists and association lists), JSON
  documents, decimal rendering and \<open>parseInt(raw, 10)\<close>, \<open>Error\<close> objects with
  their \<open>cause\<close> chain, and the error-passing combinators for \<open>await\<close>ed calls that
  can throw.
\<close>

named_theorems js_simps
  "rewrite rules for the JavaScript containers"

section \<open>Insertion-ordered sets and maps\<close>

definition js_add :: "'a \<Rightarrow> 'a list \<Rightarrow> 'a list" where
  \<comment> \<open>\<open>set.add(x)\<close>: an element already present keeps its place.\<close>
  "js_add x xs = (if x \<in> set xs then xs else xs @ [x])"

definition js_add_all :: "'a list \<Rightarrow> 'a list \<Rightarrow> 'a list" where
  \<comment> \<open>\<open>for (const x of ys) set.add(x)\<close>\<close>
  "js_add_all ys xs = fold js_add ys xs"

definition js_set :: "'a list \<Rightarrow> 'a list" where
  \<comment> \<open>\<open>[...new Set(xs)]\<close>\<close>
  "js_set xs = js_add_all xs []"

lemma set_js_add [simp]: "set (js_add x xs) = insert x (set xs)"
  by (auto simp: js_add_def)

lemma distinct_js_add [simp]: "distinct (js_add x xs) = distinct xs"
  by (auto simp: js_add_def)

lemma js_add_all_simps [simp]:
  "js_add_all [] xs = xs"
  "js_add_all (y # ys) xs = js_add_all ys (js_add y xs)"
  "js_add_all (ys @ zs) xs = js_add_all zs (js_add_all ys xs)"
  by (simp_all add: js_add_all_def)

lemma set_js_add_all [simp]: "set (js_add_all ys xs) = set xs \<union> set ys"
  by (induction ys arbitrary: xs) auto

lemma distinct_js_add_all [simp]: "distinct (js_add_all ys xs) = distinct xs"
  by (induction ys arbitrary: xs) auto

lemma js_add_all_append:
  assumes "distinct ys" "set xs \<inter> set ys = {}"
  shows "js_add_all ys xs = xs @ ys"
  using assms by (induction ys arbitrary: xs) (auto simp: js_add_def)

lemma set_js_set [simp]: "set (js_set xs) = set xs"
  by (simp add: js_set_def)

lemma distinct_js_set [simp]: "distinct (js_set xs)"
  by (simp add: js_set_def)

lemma js_set_distinct: "distinct xs \<Longrightarrow> js_set xs = xs"
  by (simp add: js_set_def js_add_all_append)

definition js_get :: "'k \<Rightarrow> ('k \<times> 'v) list \<Rightarrow> 'v option" where
  \<comment> \<open>\<open>map.get(k)\<close>, a property read of an object: \<open>None\<close> is \<open>undefined\<close>.\<close>
  "js_get k xs = map_of xs k"

definition js_put :: "'k \<Rightarrow> 'v \<Rightarrow> ('k \<times> 'v) list \<Rightarrow> ('k \<times> 'v) list" where
  \<comment> \<open>\<open>map.set(k, v)\<close>: a key already present keeps its place.\<close>
  "js_put k v xs = AList.update k v xs"

definition js_remove :: "'k \<Rightarrow> ('k \<times> 'v) list \<Rightarrow> ('k \<times> 'v) list" where
  \<comment> \<open>\<open>map.delete(k)\<close>\<close>
  "js_remove k xs = filter (\<lambda>p. fst p \<noteq> k) xs"

definition js_has :: "'k \<Rightarrow> ('k \<times> 'v) list \<Rightarrow> bool" where
  "js_has k xs = (js_get k xs \<noteq> None)"

definition js_spread :: "('k \<times> 'v) list \<Rightarrow> ('k \<times> 'v) list \<Rightarrow> ('k \<times> 'v) list" where
  \<comment> \<open>\<open>{ ...xs, ...ys }\<close>\<close>
  "js_spread xs ys = fold (\<lambda>(k, v). js_put k v) ys xs"

lemma js_get_put [simp]: "js_get k (js_put k' v xs) = (if k = k' then Some v else js_get k xs)"
  by (simp add: js_get_def js_put_def update_conv)

lemma js_get_remove [simp]: "js_get k (js_remove k' xs) = (if k = k' then None else js_get k xs)"
  by (induction xs) (auto simp: js_get_def js_remove_def)

lemma js_get_Nil [simp]: "js_get k [] = None"
  by (simp add: js_get_def)

lemma js_get_Cons [simp]:
  "js_get k ((k', v) # xs) = (if k = k' then Some v else js_get k xs)"
  by (simp add: js_get_def)

lemma js_get_append: "js_get k (xs @ ys) = (case js_get k xs of None \<Rightarrow> js_get k ys | Some v \<Rightarrow> Some v)"
  by (simp add: js_get_def map_add_def split: option.splits)

lemma js_put_Nil [simp]: "js_put k v [] = [(k, v)]"
  by (simp add: js_put_def)

lemma js_put_Cons [simp]:
  "js_put k v ((k', v') # xs) = (if k' = k then (k, v) # xs else (k', v') # js_put k v xs)"
  by (simp add: js_put_def)

lemma distinct_js_put [simp]:
  "distinct (map fst xs) \<Longrightarrow> distinct (map fst (js_put k v xs))"
  by (simp add: js_put_def distinct_update)

lemma distinct_js_remove [simp]:
  "distinct (map fst xs) \<Longrightarrow> distinct (map fst (js_remove k xs))"
  by (induction xs) (auto simp: js_remove_def)

lemma set_keys_js_put [simp]: "fst ` set (js_put k v xs) = insert k (fst ` set xs)"
  by (simp add: js_put_def dom_update)

lemma set_js_put_subset: "set (js_put k v xs) \<subseteq> insert (k, v) (set xs)"
  by (induction xs) (auto split: if_splits)

lemma js_put_fresh: "k \<notin> fst ` set xs \<Longrightarrow> js_put k v xs = xs @ [(k, v)]"
  by (induction xs) auto

lemma keys_js_put: "map fst (js_put k v xs) = js_add k (map fst xs)"
  by (induction xs) (auto simp: js_add_def image_iff split: if_splits)

lemma js_get_set:
  "distinct (map fst xs) \<Longrightarrow> js_get k xs = Some v \<longleftrightarrow> (k, v) \<in> set xs"
  by (simp add: js_get_def)

lemma js_get_None: "js_get k xs = None \<longleftrightarrow> k \<notin> fst ` set xs"
  by (simp add: js_get_def map_of_eq_None_iff)

lemma js_has_put [simp]: "js_has k (js_put k' v xs) = (k = k' \<or> js_has k xs)"
  by (simp add: js_has_def)

lemma js_has_set: "js_has k xs \<longleftrightarrow> k \<in> fst ` set xs"
  by (simp add: js_has_def js_get_None)

lemma js_get_map_values: "js_get i (map (\<lambda>p. (fst p, f (snd p))) xs) = map_option f (js_get i xs)"
  by (induction xs) auto

lemma js_spread_simps [simp]:
  "js_spread xs [] = xs"
  "js_spread xs ((k, v) # ys) = js_spread (js_put k v xs) ys"
  by (simp_all add: js_spread_def)

lemma js_spread_append [simp]: "js_spread xs (ys @ zs) = js_spread (js_spread xs ys) zs"
  by (simp add: js_spread_def)

lemma js_get_spread:
  "js_get k (js_spread xs ys) = (case js_get k (rev ys) of None \<Rightarrow> js_get k xs | Some v \<Rightarrow> Some v)"
  by (induction ys arbitrary: xs) (auto simp: js_get_append split: option.splits)

lemma js_get_rev:
  assumes "distinct (map fst ys)"
  shows "js_get k (rev ys) = js_get k ys"
proof -
  have "map_of (rev ys) = map_of ys"
    using assms by (intro map_of_inject_set[THEN iffD2]) (auto simp: rev_map[symmetric])
  then show ?thesis by (simp add: js_get_def)
qed

lemma js_get_spread_distinct:
  "distinct (map fst ys) \<Longrightarrow>
   js_get k (js_spread xs ys) = (case js_get k ys of None \<Rightarrow> js_get k xs | Some v \<Rightarrow> Some v)"
  by (simp add: js_get_spread js_get_rev)

lemma distinct_js_spread [simp]:
  "distinct (map fst xs) \<Longrightarrow> distinct (map fst (js_spread xs ys))"
  by (induction ys arbitrary: xs) auto

lemma keys_js_spread: "map fst (js_spread xs ys) = js_add_all (map fst ys) (map fst xs)"
  by (induction ys arbitrary: xs) (auto simp: keys_js_put)

section \<open>JSON documents\<close>

datatype json =
    JNull
  | JBool bool
  | JNum rat
  | JStr string
  | JArr "json list"
  | JObj "(string \<times> json) list"

type_synonym js_object = "(string \<times> json) list"

definition js_int :: "int \<Rightarrow> json" where
  "js_int n = JNum (of_int n)"

fun json_int :: "json \<Rightarrow> int option" where
  "json_int (JNum q) = (if of_int \<lfloor>q\<rfloor> = q then Some \<lfloor>q\<rfloor> else None)"
| "json_int _ = None"

lemma json_int_js_int [simp]: "json_int (js_int n) = Some n"
  by (simp add: js_int_def)

fun json_string :: "json \<Rightarrow> string option" where
  \<comment> \<open>\<open>typeof v === 'string' ? v : null\<close>\<close>
  "json_string (JStr s) = Some s"
| "json_string _ = None"

definition string_field :: "string \<Rightarrow> js_object \<Rightarrow> string option" where
  "string_field k obj = Option.bind (js_get k obj) json_string"

section \<open>Decimal numbers\<close>

definition is_digit :: "char \<Rightarrow> bool" where
  "is_digit c = (48 \<le> (of_char c :: nat) \<and> (of_char c :: nat) \<le> 57)"

fun dec_nat :: "nat \<Rightarrow> string" where
  "dec_nat n = (if n < 10 then [char_of (48 + n)] else dec_nat (n div 10) @ [char_of (48 + n mod 10)])"

declare dec_nat.simps [simp del]

definition dec :: "int \<Rightarrow> string" where
  \<comment> \<open>\<open>n.toString()\<close>\<close>
  "dec n = (if n < 0 then CHR ''-'' # dec_nat (nat (- n)) else dec_nat (nat n))"

fun commas :: "string list \<Rightarrow> string" where
  "commas [] = ''''"
| "commas [t] = t"
| "commas (t # ts) = t @ '','' @ commas ts"

fun fraction_digits :: "nat \<Rightarrow> rat \<Rightarrow> string" where
  "fraction_digits 0 q = []"
| "fraction_digits (Suc n) q = (if q = 0 then []
     else dec \<lfloor>10 * q\<rfloor> @ fraction_digits n (10 * q - of_int \<lfloor>10 * q\<rfloor>))"

definition decimal :: "rat \<Rightarrow> string" where
  \<comment> \<open>the text of a number between 1e-6 and 1e21 in size; at most 17 digits follow the point\<close>
  "decimal q = (let a = \<bar>q\<bar>; rest = a - of_int \<lfloor>a\<rfloor>
     in (if q < 0 then ''-'' else []) @ dec \<lfloor>a\<rfloor> @ (if rest = 0 then [] else ''.'' @ fraction_digits 17 rest))"

fun json_text :: "json \<Rightarrow> string" where
  \<comment> \<open>\<open>String(v)\<close>\<close>
  "json_text JNull = ''null''"
| "json_text (JBool b) = (if b then ''true'' else ''false'')"
| "json_text (JNum q) = decimal q"
| "json_text (JStr s) = s"
| "json_text (JArr vs) = commas (map (\<lambda>v. if v = JNull then [] else json_text v) vs)"
| "json_text (JObj entries) = ''[object Object]''"

definition digits_value :: "string \<Rightarrow> nat" where
  "digits_value cs = fold (\<lambda>c acc. acc * 10 + (of_char c - 48)) cs 0"

definition is_space :: "char \<Rightarrow> bool" where
  "is_space c = ((of_char c :: nat) \<in> {9, 10, 11, 12, 13, 32})"

definition parse_int :: "string \<Rightarrow> int option" where
  \<comment> \<open>\<open>parseInt(raw, 10)\<close>: leading blanks, a sign, the longest run of digits; \<open>None\<close> is NaN.\<close>
  "parse_int raw =
     (let cs = dropWhile is_space raw;
          neg = (case cs of c # _ \<Rightarrow> c = CHR ''-'' | [] \<Rightarrow> False);
          body = (case cs of c # r \<Rightarrow> if c = CHR ''-'' \<or> c = CHR ''+'' then r else cs | [] \<Rightarrow> []);
          ds = takeWhile is_digit body
      in if ds = [] then None
         else Some (if neg then - int (digits_value ds) else int (digits_value ds)))"

lemma of_char_digit [simp]: "n < (10::nat) \<Longrightarrow> (of_char (char_of (48 + n) :: char) :: nat) = 48 + n"
  by (simp add: of_char_of)

lemma is_digit_digit [simp]: "n < (10::nat) \<Longrightarrow> is_digit (char_of (48 + n))"
  by (simp add: is_digit_def)

lemma dec_nat_digits: "c \<in> set (dec_nat n) \<Longrightarrow> is_digit c"
proof (induction n rule: dec_nat.induct)
  case (1 n)
  then show ?case
    by (cases "n < 10") (auto simp: dec_nat.simps[of n])
qed

lemma dec_nat_not_Nil [simp]: "dec_nat n \<noteq> []"
  by (simp add: dec_nat.simps[of n])

lemma digits_value_snoc [simp]: "digits_value (cs @ [c]) = digits_value cs * 10 + (of_char c - 48)"
  by (simp add: digits_value_def)

lemma digits_value_dec_nat [simp]: "digits_value (dec_nat n) = n"
proof (induction n rule: dec_nat.induct)
  case (1 n)
  show ?case
  proof (cases "n < 10")
    case True
    then show ?thesis by (simp add: dec_nat.simps[of n] digits_value_def)
  next
    case False
    then show ?thesis using 1 by (simp add: dec_nat.simps[of n])
  qed
qed

lemma digit_facts:
  assumes "is_digit c"
  shows "\<not> is_space c" "c \<noteq> CHR ''-''" "c \<noteq> CHR ''+''"
  using assms by (auto simp: is_digit_def is_space_def)

lemma takeWhile_dec_nat [simp]: "takeWhile is_digit (dec_nat n) = dec_nat n"
  using dec_nat_digits by (simp add: takeWhile_eq_all_conv)

lemma parse_int_dec_nat: "parse_int (dec_nat n) = Some (int n)"
proof -
  obtain c r where cr: "dec_nat n = c # r" by (cases "dec_nat n") auto
  then have c: "is_digit c" using dec_nat_digits[of c n] by simp
  have v: "digits_value (c # r) = n" and t: "takeWhile is_digit (c # r) = c # r"
    using digits_value_dec_nat[of n] takeWhile_dec_nat[of n] by (simp_all only: cr)
  show ?thesis
    unfolding cr using digit_facts[OF c] v t
    by (simp add: parse_int_def Let_def del: takeWhile.simps takeWhile_eq_all_conv)
qed

lemma parse_int_dec [simp]: "parse_int (dec n) = Some n"
proof (cases "n < 0")
  case True
  then show ?thesis
    by (simp add: parse_int_def dec_def is_space_def Let_def del: takeWhile_eq_all_conv)
next
  case False
  then show ?thesis by (simp add: dec_def parse_int_dec_nat)
qed

lemma dec_not_Nil [simp]: "dec n \<noteq> []"
  by (simp add: dec_def)

lemma dec_inj [simp]: "dec m = dec n \<longleftrightarrow> m = n"
  by (metis option.inject parse_int_dec)

definition int_or :: "int \<Rightarrow> string option \<Rightarrow> int" where
  \<comment> \<open>\<open>raw ? parseInt(raw, 10) : d\<close>; the programs only store decimal numerals, NaN reads as \<open>d\<close>.\<close>
  "int_or d raw = (case raw of None \<Rightarrow> d | Some s \<Rightarrow> (case parse_int s of None \<Rightarrow> d | Some n \<Rightarrow> n))"

lemma int_or_simps [simp]: "int_or d None = d" "int_or d (Some (dec n)) = n"
  by (simp_all add: int_or_def)

section \<open>Errors\<close>

datatype js_error =
    AppError int string
  | DbError (db_code: "string option") (db_constraint: "string option")
      (db_message: "string option") (db_detail: "string option") (db_cause: "js_error option")

type_synonym 'a result = "js_error + 'a"

definition js_try :: "'a result \<times> 'w \<Rightarrow> ('a \<Rightarrow> 'w \<Rightarrow> ('b result \<times> 'w) option) \<Rightarrow> ('b result \<times> 'w) option" where
  \<comment> \<open>continue after an \<open>await\<close> that may have thrown\<close>
  "js_try r k = (case r of (Inl e, w) \<Rightarrow> Some (Inl e, w) | (Inr a, w) \<Rightarrow> k a w)"

lemma js_try_simps [simp]:
  "js_try (Inl e, w) k = Some (Inl e, w)"
  "js_try (Inr a, w) k = k a w"
  by (simp_all add: js_try_def)

end
