(* ===== verification/Local_Lock.thy ===== *)
theory Local_Lock
  imports JS_Prelude
begin

text \<open>
  The promise chain that serialises the calls of one process: \<open>withLocalLock\<close>
  (\<open>mutation-lock-domain.ts\<close>), \<open>withPersistLock\<close> (\<open>persistence-domain.ts\<close>),
  \<open>withLoadLock\<close> (\<open>load-domain.ts\<close>) and \<open>withLocalBoardMutationLock\<close>
  (\<open>processor.ts\<close>) are the same code over a \<open>Map\<close> from board ids to promises. A call enters,
  waits for the promise it found, runs its task, and releases. The lemmas show mutual exclusion
  in the order of entry, and that the map entry of a board is never deleted.
\<close>

datatype promise = Resolved | Deferred nat | Then promise promise
  \<comment> \<open>\<open>Promise.resolve()\<close>; \<open>new Promise(...)\<close> with its number; \<open>p.then(() => q)\<close>\<close>

fun settled :: "nat set \<Rightarrow> promise \<Rightarrow> bool" where
  "settled R Resolved = True"
| "settled R (Deferred n) = (n \<in> R)"
| "settled R (Then p q) = (settled R p \<and> settled R q)"

datatype call_phase = Waiting | Running | Finished

record local_call =
  lc_board :: string
  lc_previous :: promise
  lc_current :: promise
  lc_phase :: call_phase

record local_locks =
  ll_map :: "(string \<times> promise) list"
  ll_released :: "nat set"
  ll_calls :: "local_call list"

definition enter_lock :: "string \<Rightarrow> local_locks \<Rightarrow> local_locks" where
  \<comment> \<open>up to \<open>await previous\<close>; the number of the call names its deferred promise\<close>
  "enter_lock b s =
     (let previous = (case js_get b (ll_map s) of Some p \<Rightarrow> p | None \<Rightarrow> Resolved);
          current = Deferred (length (ll_calls s))
      in s\<lparr>ll_map := js_put b (Then previous current) (ll_map s),
           ll_calls := ll_calls s @ [\<lparr>lc_board = b, lc_previous = previous, lc_current = current, lc_phase = Waiting\<rparr>]\<rparr>)"

definition start_task :: "nat \<Rightarrow> local_locks \<Rightarrow> local_locks" where
  "start_task i s = s\<lparr>ll_calls := (ll_calls s)[i := (ll_calls s ! i)\<lparr>lc_phase := Running\<rparr>]\<rparr>"

definition leave_lock :: "nat \<Rightarrow> local_locks \<Rightarrow> local_locks" where
  \<comment> \<open>the \<open>finally\<close> block: release, and delete the entry if it is this call's own promise\<close>
  "leave_lock i s =
     (let c = ll_calls s ! i
      in s\<lparr>ll_released := insert i (ll_released s),
           ll_map := (if js_get (lc_board c) (ll_map s) = Some (lc_current c)
             then js_remove (lc_board c) (ll_map s) else ll_map s),
           ll_calls := (ll_calls s)[i := c\<lparr>lc_phase := Finished\<rparr>]\<rparr>)"

inductive local_step :: "local_locks \<Rightarrow> local_locks \<Rightarrow> bool" where
  enter: "local_step s (enter_lock b s)"
| start: "i < length (ll_calls s) \<Longrightarrow> lc_phase (ll_calls s ! i) = Waiting \<Longrightarrow>
    settled (ll_released s) (lc_previous (ll_calls s ! i)) \<Longrightarrow> local_step s (start_task i s)"
| leave: "i < length (ll_calls s) \<Longrightarrow> lc_phase (ll_calls s ! i) = Running \<Longrightarrow> local_step s (leave_lock i s)"

definition no_locks :: local_locks where
  "no_locks = \<lparr>ll_map = [], ll_released = {}, ll_calls = []\<rparr>"

section \<open>The chain\<close>

fun awaits :: "promise \<Rightarrow> nat set" where
  "awaits Resolved = {}"
| "awaits (Deferred n) = {n}"
| "awaits (Then p q) = awaits p \<union> awaits q"

lemma settled_awaits: "settled R p \<longleftrightarrow> awaits p \<subseteq> R"
  by (induction p) auto

definition calls_on :: "string \<Rightarrow> local_call list \<Rightarrow> nat \<Rightarrow> nat set" where
  \<comment> \<open>the calls on a board among the first \<open>n\<close>\<close>
  "calls_on b cs n = {i. i < n \<and> lc_board (cs ! i) = b}"

definition map_tail :: "string \<Rightarrow> local_locks \<Rightarrow> promise" where
  "map_tail b s = (case js_get b (ll_map s) of Some p \<Rightarrow> p | None \<Rightarrow> Resolved)"

definition chain_links :: "local_locks \<Rightarrow> bool" where
  \<comment> \<open>a call waits for all earlier calls on its board, and its number names its promise\<close>
  "chain_links s = (\<forall>i < length (ll_calls s). lc_current (ll_calls s ! i) = Deferred i \<and>
     awaits (lc_previous (ll_calls s ! i)) = calls_on (lc_board (ll_calls s ! i)) (ll_calls s) i)"

definition chain_order :: "local_locks \<Rightarrow> bool" where
  "chain_order s = (\<forall>i < length (ll_calls s). lc_phase (ll_calls s ! i) \<noteq> Waiting \<longrightarrow>
     calls_on (lc_board (ll_calls s ! i)) (ll_calls s) i \<subseteq> ll_released s)"

definition chain_released :: "local_locks \<Rightarrow> bool" where
  "chain_released s = (\<forall>i. i \<in> ll_released s \<longleftrightarrow> i < length (ll_calls s) \<and> lc_phase (ll_calls s ! i) = Finished)"

definition chain_tails :: "local_locks \<Rightarrow> bool" where
  "chain_tails s = (\<forall>b. awaits (map_tail b s) = calls_on b (ll_calls s) (length (ll_calls s)) \<and>
     (\<forall>n. js_get b (ll_map s) \<noteq> Some (Deferred n)))"

definition chain_inv :: "local_locks \<Rightarrow> bool" where
  "chain_inv s = (chain_links s \<and> chain_order s \<and> chain_released s \<and> chain_tails s)"

lemma calls_on_update:
  assumes "lc_board c = lc_board (cs ! i)" shows "calls_on b (cs[i := c]) n = calls_on b cs n"
proof (cases "i < length cs")
  case True
  then have "lc_board (cs[i := c] ! k) = lc_board (cs ! k)" for k
    using assms by (cases "k = i") simp_all
  then show ?thesis by (simp add: calls_on_def)
qed (simp add: list_update_beyond)

lemma calls_on_append:
  "n \<le> length cs \<Longrightarrow> calls_on b (cs @ [c]) n = calls_on b cs n"
  "calls_on b (cs @ [c]) (Suc (length cs)) =
     (if lc_board c = b then insert (length cs) (calls_on b cs (length cs)) else calls_on b cs (length cs))"
  by (auto simp: calls_on_def nth_append less_Suc_eq)

lemma chain_inv_start: "chain_inv no_locks"
  by (simp add: chain_inv_def chain_links_def chain_order_def chain_released_def chain_tails_def no_locks_def
      map_tail_def calls_on_def)

lemma enter_lock_map_tail: "map_tail d (enter_lock b s) =
    (if d = b then Then (map_tail b s) (Deferred (length (ll_calls s))) else map_tail d s)"
  by (simp add: map_tail_def enter_lock_def Let_def)

lemma enter_lock_calls: "ll_calls (enter_lock b s) = ll_calls s @
    [\<lparr>lc_board = b, lc_previous = map_tail b s, lc_current = Deferred (length (ll_calls s)), lc_phase = Waiting\<rparr>]"
  by (simp add: map_tail_def enter_lock_def Let_def)

lemma chain_inv_enter:
  assumes "chain_inv s" shows "chain_inv (enter_lock b s)"
proof -
  have "chain_links (enter_lock b s)"
    using assms by (auto simp: chain_inv_def chain_links_def chain_tails_def enter_lock_calls less_Suc_eq nth_append calls_on_append)
  moreover have "chain_order (enter_lock b s)"
    using assms unfolding chain_inv_def chain_order_def enter_lock_calls
    by (auto simp: less_Suc_eq nth_append calls_on_append enter_lock_def Let_def)
  moreover have "chain_released (enter_lock b s)"
    using assms unfolding chain_inv_def chain_released_def enter_lock_calls
    by (auto simp: less_Suc_eq nth_append enter_lock_def Let_def)
  moreover have "chain_tails (enter_lock b s)"
    using assms unfolding chain_inv_def chain_tails_def enter_lock_calls enter_lock_map_tail
    by (auto simp: calls_on_append enter_lock_def Let_def)
  ultimately show ?thesis by (simp add: chain_inv_def)
qed

lemma phase_update:
  assumes "i < length cs"
  shows "cs[i := (cs ! i)\<lparr>lc_phase := p\<rparr>] ! k = (if k = i then (cs ! k)\<lparr>lc_phase := p\<rparr> else cs ! k)"
    and "calls_on b (cs[i := (cs ! i)\<lparr>lc_phase := p\<rparr>]) n = calls_on b cs n"
  using assms by (simp_all add: nth_list_update calls_on_update)

lemma chain_inv_start_task:
  assumes "chain_inv s" "i < length (ll_calls s)" "lc_phase (ll_calls s ! i) = Waiting"
    "settled (ll_released s) (lc_previous (ll_calls s ! i))"
  shows "chain_inv (start_task i s)"
proof -
  have "calls_on (lc_board (ll_calls s ! i)) (ll_calls s) i \<subseteq> ll_released s"
    using assms by (simp add: chain_inv_def chain_links_def settled_awaits)
  then have "chain_order (start_task i s)"
    using assms by (simp add: chain_inv_def chain_order_def start_task_def phase_update)
  moreover have "chain_released (start_task i s)"
    using assms by (auto simp: chain_inv_def chain_released_def start_task_def phase_update)
  ultimately show ?thesis
    using assms(1,2) by (simp add: chain_inv_def chain_links_def chain_tails_def map_tail_def start_task_def phase_update)
qed

lemma leave_lock_map:
  assumes "chain_inv s" "i < length (ll_calls s)"
  shows "leave_lock i s = s\<lparr>ll_released := insert i (ll_released s),
    ll_calls := (ll_calls s)[i := (ll_calls s ! i)\<lparr>lc_phase := Finished\<rparr>]\<rparr>"
proof -
  have "lc_current (ll_calls s ! i) = Deferred i" using assms by (simp add: chain_inv_def chain_links_def)
  moreover have "js_get b (ll_map s) \<noteq> Some (Deferred i)" for b
    using assms(1) by (simp add: chain_inv_def chain_tails_def)
  ultimately show ?thesis by (simp add: leave_lock_def Let_def)
qed

lemma chain_inv_leave:
  assumes "chain_inv s" "i < length (ll_calls s)" "lc_phase (ll_calls s ! i) = Running"
  shows "chain_inv (leave_lock i s)"
proof -
  note [simp] = leave_lock_map[OF assms(1,2)]
  have "chain_order (leave_lock i s)"
    using assms by (auto simp: chain_inv_def chain_order_def phase_update)
  moreover have "chain_released (leave_lock i s)"
    using assms by (auto simp: chain_inv_def chain_released_def phase_update)
  ultimately show ?thesis
    using assms(1,2) by (simp add: chain_inv_def chain_links_def chain_tails_def map_tail_def phase_update)
qed

lemma chain_inv_step:
  assumes "local_step s s'" "chain_inv s" shows "chain_inv s'"
  using assms by cases (auto intro: chain_inv_enter chain_inv_start_task chain_inv_leave)

lemma chain_inv_reachable:
  assumes "local_step\<^sup>*\<^sup>* no_locks s" shows "chain_inv s"
  using assms by (induction rule: rtranclp_induct) (auto intro: chain_inv_step chain_inv_start)

lemma started_after:
  assumes "chain_inv s" "i < j" "j < length (ll_calls s)" "lc_board (ll_calls s ! i) = lc_board (ll_calls s ! j)"
    "lc_phase (ll_calls s ! j) \<noteq> Waiting"
  shows "lc_phase (ll_calls s ! i) = Finished"
proof -
  have "i \<in> calls_on (lc_board (ll_calls s ! j)) (ll_calls s) j" using assms(2,4) by (simp add: calls_on_def)
  moreover have "calls_on (lc_board (ll_calls s ! j)) (ll_calls s) j \<subseteq> ll_released s"
    using assms(1,3,5) by (simp add: chain_inv_def chain_order_def)
  ultimately have "i \<in> ll_released s" by blast
  then show ?thesis using assms(1) by (simp add: chain_inv_def chain_released_def)
qed

lemma map_listed:
  assumes "chain_inv s" "i < length (ll_calls s)"
  shows "js_get (lc_board (ll_calls s ! i)) (ll_map s) \<noteq> None"
proof
  assume "js_get (lc_board (ll_calls s ! i)) (ll_map s) = None"
  then have "awaits (map_tail (lc_board (ll_calls s ! i)) s) = {}" by (simp add: map_tail_def)
  moreover have "i \<in> calls_on (lc_board (ll_calls s ! i)) (ll_calls s) (length (ll_calls s))"
    using assms(2) by (simp add: calls_on_def)
  ultimately show False using assms(1) by (auto simp: chain_inv_def chain_tails_def)
qed

section \<open>Properties\<close>

text \<open>C30: The promise chain of one process serialises the calls on a board in the order in which they
  entered: a call that has started its task has all earlier calls on its board behind it, so no two
  calls on one board run at the same time.\<close>

theorem local_lock_serialises:
  assumes "local_step\<^sup>*\<^sup>* no_locks s" "i < length (ll_calls s)" "j < length (ll_calls s)"
    and "lc_board (ll_calls s ! i) = lc_board (ll_calls s ! j)" "lc_phase (ll_calls s ! j) \<noteq> Waiting"
  shows "(i < j \<longrightarrow> lc_phase (ll_calls s ! i) = Finished) \<and>
    (lc_phase (ll_calls s ! i) = Running \<longrightarrow> lc_phase (ll_calls s ! j) = Running \<longrightarrow> i = j)"
proof -
  note inv = chain_inv_reachable[OF assms(1)]
  have "lc_phase (ll_calls s ! i) = Finished" if "i < j"
    using started_after[OF inv that assms(3,4,5)] .
  moreover have "lc_phase (ll_calls s ! j) = Finished" if "j < i" "lc_phase (ll_calls s ! i) = Running"
    using started_after[OF inv that(1) assms(2) assms(4)[symmetric]] that(2) by simp
  ultimately show ?thesis by (metis call_phase.distinct(5) linorder_neqE_nat)
qed

definition two_calls :: local_locks where
  "two_calls = start_task 1 (leave_lock 0 (start_task 0 (enter_lock ''b1'' (enter_lock ''b1'' no_locks))))"

lemma two_calls_reachable: "local_step\<^sup>*\<^sup>* no_locks two_calls"
proof -
  let ?s2 = "enter_lock ''b1'' (enter_lock ''b1'' no_locks)"
  have "local_step\<^sup>*\<^sup>* no_locks ?s2"
    by (intro rtranclp.rtrancl_into_rtrancl[OF r_into_rtranclp]; rule local_step.enter)
  also have "local_step ?s2 (start_task 0 ?s2)"
    by (rule local_step.start) (simp_all add: enter_lock_def no_locks_def Let_def)
  also have "local_step (start_task 0 ?s2) (leave_lock 0 (start_task 0 ?s2))"
    by (rule local_step.leave) (simp_all add: enter_lock_def no_locks_def start_task_def Let_def)
  also have "local_step (leave_lock 0 (start_task 0 ?s2)) two_calls"
    unfolding two_calls_def
    by (rule local_step.start) (simp_all add: enter_lock_def no_locks_def start_task_def leave_lock_def Let_def)
  finally show ?thesis .
qed

theorem local_lock_serialises_witness:
  "lc_phase (ll_calls two_calls ! 0) = Finished \<and> lc_phase (ll_calls two_calls ! 1) = Running"
proof -
  have f: "length (ll_calls two_calls) = 2" "lc_board (ll_calls two_calls ! 0) = lc_board (ll_calls two_calls ! 1)"
    "lc_phase (ll_calls two_calls ! 1) = Running"
    by (simp_all add: two_calls_def enter_lock_def no_locks_def start_task_def leave_lock_def Let_def)
  then show ?thesis using local_lock_serialises[OF two_calls_reachable, of 0 1] by simp
qed

text \<open>The cleanup of the promise chain never happens. The map holds \<open>previous.then(() => current)\<close>,
  which is never the promise \<open>current\<close> that the \<open>finally\<close> block compares it with: once a board
  was locked its entry stays in the map for the life of the process, even when every call on it has
  finished.\<close>

theorem local_lock_entry_leaks:
  assumes "local_step\<^sup>*\<^sup>* no_locks s" "i < length (ll_calls s)" "lc_phase (ll_calls s ! i) = Running"
  shows "js_get (lc_board (ll_calls s ! i)) (ll_map (leave_lock i s)) \<noteq> None \<and>
    ll_map (leave_lock i s) = ll_map s"
  using map_listed[OF chain_inv_reachable[OF assms(1)] assms(2)] leave_lock_map[OF chain_inv_reachable[OF assms(1)] assms(2)]
  by simp

theorem local_lock_entry_leaks_witness:
  "js_get ''b1'' (ll_map (leave_lock 1 two_calls)) \<noteq> None \<and>
   lc_phase (ll_calls (leave_lock 1 two_calls) ! 0) = Finished \<and> lc_phase (ll_calls (leave_lock 1 two_calls) ! 1) = Finished"
proof -
  have f: "length (ll_calls two_calls) = 2" "lc_board (ll_calls two_calls ! 1) = ''b1''"
    "lc_phase (ll_calls two_calls ! 1) = Running"
    by (simp_all add: two_calls_def enter_lock_def no_locks_def start_task_def leave_lock_def Let_def)
  then show ?thesis using local_lock_entry_leaks[OF two_calls_reachable, of 1]
    by (simp add: two_calls_def enter_lock_def no_locks_def start_task_def leave_lock_def Let_def)
qed

end
