(* ===== verification/External_Services.thy ===== *)
theory External_Services
  imports JS_Prelude
begin

text \<open>
  The services the backend calls and whose code is not in the repository: the Redis server
  behind \<open>ioredis\<close>, the Postgres database behind \<open>drizzle\<close>, the clock, timers and the
  random sources. They are parameters of the model: a record \<open>env\<close> of operations on an
  abstract world \<open>'w\<close>. What the program relies on are the laws of the locales below,
  stated over a view of the world (the documented meaning of the Redis commands and of the
  SQL statements the program issues). A read is an observation of the world; a write or a
  pipeline of writes returns the next world. Hash and list values are JSON texts, and the
  program only stores texts it has just produced with \<open>JSON.stringify\<close>, so they are kept
  as documents. \<open>mem\<close> is an executable in-memory instance of all the laws.
\<close>

section \<open>Commands, rows and the view of the services\<close>

type_synonym rkey = string

datatype rcmd =
    SET rkey string
  | SET_PX rkey string int
  | SETNX rkey string
  | INCR rkey
  | PEXPIRE rkey int
  | DEL "rkey list"
  | HSET rkey string json
  | HDEL rkey "string list"
  | SADD rkey "string list"
  | SREM rkey "string list"
  | ZADD rkey int string
  | ZADD_NX rkey int string
  | ZADD_GT rkey int string
  | ZREM rkey "string list"
  | ZREMRANGEBYSCORE rkey int int
  | RPUSH rkey json
  | LTRIM_LAST rkey nat

record element_row =
  row_id :: string
  row_board :: string
  row_type :: json
  row_data :: js_object
  row_updated :: "int option"

datatype pg_stmt =
    DeleteBoardElements string
  | DeleteElementsIn string "string list"
  | InsertElements "element_row list"
  | UpsertElements string int "element_row list"
  | TouchBoard string int

record rview =
  v_now :: int
  v_strs :: "rkey \<rightharpoonup> string \<times> int option"
  v_hash :: "rkey \<Rightarrow> string \<rightharpoonup> json"
  v_set :: "rkey \<Rightarrow> string set"
  v_zset :: "rkey \<Rightarrow> string \<rightharpoonup> int"
  v_list :: "rkey \<Rightarrow> json list"
  v_rows :: "string \<rightharpoonup> element_row"
  v_boards :: "string \<rightharpoonup> int"

definition key_present :: "rview \<Rightarrow> rkey \<Rightarrow> bool" where
  "key_present v k = (v_strs v k \<noteq> None \<or> v_hash v k \<noteq> Map.empty \<or> v_set v k \<noteq> {} \<or>
     v_zset v k \<noteq> Map.empty \<or> v_list v k \<noteq> [])"

definition last_n :: "nat \<Rightarrow> 'a list \<Rightarrow> 'a list" where
  \<comment> \<open>\<open>LTRIM key -n -1\<close>\<close>
  "last_n n xs = drop (length xs - n) xs"

fun redis_step :: "rcmd \<Rightarrow> rview \<Rightarrow> rview" where
  "redis_step (SET k s) v = v\<lparr>v_strs := (v_strs v)(k \<mapsto> (s, None))\<rparr>"
| "redis_step (SET_PX k s ttl) v =
     (if ttl \<le> 0 then v else v\<lparr>v_strs := (v_strs v)(k \<mapsto> (s, Some (v_now v + ttl)))\<rparr>)"
| "redis_step (SETNX k s) v =
     (if v_strs v k = None then v\<lparr>v_strs := (v_strs v)(k \<mapsto> (s, None))\<rparr> else v)"
| "redis_step (INCR k) v =
     (case v_strs v k of
        None \<Rightarrow> v\<lparr>v_strs := (v_strs v)(k \<mapsto> (dec 1, None))\<rparr>
      | Some (s, e) \<Rightarrow> (case parse_int s of None \<Rightarrow> v
          | Some n \<Rightarrow> v\<lparr>v_strs := (v_strs v)(k \<mapsto> (dec (n + 1), e))\<rparr>))"
| "redis_step (PEXPIRE k ttl) v =
     (case v_strs v k of None \<Rightarrow> v
      | Some (s, e) \<Rightarrow> if ttl \<le> 0 then v\<lparr>v_strs := (v_strs v)(k := None)\<rparr>
          else v\<lparr>v_strs := (v_strs v)(k \<mapsto> (s, Some (v_now v + ttl)))\<rparr>)"
| "redis_step (DEL ks) v = v\<lparr>
     v_strs := (\<lambda>k. if k \<in> set ks then None else v_strs v k),
     v_hash := (\<lambda>k. if k \<in> set ks then Map.empty else v_hash v k),
     v_set := (\<lambda>k. if k \<in> set ks then {} else v_set v k),
     v_zset := (\<lambda>k. if k \<in> set ks then Map.empty else v_zset v k),
     v_list := (\<lambda>k. if k \<in> set ks then [] else v_list v k)\<rparr>"
| "redis_step (HSET k f j) v = v\<lparr>v_hash := (v_hash v)(k := (v_hash v k)(f \<mapsto> j))\<rparr>"
| "redis_step (HDEL k fs) v = v\<lparr>v_hash := (v_hash v)(k := (v_hash v k) |` (- set fs))\<rparr>"
| "redis_step (SADD k ms) v = v\<lparr>v_set := (v_set v)(k := v_set v k \<union> set ms)\<rparr>"
| "redis_step (SREM k ms) v = v\<lparr>v_set := (v_set v)(k := v_set v k - set ms)\<rparr>"
| "redis_step (ZADD k sc m) v = v\<lparr>v_zset := (v_zset v)(k := (v_zset v k)(m \<mapsto> sc))\<rparr>"
| "redis_step (ZADD_NX k sc m) v =
     (if v_zset v k m = None then v\<lparr>v_zset := (v_zset v)(k := (v_zset v k)(m \<mapsto> sc))\<rparr> else v)"
| "redis_step (ZADD_GT k sc m) v =
     (if (case v_zset v k m of None \<Rightarrow> True | Some old \<Rightarrow> old < sc)
      then v\<lparr>v_zset := (v_zset v)(k := (v_zset v k)(m \<mapsto> sc))\<rparr> else v)"
| "redis_step (ZREM k ms) v = v\<lparr>v_zset := (v_zset v)(k := (v_zset v k) |` (- set ms))\<rparr>"
| "redis_step (ZREMRANGEBYSCORE k lo hi) v = v\<lparr>v_zset := (v_zset v)(k :=
     (\<lambda>m. case v_zset v k m of None \<Rightarrow> None
        | Some sc \<Rightarrow> if lo \<le> sc \<and> sc \<le> hi then None else Some sc))\<rparr>"
| "redis_step (RPUSH k j) v = v\<lparr>v_list := (v_list v)(k := v_list v k @ [j])\<rparr>"
| "redis_step (LTRIM_LAST k n) v = v\<lparr>v_list := (v_list v)(k := last_n n (v_list v k))\<rparr>"

fun insert_rows :: "element_row list \<Rightarrow> (string \<rightharpoonup> element_row) \<Rightarrow> (string \<rightharpoonup> element_row)" where
  "insert_rows [] m = m"
| "insert_rows (r # rs) m = insert_rows rs (m(row_id r \<mapsto> r))"

fun pg_step :: "pg_stmt \<Rightarrow> rview \<Rightarrow> rview" where
  "pg_step (DeleteBoardElements b) v = v\<lparr>v_rows := (\<lambda>i. case v_rows v i of None \<Rightarrow> None
     | Some r \<Rightarrow> if row_board r = b then None else Some r)\<rparr>"
| "pg_step (DeleteElementsIn b ids) v = v\<lparr>v_rows := (\<lambda>i. case v_rows v i of None \<Rightarrow> None
     | Some r \<Rightarrow> if row_board r = b \<and> i \<in> set ids then None else Some r)\<rparr>"
| "pg_step (InsertElements rows) v = v\<lparr>v_rows := insert_rows rows (v_rows v)\<rparr>"
| "pg_step (UpsertElements b ts rows) v =
     v\<lparr>v_rows := insert_rows (map (\<lambda>r. r\<lparr>row_board := b, row_updated := Some ts\<rparr>) rows) (v_rows v)\<rparr>"
| "pg_step (TouchBoard b ts) v =
     (if v_boards v b = None then v else v\<lparr>v_boards := (v_boards v)(b \<mapsto> ts)\<rparr>)"

definition elapse :: "int \<Rightarrow> rview \<Rightarrow> rview" where
  \<comment> \<open>\<open>d\<close> milliseconds pass: keys whose time to live ends disappear\<close>
  "elapse d v = v\<lparr>v_now := v_now v + d,
     v_strs := (\<lambda>k. case v_strs v k of
        Some (s, Some t) \<Rightarrow> if t \<le> v_now v + d then None else Some (s, Some t)
      | other \<Rightarrow> other)\<rparr>"

fun glob_match :: "string \<Rightarrow> string \<Rightarrow> bool" where
  \<comment> \<open>\<open>SCAN ... MATCH\<close>; the program only uses literal characters and \<open>*\<close>\<close>
  "glob_match [] s = (s = [])"
| "glob_match (p # ps) s =
     (if p = CHR ''*'' then glob_match ps s \<or> (case s of [] \<Rightarrow> False | c # r \<Rightarrow> glob_match (p # ps) r)
      else (case s of [] \<Rightarrow> False | c # r \<Rightarrow> c = p \<and> glob_match ps r))"

section \<open>The operations\<close>

record 'w env =
  e_now :: "'w \<Rightarrow> int"
  e_sleep :: "nat \<Rightarrow> 'w \<Rightarrow> 'w"
  e_uuid :: "'w \<Rightarrow> string \<times> 'w"
  e_random_hex :: "'w \<Rightarrow> string \<times> 'w"
  e_write :: "rcmd list \<Rightarrow> 'w \<Rightarrow> 'w"
  e_incr :: "rkey \<Rightarrow> 'w \<Rightarrow> int \<times> 'w"
  e_set_nx_px :: "rkey \<Rightarrow> string \<Rightarrow> int \<Rightarrow> 'w \<Rightarrow> bool \<times> 'w"
  e_get :: "rkey \<Rightarrow> 'w \<Rightarrow> string option"
  e_exists :: "rkey \<Rightarrow> 'w \<Rightarrow> bool"
  e_ttl :: "rkey \<Rightarrow> 'w \<Rightarrow> int"
  e_idletime :: "rkey \<Rightarrow> 'w \<Rightarrow> int option"
  e_hget :: "rkey \<Rightarrow> string \<Rightarrow> 'w \<Rightarrow> json option"
  e_hgetall :: "rkey \<Rightarrow> 'w \<Rightarrow> (string \<times> json) list"
  e_hlen :: "rkey \<Rightarrow> 'w \<Rightarrow> nat"
  e_smembers :: "rkey \<Rightarrow> 'w \<Rightarrow> string list"
  e_scard :: "rkey \<Rightarrow> 'w \<Rightarrow> nat"
  e_srandmember :: "rkey \<Rightarrow> nat \<Rightarrow> 'w \<Rightarrow> string list"
  e_zrangebyscore :: "rkey \<Rightarrow> int option \<Rightarrow> nat \<Rightarrow> 'w \<Rightarrow> string list"
  e_zcard :: "rkey \<Rightarrow> 'w \<Rightarrow> nat"
  e_lrange :: "rkey \<Rightarrow> 'w \<Rightarrow> json list"
  e_scan :: "string \<Rightarrow> 'w \<Rightarrow> rkey list list"
  e_select_elements :: "string \<Rightarrow> 'w \<Rightarrow> element_row list result"
  e_select_boards :: "string \<Rightarrow> 'w \<Rightarrow> string list result"
  e_transaction :: "pg_stmt list \<Rightarrow> 'w \<Rightarrow> js_error option \<times> 'w"

definition e_hmget :: "'w env \<Rightarrow> rkey \<Rightarrow> string list \<Rightarrow> 'w \<Rightarrow> json option list" where
  "e_hmget E k fs w = map (\<lambda>f. e_hget E k f w) fs"

definition e_hvals :: "'w env \<Rightarrow> rkey \<Rightarrow> 'w \<Rightarrow> json list" where
  "e_hvals E k w = map snd (e_hgetall E k w)"

definition e_hexists :: "'w env \<Rightarrow> rkey \<Rightarrow> string \<Rightarrow> 'w \<Rightarrow> bool" where
  "e_hexists E k f w = (e_hget E k f w \<noteq> None)"

definition eval_del_if_equal :: "'w env \<Rightarrow> rkey \<Rightarrow> string \<Rightarrow> 'w \<Rightarrow> 'w" where
  \<comment> \<open>the Lua script that three components share: delete the key while it holds the token\<close>
  "eval_del_if_equal E k token w =
     (if e_get E k w = Some token then e_write E [DEL [k]] w else w)"

section \<open>What the program relies on\<close>

locale redis_client =
  fixes E :: "'w env" and view :: "'w \<Rightarrow> rview"
  assumes now: "e_now E w = v_now (view w)"
    and written: "view (e_write E cs w) = fold redis_step cs (view w)"
    and incr: "view (snd (e_incr E k w)) = redis_step (INCR k) (view w)"
    and incr_reply: "v_strs (view w) k = None \<Longrightarrow> fst (e_incr E k w) = 1"
      "v_strs (view w) k = Some (dec (x :: int), e) \<Longrightarrow> fst (e_incr E k w) = x + 1"
    and set_nx_reply: "fst (e_set_nx_px E k s ttl w) = (v_strs (view w) k = None)"
    and set_nx: "view (snd (e_set_nx_px E k s ttl w)) =
       (if v_strs (view w) k = None then redis_step (SET_PX k s ttl) (view w) else view w)"
    and uuid: "view (snd (e_uuid E w)) = view w"
      "v_strs (view w) k = Some (s, e) \<Longrightarrow> s \<noteq> fst (e_uuid E w)"
    and random_hex: "view (snd (e_random_hex E w)) = view w"
      "v_strs (view w) k = Some (s, e) \<Longrightarrow> s \<noteq> p @ fst (e_random_hex E w)"
    and expiry: "v_strs (view w) k = Some (s, Some t) \<Longrightarrow> v_now (view w) < t"
    and get: "e_get E k w = map_option fst (v_strs (view w) k)"
    and exists_str: "e_exists E k w = (v_strs (view w) k \<noteq> None)"
    and ttl: "v_strs (view w) k = Some (s, Some t) \<Longrightarrow> 0 \<le> e_ttl E k w"
    and hget: "e_hget E k f w = v_hash (view w) k f"
    and hgetall: "map_of (e_hgetall E k w) = v_hash (view w) k"
      "distinct (map fst (e_hgetall E k w))"
    and hlen: "e_hlen E k w = card (dom (v_hash (view w) k))"
    and smembers: "set (e_smembers E k w) = v_set (view w) k" "distinct (e_smembers E k w)"
    and scard: "e_scard E k w = card (v_set (view w) k)"
    and srandmember: "set (e_srandmember E k n w) \<subseteq> v_set (view w) k"
      "distinct (e_srandmember E k n w)" "length (e_srandmember E k n w) \<le> n"
    and zrange: "\<exists>xs. distinct xs \<and>
       set xs = {m. \<exists>sc. v_zset (view w) k m = Some sc \<and> (case hi of None \<Rightarrow> True | Some h \<Rightarrow> sc \<le> h)} \<and>
       sorted_wrt (\<lambda>a b. the (v_zset (view w) k a) \<le> the (v_zset (view w) k b)) xs \<and>
       e_zrangebyscore E k hi n w = take n xs"
    and zcard: "finite (dom (v_zset (view w) k))" "e_zcard E k w = card (dom (v_zset (view w) k))"
    and lrange: "e_lrange E k w = v_list (view w) k"
    and scan: "set (concat (e_scan E p w)) = {k. key_present (view w) k \<and> glob_match p k}"

locale pg_client =
  fixes E :: "'w env" and view :: "'w \<Rightarrow> rview"
  assumes rows_keyed: "v_rows (view w) i = Some r \<Longrightarrow> row_id r = i"
    and select_elements: "e_select_elements E b w = Inr rows \<Longrightarrow>
       distinct (map row_id rows) \<and>
       (\<forall>r. r \<in> set rows \<longleftrightarrow> v_rows (view w) (row_id r) = Some r \<and> row_board r = b)"
    and select_boards: "e_select_boards E b w = Inr ids \<Longrightarrow> ids \<noteq> [] \<longleftrightarrow> v_boards (view w) b \<noteq> None"
    and commit: "e_transaction E ss w = (None, w') \<Longrightarrow> view w' = fold pg_step ss (view w)"
    and rollback: "e_transaction E ss w = (Some e, w') \<Longrightarrow> view w' = view w"

locale services = redis_client E view + pg_client E view
  for E :: "'w env" and view :: "'w \<Rightarrow> rview"

locale quiet_services = services E view
  for E :: "'w env" and view :: "'w \<Rightarrow> rview" +
  assumes sleep: "\<exists>d \<ge> int ms. view (e_sleep E ms w) = elapse d (view w)"

section \<open>Rewriting with the laws\<close>

named_theorems view_simps
  "what one command leaves of every part of the view"

lemma redis_step_now [simp]: "v_now (redis_step c v) = v_now v"
  by (cases c) (auto split: option.splits)

lemma redis_steps_now [simp]: "v_now (fold redis_step cs v) = v_now v"
  by (induction cs arbitrary: v) auto

lemma redis_step_pg [simp]:
  "v_rows (redis_step c v) = v_rows v" "v_boards (redis_step c v) = v_boards v"
  by (cases c; auto split: option.splits)+

lemma redis_steps_pg [simp]:
  "v_rows (fold redis_step cs v) = v_rows v" "v_boards (fold redis_step cs v) = v_boards v"
  by (induction cs arbitrary: v) auto

lemma pg_step_redis [simp]:
  "v_now (pg_step s v) = v_now v" "v_strs (pg_step s v) = v_strs v" "v_hash (pg_step s v) = v_hash v"
  "v_set (pg_step s v) = v_set v" "v_zset (pg_step s v) = v_zset v" "v_list (pg_step s v) = v_list v"
  by (cases s; simp)+

lemma pg_steps_redis [simp]:
  "v_now (fold pg_step ss v) = v_now v" "v_strs (fold pg_step ss v) = v_strs v"
  "v_hash (fold pg_step ss v) = v_hash v" "v_set (fold pg_step ss v) = v_set v"
  "v_zset (fold pg_step ss v) = v_zset v" "v_list (fold pg_step ss v) = v_list v"
  by (induction ss arbitrary: v) auto

lemma elapse_frame [simp]:
  "v_now (elapse d v) = v_now v + d" "v_hash (elapse d v) = v_hash v" "v_set (elapse d v) = v_set v"
  "v_zset (elapse d v) = v_zset v" "v_list (elapse d v) = v_list v"
  "v_rows (elapse d v) = v_rows v" "v_boards (elapse d v) = v_boards v"
  by (simp_all add: elapse_def)

lemma elapse_persistent: "v_strs v k = Some (s, None) \<Longrightarrow> v_strs (elapse d v) k = Some (s, None)"
  by (simp add: elapse_def)

lemma elapse_absent: "v_strs v k = None \<Longrightarrow> v_strs (elapse d v) k = None"
  by (simp add: elapse_def)

lemma elapse_expiring:
  "v_strs v k = Some (s, Some t) \<Longrightarrow>
   v_strs (elapse d v) k = (if t \<le> v_now v + d then None else Some (s, Some t))"
  by (simp add: elapse_def)

lemma fold_HSET:
  "fold redis_step (map (\<lambda>p. HSET k (fst p) (snd p)) ps) v =
   v\<lparr>v_hash := (v_hash v)(k := v_hash v k ++ map_of (rev ps))\<rparr>"
proof (induction ps arbitrary: v)
  case (Cons p ps)
  have "(v_hash v k)(fst p \<mapsto> snd p) ++ map_of (rev ps) = v_hash v k ++ map_of (rev (p # ps))"
    by (simp add: map_add_upd_left fun_eq_iff map_add_def split: option.split)
  then show ?case by (simp add: Cons fun_upd_upd fun_upd_same del: fun_upd_apply map_of_append rev.simps)
qed simp

lemma map_of_rev_distinct: "distinct (map fst ps) \<Longrightarrow> map_of (rev ps) = map_of ps"
  using js_get_rev[of ps] by (simp add: js_get_def fun_eq_iff)

context redis_client
begin

lemma hmget: "e_hmget E k fs w = map (v_hash (view w) k) fs"
  by (simp add: e_hmget_def hget)

lemma hexists: "e_hexists E k f w = (v_hash (view w) k f \<noteq> None)"
  by (simp add: e_hexists_def hget)

lemma del_if_equal: "view (eval_del_if_equal E k token w) =
   (if map_option fst (v_strs (view w) k) = Some token then redis_step (DEL [k]) (view w) else view w)"
  by (simp add: eval_del_if_equal_def get written)

lemma finite_hash [simp]: "finite (dom (v_hash (view w) k))"
  by (metis hgetall(1) finite_dom_map_of)

lemma finite_rset [simp]: "finite (v_set (view w) k)"
  by (metis smembers(1) List.finite_set)

end

end
