(* ===== verification/Board_Keys.thy ===== *)
theory Board_Keys
  imports External_Services
begin

text \<open>
  The key space of a board in Redis and its time constants
  (\<open>collaboration/board-state/keys.ts\<close>). Every key of a board is \<open>board:<id>:<suffix>\<close>; the
  lemmas say which keys can coincide.
\<close>

named_theorems key_defs
  "the board keys as instances of bkey"

definition bkey :: "string \<Rightarrow> string \<Rightarrow> rkey" where
  "bkey b suffix = ''board:'' @ b @ '':'' @ suffix"

definition SEEN_TTL_SECONDS :: int where "SEEN_TTL_SECONDS = 300"
definition CHANGE_LOG_MAX_LENGTH :: nat where "CHANGE_LOG_MAX_LENGTH = 2000"
definition DIRTY_BOARDS_KEY :: string where "DIRTY_BOARDS_KEY = ''boards:dirty''"
definition DIRTY_BOARDS_BY_AGE_KEY :: string where "DIRTY_BOARDS_BY_AGE_KEY = ''boards:dirty_by_age''"
definition ACTIVE_BOARDS_KEY :: string where "ACTIVE_BOARDS_KEY = ''boards:active''"
definition VIEWER_SESSION_TTL_MS :: int where "VIEWER_SESSION_TTL_MS = 90000"
definition CLIENT_LEASE_TTL_SECONDS :: int where "CLIENT_LEASE_TTL_SECONDS = 90"
definition COLLAB_MODE_COOLDOWN_MS :: int where "COLLAB_MODE_COOLDOWN_MS = 90000"
definition BOARD_LOAD_LOCK_TTL_MS :: int where "BOARD_LOAD_LOCK_TTL_MS = 30000"
definition BOARD_LOAD_LOCK_POLL_MS :: nat where "BOARD_LOAD_LOCK_POLL_MS = 25"
definition BOARD_EVICTION_LOCK_TTL_MS :: int where "BOARD_EVICTION_LOCK_TTL_MS = 30000"
definition BOARD_EVICTION_LOCK_POLL_MS :: nat where "BOARD_EVICTION_LOCK_POLL_MS = 25"
definition BOARD_MUTATION_LOCK_TTL_MS :: int where "BOARD_MUTATION_LOCK_TTL_MS = 30000"
definition BOARD_MUTATION_LOCK_POLL_MS :: nat where "BOARD_MUTATION_LOCK_POLL_MS = 25"
definition BOARD_MUTATION_LOCK_ACQUIRE_TIMEOUT_MS :: int where "BOARD_MUTATION_LOCK_ACQUIRE_TIMEOUT_MS = 2000"

definition boardSeqKey :: "string \<Rightarrow> rkey" where
  [key_defs]: "boardSeqKey b = bkey b ''seq''"
definition boardElementsKey :: "string \<Rightarrow> rkey" where
  [key_defs]: "boardElementsKey b = bkey b ''elements''"
definition boardSeenKey :: "string \<Rightarrow> string \<Rightarrow> rkey" where
  [key_defs]: "boardSeenKey b m = bkey b (''seen:'' @ m)"
definition boardChangeLogKey :: "string \<Rightarrow> rkey" where
  [key_defs]: "boardChangeLogKey b = bkey b ''changes''"
definition boardClientsKey :: "string \<Rightarrow> rkey" where
  [key_defs]: "boardClientsKey b = bkey b ''clients''"
definition boardClientLeaseKey :: "string \<Rightarrow> string \<Rightarrow> rkey" where
  [key_defs]: "boardClientLeaseKey b m = bkey b (''client_lease:'' @ m)"
definition boardViewerSessionsKey :: "string \<Rightarrow> rkey" where
  [key_defs]: "boardViewerSessionsKey b = bkey b ''viewer_sessions''"
definition boardLastActiveKey :: "string \<Rightarrow> rkey" where
  [key_defs]: "boardLastActiveKey b = bkey b ''last_active''"
definition boardDirtyElementIdsKey :: "string \<Rightarrow> rkey" where
  [key_defs]: "boardDirtyElementIdsKey b = bkey b ''dirty_element_ids''"
definition boardDeletedElementIdsKey :: "string \<Rightarrow> rkey" where
  [key_defs]: "boardDeletedElementIdsKey b = bkey b ''deleted_element_ids''"
definition boardDirtySinceKey :: "string \<Rightarrow> rkey" where
  [key_defs]: "boardDirtySinceKey b = bkey b ''dirty_since''"
definition boardDirtyEpochKey :: "string \<Rightarrow> rkey" where
  [key_defs]: "boardDirtyEpochKey b = bkey b ''dirty_epoch''"
definition boardLastFlushedSequenceKey :: "string \<Rightarrow> rkey" where
  [key_defs]: "boardLastFlushedSequenceKey b = bkey b ''last_flushed_seq''"
definition boardLastFlushedAtKey :: "string \<Rightarrow> rkey" where
  [key_defs]: "boardLastFlushedAtKey b = bkey b ''last_flushed_at''"
definition boardLastFlushDurationKey :: "string \<Rightarrow> rkey" where
  [key_defs]: "boardLastFlushDurationKey b = bkey b ''last_flush_duration_ms''"
definition boardCollabModeUntilKey :: "string \<Rightarrow> rkey" where
  [key_defs]: "boardCollabModeUntilKey b = bkey b ''collab_mode_until''"
definition boardLoadLockKey :: "string \<Rightarrow> rkey" where
  [key_defs]: "boardLoadLockKey b = bkey b ''load_lock''"
definition boardEvictionLockKey :: "string \<Rightarrow> rkey" where
  [key_defs]: "boardEvictionLockKey b = bkey b ''eviction_lock''"
definition boardMutationLockKey :: "string \<Rightarrow> rkey" where
  [key_defs]: "boardMutationLockKey b = bkey b ''mutation_lock''"

definition clientMember :: "string \<Rightarrow> string \<Rightarrow> string" where
  "clientMember userId connectionId = userId @ '':'' @ connectionId"

lemma bkey_same_board [simp]: "bkey b x = bkey b y \<longleftrightarrow> x = y"
  by (simp add: bkey_def)

lemma bkey_not_global [simp]:
  "bkey b x \<noteq> DIRTY_BOARDS_KEY" "DIRTY_BOARDS_KEY \<noteq> bkey b x"
  "bkey b x \<noteq> DIRTY_BOARDS_BY_AGE_KEY" "DIRTY_BOARDS_BY_AGE_KEY \<noteq> bkey b x"
  "bkey b x \<noteq> ACTIVE_BOARDS_KEY" "ACTIVE_BOARDS_KEY \<noteq> bkey b x"
  by (simp_all add: bkey_def DIRTY_BOARDS_KEY_def DIRTY_BOARDS_BY_AGE_KEY_def ACTIVE_BOARDS_KEY_def)

lemma global_keys_distinct [simp]:
  "DIRTY_BOARDS_KEY \<noteq> DIRTY_BOARDS_BY_AGE_KEY" "DIRTY_BOARDS_BY_AGE_KEY \<noteq> DIRTY_BOARDS_KEY"
  "DIRTY_BOARDS_KEY \<noteq> ACTIVE_BOARDS_KEY" "ACTIVE_BOARDS_KEY \<noteq> DIRTY_BOARDS_KEY"
  "DIRTY_BOARDS_BY_AGE_KEY \<noteq> ACTIVE_BOARDS_KEY" "ACTIVE_BOARDS_KEY \<noteq> DIRTY_BOARDS_BY_AGE_KEY"
  by (simp_all add: DIRTY_BOARDS_KEY_def DIRTY_BOARDS_BY_AGE_KEY_def ACTIVE_BOARDS_KEY_def)

lemma split_at_colon:
  assumes "CHR '':'' \<notin> set xs" "CHR '':'' \<notin> set ys"
  shows "xs @ '':'' @ us = ys @ '':'' @ vs \<longleftrightarrow> xs = ys \<and> us = vs"
  using assms
proof (induction xs arbitrary: ys)
  case Nil
  then show ?case by (cases ys) auto
next
  case (Cons a xs)
  then show ?case by (cases ys) auto
qed

lemma bkey_boards:
  assumes "CHR '':'' \<notin> set b" "CHR '':'' \<notin> set c"
  shows "bkey b x = bkey c y \<longleftrightarrow> b = c \<and> x = y"
  using split_at_colon[OF assms, of x y] by (simp add: bkey_def)

lemma clientMember_inj:
  assumes "CHR '':'' \<notin> set u" "CHR '':'' \<notin> set u'"
  shows "clientMember u c = clientMember u' c' \<longleftrightarrow> u = u' \<and> c = c'"
  using split_at_colon[OF assms, of c c'] by (simp add: clientMember_def)

end
