(* ===== verification/State_Utils.thy ===== *)
theory State_Utils
  imports JS_Prelude
begin

text \<open>
  Board elements and the pure helpers of \<open>collaboration/board-state/state-utils.ts\<close>:
  deduplication of upserts and the cascading delete, which the lemmas identify with the
  reflexive-transitive closure of containment.
\<close>

type_synonym board_element = js_object

definition el_id :: "board_element \<Rightarrow> string" where
  \<comment> \<open>\<open>element.id\<close> as the key it is used as; its type is \<open>string\<close>, other values become their text\<close>
  "el_id e = (case js_get ''id'' e of Some v \<Rightarrow> json_text v | None \<Rightarrow> ''undefined'')"

lemma el_id_put [simp]:
  "k \<noteq> ''id'' \<Longrightarrow> el_id (js_put k v e) = el_id e"
  "el_id (js_put ''id'' (JStr i) e) = i"
  by (simp_all add: el_id_def)

lemma el_id_string: "string_field ''id'' e = Some i \<Longrightarrow> el_id e = i"
  by (cases "js_get ''id'' e" rule: option.exhaust[case_names None Some])
     (auto simp: el_id_def string_field_def elim: json_string.elims)

section \<open>normalizeUpserts\<close>

definition normalizeUpserts :: "board_element list \<Rightarrow> board_element list" where
  "normalizeUpserts upserts = map snd (fold (\<lambda>e m. js_put (el_id e) e m) upserts [])"

lemma fold_put_ids:
  "map fst (fold (\<lambda>e m. js_put (el_id e) e m) es m) = js_add_all (map el_id es) (map fst m)"
  by (induction es arbitrary: m) (simp_all add: keys_js_put)

lemma fold_put_keyed:
  "\<forall>p \<in> set m. fst p = el_id (snd p) \<Longrightarrow>
   \<forall>p \<in> set (fold (\<lambda>e m. js_put (el_id e) e m) es m). fst p = el_id (snd p)"
proof (induction es arbitrary: m)
  case (Cons e es)
  have "\<forall>p \<in> set (js_put (el_id e) e m). fst p = el_id (snd p)"
    using Cons.prems set_js_put_subset[of "el_id e" e m] by fastforce
  then show ?case using Cons.IH by simp
qed simp

lemma normalizeUpserts_ids: "map el_id (normalizeUpserts es) = js_set (map el_id es)"
proof -
  let ?m = "fold (\<lambda>e m. js_put (el_id e) e m) es []"
  have "map el_id (map snd ?m) = map fst ?m"
    using fold_put_keyed[of "[]" es] by (simp only: map_map) (intro map_cong refl, auto)
  then show ?thesis
    by (simp add: normalizeUpserts_def fold_put_ids js_set_def)
qed

lemma fold_put_get:
  "js_get i (fold (\<lambda>e m. js_put (el_id e) e m) es m) =
   (case filter (\<lambda>e. el_id e = i) es of [] \<Rightarrow> js_get i m | xs \<Rightarrow> Some (last xs))"
  by (induction es arbitrary: m) (auto split: list.splits)

lemma normalizeUpserts_mem:
  "e \<in> set (normalizeUpserts es) \<longleftrightarrow>
   filter (\<lambda>x. el_id x = el_id e) es \<noteq> [] \<and> last (filter (\<lambda>x. el_id x = el_id e) es) = e"
proof -
  let ?m = "fold (\<lambda>e m. js_put (el_id e) e m) es []"
  have d: "distinct (map fst ?m)" by (simp add: fold_put_ids)
  have "e \<in> set (normalizeUpserts es) \<longleftrightarrow> (el_id e, e) \<in> set ?m"
  proof
    assume "e \<in> set (normalizeUpserts es)"
    then obtain i where "(i, e) \<in> set ?m" by (auto simp: normalizeUpserts_def)
    moreover have "\<forall>p \<in> set ?m. fst p = el_id (snd p)" using fold_put_keyed[of "[]" es] by simp
    ultimately show "(el_id e, e) \<in> set ?m" by force
  qed (force simp: normalizeUpserts_def)
  also have "\<dots> \<longleftrightarrow> js_get (el_id e) ?m = Some e" using js_get_set[OF d] by simp
  finally show ?thesis by (auto simp: fold_put_get split: list.splits)
qed

lemma distinct_normalizeUpserts [simp]: "distinct (map el_id (normalizeUpserts es))"
  by (simp add: normalizeUpserts_ids)

lemma normalizeUpserts_Nil [simp]: "normalizeUpserts [] = []"
  by (simp add: normalizeUpserts_def)

lemma normalizeUpserts_distinct:
  assumes "distinct (map el_id es)" shows "normalizeUpserts es = es"
proof -
  have "fold (\<lambda>e m. js_put (el_id e) e m) es m = m @ map (\<lambda>e. (el_id e, e)) es"
    if "distinct (map el_id es)" "fst ` set m \<inter> el_id ` set es = {}" for m
    using that
  proof (induction es arbitrary: m)
    case (Cons e es)
    have "js_put (el_id e) e m = m @ [(el_id e, e)]"
      using Cons.prems(2) by (intro js_put_fresh) auto
    then show ?case using Cons by auto
  qed simp
  from this[of "[]"] assms show ?thesis by (simp add: normalizeUpserts_def comp_def)
qed

section \<open>collectCascadeDeleteIds\<close>

type_synonym children_index = "(string \<times> string list) list"

definition parent_of :: "string \<Rightarrow> board_element \<Rightarrow> string option" where
  \<comment> \<open>a string field that is not empty: \<open>if (containerId)\<close>\<close>
  "parent_of field e = (case string_field field e of
     Some p \<Rightarrow> if p = [] then None else Some p | None \<Rightarrow> None)"

definition siblings_of :: "string \<Rightarrow> children_index \<Rightarrow> string list" where
  \<comment> \<open>\<open>index.get(id) ?? []\<close>\<close>
  "siblings_of p idx = (case js_get p idx of Some xs \<Rightarrow> xs | None \<Rightarrow> [])"

definition index_children :: "string \<Rightarrow> board_element list \<Rightarrow> children_index" where
  "index_children field es = fold (\<lambda>e idx. case parent_of field e of
     None \<Rightarrow> idx | Some p \<Rightarrow> js_put p (siblings_of p idx @ [el_id e]) idx) es []"

definition visit_child :: "string \<Rightarrow> string list \<times> string list \<Rightarrow> string list \<times> string list" where
  "visit_child c st = (case st of (deletes, pending) \<Rightarrow>
     if c \<in> set deletes then (deletes, pending) else (deletes @ [c], pending @ [c]))"

definition cascade_kids :: "children_index \<Rightarrow> children_index \<Rightarrow> string \<Rightarrow> string list" where
  "cascade_kids cols metas p = siblings_of p cols @ siblings_of p metas"

lemma fold_visit_child:
  "\<exists>new. distinct new \<and> set new = set cs - set ds \<and> fold visit_child cs (ds, p) = (ds @ new, p @ new)"
proof (induction cs arbitrary: ds p)
  case (Cons c cs)
  show ?case
  proof (cases "c \<in> set ds")
    case True
    then show ?thesis using Cons[of ds p] by (auto simp: visit_child_def)
  next
    case False
    obtain new where "distinct new" "set new = set cs - set (ds @ [c])"
      "fold visit_child cs (ds @ [c], p @ [c]) = ((ds @ [c]) @ new, (p @ [c]) @ new)"
      using Cons by blast
    then have "distinct (c # new)" "set (c # new) = set (c # cs) - set ds"
      "fold visit_child (c # cs) (ds, p) = (ds @ c # new, p @ c # new)"
      using False by (simp_all add: visit_child_def) blast
    then show ?thesis by blast
  qed
qed simp

function cascade_loop :: "children_index \<Rightarrow> children_index \<Rightarrow> string list \<Rightarrow> string list \<Rightarrow> string list" where
  "cascade_loop cols metas [] deletes = deletes"
| "cascade_loop cols metas (cur # pending) deletes =
     (case fold visit_child (cascade_kids cols metas cur) (deletes, pending) of
        (deletes', pending') \<Rightarrow> cascade_loop cols metas pending' deletes')"
  by pat_completeness auto

definition index_ids :: "children_index \<Rightarrow> string set" where
  "index_ids idx = (\<Union>p \<in> set idx. set (snd p))"

lemma siblings_in_index: "set (siblings_of p idx) \<subseteq> index_ids idx"
proof (cases "js_get p idx")
  case (Some xs)
  then have "(p, xs) \<in> set idx" by (simp add: js_get_def map_of_SomeD)
  with Some show ?thesis by (force simp: siblings_of_def index_ids_def)
qed (simp add: siblings_of_def)

termination cascade_loop
proof (relation "measure (\<lambda>(cols, metas, pending, deletes).
    card (index_ids cols \<union> index_ids metas - set deletes) + length pending)", goal_cases)
  case (2 cols metas cur pending deletes deletes' pending')
  let ?U = "index_ids cols \<union> index_ids metas"
  obtain new where new: "distinct new" "set new = set (cascade_kids cols metas cur) - set deletes"
    "fold visit_child (cascade_kids cols metas cur) (deletes, pending) = (deletes @ new, pending @ new)"
    using fold_visit_child by blast
  have fin: "finite (?U - set deletes)" by (simp add: index_ids_def)
  have sub: "set new \<subseteq> ?U - set deletes"
    using new(2) siblings_in_index by (fastforce simp: cascade_kids_def)
  have "card (?U - set deletes - set new) + length new = card (?U - set deletes)"
    using card_Diff_subset[of "set new" "?U - set deletes"] sub fin new(1)
      card_mono[OF fin sub] by (simp add: distinct_card)
  then show ?case using 2 new(3) by (simp add: Diff_eq Int_assoc set_eq_iff)
qed simp

definition collectCascadeDeleteIds :: "(string \<times> board_element) list \<Rightarrow> string list \<Rightarrow> string list" where
  "collectCascadeDeleteIds allElements requestedDeletes =
     (let pending = js_set requestedDeletes; es = map snd allElements
      in cascade_loop (index_children ''containerId'' es) (index_children ''metaContainerId'' es)
           pending pending)"

subsection \<open>The closure it computes\<close>

definition contains_rel :: "board_element set \<Rightarrow> (string \<times> string) set" where
  "contains_rel es = {(p, c). \<exists>e \<in> es. el_id e = c \<and>
     (parent_of ''containerId'' e = Some p \<or> parent_of ''metaContainerId'' e = Some p)}"

lemma siblings_of_put [simp]: "siblings_of p (js_put q xs idx) = (if p = q then xs else siblings_of p idx)"
  by (simp add: siblings_of_def)

lemma index_children_siblings:
  "set (siblings_of p (index_children field es)) = {el_id e | e. e \<in> set es \<and> parent_of field e = Some p}"
proof -
  have "set (siblings_of p (fold (\<lambda>e idx. case parent_of field e of
       None \<Rightarrow> idx | Some p \<Rightarrow> js_put p (siblings_of p idx @ [el_id e]) idx) es idx)) =
     set (siblings_of p idx) \<union> {el_id e | e. e \<in> set es \<and> parent_of field e = Some p}" for idx
  proof (induction es arbitrary: idx)
    case (Cons e es)
    then show ?case by (cases "parent_of field e") auto
  qed simp
  from this[of "[]"] show ?thesis by (simp add: index_children_def siblings_of_def)
qed

lemma cascade_kids_rel:
  "set (cascade_kids (index_children ''containerId'' es) (index_children ''metaContainerId'' es) p) =
   contains_rel (set es) `` {p}"
  by (auto simp: cascade_kids_def index_children_siblings contains_rel_def)

lemma cascade_loop_closure:
  assumes "distinct ds" "set ps \<subseteq> set ds"
    "\<And>x. x \<in> set ds - set ps \<Longrightarrow> set (cascade_kids cols metas x) \<subseteq> set ds"
  shows "distinct (cascade_loop cols metas ps ds) \<and> set ds \<subseteq> set (cascade_loop cols metas ps ds) \<and>
    (\<forall>x \<in> set (cascade_loop cols metas ps ds).
       set (cascade_kids cols metas x) \<subseteq> set (cascade_loop cols metas ps ds)) \<and>
    (\<forall>C. set ds \<subseteq> C \<longrightarrow> (\<forall>x \<in> C. set (cascade_kids cols metas x) \<subseteq> C) \<longrightarrow>
       set (cascade_loop cols metas ps ds) \<subseteq> C)"
  using assms
proof (induction cols metas ps ds rule: cascade_loop.induct)
  case (2 cols metas cur pending deletes)
  obtain new where new: "distinct new" "set new = set (cascade_kids cols metas cur) - set deletes"
    "fold visit_child (cascade_kids cols metas cur) (deletes, pending) = (deletes @ new, pending @ new)"
    using fold_visit_child by blast
  have IH: "distinct R \<and> set (deletes @ new) \<subseteq> set R \<and>
      (\<forall>x \<in> set R. set (cascade_kids cols metas x) \<subseteq> set R) \<and>
      (\<forall>C. set (deletes @ new) \<subseteq> C \<longrightarrow> (\<forall>x \<in> C. set (cascade_kids cols metas x) \<subseteq> C) \<longrightarrow> set R \<subseteq> C)"
    if R: "R = cascade_loop cols metas (pending @ new) (deletes @ new)" for R
    unfolding R
  proof (rule "2.IH"[OF new(3)[symmetric]])
    show "distinct (deletes @ new)" using "2.prems"(1) new by auto
    show "set (pending @ new) \<subseteq> set (deletes @ new)" using "2.prems"(2) by auto
    show "set (cascade_kids cols metas x) \<subseteq> set (deletes @ new)"
      if "x \<in> set (deletes @ new) - set (pending @ new)" for x
      using that "2.prems"(3)[of x] new(2) by (cases "x = cur") auto
  qed
  have cur: "cur \<in> set deletes" using "2.prems"(2) by simp
  have eq: "cascade_loop cols metas (cur # pending) deletes =
      cascade_loop cols metas (pending @ new) (deletes @ new)" by (simp add: new(3))
  have "set new \<subseteq> C" if "set deletes \<subseteq> C" "\<forall>x \<in> C. set (cascade_kids cols metas x) \<subseteq> C" for C
    using that cur new(2) by fast
  then show ?case using IH[OF refl] unfolding eq set_append by (meson Un_least Un_upper1 subset_trans)
qed auto

lemma collectCascadeDeleteIds_closure:
  "distinct (collectCascadeDeleteIds els req)"
  "set (collectCascadeDeleteIds els req) = (contains_rel (snd ` set els))\<^sup>* `` set req"
proof -
  let ?cols = "index_children ''containerId'' (map snd els)"
  let ?metas = "index_children ''metaContainerId'' (map snd els)"
  let ?R = "collectCascadeDeleteIds els req" and ?rel = "contains_rel (snd ` set els)"
  have kids: "set (cascade_kids ?cols ?metas x) = ?rel `` {x}" for x
    using cascade_kids_rel[of "map snd els" x] by simp
  have main: "distinct ?R \<and> set req \<subseteq> set ?R \<and> (\<forall>x \<in> set ?R. ?rel `` {x} \<subseteq> set ?R) \<and>
      (\<forall>C. set req \<subseteq> C \<longrightarrow> (\<forall>x \<in> C. ?rel `` {x} \<subseteq> C) \<longrightarrow> set ?R \<subseteq> C)"
    using cascade_loop_closure[of "js_set req" "js_set req" ?cols ?metas]
    by (simp add: collectCascadeDeleteIds_def Let_def kids)
  then show "distinct ?R" by blast
  have "y \<in> set ?R" if "(x, y) \<in> ?rel\<^sup>*" "x \<in> set req" for x y
    using that by (induction rule: rtrancl_induct) (use main in \<open>auto\<close>)
  moreover have "set ?R \<subseteq> ?rel\<^sup>* `` set req"
  proof -
    have "set req \<subseteq> ?rel\<^sup>* `` set req" by auto
    moreover have "\<forall>x \<in> ?rel\<^sup>* `` set req. ?rel `` {x} \<subseteq> ?rel\<^sup>* `` set req"
      by (auto intro: rtrancl_into_rtrancl)
    ultimately show ?thesis using main by blast
  qed
  ultimately show "set ?R = ?rel\<^sup>* `` set req" by auto
qed

lemma cascade_includes_requested: "set req \<subseteq> set (collectCascadeDeleteIds els req)"
  by (auto simp: collectCascadeDeleteIds_closure(2))

lemma cascade_nonempty: "req \<noteq> [] \<Longrightarrow> collectCascadeDeleteIds els req \<noteq> []"
  using cascade_includes_requested[of req els] by auto

end
