(* ===== verification/Memory_Services.thy ===== *)
theory Memory_Services
  imports External_Services
begin

text \<open>
  An executable instance of the services: a record of association lists for the Redis key
  spaces, lists for the Postgres tables, and a failure the next transactions report. Its
  interpretation shows that the laws of \<open>External_Services\<close> can hold together, and the
  witnesses of the other theories run the model on it.
\<close>

record mem =
  m_now :: int
  m_strs :: "(rkey \<times> string \<times> int option) list"
  m_hash :: "(rkey \<times> js_object) list"
  m_set :: "(rkey \<times> string list) list"
  m_zset :: "(rkey \<times> (string \<times> int) list) list"
  m_list :: "(rkey \<times> json list) list"
  m_rows :: "element_row list"
  m_boards :: "(string \<times> int) list"
  m_fail :: "js_error option"

definition lk :: "rkey \<Rightarrow> (rkey \<times> 'a list) list \<Rightarrow> 'a list" where
  "lk k xs = (case js_get k xs of None \<Rightarrow> [] | Some v \<Rightarrow> v)"

lemma lk_put [simp]: "lk k (js_put k' v xs) = (if k = k' then v else lk k xs)"
  by (simp add: lk_def)

lemma lk_simps [simp]:
  "lk k [] = []"
  "lk k ((k', v) # xs) = (if k = k' then v else lk k xs)"
  by (simp_all add: lk_def)

fun live_at :: "int \<Rightarrow> (string \<times> int option) option \<Rightarrow> (string \<times> int option) option" where
  "live_at n (Some (s, Some t)) = (if t \<le> n then None else Some (s, Some t))"
| "live_at n other = other"

definition mem_str :: "mem \<Rightarrow> rkey \<Rightarrow> (string \<times> int option) option" where
  "mem_str m k = live_at (m_now m) (js_get k (m_strs m))"

lemma live_at_Some: "live_at n x = Some (s, e) \<longleftrightarrow> x = Some (s, e) \<and> (case e of None \<Rightarrow> True | Some t \<Rightarrow> n < t)"
  by (cases "(n, x)" rule: live_at.cases) auto

definition rows_map :: "element_row list \<Rightarrow> string \<rightharpoonup> element_row" where
  "rows_map rows = map_of (map (\<lambda>r. (row_id r, r)) rows)"

definition mem_view :: "mem \<Rightarrow> rview" where
  "mem_view m = \<lparr>v_now = m_now m, v_strs = mem_str m,
     v_hash = (\<lambda>k. map_of (lk k (m_hash m))), v_set = (\<lambda>k. set (lk k (m_set m))),
     v_zset = (\<lambda>k. map_of (lk k (m_zset m))), v_list = (\<lambda>k. lk k (m_list m)),
     v_rows = rows_map (m_rows m), v_boards = map_of (m_boards m)\<rparr>"

definition drop_keys :: "'k list \<Rightarrow> ('k \<times> 'v) list \<Rightarrow> ('k \<times> 'v) list" where
  "drop_keys ks xs = filter (\<lambda>p. fst p \<notin> set ks) xs"

lemma js_get_drop_keys [simp]: "js_get k (drop_keys ks xs) = (if k \<in> set ks then None else js_get k xs)"
  by (induction xs) (auto simp: drop_keys_def js_get_def)

lemma map_of_drop_keys: "map_of (drop_keys ks xs) = map_of xs |` (- set ks)"
  by (rule ext) (use js_get_drop_keys[of _ ks xs] in \<open>auto simp: js_get_def restrict_map_def\<close>)

lemma lk_drop_keys [simp]: "lk k (drop_keys ks xs) = (if k \<in> set ks then [] else lk k xs)"
  by (simp add: lk_def)

fun mem_step :: "rcmd \<Rightarrow> mem \<Rightarrow> mem" where
  "mem_step (SET k s) m = m\<lparr>m_strs := js_put k (s, None) (m_strs m)\<rparr>"
| "mem_step (SET_PX k s ttl) m =
     (if ttl \<le> 0 then m else m\<lparr>m_strs := js_put k (s, Some (m_now m + ttl)) (m_strs m)\<rparr>)"
| "mem_step (SETNX k s) m =
     (if mem_str m k = None then m\<lparr>m_strs := js_put k (s, None) (m_strs m)\<rparr> else m)"
| "mem_step (INCR k) m =
     (case mem_str m k of
        None \<Rightarrow> m\<lparr>m_strs := js_put k (dec 1, None) (m_strs m)\<rparr>
      | Some (s, e) \<Rightarrow> (case parse_int s of None \<Rightarrow> m
          | Some n \<Rightarrow> m\<lparr>m_strs := js_put k (dec (n + 1), e) (m_strs m)\<rparr>))"
| "mem_step (PEXPIRE k ttl) m =
     (case mem_str m k of None \<Rightarrow> m
      | Some (s, e) \<Rightarrow> if ttl \<le> 0 then m\<lparr>m_strs := drop_keys [k] (m_strs m)\<rparr>
          else m\<lparr>m_strs := js_put k (s, Some (m_now m + ttl)) (m_strs m)\<rparr>)"
| "mem_step (DEL ks) m = m\<lparr>
     m_strs := drop_keys ks (m_strs m), m_hash := drop_keys ks (m_hash m),
     m_set := drop_keys ks (m_set m), m_zset := drop_keys ks (m_zset m),
     m_list := drop_keys ks (m_list m)\<rparr>"
| "mem_step (HSET k f j) m = m\<lparr>m_hash := js_put k (js_put f j (lk k (m_hash m))) (m_hash m)\<rparr>"
| "mem_step (HDEL k fs) m = m\<lparr>m_hash := js_put k (drop_keys fs (lk k (m_hash m))) (m_hash m)\<rparr>"
| "mem_step (SADD k ms) m = m\<lparr>m_set := js_put k (js_add_all ms (lk k (m_set m))) (m_set m)\<rparr>"
| "mem_step (SREM k ms) m =
     m\<lparr>m_set := js_put k (filter (\<lambda>x. x \<notin> set ms) (lk k (m_set m))) (m_set m)\<rparr>"
| "mem_step (ZADD k sc x) m = m\<lparr>m_zset := js_put k (js_put x sc (lk k (m_zset m))) (m_zset m)\<rparr>"
| "mem_step (ZADD_NX k sc x) m =
     (if js_get x (lk k (m_zset m)) = None
      then m\<lparr>m_zset := js_put k (js_put x sc (lk k (m_zset m))) (m_zset m)\<rparr> else m)"
| "mem_step (ZADD_GT k sc x) m =
     (if (case js_get x (lk k (m_zset m)) of None \<Rightarrow> True | Some old \<Rightarrow> old < sc)
      then m\<lparr>m_zset := js_put k (js_put x sc (lk k (m_zset m))) (m_zset m)\<rparr> else m)"
| "mem_step (ZREM k xs) m = m\<lparr>m_zset := js_put k (drop_keys xs (lk k (m_zset m))) (m_zset m)\<rparr>"
| "mem_step (ZREMRANGEBYSCORE k lo hi) m =
     m\<lparr>m_zset := js_put k (filter (\<lambda>p. \<not> (lo \<le> snd p \<and> snd p \<le> hi)) (AList.clearjunk (lk k (m_zset m))))
        (m_zset m)\<rparr>"
| "mem_step (RPUSH k j) m = m\<lparr>m_list := js_put k (lk k (m_list m) @ [j]) (m_list m)\<rparr>"
| "mem_step (LTRIM_LAST k n) m = m\<lparr>m_list := js_put k (last_n n (lk k (m_list m))) (m_list m)\<rparr>"

fun mem_insert :: "element_row list \<Rightarrow> element_row list \<Rightarrow> element_row list" where
  "mem_insert [] rows = rows"
| "mem_insert (r # rs) rows = mem_insert rs (r # filter (\<lambda>q. row_id q \<noteq> row_id r) rows)"

fun mem_pg_step :: "pg_stmt \<Rightarrow> mem \<Rightarrow> mem" where
  "mem_pg_step (DeleteBoardElements b) m = m\<lparr>m_rows := map snd (filter (\<lambda>p. row_board (snd p) \<noteq> b)
     (AList.clearjunk (map (\<lambda>r. (row_id r, r)) (m_rows m))))\<rparr>"
| "mem_pg_step (DeleteElementsIn b ids) m = m\<lparr>m_rows := map snd
     (filter (\<lambda>p. \<not> (row_board (snd p) = b \<and> fst p \<in> set ids))
     (AList.clearjunk (map (\<lambda>r. (row_id r, r)) (m_rows m))))\<rparr>"
| "mem_pg_step (InsertElements rows) m = m\<lparr>m_rows := mem_insert rows (m_rows m)\<rparr>"
| "mem_pg_step (UpsertElements b ts rows) m = m\<lparr>m_rows :=
     mem_insert (map (\<lambda>r. r\<lparr>row_board := b, row_updated := Some ts\<rparr>) rows) (m_rows m)\<rparr>"
| "mem_pg_step (TouchBoard b ts) m =
     (if js_get b (m_boards m) = None then m else m\<lparr>m_boards := js_put b ts (m_boards m)\<rparr>)"

definition mem_present :: "mem \<Rightarrow> rkey \<Rightarrow> bool" where
  "mem_present m k = (mem_str m k \<noteq> None \<or> lk k (m_hash m) \<noteq> [] \<or> lk k (m_set m) \<noteq> [] \<or>
     lk k (m_zset m) \<noteq> [] \<or> lk k (m_list m) \<noteq> [])"

definition mem_fresh :: "mem \<Rightarrow> string" where
  "mem_fresh m = replicate (Suc (sum_list (map (\<lambda>p. length (fst (snd p))) (m_strs m)))) (CHR ''u'')"

definition mem_range :: "mem \<Rightarrow> rkey \<Rightarrow> int option \<Rightarrow> string list" where
  "mem_range m k hi = map fst (sort_key snd
     (filter (\<lambda>p. case hi of None \<Rightarrow> True | Some h \<Rightarrow> snd p \<le> h) (AList.clearjunk (lk k (m_zset m)))))"

definition mem_env :: "mem env" where
  "mem_env = \<lparr>
     e_now = m_now,
     e_sleep = (\<lambda>ms m. m\<lparr>m_now := m_now m + int ms\<rparr>),
     e_uuid = (\<lambda>m. (mem_fresh m, m)),
     e_random_hex = (\<lambda>m. (mem_fresh m, m)),
     e_write = (\<lambda>cs m. fold mem_step cs m),
     e_incr = (\<lambda>k m. (case mem_str m k of None \<Rightarrow> 1
        | Some (s, e) \<Rightarrow> (case parse_int s of None \<Rightarrow> 0 | Some n \<Rightarrow> n + 1), mem_step (INCR k) m)),
     e_set_nx_px = (\<lambda>k s t m. (mem_str m k = None,
        if mem_str m k = None then mem_step (SET_PX k s t) m else m)),
     e_get = (\<lambda>k m. map_option fst (mem_str m k)),
     e_exists = (\<lambda>k m. mem_str m k \<noteq> None),
     e_ttl = (\<lambda>k m. (case mem_str m k of Some (s, Some t) \<Rightarrow> (t - m_now m) div 1000
        | Some (s, None) \<Rightarrow> -1 | None \<Rightarrow> if mem_present m k then -1 else -2)),
     e_idletime = (\<lambda>k m. if mem_present m k then Some 0 else None),
     e_hget = (\<lambda>k f m. js_get f (lk k (m_hash m))),
     e_hgetall = (\<lambda>k m. AList.clearjunk (lk k (m_hash m))),
     e_hlen = (\<lambda>k m. length (AList.clearjunk (lk k (m_hash m)))),
     e_smembers = (\<lambda>k m. js_set (lk k (m_set m))),
     e_scard = (\<lambda>k m. length (js_set (lk k (m_set m)))),
     e_srandmember = (\<lambda>k n m. take n (js_set (lk k (m_set m)))),
     e_zrangebyscore = (\<lambda>k hi n m. take n (mem_range m k hi)),
     e_zcard = (\<lambda>k m. length (AList.clearjunk (lk k (m_zset m)))),
     e_lrange = (\<lambda>k m. lk k (m_list m)),
     e_scan = (\<lambda>p m. [filter (\<lambda>k. mem_present m k \<and> glob_match p k)
        (map fst (m_strs m) @ map fst (m_hash m) @ map fst (m_set m) @ map fst (m_zset m) @ map fst (m_list m))]),
     e_select_elements = (\<lambda>b m. Inr (filter (\<lambda>r. row_board r = b)
        (map snd (AList.clearjunk (map (\<lambda>r. (row_id r, r)) (m_rows m)))))),
     e_select_boards = (\<lambda>b m. Inr (case js_get b (m_boards m) of None \<Rightarrow> [] | Some t \<Rightarrow> [b])),
     e_transaction = (\<lambda>ss m. case m_fail m of None \<Rightarrow> (None, fold mem_pg_step ss m)
        | Some e \<Rightarrow> (Some e, m))\<rparr>"

section \<open>The instance satisfies the laws\<close>

lemma mem_view_sel [simp]:
  "v_now (mem_view m) = m_now m" "v_strs (mem_view m) = mem_str m"
  "v_hash (mem_view m) k = map_of (lk k (m_hash m))" "v_set (mem_view m) k = set (lk k (m_set m))"
  "v_zset (mem_view m) k = map_of (lk k (m_zset m))" "v_list (mem_view m) k = lk k (m_list m)"
  "v_rows (mem_view m) = rows_map (m_rows m)" "v_boards (mem_view m) = map_of (m_boards m)"
  by (simp_all add: mem_view_def)

lemma mem_str_frame [simp]:
  "mem_str (m\<lparr>m_hash := h\<rparr>) = mem_str m" "mem_str (m\<lparr>m_set := s\<rparr>) = mem_str m"
  "mem_str (m\<lparr>m_zset := z\<rparr>) = mem_str m" "mem_str (m\<lparr>m_list := l\<rparr>) = mem_str m"
  "mem_str (m\<lparr>m_rows := r\<rparr>) = mem_str m" "mem_str (m\<lparr>m_boards := b\<rparr>) = mem_str m"
  by (simp_all add: mem_str_def fun_eq_iff)

lemma mem_str_put [simp]:
  "mem_str (m\<lparr>m_strs := js_put k (s, None) (m_strs m)\<rparr>) = (mem_str m)(k \<mapsto> (s, None))"
  "m_now m < t \<Longrightarrow>
   mem_str (m\<lparr>m_strs := js_put k (s, Some t) (m_strs m)\<rparr>) = (mem_str m)(k \<mapsto> (s, Some t))"
  by (auto simp: mem_str_def fun_eq_iff)

lemma mem_str_drop [simp]:
  "mem_str (m\<lparr>m_strs := drop_keys ks (m_strs m)\<rparr>) = (\<lambda>k. if k \<in> set ks then None else mem_str m k)"
  by (auto simp: mem_str_def fun_eq_iff)

lemma mem_str_live: "mem_str m k = Some (s, Some t) \<Longrightarrow> m_now m < t"
  by (auto simp: mem_str_def live_at_Some)

lemma mem_str_put_back:
  "mem_str m k = Some (s', e) \<Longrightarrow>
   mem_str (m\<lparr>m_strs := js_put k (s, e) (m_strs m)\<rparr>) = (mem_str m)(k \<mapsto> (s, e))"
  using mem_str_live[of m k s'] by (cases e) auto

lemma mem_view_strs [simp]: "mem_view (m\<lparr>m_strs := xs\<rparr>) = (mem_view m)\<lparr>v_strs := mem_str (m\<lparr>m_strs := xs\<rparr>)\<rparr>"
  by (simp add: mem_view_def)

lemma mem_view_hash [simp]:
  "mem_view (m\<lparr>m_hash := js_put k x (m_hash m)\<rparr>) = (mem_view m)\<lparr>v_hash := (v_hash (mem_view m))(k := map_of x)\<rparr>"
  by (auto simp: mem_view_def)

lemma mem_view_set [simp]:
  "mem_view (m\<lparr>m_set := js_put k x (m_set m)\<rparr>) = (mem_view m)\<lparr>v_set := (v_set (mem_view m))(k := set x)\<rparr>"
  by (auto simp: mem_view_def fun_eq_iff)

lemma mem_view_zset [simp]:
  "mem_view (m\<lparr>m_zset := js_put k x (m_zset m)\<rparr>) = (mem_view m)\<lparr>v_zset := (v_zset (mem_view m))(k := map_of x)\<rparr>"
  by (auto simp: mem_view_def)

lemma mem_view_list [simp]:
  "mem_view (m\<lparr>m_list := js_put k x (m_list m)\<rparr>) = (mem_view m)\<lparr>v_list := (v_list (mem_view m))(k := x)\<rparr>"
  by (auto simp: mem_view_def)

lemma map_of_js_put [simp]: "map_of (js_put k v xs) = (map_of xs)(k \<mapsto> v)"
  by (simp add: js_put_def update_conv')

lemma lookup_filtered:
  assumes "distinct (map fst entries)"
  shows "map_of (filter keep entries) = (\<lambda>i. Option.bind (map_of entries i) (\<lambda>x. if keep (i, x) then Some x else None))"
  using assms by (induction entries) (auto simp: fun_eq_iff map_of_eq_None_iff bind_eq_None_conv split: option.splits)

lemma mem_view_DEL: "mem_view (mem_step (DEL ks) m) = redis_step (DEL ks) (mem_view m)"
  by (simp add: mem_view_def mem_str_def fun_eq_iff)

lemma mem_view_ZREMRANGE:
  "map_of (filter (\<lambda>p. \<not> (lo \<le> snd p \<and> snd p \<le> hi)) (AList.clearjunk xs)) =
   (\<lambda>x. case map_of xs x of None \<Rightarrow> None | Some (sc :: int) \<Rightarrow> if lo \<le> sc \<and> sc \<le> hi then None else Some sc)"
  by (rule ext) (simp add: lookup_filtered[OF distinct_clearjunk] map_of_clearjunk split: option.split)

lemma mem_view_strs_drop:
  "mem_view (m\<lparr>m_strs := drop_keys [k] (m_strs m)\<rparr>) = (mem_view m)\<lparr>v_strs := (mem_str m)(k := None)\<rparr>"
  by (simp add: fun_upd_def)

lemma mem_step_view: "mem_view (mem_step c m) = redis_step c (mem_view m)"
proof (cases c)
  case (DEL ks)
  then show ?thesis by (simp only: mem_view_DEL)
next
  case (INCR k)
  then show ?thesis by (simp add: mem_str_put_back del: fun_upd_apply split: option.split)
next
  case (PEXPIRE k ttl)
  then show ?thesis
    by (simp add: mem_view_strs_drop del: mem_view_strs mem_str_drop fun_upd_apply split: option.split)
       (simp del: mem_str_drop fun_upd_apply)
next
  case (ZREMRANGEBYSCORE k lo hi)
  then show ?thesis
    by (simp only: mem_step.simps redis_step.simps mem_view_zset mem_view_ZREMRANGE mem_view_sel)
next
  case (SREM k ms)
  have "{x \<in> set (lk k (m_set m)). x \<notin> set ms} = set (lk k (m_set m)) - set ms" by auto
  with SREM show ?thesis by (simp del: fun_upd_apply)
qed (simp_all add: map_of_drop_keys js_get_def Un_commute del: fun_upd_apply split: option.split)

lemma mem_steps_view: "mem_view (fold mem_step cs m) = fold redis_step cs (mem_view m)"
  by (induction cs arbitrary: m) (simp_all add: mem_step_view)

lemma rows_map_Cons [simp]: "rows_map (r # rs) = (rows_map rs)(row_id r \<mapsto> r)"
  by (simp add: rows_map_def)

lemma rows_map_filter: "rows_map (filter (\<lambda>q. row_id q \<noteq> i) rows) = (rows_map rows)(i := None)"
  by (induction rows) (auto simp: rows_map_def fun_eq_iff)

lemma rows_map_insert [simp]: "rows_map (mem_insert rs rows) = insert_rows rs (rows_map rows)"
  by (induction rs rows rule: mem_insert.induct) (simp_all add: rows_map_filter fun_upd_upd del: fun_upd_apply)

lemma rows_map_keyed: "rows_map rows i = Some r \<Longrightarrow> i = row_id r"
  by (induction rows) (auto simp: rows_map_def split: if_splits)

lemma clearjunk_rows_keyed:
  fixes rows :: "element_row list"
  shows "(i, r) \<in> set (AList.clearjunk (map (\<lambda>r. (row_id r, r)) rows)) \<Longrightarrow> i = row_id r"
proof -
  let ?c = "AList.clearjunk (map (\<lambda>r. (row_id r, r)) rows)"
  assume "(i, r) \<in> set ?c"
  then have "map_of ?c i = Some r" by simp
  then have "rows_map rows i = Some r" by (simp add: rows_map_def map_of_clearjunk)
  then show "i = row_id r" by (rule rows_map_keyed)
qed

lemma clearjunk_rows_ids:
  fixes rows :: "element_row list"
  shows "map (\<lambda>p. (row_id (snd p), snd p)) (AList.clearjunk (map (\<lambda>r. (row_id r, r)) rows)) =
   AList.clearjunk (map (\<lambda>r. (row_id r, r)) rows)"
  by (rule map_idI) (auto dest: clearjunk_rows_keyed[symmetric])

lemma rows_map_clear:
  "rows_map (map snd (filter P (AList.clearjunk (map (\<lambda>r. (row_id r, r)) rows)))) i =
   (case rows_map rows i of None \<Rightarrow> None | Some r \<Rightarrow> if P (i, r) then Some r else None)"
proof -
  let ?c = "AList.clearjunk (map (\<lambda>r. (row_id r, r)) rows)"
  have "map (\<lambda>r. (row_id r, r)) (map snd (filter P ?c)) = filter P ?c"
    by (auto simp: comp_def intro!: map_idI dest: clearjunk_rows_keyed[symmetric])
  then show ?thesis
    by (simp add: rows_map_def lookup_filtered[OF distinct_clearjunk] map_of_clearjunk split: option.split)
qed

lemma mem_pg_step_view: "mem_view (mem_pg_step s m) = pg_step s (mem_view m)"
proof (cases s)
  case (TouchBoard b ts)
  then show ?thesis by (auto simp: mem_view_def js_get_def)
qed (auto simp: mem_view_def rows_map_clear fun_eq_iff split: option.splits)

lemma mem_pg_steps_view: "mem_view (fold mem_pg_step ss m) = fold pg_step ss (mem_view m)"
  by (induction ss arbitrary: m) (simp_all add: mem_pg_step_view)

lemma mem_fresh_long: "js_get k (m_strs m) = Some (s, e) \<Longrightarrow> length s < length (mem_fresh m)"
proof -
  assume "js_get k (m_strs m) = Some (s, e)"
  then have "(k, s, e) \<in> set (m_strs m)" by (simp add: js_get_def map_of_SomeD)
  then have "length s \<le> sum_list (map (\<lambda>p. length (fst (snd p))) (m_strs m))"
    using member_le_sum_list[of "length s" "map (\<lambda>p. length (fst (snd p))) (m_strs m)"] by force
  then show ?thesis by (simp add: mem_fresh_def)
qed

lemma mem_str_fresh: "mem_str m k = Some (s, e) \<Longrightarrow> s \<noteq> p @ mem_fresh m"
  using mem_fresh_long[of k m s] by (auto simp: mem_str_def live_at_Some)

lemma live_at_later: "0 \<le> d \<Longrightarrow> live_at (n + d) x = (case live_at n x of
    Some (s, Some t) \<Rightarrow> if t \<le> n + d then None else Some (s, Some t) | other \<Rightarrow> other)"
  by (cases "(n, x)" rule: live_at.cases) auto

lemma mem_elapse: "mem_view (m\<lparr>m_now := m_now m + int ms\<rparr>) = elapse (int ms) (mem_view m)"
proof -
  have "mem_str (m\<lparr>m_now := m_now m + int ms\<rparr>) k = (case mem_str m k of
      Some (s, Some t) \<Rightarrow> if t \<le> m_now m + int ms then None else Some (s, Some t) | other \<Rightarrow> other)" for k
    unfolding mem_str_def by (simp add: live_at_later)
  then show ?thesis
    by (simp only: elapse_def mem_view_sel) (simp add: mem_view_def fun_eq_iff)
qed

lemma mem_range_laws:
  "distinct (mem_range m k hi)"
  "set (mem_range m k hi) = {x. \<exists>sc. map_of (lk k (m_zset m)) x = Some sc \<and>
     (case hi of None \<Rightarrow> True | Some h \<Rightarrow> sc \<le> h)}"
  "sorted_wrt (\<lambda>a b. the (map_of (lk k (m_zset m)) a) \<le> the (map_of (lk k (m_zset m)) b)) (mem_range m k hi)"
proof -
  let ?z = "AList.clearjunk (lk k (m_zset m))"
  let ?P = "\<lambda>p :: string \<times> int. case hi of None \<Rightarrow> True | Some h \<Rightarrow> snd p \<le> h"
  have d: "distinct (map fst ?z)" by simp
  have get: "map_of (lk k (m_zset m)) x = Some sc \<longleftrightarrow> (x, sc) \<in> set ?z" for x sc
    by (metis d map_of_clearjunk map_of_eq_Some_iff)
  have "distinct (map fst (filter ?P ?z))" using d by (rule distinct_map_filter)
  then have "distinct (map fst (sort_key snd (filter ?P ?z)))"
    by (simp only: distinct_map distinct_sort set_sort)
  then show "distinct (mem_range m k hi)" by (simp add: mem_range_def)
  show "set (mem_range m k hi) = {x. \<exists>sc. map_of (lk k (m_zset m)) x = Some sc \<and>
     (case hi of None \<Rightarrow> True | Some h \<Rightarrow> sc \<le> h)}"
    by (cases hi) (force simp: mem_range_def get image_iff)+
  have "sorted_wrt (\<lambda>p q. snd p \<le> snd q) (sort_key snd (filter ?P ?z))"
    using sorted_sort_key[of snd "filter ?P ?z"] by (simp add: sorted_wrt_map)
  then have "sorted_wrt (\<lambda>p q. the (map_of (lk k (m_zset m)) (fst p)) \<le> the (map_of (lk k (m_zset m)) (fst q)))
     (sort_key snd (filter ?P ?z))"
    by (rule sorted_wrt_mono_rel[rotated]) (auto simp: get[THEN iffD2])
  then show "sorted_wrt (\<lambda>a b. the (map_of (lk k (m_zset m)) a) \<le> the (map_of (lk k (m_zset m)) b)) (mem_range m k hi)"
    by (simp add: mem_range_def sorted_wrt_map)
qed

lemma length_clearjunk: "length (AList.clearjunk xs) = card (dom (map_of xs))"
  by (metis distinct_card distinct_clearjunk dom_map_of_conv_image_fst length_map list.set_map map_of_clearjunk)

lemma mem_present_view: "key_present (mem_view m) k = mem_present m k"
  by (auto simp: key_present_def mem_present_def)

lemma lk_listed: "lk k xs \<noteq> [] \<Longrightarrow> k \<in> fst ` set xs"
  using js_get_None[of k xs] by (auto simp: lk_def split: option.splits)

lemma mem_str_listed: "mem_str m k = Some x \<Longrightarrow> k \<in> fst ` set (m_strs m)"
  using js_get_None[of k "m_strs m"] by (auto simp: mem_str_def)

lemma mem_scan:
  "set (filter (\<lambda>k. mem_present m k \<and> glob_match p k)
     (map fst (m_strs m) @ map fst (m_hash m) @ map fst (m_set m) @ map fst (m_zset m) @ map fst (m_list m)))
   = {k. mem_present m k \<and> glob_match p k}"
proof -
  have "mem_present m k \<Longrightarrow> k \<in> fst ` set (m_strs m) \<union> fst ` set (m_hash m) \<union> fst ` set (m_set m) \<union>
      fst ` set (m_zset m) \<union> fst ` set (m_list m)" for k
    using mem_str_listed[of m k] lk_listed[of k "m_hash m"] lk_listed[of k "m_set m"]
      lk_listed[of k "m_zset m"] lk_listed[of k "m_list m"]
    unfolding mem_present_def by (simp only: Un_iff not_None_eq) blast
  then show ?thesis by (simp add: set_eq_iff) blast
qed

lemma mem_env_sel [simp]:
  "e_now mem_env = m_now"
  "e_sleep mem_env ms m = m\<lparr>m_now := m_now m + int ms\<rparr>"
  "e_uuid mem_env m = (mem_fresh m, m)"
  "e_random_hex mem_env m = (mem_fresh m, m)"
  "e_write mem_env cs m = fold mem_step cs m"
  "e_incr mem_env k m = (case mem_str m k of None \<Rightarrow> 1
     | Some (s, e) \<Rightarrow> (case parse_int s of None \<Rightarrow> 0 | Some n \<Rightarrow> n + 1), mem_step (INCR k) m)"
  "e_set_nx_px mem_env k s t m = (mem_str m k = None,
     if mem_str m k = None then mem_step (SET_PX k s t) m else m)"
  "e_get mem_env k m = map_option fst (mem_str m k)"
  "e_exists mem_env k m = (mem_str m k \<noteq> None)"
  "e_ttl mem_env k m = (case mem_str m k of Some (s, Some t) \<Rightarrow> (t - m_now m) div 1000
     | Some (s, None) \<Rightarrow> -1 | None \<Rightarrow> if mem_present m k then -1 else -2)"
  "e_idletime mem_env k m = (if mem_present m k then Some 0 else None)"
  "e_hget mem_env k f m = js_get f (lk k (m_hash m))"
  "e_hgetall mem_env k m = AList.clearjunk (lk k (m_hash m))"
  "e_hlen mem_env k m = length (AList.clearjunk (lk k (m_hash m)))"
  "e_smembers mem_env k m = js_set (lk k (m_set m))"
  "e_scard mem_env k m = length (js_set (lk k (m_set m)))"
  "e_srandmember mem_env k n m = take n (js_set (lk k (m_set m)))"
  "e_zrangebyscore mem_env k hi n m = take n (mem_range m k hi)"
  "e_zcard mem_env k m = length (AList.clearjunk (lk k (m_zset m)))"
  "e_lrange mem_env k m = lk k (m_list m)"
  "e_scan mem_env p m = [filter (\<lambda>k. mem_present m k \<and> glob_match p k)
     (map fst (m_strs m) @ map fst (m_hash m) @ map fst (m_set m) @ map fst (m_zset m) @ map fst (m_list m))]"
  "e_select_elements mem_env b m = Inr (filter (\<lambda>r. row_board r = b)
     (map snd (AList.clearjunk (map (\<lambda>r. (row_id r, r)) (m_rows m)))))"
  "e_select_boards mem_env b m = Inr (case js_get b (m_boards m) of None \<Rightarrow> [] | Some t \<Rightarrow> [b])"
  "e_transaction mem_env ss m = (case m_fail m of None \<Rightarrow> (None, fold mem_pg_step ss m)
     | Some e \<Rightarrow> (Some e, m))"
  by (simp_all add: mem_env_def)

lemma length_js_set: "length (js_set xs) = card (set xs)"
  by (metis distinct_card distinct_js_set set_js_set)

lemma mem_select:
  assumes "e_select_elements mem_env b m = Inr rows"
  shows "distinct (map row_id rows) \<and>
    (\<forall>r. r \<in> set rows \<longleftrightarrow> v_rows (mem_view m) (row_id r) = Some r \<and> row_board r = b)"
proof -
  let ?c = "AList.clearjunk (map (\<lambda>r. (row_id r, r)) (m_rows m))"
  have ids: "map row_id (map snd ?c) = map fst ?c"
    by (simp only: map_map) (intro map_cong refl, auto dest: clearjunk_rows_keyed)
  have mem: "r \<in> set (map snd ?c) \<longleftrightarrow> rows_map (m_rows m) (row_id r) = Some r" for r
  proof -
    have "r \<in> set (map snd ?c) \<longleftrightarrow> (row_id r, r) \<in> set ?c"
    proof
      assume "r \<in> set (map snd ?c)"
      then obtain i where "(i, r) \<in> set ?c" by auto
      with clearjunk_rows_keyed show "(row_id r, r) \<in> set ?c" by metis
    next
      assume "(row_id r, r) \<in> set ?c"
      from imageI[OF this, of snd] show "r \<in> set (map snd ?c)" by simp
    qed
    also have "\<dots> \<longleftrightarrow> map_of ?c (row_id r) = Some r" by simp
    finally show ?thesis by (simp only: rows_map_def map_of_clearjunk)
  qed
  have "distinct (map row_id (map snd ?c))" by (simp only: ids distinct_clearjunk)
  then have "distinct (map row_id (filter (\<lambda>r. row_board r = b) (map snd ?c)))"
    by (rule distinct_map_filter)
  moreover have "rows = filter (\<lambda>r. row_board r = b) (map snd ?c)" using assms by simp
  ultimately show ?thesis using mem by (simp only: set_filter mem_Collect_eq mem_view_sel) simp
qed

lemma mem_range_law:
  "\<exists>xs. distinct xs \<and>
     set xs = {x. \<exists>sc. v_zset (mem_view m) k x = Some sc \<and> (case hi of None \<Rightarrow> True | Some h \<Rightarrow> sc \<le> h)} \<and>
     sorted_wrt (\<lambda>a b. the (v_zset (mem_view m) k a) \<le> the (v_zset (mem_view m) k b)) xs \<and>
     e_zrangebyscore mem_env k hi n m = take n xs"
  unfolding mem_view_sel using mem_range_laws[where m=m and k=k and hi=hi] by (intro exI[of _ "mem_range m k hi"]) simp

lemma mem_incr: "mem_view (snd (e_incr mem_env k m)) = redis_step (INCR k) (mem_view m)"
  using mem_step_view[of "INCR k" m] by (simp only: mem_env_sel snd_conv)

lemma mem_set_nx: "mem_view (snd (e_set_nx_px mem_env k s ttl m)) =
    (if v_strs (mem_view m) k = None then redis_step (SET_PX k s ttl) (mem_view m) else mem_view m)"
  using mem_step_view[of "SET_PX k s ttl" m] by (simp del: mem_step.simps redis_step.simps)

interpretation mem: redis_client mem_env mem_view
proof unfold_locales
  show "mem_view (snd (e_incr mem_env k m)) = redis_step (INCR k) (mem_view m)" for k m
    by (rule mem_incr)
  show "set (e_srandmember mem_env k n m) \<subseteq> v_set (mem_view m) k" for k n m
    using set_take_subset[of n "js_set (lk k (m_set m))"] by simp
  show "mem_view (snd (e_set_nx_px mem_env k s ttl m)) =
    (if v_strs (mem_view m) k = None then redis_step (SET_PX k s ttl) (mem_view m) else mem_view m)" for k s ttl m
    by (rule mem_set_nx)
  show "\<exists>xs. distinct xs \<and>
     set xs = {x. \<exists>sc. v_zset (mem_view m) k x = Some sc \<and> (case hi of None \<Rightarrow> True | Some h \<Rightarrow> sc \<le> h)} \<and>
     sorted_wrt (\<lambda>a b. the (v_zset (mem_view m) k a) \<le> the (v_zset (mem_view m) k b)) xs \<and>
     e_zrangebyscore mem_env k hi n m = take n xs" for m k hi n
    by (rule mem_range_law)
  show "set (concat (e_scan mem_env p m)) = {k. key_present (mem_view m) k \<and> glob_match p k}" for p m
    using mem_scan[of m p] by (simp only: mem_env_sel concat.simps append_Nil2 mem_present_view)
  show "s \<noteq> fst (e_uuid mem_env m)" "s \<noteq> p @ fst (e_random_hex mem_env m)"
    if "v_strs (mem_view m) k = Some (s, e)" for s m k e p
    using that mem_str_fresh[of m k s e "[]"] mem_str_fresh[of m k s e p] by simp_all
  show "0 \<le> e_ttl mem_env k m" if "v_strs (mem_view m) k = Some (s, Some t)" for k m s t
    using that mem_str_live[of m k s t] by simp
qed (simp_all add: mem_steps_view mem_set_nx mem_str_live js_get_def length_js_set length_clearjunk
       map_of_clearjunk finite_dom_map_of del: redis_step.simps mem_step.simps)

interpretation mem: quiet_services mem_env mem_view
proof unfold_locales
  show "row_id r = i" if "v_rows (mem_view m) i = Some r" for m i r
    using that rows_map_keyed[of "m_rows m" i r] by simp
  show "distinct (map row_id rows) \<and>
    (\<forall>r. r \<in> set rows \<longleftrightarrow> v_rows (mem_view m) (row_id r) = Some r \<and> row_board r = b)"
    if "e_select_elements mem_env b m = Inr rows" for b m rows
    using that by (rule mem_select)
  show "\<exists>d \<ge> int ms. mem_view (e_sleep mem_env ms m) = elapse d (mem_view m)" for ms m
    by (rule exI[of _ "int ms"]) (simp add: mem_elapse del: mem_view_sel)
qed (auto simp: mem_pg_steps_view js_get_def split: option.splits)

section \<open>Worlds for the witnesses\<close>

definition mem0 :: mem where
  "mem0 = \<lparr>m_now = 1000000, m_strs = [], m_hash = [], m_set = [], m_zset = [], m_list = [],
     m_rows = [], m_boards = [], m_fail = None\<rparr>"

lemma mem0_sel [simp]:
  "m_now mem0 = 1000000" "m_strs mem0 = []" "m_hash mem0 = []" "m_set mem0 = []" "m_zset mem0 = []"
  "m_list mem0 = []" "m_rows mem0 = []" "m_boards mem0 = []" "m_fail mem0 = None"
  by (simp_all add: mem0_def)

lemma mem_str_eval:
  "mem_str m k = live_at (m_now m) (js_get k (m_strs m))"
  by (rule mem_str_def)

end
