(* ===== verification/Board_Load.thy ===== *)
theory Board_Load
  imports Board_Keys State_Utils Memory_Services
begin

text \<open>
  Loading a board from Postgres into Redis (\<open>board-state/load-domain.ts\<close>): the wait that
  every operation on a board starts with, the distributed load lock and \<open>loadBoard\<close>. A poll
  loop may run for ever, so the two loops are \<open>option\<close>-valued (\<open>None\<close>: never returns); the
  lemmas show that they return once the locks in their way have a time to live. The in-process
  promise queue around the task only orders the tasks of one process and is not state here.
\<close>

section \<open>waitForBoardLoad\<close>

definition board_ready :: "'w env \<Rightarrow> string \<Rightarrow> 'w \<Rightarrow> bool" where
  "board_ready E b w = (\<not> e_exists E (boardEvictionLockKey b) w \<and>
     (e_exists E (boardSeqKey b) w \<or> \<not> e_exists E (boardLoadLockKey b) w))"

partial_function (option) waitForBoardLoad :: "'w env \<Rightarrow> string \<Rightarrow> 'w \<Rightarrow> 'w option" where
  "waitForBoardLoad E b w =
     (if board_ready E b w then Some w
      else waitForBoardLoad E b (e_sleep E BOARD_LOAD_LOCK_POLL_MS w))"

declare waitForBoardLoad.simps [code]

section \<open>The load lock\<close>

definition acquireBoardLoadLock :: "'w env \<Rightarrow> string \<Rightarrow> 'w \<Rightarrow> string option \<times> 'w" where
  "acquireBoardLoadLock E b w =
     (let (token, w) = e_uuid E w;
          (acquired, w) = e_set_nx_px E (boardLoadLockKey b) token BOARD_LOAD_LOCK_TTL_MS w
      in (if acquired then Some token else None, w))"

definition releaseBoardLoadLock :: "'w env \<Rightarrow> string \<Rightarrow> string \<Rightarrow> 'w \<Rightarrow> 'w" where
  "releaseBoardLoadLock E b token w = eval_del_if_equal E (boardLoadLockKey b) token w"

section \<open>loadBoard\<close>

definition dbRowToBoardElement :: "int \<Rightarrow> element_row \<Rightarrow> board_element" where
  "dbRowToBoardElement now row =
     js_put ''updatedAt'' (js_int (case row_updated row of Some t \<Rightarrow> t | None \<Rightarrow> now))
       (js_spread [(''id'', JStr (row_id row)), (''kind'', row_type row)] (row_data row))"

definition load_commands :: "string \<Rightarrow> int \<Rightarrow> element_row list \<Rightarrow> rcmd list" where
  "load_commands b now rows =
     map (\<lambda>p. HSET (boardElementsKey b) (fst p) (snd p))
       (map (\<lambda>row. (row_id row, JObj (dbRowToBoardElement now row))) rows)
     @ [SET (boardSeqKey b) ''0'']"

definition load_rows :: "'w env \<Rightarrow> string \<Rightarrow> 'w \<Rightarrow> nat result \<times> 'w" where
  \<comment> \<open>the task inside \<open>try\<close>, with its two further checks of the sequence key\<close>
  "load_rows E b w =
     (if e_exists E (boardSeqKey b) w then (Inr 0, w)
      else case e_select_elements E b w of
        Inl err \<Rightarrow> (Inl err, w)
      | Inr rows \<Rightarrow>
          if e_exists E (boardSeqKey b) w then (Inr 0, w)
          else (Inr (length rows),
            if rows \<noteq> [] then e_write E (load_commands b (e_now E w) rows) w
            else e_write E [SET (boardSeqKey b) ''0''] w))"

partial_function (option) loadBoard :: "'w env \<Rightarrow> string \<Rightarrow> 'w \<Rightarrow> (nat result \<times> 'w) option" where
  "loadBoard E b w =
     (if e_exists E (boardEvictionLockKey b) w
      then loadBoard E b (e_sleep E BOARD_EVICTION_LOCK_POLL_MS w)
      else if e_exists E (boardSeqKey b) w then Some (Inr 0, w)
      else (case acquireBoardLoadLock E b w of
        (None, w) \<Rightarrow> Option.bind (waitForBoardLoad E b w) (loadBoard E b)
      | (Some token, w) \<Rightarrow> (case load_rows E b w of
          (r, w) \<Rightarrow> Some (r, releaseBoardLoadLock E b token w))))"

declare loadBoard.simps [code]

section \<open>Lemmas\<close>

definition locks_expire :: "string \<Rightarrow> rview \<Rightarrow> bool" where
  \<comment> \<open>a lock key that is held has a time to live, as every \<open>SET ... PX ... NX\<close> of the code gives it\<close>
  "locks_expire b v = (\<forall>k \<in> {boardEvictionLockKey b, boardLoadLockKey b}.
     \<forall>s e. v_strs v k = Some (s, e) \<longrightarrow> e \<noteq> None)"

lemma locks_expire_elapse: "locks_expire b v \<Longrightarrow> locks_expire b (elapse d v)"
  unfolding locks_expire_def elapse_def by (auto split: option.splits if_splits)

lemma elapse_elapse: "0 \<le> d \<Longrightarrow> 0 \<le> d' \<Longrightarrow> elapse d' (elapse d v) = elapse (d + d') v"
  by (auto simp: elapse_def fun_eq_iff split: option.splits)

lemma waitForBoardLoad_ready: "board_ready E b w \<Longrightarrow> waitForBoardLoad E b w = Some w"
  by (simp add: waitForBoardLoad.simps)

lemma waitForBoardLoad_returns_ready:
  assumes "waitForBoardLoad E b w = Some w'" shows "board_ready E b w'"
  using assms by (induction rule: waitForBoardLoad.raw_induct[rotated, consumes 1]) (auto split: if_splits)

lemma dbRow_get:
  assumes "distinct (map fst (row_data row))"
  shows "js_get k (dbRowToBoardElement now row) =
    (if k = ''updatedAt'' then Some (js_int (case row_updated row of Some t \<Rightarrow> t | None \<Rightarrow> now))
     else case js_get k (row_data row) of Some v \<Rightarrow> Some v
       | None \<Rightarrow> if k = ''id'' then Some (JStr (row_id row))
           else if k = ''kind'' then Some (row_type row) else None)"
  using assms by (simp add: dbRowToBoardElement_def js_get_spread_distinct split: option.split)

definition lock_keys :: "string \<Rightarrow> rkey set" where
  "lock_keys b = {boardEvictionLockKey b, boardLoadLockKey b}"

definition locks_end_by :: "nat \<Rightarrow> string \<Rightarrow> rview \<Rightarrow> bool" where
  "locks_end_by n b v = (\<forall>k \<in> lock_keys b. \<forall>s e. v_strs v k = Some (s, e) \<longrightarrow>
     (\<exists>t. e = Some t \<and> t \<le> v_now v + int n))"

lemma locks_end_by_mono: "locks_end_by m b v \<Longrightarrow> m \<le> n \<Longrightarrow> locks_end_by n b v"
  unfolding locks_end_by_def by force

lemma locks_expire_end:
  assumes "locks_expire b v" shows "\<exists>n. locks_end_by n b v"
proof -
  have one: "\<exists>n. \<forall>s e. v_strs v k = Some (s, e) \<longrightarrow> (\<exists>t. e = Some t \<and> t \<le> v_now v + int n)"
    if "k \<in> lock_keys b" for k
  proof (cases "v_strs v k")
    case (Some p)
    with assms that obtain s t where "v_strs v k = Some (s, Some t)"
      by (cases p) (auto simp: locks_expire_def lock_keys_def)
    then show ?thesis by (intro exI[of _ "nat (t - v_now v)"]) auto
  qed simp
  obtain n1 where n1:
    "\<forall>s e. v_strs v (boardEvictionLockKey b) = Some (s, e) \<longrightarrow> (\<exists>t. e = Some t \<and> t \<le> v_now v + int n1)"
    using one[of "boardEvictionLockKey b"] by (auto simp: lock_keys_def)
  obtain n2 where n2:
    "\<forall>s e. v_strs v (boardLoadLockKey b) = Some (s, e) \<longrightarrow> (\<exists>t. e = Some t \<and> t \<le> v_now v + int n2)"
    using one[of "boardLoadLockKey b"] by (auto simp: lock_keys_def)
  have "locks_end_by (n1 + n2) b v"
    using n1 n2 unfolding locks_end_by_def lock_keys_def by force
  then show ?thesis by blast
qed

lemma locks_end_by_elapse:
  assumes "locks_end_by n b v" "int m \<le> d"
  shows "locks_end_by (n - m) b (elapse d v)"
  unfolding locks_end_by_def
proof (intro ballI allI impI)
  fix k s e assume k: "k \<in> lock_keys b" and e: "v_strs (elapse d v) k = Some (s, e)"
  from e obtain e' where "v_strs v k = Some (s, e')" by (auto simp: elapse_def split: option.splits if_splits)
  with assms(1) k obtain t where t: "v_strs v k = Some (s, Some t)" "t \<le> v_now v + int n"
    unfolding locks_end_by_def by metis
  with e assms(2) show "\<exists>t. e = Some t \<and> t \<le> v_now (elapse d v) + int (n - m)"
    by (auto simp: elapse_expiring split: if_splits)
qed

context redis_client
begin

lemma elapse_0 [simp]: "elapse 0 (view w) = view w"
proof -
  have "(case x of None \<Rightarrow> None | Some (s, None) \<Rightarrow> Some (s, None)
      | Some (s, Some t) \<Rightarrow> if t \<le> v_now (view w) + 0 then None else Some (s, Some t)) = x"
    if "x = v_strs (view w) k" for x k
    using that expiry[of w k] by (auto split: option.splits simp: not_le)
  then show ?thesis by (simp add: elapse_def)
qed

lemma board_ready_view:
  "board_ready E b w = (v_strs (view w) (boardEvictionLockKey b) = None \<and>
     (v_strs (view w) (boardSeqKey b) \<noteq> None \<or> v_strs (view w) (boardLoadLockKey b) = None))"
  unfolding board_ready_def exists_str by (simp only: not_not)

lemma locks_end_now:
  assumes "locks_end_by 0 b (view w)" "k \<in> lock_keys b"
  shows "v_strs (view w) k = None"
proof (rule ccontr)
  assume "v_strs (view w) k \<noteq> None"
  then obtain s e where "v_strs (view w) k = Some (s, e)" by auto
  with assms obtain t where "v_strs (view w) k = Some (s, Some t)" "t \<le> v_now (view w)"
    by (fastforce simp: locks_end_by_def)
  with expiry show False by fastforce
qed

lemma acquireBoardLoadLock_view:
  assumes "acquireBoardLoadLock E b w = (r, w')"
  shows "v_strs (view w) (boardLoadLockKey b) \<noteq> None \<Longrightarrow> r = None \<and> view w' = view w"
    and "v_strs (view w) (boardLoadLockKey b) = None \<Longrightarrow> \<exists>token. r = Some token \<and>
       view w' = (view w)\<lparr>v_strs := (v_strs (view w))(boardLoadLockKey b \<mapsto>
         (token, Some (v_now (view w) + BOARD_LOAD_LOCK_TTL_MS)))\<rparr>"
proof -
  obtain token w1 where u: "e_uuid E w = (token, w1)" by (cases "e_uuid E w")
  obtain ok w2 where s: "e_set_nx_px E (boardLoadLockKey b) token BOARD_LOAD_LOCK_TTL_MS w1 = (ok, w2)"
    by (cases "e_set_nx_px E (boardLoadLockKey b) token BOARD_LOAD_LOCK_TTL_MS w1")
  have v1: "view w1 = view w" using uuid(1)[of w] u by simp
  have ok: "ok = (v_strs (view w) (boardLoadLockKey b) = None)"
    using set_nx_reply[of "boardLoadLockKey b" token BOARD_LOAD_LOCK_TTL_MS w1] s v1 by simp
  have v2: "view w2 = (if v_strs (view w) (boardLoadLockKey b) = None
      then redis_step (SET_PX (boardLoadLockKey b) token BOARD_LOAD_LOCK_TTL_MS) (view w) else view w)"
    using set_nx[of "boardLoadLockKey b" token BOARD_LOAD_LOCK_TTL_MS w1] s v1 by simp
  have r: "r = (if ok then Some token else None)" "w' = w2"
    using assms u s by (auto simp: acquireBoardLoadLock_def)
  show "v_strs (view w) (boardLoadLockKey b) \<noteq> None \<Longrightarrow> r = None \<and> view w' = view w"
    using ok v2 r by simp
  show "v_strs (view w) (boardLoadLockKey b) = None \<Longrightarrow> \<exists>token. r = Some token \<and>
       view w' = (view w)\<lparr>v_strs := (v_strs (view w))(boardLoadLockKey b \<mapsto>
         (token, Some (v_now (view w) + BOARD_LOAD_LOCK_TTL_MS)))\<rparr>"
    using ok v2 r by (intro exI[of _ token]) (simp add: BOARD_LOAD_LOCK_TTL_MS_def)
qed

end

context quiet_services
begin

lemma wait_bounded:
  "locks_end_by n b (view w) \<Longrightarrow>
   \<exists>w' d. waitForBoardLoad E b w = Some w' \<and> 0 \<le> d \<and> view w' = elapse d (view w)"
proof (induction n arbitrary: w rule: less_induct)
  case (less n)
  show ?case
  proof (cases "board_ready E b w")
    case True
    then show ?thesis
      by (intro exI[of _ w] exI[of _ 0]) (simp add: waitForBoardLoad_ready)
  next
    case False
    then have n: "0 < n"
      using less.prems locks_end_now[of b w] by (cases n) (auto simp: board_ready_view lock_keys_def)
    obtain d where d: "int BOARD_LOAD_LOCK_POLL_MS \<le> d"
      "view (e_sleep E BOARD_LOAD_LOCK_POLL_MS w) = elapse d (view w)" using sleep by blast
    have "n - BOARD_LOAD_LOCK_POLL_MS < n" using n by (simp add: BOARD_LOAD_LOCK_POLL_MS_def)
    moreover have "locks_end_by (n - BOARD_LOAD_LOCK_POLL_MS) b (view (e_sleep E BOARD_LOAD_LOCK_POLL_MS w))"
      using less.prems d by (simp add: locks_end_by_elapse)
    ultimately obtain w' d' where w': "waitForBoardLoad E b (e_sleep E BOARD_LOAD_LOCK_POLL_MS w) = Some w'"
      "0 \<le> d'" "view w' = elapse d' (view (e_sleep E BOARD_LOAD_LOCK_POLL_MS w))"
      using less.IH by blast
    show ?thesis
    proof (intro exI conjI)
      show "waitForBoardLoad E b w = Some w'" using False w'(1) by (simp add: waitForBoardLoad.simps[of E b w])
      show "view w' = elapse (d + d') (view w)" using w' d by (simp add: elapse_elapse)
    qed (use w'(2) d(1) in simp)
  qed
qed

lemma wait_terminates:
  assumes "locks_expire b (view w)"
  shows "\<exists>w' d. waitForBoardLoad E b w = Some w' \<and> board_ready E b w' \<and> 0 \<le> d \<and> view w' = elapse d (view w)"
  using assms locks_expire_end wait_bounded waitForBoardLoad_returns_ready by metis

end

section \<open>loadBoard\<close>

definition loaded_element :: "string \<Rightarrow> rview \<Rightarrow> string \<Rightarrow> json option" where
  \<comment> \<open>the document \<open>loadBoard\<close> stores for the row \<open>i\<close> of the board, if there is one\<close>
  "loaded_element b v i = (case v_rows v i of None \<Rightarrow> None
     | Some r \<Rightarrow> if row_board r = b then Some (JObj (dbRowToBoardElement (v_now v) r)) else None)"

context services
begin

lemma load_commands_view:
  assumes "e_select_elements E b w = Inr rows"
  shows "fold redis_step (load_commands b (v_now (view w)) rows) (view w) = (view w)\<lparr>
     v_strs := (v_strs (view w))(boardSeqKey b \<mapsto> (''0'', None)),
     v_hash := (v_hash (view w))(boardElementsKey b :=
       v_hash (view w) (boardElementsKey b) ++ loaded_element b (view w))\<rparr>"
proof -
  let ?ps = "map (\<lambda>row. (row_id row, JObj (dbRowToBoardElement (v_now (view w)) row))) rows"
  have rows: "distinct (map row_id rows)"
    "\<And>r. r \<in> set rows \<longleftrightarrow> v_rows (view w) (row_id r) = Some r \<and> row_board r = b"
    using select_elements[OF assms] by auto
  have keys: "map fst ?ps = map row_id rows" by simp
  have "map_of ?ps i = loaded_element b (view w) i" for i
  proof (cases "i \<in> row_id ` set rows")
    case True
    then obtain r where r: "r \<in> set rows" "i = row_id r" by blast
    then have "map_of ?ps i = Some (JObj (dbRowToBoardElement (v_now (view w)) r))"
      using rows(1) keys by (intro map_of_is_SomeI) (simp only: keys, force)
    then show ?thesis using rows(2)[of r] r by (simp add: loaded_element_def)
  next
    case False
    then have "map_of ?ps i = None" by (force simp: map_of_eq_None_iff)
    moreover have "loaded_element b (view w) i = None"
    proof (cases "v_rows (view w) i")
      case (Some r)
      then have "row_id r = i" by (rule rows_keyed)
      with Some False rows(2)[of r] show ?thesis by (auto simp: loaded_element_def)
    qed (simp add: loaded_element_def)
    ultimately show ?thesis by simp
  qed
  then have ps: "map_of (rev ?ps) = loaded_element b (view w)"
    using rows(1) by (subst map_of_rev_distinct) (auto simp only: keys)
  show ?thesis
    unfolding load_commands_def fold_append comp_apply fold_HSET ps
    by simp
qed

lemma load_rows_view:
  assumes "load_rows E b w = (r, w')" "v_strs (view w) (boardSeqKey b) = None"
  shows "case r of
     Inl err \<Rightarrow> view w' = view w
   | Inr n \<Rightarrow> view w' = (view w)\<lparr>
       v_strs := (v_strs (view w))(boardSeqKey b \<mapsto> (''0'', None)),
       v_hash := (v_hash (view w))(boardElementsKey b :=
         v_hash (view w) (boardElementsKey b) ++ loaded_element b (view w))\<rparr>"
proof (cases "e_select_elements E b w")
  case (Inl err)
  then show ?thesis using assms by (auto simp: load_rows_def exists_str)
next
  case (Inr rows)
  have empty: "load_commands b t [] = [SET (boardSeqKey b) ''0'']" for t
    by (simp add: load_commands_def)
  have "r = Inr (length rows)" "view w' = fold redis_step (load_commands b (v_now (view w)) rows) (view w)"
    using assms Inr by (auto simp: load_rows_def exists_str written now empty split: if_splits)
  with load_commands_view[OF Inr] show ?thesis by simp
qed

lemma loadBoard_loaded:
  assumes "v_strs (view w) (boardEvictionLockKey b) = None" "v_strs (view w) (boardSeqKey b) \<noteq> None"
  shows "loadBoard E b w = Some (Inr 0, w)"
  using assms by (simp add: loadBoard.simps exists_str)

lemma loadBoard_unlocked:
  assumes "v_strs (view w) (boardEvictionLockKey b) = None" "v_strs (view w) (boardLoadLockKey b) = None"
    "v_strs (view w) (boardSeqKey b) = None"
  shows "\<exists>r w'. loadBoard E b w = Some (r, w') \<and> v_strs (view w') (boardLoadLockKey b) = None \<and>
    v_strs (view w') (boardEvictionLockKey b) = None \<and> v_rows (view w') = v_rows (view w) \<and>
    (case r of
       Inl err \<Rightarrow> v_strs (view w') (boardSeqKey b) = None \<and>
         v_hash (view w') (boardElementsKey b) = v_hash (view w) (boardElementsKey b)
     | Inr n \<Rightarrow> v_strs (view w') (boardSeqKey b) = Some (''0'', None) \<and>
         v_hash (view w') (boardElementsKey b) =
           v_hash (view w) (boardElementsKey b) ++ loaded_element b (view w))"
proof -
  obtain tok w1 where a: "acquireBoardLoadLock E b w = (tok, w1)" by (cases "acquireBoardLoadLock E b w")
  obtain token where t: "tok = Some token" and v1: "view w1 = (view w)\<lparr>v_strs := (v_strs (view w))
      (boardLoadLockKey b \<mapsto> (token, Some (v_now (view w) + BOARD_LOAD_LOCK_TTL_MS)))\<rparr>"
    using acquireBoardLoadLock_view(2)[OF a assms(2)] by blast
  obtain r w2 where l: "load_rows E b w1 = (r, w2)" by (cases "load_rows E b w1")
  have "v_strs (view w1) (boardSeqKey b) = None" using assms(3) by (simp add: v1 key_defs)
  note v2 = load_rows_view[OF l this]
  have lb: "loadBoard E b w = Some (r, releaseBoardLoadLock E b token w2)"
    using assms(1,3) by (simp add: loadBoard.simps exists_str a t l)
  have held: "map_option fst (v_strs (view w2) (boardLoadLockKey b)) = Some token"
    using v2 by (cases r) (simp_all add: v1 key_defs)
  have v3: "view (releaseBoardLoadLock E b token w2) = redis_step (DEL [boardLoadLockKey b]) (view w2)"
    by (simp only: releaseBoardLoadLock_def del_if_equal held refl if_True)
  have le: "loaded_element b (view w1) = loaded_element b (view w)"
    by (auto simp: loaded_element_def v1 fun_eq_iff split: option.split)
  show ?thesis
    unfolding lb
    using v2 assms le by (cases r) (simp_all add: v3 v1 key_defs)
qed

lemma loadBoard_unlocked_returns:
  assumes "v_strs (view w) (boardEvictionLockKey b) = None" "v_strs (view w) (boardLoadLockKey b) = None"
    "v_strs (view w) (boardSeqKey b) = None"
  shows "\<exists>r w'. loadBoard E b w = Some (r, w') \<and>
    (\<forall>m. r = Inr m \<longrightarrow> v_strs (view w') (boardSeqKey b) \<noteq> None)"
  using loadBoard_unlocked[OF assms] by (force split: sum.splits)

end

context quiet_services
begin

lemma loadBoard_bounded:
  "locks_end_by n b (view w) \<Longrightarrow> \<exists>r w'. loadBoard E b w = Some (r, w') \<and>
     (\<forall>m. r = Inr m \<longrightarrow> v_strs (view w') (boardSeqKey b) \<noteq> None)"
proof (induction n arbitrary: w rule: less_induct)
  case (less n)
  show ?case
  proof (cases "v_strs (view w) (boardEvictionLockKey b) = None")
    case evicting: False
    then have n: "0 < n"
      using less.prems locks_end_now[of b w] by (cases n) (auto simp: lock_keys_def)
    obtain d where d: "int BOARD_EVICTION_LOCK_POLL_MS \<le> d"
      "view (e_sleep E BOARD_EVICTION_LOCK_POLL_MS w) = elapse d (view w)" using sleep by blast
    have "n - BOARD_EVICTION_LOCK_POLL_MS < n" using n by (simp add: BOARD_EVICTION_LOCK_POLL_MS_def)
    moreover have "locks_end_by (n - BOARD_EVICTION_LOCK_POLL_MS) b (view (e_sleep E BOARD_EVICTION_LOCK_POLL_MS w))"
      using less.prems d by (simp add: locks_end_by_elapse)
    moreover have "loadBoard E b w = loadBoard E b (e_sleep E BOARD_EVICTION_LOCK_POLL_MS w)"
      using evicting by (simp add: loadBoard.simps[of E b w] exists_str)
    ultimately show ?thesis using less.IH by simp
  next
    case free: True
    show ?thesis
    proof (cases "v_strs (view w) (boardSeqKey b) = None")
      case False
      then show ?thesis using loadBoard_loaded[OF free] by auto
    next
      case seq: True
      show ?thesis
      proof (cases "v_strs (view w) (boardLoadLockKey b) = None")
        case True
        then show ?thesis using loadBoard_unlocked_returns[OF free _ seq] by blast
      next
        case locked: False
        obtain tok w1 where a: "acquireBoardLoadLock E b w = (tok, w1)" by (cases "acquireBoardLoadLock E b w")
        have t: "tok = None" "view w1 = view w" using acquireBoardLoadLock_view(1)[OF a locked] by auto
        obtain w2 where w2: "waitForBoardLoad E b w1 = Some w2" "board_ready E b w2"
          using less.prems t(2) wait_bounded[of n b w1] waitForBoardLoad_returns_ready by metis
        have "loadBoard E b w = loadBoard E b w2"
          using free seq by (simp add: loadBoard.simps[of E b w] exists_str a t w2)
        moreover have "\<exists>r w'. loadBoard E b w2 = Some (r, w') \<and>
            (\<forall>m. r = Inr m \<longrightarrow> v_strs (view w') (boardSeqKey b) \<noteq> None)"
        proof (cases "v_strs (view w2) (boardSeqKey b) = None")
          case True
          then show ?thesis using loadBoard_unlocked_returns[of w2 b] w2(2) by (simp add: board_ready_view)
        next
          case False
          then show ?thesis using loadBoard_loaded[of w2 b] w2(2) by (auto simp: board_ready_view)
        qed
        ultimately show ?thesis by simp
      qed
    qed
  qed
qed

end

section \<open>Properties\<close>

text \<open>When the eviction and load locks of a board carry a time to live, \<open>waitForBoardLoad\<close>
  returns, and it returns in a state in which no eviction runs and the board is loaded or nobody
  is loading it; waiting changes nothing but the clock and the keys that expire.\<close>

theorem waitForBoardLoad_returns:
  assumes "quiet_services E view" "locks_expire b (view w)"
  shows "\<exists>w' d. waitForBoardLoad E b w = Some w' \<and> board_ready E b w' \<and>
    0 \<le> d \<and> view w' = elapse d (view w)"
  using assms by (rule quiet_services.wait_terminates)

definition evicting_world :: mem where
  "evicting_world = mem0\<lparr>m_strs := [(boardEvictionLockKey ''b1'', (''tok'', Some 1000040)),
     (boardLoadLockKey ''b1'', (''tok2'', Some 1000060))]\<rparr>"

theorem waitForBoardLoad_returns_witness:
  "\<exists>w' d. waitForBoardLoad mem_env ''b1'' evicting_world = Some w' \<and> board_ready mem_env ''b1'' w' \<and>
    0 \<le> d \<and> mem_view w' = elapse d (mem_view evicting_world)"
  by (rule waitForBoardLoad_returns[OF mem.quiet_services_axioms])
     (simp add: locks_expire_def evicting_world_def mem_str_eval key_defs)

text \<open>C21: Loading a board that is not loaded and not locked takes the load lock, reads the rows and
  gives the lock back. On success the sequence is \<open>0\<close> and the element hash holds exactly one
  document per row of the board, over what it held before; when the database fails the error is
  reported, the board stays unloaded and no element is touched.\<close>

theorem loadBoard_from_database:
  assumes "services E view"
    and "v_strs (view w) (boardEvictionLockKey b) = None"
    and "v_strs (view w) (boardLoadLockKey b) = None"
    and "v_strs (view w) (boardSeqKey b) = None"
  shows "\<exists>r w'. loadBoard E b w = Some (r, w') \<and> v_strs (view w') (boardLoadLockKey b) = None \<and>
    v_strs (view w') (boardEvictionLockKey b) = None \<and> v_rows (view w') = v_rows (view w) \<and>
    (case r of
       Inl err \<Rightarrow> v_strs (view w') (boardSeqKey b) = None \<and>
         v_hash (view w') (boardElementsKey b) = v_hash (view w) (boardElementsKey b)
     | Inr n \<Rightarrow> v_strs (view w') (boardSeqKey b) = Some (''0'', None) \<and>
         v_hash (view w') (boardElementsKey b) =
           v_hash (view w) (boardElementsKey b) ++ loaded_element b (view w))"
  using assms by (rule services.loadBoard_unlocked)

definition stored_world :: mem where
  "stored_world = mem0\<lparr>m_boards := [(''b1'', 7)], m_rows := [\<lparr>row_id = ''e1'', row_board = ''b1'',
     row_type = JStr ''NOTE'', row_data = [(''x'', JNum 3)], row_updated = Some 5\<rparr>]\<rparr>"

theorem loadBoard_from_database_witness:
  "\<exists>r w'. loadBoard mem_env ''b1'' stored_world = Some (r, w') \<and>
    v_strs (mem_view w') (boardLoadLockKey ''b1'') = None \<and>
    v_strs (mem_view w') (boardEvictionLockKey ''b1'') = None \<and>
    v_rows (mem_view w') = v_rows (mem_view stored_world) \<and>
    (case r of
       Inl err \<Rightarrow> v_strs (mem_view w') (boardSeqKey ''b1'') = None \<and>
         v_hash (mem_view w') (boardElementsKey ''b1'') = v_hash (mem_view stored_world) (boardElementsKey ''b1'')
     | Inr n \<Rightarrow> v_strs (mem_view w') (boardSeqKey ''b1'') = Some (''0'', None) \<and>
         v_hash (mem_view w') (boardElementsKey ''b1'') =
           v_hash (mem_view stored_world) (boardElementsKey ''b1'') ++ loaded_element ''b1'' (mem_view stored_world))"
  by (rule loadBoard_from_database[OF mem.services_axioms])
     (simp_all add: stored_world_def mem_str_eval)

text \<open>\<open>loadBoard\<close> returns whatever evictions and loads of other servers are in progress, as long
  as their locks expire; when it returns without an error the board is loaded.\<close>

theorem loadBoard_returns:
  assumes "quiet_services E view" "locks_expire b (view w)"
  shows "\<exists>r w'. loadBoard E b w = Some (r, w') \<and>
    (\<forall>n. r = Inr n \<longrightarrow> v_strs (view w') (boardSeqKey b) \<noteq> None)"
  using locks_expire_end[OF assms(2)] quiet_services.loadBoard_bounded[OF assms(1)] by blast

theorem loadBoard_returns_witness:
  "\<exists>r w'. loadBoard mem_env ''b1'' (evicting_world\<lparr>m_boards := [(''b1'', 7)]\<rparr>) = Some (r, w') \<and>
    (\<forall>n. r = Inr n \<longrightarrow> v_strs (mem_view w') (boardSeqKey ''b1'') \<noteq> None)"
  by (rule loadBoard_returns[OF mem.quiet_services_axioms])
     (simp add: locks_expire_def evicting_world_def mem_str_eval key_defs)

end
