(* ===== verification/Board_State.thy ===== *)
theory Board_State
  imports Board_Load
begin

text \<open>
  The state of a loaded board (\<open>board-state/state-domain.ts\<close>): reads of the element hash, the
  sequence counter, the idempotency keys, \<open>applyChangeSet\<close> with its pipeline, the change log
  and the snapshot. \<open>abs_board\<close> is the abstract board; the lemmas show that the pipeline
  refines the abstract change and that it keeps every unsaved difference marked dirty. Metrics
  and structured log lines are not state of the program and are left out.
\<close>

section \<open>Reads\<close>

fun parse_element :: "json \<Rightarrow> board_element" where
  \<comment> \<open>\<open>JSON.parse(json) as BoardElement\<close>\<close>
  "parse_element (JObj e) = e"
| "parse_element _ = []"

definition getElements :: "'w env \<Rightarrow> string \<Rightarrow> 'w \<Rightarrow> ((string \<times> board_element) list \<times> 'w) option" where
  "getElements E b w = do {
     w \<leftarrow> waitForBoardLoad E b w;
     Some (map (\<lambda>p. (fst p, parse_element (snd p))) (e_hgetall E (boardElementsKey b) w), w)
   }"

definition getElement :: "'w env \<Rightarrow> string \<Rightarrow> string \<Rightarrow> 'w \<Rightarrow> (board_element option \<times> 'w) option" where
  "getElement E b i w = do {
     w \<leftarrow> waitForBoardLoad E b w;
     Some (map_option parse_element (e_hget E (boardElementsKey b) i w), w)
   }"

definition collect_by_ids :: "string list \<Rightarrow> json option list \<Rightarrow> (string \<times> board_element) list" where
  \<comment> \<open>the loop over \<open>elementIds\<close> and the replies\<close>
  "collect_by_ids ids raw = fold (\<lambda>(i, j) m. case j of
     None \<Rightarrow> m
   | Some doc \<Rightarrow> if i = [] then m else js_put i (parse_element doc) m) (zip ids raw) []"

definition getElementsByIds ::
    "'w env \<Rightarrow> string \<Rightarrow> string list \<Rightarrow> 'w \<Rightarrow> ((string \<times> board_element) list \<times> 'w) option" where
  "getElementsByIds E b ids w = do {
     w \<leftarrow> waitForBoardLoad E b w;
     Some (if ids = [] then [] else collect_by_ids ids (e_hmget E (boardElementsKey b) ids w), w)
   }"

definition setElement :: "'w env \<Rightarrow> string \<Rightarrow> string \<Rightarrow> board_element \<Rightarrow> 'w \<Rightarrow> 'w option" where
  "setElement E b i e w = do {
     w \<leftarrow> waitForBoardLoad E b w;
     Some (e_write E [HSET (boardElementsKey b) i (JObj e)] w)
   }"

definition deleteElement :: "'w env \<Rightarrow> string \<Rightarrow> string \<Rightarrow> 'w \<Rightarrow> 'w option" where
  "deleteElement E b i w = do {
     w \<leftarrow> waitForBoardLoad E b w;
     Some (e_write E [HDEL (boardElementsKey b) [i]] w)
   }"

definition getSequence :: "'w env \<Rightarrow> string \<Rightarrow> 'w \<Rightarrow> (int \<times> 'w) option" where
  \<comment> \<open>draws the next sequence number\<close>
  "getSequence E b w = do {
     w \<leftarrow> waitForBoardLoad E b w;
     Some (e_incr E (boardSeqKey b) w)
   }"

definition peekSequence :: "'w env \<Rightarrow> string \<Rightarrow> 'w \<Rightarrow> (int \<times> 'w) option" where
  "peekSequence E b w = do {
     w \<leftarrow> waitForBoardLoad E b w;
     Some (int_or 0 (e_get E (boardSeqKey b) w), w)
   }"

section \<open>Idempotency keys\<close>

definition isDuplicate :: "'w env \<Rightarrow> string \<Rightarrow> string \<Rightarrow> 'w \<Rightarrow> (bool \<times> 'w) option" where
  "isDuplicate E b m w = do {
     w \<leftarrow> waitForBoardLoad E b w;
     Some (e_exists E (boardSeenKey b m) w, w)
   }"

definition tryMarkSeen :: "'w env \<Rightarrow> string \<Rightarrow> string \<Rightarrow> 'w \<Rightarrow> (bool \<times> 'w) option" where
  "tryMarkSeen E b m w = do {
     w \<leftarrow> waitForBoardLoad E b w;
     Some (e_set_nx_px E (boardSeenKey b m) ''1'' (SEEN_TTL_SECONDS * 1000) w)
   }"

definition markSeen :: "'w env \<Rightarrow> string \<Rightarrow> string \<Rightarrow> 'w \<Rightarrow> 'w option" where
  "markSeen E b m w = do {
     w \<leftarrow> waitForBoardLoad E b w;
     Some (e_write E [SET_PX (boardSeenKey b m) ''1'' (SEEN_TTL_SECONDS * 1000)] w)
   }"

section \<open>applyChangeSet\<close>

record element_change_set =
  cs_upserts :: "board_element list"
  cs_deletes :: "string list"

record persisted_change =
  pc_sequence :: int
  pc_timestamp :: int
  pc_upserts :: "board_element list"
  pc_deletes :: "string list"

record change_options =
  opt_trackChangeLog :: "bool option"
  opt_trackChanges :: "bool option"
  opt_baseElements :: "(string \<times> board_element) list option"

definition no_options :: change_options where
  "no_options = \<lparr>opt_trackChangeLog = None, opt_trackChanges = None, opt_baseElements = None\<rparr>"

definition track_change_log :: "change_options \<Rightarrow> bool" where
  \<comment> \<open>\<open>options.trackChangeLog ?? options.trackChanges ?? true\<close>\<close>
  "track_change_log opts = (case opt_trackChangeLog opts of Some t \<Rightarrow> t
     | None \<Rightarrow> (case opt_trackChanges opts of Some t \<Rightarrow> t | None \<Rightarrow> True))"

definition stamp :: "int \<Rightarrow> board_element \<Rightarrow> board_element" where
  \<comment> \<open>\<open>{ ...element, updatedAt: t }\<close>\<close>
  "stamp t e = js_put ''updatedAt'' (js_int t) e"

definition encode_change :: "persisted_change \<Rightarrow> json" where
  "encode_change c = JObj [(''sequence'', js_int (pc_sequence c)),
     (''serverTimestamp'', js_int (pc_timestamp c)),
     (''upserts'', JArr (map JObj (pc_upserts c))), (''deletes'', JArr (map JStr (pc_deletes c)))]"

definition change_commands :: "string \<Rightarrow> bool \<Rightarrow> persisted_change \<Rightarrow> rcmd list" where
  "change_commands b trackLog c =
     map (\<lambda>p. HSET (boardElementsKey b) (fst p) (snd p)) (map (\<lambda>e. (el_id e, JObj e)) (pc_upserts c))
     @ (if pc_deletes c \<noteq> [] then [HDEL (boardElementsKey b) (pc_deletes c)] else [])
     @ (if trackLog then [RPUSH (boardChangeLogKey b) (encode_change c),
          LTRIM_LAST (boardChangeLogKey b) CHANGE_LOG_MAX_LENGTH] else [])
     @ [SADD DIRTY_BOARDS_KEY [b],
        ZADD_NX DIRTY_BOARDS_BY_AGE_KEY (pc_timestamp c) b,
        SADD ACTIVE_BOARDS_KEY [b],
        SETNX (boardDirtySinceKey b) (dec (pc_timestamp c)),
        INCR (boardDirtyEpochKey b),
        SET (boardLastActiveKey b) (dec (pc_timestamp c))]
     @ (if pc_upserts c \<noteq> [] then
          [SADD (boardDirtyElementIdsKey b) (map el_id (pc_upserts c)),
           SREM (boardDeletedElementIdsKey b) (map el_id (pc_upserts c))] else [])
     @ (if pc_deletes c \<noteq> [] then
          [SADD (boardDeletedElementIdsKey b) (pc_deletes c),
           SREM (boardDirtyElementIdsKey b) (pc_deletes c)] else [])"

definition effective_upserts :: "int \<Rightarrow> board_element list \<Rightarrow> string list \<Rightarrow> board_element list" where
  "effective_upserts now upserts deleteIds =
     map (stamp now) (filter (\<lambda>e. el_id e \<notin> set deleteIds) (normalizeUpserts upserts))"

definition cascade_deletes :: "'w env \<Rightarrow> string \<Rightarrow> element_change_set \<Rightarrow> change_options \<Rightarrow> 'w \<Rightarrow>
    (string list \<times> 'w) option" where
  "cascade_deletes E b cs opts w =
     (if cs_deletes cs = [] then Some ([], w)
      else case opt_baseElements opts of
        Some base \<Rightarrow> Some (collectCascadeDeleteIds base (cs_deletes cs), w)
      | None \<Rightarrow> do {
          (els, w) \<leftarrow> getElements E b w;
          Some (collectCascadeDeleteIds els (cs_deletes cs), w)
        })"

definition applyChangeSet :: "'w env \<Rightarrow> string \<Rightarrow> element_change_set \<Rightarrow> change_options \<Rightarrow> 'w \<Rightarrow>
    (persisted_change option \<times> 'w) option" where
  "applyChangeSet E b cs opts w = do {
     w \<leftarrow> waitForBoardLoad E b w;
     (deleteIds, w) \<leftarrow> cascade_deletes E b cs opts w;
     let upserts = effective_upserts (e_now E w) (cs_upserts cs) deleteIds;
     if upserts = [] \<and> deleteIds = [] then Some (None, w)
     else do {
       (sequence, w) \<leftarrow> getSequence E b w;
       let serverTimestamp = e_now E w;
       let change = \<lparr>pc_sequence = sequence, pc_timestamp = serverTimestamp,
             pc_upserts = map (stamp serverTimestamp) upserts, pc_deletes = deleteIds\<rparr>;
       Some (Some change, e_write E (change_commands b (track_change_log opts) change) w)
     }
   }"

section \<open>Change log and snapshot\<close>

fun decode_strings :: "json \<Rightarrow> string list" where
  "decode_strings (JArr js) = map (\<lambda>j. case json_string j of Some s \<Rightarrow> s | None \<Rightarrow> []) js"
| "decode_strings _ = []"

fun decode_elements :: "json \<Rightarrow> board_element list" where
  "decode_elements (JArr js) = map parse_element js"
| "decode_elements _ = []"

definition int_field :: "string \<Rightarrow> js_object \<Rightarrow> int" where
  "int_field k obj = (case Option.bind (js_get k obj) json_int of Some n \<Rightarrow> n | None \<Rightarrow> 0)"

definition decode_change :: "json \<Rightarrow> persisted_change" where
  "decode_change j = (let obj = parse_element j in
     \<lparr>pc_sequence = int_field ''sequence'' obj, pc_timestamp = int_field ''serverTimestamp'' obj,
      pc_upserts = (case js_get ''upserts'' obj of Some us \<Rightarrow> decode_elements us | None \<Rightarrow> []),
      pc_deletes = (case js_get ''deletes'' obj of Some ds \<Rightarrow> decode_strings ds | None \<Rightarrow> [])\<rparr>)"

definition changes_after :: "int \<Rightarrow> persisted_change list \<Rightarrow> persisted_change list" where
  "changes_after after cs = sort_key pc_sequence (filter (\<lambda>c. after < pc_sequence c) cs)"

definition getChangesAfter :: "'w env \<Rightarrow> string \<Rightarrow> int \<Rightarrow> 'w \<Rightarrow>
    ((persisted_change list \<times> bool) \<times> 'w) option" where
  "getChangesAfter E b after w = do {
     w \<leftarrow> waitForBoardLoad E b w;
     (current, w) \<leftarrow> peekSequence E b w;
     if current \<le> after then Some (([], True), w)
     else let changes = changes_after after (map decode_change (e_lrange E (boardChangeLogKey b) w))
          in (case changes of
                [] \<Rightarrow> Some (([], False), w)
              | c # _ \<Rightarrow> Some ((changes, pc_sequence c = after + 1), w))
   }"

definition getSnapshot :: "'w env \<Rightarrow> string \<Rightarrow> 'w \<Rightarrow>
    (((string \<times> board_element) list \<times> int) \<times> 'w) option" where
  \<comment> \<open>the MULTI of HGETALL and GET observes one state\<close>
  "getSnapshot E b w = do {
     w \<leftarrow> waitForBoardLoad E b w;
     Some ((map (\<lambda>p. (fst p, parse_element (snd p))) (e_hgetall E (boardElementsKey b) w),
       int_or 0 (e_get E (boardSeqKey b) w)), w)
   }"

section \<open>The abstract board\<close>

record board_abs =
  ab_elements :: "string \<rightharpoonup> json"
  ab_sequence :: int
  ab_dirty :: "string set"
  ab_deleted :: "string set"
  ab_epoch :: int
  ab_log :: "json list"
  ab_listed :: bool

definition counter :: "rview \<Rightarrow> rkey \<Rightarrow> int" where
  "counter v k = int_or 0 (map_option fst (v_strs v k))"

definition counter_ok :: "rview \<Rightarrow> rkey \<Rightarrow> bool" where
  \<comment> \<open>the key is absent or holds a decimal numeral, as \<open>INCR\<close> leaves it\<close>
  "counter_ok v k = (\<forall>s e. v_strs v k = Some (s, e) \<longrightarrow> (\<exists>n. s = dec n))"

definition abs_board :: "string \<Rightarrow> rview \<Rightarrow> board_abs" where
  "abs_board b v = \<lparr>ab_elements = v_hash v (boardElementsKey b),
     ab_sequence = counter v (boardSeqKey b),
     ab_dirty = v_set v (boardDirtyElementIdsKey b),
     ab_deleted = v_set v (boardDeletedElementIdsKey b),
     ab_epoch = counter v (boardDirtyEpochKey b),
     ab_log = v_list v (boardChangeLogKey b),
     ab_listed = (b \<in> v_set v DIRTY_BOARDS_KEY \<and> v_zset v DIRTY_BOARDS_BY_AGE_KEY b \<noteq> None)\<rparr>"

definition overlay :: "board_element list \<Rightarrow> string list \<Rightarrow> (string \<rightharpoonup> json) \<Rightarrow> (string \<rightharpoonup> json)" where
  \<comment> \<open>the element hash after upserting \<open>us\<close> and deleting \<open>ds\<close>\<close>
  "overlay us ds old = (\<lambda>i. if i \<in> set ds then None
     else case map_of (map (\<lambda>e. (el_id e, JObj e)) us) i of Some j \<Rightarrow> Some j | None \<Rightarrow> old i)"

definition spec_change :: "bool \<Rightarrow> persisted_change \<Rightarrow> board_abs \<Rightarrow> board_abs" where
  "spec_change trackLog c a =
     (let U = set (map el_id (pc_upserts c)); D = set (pc_deletes c)
      in a\<lparr>ab_elements := overlay (pc_upserts c) (pc_deletes c) (ab_elements a),
           ab_dirty := ab_dirty a \<union> U - D,
           ab_deleted := ab_deleted a - U \<union> D,
           ab_epoch := ab_epoch a + 1,
           ab_log := (if trackLog then last_n CHANGE_LOG_MAX_LENGTH (ab_log a @ [encode_change c]) else ab_log a),
           ab_listed := True\<rparr>)"

lemma dec_1: "dec 1 = ''1''"
  by code_simp

lemma dec_0: "dec 0 = ''0''"
  by code_simp

lemma counter_incr:
  assumes "counter_ok v k"
  shows "counter (redis_step (INCR k) v) k = counter v k + 1"
proof (cases "v_strs v k")
  case None
  then show ?thesis by (simp add: counter_def)
next
  case (Some p)
  then obtain n e where "v_strs v k = Some (dec n, e)"
    using assms by (cases p) (auto simp: counter_ok_def)
  then show ?thesis by (simp add: counter_def)
qed

lemma redis_step_incr_frame:
  "k' \<noteq> k \<Longrightarrow> v_strs (redis_step (INCR k) v) k' = v_strs v k'"
  "v_hash (redis_step (INCR k) v) = v_hash v" "v_set (redis_step (INCR k) v) = v_set v"
  "v_zset (redis_step (INCR k) v) = v_zset v" "v_list (redis_step (INCR k) v) = v_list v"
  by (auto split: option.split)

lemma counter_ok_incr: "counter_ok v k \<Longrightarrow> counter_ok (redis_step (INCR k) v) k"
  by (auto simp: counter_ok_def split: option.splits)

text \<open>The pipeline, cut into the parts the abstraction reads.\<close>

definition mark_commands :: "string \<Rightarrow> persisted_change \<Rightarrow> rcmd list" where
  "mark_commands b c =
     (if pc_upserts c \<noteq> [] then
        [SADD (boardDirtyElementIdsKey b) (map el_id (pc_upserts c)),
         SREM (boardDeletedElementIdsKey b) (map el_id (pc_upserts c))] else [])
     @ (if pc_deletes c \<noteq> [] then
        [SADD (boardDeletedElementIdsKey b) (pc_deletes c),
         SREM (boardDirtyElementIdsKey b) (pc_deletes c)] else [])"

definition mark_sets :: "string \<Rightarrow> persisted_change \<Rightarrow> rview \<Rightarrow> rkey \<Rightarrow> string set" where
  "mark_sets b c v = (v_set v)
     (boardDirtyElementIdsKey b := v_set v (boardDirtyElementIdsKey b) \<union> el_id ` set (pc_upserts c) - set (pc_deletes c),
      boardDeletedElementIdsKey b := v_set v (boardDeletedElementIdsKey b) - el_id ` set (pc_upserts c) \<union> set (pc_deletes c))"

lemma mark_commands_view:
  "fold redis_step (mark_commands b c) v = v\<lparr>v_set := mark_sets b c v\<rparr>"
  unfolding mark_commands_def mark_sets_def
  by (auto simp: key_defs fun_eq_iff intro!: rview.equality)

lemma store_commands_view:
  assumes "distinct (map el_id us)"
  shows "fold redis_step (map (\<lambda>p. HSET k (fst p) (snd p)) (map (\<lambda>e. (el_id e, JObj e)) us) @
      (if ds \<noteq> [] then [HDEL k ds] else [])) v =
    v\<lparr>v_hash := (v_hash v)(k := overlay us ds (v_hash v k))\<rparr>"
proof -
  have "map_of (rev (map (\<lambda>e. (el_id e, JObj e)) us)) = map_of (map (\<lambda>e. (el_id e, JObj e)) us)"
    using assms by (intro map_of_rev_distinct) (simp add: comp_def)
  then show ?thesis
    unfolding fold_append comp_apply fold_HSET
    by (auto simp: overlay_def fun_eq_iff map_add_def restrict_map_def split: option.split intro!: rview.equality)
qed

definition log_commands :: "string \<Rightarrow> bool \<Rightarrow> persisted_change \<Rightarrow> rcmd list" where
  "log_commands b t c = (if t then [RPUSH (boardChangeLogKey b) (encode_change c),
     LTRIM_LAST (boardChangeLogKey b) CHANGE_LOG_MAX_LENGTH] else [])"

definition index_commands :: "string \<Rightarrow> persisted_change \<Rightarrow> rcmd list" where
  "index_commands b c = [SADD DIRTY_BOARDS_KEY [b],
     ZADD_NX DIRTY_BOARDS_BY_AGE_KEY (pc_timestamp c) b, SADD ACTIVE_BOARDS_KEY [b],
     SETNX (boardDirtySinceKey b) (dec (pc_timestamp c)), INCR (boardDirtyEpochKey b),
     SET (boardLastActiveKey b) (dec (pc_timestamp c))]"

lemma log_commands_view:
  "v_hash (fold redis_step (log_commands b t c) v) = v_hash v"
  "v_strs (fold redis_step (log_commands b t c) v) = v_strs v"
  "v_set (fold redis_step (log_commands b t c) v) = v_set v"
  "v_zset (fold redis_step (log_commands b t c) v) = v_zset v"
  "v_list (fold redis_step (log_commands b t c) v) (boardChangeLogKey b) =
     (if t then last_n CHANGE_LOG_MAX_LENGTH (v_list v (boardChangeLogKey b) @ [encode_change c])
      else v_list v (boardChangeLogKey b))"
  by (simp_all add: log_commands_def)

lemma index_commands_view:
  assumes "counter_ok v (boardDirtyEpochKey b)"
  shows "v_hash (fold redis_step (index_commands b c) v) = v_hash v"
    and "v_list (fold redis_step (index_commands b c) v) = v_list v"
    and "v_strs (fold redis_step (index_commands b c) v) (boardSeqKey b) = v_strs v (boardSeqKey b)"
    and "counter (fold redis_step (index_commands b c) v) (boardDirtyEpochKey b) =
      counter v (boardDirtyEpochKey b) + 1"
    and "v_set (fold redis_step (index_commands b c) v) (boardDirtyElementIdsKey b) =
      v_set v (boardDirtyElementIdsKey b)"
    and "v_set (fold redis_step (index_commands b c) v) (boardDeletedElementIdsKey b) =
      v_set v (boardDeletedElementIdsKey b)"
    and "b \<in> v_set (fold redis_step (index_commands b c) v) DIRTY_BOARDS_KEY"
    and "v_zset (fold redis_step (index_commands b c) v) DIRTY_BOARDS_BY_AGE_KEY b \<noteq> None"
proof -
  let ?pre = "[SADD DIRTY_BOARDS_KEY [b],
     ZADD_NX DIRTY_BOARDS_BY_AGE_KEY (pc_timestamp c) b, SADD ACTIVE_BOARDS_KEY [b],
     SETNX (boardDirtySinceKey b) (dec (pc_timestamp c))]"
  define v1 where "v1 = fold redis_step ?pre v"
  define v2 where "v2 = redis_step (INCR (boardDirtyEpochKey b)) v1"
  have all: "fold redis_step (index_commands b c) v =
      redis_step (SET (boardLastActiveKey b) (dec (pc_timestamp c))) v2"
    by (simp add: index_commands_def v1_def v2_def)
  have v1: "v_hash v1 = v_hash v" "v_list v1 = v_list v"
    "v_strs v1 (boardSeqKey b) = v_strs v (boardSeqKey b)"
    "v_strs v1 (boardDirtyEpochKey b) = v_strs v (boardDirtyEpochKey b)"
    "v_set v1 (boardDirtyElementIdsKey b) = v_set v (boardDirtyElementIdsKey b)"
    "v_set v1 (boardDeletedElementIdsKey b) = v_set v (boardDeletedElementIdsKey b)"
    "b \<in> v_set v1 DIRTY_BOARDS_KEY" "v_zset v1 DIRTY_BOARDS_BY_AGE_KEY b \<noteq> None"
    by (simp_all add: v1_def key_defs)
  have v2: "v_hash v2 = v_hash v1" "v_list v2 = v_list v1" "v_set v2 = v_set v1" "v_zset v2 = v_zset v1"
    "v_strs v2 (boardSeqKey b) = v_strs v1 (boardSeqKey b)"
    unfolding v2_def by (simp_all add: redis_step_incr_frame key_defs del: redis_step.simps(4))
  have "counter_ok v1 (boardDirtyEpochKey b)" using assms v1(4) by (simp add: counter_ok_def)
  from counter_incr[OF this] have c2: "counter v2 (boardDirtyEpochKey b) = counter v (boardDirtyEpochKey b) + 1"
    unfolding v2_def by (simp add: counter_def v1(4) del: redis_step.simps)
  show "v_hash (fold redis_step (index_commands b c) v) = v_hash v"
    "v_list (fold redis_step (index_commands b c) v) = v_list v"
    "v_strs (fold redis_step (index_commands b c) v) (boardSeqKey b) = v_strs v (boardSeqKey b)"
    "counter (fold redis_step (index_commands b c) v) (boardDirtyEpochKey b) =
      counter v (boardDirtyEpochKey b) + 1"
    "v_set (fold redis_step (index_commands b c) v) (boardDirtyElementIdsKey b) =
      v_set v (boardDirtyElementIdsKey b)"
    "v_set (fold redis_step (index_commands b c) v) (boardDeletedElementIdsKey b) =
      v_set v (boardDeletedElementIdsKey b)"
    "b \<in> v_set (fold redis_step (index_commands b c) v) DIRTY_BOARDS_KEY"
    "v_zset (fold redis_step (index_commands b c) v) DIRTY_BOARDS_BY_AGE_KEY b \<noteq> None"
    unfolding all using v1 v2 c2 by (simp_all add: counter_def key_defs)
qed

lemma abs_after_marks:
  assumes "v_hash v' (boardElementsKey b) = overlay (pc_upserts c) (pc_deletes c) (v_hash v (boardElementsKey b))"
    and "v_list v' (boardChangeLogKey b) =
      (if t then last_n CHANGE_LOG_MAX_LENGTH (v_list v (boardChangeLogKey b) @ [encode_change c])
       else v_list v (boardChangeLogKey b))"
    and "v_strs v' (boardSeqKey b) = v_strs v (boardSeqKey b)"
    and "counter v' (boardDirtyEpochKey b) = counter v (boardDirtyEpochKey b) + 1"
    and "v_set v' (boardDirtyElementIdsKey b) = v_set v (boardDirtyElementIdsKey b)"
    and "v_set v' (boardDeletedElementIdsKey b) = v_set v (boardDeletedElementIdsKey b)"
    and "b \<in> v_set v' DIRTY_BOARDS_KEY" "v_zset v' DIRTY_BOARDS_BY_AGE_KEY b \<noteq> None"
  shows "abs_board b (v'\<lparr>v_set := mark_sets b c v'\<rparr>) = spec_change t c (abs_board b v)"
  using assms
  by (simp add: abs_board_def spec_change_def Let_def mark_sets_def counter_def key_defs)

lemma change_commands_refine:
  assumes "distinct (map el_id (pc_upserts c))" "counter_ok v (boardDirtyEpochKey b)"
  shows "abs_board b (fold redis_step (change_commands b t c) v) = spec_change t c (abs_board b v)"
proof -
  let ?store = "map (\<lambda>p. HSET (boardElementsKey b) (fst p) (snd p)) (map (\<lambda>e. (el_id e, JObj e)) (pc_upserts c)) @
      (if pc_deletes c \<noteq> [] then [HDEL (boardElementsKey b) (pc_deletes c)] else [])"
  define v1 where "v1 = fold redis_step ?store v"
  define v2 where "v2 = fold redis_step (log_commands b t c) v1"
  define v3 where "v3 = fold redis_step (index_commands b c) v2"
  have "change_commands b t c = ?store @ log_commands b t c @ index_commands b c @ mark_commands b c"
    by (simp add: change_commands_def mark_commands_def log_commands_def index_commands_def)
  then have all: "fold redis_step (change_commands b t c) v = v3\<lparr>v_set := mark_sets b c v3\<rparr>"
    unfolding v3_def v2_def v1_def by (simp only: fold_append comp_apply mark_commands_view)
  have v1: "v1 = v\<lparr>v_hash := (v_hash v)(boardElementsKey b := overlay (pc_upserts c) (pc_deletes c) (v_hash v (boardElementsKey b)))\<rparr>"
    unfolding v1_def using assms(1) by (rule store_commands_view)
  note v2 = log_commands_view[of b t c v1, folded v2_def]
  have ok: "counter_ok v2 (boardDirtyEpochKey b)" using assms(2) by (simp add: v2 v1 counter_ok_def)
  note v3 = index_commands_view[OF ok, of c, folded v3_def]
  show ?thesis unfolding all
    by (rule abs_after_marks) (use v3 v2 in \<open>simp_all add: v1 counter_def\<close>)
qed

lemma change_commands_frame:
  "v_strs (fold redis_step (change_commands b t c) v) (boardSeqKey b) = v_strs v (boardSeqKey b)"
  "v_strs (fold redis_step (change_commands b t c) v) (boardEvictionLockKey b) = v_strs v (boardEvictionLockKey b)"
  "v_strs (fold redis_step (change_commands b t c) v) (boardLoadLockKey b) = v_strs v (boardLoadLockKey b)"
  "v_strs (fold redis_step (change_commands b t c) v) (boardSeenKey b m) = v_strs v (boardSeenKey b m)"
proof -
  have str: "v_strs (fold redis_step (change_commands b t c) v) k = v_strs v k"
    if "k \<notin> {boardDirtySinceKey b, boardDirtyEpochKey b, boardLastActiveKey b}" for k
  proof -
    have "v_strs (redis_step cmd u) k = v_strs u k" if "cmd \<in> set (change_commands b t c)" for cmd u
      using that \<open>k \<notin> _\<close>
      by (auto simp: change_commands_def split: if_splits option.split)
    then have "set cs \<subseteq> set (change_commands b t c) \<Longrightarrow> v_strs (fold redis_step cs u) k = v_strs u k" for cs u
      by (induction cs arbitrary: u) auto
    then show ?thesis by blast
  qed
  show "v_strs (fold redis_step (change_commands b t c) v) (boardSeqKey b) = v_strs v (boardSeqKey b)"
    "v_strs (fold redis_step (change_commands b t c) v) (boardEvictionLockKey b) = v_strs v (boardEvictionLockKey b)"
    "v_strs (fold redis_step (change_commands b t c) v) (boardLoadLockKey b) = v_strs v (boardLoadLockKey b)"
    "v_strs (fold redis_step (change_commands b t c) v) (boardSeenKey b m) = v_strs v (boardSeenKey b m)"
    by (rule str, simp add: key_defs)+
qed

section \<open>applyChangeSet refines the abstract change\<close>

definition cascade_base :: "string \<Rightarrow> change_options \<Rightarrow> rview \<Rightarrow> board_element set" where
  "cascade_base b opts v = (case opt_baseElements opts of
     Some base \<Rightarrow> snd ` set base
   | None \<Rightarrow> parse_element ` ran (v_hash v (boardElementsKey b)))"

definition delete_closure :: "string \<Rightarrow> element_change_set \<Rightarrow> change_options \<Rightarrow> rview \<Rightarrow> string set" where
  \<comment> \<open>the requested deletes and everything they contain, directly or not\<close>
  "delete_closure b cs opts v = (contains_rel (cascade_base b opts v))\<^sup>* `` set (cs_deletes cs)"

lemma stamp_stamp [simp]: "stamp t (stamp t e) = stamp t e"
proof -
  have "js_put k v (js_put k v xs) = js_put k v xs" for k v and xs :: js_object
    by (induction xs) auto
  then show ?thesis by (simp add: stamp_def)
qed

lemma el_id_stamp [simp]: "el_id (stamp t e) = el_id e"
  by (simp add: stamp_def)

lemma effective_upserts_ids:
  "map el_id (effective_upserts t us ds) = filter (\<lambda>i. i \<notin> set ds) (js_set (map el_id us))"
  unfolding effective_upserts_def normalizeUpserts_ids[symmetric] by (simp add: filter_map comp_def)

lemma distinct_effective_upserts: "distinct (map el_id (effective_upserts t us ds))"
  by (simp only: effective_upserts_ids distinct_filter distinct_js_set)

lemma effective_upserts_mem:
  "e \<in> set (effective_upserts t us ds) \<longleftrightarrow> (\<exists>u. e = stamp t u \<and> el_id u \<notin> set ds \<and>
     filter (\<lambda>x. el_id x = el_id u) us \<noteq> [] \<and> last (filter (\<lambda>x. el_id x = el_id u) us) = u)"
  by (auto simp: effective_upserts_def normalizeUpserts_mem)

lemma effective_upserts_Nil: "effective_upserts t us [] = [] \<longleftrightarrow> us = []"
proof -
  have "map el_id (effective_upserts t us []) = js_set (map el_id us)"
    by (simp add: effective_upserts_ids)
  then have "effective_upserts t us [] = [] \<longleftrightarrow> set (js_set (map el_id us)) = {}"
    by (metis list.map_disc_iff set_empty)
  then show ?thesis by simp
qed

lemma effective_upserts_stamped [simp]:
  "map (stamp t) (effective_upserts t us ds) = effective_upserts t us ds"
  by (simp add: effective_upserts_def comp_def)

context redis_client
begin

lemma getElements_ready:
  assumes "board_ready E b w"
  shows "\<exists>els. getElements E b w = Some (els, w) \<and> distinct (map fst els) \<and>
    (\<forall>i. js_get i els = map_option parse_element (v_hash (view w) (boardElementsKey b) i))"
proof -
  let ?h = "e_hgetall E (boardElementsKey b) w"
  let ?els = "map (\<lambda>p. (fst p, parse_element (snd p))) ?h"
  have "distinct (map fst ?els)" using hgetall(2)[of "boardElementsKey b" w] by (simp add: comp_def)
  then show ?thesis
    using assms hgetall(1)[of "boardElementsKey b" w]
    by (intro exI[of _ ?els])
       (simp add: getElements_def waitForBoardLoad_ready js_get_map_values, simp add: js_get_def)
qed

lemma getElements_values:
  assumes "board_ready E b w" "getElements E b w = Some (els, w')"
  shows "snd ` set els = parse_element ` ran (v_hash (view w) (boardElementsKey b))"
  using assms hgetall[of "boardElementsKey b" w] ran_distinct[of "e_hgetall E (boardElementsKey b) w"]
  by (force simp: getElements_def waitForBoardLoad_ready image_image)

lemma cascade_deletes_ready:
  assumes "board_ready E b w"
  shows "\<exists>ds. cascade_deletes E b cs opts w = Some (ds, w) \<and> distinct ds \<and>
    set ds = delete_closure b cs opts (view w) \<and> (ds = [] \<longleftrightarrow> cs_deletes cs = [])"
proof (cases "cs_deletes cs")
  case Nil
  then show ?thesis by (simp add: cascade_deletes_def delete_closure_def)
next
  case (Cons d rest)
  obtain els where els: "cascade_deletes E b cs opts w = Some (collectCascadeDeleteIds els (cs_deletes cs), w)"
    "snd ` set els = cascade_base b opts (view w)"
  proof (cases "opt_baseElements opts")
    case None
    obtain els where g: "getElements E b w = Some (els, w)" using getElements_ready[OF assms] by blast
    show ?thesis
      by (rule that[of els]) (use Cons None g getElements_values[OF assms g] in
        \<open>simp_all add: cascade_deletes_def cascade_base_def\<close>)
  next
    case (Some base)
    show ?thesis by (rule that[of base]) (use Cons Some in \<open>simp_all add: cascade_deletes_def cascade_base_def\<close>)
  qed
  then have "set (collectCascadeDeleteIds els (cs_deletes cs)) = delete_closure b cs opts (view w)"
    by (simp add: collectCascadeDeleteIds_closure(2) delete_closure_def els(2))
  moreover have "collectCascadeDeleteIds els (cs_deletes cs) \<noteq> []"
    using Cons by (intro cascade_nonempty) simp
  ultimately show ?thesis using Cons els(1) collectCascadeDeleteIds_closure(1) by auto
qed

lemma board_ready_frame:
  assumes "board_ready E b w" "v_strs (view w') (boardSeqKey b) \<noteq> None"
    "v_strs (view w') (boardEvictionLockKey b) = v_strs (view w) (boardEvictionLockKey b)"
  shows "board_ready E b w'"
  using assms by (simp only: board_ready_view) auto

lemma applyChangeSet_view:
  assumes "board_ready E b w" "v_strs (view w) (boardSeqKey b) = Some (dec n, None)"
    "counter_ok (view w) (boardDirtyEpochKey b)"
  shows "\<exists>r w'. applyChangeSet E b cs opts w = Some (r, w') \<and> (case r of
      None \<Rightarrow> w' = w \<and> cs_upserts cs = [] \<and> cs_deletes cs = []
    | Some c \<Rightarrow> (cs_upserts cs \<noteq> [] \<or> cs_deletes cs \<noteq> []) \<and>
        pc_sequence c = n + 1 \<and> pc_timestamp c = v_now (view w) \<and>
        distinct (pc_deletes c) \<and> set (pc_deletes c) = delete_closure b cs opts (view w) \<and>
        pc_upserts c = effective_upserts (v_now (view w)) (cs_upserts cs) (pc_deletes c) \<and>
        view w' = fold redis_step (change_commands b (track_change_log opts) c)
          (redis_step (INCR (boardSeqKey b)) (view w)))"
proof -
  obtain ds where ds: "cascade_deletes E b cs opts w = Some (ds, w)" "distinct ds"
    "set ds = delete_closure b cs opts (view w)" "ds = [] \<longleftrightarrow> cs_deletes cs = []"
    using cascade_deletes_ready[OF assms(1)] by blast
  let ?us = "effective_upserts (v_now (view w)) (cs_upserts cs) ds"
  show ?thesis
  proof (cases "?us = [] \<and> ds = []")
    case True
    then have "applyChangeSet E b cs opts w = Some (None, w)"
      using assms(1) ds(1) by (auto simp: applyChangeSet_def waitForBoardLoad_ready now Let_def)
    moreover have "cs_upserts cs = []" using True effective_upserts_Nil by auto
    ultimately show ?thesis using True ds(4) by auto
  next
    case False
    obtain sq w1 where i: "e_incr E (boardSeqKey b) w = (sq, w1)" by (cases "e_incr E (boardSeqKey b) w")
    have sq: "sq = n + 1" using incr_reply(2)[OF assms(2)] i by simp
    have w1: "view w1 = redis_step (INCR (boardSeqKey b)) (view w)" using incr[of "boardSeqKey b" w] i by simp
    have now1: "e_now E w1 = v_now (view w)" by (simp add: now w1 del: redis_step.simps)
    let ?c = "\<lparr>pc_sequence = n + 1, pc_timestamp = v_now (view w), pc_upserts = ?us, pc_deletes = ds\<rparr>"
    have "applyChangeSet E b cs opts w =
        Some (Some ?c, e_write E (change_commands b (track_change_log opts) ?c) w1)"
      using False assms(1) ds(1) i now1 sq
      by (auto simp: applyChangeSet_def waitForBoardLoad_ready getSequence_def now Let_def)
    moreover have "cs_upserts cs \<noteq> [] \<or> cs_deletes cs \<noteq> []"
      using False ds(4) by (auto simp: effective_upserts_def)
    ultimately show ?thesis using ds w1 by (auto simp: written simp del: redis_step.simps)
  qed
qed

lemma applyChangeSet_refines:
  assumes "board_ready E b w" "v_strs (view w) (boardSeqKey b) = Some (dec n, None)"
    "counter_ok (view w) (boardDirtyEpochKey b)"
  shows "\<exists>r w'. applyChangeSet E b cs opts w = Some (r, w') \<and> (case r of
      None \<Rightarrow> w' = w \<and> cs_upserts cs = [] \<and> cs_deletes cs = []
    | Some c \<Rightarrow> (cs_upserts cs \<noteq> [] \<or> cs_deletes cs \<noteq> []) \<and>
        pc_sequence c = n + 1 \<and> pc_timestamp c = v_now (view w) \<and>
        distinct (pc_deletes c) \<and> set (pc_deletes c) = delete_closure b cs opts (view w) \<and>
        pc_upserts c = effective_upserts (v_now (view w)) (cs_upserts cs) (pc_deletes c) \<and>
        abs_board b (view w') =
          (spec_change (track_change_log opts) c (abs_board b (view w)))\<lparr>ab_sequence := n + 1\<rparr> \<and>
        v_strs (view w') (boardSeqKey b) = Some (dec (n + 1), None))"
proof -
  obtain r w' where a: "applyChangeSet E b cs opts w = Some (r, w')" and post: "case r of
      None \<Rightarrow> w' = w \<and> cs_upserts cs = [] \<and> cs_deletes cs = []
    | Some c \<Rightarrow> (cs_upserts cs \<noteq> [] \<or> cs_deletes cs \<noteq> []) \<and>
        pc_sequence c = n + 1 \<and> pc_timestamp c = v_now (view w) \<and>
        distinct (pc_deletes c) \<and> set (pc_deletes c) = delete_closure b cs opts (view w) \<and>
        pc_upserts c = effective_upserts (v_now (view w)) (cs_upserts cs) (pc_deletes c) \<and>
        view w' = fold redis_step (change_commands b (track_change_log opts) c)
          (redis_step (INCR (boardSeqKey b)) (view w))"
    using applyChangeSet_view[OF assms] by blast
  show ?thesis
  proof (cases r)
    case None
    then show ?thesis using a post by auto
  next
    case (Some c)
    let ?v1 = "redis_step (INCR (boardSeqKey b)) (view w)"
    have v1: "?v1 = (view w)\<lparr>v_strs := (v_strs (view w))(boardSeqKey b \<mapsto> (dec (n + 1), None))\<rparr>"
      using assms(2) by simp
    have ok: "counter_ok ?v1 (boardDirtyEpochKey b)"
      unfolding v1 using assms(3) by (simp add: counter_ok_def key_defs)
    have d: "distinct (map el_id (pc_upserts c))"
      using post Some distinct_effective_upserts by simp
    have "abs_board b (view w') = spec_change (track_change_log opts) c (abs_board b ?v1)"
      using post Some change_commands_refine[OF d ok] by simp
    moreover have "abs_board b ?v1 = (abs_board b (view w))\<lparr>ab_sequence := n + 1\<rparr>"
      unfolding v1 by (simp add: abs_board_def counter_def key_defs)
    moreover have "spec_change t c (a\<lparr>ab_sequence := m\<rparr>) = (spec_change t c a)\<lparr>ab_sequence := m\<rparr>" for t a m
      by (simp add: spec_change_def Let_def)
    moreover have "v_strs (view w') (boardSeqKey b) = Some (dec (n + 1), None)"
      using post Some v1 by (simp add: change_commands_frame del: redis_step.simps)
    ultimately show ?thesis using a post Some by simp
  qed
qed

end

section \<open>No change is left unmarked\<close>

definition element_columns :: "board_element \<Rightarrow> js_object" where
  \<comment> \<open>the properties of an element that its row keeps in \<open>data\<close>\<close>
  "element_columns e = filter (\<lambda>p. fst p \<notin> {''id'', ''kind'', ''updatedAt''}) e"

definition element_kind :: "board_element \<Rightarrow> json" where
  "element_kind e = (case js_get ''kind'' e of Some k \<Rightarrow> k | None \<Rightarrow> JNull)"

definition js_get_all :: "js_object \<Rightarrow> (string \<rightharpoonup> json)" where
  "js_get_all e = (\<lambda>k. js_get k e)"

definition synced :: "string \<Rightarrow> rview \<Rightarrow> string \<Rightarrow> bool" where
  \<comment> \<open>Redis and Postgres agree on the element \<open>i\<close> of the board\<close>
  "synced b v i = (case v_hash v (boardElementsKey b) i of
     None \<Rightarrow> (\<forall>r. v_rows v i = Some r \<longrightarrow> row_board r \<noteq> b)
   | Some j \<Rightarrow> (\<exists>r. v_rows v i = Some r \<and> row_board r = b \<and>
       row_type r = element_kind (parse_element j) \<and>
       js_get_all (row_data r) = js_get_all (element_columns (parse_element j))))"

definition marked_inv :: "string \<Rightarrow> rview \<Rightarrow> bool" where
  \<comment> \<open>an element on which the stores differ is marked, the marks are disjoint, no element marked
     deleted is left in Redis, and a board with marks is in the dirty indexes\<close>
  "marked_inv b v = (
     (\<forall>i. i \<notin> v_set v (boardDirtyElementIdsKey b) \<longrightarrow> i \<notin> v_set v (boardDeletedElementIdsKey b) \<longrightarrow>
        synced b v i) \<and>
     v_set v (boardDirtyElementIdsKey b) \<inter> v_set v (boardDeletedElementIdsKey b) = {} \<and>
     (\<forall>i \<in> v_set v (boardDeletedElementIdsKey b). v_hash v (boardElementsKey b) i = None) \<and>
     (v_set v (boardDirtyElementIdsKey b) \<union> v_set v (boardDeletedElementIdsKey b) \<noteq> {} \<longrightarrow>
        b \<in> v_set v DIRTY_BOARDS_KEY \<and> v_zset v DIRTY_BOARDS_BY_AGE_KEY b \<noteq> None))"

lemma marked_inv_abs:
  "marked_inv b v = (
     (\<forall>i. i \<notin> ab_dirty (abs_board b v) \<longrightarrow> i \<notin> ab_deleted (abs_board b v) \<longrightarrow> synced b v i) \<and>
     ab_dirty (abs_board b v) \<inter> ab_deleted (abs_board b v) = {} \<and>
     (\<forall>i \<in> ab_deleted (abs_board b v). ab_elements (abs_board b v) i = None) \<and>
     (ab_dirty (abs_board b v) \<union> ab_deleted (abs_board b v) \<noteq> {} \<longrightarrow> ab_listed (abs_board b v)))"
  by (simp add: marked_inv_def abs_board_def)

lemma synced_frame:
  assumes "ab_elements (abs_board b v') i = ab_elements (abs_board b v) i" "v_rows v' i = v_rows v i"
  shows "synced b v' i = synced b v i"
  using assms by (simp add: synced_def abs_board_def split: option.split)

lemma overlay_other:
  assumes "i \<notin> set ds" "i \<notin> el_id ` set us"
  shows "overlay us ds old i = old i"
proof -
  have "map_of (map (\<lambda>e. (el_id e, JObj e)) us) i = None"
    using assms(2) by (auto simp: map_of_eq_None_iff)
  then show ?thesis using assms(1) by (simp add: overlay_def)
qed

lemma spec_change_marked:
  assumes "marked_inv b v" "abs_board b v' = (spec_change t c (abs_board b v))\<lparr>ab_sequence := m\<rparr>"
    "v_rows v' = v_rows v" "set (map el_id (pc_upserts c)) \<inter> set (pc_deletes c) = {}"
  shows "marked_inv b v'"
proof -
  let ?a = "abs_board b v" and ?U = "el_id ` set (pc_upserts c)" and ?D = "set (pc_deletes c)"
  have a': "ab_dirty (abs_board b v') = ab_dirty ?a \<union> ?U - ?D" "ab_deleted (abs_board b v') = ab_deleted ?a - ?U \<union> ?D"
    "ab_elements (abs_board b v') = overlay (pc_upserts c) (pc_deletes c) (ab_elements ?a)"
    "ab_listed (abs_board b v')"
    by (simp_all add: assms(2) spec_change_def Let_def)
  have "synced b v' i" if "i \<notin> ab_dirty ?a \<union> ?U - ?D" "i \<notin> ab_deleted ?a - ?U \<union> ?D" for i
  proof -
    from that have i: "i \<notin> ?D" "i \<notin> ?U" "i \<notin> ab_dirty ?a" "i \<notin> ab_deleted ?a" by auto
    then have "synced b v i" using assms(1) by (auto simp: marked_inv_abs)
    moreover have "ab_elements (abs_board b v') i = ab_elements ?a i"
      unfolding a'(3) using i by (intro overlay_other) auto
    ultimately show ?thesis using synced_frame[of b v' i v] assms(3) by simp
  qed
  moreover have "(ab_dirty ?a \<union> ?U - ?D) \<inter> (ab_deleted ?a - ?U \<union> ?D) = {}"
    using assms(1,4) by (auto simp: marked_inv_abs)
  moreover have "overlay (pc_upserts c) (pc_deletes c) (ab_elements ?a) i = None"
    if "i \<in> ab_deleted ?a - ?U \<union> ?D" for i
  proof (cases "i \<in> ?D")
    case True
    then show ?thesis by (simp add: overlay_def)
  next
    case False
    then have "i \<in> ab_deleted ?a" "i \<notin> ?U" using that by auto
    then show ?thesis using False assms(1) overlay_other[OF False] by (auto simp: marked_inv_abs)
  qed
  ultimately show ?thesis unfolding marked_inv_abs a' using a'(4) by auto
qed

definition wf_elements :: "string \<Rightarrow> rview \<Rightarrow> bool" where
  \<comment> \<open>every element is stored under its own id\<close>
  "wf_elements b v = (\<forall>i j. v_hash v (boardElementsKey b) i = Some j \<longrightarrow> el_id (parse_element j) = i)"

lemma overlay_wf:
  assumes "wf_elements b v" "v_hash v' (boardElementsKey b) = overlay us ds (v_hash v (boardElementsKey b))"
  shows "wf_elements b v'"
proof -
  have "el_id (parse_element j) = i" if "map_of (map (\<lambda>e. (el_id e, JObj e)) us) i = Some j" for i j
    using map_of_SomeD[OF that] by auto
  then show ?thesis
    using assms unfolding wf_elements_def by (auto simp: overlay_def split: if_splits option.splits)
qed

section \<open>Change log\<close>

lemma decode_encode_change [simp]: "decode_change (encode_change c) = c"
  by (simp add: decode_change_def encode_change_def int_field_def comp_def)

lemma changes_after_laws:
  "sorted (map pc_sequence (changes_after after cs))"
  "set (changes_after after cs) = {c \<in> set cs. after < pc_sequence c}"
  by (auto simp: changes_after_def)

lemma getChangesAfter_ready:
  assumes "board_ready E b w"
  shows "getChangesAfter E b after w = Some (
    if int_or 0 (e_get E (boardSeqKey b) w) \<le> after then ([], True)
    else let cs = changes_after after (map decode_change (e_lrange E (boardChangeLogKey b) w))
      in (cs, cs \<noteq> [] \<and> pc_sequence (hd cs) = after + 1), w)"
  using assms
  by (auto simp: getChangesAfter_def peekSequence_def waitForBoardLoad_ready Let_def split: list.split)

lemma change_commands_epoch:
  assumes "counter_ok v (boardDirtyEpochKey b)"
  shows "counter_ok (fold redis_step (change_commands b t c) v) (boardDirtyEpochKey b)"
proof -
  have "counter_ok (redis_step cmd u) (boardDirtyEpochKey b)"
    if "cmd \<in> set (change_commands b t c)" "counter_ok u (boardDirtyEpochKey b)" for cmd u
    using that
    by (auto simp: change_commands_def counter_ok_incr counter_ok_def key_defs split: if_splits option.splits)
  then have "set cmds \<subseteq> set (change_commands b t c) \<Longrightarrow> counter_ok u (boardDirtyEpochKey b) \<Longrightarrow>
      counter_ok (fold redis_step cmds u) (boardDirtyEpochKey b)" for cmds u
    by (induction cmds arbitrary: u) auto
  then show ?thesis using assms by blast
qed

lemma last_n_short: "length xs \<le> n \<Longrightarrow> last_n n xs = xs"
  by (simp add: last_n_def)

context redis_client
begin

lemma applyChangeSet_marked:
  assumes "board_ready E b w" "v_strs (view w) (boardSeqKey b) = Some (dec n, None)"
    "counter_ok (view w) (boardDirtyEpochKey b)" "marked_inv b (view w)"
  shows "\<exists>r w'. applyChangeSet E b cs opts w = Some (r, w') \<and> marked_inv b (view w')"
proof -
  obtain r w' where a: "applyChangeSet E b cs opts w = Some (r, w')" and post: "case r of
      None \<Rightarrow> w' = w
    | Some c \<Rightarrow> pc_upserts c = effective_upserts (v_now (view w)) (cs_upserts cs) (pc_deletes c) \<and>
        abs_board b (view w') =
          (spec_change (track_change_log opts) c (abs_board b (view w)))\<lparr>ab_sequence := n + 1\<rparr>"
    using applyChangeSet_refines[OF assms(1-3), of cs opts] by (auto split: option.splits)
  have rows: "v_rows (view w') = v_rows (view w)"
    using applyChangeSet_view[OF assms(1-3), of cs opts] a
    by (auto split: option.splits simp del: redis_step.simps)
  show ?thesis
  proof (cases r)
    case None
    then show ?thesis using a post assms(4) by auto
  next
    case (Some c)
    then have us: "pc_upserts c = effective_upserts (v_now (view w)) (cs_upserts cs) (pc_deletes c)"
      and abs: "abs_board b (view w') =
          (spec_change (track_change_log opts) c (abs_board b (view w)))\<lparr>ab_sequence := n + 1\<rparr>"
      using post by auto
    have "set (map el_id (pc_upserts c)) \<inter> set (pc_deletes c) = {}"
      by (subst us, simp only: effective_upserts_ids set_filter) auto
    then show ?thesis using a spec_change_marked[OF assms(4) abs rows] by blast
  qed
qed

lemma seen_again:
  assumes "tryMarkSeen E b m w = Some (True, w1)" "view w2 = elapse d (view w1)"
    "0 \<le> d" "d < SEEN_TTL_SECONDS * 1000" "board_ready E b w2"
  shows "\<exists>w3. tryMarkSeen E b m w2 = Some (False, w3) \<and> view w3 = view w2"
proof -
  let ?k = "boardSeenKey b m" and ?ttl = "SEEN_TTL_SECONDS * 1000"
  obtain w0 where w0: "e_set_nx_px E ?k ''1'' ?ttl w0 = (True, w1)"
    using assms(1) by (auto simp: tryMarkSeen_def bind_eq_Some_conv)
  have "v_strs (view w0) ?k = None" using set_nx_reply[of ?k "''1''" ?ttl w0] w0 by simp
  then have "v_strs (view w1) ?k = Some (''1'', Some (v_now (view w1) + ?ttl))"
    using set_nx[of ?k "''1''" ?ttl w0] w0 by (simp add: SEEN_TTL_SECONDS_def)
  then have held: "v_strs (view w2) ?k \<noteq> None" using assms(2,4) by (simp add: elapse_expiring)
  obtain r w3 where w3: "e_set_nx_px E ?k ''1'' ?ttl w2 = (r, w3)" by (cases "e_set_nx_px E ?k ''1'' ?ttl w2")
  have "r = False" using held set_nx_reply[of ?k "''1''" ?ttl w2] w3 by simp
  moreover have "view w3 = view w2"
    using held set_nx[of ?k "''1''" ?ttl w2] unfolding w3 by (simp only: snd_conv if_False)
  ultimately have r: "r = False" "view w3 = view w2" by auto
  then show ?thesis using assms(5) w3 r by (simp add: tryMarkSeen_def waitForBoardLoad_ready)
qed

lemma changes_exact:
  assumes "board_ready E b w"
  shows "\<exists>cs complete. getChangesAfter E b after w = Some ((cs, complete), w) \<and>
    sorted (map pc_sequence cs) \<and>
    (if counter (view w) (boardSeqKey b) \<le> after then cs = [] \<and> complete
     else set cs = {c \<in> decode_change ` set (v_list (view w) (boardChangeLogKey b)). after < pc_sequence c} \<and>
       (complete \<longleftrightarrow> (\<exists>c rest. cs = c # rest \<and> pc_sequence c = after + 1)))"
proof -
  have hd: "(cs \<noteq> [] \<and> pc_sequence (hd cs) = x) = (\<exists>c rest. cs = c # rest \<and> pc_sequence c = x)" for cs x
    by (cases cs) auto
  let ?cs = "changes_after after (map decode_change (v_list (view w) (boardChangeLogKey b)))"
  show ?thesis
  proof (cases "counter (view w) (boardSeqKey b) \<le> after")
    case True
    then show ?thesis by (auto simp: getChangesAfter_ready[OF assms] get counter_def)
  next
    case False
    then have "getChangesAfter E b after w = Some ((?cs, ?cs \<noteq> [] \<and> pc_sequence (hd ?cs) = after + 1), w)"
      by (simp add: getChangesAfter_ready[OF assms] get lrange Let_def counter_def)
    then show ?thesis
      using False changes_after_laws[of after "map decode_change (v_list (view w) (boardChangeLogKey b))"]
      by (simp only: hd) simp
  qed
qed

lemma logged_step:
  assumes "board_ready E b w" "v_strs (view w) (boardSeqKey b) = Some (dec n, None)"
    "counter_ok (view w) (boardDirtyEpochKey b)" "cs_upserts cs \<noteq> []"
  shows "\<exists>c w'. applyChangeSet E b cs (no_options\<lparr>opt_trackChangeLog := Some t\<rparr>) w = Some (Some c, w') \<and>
    pc_sequence c = n + 1 \<and> board_ready E b w' \<and> v_strs (view w') (boardSeqKey b) = Some (dec (n + 1), None) \<and>
    counter_ok (view w') (boardDirtyEpochKey b) \<and>
    v_list (view w') (boardChangeLogKey b) = (if t then last_n CHANGE_LOG_MAX_LENGTH
      (v_list (view w) (boardChangeLogKey b) @ [encode_change c]) else v_list (view w) (boardChangeLogKey b))"
proof -
  let ?opts = "no_options\<lparr>opt_trackChangeLog := Some t\<rparr>"
  have t: "track_change_log ?opts = t" by (simp add: track_change_log_def)
  obtain c w' where a: "applyChangeSet E b cs ?opts w = Some (Some c, w')"
    and seq: "pc_sequence c = n + 1" "v_strs (view w') (boardSeqKey b) = Some (dec (n + 1), None)"
    and abs: "abs_board b (view w') = (spec_change t c (abs_board b (view w)))\<lparr>ab_sequence := n + 1\<rparr>"
    using applyChangeSet_refines[OF assms(1-3), of cs ?opts] assms(4) t by (auto split: option.splits)
  obtain c' where v: "view w' = fold redis_step (change_commands b t c') (redis_step (INCR (boardSeqKey b)) (view w))"
    using applyChangeSet_view[OF assms(1-3), of cs ?opts] a t
    by (auto split: option.splits simp del: redis_step.simps)
  have "v_strs (view w') (boardEvictionLockKey b) = v_strs (view w) (boardEvictionLockKey b)"
    unfolding v change_commands_frame
    by (rule redis_step_incr_frame) (simp add: key_defs)
  with seq(2) have ready: "board_ready E b w'" by (intro board_ready_frame[OF assms(1)]) simp_all
  have "counter_ok (redis_step (INCR (boardSeqKey b)) (view w)) (boardDirtyEpochKey b)"
    using assms(3) by (simp add: counter_ok_def redis_step_incr_frame key_defs del: redis_step.simps)
  then have epoch: "counter_ok (view w') (boardDirtyEpochKey b)" unfolding v by (rule change_commands_epoch)
  have "ab_log (abs_board b (view w')) = (if t then last_n CHANGE_LOG_MAX_LENGTH
      (ab_log (abs_board b (view w)) @ [encode_change c]) else ab_log (abs_board b (view w)))"
    by (simp add: abs spec_change_def Let_def)
  then show ?thesis using a seq ready epoch by (simp add: abs_board_def)
qed

lemma skips_unlogged:
  assumes "board_ready E b w" "v_strs (view w) (boardSeqKey b) = Some (dec n, None)"
    "counter_ok (view w) (boardDirtyEpochKey b)" "v_list (view w) (boardChangeLogKey b) = []"
    "cs_upserts cs1 \<noteq> []" "cs_upserts cs2 \<noteq> []" "cs_upserts cs3 \<noteq> []"
  shows "\<exists>c1 c2 c3 w1 w2 w3.
    applyChangeSet E b cs1 (no_options\<lparr>opt_trackChangeLog := Some True\<rparr>) w = Some (Some c1, w1) \<and>
    applyChangeSet E b cs2 (no_options\<lparr>opt_trackChangeLog := Some False\<rparr>) w1 = Some (Some c2, w2) \<and>
    applyChangeSet E b cs3 (no_options\<lparr>opt_trackChangeLog := Some True\<rparr>) w2 = Some (Some c3, w3) \<and>
    pc_sequence c2 = n + 2 \<and> getChangesAfter E b n w3 = Some (([c1, c3], True), w3)"
proof -
  obtain c1 w1 where 1: "applyChangeSet E b cs1 (no_options\<lparr>opt_trackChangeLog := Some True\<rparr>) w = Some (Some c1, w1)"
    "pc_sequence c1 = n + 1" "board_ready E b w1" "v_strs (view w1) (boardSeqKey b) = Some (dec (n + 1), None)"
    "counter_ok (view w1) (boardDirtyEpochKey b)" "v_list (view w1) (boardChangeLogKey b) = [encode_change c1]"
    using logged_step[OF assms(1-3,5), of True] assms(4) by (auto simp: last_n_def CHANGE_LOG_MAX_LENGTH_def)
  obtain c2 w2 where 2: "applyChangeSet E b cs2 (no_options\<lparr>opt_trackChangeLog := Some False\<rparr>) w1 = Some (Some c2, w2)"
    "pc_sequence c2 = n + 2" "board_ready E b w2" "v_strs (view w2) (boardSeqKey b) = Some (dec (n + 2), None)"
    "counter_ok (view w2) (boardDirtyEpochKey b)" "v_list (view w2) (boardChangeLogKey b) = [encode_change c1]"
    using logged_step[OF 1(3,4,5) assms(6), of False] 1(6) by auto
  obtain c3 w3 where 3: "applyChangeSet E b cs3 (no_options\<lparr>opt_trackChangeLog := Some True\<rparr>) w2 = Some (Some c3, w3)"
    "pc_sequence c3 = n + 3" "board_ready E b w3" "v_strs (view w3) (boardSeqKey b) = Some (dec (n + 3), None)"
    "v_list (view w3) (boardChangeLogKey b) = [encode_change c1, encode_change c3]"
    using logged_step[OF 2(3,4,5) assms(7), of True] 2(6) by (auto simp: last_n_def CHANGE_LOG_MAX_LENGTH_def)
  have "getChangesAfter E b n w3 = Some (([c1, c3], True), w3)"
    using 3 1(2) by (simp add: getChangesAfter_ready get lrange changes_after_def)
  then show ?thesis using 1(1) 2(1,2) 3(1) by blast
qed

end

section \<open>Properties\<close>

text \<open>C1: On a loaded board \<open>applyChangeSet\<close> returns \<open>null\<close> exactly for the empty change set and then
  changes nothing. Otherwise it draws the next sequence number, deletes the requested elements
  with everything they contain (a delete wins over an upsert of the same element), upserts the
  last value of every other element stamped with the server time, and the pipeline refines the
  abstract change: element hash, dirty and deleted marks, dirty epoch, change log and dirty index
  are those of \<open>spec_change\<close>.\<close>

theorem applyChangeSet_refinement:
  assumes "redis_client E view" "board_ready E b w"
    and "v_strs (view w) (boardSeqKey b) = Some (dec n, None)"
    and "counter_ok (view w) (boardDirtyEpochKey b)"
  shows "\<exists>r w'. applyChangeSet E b cs opts w = Some (r, w') \<and> (case r of
      None \<Rightarrow> w' = w \<and> cs_upserts cs = [] \<and> cs_deletes cs = []
    | Some c \<Rightarrow> (cs_upserts cs \<noteq> [] \<or> cs_deletes cs \<noteq> []) \<and>
        pc_sequence c = n + 1 \<and> pc_timestamp c = v_now (view w) \<and>
        distinct (pc_deletes c) \<and> set (pc_deletes c) = delete_closure b cs opts (view w) \<and>
        pc_upserts c = effective_upserts (v_now (view w)) (cs_upserts cs) (pc_deletes c) \<and>
        abs_board b (view w') =
          (spec_change (track_change_log opts) c (abs_board b (view w)))\<lparr>ab_sequence := n + 1\<rparr> \<and>
        v_strs (view w') (boardSeqKey b) = Some (dec (n + 1), None))"
  using assms by (rule redis_client.applyChangeSet_refines)

definition loaded_world :: mem where
  "loaded_world = mem0\<lparr>m_strs := [(boardSeqKey ''b1'', (''0'', None))],
     m_hash := [(boardElementsKey ''b1'', [(''c'', JObj [(''id'', JStr ''c'')]),
       (''n'', JObj [(''id'', JStr ''n''), (''containerId'', JStr ''c'')])])]\<rparr>"

lemma loaded_world_facts:
  "board_ready mem_env ''b1'' loaded_world"
  "v_strs (mem_view loaded_world) (boardSeqKey ''b1'') = Some (dec 0, None)"
  "counter_ok (mem_view loaded_world) (boardDirtyEpochKey ''b1'')"
  by (simp_all add: mem.board_ready_view loaded_world_def mem_str_eval key_defs dec_0 counter_ok_def)

theorem applyChangeSet_refinement_witness:
  "\<exists>r w'. applyChangeSet mem_env ''b1'' \<lparr>cs_upserts = [], cs_deletes = [''c'']\<rparr> no_options loaded_world = Some (r, w') \<and>
    (case r of
      None \<Rightarrow> w' = loaded_world \<and> [] = ([] :: board_element list) \<and> [''c''] = []
    | Some c \<Rightarrow> ([] \<noteq> ([] :: board_element list) \<or> [''c''] \<noteq> []) \<and>
        pc_sequence c = 0 + 1 \<and> pc_timestamp c = v_now (mem_view loaded_world) \<and>
        distinct (pc_deletes c) \<and> set (pc_deletes c) =
          delete_closure ''b1'' \<lparr>cs_upserts = [], cs_deletes = [''c'']\<rparr> no_options (mem_view loaded_world) \<and>
        pc_upserts c = effective_upserts (v_now (mem_view loaded_world)) [] (pc_deletes c) \<and>
        abs_board ''b1'' (mem_view w') = (spec_change (track_change_log no_options) c
          (abs_board ''b1'' (mem_view loaded_world)))\<lparr>ab_sequence := 0 + 1\<rparr> \<and>
        v_strs (mem_view w') (boardSeqKey ''b1'') = Some (dec (0 + 1), None))"
  using applyChangeSet_refinement[OF mem.redis_client_axioms loaded_world_facts,
    of "\<lparr>cs_upserts = [], cs_deletes = [''c'']\<rparr>" no_options]
  by (simp only: element_change_set.simps)

text \<open>C6: \<open>applyChangeSet\<close> keeps the persistence invariant: whatever was saved before, after the
  change every element on which Redis and Postgres differ is marked dirty or deleted, never both,
  and a board with marks is listed in both dirty indexes, so the flush job finds it.\<close>

theorem applyChangeSet_keeps_marked_inv:
  assumes "redis_client E view" "board_ready E b w"
    and "v_strs (view w) (boardSeqKey b) = Some (dec n, None)"
    and "counter_ok (view w) (boardDirtyEpochKey b)"
    and "marked_inv b (view w)"
  shows "\<exists>r w'. applyChangeSet E b cs opts w = Some (r, w') \<and> marked_inv b (view w')"
  using redis_client.applyChangeSet_marked[OF assms] .

theorem applyChangeSet_keeps_marked_inv_witness:
  "\<exists>r w'. applyChangeSet mem_env ''b1'' \<lparr>cs_upserts = [[(''id'', JStr ''x'')]], cs_deletes = []\<rparr> no_options
      (loaded_world\<lparr>m_hash := []\<rparr>) = Some (r, w') \<and> marked_inv ''b1'' (mem_view w')"
proof (rule applyChangeSet_keeps_marked_inv[OF mem.redis_client_axioms])
  show "board_ready mem_env ''b1'' (loaded_world\<lparr>m_hash := []\<rparr>)"
    by (simp add: mem.board_ready_view loaded_world_def mem_str_eval key_defs)
  show "v_strs (mem_view (loaded_world\<lparr>m_hash := []\<rparr>)) (boardSeqKey ''b1'') = Some (dec 0, None)"
    by (simp add: loaded_world_def mem_str_eval dec_0)
  show "counter_ok (mem_view (loaded_world\<lparr>m_hash := []\<rparr>)) (boardDirtyEpochKey ''b1'')"
    by (simp add: loaded_world_def mem_str_eval key_defs counter_ok_def)
  show "marked_inv ''b1'' (mem_view (loaded_world\<lparr>m_hash := []\<rparr>))"
    by (simp add: marked_inv_def synced_def loaded_world_def rows_map_def)
qed

text \<open>A mutation id is claimed at most once while its key lives: after one \<open>tryMarkSeen\<close>, whatever
  it answered on a key that a claim made, a second claim of the same id within the five minutes is
  refused, and it leaves the store as it is.\<close>

theorem tryMarkSeen_at_most_once:
  assumes "redis_client E view" "tryMarkSeen E b m w = Some (True, w1)"
    and "view w2 = elapse d (view w1)" "0 \<le> d" "d < SEEN_TTL_SECONDS * 1000"
    and "board_ready E b w2"
  shows "\<exists>w3. tryMarkSeen E b m w2 = Some (False, w3) \<and> view w3 = view w2"
  using redis_client.seen_again[OF assms] .

theorem tryMarkSeen_at_most_once_witness:
  "\<exists>w1. tryMarkSeen mem_env ''b1'' ''m1'' loaded_world = Some (True, w1) \<and>
     (\<exists>w3. tryMarkSeen mem_env ''b1'' ''m1'' w1 = Some (False, w3) \<and> mem_view w3 = mem_view w1)"
proof -
  let ?w1 = "mem_step (SET_PX (boardSeenKey ''b1'' ''m1'') ''1'' (SEEN_TTL_SECONDS * 1000)) loaded_world"
  have one: "tryMarkSeen mem_env ''b1'' ''m1'' loaded_world = Some (True, ?w1)"
    using loaded_world_facts(1)
    by (simp add: tryMarkSeen_def waitForBoardLoad_ready loaded_world_def mem_str_eval key_defs)
  have ready: "board_ready mem_env ''b1'' ?w1"
    by (simp add: mem.board_ready_view loaded_world_def mem_str_eval key_defs SEEN_TTL_SECONDS_def)
  have "\<exists>w3. tryMarkSeen mem_env ''b1'' ''m1'' ?w1 = Some (False, w3) \<and> mem_view w3 = mem_view ?w1"
    by (rule tryMarkSeen_at_most_once[OF mem.redis_client_axioms one _ _ _ ready, of 0])
       (rule mem.elapse_0[symmetric], simp_all add: SEEN_TTL_SECONDS_def)
  with one show ?thesis by blast
qed

text \<open>\<open>getChangesAfter\<close> answers from the log exactly: nothing for a client that is up to date,
  otherwise the logged changes after the client's sequence in ascending order, and it calls the
  answer complete when the first of them is the client's next sequence number.\<close>

theorem getChangesAfter_exact:
  assumes "redis_client E view" "board_ready E b w"
  shows "\<exists>cs complete. getChangesAfter E b after w = Some ((cs, complete), w) \<and>
    sorted (map pc_sequence cs) \<and>
    (if counter (view w) (boardSeqKey b) \<le> after then cs = [] \<and> complete
     else set cs = {c \<in> decode_change ` set (v_list (view w) (boardChangeLogKey b)). after < pc_sequence c} \<and>
       (complete \<longleftrightarrow> (\<exists>c rest. cs = c # rest \<and> pc_sequence c = after + 1)))"
  using redis_client.changes_exact[OF assms] .

theorem getChangesAfter_exact_witness:
  "\<exists>cs complete. getChangesAfter mem_env ''b1'' 0 loaded_world = Some ((cs, complete), loaded_world) \<and>
    sorted (map pc_sequence cs) \<and>
    (if counter (mem_view loaded_world) (boardSeqKey ''b1'') \<le> 0 then cs = [] \<and> complete
     else set cs = {c \<in> decode_change ` set (v_list (mem_view loaded_world) (boardChangeLogKey ''b1'')).
         0 < pc_sequence c} \<and>
       (complete \<longleftrightarrow> (\<exists>c rest. cs = c # rest \<and> pc_sequence c = 0 + 1)))"
  by (rule getChangesAfter_exact[OF mem.redis_client_axioms loaded_world_facts(1)])

text \<open>A completeness answer can hide a change: a logged change, a change applied without the log
  (solo mode) and another logged change leave a log from which a client at the first sequence number
  gets a complete answer that lacks the second change.\<close>

theorem getChangesAfter_skips_unlogged:
  assumes "redis_client E view" "board_ready E b w"
    and "v_strs (view w) (boardSeqKey b) = Some (dec n, None)"
    and "counter_ok (view w) (boardDirtyEpochKey b)"
    and "v_list (view w) (boardChangeLogKey b) = []"
    and "cs_upserts cs1 \<noteq> []" "cs_upserts cs2 \<noteq> []" "cs_upserts cs3 \<noteq> []"
  shows "\<exists>c1 c2 c3 w1 w2 w3.
    applyChangeSet E b cs1 (no_options\<lparr>opt_trackChangeLog := Some True\<rparr>) w = Some (Some c1, w1) \<and>
    applyChangeSet E b cs2 (no_options\<lparr>opt_trackChangeLog := Some False\<rparr>) w1 = Some (Some c2, w2) \<and>
    applyChangeSet E b cs3 (no_options\<lparr>opt_trackChangeLog := Some True\<rparr>) w2 = Some (Some c3, w3) \<and>
    pc_sequence c2 = n + 2 \<and> getChangesAfter E b n w3 = Some (([c1, c3], True), w3)"
  using redis_client.skips_unlogged[OF assms] .

theorem getChangesAfter_skips_unlogged_witness:
  "\<exists>c1 c2 c3 w1 w2 w3.
    applyChangeSet mem_env ''b1'' \<lparr>cs_upserts = [[(''id'', JStr ''x'')]], cs_deletes = []\<rparr>
      (no_options\<lparr>opt_trackChangeLog := Some True\<rparr>) loaded_world = Some (Some c1, w1) \<and>
    applyChangeSet mem_env ''b1'' \<lparr>cs_upserts = [[(''id'', JStr ''y'')]], cs_deletes = []\<rparr>
      (no_options\<lparr>opt_trackChangeLog := Some False\<rparr>) w1 = Some (Some c2, w2) \<and>
    applyChangeSet mem_env ''b1'' \<lparr>cs_upserts = [[(''id'', JStr ''z'')]], cs_deletes = []\<rparr>
      (no_options\<lparr>opt_trackChangeLog := Some True\<rparr>) w2 = Some (Some c3, w3) \<and>
    pc_sequence c2 = 0 + 2 \<and> getChangesAfter mem_env ''b1'' 0 w3 = Some (([c1, c3], True), w3)"
  by (rule getChangesAfter_skips_unlogged[OF mem.redis_client_axioms loaded_world_facts])
     (simp_all add: loaded_world_def)

end
