(* ===== verification/JS_Strings.thy ===== *)
theory JS_Strings
  imports JS_Prelude
begin

text \<open>
  The string methods of the source on ASCII text: \<open>trim\<close>, \<open>toLowerCase\<close>, \<open>startsWith\<close>, \<open>includes\<close>,
  with their idempotence and shape lemmas.
\<close>

definition js_trim :: "string \<Rightarrow> string" where
  "js_trim s = rev (dropWhile is_space (rev (dropWhile is_space s)))"

definition lower_char :: "char \<Rightarrow> char" where
  "lower_char c = (if 65 \<le> (of_char c :: nat) \<and> (of_char c :: nat) \<le> 90
     then char_of ((of_char c :: nat) + 32) else c)"

definition js_lower :: "string \<Rightarrow> string" where
  \<comment> \<open>\<open>toLowerCase()\<close> on ASCII text\<close>
  "js_lower s = map lower_char s"

definition is_upper :: "char \<Rightarrow> bool" where
  "is_upper c = (65 \<le> (of_char c :: nat) \<and> (of_char c :: nat) \<le> 90)"

lemma lower_char_upper:
  assumes "is_upper c"
  shows "(of_char (lower_char c) :: nat) = of_char c + 32"
proof -
  have "(of_char c :: nat) + 32 < 256" using assms by (simp add: is_upper_def)
  with assms show ?thesis by (simp add: is_upper_def lower_char_def of_char_of)
qed

lemma lower_char_other: "\<not> is_upper c \<Longrightarrow> lower_char c = c"
  by (auto simp: is_upper_def lower_char_def)

lemma lower_char_idem [simp]: "lower_char (lower_char c) = lower_char c"
proof (cases "is_upper c")
  case True
  then have "\<not> is_upper (lower_char c)" by (simp add: is_upper_def lower_char_upper)
  then show ?thesis by (rule lower_char_other)
qed (simp add: lower_char_other)

lemma is_space_lower [simp]: "is_space (lower_char c) = is_space c"
proof (cases "is_upper c")
  case True
  then show ?thesis by (auto simp: is_space_def lower_char_upper is_upper_def)
qed (simp add: lower_char_other)

lemma dropWhile_hd: "dropWhile P xs = [] \<or> \<not> P (hd (dropWhile P xs))"
  by (induction xs) auto

lemma dropWhile_id: "xs = [] \<or> \<not> P (hd xs) \<Longrightarrow> dropWhile P xs = xs"
  by (cases xs) auto

lemma hd_trim: "js_trim s = [] \<or> \<not> is_space (hd (js_trim s))"
proof -
  let ?a = "dropWhile is_space s"
  obtain pre where pre: "rev ?a = pre @ dropWhile is_space (rev ?a)"
    by (metis takeWhile_dropWhile_id)
  then have "?a = js_trim s @ rev pre" unfolding js_trim_def by (metis rev_append rev_rev_ident)
  then show ?thesis using dropWhile_hd[of is_space s] by (cases "js_trim s") auto
qed

lemma last_trim: "js_trim s = [] \<or> \<not> is_space (last (js_trim s))"
  using dropWhile_hd[of is_space "rev (dropWhile is_space s)"] by (auto simp: js_trim_def last_rev)

lemma trim_fixed:
  "s = [] \<or> (\<not> is_space (hd s) \<and> \<not> is_space (last s)) \<Longrightarrow> js_trim s = s"
  by (auto simp: js_trim_def dropWhile_id hd_rev)

lemma js_trim_idem [simp]: "js_trim (js_trim s) = js_trim s"
  using hd_trim[of s] last_trim[of s] by (intro trim_fixed) auto

fun starts_with :: "string \<Rightarrow> string \<Rightarrow> bool" where
  "starts_with [] s = True"
| "starts_with (c # cs) [] = False"
| "starts_with (c # cs) (d # ds) = (c = d \<and> starts_with cs ds)"

fun js_includes :: "string \<Rightarrow> string \<Rightarrow> bool" where
  "js_includes [] sub = (sub = [])"
| "js_includes (c # s) sub = (starts_with sub (c # s) \<or> js_includes s sub)"

end
