(* ===== verification/Persistence.thy ===== *)
theory Persistence
  imports Board_State JS_Strings
begin

text \<open>
  Saving boards in Postgres and evicting them from Redis (\<open>board-state/persistence-domain.ts\<close>).
  \<open>persistBoard\<close> is composed of the phases the code awaits one after the other: the snapshot of
  sequence and dirty epoch, the read of the marked elements, the transaction, and the
  compare-and-clear script. The phases are definitions of their own, so that other operations can
  be placed between them.
\<close>

section \<open>Board ids\<close>

definition is_hex :: "char \<Rightarrow> bool" where
  "is_hex c = (c \<in> set ''0123456789abcdefABCDEF'')"

definition uuid_pattern :: "(char \<Rightarrow> bool) list" where
  "uuid_pattern = replicate 8 is_hex @ [\<lambda>c. c = CHR ''-''] @ replicate 4 is_hex @ [\<lambda>c. c = CHR ''-'']
     @ [\<lambda>c. c \<in> set ''12345''] @ replicate 3 is_hex @ [\<lambda>c. c = CHR ''-'']
     @ [\<lambda>c. c \<in> set ''89abAB''] @ replicate 3 is_hex @ [\<lambda>c. c = CHR ''-''] @ replicate 12 is_hex"

definition isUuidLike :: "string \<Rightarrow> bool" where
  "isUuidLike s = (length s = length uuid_pattern \<and> list_all (\<lambda>(f, c). f c) (zip uuid_pattern s))"

section \<open>Database errors\<close>

fun collectErrorChain :: "js_error \<Rightarrow> js_error list" where
  \<comment> \<open>an error value is a finite tree, so the guard against a cycle never fires\<close>
  "collectErrorChain (AppError st msg) = [AppError st msg]"
| "collectErrorChain (DbError code con msg det None) = [DbError code con msg det None]"
| "collectErrorChain (DbError code con msg det (Some c)) = DbError code con msg det (Some c) # collectErrorChain c"

definition or_empty :: "string option \<Rightarrow> string" where
  "or_empty s = (case s of Some t \<Rightarrow> t | None \<Rightarrow> [])"

fun error_text :: "js_error \<Rightarrow> string" where
  \<comment> \<open>message, a blank, detail\<close>
  "error_text (AppError st msg) = msg @ '' ''"
| "error_text (DbError code con msg det c) = or_empty msg @ '' '' @ or_empty det"

fun is_missing_board_error :: "js_error \<Rightarrow> bool" where
  "is_missing_board_error (AppError st msg) = False"
| "is_missing_board_error (DbError code con msg det c) =
     (if code \<noteq> Some ''23503'' then False
      else if con = Some ''elements_board_id_boards_id_fk'' then True
      else js_includes (error_text (DbError code con msg det c)) ''elements_board_id_boards_id_fk''
        \<or> js_includes (error_text (DbError code con msg det c)) (''is not present in table '' @ [char_of (34 :: nat)] @ ''boards'' @ [char_of (34 :: nat)]))"

definition isMissingBoardForeignKeyViolation :: "js_error \<Rightarrow> bool" where
  "isMissingBoardForeignKeyViolation err = list_ex is_missing_board_error (collectErrorChain err)"

fun is_invalid_uuid_error :: "js_error \<Rightarrow> bool" where
  "is_invalid_uuid_error (AppError st msg) =
     js_includes (js_lower (error_text (AppError st msg))) ''invalid input syntax for type uuid''"
| "is_invalid_uuid_error (DbError code con msg det c) =
     (code = Some ''22P02'' \<or>
      js_includes (js_lower (error_text (DbError code con msg det c))) ''invalid input syntax for type uuid'')"

definition isInvalidUuidError :: "js_error \<Rightarrow> bool" where
  "isInvalidUuidError err = list_ex is_invalid_uuid_error (collectErrorChain err)"

section \<open>Eviction\<close>

definition acquireEvictionLock :: "'w env \<Rightarrow> string \<Rightarrow> 'w \<Rightarrow> string option \<times> 'w" where
  "acquireEvictionLock E b w =
     (let (hex, w) = e_random_hex E w;
          token = dec (e_now E w) @ ''-'' @ hex;
          (acquired, w) = e_set_nx_px E (boardEvictionLockKey b) token BOARD_EVICTION_LOCK_TTL_MS w
      in (if acquired then Some token else None, w))"

definition releaseEvictionLock :: "'w env \<Rightarrow> string \<Rightarrow> string \<Rightarrow> 'w \<Rightarrow> 'w" where
  "releaseEvictionLock E b token w = eval_del_if_equal E (boardEvictionLockKey b) token w"

definition isBoardIdleForFlush :: "'w env \<Rightarrow> string \<Rightarrow> 'w \<Rightarrow> bool \<times> 'w" where
  "isBoardIdleForFlush E b w =
     (let w = e_write E [ZREMRANGEBYSCORE (boardViewerSessionsKey b) 0 (e_now E w - VIEWER_SESSION_TTL_MS)] w
      in (e_scard E (boardClientsKey b) w = 0 \<and> e_zcard E (boardViewerSessionsKey b) w = 0, w))"

definition unlist_commands :: "string \<Rightarrow> rcmd list" where
  "unlist_commands b = [SREM DIRTY_BOARDS_KEY [b], ZREM DIRTY_BOARDS_BY_AGE_KEY [b], SREM ACTIVE_BOARDS_KEY [b]]"

definition delete_board_keys :: "'w env \<Rightarrow> string \<Rightarrow> 'w \<Rightarrow> 'w" where
  \<comment> \<open>the SCAN loop, the DEL of what it found and the index pipeline\<close>
  "delete_board_keys E b w =
     (let keys = concat (e_scan E (bkey b ''*'') w);
          w = (if keys \<noteq> [] then e_write E [DEL keys] w else w)
      in e_write E (unlist_commands b) w)"

definition flushBoard :: "'w env \<Rightarrow> string \<Rightarrow> bool \<Rightarrow> 'w \<Rightarrow> 'w" where
  "flushBoard E b requireIdle w =
     (case acquireEvictionLock E b w of
        (None, w) \<Rightarrow> w
      | (Some token, w) \<Rightarrow>
          (let (proceed, w) = (if requireIdle then isBoardIdleForFlush E b w else (True, w));
               w = (if proceed then delete_board_keys E b w else w)
           in releaseEvictionLock E b token w))"

definition clearInvalidBoardState :: "'w env \<Rightarrow> string \<Rightarrow> 'w \<Rightarrow> 'w" where
  "clearInvalidBoardState E b w = flushBoard E b False w"

definition clearMissingBoardState :: "'w env \<Rightarrow> string \<Rightarrow> 'w \<Rightarrow> 'w" where
  "clearMissingBoardState E b w = flushBoard E b False w"

section \<open>The phases of a flush\<close>

definition getDirtySince :: "'w env \<Rightarrow> string \<Rightarrow> 'w \<Rightarrow> int option" where
  \<comment> \<open>\<open>raw ? parseInt(raw, 10) : null\<close>\<close>
  "getDirtySince E b w = Option.bind (e_get E (boardDirtySinceKey b) w) parse_int"

definition getDirtyEpoch :: "'w env \<Rightarrow> string \<Rightarrow> 'w \<Rightarrow> int" where
  "getDirtyEpoch E b w = int_or 0 (e_get E (boardDirtyEpochKey b) w)"

definition toElementRow :: "string \<Rightarrow> board_element \<Rightarrow> int \<Rightarrow> element_row" where
  "toElementRow b e serverTimestamp = \<lparr>row_id = el_id e, row_board = b, row_type = element_kind e,
     row_data = element_columns e, row_updated = Some serverTimestamp\<rparr>"

definition boardExists :: "'w env \<Rightarrow> string \<Rightarrow> 'w \<Rightarrow> bool result" where
  "boardExists E b w = (case e_select_boards E b w of Inl err \<Rightarrow> Inl err | Inr rows \<Rightarrow> Inr (rows \<noteq> []))"

definition boardExistsSafely :: "'w env \<Rightarrow> string \<Rightarrow> 'w \<Rightarrow> bool result \<times> 'w" where
  "boardExistsSafely E b w = (case boardExists E b w of
     Inr found \<Rightarrow> (Inr found, w)
   | Inl err \<Rightarrow> if isInvalidUuidError err then (Inr False, clearInvalidBoardState E b w) else (Inl err, w))"

record flush_snapshot =
  fs_started :: int
  fs_sequence :: int
  fs_epoch :: int

definition flush_begin :: "'w env \<Rightarrow> string \<Rightarrow> 'w \<Rightarrow> (flush_snapshot \<times> 'w) option" where
  "flush_begin E b w = do {
     let started = e_now E w;
     (sequence, w) \<leftarrow> peekSequence E b w;
     Some (\<lparr>fs_started = started, fs_sequence = sequence, fs_epoch = getDirtyEpoch E b w\<rparr>, w)
   }"

record flush_batch =
  fb_upserts :: "element_row list"
  fb_deletes :: "string list"

definition collect_batch :: "string \<Rightarrow> int \<Rightarrow> (string \<times> json option) list \<Rightarrow> string list \<Rightarrow> flush_batch" where
  \<comment> \<open>the loop over the dirty ids and their documents\<close>
  "collect_batch b ts docs deletedIds = fold (\<lambda>(i, doc) batch.
     if i = [] then batch
     else case doc of
       None \<Rightarrow> batch\<lparr>fb_deletes := js_add i (fb_deletes batch)\<rparr>
     | Some j \<Rightarrow> batch\<lparr>fb_upserts := fb_upserts batch @ [toElementRow b (parse_element j) ts]\<rparr>)
     docs \<lparr>fb_upserts = [], fb_deletes = js_set deletedIds\<rparr>"

definition flush_docs :: "'w env \<Rightarrow> string \<Rightarrow> int \<Rightarrow> string list \<Rightarrow> string list \<Rightarrow> 'w \<Rightarrow> flush_batch option" where
  \<comment> \<open>what follows the two \<open>SMEMBERS\<close>, up to the transaction; \<open>None\<close>: nothing is marked\<close>
  "flush_docs E b ts dirtyIds deletedIds w =
     (if dirtyIds = [] \<and> deletedIds = [] then None
      else Some (collect_batch b ts (zip dirtyIds (e_hmget E (boardElementsKey b) dirtyIds w)) deletedIds))"

definition flush_read :: "'w env \<Rightarrow> string \<Rightarrow> int \<Rightarrow> 'w \<Rightarrow> flush_batch option" where
  \<comment> \<open>all three reads with nothing between them; \<open>Flush_Interleaving\<close> takes them apart\<close>
  "flush_read E b ts w =
     flush_docs E b ts (e_smembers E (boardDirtyElementIdsKey b) w) (e_smembers E (boardDeletedElementIdsKey b) w) w"

definition batch_statements :: "string \<Rightarrow> int \<Rightarrow> flush_batch \<Rightarrow> pg_stmt list" where
  "batch_statements b ts batch =
     (if fb_deletes batch \<noteq> [] then [DeleteElementsIn b (fb_deletes batch)] else [])
     @ (if fb_upserts batch \<noteq> [] then [UpsertElements b ts (fb_upserts batch)] else [])
     @ [TouchBoard b ts]"

definition flush_commit :: "'w env \<Rightarrow> string \<Rightarrow> int \<Rightarrow> flush_batch option \<Rightarrow> 'w \<Rightarrow> (nat \<times> nat) result \<times> 'w" where
  "flush_commit E b ts batch w = (case batch of
     None \<Rightarrow> (Inr (0, 0), w)
   | Some bt \<Rightarrow> (case e_transaction E (batch_statements b ts bt) w of
       (Some err, w) \<Rightarrow> (Inl err, w)
     | (None, w) \<Rightarrow> (Inr (length (fb_upserts bt), length (fb_deletes bt)), w)))"

definition persistBoardIncremental :: "'w env \<Rightarrow> string \<Rightarrow> int \<Rightarrow> 'w \<Rightarrow> (nat \<times> nat) result \<times> 'w" where
  "persistBoardIncremental E b ts w = flush_commit E b ts (flush_read E b ts w) w"

definition persistBoardFullSnapshot :: "'w env \<Rightarrow> string \<Rightarrow> int \<Rightarrow> 'w \<Rightarrow> (nat result \<times> 'w) option" where
  "persistBoardFullSnapshot E b ts w = do {
     (els, w) \<leftarrow> getElements E b w;
     let rows = map (\<lambda>p. toElementRow b (snd p) ts) els;
     (case e_transaction E ([DeleteBoardElements b] @ (if rows \<noteq> [] then [InsertElements rows] else [])
         @ [TouchBoard b ts]) w of
       (Some err, w) \<Rightarrow> Some (Inl err, w)
     | (None, w) \<Rightarrow> Some (Inr (length rows), w))
   }"

definition clear_commands :: "string \<Rightarrow> bool \<Rightarrow> flush_snapshot \<Rightarrow> int \<Rightarrow> rcmd list" where
  "clear_commands b incremental snap completed =
     [SREM DIRTY_BOARDS_KEY [b], ZREM DIRTY_BOARDS_BY_AGE_KEY [b], DEL [boardDirtySinceKey b],
      SET (boardLastFlushedSequenceKey b) (dec (fs_sequence snap)),
      SET (boardLastFlushedAtKey b) (dec completed),
      SET (boardLastFlushDurationKey b) (dec (completed - fs_started snap))]
     @ (if incremental then [DEL [boardDirtyElementIdsKey b], DEL [boardDeletedElementIdsKey b]] else [])"

definition flush_clear :: "'w env \<Rightarrow> bool \<Rightarrow> string \<Rightarrow> flush_snapshot \<Rightarrow> 'w \<Rightarrow> bool \<times> 'w" where
  \<comment> \<open>the compare-and-clear script\<close>
  "flush_clear E incremental b snap w =
     (if int_or 0 (e_get E (boardDirtyEpochKey b) w) \<noteq> fs_epoch snap then (False, w)
      else (True, e_write E (clear_commands b incremental snap (e_now E w)) w))"

definition flush_write :: "'w env \<Rightarrow> bool \<Rightarrow> string \<Rightarrow> int \<Rightarrow> 'w \<Rightarrow> ((nat \<times> nat) result \<times> 'w) option" where
  "flush_write E incremental b ts w =
     (if incremental then Some (persistBoardIncremental E b ts w)
      else do {
        (r, w) \<leftarrow> persistBoardFullSnapshot E b ts w;
        Some (case r of Inl err \<Rightarrow> Inl err | Inr n \<Rightarrow> Inr (n, 0), w)
      })"

definition flush_loaded :: "'w env \<Rightarrow> bool \<Rightarrow> string \<Rightarrow> 'w \<Rightarrow> (unit result \<times> 'w) option" where
  \<comment> \<open>\<open>persistBoard\<close> from \<open>flushStartedAt\<close> on\<close>
  "flush_loaded E incremental b w = do {
     (snap, w) \<leftarrow> flush_begin E b w;
     (r, w) \<leftarrow> flush_write E incremental b (e_now E w) w;
     (case r of
        Inl err \<Rightarrow>
          if isMissingBoardForeignKeyViolation err then Some (Inr (), clearMissingBoardState E b w)
          else if isInvalidUuidError err then Some (Inr (), clearInvalidBoardState E b w)
          else Some (Inl err, w)
      | Inr counts \<Rightarrow> (case flush_clear E incremental b snap w of
            (True, w) \<Rightarrow> Some (Inr (), w)
          | (False, w) \<Rightarrow> do {
              (_, w) \<leftarrow> peekSequence E b w;
              Some (Inr (), w)
            }))
   }"

definition persistBoard :: "'w env \<Rightarrow> bool \<Rightarrow> string \<Rightarrow> 'w \<Rightarrow> (unit result \<times> 'w) option" where
  "persistBoard E incremental b w = do {
     w \<leftarrow> waitForBoardLoad E b w;
     if \<not> isUuidLike b then Some (Inr (), clearInvalidBoardState E b w)
     else (case boardExistsSafely E b w of
         (Inl err, w) \<Rightarrow> Some (Inl err, w)
       | (Inr False, w) \<Rightarrow> Some (Inr (), clearMissingBoardState E b w)
       | (Inr True, w) \<Rightarrow>
           if \<not> e_exists E (boardSeqKey b) w then Some (Inr (), e_write E (unlist_commands b) w)
           else flush_loaded E incremental b w)
   }"

section \<open>Dirty boards and metrics\<close>

record board_metrics =
  bm_sequence :: int
  bm_lastFlushedSequence :: int
  bm_dirtySince :: "int option"
  bm_dirtyAgeMs :: int
  bm_lastFlushDurationMs :: "int option"
  bm_lastFlushedAt :: "int option"

definition getBoardMetrics :: "'w env \<Rightarrow> string \<Rightarrow> 'w \<Rightarrow> (board_metrics \<times> 'w) option" where
  "getBoardMetrics E b w = do {
     w \<leftarrow> waitForBoardLoad E b w;
     let dirtySince = getDirtySince E b w;
     Some (\<lparr>bm_sequence = int_or 0 (e_get E (boardSeqKey b) w),
       bm_lastFlushedSequence = int_or 0 (e_get E (boardLastFlushedSequenceKey b) w),
       bm_dirtySince = dirtySince,
       bm_dirtyAgeMs = (case dirtySince of None \<Rightarrow> 0 | Some t \<Rightarrow> if t = 0 then 0 else max 0 (e_now E w - t)),
       bm_lastFlushDurationMs = Option.bind (e_get E (boardLastFlushDurationKey b) w) parse_int,
       bm_lastFlushedAt = Option.bind (e_get E (boardLastFlushedAtKey b) w) parse_int\<rparr>, w)
   }"

record persist_options =
  po_limit :: nat
  po_minDirtyAgeMs :: int
  po_retryAttempts :: nat
  po_retryDelayMs :: nat

definition persist_limit :: "nat \<Rightarrow> persist_options" where
  \<comment> \<open>the call with a number\<close>
  "persist_limit n = \<lparr>po_limit = n, po_minDirtyAgeMs = 0, po_retryAttempts = 1, po_retryDelayMs = 0\<rparr>"

definition persist_options_of :: "nat option \<Rightarrow> int option \<Rightarrow> int option \<Rightarrow> int option \<Rightarrow> persist_options" where
  \<comment> \<open>the call with an object and its defaults\<close>
  "persist_options_of limit age attempts delay = \<lparr>po_limit = (case limit of Some n \<Rightarrow> n | None \<Rightarrow> 25),
     po_minDirtyAgeMs = (case age of Some n \<Rightarrow> n | None \<Rightarrow> 0),
     po_retryAttempts = nat (max 1 (case attempts of Some n \<Rightarrow> n | None \<Rightarrow> 3)),
     po_retryDelayMs = nat (max 0 (case delay of Some n \<Rightarrow> n | None \<Rightarrow> 250))\<rparr>"

fun persist_with_retry :: "'w env \<Rightarrow> bool \<Rightarrow> string \<Rightarrow> nat \<Rightarrow> nat \<Rightarrow> 'w \<Rightarrow> (bool \<times> 'w) option" where
  \<comment> \<open>the \<open>while (attempt < retryAttempts)\<close> loop, by the attempts that are left\<close>
  "persist_with_retry E inc b delay 0 w = Some (False, w)"
| "persist_with_retry E inc b delay (Suc left) w = do {
     (r, w) \<leftarrow> persistBoard E inc b w;
     (case r of
        Inr _ \<Rightarrow> Some (True, w)
      | Inl err \<Rightarrow> if left = 0 then Some (False, w)
          else persist_with_retry E inc b delay left (if delay > 0 then e_sleep E delay w else w))
   }"

fun persist_boards :: "'w env \<Rightarrow> bool \<Rightarrow> persist_options \<Rightarrow> string list \<Rightarrow> 'w \<Rightarrow> (string list \<times> 'w) option" where
  "persist_boards E inc opts [] w = Some ([], w)"
| "persist_boards E inc opts (b # bs) w =
     (if (case getDirtySince E b w of None \<Rightarrow> False
          | Some t \<Rightarrow> t > 0 \<and> e_now E w - t < po_minDirtyAgeMs opts)
      then persist_boards E inc opts bs w
      else do {
        (ok, w) \<leftarrow> persist_with_retry E inc b (po_retryDelayMs opts) (po_retryAttempts opts) w;
        (rest, w) \<leftarrow> persist_boards E inc opts bs w;
        Some (if ok then b # rest else rest, w)
      })"

definition persistDirtyBoards :: "'w env \<Rightarrow> bool \<Rightarrow> persist_options \<Rightarrow> 'w \<Rightarrow> (string list \<times> 'w) option" where
  "persistDirtyBoards E inc opts w =
     (let maxScore = (if po_minDirtyAgeMs opts > 0 then Some (e_now E w - po_minDirtyAgeMs opts) else None);
          boardIds = e_zrangebyscore E DIRTY_BOARDS_BY_AGE_KEY maxScore (po_limit opts) w
      in persist_boards E inc opts boardIds w)"

definition flushDirtyBoards :: "'w env \<Rightarrow> bool \<Rightarrow> 'w \<Rightarrow> (string list \<times> 'w) option" where
  \<comment> \<open>\<open>board-persistence.service.ts\<close>: the policy of the background job\<close>
  "flushDirtyBoards E inc w =
     persistDirtyBoards E inc (persist_options_of None (Some 30000) (Some 3) (Some 250)) w"

section \<open>Rows written by a batch\<close>

lemma isUuidLike_chars:
  assumes "isUuidLike b" "c \<in> set b" shows "\<exists>f \<in> set uuid_pattern. f c"
proof -
  obtain n where n: "n < length b" "b ! n = c" using assms(2) by (auto simp: in_set_conv_nth)
  have len: "length b = length uuid_pattern" and all: "list_all (\<lambda>(f, c). f c) (zip uuid_pattern b)"
    using assms(1) by (auto simp: isUuidLike_def)
  have "(uuid_pattern ! n, b ! n) \<in> set (zip uuid_pattern b)"
    using n len by (metis in_set_conv_nth length_zip min.idem nth_zip)
  then have "(uuid_pattern ! n) (b ! n)" using all by (auto simp: list_all_iff)
  then show ?thesis using n len by (metis nth_mem)
qed

lemma isUuidLike_plain:
  assumes "isUuidLike b" shows "CHR '':'' \<notin> set b" "CHR ''*'' \<notin> set b"
proof -
  have "list_all (\<lambda>f. \<not> f (CHR '':'') \<and> \<not> f (CHR ''*'')) uuid_pattern"
    by (simp add: uuid_pattern_def is_hex_def numeral_eq_Suc)
  then show "CHR '':'' \<notin> set b" "CHR ''*'' \<notin> set b"
    using isUuidLike_chars[OF assms] by (auto simp: list_all_iff)
qed

lemma insert_rows_map:
  "insert_rows rs m = m ++ map_of (rev (map (\<lambda>r. (row_id r, r)) rs))"
proof (induction rs arbitrary: m)
  case (Cons r rs)
  show ?case unfolding insert_rows.simps Cons.IH
    by (auto simp: fun_eq_iff map_add_def split: option.split)
qed simp

lemma insert_rows_get:
  assumes "distinct (map row_id rs)"
  shows "insert_rows rs m i = (if i \<in> row_id ` set rs then Some (the_elem {r \<in> set rs. row_id r = i}) else m i)"
proof -
  have d: "distinct (map fst (map (\<lambda>r. (row_id r, r)) rs))" using assms by (simp add: comp_def)
  show ?thesis
  proof (cases "i \<in> row_id ` set rs")
    case True
    then obtain r where r: "r \<in> set rs" "row_id r = i" by auto
    have one: "{q \<in> set rs. row_id q = i} = {r}"
      using assms r by (auto simp: distinct_map inj_on_def)
    have "map_of (map (\<lambda>r. (row_id r, r)) rs) i = Some r"
      using r d by (intro map_of_is_SomeI) auto
    then show ?thesis
      using True one by (simp add: insert_rows_map map_of_rev_distinct[OF d] map_add_def)
  next
    case False
    then have "map_of (rev (map (\<lambda>r. (row_id r, r)) rs)) i = None"
      by (auto simp: map_of_eq_None_iff)
    then show ?thesis using False by (simp add: insert_rows_map map_add_def)
  qed
qed

lemma insert_rows_other: "i \<notin> row_id ` set rs \<Longrightarrow> insert_rows rs m i = m i"
proof -
  assume "i \<notin> row_id ` set rs"
  then have "map_of (rev (map (\<lambda>r. (row_id r, r)) rs)) i = None" by (auto simp: map_of_eq_None_iff)
  then show ?thesis by (simp add: insert_rows_map map_add_def)
qed

lemma insert_rows_mem:
  assumes "distinct (map row_id rs)" "r \<in> set rs"
  shows "insert_rows rs m (row_id r) = Some r"
proof -
  have "{q \<in> set rs. row_id q = row_id r} = {r}"
    using assms by (auto simp: distinct_map inj_on_def)
  then show ?thesis using assms by (simp add: insert_rows_get)
qed

definition batch_for :: "string \<Rightarrow> int \<Rightarrow> flush_batch \<Rightarrow> bool" where
  \<comment> \<open>the rows of the batch are rows of the board, with its time stamp and with one row per id\<close>
  "batch_for b ts bt = (distinct (map row_id (fb_upserts bt)) \<and>
     (\<forall>r \<in> set (fb_upserts bt). row_board r = b \<and> row_updated r = Some ts))"

lemma batch_statements_rows:
  assumes "batch_for b ts bt"
  shows "v_rows (fold pg_step (batch_statements b ts bt) v) i =
    (if i \<in> row_id ` set (fb_upserts bt) then insert_rows (fb_upserts bt) (v_rows v) i
     else if i \<in> set (fb_deletes bt) then (case v_rows v i of None \<Rightarrow> None
       | Some r \<Rightarrow> if row_board r = b then None else Some r)
     else v_rows v i)"
proof -
  define v1 where "v1 = fold pg_step (if fb_deletes bt \<noteq> [] then [DeleteElementsIn b (fb_deletes bt)] else []) v"
  define v2 where "v2 = fold pg_step (if fb_upserts bt \<noteq> [] then [UpsertElements b ts (fb_upserts bt)] else []) v1"
  have same: "map (\<lambda>r. r\<lparr>row_board := b, row_updated := Some ts\<rparr>) (fb_upserts bt) = fb_upserts bt"
    using assms by (intro map_idI) (auto simp: batch_for_def)
  have all: "fold pg_step (batch_statements b ts bt) v = pg_step (TouchBoard b ts) v2"
    by (simp add: batch_statements_def v1_def v2_def)
  have r1: "v_rows v1 i = (if i \<in> set (fb_deletes bt) then (case v_rows v i of None \<Rightarrow> None
       | Some r \<Rightarrow> if row_board r = b then None else Some r) else v_rows v i)" for i
    by (auto simp: v1_def split: option.split)
  have r2: "v_rows v2 = insert_rows (fb_upserts bt) (v_rows v1)"
    using same by (cases "fb_upserts bt") (simp_all add: v2_def)
  have t: "v_rows (pg_step (TouchBoard b ts) v2) = v_rows v2" by simp
  show ?thesis
  proof (cases "i \<in> row_id ` set (fb_upserts bt)")
    case True
    then obtain r where "r \<in> set (fb_upserts bt)" "i = row_id r" by auto
    then show ?thesis
      unfolding all t r2 using assms True by (simp add: insert_rows_mem batch_for_def)
  next
    case False
    then show ?thesis unfolding all t r2 by (simp add: insert_rows_other r1)
  qed
qed

section \<open>Reading the marked elements\<close>

definition marks :: "string \<Rightarrow> rview \<Rightarrow> string set" where
  "marks b v = v_set v (boardDirtyElementIdsKey b) \<union> v_set v (boardDeletedElementIdsKey b)"

lemma collect_batch_step:
  "collect_batch b ts docs ds = bt \<Longrightarrow>
   set (fb_deletes bt) = set ds \<union> {i. (i, None) \<in> set docs \<and> i \<noteq> []} \<and>
   fb_upserts bt = map (\<lambda>(i, j). toElementRow b (parse_element (the j)) ts)
     (filter (\<lambda>(i, j). i \<noteq> [] \<and> j \<noteq> None) docs)"
proof -
  let ?f = "\<lambda>(i, doc) batch. if i = [] then batch
     else case doc of
       None \<Rightarrow> batch\<lparr>fb_deletes := js_add i (fb_deletes batch)\<rparr>
     | Some j \<Rightarrow> batch\<lparr>fb_upserts := fb_upserts batch @ [toElementRow b (parse_element j) ts]\<rparr>"
  have "set (fb_deletes (fold ?f docs acc)) = set (fb_deletes acc) \<union> {i. (i, None) \<in> set docs \<and> i \<noteq> []} \<and>
    fb_upserts (fold ?f docs acc) = fb_upserts acc @ map (\<lambda>(i, j). toElementRow b (parse_element (the j)) ts)
     (filter (\<lambda>(i, j). i \<noteq> [] \<and> j \<noteq> None) docs)" for acc :: flush_batch
  proof (induction docs arbitrary: acc)
    case (Cons p docs)
    then show ?case by (cases p) (auto split: option.split)
  qed simp
  from this[of "\<lparr>fb_upserts = [], fb_deletes = js_set ds\<rparr>"]
  show "collect_batch b ts docs ds = bt \<Longrightarrow> ?thesis"
    unfolding collect_batch_def by auto
qed

lemma toElementRow_synced:
  assumes "v_hash v (boardElementsKey b) i = Some j" "v_rows v i = Some (toElementRow b (parse_element j) ts)"
  shows "synced b v i"
  using assms by (simp add: synced_def toElementRow_def)

context redis_client
begin

lemma smembers_Nil: "e_smembers E k w = [] \<longleftrightarrow> v_set (view w) k = {}"
  using smembers(1)[of k w] by (metis set_empty)

lemma flush_docs_view:
  assumes "flush_docs E b ts ds rs w = Some bt" "wf_elements b (view w)" "distinct ds"
  shows "batch_for b ts bt"
    and "set (fb_deletes bt) = set rs \<union> {i \<in> set ds. i \<noteq> [] \<and> v_hash (view w) (boardElementsKey b) i = None}"
    and "set (fb_upserts bt) = {toElementRow b (parse_element j) ts | i j.
      i \<in> set ds \<and> i \<noteq> [] \<and> v_hash (view w) (boardElementsKey b) i = Some j}"
    and "row_id ` set (fb_upserts bt) = {i \<in> set ds. i \<noteq> [] \<and> v_hash (view w) (boardElementsKey b) i \<noteq> None}"
proof -
  let ?h = "v_hash (view w) (boardElementsKey b)"
  let ?docs = "map (\<lambda>i. (i, ?h i)) ds"
  have zip: "zip ds (e_hmget E (boardElementsKey b) ds w) = ?docs"
    by (simp add: hmget zip_map2 zip_same_conv_map)
  have "collect_batch b ts ?docs rs = bt"
    using assms(1) by (auto simp: flush_docs_def zip split: if_splits)
  note c = collect_batch_step[OF this]
  have up: "fb_upserts bt = map (\<lambda>i. toElementRow b (parse_element (the (?h i))) ts)
      (filter (\<lambda>i. i \<noteq> [] \<and> ?h i \<noteq> None) ds)"
    using c by (simp add: filter_map comp_def)
  have ids: "map row_id (fb_upserts bt) = filter (\<lambda>i. i \<noteq> [] \<and> ?h i \<noteq> None) ds"
    unfolding up map_map
    by (rule map_idI) (use assms(2) in \<open>auto simp: toElementRow_def wf_elements_def\<close>)
  show "batch_for b ts bt"
    unfolding batch_for_def ids using assms(3) by (auto simp: up toElementRow_def)
  show "set (fb_deletes bt) = set rs \<union> {i \<in> set ds. i \<noteq> [] \<and> ?h i = None}"
    using c by auto
  show "set (fb_upserts bt) = {toElementRow b (parse_element j) ts | i j. i \<in> set ds \<and> i \<noteq> [] \<and> ?h i = Some j}"
    unfolding up by force
  have "row_id ` set (fb_upserts bt) = set (map row_id (fb_upserts bt))" by simp
  also have "\<dots> = {i \<in> set ds. i \<noteq> [] \<and> ?h i \<noteq> None}" unfolding ids by auto
  finally show "row_id ` set (fb_upserts bt) = {i \<in> set ds. i \<noteq> [] \<and> ?h i \<noteq> None}" .
qed

lemma flush_read_None:
  "flush_read E b ts w = None \<longleftrightarrow> marks b (view w) = {}"
  by (auto simp: flush_read_def flush_docs_def marks_def smembers_Nil)

lemma flush_read_view:
  assumes "flush_read E b ts w = Some bt" "wf_elements b (view w)"
  shows "batch_for b ts bt"
    and "set (fb_deletes bt) = v_set (view w) (boardDeletedElementIdsKey b) \<union>
      {i \<in> v_set (view w) (boardDirtyElementIdsKey b). i \<noteq> [] \<and> v_hash (view w) (boardElementsKey b) i = None}"
    and "set (fb_upserts bt) = {toElementRow b (parse_element j) ts | i j.
      i \<in> v_set (view w) (boardDirtyElementIdsKey b) \<and> i \<noteq> [] \<and> v_hash (view w) (boardElementsKey b) i = Some j}"
    and "row_id ` set (fb_upserts bt) =
      {i \<in> v_set (view w) (boardDirtyElementIdsKey b). i \<noteq> [] \<and> v_hash (view w) (boardElementsKey b) i \<noteq> None}"
  using flush_docs_view[OF assms(1)[unfolded flush_read_def] assms(2)] by (simp_all add: smembers)

end

section \<open>What a committed batch saves\<close>

definition saves_marked :: "string \<Rightarrow> rview \<Rightarrow> int \<Rightarrow> flush_batch \<Rightarrow> bool" where
  \<comment> \<open>committing the batch now makes the stores agree on every marked element\<close>
  "saves_marked b v ts bt = (\<forall>i \<in> marks b v. synced b (fold pg_step (batch_statements b ts bt) v) i)"

definition batch_ids :: "flush_batch \<Rightarrow> string set" where
  "batch_ids bt = row_id ` set (fb_upserts bt) \<union> set (fb_deletes bt)"

lemma commit_frame [simp]:
  "v_hash (fold pg_step ss v) = v_hash v" "v_set (fold pg_step ss v) = v_set v"
  "marks b (fold pg_step ss v) = marks b v"
  by (simp_all add: marks_def)

lemma synced_rows:
  assumes "v_hash v' (boardElementsKey b) = v_hash v (boardElementsKey b)" "v_rows v' i = v_rows v i"
  shows "synced b v' i = synced b v i"
  using assms by (intro synced_frame) (simp_all add: abs_board_def)

lemma commit_marked:
  assumes "marked_inv b v" "batch_for b ts bt" "batch_ids bt \<subseteq> marks b v"
  shows "marked_inv b (fold pg_step (batch_statements b ts bt) v)"
proof -
  let ?v' = "fold pg_step (batch_statements b ts bt) v"
  have "synced b ?v' i" if "i \<notin> marks b v" for i
  proof -
    have "i \<notin> row_id ` set (fb_upserts bt)" "i \<notin> set (fb_deletes bt)"
      using that assms(3) by (auto simp: batch_ids_def)
    then have "v_rows ?v' i = v_rows v i" by (simp add: batch_statements_rows[OF assms(2)])
    moreover have "synced b v i" using that assms(1) by (simp add: marked_inv_def marks_def)
    ultimately show ?thesis by (simp add: synced_rows[where v'="?v'" and v=v])
  qed
  then show ?thesis using assms(1) by (simp add: marked_inv_def marks_def)
qed

lemma batch_saves_marked:
  assumes "marked_inv b v" "batch_for b ts bt" "[] \<notin> marks b v"
    and "set (fb_deletes bt) = v_set v (boardDeletedElementIdsKey b) \<union>
      {i \<in> v_set v (boardDirtyElementIdsKey b). i \<noteq> [] \<and> v_hash v (boardElementsKey b) i = None}"
    and "set (fb_upserts bt) = {toElementRow b (parse_element j) ts | i j.
      i \<in> v_set v (boardDirtyElementIdsKey b) \<and> i \<noteq> [] \<and> v_hash v (boardElementsKey b) i = Some j}"
    and "row_id ` set (fb_upserts bt) =
      {i \<in> v_set v (boardDirtyElementIdsKey b). i \<noteq> [] \<and> v_hash v (boardElementsKey b) i \<noteq> None}"
    and "wf_elements b v"
  shows "saves_marked b v ts bt"
  unfolding saves_marked_def
proof
  let ?v' = "fold pg_step (batch_statements b ts bt) v"
  note rows = batch_statements_rows[OF assms(2), of v]
  fix i assume i: "i \<in> marks b v"
  then have ne: "i \<noteq> []" using assms(3) by blast
  show "synced b ?v' i"
  proof (cases "v_hash v (boardElementsKey b) i")
    case (Some j)
    then have dirty: "i \<in> v_set v (boardDirtyElementIdsKey b)"
      using i assms(1) by (auto simp: marks_def marked_inv_def)
    let ?r = "toElementRow b (parse_element j) ts"
    have r: "?r \<in> set (fb_upserts bt)" using assms(5) dirty ne Some by blast
    have "row_id ?r = i" using assms(7) Some by (simp add: wf_elements_def toElementRow_def)
    with r have "v_rows ?v' i = Some ?r"
      using rows[of i] assms(2) insert_rows_mem[of "fb_upserts bt" ?r "v_rows v"]
      by (auto simp: batch_for_def)
    then show ?thesis using Some by (intro toElementRow_synced[of _ _ _ j]) simp_all
  next
    case None
    then have "i \<notin> row_id ` set (fb_upserts bt)" using assms(6) by auto
    moreover have "i \<in> set (fb_deletes bt)"
      using None i ne assms(4) by (auto simp: marks_def)
    ultimately have "v_rows ?v' i = (case v_rows v i of None \<Rightarrow> None
       | Some r \<Rightarrow> if row_board r = b then None else Some r)"
      using rows[of i] by simp
    then show ?thesis using None by (auto simp: synced_def split: option.splits if_splits)
  qed
qed

definition all_synced :: "string \<Rightarrow> rview \<Rightarrow> bool" where
  "all_synced b v = (\<forall>i. synced b v i)"

lemma saved_all:
  assumes "marked_inv b v" "batch_for b ts bt" "batch_ids bt \<subseteq> marks b v" "saves_marked b v ts bt"
  shows "all_synced b (fold pg_step (batch_statements b ts bt) v)"
  unfolding all_synced_def
proof
  fix i
  let ?v' = "fold pg_step (batch_statements b ts bt) v"
  show "synced b ?v' i"
  proof (cases "i \<in> marks b v")
    case True
    then show ?thesis using assms(4) by (simp add: saves_marked_def)
  next
    case False
    then show ?thesis using commit_marked[OF assms(1-3)] by (simp add: marked_inv_def marks_def)
  qed
qed

lemma unmarked_all_synced: "marked_inv b v \<Longrightarrow> marks b v = {} \<Longrightarrow> all_synced b v"
  by (simp add: marked_inv_def marks_def all_synced_def)

lemma clear_commands_view:
  "v_hash (fold redis_step (clear_commands b inc snap t) v) (boardElementsKey b) = v_hash v (boardElementsKey b)"
  "v_strs (fold redis_step (clear_commands b inc snap t) v) (boardSeqKey b) = v_strs v (boardSeqKey b)"
  "v_strs (fold redis_step (clear_commands b inc snap t) v) (boardEvictionLockKey b) = v_strs v (boardEvictionLockKey b)"
  "v_strs (fold redis_step (clear_commands b inc snap t) v) (boardDirtyEpochKey b) = v_strs v (boardDirtyEpochKey b)"
  "v_strs (fold redis_step (clear_commands b inc snap t) v) (boardMutationLockKey b) = v_strs v (boardMutationLockKey b)"
  "marks b (fold redis_step (clear_commands b True snap t) v) = {}"
  "v_strs (fold redis_step (clear_commands b inc snap t) v) (boardLastFlushedSequenceKey b) =
     Some (dec (fs_sequence snap), None)"
  by (simp_all add: clear_commands_def marks_def key_defs)

lemma clear_marked:
  assumes "all_synced b v"
  shows "marked_inv b (fold redis_step (clear_commands b True snap t) v) \<and>
    all_synced b (fold redis_step (clear_commands b True snap t) v)"
proof -
  let ?v' = "fold redis_step (clear_commands b True snap t) v"
  have "synced b ?v' i" for i
    using assms clear_commands_view(1)[of b True snap t v] synced_rows[where b=b and v'="?v'" and v=v and i=i]
    by (simp add: all_synced_def)
  moreover have "marks b ?v' = {}" by (rule clear_commands_view)
  ultimately show ?thesis by (auto simp: marked_inv_def all_synced_def marks_def)
qed

section \<open>One flush without interference\<close>

definition flush_refused :: "js_error \<Rightarrow> bool" where
  \<comment> \<open>the database says that the board does not exist or that its id is not one\<close>
  "flush_refused err = (isMissingBoardForeignKeyViolation err \<or> isInvalidUuidError err)"

definition saved_state :: "string \<Rightarrow> rview \<Rightarrow> rview \<Rightarrow> bool" where
  \<comment> \<open>from \<open>v\<close> to \<open>v'\<close> the board was saved: the elements are as before, Postgres has them all, no mark is left\<close>
  "saved_state b v v' = (v_hash v' (boardElementsKey b) = v_hash v (boardElementsKey b) \<and>
     all_synced b v' \<and> marks b v' = {} \<and> marked_inv b v' \<and>
     v_strs v' (boardSeqKey b) = v_strs v (boardSeqKey b) \<and>
     v_strs v' (boardMutationLockKey b) = v_strs v (boardMutationLockKey b) \<and>
     v_strs v' (boardLastFlushedSequenceKey b) = Some (dec (counter v (boardSeqKey b)), None))"

context services
begin

lemma flush_commit_ok:
  assumes "flush_read E b ts w = batch" "marked_inv b (view w)" "wf_elements b (view w)" "[] \<notin> marks b (view w)"
    "flush_commit E b ts batch w = (Inr counts, w')"
  shows "all_synced b (view w') \<and> v_hash (view w') = v_hash (view w) \<and> v_strs (view w') = v_strs (view w) \<and>
    v_set (view w') = v_set (view w) \<and> v_zset (view w') = v_zset (view w)"
proof (cases batch)
  case None
  then have "marks b (view w) = {}" using assms(1) flush_read_None by simp
  then show ?thesis using assms(2,5) None unmarked_all_synced by (auto simp: flush_commit_def)
next
  case (Some bt)
  note r = flush_read_view[OF assms(1)[unfolded Some] assms(3)]
  have "e_transaction E (batch_statements b ts bt) w = (None, w')"
    using assms(5) Some by (auto simp: flush_commit_def split: prod.splits option.splits)
  from commit[OF this] have v': "view w' = fold pg_step (batch_statements b ts bt) (view w)" .
  have ids: "batch_ids bt \<subseteq> marks b (view w)"
    unfolding batch_ids_def r(2,4) marks_def by auto
  have "saves_marked b (view w) ts bt"
    using batch_saves_marked[OF assms(2) r(1) assms(4) r(2,3,4) assms(3)] .
  from saved_all[OF assms(2) r(1) ids this] show ?thesis by (simp add: v')
qed

lemma flush_commit_err:
  assumes "flush_commit E b ts batch w = (Inl err, w')"
  shows "view w' = view w"
  using assms rollback by (auto simp: flush_commit_def split: option.splits prod.splits)

lemma flush_begin_ready:
  assumes "board_ready E b w"
  shows "flush_begin E b w = Some (\<lparr>fs_started = v_now (view w), fs_sequence = counter (view w) (boardSeqKey b),
    fs_epoch = counter (view w) (boardDirtyEpochKey b)\<rparr>, w)"
  using assms by (simp add: flush_begin_def peekSequence_def waitForBoardLoad_ready now get getDirtyEpoch_def counter_def)

lemma flush_loaded_cases:
  assumes "board_ready E b w" "marked_inv b (view w)" "wf_elements b (view w)" "[] \<notin> marks b (view w)"
    and c: "persistBoardIncremental E b (v_now (view w)) w = (c, w1)"
  shows "case c of
      Inr counts \<Rightarrow> \<exists>w'. flush_loaded E True b w = Some (Inr (), w') \<and> saved_state b (view w) (view w')
    | Inl err \<Rightarrow> view w1 = view w \<and> flush_loaded E True b w = Some (if flush_refused err
        then (Inr (), flushBoard E b False w1) else (Inl err, w1))"
proof -
  let ?snap = "\<lparr>fs_started = v_now (view w), fs_sequence = counter (view w) (boardSeqKey b),
    fs_epoch = counter (view w) (boardDirtyEpochKey b)\<rparr>"
  have run: "flush_loaded E True b w = (case c of
        Inl err \<Rightarrow>
          if isMissingBoardForeignKeyViolation err then Some (Inr (), clearMissingBoardState E b w1)
          else if isInvalidUuidError err then Some (Inr (), clearInvalidBoardState E b w1)
          else Some (Inl err, w1)
      | Inr counts \<Rightarrow> (case flush_clear E True b ?snap w1 of
            (True, w) \<Rightarrow> Some (Inr (), w)
          | (False, w) \<Rightarrow> do {
              (_, w) \<leftarrow> peekSequence E b w;
              Some (Inr (), w)
            }))"
    by (simp add: flush_loaded_def flush_begin_ready[OF assms(1)] flush_write_def now c)
  note c' = c[unfolded persistBoardIncremental_def]
  show ?thesis
  proof (cases c)
    case (Inl err)
    have "view w1 = view w" using flush_commit_err c' Inl by simp
    then show ?thesis unfolding run Inl
      by (simp add: flush_refused_def clearMissingBoardState_def clearInvalidBoardState_def)
  next
    case (Inr counts)
    note ok = flush_commit_ok[OF refl assms(2-4) c'[unfolded Inr]]
    let ?w' = "e_write E (clear_commands b True ?snap (e_now E w1)) w1"
    have "flush_clear E True b ?snap w1 = (True, ?w')"
      using ok by (simp add: flush_clear_def get counter_def)
    then have run': "flush_loaded E True b w = Some (Inr (), ?w')" by (simp add: run Inr)
    have "saved_state b (view w) (view ?w')"
      unfolding saved_state_def written
      using ok clear_marked[of b "view w1"]
      by (simp add: clear_commands_view)
    then show ?thesis using run' by (simp add: Inr)
  qed
qed

end

context services
begin

lemma persistBoard_cases:
  assumes "isUuidLike b" "board_ready E b w" "v_strs (view w) (boardSeqKey b) \<noteq> None"
    "marked_inv b (view w)" "wf_elements b (view w)" "[] \<notin> marks b (view w)"
    and c: "persistBoardIncremental E b (v_now (view w)) w = (c, w1)"
  shows "case e_select_boards E b w of
      Inl err \<Rightarrow> persistBoard E True b w = Some (if isInvalidUuidError err
        then (Inr (), flushBoard E b False (flushBoard E b False w)) else (Inl err, w))
    | Inr [] \<Rightarrow> persistBoard E True b w = Some (Inr (), flushBoard E b False w)
    | Inr (_ # _) \<Rightarrow> (case c of
        Inr counts \<Rightarrow> \<exists>w'. persistBoard E True b w = Some (Inr (), w') \<and> saved_state b (view w) (view w')
      | Inl err \<Rightarrow> view w1 = view w \<and> persistBoard E True b w = Some (if flush_refused err
          then (Inr (), flushBoard E b False w1) else (Inl err, w1)))"
proof (cases "e_select_boards E b w")
  case (Inl err)
  then show ?thesis using assms(1,2)
    by (simp add: persistBoard_def waitForBoardLoad_ready boardExistsSafely_def boardExists_def
        clearInvalidBoardState_def clearMissingBoardState_def)
next
  case (Inr rows)
  show ?thesis
  proof (cases rows)
    case Nil
    then show ?thesis using assms(1,2) Inr
      by (simp add: persistBoard_def waitForBoardLoad_ready boardExistsSafely_def boardExists_def
          clearMissingBoardState_def)
  next
    case (Cons row more)
    then have run: "persistBoard E True b w = flush_loaded E True b w"
      using assms(1-3) Inr
      by (simp add: persistBoard_def waitForBoardLoad_ready boardExistsSafely_def boardExists_def exists_str del: not_None_eq)
    show ?thesis
      using flush_loaded_cases[OF assms(2,4-6) c] unfolding run Inr Cons by simp
  qed
qed

end

datatype database_answer = Saves | Refuses | Fails js_error

definition database_answer :: "'w env \<Rightarrow> string \<Rightarrow> 'w \<Rightarrow> database_answer" where
  \<comment> \<open>what the database answers to the query and to the transaction of a save that starts now\<close>
  "database_answer E b w = (case e_select_boards E b w of
     Inl err \<Rightarrow> if isInvalidUuidError err then Refuses else Fails err
   | Inr [] \<Rightarrow> Refuses
   | Inr (_ # _) \<Rightarrow> (case fst (persistBoardIncremental E b (e_now E w) w) of
       Inr _ \<Rightarrow> Saves | Inl err \<Rightarrow> if flush_refused err then Refuses else Fails err))"

context services
begin

lemma persistBoard_answers:
  assumes "isUuidLike b" "board_ready E b w" "v_strs (view w) (boardSeqKey b) \<noteq> None"
    "marked_inv b (view w)" "wf_elements b (view w)" "[] \<notin> marks b (view w)"
  shows "case database_answer E b w of
      Saves \<Rightarrow> \<exists>w'. persistBoard E True b w = Some (Inr (), w') \<and> saved_state b (view w) (view w')
    | Refuses \<Rightarrow> \<exists>w' w1. persistBoard E True b w = Some (Inr (), w') \<and> view w1 = view w \<and>
        (w' = flushBoard E b False w1 \<or> w' = flushBoard E b False (flushBoard E b False w1))
    | Fails err \<Rightarrow> \<exists>w'. persistBoard E True b w = Some (Inl err, w') \<and> view w' = view w"
proof -
  obtain c w1 where c: "persistBoardIncremental E b (v_now (view w)) w = (c, w1)"
    by (cases "persistBoardIncremental E b (v_now (view w)) w")
  show ?thesis
    using persistBoard_cases[OF assms c] c
    by (auto simp: database_answer_def now split: sum.splits list.splits)
qed

end

section \<open>Eviction\<close>

lemma glob_prefix:
  assumes "CHR ''*'' \<notin> set p" shows "glob_match (p @ ''*'') k \<longleftrightarrow> (\<exists>x. k = p @ x)"
  using assms
proof (induction p arbitrary: k)
  case Nil
  have "glob_match ''*'' k" for k by (induction k) auto
  then show ?case by simp
next
  case (Cons c p)
  then show ?case by (cases k) auto
qed

lemma glob_board_keys:
  assumes "CHR ''*'' \<notin> set b" shows "glob_match (bkey b ''*'') k \<longleftrightarrow> (\<exists>x. k = bkey b x)"
proof -
  have "bkey b ''*'' = (''board:'' @ b @ '':'') @ ''*''" by (simp add: bkey_def)
  moreover have "CHR ''*'' \<notin> set (''board:'' @ b @ '':'')" using assms by simp
  ultimately have "glob_match (bkey b ''*'') k \<longleftrightarrow> (\<exists>x. k = (''board:'' @ b @ '':'') @ x)"
    using glob_prefix[of "''board:'' @ b @ '':''" k] by metis
  then show ?thesis by (simp add: bkey_def)
qed

definition board_gone :: "string \<Rightarrow> rview \<Rightarrow> bool" where
  \<comment> \<open>no key of the board is left and no index lists it\<close>
  "board_gone b v = ((\<forall>x. \<not> key_present v (bkey b x)) \<and> b \<notin> v_set v DIRTY_BOARDS_KEY \<and>
     v_zset v DIRTY_BOARDS_BY_AGE_KEY b = None \<and> b \<notin> v_set v ACTIVE_BOARDS_KEY)"

definition same_elsewhere :: "string \<Rightarrow> rview \<Rightarrow> rview \<Rightarrow> bool" where
  \<comment> \<open>only keys of the board differ, and the indexes only in their entry for the board\<close>
  "same_elsewhere b v v' = ((\<forall>k. (\<forall>x. k \<noteq> bkey b x) \<longrightarrow>
     v_strs v' k = v_strs v k \<and> v_hash v' k = v_hash v k \<and> v_list v' k = v_list v k \<and>
     v_set v' k - {b} = v_set v k - {b} \<and> v_zset v' k |` (- {b}) = v_zset v k |` (- {b})) \<and>
     v_rows v' = v_rows v \<and> v_boards v' = v_boards v)"

lemma unlist_view:
  assumes "\<forall>x. \<not> key_present v (bkey b x)"
  shows "board_gone b (fold redis_step (unlist_commands b) v)"
  using assms by (simp add: board_gone_def unlist_commands_def key_present_def)

lemma same_elsewhere_unlist: "same_elsewhere b v (fold redis_step (unlist_commands b) v)"
  by (auto simp: same_elsewhere_def unlist_commands_def)

lemma same_elsewhere_trans:
  assumes "same_elsewhere b u v" "same_elsewhere b v w" shows "same_elsewhere b u w"
  using assms unfolding same_elsewhere_def by metis

context redis_client
begin

lemma delete_keys_view:
  assumes "CHR ''*'' \<notin> set b"
  shows "board_gone b (view (delete_board_keys E b w)) \<and> same_elsewhere b (view w) (view (delete_board_keys E b w))"
proof -
  define keys where "keys = concat (e_scan E (bkey b ''*'') w)"
  define w1 where "w1 = (if keys \<noteq> [] then e_write E [DEL keys] w else w)"
  have keys: "set keys = {k. key_present (view w) k \<and> (\<exists>x. k = bkey b x)}"
    unfolding keys_def scan glob_board_keys[OF assms] by simp
  have v1: "view w1 = redis_step (DEL keys) (view w)"
  proof (cases "keys = []")
    case True
    then show ?thesis by (simp add: w1_def)
  next
    case False
    then have "w1 = e_write E [DEL keys] w" by (simp add: w1_def)
    then show ?thesis by (simp only: written fold.simps comp_apply id_apply)
  qed
  have gone: "\<not> key_present (view w1) (bkey b x)" for x
  proof (cases "key_present (view w) (bkey b x)")
    case True
    then have "bkey b x \<in> set keys" by (auto simp: keys)
    then show ?thesis by (simp add: v1 key_present_def)
  next
    case False
    then show ?thesis by (simp add: v1 key_present_def)
  qed
  have same: "same_elsewhere b (view w) (view w1)"
  proof -
    have "k \<notin> set keys" if "\<forall>x. k \<noteq> bkey b x" for k using that keys by blast
    then show ?thesis by (simp add: same_elsewhere_def v1)
  qed
  have "delete_board_keys E b w = e_write E (unlist_commands b) w1"
    by (simp add: delete_board_keys_def Let_def keys_def w1_def)
  then show ?thesis
    using unlist_view[of "view w1" b] gone same same_elsewhere_unlist[of b "view w1"] same_elsewhere_trans
    by (simp only: written) blast
qed

lemma acquireEvictionLock_view:
  assumes "acquireEvictionLock E b w = (r, w')"
  shows "if v_strs (view w) (boardEvictionLockKey b) = None
    then \<exists>token. r = Some token \<and> view w' = (view w)\<lparr>v_strs := (v_strs (view w))(boardEvictionLockKey b \<mapsto>
        (token, Some (v_now (view w) + BOARD_EVICTION_LOCK_TTL_MS)))\<rparr>
    else r = None \<and> view w' = view w"
proof -
  let ?k = "boardEvictionLockKey b" and ?ttl = BOARD_EVICTION_LOCK_TTL_MS
  obtain hex w1 where u: "e_random_hex E w = (hex, w1)" by (cases "e_random_hex E w")
  let ?token = "dec (e_now E w1) @ ''-'' @ hex"
  obtain ok w2 where s: "e_set_nx_px E ?k ?token ?ttl w1 = (ok, w2)" by (cases "e_set_nx_px E ?k ?token ?ttl w1")
  have v1: "view w1 = view w" using random_hex(1)[of w] u by simp
  have ok: "ok = (v_strs (view w) ?k = None)" using set_nx_reply[of ?k ?token ?ttl w1] s v1 by simp
  have v2: "view w2 = (if v_strs (view w) ?k = None then redis_step (SET_PX ?k ?token ?ttl) (view w) else view w)"
    using set_nx[of ?k ?token ?ttl w1] unfolding s v1 snd_conv .
  have r: "r = (if ok then Some ?token else None)" "w' = w2"
    using assms u s by (auto simp: acquireEvictionLock_def Let_def)
  show ?thesis
  proof (cases "v_strs (view w) ?k = None")
    case True
    then show ?thesis using ok v2 r by (simp add: BOARD_EVICTION_LOCK_TTL_MS_def)
  next
    case False
    then show ?thesis using ok v2 r by (simp only: if_False)
  qed
qed

lemma flushBoard_locked:
  assumes "v_strs (view w) (boardEvictionLockKey b) \<noteq> None"
  shows "view (flushBoard E b idle w) = view w"
proof -
  obtain r w1 where a: "acquireEvictionLock E b w = (r, w1)" by (cases "acquireEvictionLock E b w")
  then show ?thesis using acquireEvictionLock_view[OF a] assms by (auto simp: flushBoard_def split: if_splits)
qed

lemma flushBoard_free:
  assumes "v_strs (view w) (boardEvictionLockKey b) = None" "CHR ''*'' \<notin> set b"
  shows "board_gone b (view (flushBoard E b False w)) \<and>
    same_elsewhere b (view w) (view (flushBoard E b False w))"
proof -
  obtain r w1 where a: "acquireEvictionLock E b w = (r, w1)" by (cases "acquireEvictionLock E b w")
  obtain token where t: "r = Some token" "view w1 = (view w)\<lparr>v_strs := (v_strs (view w))(boardEvictionLockKey b \<mapsto>
        (token, Some (v_now (view w) + BOARD_EVICTION_LOCK_TTL_MS)))\<rparr>"
    using acquireEvictionLock_view[OF a] assms(1) by auto
  let ?w2 = "delete_board_keys E b w1"
  note d = delete_keys_view[OF assms(2), of w1]
  have "v_strs (view ?w2) (boardEvictionLockKey b) = None"
    using d unfolding board_gone_def key_present_def boardEvictionLockKey_def by blast
  then have "view (releaseEvictionLock E b token ?w2) = view ?w2"
    by (simp add: releaseEvictionLock_def del_if_equal)
  moreover have "flushBoard E b False w = releaseEvictionLock E b token ?w2"
    by (simp add: flushBoard_def a t(1))
  moreover have "same_elsewhere b (view w) (view w1)"
    by (simp add: same_elsewhere_def t(2) boardEvictionLockKey_def)
  ultimately show ?thesis using d same_elsewhere_trans by auto
qed

lemma flushBoard_busy:
  assumes "v_strs (view w) (boardEvictionLockKey b) = None"
    "v_set (view w) (boardClientsKey b) \<noteq> {} \<or>
     (\<exists>s sc. v_zset (view w) (boardViewerSessionsKey b) s = Some sc \<and> v_now (view w) - VIEWER_SESSION_TTL_MS < sc)"
  shows "v_strs (view (flushBoard E b True w)) = v_strs (view w) \<and>
    v_hash (view (flushBoard E b True w)) (boardElementsKey b) = v_hash (view w) (boardElementsKey b) \<and>
    marks b (view (flushBoard E b True w)) = marks b (view w)"
proof -
  obtain r w1 where a: "acquireEvictionLock E b w = (r, w1)" by (cases "acquireEvictionLock E b w")
  obtain token where t: "r = Some token" "view w1 = (view w)\<lparr>v_strs := (v_strs (view w))(boardEvictionLockKey b \<mapsto>
        (token, Some (v_now (view w) + BOARD_EVICTION_LOCK_TTL_MS)))\<rparr>"
    using acquireEvictionLock_view[OF a] assms(1) by auto
  let ?w2 = "e_write E [ZREMRANGEBYSCORE (boardViewerSessionsKey b) 0 (e_now E w1 - VIEWER_SESSION_TTL_MS)] w1"
  have v2: "v_strs (view ?w2) = v_strs (view w1)" "v_hash (view ?w2) = v_hash (view w)"
    "v_set (view ?w2) = v_set (view w)" by (simp_all add: written t(2))
  have "isBoardIdleForFlush E b w1 = (False, ?w2)"
  proof -
    have "e_scard E (boardClientsKey b) ?w2 \<noteq> 0 \<or> e_zcard E (boardViewerSessionsKey b) ?w2 \<noteq> 0"
      using assms(2)
    proof
      assume "v_set (view w) (boardClientsKey b) \<noteq> {}"
      moreover have "finite (v_set (view ?w2) (boardClientsKey b))" by (rule finite_rset)
      ultimately show ?thesis by (simp add: scard v2)
    next
      assume "\<exists>s sc. v_zset (view w) (boardViewerSessionsKey b) s = Some sc \<and> v_now (view w) - VIEWER_SESSION_TTL_MS < sc"
      then obtain s sc where "v_zset (view w) (boardViewerSessionsKey b) s = Some sc"
        "v_now (view w) - VIEWER_SESSION_TTL_MS < sc" by blast
      then have "s \<in> dom (v_zset (view ?w2) (boardViewerSessionsKey b))"
        by (auto simp: written now t(2))
      then have "card (dom (v_zset (view ?w2) (boardViewerSessionsKey b))) \<noteq> 0"
        using zcard(1)[of ?w2 "boardViewerSessionsKey b"] by auto
      then show ?thesis by (simp add: zcard(2))
    qed
    then show ?thesis by (simp add: isBoardIdleForFlush_def Let_def)
  qed
  then have run: "flushBoard E b True w = releaseEvictionLock E b token ?w2"
    by (simp add: flushBoard_def a t(1))
  have "view (releaseEvictionLock E b token ?w2) = redis_step (DEL [boardEvictionLockKey b]) (view ?w2)"
    unfolding releaseEvictionLock_def del_if_equal v2 t(2) by simp
  then show ?thesis unfolding run
    using v2 assms(1) by (auto simp: t(2) marks_def key_defs fun_eq_iff)
qed

end

section \<open>Rows and elements\<close>

lemma element_columns_get:
  "js_get k (element_columns e) = (if k \<in> {''id'', ''kind'', ''updatedAt''} then None else js_get k e)"
  by (induction e) (auto simp: element_columns_def)

lemma distinct_element_columns: "distinct (map fst e) \<Longrightarrow> distinct (map fst (element_columns e))"
  unfolding element_columns_def by (rule distinct_map_filter)

lemma persist_boards_subseq:
  "persist_boards E inc opts bs w = Some (ok, w') \<Longrightarrow> distinct bs \<Longrightarrow>
   length ok \<le> length bs \<and> distinct ok \<and> set ok \<subseteq> set bs"
proof (induction E inc opts bs w arbitrary: ok w' rule: persist_boards.induct)
  case (1 E inc opts w)
  then show ?case by simp
next
  case (2 E inc opts b bs w)
  show ?case
  proof (cases "case getDirtySince E b w of None \<Rightarrow> False | Some t \<Rightarrow> t > 0 \<and> e_now E w - t < po_minDirtyAgeMs opts")
    case True
    then have "persist_boards E inc opts bs w = Some (ok, w')" using 2(3) by (simp split: option.splits)
    from 2(1)[OF True this] 2(4) show ?thesis by auto
  next
    case False
    then obtain ok1 w1 rest where p1:
      "persist_with_retry E inc b (po_retryDelayMs opts) (po_retryAttempts opts) w = Some (ok1, w1)"
      "persist_boards E inc opts bs w1 = Some (rest, w')" "ok = (if ok1 then b # rest else rest)"
      using 2(3) by (auto simp: bind_eq_Some_conv split: option.splits)
    have "length rest \<le> length bs \<and> distinct rest \<and> set rest \<subseteq> set bs"
      using 2(2)[OF False p1(1) refl p1(2)] 2(4) by simp
    then show ?thesis using p1(3) 2(4) by auto
  qed
qed

section \<open>Properties\<close>

text \<open>C5: Saving a board. On a loaded board in good order the outcome of \<open>persistBoard\<close> (incremental mode) is
  decided by what the database answers to its two questions, the query for the board and the transaction of this
  run. The board exists and the transaction commits: the board is saved, so that Postgres holds exactly the elements
  of Redis for this board, no mark is left and the last flushed sequence is the board's sequence. The board does not
  exist, or the error of the query or of the transaction says that there is no such board or no such id: the board is
  evicted. Any other error of either is handed on, and nothing has changed, so the marks are there for the next
  attempt.\<close>

theorem persistBoard_outcomes:
  assumes "services E view" "isUuidLike b" "board_ready E b w" "v_strs (view w) (boardSeqKey b) \<noteq> None"
    and "marked_inv b (view w)" "wf_elements b (view w)" "[] \<notin> marks b (view w)"
    and "persistBoardIncremental E b (v_now (view w)) w = (c, w1)"
  shows "case e_select_boards E b w of
      Inl err \<Rightarrow> persistBoard E True b w = Some (if isInvalidUuidError err
        then (Inr (), flushBoard E b False (flushBoard E b False w)) else (Inl err, w))
    | Inr [] \<Rightarrow> persistBoard E True b w = Some (Inr (), flushBoard E b False w)
    | Inr (_ # _) \<Rightarrow> (case c of
        Inr counts \<Rightarrow> \<exists>w'. persistBoard E True b w = Some (Inr (), w') \<and> saved_state b (view w) (view w')
      | Inl err \<Rightarrow> view w1 = view w \<and> persistBoard E True b w = Some (if flush_refused err
          then (Inr (), flushBoard E b False w1) else (Inl err, w1)))"
  using assms by (rule services.persistBoard_cases)

definition uuid_a :: string where
  "uuid_a = ''0b9bd3a2-9a1e-4c67-8e0f-2f3d1c5b7a90''"

lemma uuid_a_ok: "isUuidLike uuid_a"
  by (simp add: isUuidLike_def uuid_a_def uuid_pattern_def is_hex_def numeral_eq_Suc)

definition unsaved_world :: mem where
  "unsaved_world = mem0\<lparr>m_boards := [(uuid_a, 7)],
     m_strs := [(boardSeqKey uuid_a, (''3'', None)), (boardMutationLockKey uuid_a, (''t1'', Some 1020000))],
     m_hash := [(boardElementsKey uuid_a, [(''n'', JObj [(''id'', JStr ''n''), (''x'', JNum 1)])])],
     m_set := [(boardDirtyElementIdsKey uuid_a, [''n'']), (DIRTY_BOARDS_KEY, [uuid_a])],
     m_zset := [(DIRTY_BOARDS_BY_AGE_KEY, [(uuid_a, 5)])],
     m_rows := [\<lparr>row_id = ''n'', row_board = ''other'', row_type = JNull, row_data = [], row_updated = None\<rparr>]\<rparr>"

lemma unsaved_world_ok:
  "board_ready mem_env uuid_a unsaved_world" "v_strs (mem_view unsaved_world) (boardSeqKey uuid_a) \<noteq> None"
  "marked_inv uuid_a (mem_view unsaved_world)" "wf_elements uuid_a (mem_view unsaved_world)"
  "[] \<notin> marks uuid_a (mem_view unsaved_world)"
  by (auto simp: mem.board_ready_view marked_inv_def marks_def wf_elements_def synced_def unsaved_world_def
        mem_str_eval key_defs rows_map_def el_id_def string_field_def)

theorem persistBoard_outcomes_witness:
  "\<exists>w'. persistBoard mem_env True uuid_a unsaved_world = Some (Inr (), w') \<and>
     saved_state uuid_a (mem_view unsaved_world) (mem_view w')"
proof -
  have f: "m_fail unsaved_world = None" by (simp add: unsaved_world_def)
  obtain counts w1 where c: "persistBoardIncremental mem_env uuid_a (v_now (mem_view unsaved_world)) unsaved_world = (Inr counts, w1)"
    by (cases "flush_read mem_env uuid_a (v_now (mem_view unsaved_world)) unsaved_world")
       (auto simp: persistBoardIncremental_def flush_commit_def f)
  have "e_select_boards mem_env uuid_a unsaved_world = Inr [uuid_a]"
    by (simp add: unsaved_world_def uuid_a_def)
  then show ?thesis
    using persistBoard_outcomes[OF mem.services_axioms uuid_a_ok unsaved_world_ok c] by simp
qed

text \<open>Evicting a board. When nobody else evicts it, \<open>flushBoard\<close> deletes every key of the board and
  takes it out of the three indexes, and it touches nothing else: no key of another board, no index
  entry of another board, no row.\<close>

theorem flushBoard_evicts:
  assumes "redis_client E view" "v_strs (view w) (boardEvictionLockKey b) = None" "CHR ''*'' \<notin> set b"
  shows "board_gone b (view (flushBoard E b False w)) \<and> same_elsewhere b (view w) (view (flushBoard E b False w))"
  using assms by (rule redis_client.flushBoard_free)

theorem flushBoard_evicts_witness:
  "board_gone uuid_a (mem_view (flushBoard mem_env uuid_a False unsaved_world)) \<and>
   same_elsewhere uuid_a (mem_view unsaved_world) (mem_view (flushBoard mem_env uuid_a False unsaved_world))"
  by (rule flushBoard_evicts[OF mem.redis_client_axioms])
     (simp add: unsaved_world_def mem_str_eval key_defs, simp add: uuid_a_def)

text \<open>The idle eviction spares a board in use: with a client or a recently seen viewer on the board,
  \<open>flushBoard\<close> with \<open>requireIdle\<close> leaves its elements, its marks and all its string keys, and gives
  the eviction lock back.\<close>

theorem flushBoard_spares_busy_board:
  assumes "redis_client E view" "v_strs (view w) (boardEvictionLockKey b) = None"
    and "v_set (view w) (boardClientsKey b) \<noteq> {} \<or>
     (\<exists>s sc. v_zset (view w) (boardViewerSessionsKey b) s = Some sc \<and> v_now (view w) - VIEWER_SESSION_TTL_MS < sc)"
  shows "v_strs (view (flushBoard E b True w)) = v_strs (view w) \<and>
    v_hash (view (flushBoard E b True w)) (boardElementsKey b) = v_hash (view w) (boardElementsKey b) \<and>
    marks b (view (flushBoard E b True w)) = marks b (view w)"
  using assms by (rule redis_client.flushBoard_busy)

definition viewed_world :: mem where
  "viewed_world = unsaved_world\<lparr>m_zset := [(boardViewerSessionsKey uuid_a, [(''s1'', 990000)])]\<rparr>"

theorem flushBoard_spares_busy_board_witness:
  "v_strs (mem_view (flushBoard mem_env uuid_a True viewed_world)) = v_strs (mem_view viewed_world) \<and>
   v_hash (mem_view (flushBoard mem_env uuid_a True viewed_world)) (boardElementsKey uuid_a) =
     v_hash (mem_view viewed_world) (boardElementsKey uuid_a) \<and>
   marks uuid_a (mem_view (flushBoard mem_env uuid_a True viewed_world)) = marks uuid_a (mem_view viewed_world)"
  by (rule flushBoard_spares_busy_board[OF mem.redis_client_axioms])
     (simp_all add: viewed_world_def unsaved_world_def mem_str_eval key_defs VIEWER_SESSION_TTL_MS_def)

text \<open>An eviction does not look at the marks. An idle board with an unsaved element is deleted by
  \<open>flushBoard\<close> all the same: afterwards nothing marks the element and Postgres does not have it.\<close>

theorem flushBoard_discards_unsaved:
  assumes "redis_client E view" "v_strs (view w) (boardEvictionLockKey b) = None" "CHR ''*'' \<notin> set b"
    and "i \<in> marks b (view w)" "v_rows (view w) i = None"
  shows "marks b (view (flushBoard E b False w)) = {} \<and>
    v_hash (view (flushBoard E b False w)) (boardElementsKey b) = Map.empty \<and>
    v_rows (view (flushBoard E b False w)) i = None"
  using redis_client.flushBoard_free[OF assms(1-3)] assms(5)
  by (simp add: board_gone_def same_elsewhere_def key_present_def marks_def key_defs)

theorem flushBoard_discards_unsaved_witness:
  "marks uuid_a (mem_view (flushBoard mem_env uuid_a False (unsaved_world\<lparr>m_rows := []\<rparr>))) = {} \<and>
   v_hash (mem_view (flushBoard mem_env uuid_a False (unsaved_world\<lparr>m_rows := []\<rparr>))) (boardElementsKey uuid_a) = Map.empty \<and>
   v_rows (mem_view (flushBoard mem_env uuid_a False (unsaved_world\<lparr>m_rows := []\<rparr>))) ''n'' = None"
  by (rule flushBoard_discards_unsaved[OF mem.redis_client_axioms])
     (simp_all add: unsaved_world_def mem_str_eval key_defs marks_def rows_map_def, simp add: uuid_a_def)

text \<open>The primary key of \<open>elements\<close> is the element id alone. When the batch of a board commits and
  one of its dirty elements has an id whose row belongs to another board, that row now belongs to
  this board: the other board has lost it.\<close>

theorem flush_commit_takes_foreign_row:
  assumes "services E view" "marked_inv b (view w)" "wf_elements b (view w)" "[] \<notin> marks b (view w)"
    and "flush_commit E b ts (flush_read E b ts w) w = (Inr counts, w')"
    and "v_rows (view w) i = Some r" "row_board r = c" "c \<noteq> b"
    and "v_hash (view w) (boardElementsKey b) i = Some j"
  shows "\<exists>r'. v_rows (view w') i = Some r' \<and> row_board r' = b"
  using services.flush_commit_ok[OF assms(1) refl assms(2-5)] assms(9)
  by (auto simp: all_synced_def synced_def dest!: spec[of _ i])

theorem flush_commit_takes_foreign_row_witness:
  "\<exists>r'. v_rows (mem_view (snd (flush_commit mem_env uuid_a 9 (flush_read mem_env uuid_a 9 unsaved_world) unsaved_world))) ''n''
     = Some r' \<and> row_board r' = uuid_a"
proof -
  have f: "m_fail unsaved_world = None" by (simp add: unsaved_world_def)
  obtain counts w' where c: "flush_commit mem_env uuid_a 9 (flush_read mem_env uuid_a 9 unsaved_world) unsaved_world
      = (Inr counts, w')"
    by (cases "flush_read mem_env uuid_a 9 unsaved_world") (auto simp: flush_commit_def f)
  show ?thesis
    unfolding c snd_conv
    by (rule flush_commit_takes_foreign_row[OF mem.services_axioms unsaved_world_ok(3-5) c, where c="''other''" and r="hd (m_rows unsaved_world)"])
       (simp_all add: unsaved_world_def rows_map_def key_defs uuid_a_def)
qed

text \<open>C35: Round trip of an element through Postgres. The element that \<open>loadBoard\<close> builds from the row
  that \<open>toElementRow\<close> made has every property of the original, and the time of the save as
  \<open>updatedAt\<close>.\<close>

theorem element_row_roundtrip:
  assumes "distinct (map fst e)" "js_get ''id'' e = Some (JStr i)" "js_get ''kind'' e = Some k"
  shows "js_get p (dbRowToBoardElement now (toElementRow b e ts)) =
    (if p = ''updatedAt'' then Some (js_int ts) else js_get p e)"
  using assms
  by (simp add: dbRow_get distinct_element_columns toElementRow_def element_columns_get element_kind_def
      el_id_def string_field_def split: option.split)

theorem element_row_roundtrip_witness:
  "js_get ''x'' (dbRowToBoardElement 0 (toElementRow ''b1''
     [(''id'', JStr ''n''), (''kind'', JStr ''NOTE''), (''x'', JNum 4)] 77)) = Some (JNum 4)"
  using element_row_roundtrip[of "[(''id'', JStr ''n''), (''kind'', JStr ''NOTE''), (''x'', JNum 4)]" "''n''" "JStr ''NOTE''"
    "''x''" 0 "''b1''" 77] by simp

text \<open>One run of the flush job reports no board twice, at most as many as its limit, and only boards
  that the dirty index lists as old enough.\<close>

theorem persistDirtyBoards_bounds:
  assumes "redis_client E view" "persistDirtyBoards E inc opts w = Some (ok, w')"
  shows "distinct ok \<and> length ok \<le> po_limit opts \<and>
    (\<forall>b. b \<in> set ok \<longrightarrow> (\<exists>t. v_zset (view w) DIRTY_BOARDS_BY_AGE_KEY b = Some t \<and>
       (0 < po_minDirtyAgeMs opts \<longrightarrow> t \<le> v_now (view w) - po_minDirtyAgeMs opts)))"
proof -
  let ?hi = "if po_minDirtyAgeMs opts > 0 then Some (e_now E w - po_minDirtyAgeMs opts) else None"
  obtain xs where xs: "distinct xs" "set xs = {m. \<exists>sc. v_zset (view w) DIRTY_BOARDS_BY_AGE_KEY m = Some sc \<and>
      (case ?hi of None \<Rightarrow> True | Some h \<Rightarrow> sc \<le> h)}"
    "e_zrangebyscore E DIRTY_BOARDS_BY_AGE_KEY ?hi (po_limit opts) w = take (po_limit opts) xs"
    using redis_client.zrange[OF assms(1), of w DIRTY_BOARDS_BY_AGE_KEY ?hi "po_limit opts"] by blast
  have "persist_boards E inc opts (take (po_limit opts) xs) w = Some (ok, w')"
    using assms(2) by (simp only: persistDirtyBoards_def Let_def xs(3))
  from persist_boards_subseq[OF this] xs(1)
  have sub: "length ok \<le> length (take (po_limit opts) xs)" "distinct ok" "set ok \<subseteq> set (take (po_limit opts) xs)"
    by auto
  have "set ok \<subseteq> set xs" using sub(3) set_take_subset[of "po_limit opts" xs] by blast
  then show ?thesis
    using sub(1,2) xs(2) redis_client.now[OF assms(1), of w] by (auto split: if_splits)
qed

theorem persistDirtyBoards_bounds_witness:
  "distinct ([] :: string list) \<and> length ([] :: string list) \<le> po_limit (persist_limit 5)"
  using persistDirtyBoards_bounds[OF mem.redis_client_axioms, of False "persist_limit 5" mem0 "[]" mem0]
  by (simp add: persistDirtyBoards_def persist_limit_def mem_range_def)

end
