(* ===== verification/Presence.thy ===== *)
theory Presence
  imports Board_Load
begin

text \<open>
  Who is on a board (\<open>board-state/presence-domain.ts\<close>): the client set with one lease key per
  client, the viewer sessions scored by their last sign of life, and the marker that keeps a
  board in collaborative write mode. The lemmas characterise the counts after pruning and the
  solo/collab decision that chooses between immediate and deferred persistence.
\<close>

datatype sync_mode = Solo | Collab

section \<open>Operations\<close>

definition extendCollabMode :: "'w env \<Rightarrow> string \<Rightarrow> 'w \<Rightarrow> 'w" where
  "extendCollabMode E b w =
     e_write E [SET_PX (boardCollabModeUntilKey b) (dec (e_now E w + COLLAB_MODE_COOLDOWN_MS))
       COLLAB_MODE_COOLDOWN_MS] w"

definition extendCollabModeIfNeeded :: "'w env \<Rightarrow> string \<Rightarrow> nat \<Rightarrow> 'w \<Rightarrow> 'w" where
  "extendCollabModeIfNeeded E b participantCount w =
     (if participantCount \<ge> 2 then extendCollabMode E b w else w)"

definition collab_marker_live :: "'w env \<Rightarrow> string \<Rightarrow> 'w \<Rightarrow> bool" where
  \<comment> \<open>\<open>collabUntilRaw\<close> is set, parses to a finite number and lies in the future\<close>
  "collab_marker_live E b w = (case e_get E (boardCollabModeUntilKey b) w of
     None \<Rightarrow> False
   | Some raw \<Rightarrow> raw \<noteq> [] \<and> (case parse_int raw of None \<Rightarrow> False | Some t \<Rightarrow> t > e_now E w))"

definition pruneStaleClients :: "'w env \<Rightarrow> string \<Rightarrow> 'w \<Rightarrow> 'w" where
  "pruneStaleClients E b w =
     (let members = e_smembers E (boardClientsKey b) w in
      if members = [] then w
      else let stale = filter (\<lambda>m. m \<noteq> [] \<and> \<not> e_exists E (boardClientLeaseKey b m) w) members in
        if stale \<noteq> [] then e_write E [SREM (boardClientsKey b) stale] w else w)"

definition getClientCount :: "'w env \<Rightarrow> string \<Rightarrow> 'w \<Rightarrow> (nat \<times> 'w) option" where
  "getClientCount E b w = do {
     w \<leftarrow> waitForBoardLoad E b w;
     let w = pruneStaleClients E b w;
     Some (e_scard E (boardClientsKey b) w, w)
   }"

definition getActiveViewerCount :: "'w env \<Rightarrow> string \<Rightarrow> 'w \<Rightarrow> (nat \<times> 'w) option" where
  "getActiveViewerCount E b w = do {
     w \<leftarrow> waitForBoardLoad E b w;
     let w = e_write E [ZREMRANGEBYSCORE (boardViewerSessionsKey b) 0 (e_now E w - VIEWER_SESSION_TTL_MS)] w;
     Some (e_zcard E (boardViewerSessionsKey b) w, w)
   }"

definition rearmCollabModeIfActive :: "'w env \<Rightarrow> string \<Rightarrow> 'w \<Rightarrow> 'w option" where
  "rearmCollabModeIfActive E b w =
     (if collab_marker_live E b w then Some (extendCollabMode E b w)
      else do {
        (clientCount, w) \<leftarrow> getClientCount E b w;
        (viewerCount, w) \<leftarrow> getActiveViewerCount E b w;
        Some (if clientCount \<ge> 2 \<or> viewerCount \<ge> 2 then extendCollabMode E b w else w)
      })"

definition trackClient :: "'w env \<Rightarrow> string \<Rightarrow> string \<Rightarrow> string \<Rightarrow> 'w \<Rightarrow> 'w option" where
  "trackClient E b userId connectionId w = do {
     w \<leftarrow> waitForBoardLoad E b w;
     let m = clientMember userId connectionId;
     let w = e_write E [SADD (boardClientsKey b) [m],
       SET_PX (boardClientLeaseKey b m) ''1'' (CLIENT_LEASE_TTL_SECONDS * 1000),
       SADD ACTIVE_BOARDS_KEY [b]] w;
     Some (extendCollabModeIfNeeded E b (e_scard E (boardClientsKey b) w) w)
   }"

definition removeClient :: "'w env \<Rightarrow> string \<Rightarrow> string \<Rightarrow> string \<Rightarrow> 'w \<Rightarrow> 'w option" where
  "removeClient E b userId connectionId w = do {
     w \<leftarrow> waitForBoardLoad E b w;
     let m = clientMember userId connectionId;
     Some (e_write E [SREM (boardClientsKey b) [m], DEL [boardClientLeaseKey b m]] w)
   }"

definition touchViewerSession :: "'w env \<Rightarrow> string \<Rightarrow> string \<Rightarrow> 'w \<Rightarrow> 'w option" where
  "touchViewerSession E b sessionId w = do {
     w \<leftarrow> waitForBoardLoad E b w;
     let now = e_now E w;
     let w = e_write E [ZADD (boardViewerSessionsKey b) now sessionId,
       ZREMRANGEBYSCORE (boardViewerSessionsKey b) 0 (now - VIEWER_SESSION_TTL_MS),
       SET (boardLastActiveKey b) (dec now),
       SADD ACTIVE_BOARDS_KEY [b]] w;
     Some (extendCollabModeIfNeeded E b (e_zcard E (boardViewerSessionsKey b) w) w)
   }"

definition removeViewerSession :: "'w env \<Rightarrow> string \<Rightarrow> string \<Rightarrow> 'w \<Rightarrow> 'w option" where
  "removeViewerSession E b sessionId w = do {
     w \<leftarrow> waitForBoardLoad E b w;
     Some (e_write E [ZREM (boardViewerSessionsKey b) [sessionId]] w)
   }"

definition touchLastActive :: "'w env \<Rightarrow> string \<Rightarrow> 'w \<Rightarrow> 'w option" where
  "touchLastActive E b w = do {
     w \<leftarrow> waitForBoardLoad E b w;
     Some (e_write E [SET (boardLastActiveKey b) (dec (e_now E w)), SADD ACTIVE_BOARDS_KEY [b]] w)
   }"

definition getSyncWriteMode :: "'w env \<Rightarrow> string \<Rightarrow> 'w \<Rightarrow> (sync_mode \<times> 'w) option" where
  "getSyncWriteMode E b w = do {
     w \<leftarrow> waitForBoardLoad E b w;
     if collab_marker_live E b w then Some (Collab, w)
     else do {
       (clientCount, w) \<leftarrow> getClientCount E b w;
       (viewerCount, w) \<leftarrow> getActiveViewerCount E b w;
       Some (if clientCount \<ge> 2 \<or> viewerCount \<ge> 2 then (Collab, extendCollabMode E b w) else (Solo, w))
     }
   }"

section \<open>What the counts mean\<close>

definition live_clients :: "string \<Rightarrow> rview \<Rightarrow> string set" where
  "live_clients b v = {m \<in> v_set v (boardClientsKey b). m = [] \<or> v_strs v (boardClientLeaseKey b m) \<noteq> None}"

definition active_viewers :: "string \<Rightarrow> rview \<Rightarrow> string set" where
  "active_viewers b v = {s. \<exists>sc. v_zset v (boardViewerSessionsKey b) s = Some sc \<and>
     \<not> (0 \<le> sc \<and> sc \<le> v_now v - VIEWER_SESSION_TTL_MS)}"

definition marker_live :: "string \<Rightarrow> rview \<Rightarrow> bool" where
  "marker_live b v = (\<exists>raw e t. v_strs v (boardCollabModeUntilKey b) = Some (raw, e) \<and>
     parse_int raw = Some t \<and> v_now v < t)"

definition collab_active :: "string \<Rightarrow> rview \<Rightarrow> bool" where
  "collab_active b v = (marker_live b v \<or> 2 \<le> card (live_clients b v) \<or> 2 \<le> card (active_viewers b v))"

lemma parse_int_Nil [simp]: "parse_int [] = None"
  by (simp add: parse_int_def)

context redis_client
begin

lemma collab_marker_view: "collab_marker_live E b w = marker_live b (view w)"
  by (auto simp: collab_marker_live_def marker_live_def get now split: option.splits)

lemma pruneStaleClients_view:
  "view (pruneStaleClients E b w) =
   (view w)\<lparr>v_set := (v_set (view w))(boardClientsKey b := live_clients b (view w))\<rparr>"
proof -
  let ?ms = "e_smembers E (boardClientsKey b) w"
  let ?st = "filter (\<lambda>m. m \<noteq> [] \<and> \<not> e_exists E (boardClientLeaseKey b m) w) ?ms"
  have live: "live_clients b (view w) = v_set (view w) (boardClientsKey b) - set ?st"
    using smembers(1)[of "boardClientsKey b" w] by (auto simp: live_clients_def exists_str)
  show ?thesis
  proof (cases "?st = []")
    case True
    then have "pruneStaleClients E b w = w" by (simp add: pruneStaleClients_def Let_def)
    moreover have "live_clients b (view w) = v_set (view w) (boardClientsKey b)" using live True by simp
    ultimately show ?thesis by simp
  next
    case False
    then have "?ms \<noteq> []" by auto
    then have "pruneStaleClients E b w = e_write E [SREM (boardClientsKey b) ?st] w"
      using False unfolding pruneStaleClients_def Let_def by simp
    then show ?thesis by (simp only: written live) simp
  qed
qed

lemma client_count_ready:
  assumes "board_ready E b w"
  shows "\<exists>w'. getClientCount E b w = Some (card (live_clients b (view w)), w') \<and>
    view w' = (view w)\<lparr>v_set := (v_set (view w))(boardClientsKey b := live_clients b (view w))\<rparr>"
  using assms
  by (simp add: getClientCount_def waitForBoardLoad_ready scard pruneStaleClients_view)

lemma viewers_pruned:
  "view (e_write E [ZREMRANGEBYSCORE (boardViewerSessionsKey b) 0 (e_now E w - VIEWER_SESSION_TTL_MS)] w) =
   (view w)\<lparr>v_zset := (v_zset (view w))(boardViewerSessionsKey b :=
      v_zset (view w) (boardViewerSessionsKey b) |` active_viewers b (view w))\<rparr>"
  by (auto simp: written now active_viewers_def restrict_map_def fun_eq_iff
      intro!: rview.equality split: option.splits)

lemma viewer_count_ready:
  assumes "board_ready E b w"
  shows "\<exists>w'. getActiveViewerCount E b w = Some (card (active_viewers b (view w)), w') \<and>
    view w' = (view w)\<lparr>v_zset := (v_zset (view w))(boardViewerSessionsKey b :=
      v_zset (view w) (boardViewerSessionsKey b) |` active_viewers b (view w))\<rparr>"
proof -
  have "dom (v_zset (view w) (boardViewerSessionsKey b) |` active_viewers b (view w)) = active_viewers b (view w)"
    by (auto simp: active_viewers_def)
  then show ?thesis
    using assms by (simp add: getActiveViewerCount_def waitForBoardLoad_ready zcard viewers_pruned del: dom_restrict)
qed

lemma ready_same_strs:
  assumes "board_ready E b w" "v_strs (view w') = v_strs (view w)"
  shows "board_ready E b w'"
  using assms by (simp only: board_ready_view)

lemma extendCollabMode_view:
  "view (extendCollabMode E b w) = (view w)\<lparr>v_strs := (v_strs (view w))(boardCollabModeUntilKey b \<mapsto>
     (dec (v_now (view w) + COLLAB_MODE_COOLDOWN_MS), Some (v_now (view w) + COLLAB_MODE_COOLDOWN_MS)))\<rparr>"
  by (simp add: extendCollabMode_def written now COLLAB_MODE_COOLDOWN_MS_def)

lemma probe_ready:
  assumes "board_ready E b w"
  shows "\<exists>w1 w2. getClientCount E b w = Some (card (live_clients b (view w)), w1) \<and>
    getActiveViewerCount E b w1 = Some (card (active_viewers b (view w)), w2) \<and>
    view w2 = (view w)\<lparr>v_set := (v_set (view w))(boardClientsKey b := live_clients b (view w)),
      v_zset := (v_zset (view w))(boardViewerSessionsKey b :=
        v_zset (view w) (boardViewerSessionsKey b) |` active_viewers b (view w))\<rparr>"
proof -
  obtain w1 where w1: "getClientCount E b w = Some (card (live_clients b (view w)), w1)"
    "view w1 = (view w)\<lparr>v_set := (v_set (view w))(boardClientsKey b := live_clients b (view w))\<rparr>"
    using client_count_ready[OF assms] by blast
  have r1: "board_ready E b w1" using w1(2) by (intro ready_same_strs[OF assms]) simp
  have av: "active_viewers b (view w1) = active_viewers b (view w)" by (simp add: active_viewers_def w1(2))
  obtain w2 where "getActiveViewerCount E b w1 = Some (card (active_viewers b (view w)), w2)"
    "view w2 = (view w1)\<lparr>v_zset := (v_zset (view w1))(boardViewerSessionsKey b :=
      v_zset (view w1) (boardViewerSessionsKey b) |` active_viewers b (view w))\<rparr>"
    using viewer_count_ready[OF r1] av by auto
  then show ?thesis using w1 by auto
qed

lemma write_mode_ready:
  assumes "board_ready E b w"
  shows "\<exists>w'. getSyncWriteMode E b w =
      Some (if collab_active b (view w) then Collab else Solo, w') \<and>
    board_ready E b w' \<and> v_rows (view w') = v_rows (view w) \<and> v_now (view w') = v_now (view w) \<and>
    v_hash (view w') = v_hash (view w) \<and> v_list (view w') = v_list (view w) \<and>
    (\<forall>k. k \<noteq> boardCollabModeUntilKey b \<longrightarrow> v_strs (view w') k = v_strs (view w) k) \<and>
    (\<forall>k. k \<noteq> boardClientsKey b \<longrightarrow> v_set (view w') k = v_set (view w) k) \<and>
    (\<forall>k. k \<noteq> boardViewerSessionsKey b \<longrightarrow> v_zset (view w') k = v_zset (view w) k) \<and>
    (collab_active b (view w) \<longleftrightarrow> marker_live b (view w'))"
proof (cases "marker_live b (view w)")
  case True
  then show ?thesis
    using assms by (intro exI[of _ w]) (simp add: getSyncWriteMode_def waitForBoardLoad_ready collab_marker_view collab_active_def)
next
  case False
  obtain w1 w2 where p: "getClientCount E b w = Some (card (live_clients b (view w)), w1)"
    "getActiveViewerCount E b w1 = Some (card (active_viewers b (view w)), w2)"
    "view w2 = (view w)\<lparr>v_set := (v_set (view w))(boardClientsKey b := live_clients b (view w)),
      v_zset := (v_zset (view w))(boardViewerSessionsKey b :=
        v_zset (view w) (boardViewerSessionsKey b) |` active_viewers b (view w))\<rparr>"
    using probe_ready[OF assms] by blast
  have r2: "board_ready E b w2" using p(3) by (intro ready_same_strs[OF assms]) simp
  let ?many = "2 \<le> card (live_clients b (view w)) \<or> 2 \<le> card (active_viewers b (view w))"
  let ?w' = "if ?many then extendCollabMode E b w2 else w2"
  have "getSyncWriteMode E b w = Some (if ?many then Collab else Solo, ?w')"
    using False assms p(1,2) by (simp add: getSyncWriteMode_def waitForBoardLoad_ready collab_marker_view)
  moreover have "collab_active b (view w) = ?many" using False by (simp add: collab_active_def)
  moreover have "board_ready E b ?w'"
    using r2 by (simp add: board_ready_view extendCollabMode_view key_defs)
  moreover have "marker_live b (view ?w') = ?many"
    using False p(3) by (simp add: extendCollabMode_view marker_live_def COLLAB_MODE_COOLDOWN_MS_def)
  ultimately show ?thesis using p(3) by (intro exI[of _ ?w']) (simp add: extendCollabMode_view)
qed

lemma rearm_ready:
  assumes "board_ready E b w"
  shows "\<exists>w'. rearmCollabModeIfActive E b w = Some w' \<and> board_ready E b w' \<and>
    v_rows (view w') = v_rows (view w) \<and> v_now (view w') = v_now (view w) \<and>
    v_hash (view w') = v_hash (view w) \<and> v_list (view w') = v_list (view w) \<and>
    (\<forall>k. k \<noteq> boardCollabModeUntilKey b \<longrightarrow> v_strs (view w') k = v_strs (view w) k) \<and>
    (\<forall>k. k \<noteq> boardClientsKey b \<longrightarrow> v_set (view w') k = v_set (view w) k) \<and>
    (\<forall>k. k \<noteq> boardViewerSessionsKey b \<longrightarrow> v_zset (view w') k = v_zset (view w) k) \<and>
    (if collab_active b (view w)
     then v_strs (view w') (boardCollabModeUntilKey b) =
       Some (dec (v_now (view w) + COLLAB_MODE_COOLDOWN_MS), Some (v_now (view w) + COLLAB_MODE_COOLDOWN_MS))
     else v_strs (view w') (boardCollabModeUntilKey b) = v_strs (view w) (boardCollabModeUntilKey b) \<and>
       \<not> collab_active b (view w'))"
proof (cases "marker_live b (view w)")
  case True
  let ?w' = "extendCollabMode E b w"
  have "rearmCollabModeIfActive E b w = Some ?w'"
    using True by (simp add: rearmCollabModeIfActive_def collab_marker_view)
  moreover have "board_ready E b ?w'" using assms by (simp add: board_ready_view extendCollabMode_view key_defs)
  moreover have "collab_active b (view w)" using True by (simp add: collab_active_def)
  ultimately show ?thesis by (intro exI[of _ ?w']) (simp add: extendCollabMode_view)
next
  case False
  obtain w1 w2 where p: "getClientCount E b w = Some (card (live_clients b (view w)), w1)"
    "getActiveViewerCount E b w1 = Some (card (active_viewers b (view w)), w2)"
    "view w2 = (view w)\<lparr>v_set := (v_set (view w))(boardClientsKey b := live_clients b (view w)),
      v_zset := (v_zset (view w))(boardViewerSessionsKey b :=
        v_zset (view w) (boardViewerSessionsKey b) |` active_viewers b (view w))\<rparr>"
    using probe_ready[OF assms] by blast
  have r2: "board_ready E b w2" using p(3) by (intro ready_same_strs[OF assms]) simp
  let ?many = "2 \<le> card (live_clients b (view w)) \<or> 2 \<le> card (active_viewers b (view w))"
  let ?w' = "if ?many then extendCollabMode E b w2 else w2"
  have "rearmCollabModeIfActive E b w = Some ?w'"
    using False p(1,2) by (simp add: rearmCollabModeIfActive_def collab_marker_view)
  moreover have c: "collab_active b (view w) = ?many" using False by (simp add: collab_active_def)
  moreover have "board_ready E b ?w'"
    using r2 by (simp add: board_ready_view extendCollabMode_view key_defs)
  moreover have "live_clients b (view w2) = live_clients b (view w)"
    by (auto simp: p(3) live_clients_def)
  moreover have "active_viewers b (view w2) = active_viewers b (view w)"
    by (auto simp: p(3) active_viewers_def restrict_map_def split: if_splits)
  moreover have "marker_live b (view w2) = marker_live b (view w)" by (simp add: p(3) marker_live_def)
  ultimately show ?thesis
    using p(3) False by (intro exI[of _ ?w']) (simp add: extendCollabMode_view collab_active_def)
qed

lemma trackClient_second:
  assumes "board_ready E b w" "m' \<in> v_set (view w) (boardClientsKey b)" "m' \<noteq> clientMember u c"
  shows "\<exists>w'. trackClient E b u c w = Some w' \<and> clientMember u c \<in> live_clients b (view w') \<and>
    marker_live b (view w')"
proof -
  let ?m = "clientMember u c"
  let ?w1 = "e_write E [SADD (boardClientsKey b) [?m],
       SET_PX (boardClientLeaseKey b ?m) ''1'' (CLIENT_LEASE_TTL_SECONDS * 1000), SADD ACTIVE_BOARDS_KEY [b]] w"
  have set1: "v_set (view ?w1) (boardClientsKey b) = insert ?m (v_set (view w) (boardClientsKey b))"
    by (simp add: written key_defs CLIENT_LEASE_TTL_SECONDS_def)
  have lease: "v_strs (view ?w1) (boardClientLeaseKey b ?m) \<noteq> None"
    by (simp add: written key_defs CLIENT_LEASE_TTL_SECONDS_def)
  have "card {m', ?m} \<le> card (insert ?m (v_set (view w) (boardClientsKey b)))"
    using assms(2) by (intro card_mono) auto
  then have "2 \<le> e_scard E (boardClientsKey b) ?w1"
    unfolding scard set1 using assms(3) by simp
  then have "trackClient E b u c w = Some (extendCollabMode E b ?w1)"
    using assms(1) by (simp add: trackClient_def waitForBoardLoad_ready Let_def extendCollabModeIfNeeded_def)
  then show ?thesis
    using set1 lease by (simp add: extendCollabMode_view live_clients_def marker_live_def key_defs COLLAB_MODE_COOLDOWN_MS_def)
qed

end

section \<open>Properties\<close>

text \<open>\<open>getSyncWriteMode\<close> answers \<open>collab\<close> exactly when the marker is alive or at least two clients
  with a live lease or two viewers seen within the session time are present; a collab answer leaves
  the marker alive, a solo answer leaves it dead, and nothing else of the board changes.\<close>

theorem getSyncWriteMode_decision:
  assumes "redis_client E view" "board_ready E b w"
  shows "\<exists>w'. getSyncWriteMode E b w =
      Some (if collab_active b (view w) then Collab else Solo, w') \<and>
    board_ready E b w' \<and> v_rows (view w') = v_rows (view w) \<and> v_now (view w') = v_now (view w) \<and>
    v_hash (view w') = v_hash (view w) \<and> v_list (view w') = v_list (view w) \<and>
    (\<forall>k. k \<noteq> boardCollabModeUntilKey b \<longrightarrow> v_strs (view w') k = v_strs (view w) k) \<and>
    (\<forall>k. k \<noteq> boardClientsKey b \<longrightarrow> v_set (view w') k = v_set (view w) k) \<and>
    (\<forall>k. k \<noteq> boardViewerSessionsKey b \<longrightarrow> v_zset (view w') k = v_zset (view w) k) \<and>
    (collab_active b (view w) \<longleftrightarrow> marker_live b (view w'))"
  using assms by (rule redis_client.write_mode_ready)

definition two_clients_world :: mem where
  "two_clients_world = mem0\<lparr>m_set := [(boardClientsKey ''b1'', [''u:1'', ''v:2''])],
     m_strs := [(boardSeqKey ''b1'', (''4'', None)), (boardClientLeaseKey ''b1'' ''u:1'', (''1'', Some 1080000)),
       (boardClientLeaseKey ''b1'' ''v:2'', (''1'', Some 1090000))]\<rparr>"

lemma two_clients_ready: "board_ready mem_env ''b1'' two_clients_world"
  by (simp add: mem.board_ready_view two_clients_world_def mem_str_eval key_defs)

theorem getSyncWriteMode_decision_witness:
  "\<exists>w'. getSyncWriteMode mem_env ''b1'' two_clients_world = Some (Collab, w') \<and>
    marker_live ''b1'' (mem_view w')"
proof -
  have "live_clients ''b1'' (mem_view two_clients_world) = {''u:1'', ''v:2''}"
    by (auto simp: live_clients_def two_clients_world_def mem_str_eval key_defs)
  then have "collab_active ''b1'' (mem_view two_clients_world)" by (simp add: collab_active_def)
  then show ?thesis
    using getSyncWriteMode_decision[OF mem.redis_client_axioms two_clients_ready] by auto
qed

text \<open>The re-arm after a mutation extends the collaborative cooldown to its full length only on a
  board that is in collaborative mode already; on a solo board it leaves the marker as it is and the
  board stays solo, so a solo author's own mutations never defer persistence.\<close>

theorem rearmCollabModeIfActive_conditional:
  assumes "redis_client E view" "board_ready E b w"
  shows "\<exists>w'. rearmCollabModeIfActive E b w = Some w' \<and> board_ready E b w' \<and>
    v_rows (view w') = v_rows (view w) \<and> v_now (view w') = v_now (view w) \<and>
    v_hash (view w') = v_hash (view w) \<and> v_list (view w') = v_list (view w) \<and>
    (\<forall>k. k \<noteq> boardCollabModeUntilKey b \<longrightarrow> v_strs (view w') k = v_strs (view w) k) \<and>
    (\<forall>k. k \<noteq> boardClientsKey b \<longrightarrow> v_set (view w') k = v_set (view w) k) \<and>
    (\<forall>k. k \<noteq> boardViewerSessionsKey b \<longrightarrow> v_zset (view w') k = v_zset (view w) k) \<and>
    (if collab_active b (view w)
     then v_strs (view w') (boardCollabModeUntilKey b) =
       Some (dec (v_now (view w) + COLLAB_MODE_COOLDOWN_MS), Some (v_now (view w) + COLLAB_MODE_COOLDOWN_MS))
     else v_strs (view w') (boardCollabModeUntilKey b) = v_strs (view w) (boardCollabModeUntilKey b) \<and>
       \<not> collab_active b (view w'))"
  using assms by (rule redis_client.rearm_ready)

theorem rearmCollabModeIfActive_conditional_witness:
  "\<exists>w'. rearmCollabModeIfActive mem_env ''b1'' (two_clients_world\<lparr>m_set := []\<rparr>) = Some w' \<and>
     \<not> collab_active ''b1'' (mem_view w')"
proof -
  let ?w = "two_clients_world\<lparr>m_set := []\<rparr>"
  have "board_ready mem_env ''b1'' ?w"
    by (simp add: mem.board_ready_view two_clients_world_def mem_str_eval key_defs)
  moreover have "\<not> collab_active ''b1'' (mem_view ?w)"
    by (simp add: collab_active_def marker_live_def live_clients_def active_viewers_def two_clients_world_def
        mem_str_eval key_defs)
  ultimately show ?thesis
    using rearmCollabModeIfActive_conditional[OF mem.redis_client_axioms, of "''b1''" ?w] by auto
qed

text \<open>Tracking a client that joins somebody else on the board puts it among the live clients and
  switches the board to collaborative mode at once.\<close>

theorem trackClient_switches_to_collab:
  assumes "redis_client E view" "board_ready E b w"
    and "m' \<in> v_set (view w) (boardClientsKey b)" "m' \<noteq> clientMember u c"
  shows "\<exists>w'. trackClient E b u c w = Some w' \<and> clientMember u c \<in> live_clients b (view w') \<and>
    marker_live b (view w')"
  using assms by (rule redis_client.trackClient_second)

theorem trackClient_switches_to_collab_witness:
  "\<exists>w'. trackClient mem_env ''b1'' ''x'' ''9'' two_clients_world = Some w' \<and>
    clientMember ''x'' ''9'' \<in> live_clients ''b1'' (mem_view w') \<and> marker_live ''b1'' (mem_view w')"
  by (rule trackClient_switches_to_collab[OF mem.redis_client_axioms two_clients_ready, of "''u:1''"])
     (simp_all add: two_clients_world_def clientMember_def)

end
