(* ===== verification/Redis_Cleanup.thy ===== *)
theory Redis_Cleanup
  imports Persistence Presence
begin

text \<open>
  The periodic cleanup of Redis (\<open>collaboration/redis-cleanup.service.ts\<close>): candidates for eviction
  from the active index, the \<open>last_active\<close> keys and idle sequence keys; eviction of the boards nobody
  is on; deletion of idle transient keys. Log lines are left out. The lemmas bound the candidates,
  show that none of them was active recently, and what the transient cleanup can never touch.
\<close>

definition LAST_ACTIVE_KEY_PATTERN :: string where "LAST_ACTIVE_KEY_PATTERN = ''board:*:last_active''"
definition BOARD_SEQ_KEY_PATTERN :: string where "BOARD_SEQ_KEY_PATTERN = ''board:*:seq''"
definition DEFAULT_IDLE_TTL_MS :: int where "DEFAULT_IDLE_TTL_MS = 3 * 60 * 1000"
definition DEFAULT_SCAN_LIMIT :: nat where "DEFAULT_SCAN_LIMIT = 50"

definition TRANSIENT_KEY_PATTERNS :: "string list" where
  "TRANSIENT_KEY_PATTERNS = [''board:*:viewer_sessions'', ''presence:*'', ''account_presences:*'',
     ''remote_cursors:*'', ''cursor:*'']"

definition ends_with :: "string \<Rightarrow> string \<Rightarrow> bool" where
  "ends_with suffix s = starts_with (rev suffix) (rev s)"

definition between :: "string \<Rightarrow> string \<Rightarrow> string \<Rightarrow> string option" where
  \<comment> \<open>the group of \<open>/^prefix(.+)suffix$/\<close>; a dot matches no line break\<close>
  "between prefix suffix s =
     (let middle = take (length s - length prefix - length suffix) (drop (length prefix) s) in
      if starts_with prefix s \<and> ends_with suffix s \<and> length prefix + length suffix < length s \<and>
        list_all (\<lambda>c. (of_char c :: nat) \<noteq> 10 \<and> (of_char c :: nat) \<noteq> 13) middle
      then Some middle else None)"

definition extractBoardIdFromLastActiveKey :: "rkey \<Rightarrow> string option" where
  "extractBoardIdFromLastActiveKey key = between ''board:'' '':last_active'' key"

definition extractBoardIdFromSeqKey :: "rkey \<Rightarrow> string option" where
  "extractBoardIdFromSeqKey key = between ''board:'' '':seq'' key"

definition read_number :: "'w env \<Rightarrow> rkey \<Rightarrow> 'w \<Rightarrow> int option option" where
  \<comment> \<open>\<open>None\<close>: no value or an empty one; \<open>Some None\<close>: not a number\<close>
  "read_number E key w = (case e_get E key w of None \<Rightarrow> None
     | Some raw \<Rightarrow> if raw = [] then None else Some (parse_int raw))"

section \<open>Scans\<close>

fun collect_inactive :: "'w env \<Rightarrow> int \<Rightarrow> nat \<Rightarrow> 'w \<Rightarrow> rkey list \<Rightarrow> string list \<Rightarrow> string list" where
  "collect_inactive E idleBefore limit w [] boardIds = boardIds"
| "collect_inactive E idleBefore limit w (key # keys) boardIds =
     (case (extractBoardIdFromLastActiveKey key, read_number E key w) of
        (Some boardId, Some (Some lastActive)) \<Rightarrow>
          if idleBefore < lastActive then collect_inactive E idleBefore limit w keys boardIds
          else if limit \<le> length (boardIds @ [boardId]) then boardIds @ [boardId]
          else collect_inactive E idleBefore limit w keys (boardIds @ [boardId])
      | _ \<Rightarrow> collect_inactive E idleBefore limit w keys boardIds)"

definition scanLastActiveBoardIds :: "'w env \<Rightarrow> int \<Rightarrow> nat \<Rightarrow> 'w \<Rightarrow> string list" where
  "scanLastActiveBoardIds E idleTtlMs limit w =
     collect_inactive E (e_now E w - idleTtlMs) limit w (concat (e_scan E LAST_ACTIVE_KEY_PATTERN w)) []"

fun collect_pages :: "nat \<Rightarrow> rkey list list \<Rightarrow> rkey list \<Rightarrow> rkey list" where
  "collect_pages limit [] keys = keys"
| "collect_pages limit (page # pages) keys =
     (if limit \<le> length (keys @ page) then take limit (keys @ page) else collect_pages limit pages (keys @ page))"

definition scanKeysByPattern :: "'w env \<Rightarrow> string \<Rightarrow> nat \<Rightarrow> 'w \<Rightarrow> rkey list" where
  "scanKeysByPattern E pattern limit w = collect_pages limit (e_scan E pattern w) []"

definition toIdleSeconds :: "int \<Rightarrow> int" where
  "toIdleSeconds idleTtlMs = max 0 (idleTtlMs div 1000)"

definition isIdleBeyondThreshold :: "'w env \<Rightarrow> rkey \<Rightarrow> int \<Rightarrow> 'w \<Rightarrow> bool" where
  "isIdleBeyondThreshold E key idleThresholdSeconds w = (case e_idletime E key w of
     None \<Rightarrow> False | Some idleSeconds \<Rightarrow> idleThresholdSeconds \<le> idleSeconds)"

section \<open>Candidates\<close>

fun from_index :: "'w env \<Rightarrow> int \<Rightarrow> nat \<Rightarrow> 'w \<Rightarrow> string list \<Rightarrow> string list \<Rightarrow> string list" where
  "from_index E idleTtlMs limit w [] candidates = candidates"
| "from_index E idleTtlMs limit w (b # bs) candidates =
     (case read_number E (boardLastActiveKey b) w of
        None \<Rightarrow> from_index E idleTtlMs limit w bs candidates
      | Some n \<Rightarrow>
          (let candidates' = (case n of None \<Rightarrow> candidates
             | Some t \<Rightarrow> if idleTtlMs \<le> e_now E w - t then js_add b candidates else candidates)
           in if limit \<le> length candidates' then candidates' else from_index E idleTtlMs limit w bs candidates'))"

definition seq_candidate :: "'w env \<Rightarrow> int \<Rightarrow> 'w \<Rightarrow> rkey \<Rightarrow> string \<Rightarrow> bool" where
  "seq_candidate E idleTtlMs w seqKey b = (case read_number E (boardLastActiveKey b) w of
     Some (Some t) \<Rightarrow> \<not> e_now E w - t < idleTtlMs
   | Some None \<Rightarrow> True
   | None \<Rightarrow> isIdleBeyondThreshold E seqKey (toIdleSeconds idleTtlMs) w)"

fun from_seq_keys :: "'w env \<Rightarrow> int \<Rightarrow> nat \<Rightarrow> 'w \<Rightarrow> rkey list \<Rightarrow> string list \<Rightarrow> string list" where
  "from_seq_keys E idleTtlMs limit w [] candidates = candidates"
| "from_seq_keys E idleTtlMs limit w (seqKey # keys) candidates =
     (case extractBoardIdFromSeqKey seqKey of
        None \<Rightarrow> from_seq_keys E idleTtlMs limit w keys candidates
      | Some b \<Rightarrow>
          if b \<in> set candidates \<or> \<not> seq_candidate E idleTtlMs w seqKey b
          then from_seq_keys E idleTtlMs limit w keys candidates
          else if limit \<le> length (candidates @ [b]) then candidates @ [b]
          else from_seq_keys E idleTtlMs limit w keys (candidates @ [b]))"

definition findInactiveBoardCandidates :: "'w env \<Rightarrow> bool \<Rightarrow> int \<Rightarrow> nat \<Rightarrow> 'w \<Rightarrow> string list" where
  "findInactiveBoardCandidates E useActiveIndex idleTtlMs limit w =
     (let candidates = (if useActiveIndex
        then from_index E idleTtlMs limit w (e_srandmember E ACTIVE_BOARDS_KEY (max (limit * 3) limit) w) [] else []);
          candidates = (if length candidates < limit
        then js_add_all (scanLastActiveBoardIds E idleTtlMs limit w) candidates else candidates)
      in if limit \<le> length candidates then take limit candidates
         else from_seq_keys E idleTtlMs limit w (scanKeysByPattern E BOARD_SEQ_KEY_PATTERN (limit * 2) w) candidates)"

section \<open>Cleanup\<close>

fun cleanup_boards :: "'w env \<Rightarrow> bool \<Rightarrow> string list \<Rightarrow> string list \<Rightarrow> 'w \<Rightarrow> (string list result \<times> 'w) option" where
  "cleanup_boards E incremental [] flushed w = Some (Inr flushed, w)"
| "cleanup_boards E incremental (b # bs) flushed w = do {
     (clientCount, w) \<leftarrow> getClientCount E b w;
     (viewerCount, w) \<leftarrow> getActiveViewerCount E b w;
     if clientCount > 0 \<or> viewerCount > 0 then cleanup_boards E incremental bs flushed w
     else do {
       (r, w) \<leftarrow> persistBoard E incremental b w;
       case r of Inl e \<Rightarrow> Some (Inl e, w)
       | Inr _ \<Rightarrow> cleanup_boards E incremental bs (flushed @ [b]) (flushBoard E b True w)
     }
   }"

definition cleanupInactiveBoards ::
    "'w env \<Rightarrow> bool \<Rightarrow> bool \<Rightarrow> int \<Rightarrow> nat \<Rightarrow> 'w \<Rightarrow> (string list result \<times> 'w) option" where
  "cleanupInactiveBoards E incremental useActiveIndex idleTtlMs limit w =
     cleanup_boards E incremental (findInactiveBoardCandidates E useActiveIndex idleTtlMs limit w) [] w"

fun delete_idle :: "'w env \<Rightarrow> int \<Rightarrow> rkey list \<Rightarrow> rkey list \<Rightarrow> 'w \<Rightarrow> rkey list \<times> 'w" where
  "delete_idle E threshold [] deleted w = (deleted, w)"
| "delete_idle E threshold (key # keys) deleted w =
     (let ttl = e_ttl E key w in
      if ttl = - 2 \<or> ttl > 0 then delete_idle E threshold keys deleted w
      else if \<not> isIdleBeyondThreshold E key threshold w then delete_idle E threshold keys deleted w
      else delete_idle E threshold keys (deleted @ [key]) (e_write E [DEL [key]] w))"

fun cleanup_patterns :: "'w env \<Rightarrow> int \<Rightarrow> nat \<Rightarrow> string list \<Rightarrow> rkey list \<Rightarrow> 'w \<Rightarrow> rkey list \<times> 'w" where
  "cleanup_patterns E threshold scanLimit [] deleted w = (deleted, w)"
| "cleanup_patterns E threshold scanLimit (p # ps) deleted w =
     (case delete_idle E threshold (scanKeysByPattern E p scanLimit w) deleted w of
        (deleted', w') \<Rightarrow> cleanup_patterns E threshold scanLimit ps deleted' w')"

definition cleanupTransientDataByIdleTime :: "'w env \<Rightarrow> int \<Rightarrow> nat \<Rightarrow> 'w \<Rightarrow> rkey list \<times> 'w" where
  "cleanupTransientDataByIdleTime E idleTtlMs scanLimit w =
     cleanup_patterns E (toIdleSeconds idleTtlMs) scanLimit TRANSIENT_KEY_PATTERNS [] w"

section \<open>What the scans return\<close>

lemma starts_with_append: "starts_with p s \<longleftrightarrow> (\<exists>r. s = p @ r)"
  by (induction p s rule: starts_with.induct) auto

lemma ends_with_append: "ends_with q s \<longleftrightarrow> (\<exists>r. s = r @ q)"
  unfolding ends_with_def starts_with_append by (metis rev_append rev_rev_ident)

lemma between_sound: "between p q s = Some m \<Longrightarrow> s = p @ m @ q"
  by (auto simp: between_def starts_with_append ends_with_append Let_def append_eq_append_conv2 split: if_splits)

lemma extracted_last_active: "extractBoardIdFromLastActiveKey key = Some b \<Longrightarrow> key = boardLastActiveKey b"
  using between_sound[of "''board:''" "'':last_active''" key b]
  by (simp add: extractBoardIdFromLastActiveKey_def boardLastActiveKey_def bkey_def)

definition idle_board :: "'w env \<Rightarrow> int \<Rightarrow> 'w \<Rightarrow> string \<Rightarrow> bool" where
  \<comment> \<open>no sign of life within the last \<open>idleTtlMs\<close> milliseconds is on record\<close>
  "idle_board E idleTtlMs w b = (case read_number E (boardLastActiveKey b) w of
     Some (Some t) \<Rightarrow> idleTtlMs \<le> e_now E w - t | _ \<Rightarrow> True)"

lemma idle_board_read:
  "read_number E (boardLastActiveKey b) w = None \<Longrightarrow> idle_board E idleTtlMs w b"
  "read_number E (boardLastActiveKey b) w = Some None \<Longrightarrow> idle_board E idleTtlMs w b"
  "read_number E (boardLastActiveKey b) w = Some (Some t) \<Longrightarrow> idle_board E idleTtlMs w b = (idleTtlMs \<le> e_now E w - t)"
  by (simp_all add: idle_board_def)

lemma collect_inactive_idle:
  assumes "list_all (idle_board E idleTtlMs w) bs"
  shows "list_all (idle_board E idleTtlMs w) (collect_inactive E (e_now E w - idleTtlMs) limit w keys bs)"
  using assms
proof (induction keys arbitrary: bs)
  case (Cons key keys)
  show ?case
  proof (cases "extractBoardIdFromLastActiveKey key")
    case None
    then show ?thesis using Cons by simp
  next
    case (Some b)
    then have "key = boardLastActiveKey b" by (rule extracted_last_active)
    then show ?thesis using Cons Some
      by (auto simp: idle_board_read split: option.split)
  qed
qed simp

lemma from_index_idle:
  assumes "list_all (idle_board E idleTtlMs w) cs" "distinct cs"
  shows "list_all (idle_board E idleTtlMs w) (from_index E idleTtlMs limit w bs cs) \<and>
    distinct (from_index E idleTtlMs limit w bs cs)"
  using assms
proof (induction bs arbitrary: cs)
  case (Cons b bs)
  define cs' where "cs' = (case read_number E (boardLastActiveKey b) w of Some (Some t) \<Rightarrow>
    if idleTtlMs \<le> e_now E w - t then js_add b cs else cs | _ \<Rightarrow> cs)"
  have cs': "list_all (idle_board E idleTtlMs w) cs'" "distinct cs'"
    using Cons.prems by (auto simp: cs'_def list_all_iff idle_board_read split: option.split)
  have "from_index E idleTtlMs limit w (b # bs) cs = (if read_number E (boardLastActiveKey b) w = None
      then from_index E idleTtlMs limit w bs cs
      else if limit \<le> length cs' then cs' else from_index E idleTtlMs limit w bs cs')"
    by (simp add: cs'_def Let_def split: option.split)
  then show ?case using Cons.IH[OF Cons.prems] Cons.IH[OF cs'] cs' by simp
qed simp

lemma from_seq_keys_idle:
  assumes "list_all (idle_board E idleTtlMs w) cs" "distinct cs" "length cs < limit"
  shows "list_all (idle_board E idleTtlMs w) (from_seq_keys E idleTtlMs limit w keys cs) \<and>
    distinct (from_seq_keys E idleTtlMs limit w keys cs) \<and>
    length (from_seq_keys E idleTtlMs limit w keys cs) \<le> limit"
  using assms
proof (induction keys arbitrary: cs)
  case (Cons key keys)
  show ?case
  proof (cases "extractBoardIdFromSeqKey key")
    case None
    then show ?thesis using Cons by simp
  next
    case (Some b)
    show ?thesis
    proof (cases "b \<in> set cs \<or> \<not> seq_candidate E idleTtlMs w key b")
      case True
      then show ?thesis using Cons Some by simp
    next
      case False
      have "idle_board E idleTtlMs w b"
        using False by (auto simp: seq_candidate_def idle_board_def split: option.splits)
      then have "list_all (idle_board E idleTtlMs w) (cs @ [b])" "distinct (cs @ [b])"
        using Cons.prems False by auto
      then show ?thesis using Cons.IH[of "cs @ [b]"] Cons.prems Some False by auto
    qed
  qed
qed simp

lemma candidates_ok:
  "list_all (idle_board E idleTtlMs w) (findInactiveBoardCandidates E useActiveIndex idleTtlMs limit w) \<and>
   distinct (findInactiveBoardCandidates E useActiveIndex idleTtlMs limit w) \<and>
   length (findInactiveBoardCandidates E useActiveIndex idleTtlMs limit w) \<le> limit"
proof -
  define cs where "cs = (if useActiveIndex
    then from_index E idleTtlMs limit w (e_srandmember E ACTIVE_BOARDS_KEY (max (limit * 3) limit) w) [] else [])"
  have cs: "list_all (idle_board E idleTtlMs w) cs" "distinct cs"
    using from_index_idle[of E idleTtlMs w "[]"] by (auto simp: cs_def)
  define ds where "ds = (if length cs < limit then js_add_all (scanLastActiveBoardIds E idleTtlMs limit w) cs else cs)"
  have scan: "list_all (idle_board E idleTtlMs w) (scanLastActiveBoardIds E idleTtlMs limit w)"
    unfolding scanLastActiveBoardIds_def by (rule collect_inactive_idle) simp
  have ds: "list_all (idle_board E idleTtlMs w) ds" "distinct ds"
    using cs scan by (auto simp: ds_def list_all_iff)
  have "findInactiveBoardCandidates E useActiveIndex idleTtlMs limit w =
    (if limit \<le> length ds then take limit ds
     else from_seq_keys E idleTtlMs limit w (scanKeysByPattern E BOARD_SEQ_KEY_PATTERN (limit * 2) w) ds)"
    by (simp add: findInactiveBoardCandidates_def cs_def ds_def Let_def)
  then show ?thesis
    using ds from_seq_keys_idle[of E idleTtlMs w ds limit] by (auto simp: list_all_iff dest: in_set_takeD)
qed

definition answers_within :: "string list \<Rightarrow> (string list result \<times> 'w) option \<Rightarrow> bool" where
  \<comment> \<open>a cleanup that returns a list returns boards of the given one\<close>
  "answers_within bs res = (case res of None \<Rightarrow> True | Some (r, w) \<Rightarrow>
     (case r of Inl e \<Rightarrow> True | Inr ids \<Rightarrow> set ids \<subseteq> set bs))"

lemma answers_within_bind: "(\<And>x. f = Some x \<Longrightarrow> answers_within bs (g x)) \<Longrightarrow> answers_within bs (Option.bind f g)"
  by (cases f) (auto simp: answers_within_def)

lemma cleanup_boards_within:
  "set flushed \<subseteq> set cs \<Longrightarrow> set bs \<subseteq> set cs \<Longrightarrow> answers_within cs (cleanup_boards E incremental bs flushed w)"
proof (induction bs arbitrary: flushed w)
  case Nil
  then show ?case by (simp add: answers_within_def)
next
  case (Cons b bs)
  have one: "answers_within cs (Some (Inl e, w'))" for e w' by (simp add: answers_within_def)
  show ?case using Cons.prems Cons.IH
    by (auto intro!: answers_within_bind split: prod.split sum.split simp: one)
qed

section \<open>Which keys the transient cleanup deletes\<close>

lemma glob_match_char:
  "c \<noteq> CHR ''*'' \<Longrightarrow> glob_match (c # p) s \<longleftrightarrow> (\<exists>r. s = c # r \<and> glob_match p r)"
  by (cases s) auto

lemma glob_literal: "CHR ''*'' \<notin> set p \<Longrightarrow> glob_match p s \<longleftrightarrow> s = p"
proof (induction p arbitrary: s)
  case (Cons c p)
  then show ?case using glob_match_char[of c p s] by auto
qed simp

lemma glob_star: "glob_match (CHR ''*'' # p) s \<longleftrightarrow> (\<exists>a r. s = a @ r \<and> glob_match p r)"
proof (induction s)
  case (Cons c s)
  show ?case
  proof
    assume "glob_match (CHR ''*'' # p) (c # s)"
    then consider "glob_match p (c # s)" | "glob_match (CHR ''*'' # p) s" by auto
    then show "\<exists>a r. c # s = a @ r \<and> glob_match p r"
    proof cases
      case 1 then show ?thesis by (metis append_Nil)
    next
      case 2 then show ?thesis using Cons.IH by (metis append_Cons)
    qed
  next
    assume "\<exists>a r. c # s = a @ r \<and> glob_match p r"
    then obtain a r where ar: "c # s = a @ r" "glob_match p r" by blast
    then show "glob_match (CHR ''*'' # p) (c # s)" using Cons.IH by (cases a) auto
  qed
qed simp

lemma glob_between:
  "CHR ''*'' \<notin> set p \<Longrightarrow> glob_match (p @ ''*'' @ q) s \<longleftrightarrow> (\<exists>a r. s = p @ a @ r \<and> glob_match q r)"
proof (induction p arbitrary: s)
  case Nil
  show ?case using glob_star[of q s] by simp
next
  case (Cons c p)
  then show ?case using glob_match_char[of c "p @ ''*'' @ q" s] by auto
qed

definition transient_key :: "rkey \<Rightarrow> bool" where
  "transient_key k = (\<exists>p \<in> set TRANSIENT_KEY_PATTERNS. glob_match p k)"

definition transient_like :: "rkey \<Rightarrow> bool" where
  "transient_like k = (ends_with '':viewer_sessions'' k \<or> starts_with ''presence:'' k \<or>
     starts_with ''account_presences:'' k \<or> starts_with ''remote_cursors:'' k \<or> starts_with ''cursor:'' k)"
lemma glob_affixes:
  assumes "CHR ''*'' \<notin> set p" "CHR ''*'' \<notin> set q" "glob_match (p @ ''*'' @ q) k"
  shows "starts_with p k" "ends_with q k"
proof -
  obtain a where "k = p @ a @ q"
    using assms(3) unfolding glob_between[OF assms(1)] glob_literal[OF assms(2)] by blast
  then show "starts_with p k" "ends_with q k"
    unfolding starts_with_append ends_with_append by (metis append_assoc)+
qed

lemma transient_key_like: "transient_key k \<Longrightarrow> transient_like k"
  using glob_affixes(2)[of "''board:''" "'':viewer_sessions''" k] glob_affixes(1)[of "''presence:''" "[]" k]
    glob_affixes(1)[of "''account_presences:''" "[]" k] glob_affixes(1)[of "''remote_cursors:''" "[]" k]
    glob_affixes(1)[of "''cursor:''" "[]" k]
  by (auto simp: transient_key_def TRANSIENT_KEY_PATTERNS_def transient_like_def simp del: glob_match.simps starts_with.simps)

lemma durable_keys:
  "\<not> transient_key (boardElementsKey b)" "\<not> transient_key (boardSeqKey b)" "\<not> transient_key (boardChangeLogKey b)"
  "\<not> transient_key (boardDirtyElementIdsKey b)" "\<not> transient_key (boardDeletedElementIdsKey b)"
  "\<not> transient_key (boardDirtyEpochKey b)" "\<not> transient_key DIRTY_BOARDS_KEY" "\<not> transient_key DIRTY_BOARDS_BY_AGE_KEY"
  using transient_key_like[of "boardElementsKey b"] transient_key_like[of "boardSeqKey b"]
    transient_key_like[of "boardChangeLogKey b"] transient_key_like[of "boardDirtyElementIdsKey b"]
    transient_key_like[of "boardDeletedElementIdsKey b"] transient_key_like[of "boardDirtyEpochKey b"]
    transient_key_like[of DIRTY_BOARDS_KEY] transient_key_like[of DIRTY_BOARDS_BY_AGE_KEY]
  by (auto simp: transient_like_def key_defs bkey_def ends_with_def DIRTY_BOARDS_KEY_def DIRTY_BOARDS_BY_AGE_KEY_def)

lemma collect_pages_bound:
  "length keys \<le> limit \<Longrightarrow> length (collect_pages limit pages keys) \<le> limit \<and>
   set (collect_pages limit pages keys) \<subseteq> set keys \<union> set (concat pages)"
proof (induction pages arbitrary: keys)
  case (Cons page pages)
  show ?case
  proof (cases "limit \<le> length (keys @ page)")
    case True
    then show ?thesis using set_take_subset[of limit "keys @ page"] by auto
  next
    case False
    then show ?thesis using Cons.IH[of "keys @ page"] by auto
  qed
qed simp

lemma DEL_steps: "redis_step (DEL [k]) (redis_step (DEL ks) v) = redis_step (DEL (ks @ [k])) v"
  by (simp add: fun_eq_iff)

lemma DEL_Nil: "redis_step (DEL []) v = v"
  by simp

context redis_client
begin

lemma delete_idle_view:
  assumes "list_all transient_key keys" "list_all transient_key deleted"
    and "view w = redis_step (DEL deleted) v"
    and "delete_idle E threshold keys deleted w = (deleted', w')"
  shows "view w' = redis_step (DEL deleted') v \<and> list_all transient_key deleted' \<and>
    length deleted' \<le> length deleted + length keys"
  using assms
proof (induction keys arbitrary: deleted w)
  case (Cons key keys)
  show ?case
  proof (cases "e_ttl E key w = - 2 \<or> e_ttl E key w > 0 \<or> \<not> isIdleBeyondThreshold E key threshold w")
    case True
    then have "delete_idle E threshold keys deleted w = (deleted', w')"
      using Cons.prems(4) by (auto simp: Let_def split: if_splits)
    then show ?thesis using Cons.IH[of deleted w] Cons.prems by auto
  next
    case False
    then have "delete_idle E threshold keys (deleted @ [key]) (e_write E [DEL [key]] w) = (deleted', w')"
      using Cons.prems(4) by (auto simp: Let_def split: if_splits)
    moreover have "view (e_write E [DEL [key]] w) = redis_step (DEL (deleted @ [key])) v"
      using Cons.prems(3) by (simp only: written fold.simps comp_apply id_apply DEL_steps)
    ultimately show ?thesis using Cons.IH[of "deleted @ [key]" "e_write E [DEL [key]] w"] Cons.prems by auto
  qed
qed simp

lemma scanned_transient:
  assumes "p \<in> set TRANSIENT_KEY_PATTERNS"
  shows "list_all transient_key (scanKeysByPattern E p limit w)"
    and "length (scanKeysByPattern E p limit w) \<le> limit"
  using collect_pages_bound[of "[]" limit "e_scan E p w"] assms scan[where p=p and w=w]
  by (auto simp: scanKeysByPattern_def list_all_iff transient_key_def)

lemma cleanup_patterns_view:
  assumes "set ps \<subseteq> set TRANSIENT_KEY_PATTERNS" "list_all transient_key deleted"
    and "view w = redis_step (DEL deleted) v"
    and "cleanup_patterns E threshold limit ps deleted w = (deleted', w')"
  shows "view w' = redis_step (DEL deleted') v \<and> list_all transient_key deleted' \<and>
    length deleted' \<le> length deleted + limit * length ps"
  using assms
proof (induction ps arbitrary: deleted w)
  case (Cons p ps)
  obtain d1 w1 where one: "delete_idle E threshold (scanKeysByPattern E p limit w) deleted w = (d1, w1)"
    by (cases "delete_idle E threshold (scanKeysByPattern E p limit w) deleted w")
  have p: "p \<in> set TRANSIENT_KEY_PATTERNS" using Cons.prems(1) by simp
  have first: "view w1 = redis_step (DEL d1) v \<and> list_all transient_key d1 \<and> length d1 \<le> length deleted + limit"
    using delete_idle_view[OF scanned_transient(1)[OF p] Cons.prems(2,3) one] scanned_transient(2)[OF p, of limit w] by linarith
  have "cleanup_patterns E threshold limit ps d1 w1 = (deleted', w')"
    using Cons.prems(4) one by simp
  then show ?case using Cons.IH[of d1 w1] first Cons.prems(1) by simp
qed simp

lemma cleanupTransient_view:
  assumes "cleanupTransientDataByIdleTime E idleTtlMs limit w = (deleted, w')"
  shows "view w' = redis_step (DEL deleted) (view w) \<and> list_all transient_key deleted \<and> length deleted \<le> 5 * limit"
  using cleanup_patterns_view[of TRANSIENT_KEY_PATTERNS "[]" w "view w" "toIdleSeconds idleTtlMs" limit deleted w'] assms
  by (simp add: cleanupTransientDataByIdleTime_def TRANSIENT_KEY_PATTERNS_def DEL_Nil del: redis_step.simps)

end

lemma DEL_keeps:
  "list_all transient_key ks \<Longrightarrow> \<not> transient_key k \<Longrightarrow>
   v_strs (redis_step (DEL ks) v) k = v_strs v k \<and> v_hash (redis_step (DEL ks) v) k = v_hash v k \<and>
   v_set (redis_step (DEL ks) v) k = v_set v k \<and> v_zset (redis_step (DEL ks) v) k = v_zset v k \<and>
   v_list (redis_step (DEL ks) v) k = v_list v k"
  by (auto simp: list_all_iff)

section \<open>What a cleanup does\<close>

text \<open>A run of the eviction looks at no more boards than its limit, at each of them once, and at none that
  left a sign of life within the idle time; the boards it reports are among them.\<close>

theorem cleanupInactiveBoards_candidates:
  "list_all (idle_board E idleTtlMs w) (findInactiveBoardCandidates E useActiveIndex idleTtlMs limit w) \<and>
   distinct (findInactiveBoardCandidates E useActiveIndex idleTtlMs limit w) \<and>
   length (findInactiveBoardCandidates E useActiveIndex idleTtlMs limit w) \<le> limit \<and>
   answers_within (findInactiveBoardCandidates E useActiveIndex idleTtlMs limit w)
     (cleanupInactiveBoards E incremental useActiveIndex idleTtlMs limit w)"
  using candidates_ok[of E idleTtlMs w useActiveIndex limit]
  by (simp add: cleanupInactiveBoards_def cleanup_boards_within)

text \<open>The cleanup of transient data deletes exactly the keys it reports, all of them transient and at most
  five times the scan limit, so whatever is in Redis it keeps the elements, the sequence, the change log,
  the marks and the epoch of every board, and the two dirty indexes.\<close>

theorem cleanupTransient_keeps_boards:
  assumes "redis_client E view" "cleanupTransientDataByIdleTime E idleTtlMs limit w = (deleted, w')"
  shows "view w' = redis_step (DEL deleted) (view w) \<and> list_all transient_key deleted \<and> length deleted \<le> 5 * limit \<and>
    v_hash (view w') (boardElementsKey b) = v_hash (view w) (boardElementsKey b) \<and>
    v_strs (view w') (boardSeqKey b) = v_strs (view w) (boardSeqKey b) \<and>
    v_list (view w') (boardChangeLogKey b) = v_list (view w) (boardChangeLogKey b) \<and>
    v_strs (view w') (boardDirtyEpochKey b) = v_strs (view w) (boardDirtyEpochKey b) \<and>
    marks b (view w') = marks b (view w) \<and>
    v_set (view w') DIRTY_BOARDS_KEY = v_set (view w) DIRTY_BOARDS_KEY \<and>
    v_zset (view w') DIRTY_BOARDS_BY_AGE_KEY = v_zset (view w) DIRTY_BOARDS_BY_AGE_KEY"
proof -
  have run: "view w' = redis_step (DEL deleted) (view w)" "list_all transient_key deleted" "length deleted \<le> 5 * limit"
    using redis_client.cleanupTransient_view[OF assms] by auto
  note keep = DEL_keeps[OF run(2), where v = "view w", folded run(1)]
  show ?thesis
    using run keep[OF durable_keys(1)[of b]] keep[OF durable_keys(2)[of b]] keep[OF durable_keys(3)[of b]]
      keep[OF durable_keys(4)[of b]] keep[OF durable_keys(5)[of b]] keep[OF durable_keys(6)[of b]]
      keep[OF durable_keys(7)] keep[OF durable_keys(8)]
    by (simp add: marks_def del: redis_step.simps)
qed

definition stale_world :: mem where
  "stale_world = mem0\<lparr>m_strs := [(''presence:u1'', (''{}'', None)), (boardSeqKey ''b1'', (''7'', None))],
     m_zset := [(boardViewerSessionsKey ''b1'', [(''s1'', 0)])]\<rparr>"

lemma stale_world_run: "fst (cleanupTransientDataByIdleTime mem_env 0 50 stale_world) =
  [boardViewerSessionsKey ''b1'', ''presence:u1'']"
  by code_simp

theorem cleanupTransient_keeps_boards_witness:
  "mem_view (snd (cleanupTransientDataByIdleTime mem_env 0 50 stale_world)) =
     redis_step (DEL [boardViewerSessionsKey ''b1'', ''presence:u1'']) (mem_view stale_world) \<and>
   v_strs (mem_view (snd (cleanupTransientDataByIdleTime mem_env 0 50 stale_world))) (boardSeqKey ''b1'') =
     v_strs (mem_view stale_world) (boardSeqKey ''b1'')"
  using cleanupTransient_keeps_boards[OF mem.redis_client_axioms
      prod.collapse[of "cleanupTransientDataByIdleTime mem_env 0 50 stale_world", symmetric]]
  unfolding stale_world_run by blast

end
