(* ===== verification/Participants.thy ===== *)
theory Participants
  imports Board_Keys Memory_Services
begin

text \<open>
  The registry of who is in a board room across replicas (\<open>realtime/socketio/participants.ts\<close>): a
  hash of participants and a sorted set of expiry times per board, lazily pruned before every read;
  admission and removal are Lua scripts, so single steps. The locale \<open>capped_room\<close> states what the
  join handler needs of a registry; its lemma bounds the room over every history of operations.
\<close>

definition DEFAULT_PARTICIPANT_TTL_MS :: int where "DEFAULT_PARTICIPANT_TTL_MS = 90000"
definition PRUNE_BATCH :: nat where "PRUNE_BATCH = 200"

record participants_options =
  po_ttlMs :: int
  po_keyPrefix :: string

definition default_options :: participants_options where
  "default_options = \<lparr>po_ttlMs = DEFAULT_PARTICIPANT_TTL_MS, po_keyPrefix = ''''\<rparr>"

type_synonym participant = js_object

definition participantsHashKey :: "participants_options \<Rightarrow> string \<Rightarrow> rkey" where
  "participantsHashKey P boardId = po_keyPrefix P @ ''board:'' @ boardId @ '':participants''"

definition participantsExpiryKey :: "participants_options \<Rightarrow> string \<Rightarrow> rkey" where
  "participantsExpiryKey P boardId = po_keyPrefix P @ ''board:'' @ boardId @ '':participants_expiry''"

definition stored_participant :: "string \<Rightarrow> participant \<Rightarrow> json" where
  \<comment> \<open>\<open>JSON.stringify({ ...participant, socketId })\<close>\<close>
  "stored_participant socketId participant = JObj (js_put ''socketId'' (JStr socketId) participant)"

fun parse_participant :: "json \<Rightarrow> participant option" where
  \<comment> \<open>\<open>const { socketId, ...participant } = JSON.parse(json)\<close>, which throws on \<open>null\<close>; the store only
     holds objects\<close>
  "parse_participant (JObj entries) = Some (js_remove ''socketId'' entries)"
| "parse_participant _ = None"

section \<open>Operations\<close>

definition prune_read :: "'w env \<Rightarrow> participants_options \<Rightarrow> string \<Rightarrow> 'w \<Rightarrow> string list" where
  "prune_read E P b w = e_zrangebyscore E (participantsExpiryKey P b) (Some (e_now E w)) PRUNE_BATCH w"

definition prune_delete :: "'w env \<Rightarrow> participants_options \<Rightarrow> string \<Rightarrow> string list \<Rightarrow> 'w \<Rightarrow> 'w" where
  "prune_delete E P b expired w =
     (if expired = [] then w
      else e_write E [HDEL (participantsHashKey P b) expired, ZREM (participantsExpiryKey P b) expired] w)"

definition pruneExpired :: "'w env \<Rightarrow> participants_options \<Rightarrow> string \<Rightarrow> 'w \<Rightarrow> 'w" where
  "pruneExpired E P b w = prune_delete E P b (prune_read E P b w) w"

definition setParticipant :: "'w env \<Rightarrow> participants_options \<Rightarrow> string \<Rightarrow> string \<Rightarrow> participant \<Rightarrow> 'w \<Rightarrow> 'w" where
  "setParticipant E P b socketId participant w =
     e_write E [HSET (participantsHashKey P b) socketId (stored_participant socketId participant),
       ZADD (participantsExpiryKey P b) (e_now E w + po_ttlMs P) socketId] w"

definition touchParticipant :: "'w env \<Rightarrow> participants_options \<Rightarrow> string \<Rightarrow> string \<Rightarrow> 'w \<Rightarrow> 'w" where
  "touchParticipant E P b socketId w =
     e_write E [ZADD_GT (participantsExpiryKey P b) (e_now E w + po_ttlMs P) socketId] w"

definition removeParticipant :: "'w env \<Rightarrow> participants_options \<Rightarrow> string \<Rightarrow> string \<Rightarrow> 'w \<Rightarrow> participant option \<times> 'w" where
  "removeParticipant E P b socketId w = (case e_hget E (participantsHashKey P b) socketId w of
     None \<Rightarrow> (None, w)
   | Some stored \<Rightarrow> (parse_participant stored,
       e_write E [HDEL (participantsHashKey P b) [socketId], ZREM (participantsExpiryKey P b) [socketId]] w))"

definition getRoomParticipants :: "'w env \<Rightarrow> participants_options \<Rightarrow> string \<Rightarrow> 'w \<Rightarrow> participant list \<times> 'w" where
  "getRoomParticipants E P b w =
     (let w = pruneExpired E P b w in (List.map_filter parse_participant (e_hvals E (participantsHashKey P b) w), w))"

definition getRoomSize :: "'w env \<Rightarrow> participants_options \<Rightarrow> string \<Rightarrow> 'w \<Rightarrow> nat \<times> 'w" where
  "getRoomSize E P b w = (let w = pruneExpired E P b w in (e_hlen E (participantsHashKey P b) w, w))"

definition hasParticipant :: "'w env \<Rightarrow> participants_options \<Rightarrow> string \<Rightarrow> string \<Rightarrow> 'w \<Rightarrow> bool \<times> 'w" where
  "hasParticipant E P b socketId w =
     (let w = pruneExpired E P b w in (e_hexists E (participantsHashKey P b) socketId w, w))"

definition getAdmissionState :: "'w env \<Rightarrow> participants_options \<Rightarrow> string \<Rightarrow> string \<Rightarrow> 'w \<Rightarrow> (bool \<times> nat) \<times> 'w" where
  "getAdmissionState E P b socketId w =
     (let w = pruneExpired E P b w
      in ((e_hexists E (participantsHashKey P b) socketId w, e_hlen E (participantsHashKey P b) w), w))"

definition admitParticipant ::
    "'w env \<Rightarrow> participants_options \<Rightarrow> string \<Rightarrow> string \<Rightarrow> participant \<Rightarrow> nat \<Rightarrow> 'w \<Rightarrow> bool \<times> 'w" where
  "admitParticipant E P b socketId participant roomCap w =
     (if e_hexists E (participantsHashKey P b) socketId w
      then (True, setParticipant E P b socketId participant w)
      else if roomCap \<le> e_hlen E (participantsHashKey P b) w then (False, w)
      else (True, setParticipant E P b socketId participant w))"

section \<open>The contract of a room\<close>

datatype room_op =
    Admit string participant
  | Leave string
  | Touch string
  | Roster

locale capped_room =
  fixes occupants :: "'s \<Rightarrow> string set" and run :: "room_op \<Rightarrow> 's \<Rightarrow> bool \<times> 's" and cap :: nat
  assumes finite_room: "finite (occupants s)"
    and admit: "fst (run (Admit x p) s) = (x \<in> occupants s \<or> card (occupants s) < cap)"
      "occupants (snd (run (Admit x p) s)) = (if fst (run (Admit x p) s) then insert x (occupants s) else occupants s)"
    and leave: "fst (run (Leave x) s) \<Longrightarrow> x \<in> occupants s"
      "occupants (snd (run (Leave x) s)) = occupants s - {x}"
    and shrink: "occupants (snd (run (Touch x) s)) \<subseteq> occupants s" "occupants (snd (run Roster s)) \<subseteq> occupants s"
begin

lemma step_capped: "card (occupants s) \<le> cap \<Longrightarrow> card (occupants (snd (run op s))) \<le> cap"
proof (cases op)
  case (Admit x p)
  assume "card (occupants s) \<le> cap"
  then show ?thesis unfolding Admit using finite_room
    by (auto simp: admit card_insert_if)
next
  case (Leave x)
  assume "card (occupants s) \<le> cap"
  then show ?thesis unfolding Leave leave(2) using card_Diff1_le[of "occupants s" x] by linarith
qed (meson card_mono finite_room le_trans shrink)+

lemma history_capped: "card (occupants s) \<le> cap \<Longrightarrow> card (occupants (fold (\<lambda>op s. snd (run op s)) ops s)) \<le> cap"
  by (induction ops arbitrary: s) (simp_all add: step_capped)

lemma leave_once: "x \<notin> occupants (snd (run (Leave x) s)) \<and> \<not> fst (run (Leave x) (snd (run (Leave x) s)))"
  using leave(1)[of x "snd (run (Leave x) s)"] by (auto simp: leave(2))

end

fun room_step :: "'w env \<Rightarrow> participants_options \<Rightarrow> string \<Rightarrow> nat \<Rightarrow> room_op \<Rightarrow> 'w \<Rightarrow> bool \<times> 'w" where
  "room_step E P b cap (Admit x p) w = admitParticipant E P b x p cap w"
| "room_step E P b cap (Leave x) w = (case removeParticipant E P b x w of (found, w') \<Rightarrow> (found \<noteq> None, w'))"
| "room_step E P b cap (Touch x) w = (True, touchParticipant E P b x w)"
| "room_step E P b cap Roster w = (True, snd (getRoomParticipants E P b w))"

definition registered :: "participants_options \<Rightarrow> string \<Rightarrow> rview \<Rightarrow> string set" where
  "registered P b v = dom (v_hash v (participantsHashKey P b))"

definition expiry_of :: "participants_options \<Rightarrow> string \<Rightarrow> rview \<Rightarrow> string \<rightharpoonup> int" where
  "expiry_of P b v = v_zset v (participantsExpiryKey P b)"

definition live_participant :: "participants_options \<Rightarrow> string \<Rightarrow> rview \<Rightarrow> string \<Rightarrow> bool" where
  "live_participant P b v x = (x \<in> registered P b v \<and>
     (case expiry_of P b v x of None \<Rightarrow> True | Some t \<Rightarrow> v_now v < t))"

definition expired_sockets :: "participants_options \<Rightarrow> string \<Rightarrow> rview \<Rightarrow> string set" where
  "expired_sockets P b v = {x. \<exists>t. expiry_of P b v x = Some t \<and> t \<le> v_now v}"

lemma set_mapped: "set (List.map_filter f xs) = {y. \<exists>x \<in> set xs. f x = Some y}"
  by (induction xs) (auto simp: map_filter_simps split: option.split)

lemmas room_defs = registered_def expiry_of_def

context redis_client
begin

lemma setParticipant_view:
  "v_hash (view (setParticipant E P b x p w)) (participantsHashKey P b) =
     (v_hash (view w) (participantsHashKey P b))(x \<mapsto> stored_participant x p)"
  "expiry_of P b (view (setParticipant E P b x p w)) =
     (expiry_of P b (view w))(x \<mapsto> v_now (view w) + po_ttlMs P)"
  by (simp_all add: setParticipant_def written now expiry_of_def)

lemma registered_set: "registered P b (view (setParticipant E P b x p w)) = insert x (registered P b (view w))"
  by (simp add: registered_def setParticipant_view)

lemma registered_touch: "registered P b (view (touchParticipant E P b x w)) = registered P b (view w)"
  by (simp add: registered_def touchParticipant_def written)

lemma expiry_touch:
  "expiry_of P b (view (touchParticipant E P b x w)) = (expiry_of P b (view w))(x \<mapsto>
     (case expiry_of P b (view w) x of None \<Rightarrow> v_now (view w) + po_ttlMs P
      | Some t \<Rightarrow> max t (v_now (view w) + po_ttlMs P)))"
  by (auto simp: expiry_of_def touchParticipant_def written now fun_eq_iff max_def split: option.splits)

lemma prune_delete_view:
  "v_hash (view (prune_delete E P b xs w)) (participantsHashKey P b) =
     v_hash (view w) (participantsHashKey P b) |` (- set xs)"
  "expiry_of P b (view (prune_delete E P b xs w)) = expiry_of P b (view w) |` (- set xs)"
  "v_now (view (prune_delete E P b xs w)) = v_now (view w)"
  by (simp_all add: prune_delete_def written expiry_of_def restrict_map_def)

lemma prune_read_expired: "set (prune_read E P b w) \<subseteq> expired_sockets P b (view w)"
proof -
  obtain xs where "set xs = {m. \<exists>sc. v_zset (view w) (participantsExpiryKey P b) m = Some sc \<and> sc \<le> v_now (view w)}"
    "prune_read E P b w = take PRUNE_BATCH xs"
    using zrange[of w "participantsExpiryKey P b" "Some (v_now (view w))" PRUNE_BATCH]
    by (auto simp: prune_read_def now)
  then show ?thesis
    using set_take_subset[of PRUNE_BATCH xs] by (auto simp: expired_sockets_def expiry_of_def)
qed

lemma prune_read_all:
  assumes "card (expired_sockets P b (view w)) \<le> 200"
  shows "set (prune_read E P b w) = expired_sockets P b (view w)"
proof -
  obtain xs where xs: "distinct xs" "set xs = expired_sockets P b (view w)" "prune_read E P b w = take PRUNE_BATCH xs"
    using zrange[of w "participantsExpiryKey P b" "Some (v_now (view w))" PRUNE_BATCH]
    by (auto simp: prune_read_def now expired_sockets_def expiry_of_def)
  then have "length xs \<le> 200" using assms distinct_card[OF xs(1)] by simp
  with xs show ?thesis by (simp add: PRUNE_BATCH_def)
qed

lemma registered_prune_delete: "registered P b (view (prune_delete E P b xs w)) = registered P b (view w) - set xs"
  by (auto simp: registered_def prune_delete_view)

lemma registered_prune: "registered P b (view (pruneExpired E P b w)) = registered P b (view w) - set (prune_read E P b w)"
  by (simp add: pruneExpired_def registered_prune_delete)

lemma pruned_live:
  assumes "card (expired_sockets P b (view w)) \<le> 200"
  shows "registered P b (view (pruneExpired E P b w)) = {x. live_participant P b (view w) x}"
  unfolding registered_prune prune_read_all[OF assms]
  by (auto simp: live_participant_def expired_sockets_def split: option.splits)

lemma admit_reply: "fst (admitParticipant E P b x p cap w) =
   (x \<in> registered P b (view w) \<or> card (registered P b (view w)) < cap)"
  by (auto simp: admitParticipant_def hexists hlen registered_def)

lemma admit_registered: "registered P b (view (snd (admitParticipant E P b x p cap w))) =
   (if fst (admitParticipant E P b x p cap w) then insert x (registered P b (view w)) else registered P b (view w))"
  by (simp add: admitParticipant_def registered_set)

lemma remove_registered: "registered P b (view (snd (removeParticipant E P b x w))) = registered P b (view w) - {x}"
  by (auto simp: removeParticipant_def registered_def written hget split: option.split)

lemma remove_reply: "fst (removeParticipant E P b x w) =
   Option.bind (v_hash (view w) (participantsHashKey P b) x) parse_participant"
  by (simp add: removeParticipant_def hget split: option.split)

lemma room_capped: "capped_room (\<lambda>w. registered P b (view w)) (room_step E P b cap) cap"
proof unfold_locales
  show "finite (registered P b (view w))" for w by (simp add: registered_def)
  show "registered P b (view (snd (room_step E P b cap (Leave x) w))) = registered P b (view w) - {x}" for x w
    using remove_registered[of P b x w] by (cases "removeParticipant E P b x w") simp
  show "x \<in> registered P b (view w)" if "fst (room_step E P b cap (Leave x) w)" for x w
    using that remove_reply[of P b x w]
    by (auto simp: registered_def bind_eq_Some_conv split: prod.splits)
qed (auto simp: admit_reply admit_registered registered_touch getRoomParticipants_def Let_def registered_prune)

lemma roster_live:
  assumes "card (expired_sockets P b (view w)) \<le> 200" "getRoomParticipants E P b w = (ps, w')"
  shows "set ps = {p. \<exists>x j. live_participant P b (view w) x \<and>
     v_hash (view w) (participantsHashKey P b) x = Some j \<and> parse_participant j = Some p}"
proof -
  let ?h = "v_hash (view w) (participantsHashKey P b)"
  let ?w = "pruneExpired E P b w"
  have h: "v_hash (view ?w) (participantsHashKey P b) = ?h |` (- expired_sockets P b (view w))"
    by (simp add: pruneExpired_def prune_delete_view prune_read_all[OF assms(1)])
  have "set (e_hvals E (participantsHashKey P b) ?w) = ran (v_hash (view ?w) (participantsHashKey P b))"
    using hgetall[of "participantsHashKey P b" ?w] ran_distinct[of "e_hgetall E (participantsHashKey P b) ?w"]
    by (simp add: e_hvals_def)
  also have "\<dots> = {j. \<exists>x. live_participant P b (view w) x \<and> ?h x = Some j}"
    unfolding h by (auto simp: ran_def live_participant_def expired_sockets_def registered_def restrict_map_def
      split: option.splits if_splits)
  finally show ?thesis using assms(2)
    by (auto simp: getRoomParticipants_def Let_def set_mapped) blast+
qed

end

interpretation mem_room: capped_room "\<lambda>w. registered P b (mem_view w)" "room_step mem_env P b cap" cap
  for P b cap
  by (rule mem.room_capped)

section \<open>Properties\<close>

text \<open>C8: Whatever sockets join, re-join, leave, send heartbeats and read the roster in whatever order, a room
  never holds more participants than its cap; a join is admitted exactly when the socket holds a slot already or a
  slot is free.\<close>

theorem room_never_exceeds_cap:
  assumes "redis_client E view" "card (registered P b (view w)) \<le> cap"
  shows "card (registered P b (view (fold (\<lambda>op w. snd (room_step E P b cap op w)) ops w))) \<le> cap \<and>
    fst (admitParticipant E P b x p cap w) =
      (x \<in> registered P b (view w) \<or> card (registered P b (view w)) < cap)"
  using capped_room.history_capped[OF redis_client.room_capped[OF assms(1)] assms(2)]
    redis_client.admit_reply[OF assms(1)] by blast

definition one_seat_world :: mem where
  "one_seat_world = snd (admitParticipant mem_env default_options ''b'' ''s1'' [(''userId'', JStr ''u'')] 1 mem0)"

lemma one_seat_registered: "registered default_options ''b'' (mem_view one_seat_world) = {''s1''}"
  by (simp add: one_seat_world_def mem.admit_registered mem.admit_reply) (simp add: registered_def lk_def)

lemma one_seat_facts:
  "expiry_of default_options ''b'' (mem_view one_seat_world) = [''s1'' \<mapsto> 1090000]"
  "v_hash (mem_view one_seat_world) (participantsHashKey default_options ''b'') ''s1'' =
     Some (stored_participant ''s1'' [(''userId'', JStr ''u'')])"
  "v_now (mem_view one_seat_world) = 1000000"
proof -
  have w: "one_seat_world = setParticipant mem_env default_options ''b'' ''s1'' [(''userId'', JStr ''u'')] mem0"
    by (simp add: one_seat_world_def admitParticipant_def e_hexists_def lk_def)
  show "expiry_of default_options ''b'' (mem_view one_seat_world) = [''s1'' \<mapsto> 1090000]"
    unfolding w mem.setParticipant_view
    by (simp add: expiry_of_def lk_def default_options_def DEFAULT_PARTICIPANT_TTL_MS_def)
  show "v_hash (mem_view one_seat_world) (participantsHashKey default_options ''b'') ''s1'' =
     Some (stored_participant ''s1'' [(''userId'', JStr ''u'')])"
    unfolding w mem.setParticipant_view by simp
  show "v_now (mem_view one_seat_world) = 1000000"
    unfolding w setParticipant_def mem.written by simp
qed

theorem room_never_exceeds_cap_witness:
  "\<not> fst (admitParticipant mem_env default_options ''b'' ''s2'' [] 1 one_seat_world)"
  using room_never_exceeds_cap[OF mem.redis_client_axioms, of default_options "''b''" one_seat_world 1 "[]" "''s2''" "[]"]
  by (simp add: one_seat_registered)

text \<open>A participant is reported as it was admitted, by one removal only: the first removal after an admission
  returns exactly the admitted participant and frees the slot, and a second removal (another replica that detaches
  the same dead socket) returns nothing.\<close>

theorem removal_reports_once:
  assumes "redis_client E view" "fst (admitParticipant E P b x p cap w)" "js_get ''socketId'' p = None"
    and w1: "w1 = snd (admitParticipant E P b x p cap w)"
  shows "fst (removeParticipant E P b x w1) = Some p \<and>
    x \<notin> registered P b (view (snd (removeParticipant E P b x w1))) \<and>
    fst (removeParticipant E P b x (snd (removeParticipant E P b x w1))) = None"
proof -
  have w1': "w1 = setParticipant E P b x p w"
    using assms(2) by (auto simp: w1 admitParticipant_def split: if_splits)
  have stored: "v_hash (view w1) (participantsHashKey P b) x = Some (stored_participant x p)"
    unfolding w1' by (simp add: redis_client.setParticipant_view[OF assms(1)])
  have "js_get ''socketId'' p = None \<Longrightarrow> js_remove ''socketId'' (js_put ''socketId'' v p) = p" for v
    by (induction p) (auto simp: js_remove_def split: if_splits)
  then have "fst (removeParticipant E P b x w1) = Some p"
    using assms(3) stored by (simp add: redis_client.remove_reply[OF assms(1)] stored_participant_def)
  moreover have gone: "x \<notin> registered P b (view (snd (removeParticipant E P b x w1)))"
    by (simp add: redis_client.remove_registered[OF assms(1)])
  ultimately show ?thesis
    by (auto simp: redis_client.remove_reply[OF assms(1)] registered_def domIff)
qed

theorem removal_reports_once_witness:
  "fst (removeParticipant mem_env default_options ''b'' ''s1'' one_seat_world) = Some [(''userId'', JStr ''u'')]"
  using removal_reports_once[OF mem.redis_client_axioms _ _ one_seat_world_def]
  by (simp add: mem.admit_reply registered_def lk_def)

text \<open>While at most two hundred entries are expired, the roster is exactly the live participants: those
  registered whose expiry lies ahead.\<close>

theorem roster_lists_live:
  assumes "redis_client E view" "card (expired_sockets P b (view w)) \<le> 200"
    "getRoomParticipants E P b w = (ps, w')"
  shows "set ps = {p. \<exists>x j. live_participant P b (view w) x \<and>
     v_hash (view w) (participantsHashKey P b) x = Some j \<and> parse_participant j = Some p}"
  using assms by (rule redis_client.roster_live)

theorem roster_lists_live_witness:
  "\<exists>ps w'. getRoomParticipants mem_env default_options ''b'' one_seat_world = (ps, w') \<and> [(''userId'', JStr ''u'')] \<in> set ps"
proof -
  obtain ps w' where r: "getRoomParticipants mem_env default_options ''b'' one_seat_world = (ps, w')" by fastforce
  note x = one_seat_facts
  have e: "expired_sockets default_options ''b'' (mem_view one_seat_world) = {}"
    using x by (auto simp: expired_sockets_def split: if_splits)
  have "live_participant default_options ''b'' (mem_view one_seat_world) ''s1''"
    using x by (simp add: live_participant_def one_seat_registered)
  with roster_lists_live[OF mem.redis_client_axioms _ r] x(2) e r show ?thesis
    by (auto simp: stored_participant_def js_remove_def)
qed

text \<open>A heartbeat that arrives between the two commands of a prune is lost: the sockets read as expired are
  deleted although one of them has just been renewed, so a connected participant drops out of the room, and further
  heartbeats do not bring it back.\<close>

theorem prune_drops_renewed_participant:
  assumes "redis_client E view" "0 < po_ttlMs P"
    and "x \<in> registered P b (view w)" "x \<in> set (prune_read E P b w)"
    and w1: "w1 = touchParticipant E P b x w" and w2: "w2 = prune_delete E P b (prune_read E P b w) w1"
  shows "live_participant P b (view w1) x \<and> x \<notin> registered P b (view w2) \<and>
    x \<notin> registered P b (view (touchParticipant E P b x w2))"
proof -
  have "v_now (view w1) = v_now (view w)"
    by (simp add: w1 touchParticipant_def redis_client.written[OF assms(1)])
  moreover have "\<exists>t. expiry_of P b (view w1) x = Some t \<and> v_now (view w) < t"
    using assms(2) by (auto simp: w1 redis_client.expiry_touch[OF assms(1)] split: option.split)
  ultimately have "live_participant P b (view w1) x"
    using assms(3) by (auto simp: live_participant_def w1 redis_client.registered_touch[OF assms(1)])
  then show ?thesis
    using assms(4) by (simp add: w2 redis_client.registered_prune_delete[OF assms(1)] redis_client.registered_touch[OF assms(1)])
qed

definition late_world :: mem where
  "late_world = e_sleep mem_env 90000 one_seat_world"

lemma late_expiry:
  "expiry_of default_options ''b'' (mem_view late_world) = [''s1'' \<mapsto> 1090000]" "v_now (mem_view late_world) = 1090000"
  "registered default_options ''b'' (mem_view late_world) = {''s1''}"
proof -
  have v: "mem_view late_world = elapse 90000 (mem_view one_seat_world)"
    using mem_elapse[of one_seat_world 90000] by (simp add: late_world_def del: mem_view_sel)
  show "expiry_of default_options ''b'' (mem_view late_world) = [''s1'' \<mapsto> 1090000]"
    "v_now (mem_view late_world) = 1090000" "registered default_options ''b'' (mem_view late_world) = {''s1''}"
    using one_seat_facts one_seat_registered unfolding v by (simp_all add: room_defs del: mem_view_sel)
qed

theorem prune_drops_renewed_participant_witness:
  "\<exists>w2. w2 = prune_delete mem_env default_options ''b'' (prune_read mem_env default_options ''b'' late_world)
     (touchParticipant mem_env default_options ''b'' ''s1'' late_world) \<and>
     ''s1'' \<notin> registered default_options ''b'' (mem_view w2)"
proof -
  have exp: "expired_sockets default_options ''b'' (mem_view late_world) = {''s1''}"
    unfolding expired_sockets_def late_expiry by (auto split: if_splits)
  then have "''s1'' \<in> set (prune_read mem_env default_options ''b'' late_world)"
    using mem.prune_read_all[of default_options "''b''" late_world] by simp
  then show ?thesis
    using prune_drops_renewed_participant[OF mem.redis_client_axioms, of default_options "''s1''" "''b''" late_world]
    by (simp add: default_options_def[symmetric] late_expiry) (simp add: default_options_def DEFAULT_PARTICIPANT_TTL_MS_def)
qed

end
