(* ===== verification/Lock_Enforcement.thy ===== *)
theory Lock_Enforcement
  imports State_Utils
begin

text \<open>
  The operations of a mutation (\<open>mutations/types.ts\<close>) and the rules that protect locked elements
  and managed month ranges (\<open>mutations/lock-enforcement.ts\<close>): which operations are blocked, and
  the integrity check of a reconcile, which the lemmas show equivalent to a declarative condition.
\<close>

datatype operation =
    CREATE_ELEMENT string board_element
  | UPDATE_ELEMENT string js_object
  | DELETE_ELEMENTS "string list"
  | MOVE_ELEMENTS "(string \<times> rat \<times> rat) list" bool
  | UPDATE_ELEMENTS "(string \<times> js_object) list"
  | REORDER_ELEMENT string rat
  | RECONCILE_MONTH_RANGE string "board_element list" "string list"

type_synonym lock_context = "(string \<times> board_element) list"

definition POSITION_FIELDS :: "string list" where
  "POSITION_FIELDS = [''x'', ''y'', ''containerId'', ''containerColumnId'', ''containerOrder'',
     ''metaContainerId'', ''metaContainerOrder'', ''metaGridCol'', ''metaGridRow'', ''metaGridColSpan'',
     ''metaGridRowSpan'']"

definition isElementLocked :: "board_element \<Rightarrow> bool" where
  "isElementLocked e = (js_get ''locked'' e = Some (JBool True))"

definition parent_ids :: "board_element \<Rightarrow> string list" where
  "parent_ids e = (case string_field ''containerId'' e of Some p \<Rightarrow> [p] | None \<Rightarrow> [])
     @ (case string_field ''metaContainerId'' e of Some p \<Rightarrow> [p] | None \<Rightarrow> [])"

definition isInsideLockedContainer :: "lock_context \<Rightarrow> board_element \<Rightarrow> bool" where
  "isInsideLockedContainer ctx e = list_ex (\<lambda>p. case js_get p ctx of
     None \<Rightarrow> False | Some parent \<Rightarrow> isElementLocked parent) (parent_ids e)"

definition isPositionPatch :: "js_object \<Rightarrow> bool" where
  "isPositionPatch fields = list_ex (\<lambda>k. k \<in> set POSITION_FIELDS) (map fst fields)"

definition managed_meta :: "lock_context \<Rightarrow> string \<Rightarrow> bool" where
  \<comment> \<open>the element is known and its \<open>monthRange\<close> is not \<open>undefined\<close>\<close>
  "managed_meta ctx metaId = (case js_get metaId ctx of
     None \<Rightarrow> False | Some meta \<Rightarrow> js_get ''monthRange'' meta \<noteq> None)"

definition isInsideManagedMeta :: "lock_context \<Rightarrow> board_element \<Rightarrow> bool" where
  "isInsideManagedMeta ctx e = (case string_field ''metaContainerId'' e of
     None \<Rightarrow> False | Some metaId \<Rightarrow> managed_meta ctx metaId)"

definition patchesIntoManagedMeta :: "lock_context \<Rightarrow> board_element \<Rightarrow> js_object \<Rightarrow> bool" where
  "patchesIntoManagedMeta ctx e fields = (case string_field ''metaContainerId'' fields of
     None \<Rightarrow> False
   | Some target \<Rightarrow> if \<not> managed_meta ctx target then False
       else js_get ''metaContainerId'' e \<noteq> Some (JStr target))"

definition createsIntoManagedMeta :: "lock_context \<Rightarrow> board_element \<Rightarrow> bool" where
  "createsIntoManagedMeta ctx data = (case string_field ''metaContainerId'' data of
     None \<Rightarrow> False | Some target \<Rightarrow> managed_meta ctx target)"

fun isManagedMetaRecord :: "json option \<Rightarrow> bool" where
  \<comment> \<open>\<open>typeof value === 'object' && value !== null\<close>\<close>
  "isManagedMetaRecord (Some (JObj _)) = True"
| "isManagedMetaRecord (Some (JArr _)) = True"
| "isManagedMetaRecord _ = False"

section \<open>validateReconcileMonthRange\<close>

fun check_upserts :: "string \<Rightarrow> board_element list \<Rightarrow> string list \<Rightarrow> nat \<Rightarrow> string + string list \<times> nat" where
  \<comment> \<open>the loop over the upserts: the ids seen and the number of metas, or the first error\<close>
  "check_upserts metaId [] ids metas = Inr (ids, metas)"
| "check_upserts metaId (e # es) ids metas = (case string_field ''id'' e of
     None \<Rightarrow> Inl ''reconcile upsert missing id''
   | Some i \<Rightarrow>
       if i \<in> set ids then Inl ''reconcile upserts contain duplicate ids''
       else if i = metaId then
         (if \<not> isManagedMetaRecord (js_get ''monthRange'' e)
          then Inl ''reconcile meta upsert is not a managed month-range''
          else check_upserts metaId es (ids @ [i]) (metas + 1))
       else if js_get ''metaContainerId'' e \<noteq> Some (JStr metaId)
       then Inl ''reconcile upsert not contained in meta''
       else check_upserts metaId es (ids @ [i]) metas)"

fun check_deletes :: "lock_context \<Rightarrow> string \<Rightarrow> string list \<Rightarrow> string list \<Rightarrow> string list \<Rightarrow> string option" where
  "check_deletes ctx metaId upsertIds [] seen = None"
| "check_deletes ctx metaId upsertIds (d # ds) seen =
     (if d = metaId then Some ''reconcile may not delete its meta''
      else if d \<in> set seen then Some ''reconcile deletes contain duplicate ids''
      else if d \<in> set upsertIds then Some ''reconcile upserts and deletes overlap''
      else if (case js_get d ctx of None \<Rightarrow> False
          | Some e \<Rightarrow> js_get ''metaContainerId'' e \<noteq> Some (JStr metaId))
      then Some ''reconcile delete not contained in meta''
      else check_deletes ctx metaId upsertIds ds (seen @ [d]))"

fun validateReconcileMonthRange :: "operation \<Rightarrow> lock_context \<Rightarrow> string option" where
  "validateReconcileMonthRange (RECONCILE_MONTH_RANGE metaId upserts deletes) ctx =
     (if (case js_get metaId ctx of None \<Rightarrow> False
          | Some meta \<Rightarrow> \<not> isManagedMetaRecord (js_get ''monthRange'' meta))
      then Some ''reconcile meta is not a managed month-range''
      else if upserts = [] then Some ''reconcile upserts must not be empty''
      else (case check_upserts metaId upserts [] 0 of
          Inl err \<Rightarrow> Some err
        | Inr (ids, metas) \<Rightarrow>
            if metas \<noteq> 1 then Some ''reconcile upserts must include exactly one managed meta''
            else check_deletes ctx metaId ids deletes []))"
| "validateReconcileMonthRange _ ctx = None"

section \<open>isMutationBlockedByLock\<close>

definition element_protected :: "lock_context \<Rightarrow> board_element \<Rightarrow> bool" where
  "element_protected ctx e = (isElementLocked e \<or> isInsideLockedContainer ctx e \<or> isInsideManagedMeta ctx e)"

definition patch_blocked :: "lock_context \<Rightarrow> string \<Rightarrow> js_object \<Rightarrow> bool" where
  "patch_blocked ctx i fields =
     (if \<not> isPositionPatch fields then False
      else case js_get i ctx of
        None \<Rightarrow> False
      | Some e \<Rightarrow> element_protected ctx e \<or> patchesIntoManagedMeta ctx e fields)"

fun isMutationBlockedByLock :: "operation \<Rightarrow> lock_context \<Rightarrow> bool" where
  "isMutationBlockedByLock (MOVE_ELEMENTS moves transient) ctx =
     list_ex (\<lambda>(i, x, y). case js_get i ctx of None \<Rightarrow> False | Some e \<Rightarrow> element_protected ctx e) moves"
| "isMutationBlockedByLock (UPDATE_ELEMENT i fields) ctx = patch_blocked ctx i fields"
| "isMutationBlockedByLock (UPDATE_ELEMENTS updates) ctx =
     list_ex (\<lambda>(i, fields). patch_blocked ctx i fields) updates"
| "isMutationBlockedByLock (CREATE_ELEMENT i data) ctx = createsIntoManagedMeta ctx data"
| "isMutationBlockedByLock (DELETE_ELEMENTS ids) ctx =
     list_ex (\<lambda>i. case js_get i ctx of
       None \<Rightarrow> False
     | Some e \<Rightarrow> (case string_field ''metaContainerId'' e of
         None \<Rightarrow> False
       | Some metaId \<Rightarrow> if metaId \<in> set ids then False else managed_meta ctx metaId)) ids"
| "isMutationBlockedByLock _ ctx = False"

section \<open>Lemmas\<close>

fun_cases check_deletes_Some: "check_deletes ctx metaId ids ds seen = Some err"

definition reconcile_upserts_ok :: "string \<Rightarrow> board_element list \<Rightarrow> bool" where
  "reconcile_upserts_ok metaId es = (
     (\<forall>e \<in> set es. string_field ''id'' e \<noteq> None) \<and> distinct (map (string_field ''id'') es) \<and>
     (\<forall>e \<in> set es. if string_field ''id'' e = Some metaId then isManagedMetaRecord (js_get ''monthRange'' e)
        else js_get ''metaContainerId'' e = Some (JStr metaId)))"

definition reconcile_deletes_ok :: "lock_context \<Rightarrow> string \<Rightarrow> string list \<Rightarrow> string list \<Rightarrow> bool" where
  "reconcile_deletes_ok ctx metaId upsertIds ds = (
     metaId \<notin> set ds \<and> distinct ds \<and> set ds \<inter> set upsertIds = {} \<and>
     (\<forall>d \<in> set ds. \<forall>e. js_get d ctx = Some e \<longrightarrow> js_get ''metaContainerId'' e = Some (JStr metaId)))"

definition reconcile_ok :: "lock_context \<Rightarrow> string \<Rightarrow> board_element list \<Rightarrow> string list \<Rightarrow> bool" where
  "reconcile_ok ctx metaId es ds = (
     (\<forall>meta. js_get metaId ctx = Some meta \<longrightarrow> isManagedMetaRecord (js_get ''monthRange'' meta)) \<and>
     reconcile_upserts_ok metaId es \<and> Some metaId \<in> set (map (string_field ''id'') es) \<and>
     reconcile_deletes_ok ctx metaId (map el_id es) ds)"

lemma check_upserts_spec:
  "check_upserts metaId es ids metas = Inr (ids', metas') \<longleftrightarrow>
   reconcile_upserts_ok metaId es \<and> set (map (string_field ''id'') es) \<inter> Some ` set ids = {} \<and>
   ids' = ids @ map el_id es \<and>
   metas' = metas + (if Some metaId \<in> set (map (string_field ''id'') es) then 1 else 0)"
proof (induction metaId es ids metas rule: check_upserts.induct)
  case (1 metaId ids metas)
  then show ?case by (auto simp: reconcile_upserts_ok_def)
next
  case (2 metaId e es ids metas)
  show ?case
  proof (cases "string_field ''id'' e")
    case None
    then show ?thesis by (simp add: reconcile_upserts_ok_def)
  next
    case (Some i)
    then have eid: "el_id e = i" by (rule el_id_string)
    show ?thesis
    proof (cases "i \<in> set ids")
      case True
      then show ?thesis using Some by auto
    next
      case fresh: False
      show ?thesis
      proof (cases "i = metaId")
        case True
        then show ?thesis
          using 2(1)[OF Some fresh True] Some fresh eid
          by (auto simp: reconcile_upserts_ok_def)
      next
        case False
        then show ?thesis
          using 2(2)[OF Some fresh False] Some fresh eid
          by (auto simp: reconcile_upserts_ok_def)
      qed
    qed
  qed
qed

lemma check_deletes_spec:
  "check_deletes ctx metaId upsertIds ds seen = None \<longleftrightarrow>
   reconcile_deletes_ok ctx metaId upsertIds ds \<and> set ds \<inter> set seen = {}"
  by (induction ctx metaId upsertIds ds seen rule: check_deletes.induct)
     (auto simp: reconcile_deletes_ok_def split: option.splits)

lemma validate_spec:
  "validateReconcileMonthRange (RECONCILE_MONTH_RANGE metaId es ds) ctx = None \<longleftrightarrow> reconcile_ok ctx metaId es ds"
proof (cases "check_upserts metaId es [] 0")
  case (Inl err)
  then have "\<not> reconcile_upserts_ok metaId es"
    using check_upserts_spec[of metaId es "[]" 0] by auto
  then show ?thesis using Inl by (auto simp: reconcile_ok_def)
next
  case (Inr p)
  obtain ids metas where p: "p = (ids, metas)" by (cases p)
  have spec: "reconcile_upserts_ok metaId es" "ids = map el_id es"
    "metas = (if Some metaId \<in> set (map (string_field ''id'') es) then 1 else 0)"
    using check_upserts_spec[of metaId es "[]" 0 ids metas] Inr p by auto
  show ?thesis
    using spec Inr p check_deletes_spec[of ctx metaId ids ds "[]"]
    by (auto simp: reconcile_ok_def split: option.splits)
qed

lemma position_patch_other:
  assumes "\<not> isPositionPatch fields" "p \<in> set POSITION_FIELDS"
  shows "js_get p (js_spread e fields) = js_get p e"
proof -
  have "p \<notin> fst ` set (rev fields)"
    using assms by (auto simp: isPositionPatch_def list_ex_iff)
  then have "js_get p (rev fields) = None" unfolding js_get_None .
  then show ?thesis by (simp add: js_get_spread)
qed

section \<open>Properties\<close>

text \<open>C22: The integrity check of RECONCILE_MONTH_RANGE accepts exactly the self-consistent reconciles:
  a known meta is a managed range; the upserts have string ids without repetition and contain the
  meta itself, with a range, and otherwise only elements contained in it; the deletes are repetition
  free, spare the meta and the upserts, and every known one is contained in the meta.\<close>

theorem validateReconcileMonthRange_correct:
  "validateReconcileMonthRange (RECONCILE_MONTH_RANGE metaId es ds) ctx = None \<longleftrightarrow> reconcile_ok ctx metaId es ds"
  by (rule validate_spec)

end
