(* ===== verification/Mutation_Lock.thy ===== *)
theory Mutation_Lock
  imports Board_Load
begin

text \<open>
  The distributed mutation lock of a board (\<open>board-state/mutation-lock-domain.ts\<close>): acquisition
  with a deadline, renewal and release by token, and the wrapper that runs a task under the lock.
  \<open>lock_step\<close> interleaves any number of processes that use these operations; its invariant is
  mutual exclusion.
\<close>

section \<open>Operations\<close>

definition mutation_lock_attempt :: "'w env \<Rightarrow> string \<Rightarrow> 'w \<Rightarrow> string option \<times> 'w" where
  \<comment> \<open>one iteration of the acquisition loop: a fresh token and \<open>SET ... PX ... NX\<close>\<close>
  "mutation_lock_attempt E b w =
     (let (token, w) = e_uuid E w;
          (acquired, w) = e_set_nx_px E (boardMutationLockKey b) token BOARD_MUTATION_LOCK_TTL_MS w
      in (if acquired then Some token else None, w))"

definition board_busy :: js_error where
  "board_busy = AppError 503 ''Board is busy, try again shortly''"

partial_function (option) acquire_loop ::
    "'w env \<Rightarrow> string \<Rightarrow> int \<Rightarrow> 'w \<Rightarrow> (string result \<times> 'w) option" where
  "acquire_loop E b deadline w =
     (case mutation_lock_attempt E b w of
        (Some token, w) \<Rightarrow> Some (Inr token, w)
      | (None, w) \<Rightarrow>
          if deadline \<le> e_now E w then Some (Inl board_busy, w)
          else acquire_loop E b deadline (e_sleep E BOARD_MUTATION_LOCK_POLL_MS w))"

declare acquire_loop.simps [code]

definition acquireMutationLock :: "'w env \<Rightarrow> string \<Rightarrow> 'w \<Rightarrow> (string result \<times> 'w) option" where
  "acquireMutationLock E b w =
     acquire_loop E b (e_now E w + BOARD_MUTATION_LOCK_ACQUIRE_TIMEOUT_MS) w"

definition extendMutationLock :: "'w env \<Rightarrow> string \<Rightarrow> string \<Rightarrow> 'w \<Rightarrow> 'w" where
  \<comment> \<open>the Lua script: renew the time to live while the key holds the token\<close>
  "extendMutationLock E b token w =
     (if e_get E (boardMutationLockKey b) w = Some token
      then e_write E [PEXPIRE (boardMutationLockKey b) BOARD_MUTATION_LOCK_TTL_MS] w else w)"

definition releaseMutationLock :: "'w env \<Rightarrow> string \<Rightarrow> string \<Rightarrow> 'w \<Rightarrow> 'w" where
  "releaseMutationLock E b token w = eval_del_if_equal E (boardMutationLockKey b) token w"

definition withBoardMutationLock ::
    "'w env \<Rightarrow> string \<Rightarrow> ('w \<Rightarrow> ('a result \<times> 'w) option) \<Rightarrow> 'w \<Rightarrow> ('a result \<times> 'w) option" where
  \<comment> \<open>\<open>try { return await task() } finally { ... release }\<close>; the renewal timer acts while the task
     runs and is a step of its own in \<open>lock_step\<close>\<close>
  "withBoardMutationLock E b task w = do {
     (r, w) \<leftarrow> acquireMutationLock E b w;
     (case r of
        Inl err \<Rightarrow> Some (Inl err, w)
      | Inr token \<Rightarrow> do {
          (res, w) \<leftarrow> task w;
          Some (res, releaseMutationLock E b token w)
        })
   }"

section \<open>One operation\<close>

definition held_by :: "string \<Rightarrow> string \<Rightarrow> rview \<Rightarrow> bool" where
  "held_by b token v = (\<exists>t. v_strs v (boardMutationLockKey b) = Some (token, Some t))"

context redis_client
begin

lemma attempt_view:
  assumes "mutation_lock_attempt E b w = (r, w')"
  shows "if v_strs (view w) (boardMutationLockKey b) = None
    then \<exists>token. r = Some token \<and> view w' = (view w)\<lparr>v_strs := (v_strs (view w))(boardMutationLockKey b \<mapsto>
        (token, Some (v_now (view w) + BOARD_MUTATION_LOCK_TTL_MS)))\<rparr>
    else r = None \<and> view w' = view w"
proof -
  let ?k = "boardMutationLockKey b" and ?ttl = BOARD_MUTATION_LOCK_TTL_MS
  obtain token w1 where u: "e_uuid E w = (token, w1)" by (cases "e_uuid E w")
  obtain ok w2 where s: "e_set_nx_px E ?k token ?ttl w1 = (ok, w2)" by (cases "e_set_nx_px E ?k token ?ttl w1")
  have v1: "view w1 = view w" using uuid(1)[of w] u by simp
  have ok: "ok = (v_strs (view w) ?k = None)" using set_nx_reply[of ?k token ?ttl w1] s v1 by simp
  have v2: "view w2 = (if v_strs (view w) ?k = None then redis_step (SET_PX ?k token ?ttl) (view w) else view w)"
    using set_nx[of ?k token ?ttl w1] unfolding s v1 snd_conv .
  have r: "r = (if ok then Some token else None)" "w' = w2"
    using assms u s by (auto simp: mutation_lock_attempt_def)
  show ?thesis
  proof (cases "v_strs (view w) ?k = None")
    case True
    then show ?thesis using ok v2 r by (simp add: BOARD_MUTATION_LOCK_TTL_MS_def)
  next
    case False
    then show ?thesis using ok v2 r by (simp only: if_False)
  qed
qed

lemma acquire_free:
  assumes "v_strs (view w) (boardMutationLockKey b) = None"
  shows "\<exists>token w'. acquireMutationLock E b w = Some (Inr token, w') \<and>
    view w' = (view w)\<lparr>v_strs := (v_strs (view w))(boardMutationLockKey b \<mapsto>
        (token, Some (v_now (view w) + BOARD_MUTATION_LOCK_TTL_MS)))\<rparr>"
proof -
  obtain r w' where a: "mutation_lock_attempt E b w = (r, w')" by (cases "mutation_lock_attempt E b w")
  obtain token where t: "r = Some token" "view w' = (view w)\<lparr>v_strs := (v_strs (view w))(boardMutationLockKey b \<mapsto>
        (token, Some (v_now (view w) + BOARD_MUTATION_LOCK_TTL_MS)))\<rparr>"
    using attempt_view[OF a] assms by auto
  then show ?thesis using a by (simp add: acquireMutationLock_def acquire_loop.simps)
qed

lemma release_view:
  "view (releaseMutationLock E b token w) =
   (if map_option fst (v_strs (view w) (boardMutationLockKey b)) = Some token
    then redis_step (DEL [boardMutationLockKey b]) (view w) else view w)"
  unfolding releaseMutationLock_def by (rule del_if_equal)

lemma release_own:
  "map_option fst (v_strs (view w) (boardMutationLockKey b)) = Some token \<Longrightarrow>
   v_strs (view (releaseMutationLock E b token w)) (boardMutationLockKey b) = None"
  by (simp add: release_view)

lemma release_foreign:
  "map_option fst (v_strs (view w) (boardMutationLockKey b)) \<noteq> Some token \<Longrightarrow>
   view (releaseMutationLock E b token w) = view w"
  by (simp only: release_view if_False)

lemma extend_view:
  "v_strs (view (extendMutationLock E b token w)) (boardMutationLockKey b) =
   (case v_strs (view w) (boardMutationLockKey b) of
      Some (s, e) \<Rightarrow> if s = token then Some (s, Some (v_now (view w) + BOARD_MUTATION_LOCK_TTL_MS)) else Some (s, e)
    | None \<Rightarrow> None)"
  by (auto simp: extendMutationLock_def get written BOARD_MUTATION_LOCK_TTL_MS_def split: option.splits)

end

context quiet_services
begin

lemma acquire_loop_returns:
  "nat (deadline - v_now (view w)) \<le> n \<Longrightarrow>
   \<exists>r w'. acquire_loop E b deadline w = Some (r, w') \<and>
     (\<forall>err. r = Inl err \<longrightarrow> err = board_busy \<and> deadline \<le> v_now (view w') \<and>
        v_strs (view w') (boardMutationLockKey b) \<noteq> None) \<and>
     (\<forall>token. r = Inr token \<longrightarrow> v_strs (view w') (boardMutationLockKey b) =
        Some (token, Some (v_now (view w') + BOARD_MUTATION_LOCK_TTL_MS)))"
proof (induction n arbitrary: w rule: less_induct)
  case (less n)
  obtain r w1 where a: "mutation_lock_attempt E b w = (r, w1)" by (cases "mutation_lock_attempt E b w")
  show ?case
  proof (cases "v_strs (view w) (boardMutationLockKey b) = None")
    case True
    then obtain token where "r = Some token" "view w1 = (view w)\<lparr>v_strs := (v_strs (view w))(boardMutationLockKey b \<mapsto>
        (token, Some (v_now (view w) + BOARD_MUTATION_LOCK_TTL_MS)))\<rparr>"
      using attempt_view[OF a] by auto
    then show ?thesis using a by (simp add: acquire_loop.simps[of E b deadline w])
  next
    case held: False
    then have r: "r = None" "view w1 = view w" using attempt_view[OF a] by auto
    show ?thesis
    proof (cases "deadline \<le> v_now (view w)")
      case True
      then have "acquire_loop E b deadline w = Some (Inl board_busy, w1)"
        using a r by (simp add: acquire_loop.simps[of E b deadline w] now)
      then show ?thesis using True held r(2) by simp
    next
      case False
      let ?w2 = "e_sleep E BOARD_MUTATION_LOCK_POLL_MS w1"
      obtain d where d: "int BOARD_MUTATION_LOCK_POLL_MS \<le> d" "view ?w2 = elapse d (view w1)" using sleep by blast
      have eq: "acquire_loop E b deadline w = acquire_loop E b deadline ?w2"
        using False a r by (simp add: acquire_loop.simps[of E b deadline w] now)
      have "nat (deadline - v_now (view ?w2)) < n"
        using False less.prems d r(2) by (simp add: BOARD_MUTATION_LOCK_POLL_MS_def)
      from less.IH[OF this order_refl] show ?thesis unfolding eq .
    qed
  qed
qed

lemma acquire_returns:
  "\<exists>r w'. acquireMutationLock E b w = Some (r, w') \<and>
     (\<forall>err. r = Inl err \<longrightarrow> err = board_busy \<and>
        v_now (view w) + BOARD_MUTATION_LOCK_ACQUIRE_TIMEOUT_MS \<le> v_now (view w') \<and>
        v_strs (view w') (boardMutationLockKey b) \<noteq> None) \<and>
     (\<forall>token. r = Inr token \<longrightarrow> v_strs (view w') (boardMutationLockKey b) =
        Some (token, Some (v_now (view w') + BOARD_MUTATION_LOCK_TTL_MS)))"
  unfolding acquireMutationLock_def now by (rule acquire_loop_returns[OF order_refl])

end

section \<open>Many processes\<close>

record 'w lock_system =
  ls_world :: 'w
  ls_token :: "nat \<Rightarrow> string option"
    \<comment> \<open>the token of a process that believes it has the lock\<close>
  ls_until :: "nat \<Rightarrow> int"
    \<comment> \<open>when its lease runs out, unless a renewal finds the token in the key before\<close>

definition key_holds :: "('w \<Rightarrow> rview) \<Rightarrow> string \<Rightarrow> string \<Rightarrow> 'w \<Rightarrow> bool" where
  "key_holds view b token w = (map_option fst (v_strs (view w) (boardMutationLockKey b)) = Some token)"

inductive lock_step :: "'w env \<Rightarrow> ('w \<Rightarrow> rview) \<Rightarrow> string \<Rightarrow> 'w lock_system \<Rightarrow> 'w lock_system \<Rightarrow> bool"
  for E :: "'w env" and view :: "'w \<Rightarrow> rview" and b :: string where
  attempt: \<comment> \<open>\<open>randomUUID\<close> does not repeat a token in use\<close>
  "ls_token s p = None \<Longrightarrow> mutation_lock_attempt E b (ls_world s) = (r, w') \<Longrightarrow>
    (\<And>q token. r = Some token \<Longrightarrow> ls_token s q \<noteq> Some token) \<Longrightarrow>
    lock_step E view b s (s\<lparr>ls_world := w', ls_token := (ls_token s)(p := r),
      ls_until := (ls_until s)(p := v_now (view (ls_world s)) + BOARD_MUTATION_LOCK_TTL_MS)\<rparr>)"
| renew: "ls_token s p = Some token \<Longrightarrow>
    lock_step E view b s (s\<lparr>ls_world := extendMutationLock E b token (ls_world s),
      ls_until := (if key_holds view b token (ls_world s)
        then (ls_until s)(p := v_now (view (ls_world s)) + BOARD_MUTATION_LOCK_TTL_MS) else ls_until s)\<rparr>)"
| release: "ls_token s p = Some token \<Longrightarrow>
    lock_step E view b s (s\<lparr>ls_world := releaseMutationLock E b token (ls_world s),
      ls_token := (ls_token s)(p := None)\<rparr>)"
| work: \<comment> \<open>any other command, of the task or of another board: it leaves this lock key alone\<close>
  "v_strs (view w') (boardMutationLockKey b) = v_strs (view (ls_world s)) (boardMutationLockKey b) \<Longrightarrow>
   v_now (view w') = v_now (view (ls_world s)) \<Longrightarrow>
   lock_step E view b s (s\<lparr>ls_world := w'\<rparr>)"
| tick: \<comment> \<open>time passes, also beyond the expiry of a lock whose holder still works\<close>
  "0 \<le> d \<Longrightarrow> view w' = elapse d (view (ls_world s)) \<Longrightarrow> lock_step E view b s (s\<lparr>ls_world := w'\<rparr>)"

definition leased :: "('w \<Rightarrow> rview) \<Rightarrow> 'w lock_system \<Rightarrow> nat \<Rightarrow> bool" where
  "leased view s p = (ls_token s p \<noteq> None \<and> v_now (view (ls_world s)) < ls_until s p)"

definition lock_inv :: "('w \<Rightarrow> rview) \<Rightarrow> string \<Rightarrow> 'w lock_system \<Rightarrow> bool" where
  "lock_inv view b s = ((\<forall>p token. leased view s p \<longrightarrow> ls_token s p = Some token \<longrightarrow>
       v_strs (view (ls_world s)) (boardMutationLockKey b) = Some (token, Some (ls_until s p))) \<and>
     (\<forall>p q token. ls_token s p = Some token \<longrightarrow> ls_token s q = Some token \<longrightarrow> p = q))"

lemma lock_invI:
  assumes "\<And>p token. leased view s p \<Longrightarrow> ls_token s p = Some token \<Longrightarrow>
      v_strs (view (ls_world s)) (boardMutationLockKey b) = Some (token, Some (ls_until s p))"
    and "\<And>p q token. ls_token s p = Some token \<Longrightarrow> ls_token s q = Some token \<Longrightarrow> p = q"
  shows "lock_inv view b s"
  using assms by (auto simp: lock_inv_def)

lemma lock_invD:
  assumes "lock_inv view b s"
  shows "leased view s p \<Longrightarrow> ls_token s p = Some token \<Longrightarrow>
      v_strs (view (ls_world s)) (boardMutationLockKey b) = Some (token, Some (ls_until s p))"
    and "ls_token s p = Some token \<Longrightarrow> ls_token s q = Some token \<Longrightarrow> p = q"
  using assms by (auto simp: lock_inv_def)

context redis_client
begin

lemma attempt_now: "mutation_lock_attempt E b w = (r, w') \<Longrightarrow> v_now (view w') = v_now (view w)"
  using attempt_view[of b w r w'] by (auto split: if_splits)

lemma extend_now: "v_now (view (extendMutationLock E b token w)) = v_now (view w)"
  by (simp add: extendMutationLock_def written split: option.split)

lemma release_now: "v_now (view (releaseMutationLock E b token w)) = v_now (view w)"
  by (simp add: release_view)

lemma lock_inv_step:
  assumes "lock_step E view b s s'" "lock_inv view b s"
  shows "lock_inv view b s'"
  using assms(1)
proof cases
  case (attempt p r w')
  let ?k = "boardMutationLockKey b"
  show ?thesis
  proof (cases "v_strs (view (ls_world s)) ?k = None")
    case True
    then obtain token where r: "r = Some token" "v_strs (view w') ?k =
        Some (token, Some (v_now (view (ls_world s)) + BOARD_MUTATION_LOCK_TTL_MS))"
      using attempt_view[OF attempt(3)] by auto
    have "\<not> leased view s q" for q using True assms(2) by (auto simp: lock_inv_def leased_def)
    then have "\<not> leased view s' q" if "q \<noteq> p" for q
      using that by (simp add: attempt(1) leased_def attempt_now[OF attempt(3)])
    moreover have "ls_token s q \<noteq> Some token" for q using attempt(4)[OF r(1)] .
    ultimately show ?thesis using assms(2) r by (auto simp: lock_inv_def attempt(1) split: if_splits)
  next
    case False
    then have "r = None" "view w' = view (ls_world s)" using attempt_view[OF attempt(3)] by auto
    then show ?thesis using assms(2) by (auto simp: lock_inv_def leased_def attempt(1))
  qed
next
  case (renew p token)
  have other: "q = p" if "leased view s q" "key_holds view b token (ls_world s)" for q
    using that renew(2) assms(2) by (auto simp: lock_inv_def leased_def key_holds_def)
  show ?thesis
  proof (cases "key_holds view b token (ls_world s)")
    case True
    then have "v_strs (view (ls_world s')) (boardMutationLockKey b) =
        Some (token, Some (v_now (view (ls_world s)) + BOARD_MUTATION_LOCK_TTL_MS))"
      by (auto simp: renew(1) extend_view key_holds_def)
    then show ?thesis using True assms(2) renew(2) other
      by (auto simp: lock_inv_def leased_def renew(1) extend_now split: if_splits)
  next
    case False
    then have "v_strs (view (ls_world s')) (boardMutationLockKey b) = v_strs (view (ls_world s)) (boardMutationLockKey b)"
      by (auto simp: renew(1) extend_view key_holds_def split: option.splits)
    then show ?thesis using False assms(2) by (auto simp: lock_inv_def leased_def renew(1) extend_now)
  qed
next
  case (release p token)
  have keep: "v_strs (view (ls_world s')) (boardMutationLockKey b) = v_strs (view (ls_world s)) (boardMutationLockKey b)"
    if q: "leased view s q" "q \<noteq> p" for q
  proof -
    obtain t where t: "ls_token s q = Some t" using q(1) by (auto simp: leased_def)
    then have "v_strs (view (ls_world s)) (boardMutationLockKey b) = Some (t, Some (ls_until s q))" "t \<noteq> token"
      using lock_invD(1)[OF assms(2) q(1) t] lock_invD(2)[OF assms(2) t, of p] q(2) release(2) by auto
    then show ?thesis by (simp add: release(1) release_foreign)
  qed
  have still: "leased view s q \<and> q \<noteq> p" if "leased view s' q" for q
    using that by (auto simp: leased_def release(1) release_now split: if_splits)
  show ?thesis
  proof (rule lock_invI)
    fix q t assume "leased view s' q" "ls_token s' q = Some t"
    then show "v_strs (view (ls_world s')) (boardMutationLockKey b) = Some (t, Some (ls_until s' q))"
      using still[of q] keep[of q] assms(2) by (auto simp: lock_inv_def release(1) split: if_splits)
  next
    fix q q' t assume "ls_token s' q = Some t" "ls_token s' q' = Some t"
    then show "q = q'" using assms(2) by (auto simp: lock_inv_def release(1) split: if_splits)
  qed
next
  case (work w')
  then show ?thesis using assms(2) by (simp add: lock_inv_def leased_def)
next
  case (tick d w')
  have "leased view s' p \<Longrightarrow> leased view s p" for p using tick by (auto simp: leased_def)
  then show ?thesis using assms(2) tick
    by (auto simp: lock_inv_def leased_def elapse_expiring)
qed

lemma lock_inv_reachable:
  assumes "(lock_step E view b)\<^sup>*\<^sup>* s s'" "\<forall>p. ls_token s p = None"
  shows "lock_inv view b s'"
  using assms(1)
proof (induction rule: rtranclp_induct)
  case base
  then show ?case using assms(2) by (simp add: lock_inv_def leased_def)
next
  case (step s1 s2)
  then show ?case using lock_inv_step by blast
qed

lemma with_lock_free:
  assumes "v_strs (view w) (boardMutationLockKey b) = None"
    and task: "\<And>w. \<exists>r w'. task w = Some (r, w') \<and>
      v_strs (view w') (boardMutationLockKey b) = v_strs (view w) (boardMutationLockKey b)"
  shows "\<exists>token res w1 w2 w3. withBoardMutationLock E b task w = Some (res, w3) \<and>
    held_by b token (view w1) \<and> task w1 = Some (res, w2) \<and> w3 = releaseMutationLock E b token w2 \<and>
    v_strs (view w3) (boardMutationLockKey b) = None"
proof -
  obtain token w1 where a: "acquireMutationLock E b w = Some (Inr token, w1)"
    "view w1 = (view w)\<lparr>v_strs := (v_strs (view w))(boardMutationLockKey b \<mapsto>
        (token, Some (v_now (view w) + BOARD_MUTATION_LOCK_TTL_MS)))\<rparr>"
    using acquire_free[OF assms(1)] by blast
  obtain res w2 where t: "task w1 = Some (res, w2)"
    "v_strs (view w2) (boardMutationLockKey b) = v_strs (view w1) (boardMutationLockKey b)"
    using task by blast
  let ?w3 = "releaseMutationLock E b token w2"
  have "v_strs (view ?w3) (boardMutationLockKey b) = None"
    by (rule release_own) (simp add: t(2) a(2))
  moreover have "withBoardMutationLock E b task w = Some (res, ?w3)"
    by (simp add: withBoardMutationLock_def a(1) t(1))
  moreover have "held_by b token (view w1)" by (simp add: held_by_def a(2))
  ultimately show ?thesis using t(1) by blast
qed

end

section \<open>Properties\<close>



text \<open>C29: Acquiring the mutation lock always returns: with a token that the key now holds for the full
  time to live, or, when the key is still taken and the acquisition time of two seconds is used up,
  with the 503 error.\<close>

theorem acquireMutationLock_returns:
  assumes "quiet_services E view"
  shows "\<exists>r w'. acquireMutationLock E b w = Some (r, w') \<and>
     (\<forall>err. r = Inl err \<longrightarrow> err = board_busy \<and>
        v_now (view w) + BOARD_MUTATION_LOCK_ACQUIRE_TIMEOUT_MS \<le> v_now (view w') \<and>
        v_strs (view w') (boardMutationLockKey b) \<noteq> None) \<and>
     (\<forall>token. r = Inr token \<longrightarrow> v_strs (view w') (boardMutationLockKey b) =
        Some (token, Some (v_now (view w') + BOARD_MUTATION_LOCK_TTL_MS)))"
  using assms by (rule quiet_services.acquire_returns)

theorem acquireMutationLock_returns_witness:
  "\<exists>r w'. acquireMutationLock mem_env ''b1'' (mem0\<lparr>m_strs := [(boardMutationLockKey ''b1'', (''other'', Some 1001000))]\<rparr>)
      = Some (r, w') \<and>
    (\<forall>token. r = Inr token \<longrightarrow> v_strs (mem_view w') (boardMutationLockKey ''b1'') =
        Some (token, Some (v_now (mem_view w') + BOARD_MUTATION_LOCK_TTL_MS)))"
  using acquireMutationLock_returns[OF mem.quiet_services_axioms] by blast

text \<open>\<open>withBoardMutationLock\<close> on a free board runs the task while the key holds its token, hands on
  the task's value or its error, and has released the lock in both cases.\<close>

theorem withBoardMutationLock_releases:
  assumes "redis_client E view" "v_strs (view w) (boardMutationLockKey b) = None"
    and "\<And>w. \<exists>r w'. task w = Some (r, w') \<and>
      v_strs (view w') (boardMutationLockKey b) = v_strs (view w) (boardMutationLockKey b)"
  shows "\<exists>token res w1 w2 w3. withBoardMutationLock E b task w = Some (res, w3) \<and>
    held_by b token (view w1) \<and> task w1 = Some (res, w2) \<and> w3 = releaseMutationLock E b token w2 \<and>
    v_strs (view w3) (boardMutationLockKey b) = None"
  using assms by (rule redis_client.with_lock_free)

theorem withBoardMutationLock_releases_witness:
  "\<exists>token res w1 w2 w3. withBoardMutationLock mem_env ''b1'' (\<lambda>w. Some (Inl board_busy :: nat result, w)) mem0
      = Some (res, w3) \<and>
    held_by ''b1'' token (mem_view w1) \<and> Some (Inl board_busy :: nat result, w1) = Some (res, w2) \<and>
    w3 = releaseMutationLock mem_env ''b1'' token w2 \<and>
    v_strs (mem_view w3) (boardMutationLockKey ''b1'') = None"
  by (rule withBoardMutationLock_releases[OF mem.redis_client_axioms]) (simp_all add: mem_str_eval)

end
