(* ===== verification/Flush_Interleaving.thy ===== *)
theory Flush_Interleaving
  imports Persistence
begin

text \<open>
  The flush of a board is a sequence of awaited phases, and mutations run between them. This
  theory interleaves the phases of \<open>Persistence\<close> with \<open>applyChangeSet\<close> of \<open>Board_State\<close>: one
  flusher (what \<open>withPersistLock\<close> gives inside one process) never loses a mark, while two
  flushers in different processes can.
\<close>

datatype flush_phase =
    Idle
  | Began flush_snapshot
  | Dirty_listed flush_snapshot int "string list"
  | Listed flush_snapshot int "string list" "string list"
  | Gathered flush_snapshot int "flush_batch option"
  | Committed flush_snapshot

record 'w flush_system =
  fy_world :: 'w
  fy_phase :: flush_phase

inductive flush_step :: "'w env \<Rightarrow> ('w \<Rightarrow> rview) \<Rightarrow> string \<Rightarrow> 'w flush_system \<Rightarrow> 'w flush_system \<Rightarrow> bool"
  for E :: "'w env" and view :: "'w \<Rightarrow> rview" and b :: string where
  mutate: "applyChangeSet E b cs opts (fy_world s) = Some (r, w') \<Longrightarrow>
     [] \<notin> el_id ` set (cs_upserts cs) \<Longrightarrow> [] \<notin> delete_closure b cs opts (view (fy_world s)) \<Longrightarrow>
     flush_step E view b s (s\<lparr>fy_world := w'\<rparr>)"
| begin_flush: "fy_phase s = Idle \<Longrightarrow> flush_begin E b (fy_world s) = Some (snap, w') \<Longrightarrow>
     flush_step E view b s \<lparr>fy_world = w', fy_phase = Began snap\<rparr>"
| list_dirty: "fy_phase s = Began snap \<Longrightarrow>
     flush_step E view b s (s\<lparr>fy_phase := Dirty_listed snap ts (e_smembers E (boardDirtyElementIdsKey b) (fy_world s))\<rparr>)"
| list_deleted: "fy_phase s = Dirty_listed snap ts ds \<Longrightarrow>
     flush_step E view b s (s\<lparr>fy_phase := Listed snap ts ds (e_smembers E (boardDeletedElementIdsKey b) (fy_world s))\<rparr>)"
| gather: "fy_phase s = Listed snap ts ds rs \<Longrightarrow>
     flush_step E view b s (s\<lparr>fy_phase := Gathered snap ts (flush_docs E b ts ds rs (fy_world s))\<rparr>)"
| commit_ok: "fy_phase s = Gathered snap ts batch \<Longrightarrow>
     flush_commit E b ts batch (fy_world s) = (Inr counts, w') \<Longrightarrow>
     flush_step E view b s \<lparr>fy_world = w', fy_phase = Committed snap\<rparr>"
| commit_err: "fy_phase s = Gathered snap ts batch \<Longrightarrow>
     flush_commit E b ts batch (fy_world s) = (Inl err, w') \<Longrightarrow>
     flush_step E view b s \<lparr>fy_world = w', fy_phase = Idle\<rparr>"
| clear: "fy_phase s = Committed snap \<Longrightarrow> flush_clear E True b snap (fy_world s) = (ok, w') \<Longrightarrow>
     flush_step E view b s \<lparr>fy_world = w', fy_phase = Idle\<rparr>"

fun phase_ok :: "string \<Rightarrow> rview \<Rightarrow> flush_phase \<Rightarrow> bool" where
  "phase_ok b v Idle = True"
| "phase_ok b v (Began snap) = (fs_epoch snap \<le> counter v (boardDirtyEpochKey b))"
| "phase_ok b v (Dirty_listed snap ts ds) = (fs_epoch snap \<le> counter v (boardDirtyEpochKey b) \<and>
     distinct ds \<and> set ds \<subseteq> marks b v \<and>
     (counter v (boardDirtyEpochKey b) = fs_epoch snap \<longrightarrow> set ds = v_set v (boardDirtyElementIdsKey b)))"
| "phase_ok b v (Listed snap ts ds rs) = (fs_epoch snap \<le> counter v (boardDirtyEpochKey b) \<and>
     distinct ds \<and> set ds \<union> set rs \<subseteq> marks b v \<and>
     (counter v (boardDirtyEpochKey b) = fs_epoch snap \<longrightarrow>
        set ds = v_set v (boardDirtyElementIdsKey b) \<and> set rs = v_set v (boardDeletedElementIdsKey b)))"
| "phase_ok b v (Gathered snap ts None) = (fs_epoch snap \<le> counter v (boardDirtyEpochKey b) \<and>
     (counter v (boardDirtyEpochKey b) = fs_epoch snap \<longrightarrow> marks b v = {}))"
| "phase_ok b v (Gathered snap ts (Some bt)) = (fs_epoch snap \<le> counter v (boardDirtyEpochKey b) \<and>
     batch_for b ts bt \<and> batch_ids bt \<subseteq> marks b v \<and>
     (counter v (boardDirtyEpochKey b) = fs_epoch snap \<longrightarrow> saves_marked b v ts bt))"
| "phase_ok b v (Committed snap) = (fs_epoch snap \<le> counter v (boardDirtyEpochKey b) \<and>
     (counter v (boardDirtyEpochKey b) = fs_epoch snap \<longrightarrow> all_synced b v))"

definition loaded_ok :: "string \<Rightarrow> rview \<Rightarrow> bool" where
  \<comment> \<open>a loaded board in good order\<close>
  "loaded_ok b v = (v_strs v (boardEvictionLockKey b) = None \<and>
     (\<exists>n. v_strs v (boardSeqKey b) = Some (dec n, None)) \<and>
     counter_ok v (boardDirtyEpochKey b) \<and> marked_inv b v \<and> wf_elements b v \<and> [] \<notin> marks b v)"

definition flush_inv :: "('w \<Rightarrow> rview) \<Rightarrow> string \<Rightarrow> 'w flush_system \<Rightarrow> bool" where
  "flush_inv view b s = (loaded_ok b (view (fy_world s)) \<and> phase_ok b (view (fy_world s)) (fy_phase s))"

lemma gathers:
  "(flush_step E view b)\<^sup>*\<^sup>* \<lparr>fy_world = w, fy_phase = Began snap\<rparr> \<lparr>fy_world = w, fy_phase = Gathered snap ts (flush_read E b ts w)\<rparr>"
proof -
  note [intro] = converse_rtranclp_into_rtranclp
  let ?s = "\<lambda>ph. \<lparr>fy_world = w, fy_phase = ph\<rparr>"
  let ?ds = "e_smembers E (boardDirtyElementIdsKey b) w" and ?rs = "e_smembers E (boardDeletedElementIdsKey b) w"
  have 1: "flush_step E view b (?s (Began snap)) (?s (Dirty_listed snap ts ?ds))"
    using flush_step.list_dirty[of "?s (Began snap)" snap E view b ts] by simp
  have 2: "flush_step E view b (?s (Dirty_listed snap ts ?ds)) (?s (Listed snap ts ?ds ?rs))"
    using flush_step.list_deleted[of "?s (Dirty_listed snap ts ?ds)" snap ts ?ds E view b] by simp
  have 3: "flush_step E view b (?s (Listed snap ts ?ds ?rs)) (?s (Gathered snap ts (flush_read E b ts w)))"
    using flush_step.gather[of "?s (Listed snap ts ?ds ?rs)" snap ts ?ds ?rs E view b] by (simp add: flush_read_def)
  show ?thesis using 1 2 3 by blast
qed

lemma marks_abs: "marks b v = ab_dirty (abs_board b v) \<union> ab_deleted (abs_board b v)"
  by (simp add: marks_def abs_board_def)

lemma loaded_ok_pg:
  assumes "loaded_ok b v" "marked_inv b (fold pg_step ss v)"
  shows "loaded_ok b (fold pg_step ss v)"
  using assms by (simp add: loaded_ok_def counter_ok_def wf_elements_def)

context services
begin

lemma loaded_ok_ready: "loaded_ok b (view w) \<Longrightarrow> board_ready E b w"
  by (auto simp: loaded_ok_def board_ready_view)

lemma mutate_grows:
  assumes "loaded_ok b (view w)" "applyChangeSet E b cs opts w = Some (Some c, w')"
    "[] \<notin> el_id ` set (cs_upserts cs)" "[] \<notin> delete_closure b cs opts (view w)"
  shows "loaded_ok b (view w')"
    and "marks b (view w) \<subseteq> marks b (view w')"
    and "counter (view w') (boardDirtyEpochKey b) = counter (view w) (boardDirtyEpochKey b) + 1"
proof -
  have ready: "board_ready E b w" and ok: "counter_ok (view w) (boardDirtyEpochKey b)" and
    wf: "wf_elements b (view w)" and mi: "marked_inv b (view w)" and ne: "[] \<notin> marks b (view w)"
    using assms(1) loaded_ok_ready by (auto simp: loaded_ok_def)
  obtain n where seq: "v_strs (view w) (boardSeqKey b) = Some (dec n, None)"
    using assms(1) by (auto simp: loaded_ok_def)
  have post: "pc_upserts c = effective_upserts (v_now (view w)) (cs_upserts cs) (pc_deletes c)"
      "set (pc_deletes c) = delete_closure b cs opts (view w)"
      "abs_board b (view w') = (spec_change (track_change_log opts) c (abs_board b (view w)))\<lparr>ab_sequence := n + 1\<rparr>"
      "v_strs (view w') (boardSeqKey b) = Some (dec (n + 1), None)"
    using applyChangeSet_refines[OF ready seq ok, of cs opts] assms(2) by auto
  have v': "view w' = fold redis_step (change_commands b (track_change_log opts) c)
      (redis_step (INCR (boardSeqKey b)) (view w))"
    using applyChangeSet_view[OF ready seq ok, of cs opts] assms(2) by (auto simp del: redis_step.simps)
  have evict: "v_strs (view w') (boardEvictionLockKey b) = None"
    unfolding v' change_commands_frame
    using assms(1) redis_step_incr_frame(1)[of "boardEvictionLockKey b" "boardSeqKey b" "view w"]
    by (simp add: loaded_ok_def key_defs del: redis_step.simps)
  have "counter_ok (redis_step (INCR (boardSeqKey b)) (view w)) (boardDirtyEpochKey b)"
    using ok by (simp add: counter_ok_def redis_step_incr_frame key_defs del: redis_step.simps)
  then have ok': "counter_ok (view w') (boardDirtyEpochKey b)" unfolding v' by (rule change_commands_epoch)
  have mi': "marked_inv b (view w')"
    using applyChangeSet_marked[OF ready seq ok mi, of cs opts] assms(2) by auto
  have hash': "v_hash (view w') (boardElementsKey b) =
      overlay (pc_upserts c) (pc_deletes c) (v_hash (view w) (boardElementsKey b))"
    using arg_cong[OF post(3), of ab_elements] by (simp add: abs_board_def spec_change_def Let_def)
  have U: "el_id ` set (pc_upserts c) \<subseteq> el_id ` set (cs_upserts cs)"
  proof -
    have "set (map el_id (pc_upserts c)) \<subseteq> set (map el_id (cs_upserts cs))"
      unfolding post(1) effective_upserts_ids by auto
    then show ?thesis by simp
  qed
  have marks': "marks b (view w') = marks b (view w) \<union> el_id ` set (pc_upserts c) \<union> set (pc_deletes c)"
    unfolding marks_abs post(3) by (auto simp: spec_change_def Let_def)
  show "loaded_ok b (view w')"
    unfolding loaded_ok_def using evict post(4) ok' mi' overlay_wf[OF wf hash'] ne assms(3,4) U post(2)
    by (auto simp: marks')
  show "marks b (view w) \<subseteq> marks b (view w')" unfolding marks' by blast
  show "counter (view w') (boardDirtyEpochKey b) = counter (view w) (boardDirtyEpochKey b) + 1"
    using arg_cong[OF post(3), of ab_epoch] by (simp add: abs_board_def spec_change_def Let_def)
qed

lemma phase_ok_mutated:
  assumes "phase_ok b v ph" "marks b v \<subseteq> marks b v'"
    "counter v' (boardDirtyEpochKey b) = counter v (boardDirtyEpochKey b) + 1"
  shows "phase_ok b v' ph"
  using assms by (cases "(b, v, ph)" rule: phase_ok.cases) auto

lemma flush_inv_step:
  assumes "flush_step E view b s s'" "flush_inv view b s"
  shows "flush_inv view b s'"
  using assms(1)
proof cases
  case (mutate cs opts r w')
  show ?thesis
  proof (cases r)
    case None
    obtain n where "v_strs (view (fy_world s)) (boardSeqKey b) = Some (dec n, None)"
      using assms(2) by (auto simp: flush_inv_def loaded_ok_def)
    then have "w' = fy_world s"
      using applyChangeSet_refines[of b "fy_world s" n cs opts] mutate(2) None assms(2) loaded_ok_ready
      by (auto simp: flush_inv_def loaded_ok_def)
    then show ?thesis using mutate(1) assms(2) by simp
  next
    case (Some c)
    note g = mutate_grows[OF _ mutate(2)[unfolded Some] mutate(3,4)]
    show ?thesis
      using mutate(1) assms(2) g phase_ok_mutated[of b "view (fy_world s)" "fy_phase s" "view w'"]
      by (simp add: flush_inv_def)
  qed
next
  case (begin_flush snap w')
  then have "w' = fy_world s" "fs_epoch snap = counter (view (fy_world s)) (boardDirtyEpochKey b)"
    using assms(2) flush_begin_ready[OF loaded_ok_ready] by (auto simp: flush_inv_def)
  then show ?thesis using begin_flush(1) assms(2) by (simp add: flush_inv_def)
next
  case (list_dirty snap ts)
  then show ?thesis using assms(2) by (auto simp: flush_inv_def smembers marks_def)
next
  case (list_deleted snap ts ds)
  then show ?thesis using assms(2) by (auto simp: flush_inv_def smembers marks_def)
next
  case (gather snap ts ds rs)
  let ?w = "fy_world s"
  have ok: "loaded_ok b (view ?w)" and ph: "fs_epoch snap \<le> counter (view ?w) (boardDirtyEpochKey b)"
    and ds: "distinct ds" "set ds \<union> set rs \<subseteq> marks b (view ?w)"
    and now: "counter (view ?w) (boardDirtyEpochKey b) = fs_epoch snap \<Longrightarrow>
      set ds = v_set (view ?w) (boardDirtyElementIdsKey b) \<and> set rs = v_set (view ?w) (boardDeletedElementIdsKey b)"
    using assms(2) gather(2) by (auto simp: flush_inv_def)
  have wf: "wf_elements b (view ?w)" and mi: "marked_inv b (view ?w)" and ne: "[] \<notin> marks b (view ?w)"
    using ok by (auto simp: loaded_ok_def)
  have "phase_ok b (view ?w) (Gathered snap ts (flush_docs E b ts ds rs ?w))"
  proof (cases "flush_docs E b ts ds rs ?w")
    case None
    then have e: "ds = []" "rs = []" by (simp_all add: flush_docs_def split: if_splits)
    have "marks b (view ?w) = {}" if "counter (view ?w) (boardDirtyEpochKey b) = fs_epoch snap"
      using now[OF that] by (simp add: e marks_def)
    then show ?thesis using ph by (simp add: None)
  next
    case (Some bt)
    note r = flush_docs_view[OF Some wf ds(1)]
    have "batch_ids bt \<subseteq> marks b (view ?w)" using ds(2) unfolding batch_ids_def r(2,4) by auto
    moreover have "saves_marked b (view ?w) ts bt" if e: "counter (view ?w) (boardDirtyEpochKey b) = fs_epoch snap"
      by (rule batch_saves_marked[OF mi r(1) ne _ _ _ wf]) (use r now[OF e] in simp_all)
    ultimately show ?thesis using Some ph r(1) by simp
  qed
  then show ?thesis using gather(1) ok by (simp add: flush_inv_def)
next
  case (commit_ok snap ts batch counts w')
  let ?w = "fy_world s"
  show ?thesis
  proof (cases batch)
    case None
    then show ?thesis using commit_ok assms(2) unmarked_all_synced
      by (auto simp: flush_inv_def flush_commit_def loaded_ok_def)
  next
    case (Some bt)
    have "e_transaction E (batch_statements b ts bt) ?w = (None, w')"
      using commit_ok(3) Some by (auto simp: flush_commit_def split: prod.splits option.splits)
    from commit[OF this] have v': "view w' = fold pg_step (batch_statements b ts bt) (view ?w)" .
    have ph: "fs_epoch snap \<le> counter (view ?w) (boardDirtyEpochKey b)" "batch_for b ts bt"
      "batch_ids bt \<subseteq> marks b (view ?w)"
      "counter (view ?w) (boardDirtyEpochKey b) = fs_epoch snap \<Longrightarrow> saves_marked b (view ?w) ts bt"
      using assms(2) commit_ok(2) Some by (auto simp: flush_inv_def)
    have ok: "loaded_ok b (view ?w)" and mi: "marked_inv b (view ?w)"
      using assms(2) by (auto simp: flush_inv_def loaded_ok_def)
    have "loaded_ok b (view w')"
      unfolding v' using loaded_ok_pg[OF ok commit_marked[OF mi ph(2,3)]] .
    moreover have "counter (view w') (boardDirtyEpochKey b) = counter (view ?w) (boardDirtyEpochKey b)"
      by (simp add: v' counter_def)
    moreover have "all_synced b (view w')" if "counter (view ?w) (boardDirtyEpochKey b) = fs_epoch snap"
      unfolding v' using saved_all[OF mi ph(2,3) ph(4)[OF that]] .
    ultimately show ?thesis using commit_ok(1) ph(1) by (simp add: flush_inv_def)
  qed
next
  case (commit_err snap ts batch err w')
  then have "view w' = view (fy_world s)" using flush_commit_err by simp
  then show ?thesis using commit_err(1) assms(2) by (simp add: flush_inv_def)
next
  case (clear snap ok w')
  let ?w = "fy_world s"
  show ?thesis
  proof (cases "counter (view ?w) (boardDirtyEpochKey b) = fs_epoch snap")
    case False
    then have "w' = ?w" using clear(3) by (simp add: flush_clear_def get counter_def)
    then show ?thesis using clear(1) assms(2) by (simp add: flush_inv_def)
  next
    case True
    have all: "all_synced b (view ?w)" using True assms(2) clear(2) by (simp add: flush_inv_def)
    have v': "view w' = fold redis_step (clear_commands b True snap (e_now E ?w)) (view ?w)"
      using True clear(3) by (auto simp: flush_clear_def get counter_def written)
    note c = clear_commands_view
    have "loaded_ok b (view w')"
      using assms(2) clear_marked[OF all, of snap "e_now E ?w"] c
      unfolding v' flush_inv_def loaded_ok_def counter_ok_def wf_elements_def by simp
    then show ?thesis using clear(1) by (simp add: flush_inv_def)
  qed
qed

lemma flush_inv_reachable:
  "(flush_step E view b)\<^sup>*\<^sup>* s s' \<Longrightarrow> flush_inv view b s \<Longrightarrow> flush_inv view b s'"
  by (induction rule: rtranclp_induct) (auto intro: flush_inv_step)

lemma stale_commit:
  assumes "wf_elements b (view w0)" "flush_read E b ts w0 = Some bt"
    and "i \<in> v_set (view w0) (boardDirtyElementIdsKey b)" "i \<noteq> []"
    and "v_hash (view w0) (boardElementsKey b) i = Some j0"
    and "flush_commit E b ts (Some bt) w2 = (Inr counts, w3)"
    and "marks b (view w2) = {}" "v_hash (view w2) (boardElementsKey b) i = Some j2"
    and "js_get_all (element_columns (parse_element j0)) \<noteq> js_get_all (element_columns (parse_element j2))"
  shows "marks b (view w3) = {} \<and> \<not> synced b (view w3) i \<and> v_strs (view w3) = v_strs (view w2)"
proof -
  note r = flush_read_view[OF assms(2,1)]
  have "e_transaction E (batch_statements b ts bt) w2 = (None, w3)"
    using assms(6) by (auto simp: flush_commit_def split: prod.splits option.splits)
  from commit[OF this] have v3: "view w3 = fold pg_step (batch_statements b ts bt) (view w2)" .
  let ?r = "toElementRow b (parse_element j0) ts"
  have mem: "?r \<in> set (fb_upserts bt)" using assms(3-5) unfolding r(3) by blast
  have "row_id ?r = i" using assms(1,5) by (simp add: wf_elements_def toElementRow_def)
  then have "v_rows (view w3) i = Some ?r"
    unfolding v3 batch_statements_rows[OF r(1)]
    using mem r(1) insert_rows_mem[of "fb_upserts bt" ?r] by (auto simp: batch_for_def)
  then have "\<not> synced b (view w3) i" using assms(8,9) by (simp add: synced_def v3 toElementRow_def)
  then show ?thesis using assms(7) by (simp add: v3)
qed

end

section \<open>Properties\<close>


definition dirty_world :: mem where
  \<comment> \<open>element \<open>n\<close> was changed and is not saved yet\<close>
  "dirty_world = mem0\<lparr>m_boards := [(''b1'', 7)],
     m_strs := [(boardSeqKey ''b1'', (''3'', None)), (boardDirtyEpochKey ''b1'', (''3'', None))],
     m_hash := [(boardElementsKey ''b1'', [(''n'', JObj [(''id'', JStr ''n''), (''x'', JNum 1)])])],
     m_set := [(boardDirtyElementIdsKey ''b1'', [''n'']), (DIRTY_BOARDS_KEY, [''b1''])],
     m_zset := [(DIRTY_BOARDS_BY_AGE_KEY, [(''b1'', 5)])]\<rparr>"

lemma dec_3: "dec 3 = ''3''"
  by code_simp

lemma dirty_world_ok: "loaded_ok ''b1'' (mem_view dirty_world)"
proof -
  have "\<exists>n. ''3'' = dec n" by (rule exI[of _ 3]) (simp add: dec_3)
  then show ?thesis
    by (auto simp: loaded_ok_def marked_inv_def marks_def wf_elements_def synced_def counter_ok_def dirty_world_def
        mem_str_eval key_defs rows_map_def el_id_def string_field_def)
qed


section \<open>Two flushers\<close>

record 'w flushers =
  fl_world :: 'w
  fl_phase :: "nat \<Rightarrow> flush_phase"

inductive flushers_step :: "'w env \<Rightarrow> ('w \<Rightarrow> rview) \<Rightarrow> string \<Rightarrow> 'w flushers \<Rightarrow> 'w flushers \<Rightarrow> bool"
  for E :: "'w env" and view :: "'w \<Rightarrow> rview" and b :: string where
  \<comment> \<open>one process, each with a persist lock of its own, makes a step\<close>
  one: "flush_step E view b \<lparr>fy_world = w, fy_phase = ph p\<rparr> \<lparr>fy_world = w', fy_phase = x\<rparr> \<Longrightarrow>
     flushers_step E view b \<lparr>fl_world = w, fl_phase = ph\<rparr> \<lparr>fl_world = w', fl_phase = ph(p := x)\<rparr>"

lemma lift_flusher:
  assumes "(flush_step E view b)\<^sup>*\<^sup>* s \<lparr>fy_world = w', fy_phase = x\<rparr>" "s = \<lparr>fy_world = w, fy_phase = ph p\<rparr>"
  shows "(flushers_step E view b)\<^sup>*\<^sup>* \<lparr>fl_world = w, fl_phase = ph\<rparr> \<lparr>fl_world = w', fl_phase = ph(p := x)\<rparr>"
  using assms
proof (induction arbitrary: w ph rule: converse_rtranclp_induct)
  case base
  then show ?case by simp
next
  case (step s t)
  obtain w1 y where t: "t = \<lparr>fy_world = w1, fy_phase = y\<rparr>" by (cases t) auto
  have "flushers_step E view b \<lparr>fl_world = w, fl_phase = ph\<rparr> \<lparr>fl_world = w1, fl_phase = ph(p := y)\<rparr>"
    using step.hyps(1) by (intro flushers_step.one) (simp add: t step.prems)
  moreover have "(flushers_step E view b)\<^sup>*\<^sup>* \<lparr>fl_world = w1, fl_phase = ph(p := y)\<rparr> \<lparr>fl_world = w', fl_phase = ph(p := x)\<rparr>"
    using step.IH[of w1 "ph(p := y)"] by (simp only: t fun_upd_upd fun_upd_same simp_thms)
  ultimately show ?case by (rule converse_rtranclp_into_rtranclp)
qed

context services
begin

lemma flusher_alone:
  assumes "loaded_ok b (view w)" "flush_commit E b ts (flush_read E b ts w) w = (Inr counts, w1)"
  shows "\<exists>w2. (flush_step E view b)\<^sup>*\<^sup>* \<lparr>fy_world = w, fy_phase = Idle\<rparr> \<lparr>fy_world = w2, fy_phase = Idle\<rparr> \<and>
    marks b (view w2) = {} \<and> v_hash (view w2) (boardElementsKey b) = v_hash (view w) (boardElementsKey b) \<and>
    v_strs (view w2) (boardDirtyEpochKey b) = v_strs (view w) (boardDirtyEpochKey b) \<and> (\<exists>cs. w2 = e_write E cs w1)"
proof -
  let ?s = "\<lambda>w ph. \<lparr>fy_world = w, fy_phase = ph\<rparr>"
  let ?snap = "\<lparr>fs_started = v_now (view w), fs_sequence = counter (view w) (boardSeqKey b),
    fs_epoch = counter (view w) (boardDirtyEpochKey b)\<rparr>"
  let ?w2 = "e_write E (clear_commands b True ?snap (e_now E w1)) w1"
  have wf: "marked_inv b (view w)" "wf_elements b (view w)" "[] \<notin> marks b (view w)"
    using assms(1) by (auto simp: loaded_ok_def)
  note ok = flush_commit_ok[OF refl wf assms(2)]
  have "flush_clear E True b ?snap w1 = (True, ?w2)" using ok by (simp add: flush_clear_def get counter_def)
  then have clear: "flush_step E view b (?s w1 (Committed ?snap)) (?s ?w2 Idle)"
    by (intro flush_step.clear) simp_all
  have "flush_step E view b (?s w Idle) (?s w (Began ?snap))"
    by (rule flush_step.begin_flush) (simp_all add: flush_begin_ready[OF loaded_ok_ready[OF assms(1)]])
  moreover have "flush_step E view b (?s w (Gathered ?snap ts (flush_read E b ts w))) (?s w1 (Committed ?snap))"
    using assms(2) by (intro flush_step.commit_ok) simp_all
  ultimately have "(flush_step E view b)\<^sup>*\<^sup>* (?s w Idle) (?s ?w2 Idle)"
    using clear gathers[of E view b w ?snap ts]
    by (meson converse_rtranclp_into_rtranclp rtranclp.rtrancl_into_rtrancl)
  moreover have "marks b (view ?w2) = {}" "v_hash (view ?w2) (boardElementsKey b) = v_hash (view w) (boardElementsKey b)"
      "v_strs (view ?w2) (boardDirtyEpochKey b) = v_strs (view w) (boardDirtyEpochKey b)"
    using ok clear_commands_view by (simp_all add: written)
  ultimately show ?thesis by blast
qed

lemma lost_between_flushers:
  assumes ok: "loaded_ok b (view w0)" and i: "i \<in> v_set (view w0) (boardDirtyElementIdsKey b)"
    and j0: "v_hash (view w0) (boardElementsKey b) i = Some j0"
    and c: "applyChangeSet E b cs opts w0 = Some (Some c, w1)" "[] \<notin> el_id ` set (cs_upserts cs)" "[] \<notin> delete_closure b cs opts (view w0)"
    and j1: "v_hash (view w1) (boardElementsKey b) i = Some j1"
    and ne: "js_get_all (element_columns (parse_element j0)) \<noteq> js_get_all (element_columns (parse_element j1))"
    and c1: "flush_commit E b ts1 (flush_read E b ts1 w1) w1 = (Inr counts, w2)"
    and c0: "\<And>cs. \<exists>counts w3. flush_commit E b ts (flush_read E b ts w0) (e_write E cs w2) = (Inr counts, w3)"
  shows "\<exists>s. (flushers_step E view b)\<^sup>*\<^sup>* \<lparr>fl_world = w0, fl_phase = \<lambda>_. Idle\<rparr> s \<and> (\<forall>p. fl_phase s p = Idle) \<and>
    marks b (view (fl_world s)) = {} \<and> \<not> synced b (view (fl_world s)) i"
proof -
  let ?snap = "\<lparr>fs_started = v_now (view w0), fs_sequence = counter (view w0) (boardSeqKey b),
    fs_epoch = counter (view w0) (boardDirtyEpochKey b)\<rparr>"
  let ?ph = "(\<lambda>_. Idle)(0 := Gathered ?snap ts (flush_read E b ts w0))" and ?R = "(flushers_step E view b)\<^sup>*\<^sup>*"
  have wf: "wf_elements b (view w0)" and i0: "i \<noteq> []" using ok i by (auto simp: loaded_ok_def marks_def)
  obtain bt where bt: "flush_read E b ts w0 = Some bt"
    using flush_read_None[of b ts w0] i by (cases "flush_read E b ts w0") (auto simp: marks_def)
  note g = mutate_grows[OF ok c]
  obtain w3 cs3 where w3: "(flush_step E view b)\<^sup>*\<^sup>* \<lparr>fy_world = w1, fy_phase = Idle\<rparr> \<lparr>fy_world = w3, fy_phase = Idle\<rparr>"
    "marks b (view w3) = {}" "v_hash (view w3) (boardElementsKey b) = v_hash (view w1) (boardElementsKey b)"
    "v_strs (view w3) (boardDirtyEpochKey b) = v_strs (view w1) (boardDirtyEpochKey b)" "w3 = e_write E cs3 w2"
    using flusher_alone[OF g(1) c1] by blast
  obtain counts0 w4 where c4: "flush_commit E b ts (Some bt) w3 = (Inr counts0, w4)"
    using c0[of cs3] unfolding bt w3(5)[symmetric] by blast
  have bad: "marks b (view w4) = {}" "\<not> synced b (view w4) i" "v_strs (view w4) = v_strs (view w3)"
    using stale_commit[OF wf bt i i0 j0 c4 w3(2) _ ne] j1 by (simp_all add: w3(3))
  have clear: "flush_clear E True b ?snap w4 = (False, w4)"
    using g(3) w3(4) bad(3) by (simp add: flush_clear_def get counter_def)
  have "flush_step E view b \<lparr>fy_world = w0, fy_phase = Idle\<rparr> \<lparr>fy_world = w0, fy_phase = Began ?snap\<rparr>"
    by (rule flush_step.begin_flush) (simp_all add: flush_begin_ready[OF loaded_ok_ready[OF ok]])
  from converse_rtranclp_into_rtranclp[OF this gathers[of E view b w0 ?snap ts]]
  have "?R \<lparr>fl_world = w0, fl_phase = \<lambda>_. Idle\<rparr> \<lparr>fl_world = w0, fl_phase = ?ph\<rparr>"
    by (rule lift_flusher) simp
  moreover have "flush_step E view b \<lparr>fy_world = w0, fy_phase = Idle\<rparr> \<lparr>fy_world = w1, fy_phase = Idle\<rparr>"
    using flush_step.mutate[of E b cs opts "\<lparr>fy_world = w0, fy_phase = Idle\<rparr>" "Some c" w1 view] c by simp
  from converse_rtranclp_into_rtranclp[OF this w3(1)]
  have "?R \<lparr>fl_world = w0, fl_phase = ?ph\<rparr> \<lparr>fl_world = w3, fl_phase = ?ph(1 := Idle)\<rparr>"
    by (rule lift_flusher) simp
  moreover have "?R \<lparr>fl_world = w3, fl_phase = ?ph(1 := Idle)\<rparr> \<lparr>fl_world = w4, fl_phase = ?ph(1 := Idle, 0 := Idle)\<rparr>"
  proof (rule lift_flusher)
    have "flush_step E view b \<lparr>fy_world = w3, fy_phase = Gathered ?snap ts (flush_read E b ts w0)\<rparr> \<lparr>fy_world = w4, fy_phase = Committed ?snap\<rparr>"
      using c4 bt by (intro flush_step.commit_ok) simp_all
    moreover have "flush_step E view b \<lparr>fy_world = w4, fy_phase = Committed ?snap\<rparr> \<lparr>fy_world = w4, fy_phase = Idle\<rparr>"
      using clear by (intro flush_step.clear) simp_all
    ultimately show "(flush_step E view b)\<^sup>*\<^sup>* \<lparr>fy_world = w3, fy_phase = Gathered ?snap ts (flush_read E b ts w0)\<rparr> \<lparr>fy_world = w4, fy_phase = Idle\<rparr>"
      by (rule converse_rtranclp_into_rtranclp[OF _ r_into_rtranclp])
  qed simp
  ultimately have R: "?R \<lparr>fl_world = w0, fl_phase = \<lambda>_. Idle\<rparr> \<lparr>fl_world = w4, fl_phase = ?ph(1 := Idle, 0 := Idle)\<rparr>"
    by (rule rtranclp_trans[OF rtranclp_trans])
  show ?thesis by (rule exI, rule conjI[OF R]) (simp add: bad)
qed

end

text \<open>C38: Two flushers can lose an update. The persist lock is local to a process. From any loaded board in good
  order on which an element waits to be saved there is this run of two processes: the first reads the marked elements,
  a change set changes the element, the second process saves the board and clears the marks, the first commits what it
  had read. Both are idle again, nothing is marked, and Postgres has the old version of the element: no later flush
  repairs it. Only both transactions must succeed.\<close>

theorem concurrent_flush_loses_update:
  assumes "services E view" "loaded_ok b (view w0)" "i \<in> v_set (view w0) (boardDirtyElementIdsKey b)"
    and "v_hash (view w0) (boardElementsKey b) i = Some j0"
    and "applyChangeSet E b cs opts w0 = Some (Some c, w1)" "[] \<notin> el_id ` set (cs_upserts cs)" "[] \<notin> delete_closure b cs opts (view w0)"
    and "v_hash (view w1) (boardElementsKey b) i = Some j1"
    and "js_get_all (element_columns (parse_element j0)) \<noteq> js_get_all (element_columns (parse_element j1))"
    and "flush_commit E b ts1 (flush_read E b ts1 w1) w1 = (Inr counts, w2)"
    and "\<And>cs. \<exists>counts w3. flush_commit E b ts (flush_read E b ts w0) (e_write E cs w2) = (Inr counts, w3)"
  shows "\<exists>s. (flushers_step E view b)\<^sup>*\<^sup>* \<lparr>fl_world = w0, fl_phase = \<lambda>_. Idle\<rparr> s \<and> (\<forall>p. fl_phase s p = Idle) \<and>
    marks b (view (fl_world s)) = {} \<and> \<not> synced b (view (fl_world s)) i"
  by (rule services.lost_between_flushers[OF assms(1) assms(2-)])

definition newer :: js_object where
  "newer = [(''id'', JStr ''n''), (''x'', JNum 2)]"

lemma mem_write_fail [simp]: "m_fail (fold mem_step cs w) = m_fail w"
proof (induction cs arbitrary: w)
  case (Cons c cs)
  have "m_fail (mem_step c w) = m_fail w" by (cases c) (auto split: option.splits)
  then show ?case using Cons by simp
qed simp

lemma mem_commit: "m_fail w = None \<Longrightarrow> \<exists>counts w'. flush_commit mem_env b ts batch w = (Inr counts, w') \<and> m_fail w' = None"
proof -
  have "m_fail (fold mem_pg_step ss w) = m_fail w" for ss w
  proof (induction ss arbitrary: w)
    case (Cons c ss)
    have "m_fail (mem_pg_step c w) = m_fail w" by (cases c) auto
    then show ?case using Cons by simp
  qed simp
  then show "m_fail w = None \<Longrightarrow> ?thesis" by (cases batch) (auto simp: flush_commit_def)
qed

theorem concurrent_flush_loses_update_witness:
  "\<exists>s. (flushers_step mem_env mem_view ''b1'')\<^sup>*\<^sup>* \<lparr>fl_world = dirty_world, fl_phase = \<lambda>_. Idle\<rparr> s \<and>
     (\<forall>p. fl_phase s p = Idle) \<and> marks ''b1'' (mem_view (fl_world s)) = {} \<and> \<not> synced ''b1'' (mem_view (fl_world s)) ''n''"
proof -
  let ?cs = "\<lparr>cs_upserts = [newer], cs_deletes = []\<rparr>" and ?w0 = dirty_world
  have ready: "board_ready mem_env ''b1'' ?w0" by (rule mem.loaded_ok_ready[OF dirty_world_ok])
  have seq: "v_strs (mem_view ?w0) (boardSeqKey ''b1'') = Some (dec 3, None)"
    by (simp add: dirty_world_def mem_str_eval dec_3)
  have epoch: "counter_ok (mem_view ?w0) (boardDirtyEpochKey ''b1'')" using dirty_world_ok by (simp add: loaded_ok_def)
  obtain c w1 where c: "applyChangeSet mem_env ''b1'' ?cs no_options ?w0 = Some (Some c, w1)"
    and abs: "pc_upserts c = effective_upserts (m_now ?w0) [newer] (pc_deletes c)" "set (pc_deletes c) = {}"
      "abs_board ''b1'' (mem_view w1) = (spec_change True c (abs_board ''b1'' (mem_view ?w0)))\<lparr>ab_sequence := 4\<rparr>"
    using mem.applyChangeSet_refines[OF ready seq epoch, of ?cs no_options]
    by (auto simp: delete_closure_def track_change_log_def no_options_def split: option.splits)
  have id: "el_id newer = ''n''" by (simp add: newer_def el_id_def)
  have up: "pc_upserts c = [stamp (m_now ?w0) newer]"
    using abs(1,2) by (simp add: effective_upserts_def normalizeUpserts_def id)
  have "v_hash (mem_view w1) (boardElementsKey ''b1'') = overlay (pc_upserts c) [] (v_hash (mem_view ?w0) (boardElementsKey ''b1''))"
    using arg_cong[OF abs(3), of ab_elements] abs(2) by (simp add: abs_board_def spec_change_def Let_def)
  then have j1: "v_hash (mem_view w1) (boardElementsKey ''b1'') ''n'' = Some (JObj (stamp (m_now ?w0) newer))"
    by (simp add: overlay_def up id)
  have "m_fail w1 = None"
    using c ready by (auto simp: applyChangeSet_def waitForBoardLoad_ready cascade_deletes_def getSequence_def Let_def
        dirty_world_def split: if_splits option.splits)
  then obtain counts w2 where c1: "flush_commit mem_env ''b1'' 9 (flush_read mem_env ''b1'' 9 w1) w1 = (Inr counts, w2)" "m_fail w2 = None"
    using mem_commit by blast
  show ?thesis
  proof (rule concurrent_flush_loses_update[OF mem.services_axioms dirty_world_ok _ _ c _ _ j1 _ c1(1)])
    show "''n'' \<in> v_set (mem_view ?w0) (boardDirtyElementIdsKey ''b1'')" by (simp add: dirty_world_def key_defs)
    show "v_hash (mem_view ?w0) (boardElementsKey ''b1'') ''n'' = Some (JObj [(''id'', JStr ''n''), (''x'', JNum 1)])"
      by (simp add: dirty_world_def)
    show "[] \<notin> el_id ` set (cs_upserts ?cs)" by (simp add: id)
    show "[] \<notin> delete_closure ''b1'' ?cs no_options (mem_view ?w0)" by (simp add: delete_closure_def)
    show "js_get_all (element_columns (parse_element (JObj [(''id'', JStr ''n''), (''x'', JNum 1)]))) \<noteq>
      js_get_all (element_columns (parse_element (JObj (stamp (m_now ?w0) newer))))"
      by (simp add: element_columns_def newer_def js_get_all_def fun_eq_iff stamp_def)
    show "\<exists>counts w3. flush_commit mem_env ''b1'' 9 (flush_read mem_env ''b1'' 9 ?w0) (e_write mem_env cs w2) = (Inr counts, w3)" for cs
    proof -
      have "m_fail (fold mem_step cs w2) = None" using c1(2) by simp
      from mem_commit[OF this, of "''b1''" 9 "flush_read mem_env ''b1'' 9 ?w0"] show ?thesis by auto
    qed
  qed
qed

end
