(* ===== verification/Mutation_Processor.thy ===== *)
theory Mutation_Processor
  imports Lock_Enforcement Presence Mutation_Lock Flush_Interleaving
begin

text \<open>
  The mutation processor (\<open>mutations/processor.ts\<close>): operations become change sets over a cached
  board context, each mutation is claimed by its id, checked against the locks and applied, and a
  batch runs per board under the board's mutation lock. Log lines and timings are left out.
\<close>

record mutation =
  mut_id :: string
  mut_board :: string
  mut_clientTimestamp :: int
  mut_operation :: operation

datatype mutation_status = Applied | Already_applied | Broadcast_only

record mutation_result =
  mr_id :: string
  mr_status :: mutation_status
  mr_timestamp :: "int option"
  mr_sequence :: "int option"
  mr_change :: "persisted_change option"

record processor_config =
  pr_targetedReads :: bool
  pr_incremental :: bool

section \<open>From operations to change sets\<close>

definition toUpsertFromCache :: "lock_context \<Rightarrow> string \<Rightarrow> (board_element \<Rightarrow> board_element) \<Rightarrow> board_element list" where
  "toUpsertFromCache ctx i transform = (case js_get i ctx of None \<Rightarrow> [] | Some e \<Rightarrow> [transform e])"

definition move_element :: "rat \<Rightarrow> rat \<Rightarrow> board_element \<Rightarrow> board_element" where
  \<comment> \<open>\<open>{ ...existing, x, y }\<close>\<close>
  "move_element x y e = js_put ''y'' (JNum y) (js_put ''x'' (JNum x) e)"

fun toChangeSet :: "lock_context \<Rightarrow> operation \<Rightarrow> element_change_set" where
  "toChangeSet ctx (CREATE_ELEMENT i data) = \<lparr>cs_upserts = [data], cs_deletes = []\<rparr>"
| "toChangeSet ctx (UPDATE_ELEMENT i changes) =
     \<lparr>cs_upserts = toUpsertFromCache ctx i (\<lambda>e. js_spread e changes), cs_deletes = []\<rparr>"
| "toChangeSet ctx (DELETE_ELEMENTS ids) = \<lparr>cs_upserts = [], cs_deletes = ids\<rparr>"
| "toChangeSet ctx (MOVE_ELEMENTS moves transient) =
     \<lparr>cs_upserts = concat (map (\<lambda>(i, x, y). toUpsertFromCache ctx i (move_element x y)) moves), cs_deletes = []\<rparr>"
| "toChangeSet ctx (UPDATE_ELEMENTS updates) =
     \<lparr>cs_upserts = concat (map (\<lambda>(i, changes). toUpsertFromCache ctx i (\<lambda>e. js_spread e changes)) updates),
      cs_deletes = []\<rparr>"
| "toChangeSet ctx (REORDER_ELEMENT i z) =
     \<lparr>cs_upserts = toUpsertFromCache ctx i (js_put ''zIndex'' (JNum z)), cs_deletes = []\<rparr>"
| "toChangeSet ctx (RECONCILE_MONTH_RANGE metaId upserts deletes) = \<lparr>cs_upserts = upserts, cs_deletes = deletes\<rparr>"

section \<open>The cached board context\<close>

fun touched_ids :: "operation \<Rightarrow> string list" where
  "touched_ids (UPDATE_ELEMENT i changes) = [i]"
| "touched_ids (REORDER_ELEMENT i z) = [i]"
| "touched_ids (MOVE_ELEMENTS moves transient) = map fst moves"
| "touched_ids (UPDATE_ELEMENTS updates) = map fst updates"
| "touched_ids (RECONCILE_MONTH_RANGE metaId upserts deletes) = metaId # deletes"
| "touched_ids _ = []"

definition collectTouchedElementIds :: "mutation list \<Rightarrow> string list" where
  "collectTouchedElementIds ms = js_set (concat (map (\<lambda>m. touched_ids (mut_operation m)) ms))"

definition consider_meta :: "js_object \<Rightarrow> string list" where
  "consider_meta changes = (case string_field ''metaContainerId'' changes of Some i \<Rightarrow> [i] | None \<Rightarrow> [])"

fun referenced_metas :: "operation \<Rightarrow> string list" where
  "referenced_metas (CREATE_ELEMENT i data) = consider_meta data"
| "referenced_metas (UPDATE_ELEMENT i changes) = consider_meta changes"
| "referenced_metas (UPDATE_ELEMENTS updates) = concat (map (\<lambda>(i, changes). consider_meta changes) updates)"
| "referenced_metas _ = []"

definition collectReferencedMetaIds :: "mutation list \<Rightarrow> string list" where
  "collectReferencedMetaIds ms = js_set (concat (map (\<lambda>m. referenced_metas (mut_operation m)) ms))"

fun fetch_one_by_one :: "'w env \<Rightarrow> string \<Rightarrow> string list \<Rightarrow> 'w \<Rightarrow> (lock_context \<times> 'w) option" where
  \<comment> \<open>one \<open>getElement\<close> per id; the ids are distinct\<close>
  "fetch_one_by_one E b [] w = Some ([], w)"
| "fetch_one_by_one E b (i # is) w = do {
     (found, w) \<leftarrow> getElement E b i w;
     (rest, w) \<leftarrow> fetch_one_by_one E b is w;
     Some (case found of None \<Rightarrow> rest | Some e \<Rightarrow> (i, e) # rest, w)
   }"

definition fetchByIds :: "'w env \<Rightarrow> processor_config \<Rightarrow> string \<Rightarrow> string list \<Rightarrow> 'w \<Rightarrow> (lock_context \<times> 'w) option" where
  "fetchByIds E cfg b ids w =
     (if pr_targetedReads cfg then getElementsByIds E b ids w else fetch_one_by_one E b ids w)"

definition context_parents :: "lock_context \<Rightarrow> mutation list \<Rightarrow> string list" where
  \<comment> \<open>containers of the loaded elements and the metas the payloads refer to\<close>
  "context_parents ctx ms =
     js_add_all (collectReferencedMetaIds ms) (js_set (concat (map (parent_ids \<circ> snd) ctx)))"

definition createCachedBoardContext ::
    "'w env \<Rightarrow> processor_config \<Rightarrow> string \<Rightarrow> mutation list \<Rightarrow> 'w \<Rightarrow> (lock_context \<times> 'w) option" where
  "createCachedBoardContext E cfg b ms w =
     (let touched = collectTouchedElementIds ms in
      if touched = [] then Some ([], w)
      else do {
        (ctx, w) \<leftarrow> fetchByIds E cfg b touched w;
        let missing = filter (\<lambda>i. \<not> js_has i ctx) (context_parents ctx ms);
        if missing = [] then Some (ctx, w)
        else do {
          (parents, w) \<leftarrow> fetchByIds E cfg b missing w;
          Some (js_spread ctx parents, w)
        }
      })"

definition applyPersistedChangeToContext :: "lock_context \<Rightarrow> mutation_result \<Rightarrow> lock_context" where
  "applyPersistedChangeToContext ctx res = (case (mr_status res, mr_change res) of
     (Applied, Some c) \<Rightarrow>
       fold js_remove (pc_deletes c) (fold (\<lambda>e ctx. js_put (el_id e) e ctx) (pc_upserts c) ctx)
   | _ \<Rightarrow> ctx)"

section \<open>One mutation\<close>

definition is_transient_move :: "operation \<Rightarrow> bool" where
  "is_transient_move op = (case op of MOVE_ELEMENTS moves transient \<Rightarrow> transient | _ \<Rightarrow> False)"

definition applied_without_change :: "'w env \<Rightarrow> mutation \<Rightarrow> 'w \<Rightarrow> ((mutation_result \<times> bool) \<times> 'w) option" where
  "applied_without_change E m w = do {
     let timestamp = e_now E w;
     (sequence, w) \<leftarrow> peekSequence E (mut_board m) w;
     Some ((\<lparr>mr_id = mut_id m, mr_status = Applied, mr_timestamp = Some timestamp, mr_sequence = Some sequence,
       mr_change = None\<rparr>, False), w)
   }"

definition processMutationWithContext ::
    "'w env \<Rightarrow> mutation \<Rightarrow> lock_context \<Rightarrow> sync_mode \<Rightarrow> 'w \<Rightarrow> ((mutation_result \<times> bool) \<times> 'w) option" where
  "processMutationWithContext E m ctx mode w =
     (if is_transient_move (mut_operation m)
      then Some ((\<lparr>mr_id = mut_id m, mr_status = Broadcast_only, mr_timestamp = Some (e_now E w),
        mr_sequence = None, mr_change = None\<rparr>, False), w)
      else do {
        (claimed, w) \<leftarrow> tryMarkSeen E (mut_board m) (mut_id m) w;
        if \<not> claimed then Some ((\<lparr>mr_id = mut_id m, mr_status = Already_applied, mr_timestamp = None,
          mr_sequence = None, mr_change = None\<rparr>, False), w)
        else if isMutationBlockedByLock (mut_operation m) ctx then applied_without_change E m w
        else if validateReconcileMonthRange (mut_operation m) ctx \<noteq> None then applied_without_change E m w
        else do {
          (persisted, w) \<leftarrow> applyChangeSet E (mut_board m) (toChangeSet ctx (mut_operation m))
            (no_options\<lparr>opt_trackChangeLog := Some (mode = Collab)\<rparr>) w;
          (case persisted of
             None \<Rightarrow> applied_without_change E m w
           | Some c \<Rightarrow> Some ((\<lparr>mr_id = mut_id m, mr_status = Applied, mr_timestamp = Some (pc_timestamp c),
               mr_sequence = Some (pc_sequence c), mr_change = Some c\<rparr>, True), w))
        }
      })"

definition rearm_after :: "'w env \<Rightarrow> sync_mode \<Rightarrow> string \<Rightarrow> 'w \<Rightarrow> 'w option" where
  "rearm_after E mode b w =
     (if mode = Collab then Some (extendCollabMode E b w) else rearmCollabModeIfActive E b w)"

definition process_locked :: "'w env \<Rightarrow> processor_config \<Rightarrow> mutation \<Rightarrow> 'w \<Rightarrow> (mutation_result result \<times> 'w) option" where
  \<comment> \<open>the task of \<open>processMutation\<close>\<close>
  "process_locked E cfg m w = do {
     (ctx, w) \<leftarrow> createCachedBoardContext E cfg (mut_board m) [m] w;
     (mode, w) \<leftarrow> getSyncWriteMode E (mut_board m) w;
     ((res, changed), w) \<leftarrow> processMutationWithContext E m ctx mode w;
     w \<leftarrow> rearm_after E mode (mut_board m) w;
     if mode = Solo \<and> changed then do {
       (saved, w) \<leftarrow> persistBoard E (pr_incremental cfg) (mut_board m) w;
       Some (case saved of Inl err \<Rightarrow> Inl err | Inr _ \<Rightarrow> Inr res, w)
     }
     else Some (Inr res, w)
   }"

definition processMutation :: "'w env \<Rightarrow> processor_config \<Rightarrow> mutation \<Rightarrow> 'w \<Rightarrow> (mutation_result result \<times> 'w) option" where
  "processMutation E cfg m w = withBoardMutationLock E (mut_board m) (process_locked E cfg m) w"

section \<open>A batch\<close>

type_synonym batch_results = "mutation_result option list"

definition group_by_board :: "mutation list \<Rightarrow> (string \<times> (nat \<times> mutation) list) list" where
  "group_by_board ms = fold (\<lambda>(index, m) groups.
     js_put (mut_board m) ((case js_get (mut_board m) groups of Some g \<Rightarrow> g | None \<Rightarrow> []) @ [(index, m)]) groups)
     (zip [0..<length ms] ms) []"

fun run_entries :: "'w env \<Rightarrow> sync_mode \<Rightarrow> (nat \<times> mutation) list \<Rightarrow> lock_context \<Rightarrow> bool \<Rightarrow> batch_results \<Rightarrow> 'w \<Rightarrow>
    ((bool \<times> batch_results) \<times> 'w) option" where
  "run_entries E mode [] ctx shouldPersist results w = Some ((shouldPersist, results), w)"
| "run_entries E mode ((index, m) # entries) ctx shouldPersist results w = do {
     ((res, changed), w) \<leftarrow> processMutationWithContext E m ctx mode w;
     run_entries E mode entries (applyPersistedChangeToContext ctx res)
       (shouldPersist \<or> (mode = Solo \<and> changed)) (results[index := Some res]) w
   }"

definition group_task :: "'w env \<Rightarrow> processor_config \<Rightarrow> string \<Rightarrow> (nat \<times> mutation) list \<Rightarrow> batch_results \<Rightarrow> 'w \<Rightarrow>
    (batch_results result \<times> 'w) option" where
  "group_task E cfg b entries results w = do {
     (ctx, w) \<leftarrow> createCachedBoardContext E cfg b (map snd entries) w;
     (mode, w) \<leftarrow> getSyncWriteMode E b w;
     ((shouldPersist, results), w) \<leftarrow> run_entries E mode entries ctx False results w;
     (saved, w) \<leftarrow> (if mode = Solo \<and> shouldPersist then persistBoard E (pr_incremental cfg) b w else Some (Inr (), w));
     (case saved of
        Inl err \<Rightarrow> Some (Inl err, w)
      | Inr _ \<Rightarrow> do {
          w \<leftarrow> rearm_after E mode b w;
          Some (Inr results, w)
        })
   }"

fun run_groups :: "'w env \<Rightarrow> processor_config \<Rightarrow> (string \<times> (nat \<times> mutation) list) list \<Rightarrow> batch_results \<Rightarrow> 'w \<Rightarrow>
    (batch_results result \<times> 'w) option" where
  "run_groups E cfg [] results w = Some (Inr results, w)"
| "run_groups E cfg ((b, entries) # groups) results w = do {
     (r, w) \<leftarrow> withBoardMutationLock E b (group_task E cfg b entries results) w;
     (case r of
        Inl err \<Rightarrow> Some (Inl err, w)
      | Inr results \<Rightarrow> run_groups E cfg groups results w)
   }"

definition processBatch :: "'w env \<Rightarrow> processor_config \<Rightarrow> mutation list \<Rightarrow> 'w \<Rightarrow> (batch_results result \<times> 'w) option" where
  "processBatch E cfg ms w = run_groups E cfg (group_by_board ms) (replicate (length ms) None) w"

section \<open>One mutation on a loaded board\<close>

definition board_at :: "string \<Rightarrow> int \<Rightarrow> rview \<Rightarrow> bool" where
  \<comment> \<open>the board is loaded, not being evicted, and its sequence number is \<open>n\<close>\<close>
  "board_at b n v = (v_strs v (boardEvictionLockKey b) = None \<and> v_strs v (boardSeqKey b) = Some (dec n, None) \<and>
     counter_ok v (boardDirtyEpochKey b))"

definition refused :: "operation \<Rightarrow> lock_context \<Rightarrow> bool" where
  "refused op ctx = (isMutationBlockedByLock op ctx \<or> validateReconcileMonthRange op ctx \<noteq> None)"

definition log_option :: "sync_mode \<Rightarrow> change_options" where
  "log_option mode = no_options\<lparr>opt_trackChangeLog := Some (mode = Collab)\<rparr>"

definition change_of :: "string \<Rightarrow> lock_context \<Rightarrow> operation \<Rightarrow> sync_mode \<Rightarrow> int \<Rightarrow> rview \<Rightarrow> persisted_change \<Rightarrow> bool" where
  \<comment> \<open>\<open>c\<close> is the change that the operation makes on the board at sequence \<open>n\<close>\<close>
  "change_of b ctx op mode n v c = (pc_sequence c = n + 1 \<and> pc_timestamp c = v_now v \<and>
     distinct (pc_deletes c) \<and> set (pc_deletes c) = delete_closure b (toChangeSet ctx op) (log_option mode) v \<and>
     pc_upserts c = effective_upserts (v_now v) (cs_upserts (toChangeSet ctx op)) (pc_deletes c))"

definition nothing_to_do :: "element_change_set \<Rightarrow> bool" where
  "nothing_to_do cs = (cs_upserts cs = [] \<and> cs_deletes cs = [])"

definition mutation_outcome ::
    "mutation \<Rightarrow> lock_context \<Rightarrow> sync_mode \<Rightarrow> int \<Rightarrow> rview \<Rightarrow> mutation_result \<Rightarrow> bool \<Rightarrow> rview \<Rightarrow> bool" where
  "mutation_outcome m ctx mode n v res changed v' =
     (let b = mut_board m; op = mut_operation m in
      mr_id res = mut_id m \<and>
      (if is_transient_move op then mr_status res = Broadcast_only \<and> \<not> changed \<and> mr_change res = None \<and> v' = v
       else if v_strs v (boardSeenKey b (mut_id m)) \<noteq> None
       then mr_status res = Already_applied \<and> \<not> changed \<and> mr_change res = None \<and> v' = v
       else mr_status res = Applied \<and> v_strs v' (boardSeenKey b (mut_id m)) \<noteq> None \<and>
         (if refused op ctx \<or> nothing_to_do (toChangeSet ctx op)
          then \<not> changed \<and> mr_change res = None \<and> mr_sequence res = Some n \<and> abs_board b v' = abs_board b v
          else changed \<and> (\<exists>c. mr_change res = Some c \<and> mr_sequence res = Some (n + 1) \<and>
            change_of b ctx op mode n v c \<and>
            abs_board b v' = (spec_change (mode = Collab) c (abs_board b v))\<lparr>ab_sequence := n + 1\<rparr>))))"

lemma ex_bool [simp]: "\<exists>changed. \<not> changed" "\<exists>changed. changed"
  by blast+

lemma track_log_option [simp]: "track_change_log (log_option mode) = (mode = Collab)"
  by (simp add: track_change_log_def log_option_def)

context redis_client
begin

lemma board_at_ready: "board_at b n (view w) \<Longrightarrow> board_ready E b w"
  by (simp add: board_at_def board_ready_view)

lemma peek_at: "board_at b n (view w) \<Longrightarrow> peekSequence E b w = Some (n, w)"
  using board_at_ready by (simp add: peekSequence_def waitForBoardLoad_ready get board_at_def)

lemma claim_at:
  assumes "board_at b n (view w)"
  shows "\<exists>w'. tryMarkSeen E b m w = Some (v_strs (view w) (boardSeenKey b m) = None, w') \<and>
    (v_strs (view w) (boardSeenKey b m) \<noteq> None \<longrightarrow> view w' = view w) \<and>
    (v_strs (view w) (boardSeenKey b m) = None \<longrightarrow> view w' = (view w)\<lparr>v_strs := (v_strs (view w))
      (boardSeenKey b m \<mapsto> (''1'', Some (v_now (view w) + SEEN_TTL_SECONDS * 1000)))\<rparr>)"
proof -
  obtain r w' where s: "e_set_nx_px E (boardSeenKey b m) ''1'' (SEEN_TTL_SECONDS * 1000) w = (r, w')"
    by (cases "e_set_nx_px E (boardSeenKey b m) ''1'' (SEEN_TTL_SECONDS * 1000) w")
  have r: "r = (v_strs (view w) (boardSeenKey b m) = None)"
    using set_nx_reply[of "boardSeenKey b m" "''1''" "SEEN_TTL_SECONDS * 1000" w] s by simp
  have v: "view w' = (if v_strs (view w) (boardSeenKey b m) = None
      then redis_step (SET_PX (boardSeenKey b m) ''1'' (SEEN_TTL_SECONDS * 1000)) (view w) else view w)"
    using set_nx[of "boardSeenKey b m" "''1''" "SEEN_TTL_SECONDS * 1000" w] unfolding s snd_conv .
  have t: "tryMarkSeen E b m w = Some (r, w')"
    using board_at_ready[OF assms] s by (simp add: tryMarkSeen_def waitForBoardLoad_ready)
  show ?thesis
  proof (cases "v_strs (view w) (boardSeenKey b m) = None")
    case True
    then show ?thesis using t r v by (simp add: SEEN_TTL_SECONDS_def)
  next
    case False
    then show ?thesis using t r v by (simp only: if_False) blast
  qed
qed

lemma change_at:
  assumes "board_at b n (view w)"
  shows "\<exists>r w'. applyChangeSet E b cs opts w = Some (r, w') \<and> v_rows (view w') = v_rows (view w) \<and>
    v_now (view w') = v_now (view w) \<and>
    (\<forall>m. v_strs (view w') (boardSeenKey b m) = v_strs (view w) (boardSeenKey b m)) \<and> (case r of
      None \<Rightarrow> w' = w \<and> nothing_to_do cs
    | Some c \<Rightarrow> \<not> nothing_to_do cs \<and> board_at b (n + 1) (view w') \<and>
        pc_sequence c = n + 1 \<and> pc_timestamp c = v_now (view w) \<and>
        distinct (pc_deletes c) \<and> set (pc_deletes c) = delete_closure b cs opts (view w) \<and>
        pc_upserts c = effective_upserts (v_now (view w)) (cs_upserts cs) (pc_deletes c) \<and>
        abs_board b (view w') =
          (spec_change (track_change_log opts) c (abs_board b (view w)))\<lparr>ab_sequence := n + 1\<rparr>)"
proof -
  note at = assms[unfolded board_at_def, THEN conjunct2, THEN conjunct1]
    assms[unfolded board_at_def, THEN conjunct2, THEN conjunct2]
  note spec = applyChangeSet_refines[OF board_at_ready[OF assms] at, of cs opts]
  note run = applyChangeSet_view[OF board_at_ready[OF assms] at, of cs opts]
  obtain r w' where a: "applyChangeSet E b cs opts w = Some (r, w')" using spec by blast
  show ?thesis
  proof (cases r)
    case None
    then show ?thesis using a spec by (intro exI[of _ r] exI[of _ w']) (auto simp: nothing_to_do_def)
  next
    case (Some c)
    have v: "view w' = fold redis_step (change_commands b (track_change_log opts) c)
          (redis_step (INCR (boardSeqKey b)) (view w))"
      using run a Some by (auto simp del: redis_step.simps)
    let ?v1 = "redis_step (INCR (boardSeqKey b)) (view w)"
    have fr: "v_strs ?v1 (boardEvictionLockKey b) = v_strs (view w) (boardEvictionLockKey b)"
      "v_strs ?v1 (boardSeenKey b m) = v_strs (view w) (boardSeenKey b m)" for m
      by (rule redis_step_incr_frame, simp add: key_defs)+
    have "counter_ok ?v1 (boardDirtyEpochKey b)"
      using at(2) by (simp add: counter_ok_def redis_step_incr_frame key_defs del: redis_step.simps)
    then have "counter_ok (view w') (boardDirtyEpochKey b)" unfolding v by (rule change_commands_epoch)
    moreover have "v_strs (view w') (boardEvictionLockKey b) = None"
      unfolding v change_commands_frame fr using assms by (simp add: board_at_def)
    moreover have "v_strs (view w') (boardSeenKey b m) = v_strs (view w) (boardSeenKey b m)" for m
      unfolding v change_commands_frame fr ..
    moreover have "v_rows (view w') = v_rows (view w)" "v_now (view w') = v_now (view w)"
      unfolding v by (simp_all del: redis_step.simps)
    ultimately show ?thesis
      using a spec Some by (intro exI[of _ r] exI[of _ w']) (auto simp: nothing_to_do_def board_at_def)
  qed
qed

lemma abs_claim:
  assumes "view w' = (view w)\<lparr>v_strs := (v_strs (view w))(boardSeenKey b m \<mapsto> x)\<rparr>"
  shows "abs_board b (view w') = abs_board b (view w)" "board_at b n (view w') = board_at b n (view w)"
  using assms by (simp_all add: abs_board_def board_at_def counter_def counter_ok_def key_defs)

lemma applied_without_change_at:
  assumes "board_at b n (view w)" "mut_board m = b"
  shows "applied_without_change E m w = Some ((\<lparr>mr_id = mut_id m, mr_status = Applied,
    mr_timestamp = Some (v_now (view w)), mr_sequence = Some n, mr_change = None\<rparr>, False), w)"
  using assms by (simp add: applied_without_change_def peek_at now Let_def)

lemma mutation_at:
  assumes "board_at (mut_board m) n (view w)"
  shows "\<exists>res changed w'. processMutationWithContext E m ctx mode w = Some ((res, changed), w') \<and>
    mutation_outcome m ctx mode n (view w) res changed (view w') \<and>
    board_at (mut_board m) (if changed then n + 1 else n) (view w') \<and>
    v_rows (view w') = v_rows (view w) \<and> v_now (view w') = v_now (view w)"
proof -
  let ?b = "mut_board m" and ?op = "mut_operation m" and ?cs = "toChangeSet ctx (mut_operation m)"
  show ?thesis
  proof (cases "is_transient_move ?op")
    case True
    then show ?thesis
      using assms by (simp add: processMutationWithContext_def mutation_outcome_def Let_def)
  next
    case persistent: False
    obtain w1 where c: "tryMarkSeen E ?b (mut_id m) w = Some (v_strs (view w) (boardSeenKey ?b (mut_id m)) = None, w1)"
      "v_strs (view w) (boardSeenKey ?b (mut_id m)) \<noteq> None \<longrightarrow> view w1 = view w"
      "v_strs (view w) (boardSeenKey ?b (mut_id m)) = None \<longrightarrow> view w1 = (view w)\<lparr>v_strs := (v_strs (view w))
        (boardSeenKey ?b (mut_id m) \<mapsto> (''1'', Some (v_now (view w) + SEEN_TTL_SECONDS * 1000)))\<rparr>"
      using claim_at[OF assms] by blast
    show ?thesis
    proof (cases "v_strs (view w) (boardSeenKey ?b (mut_id m)) = None")
      case False
      then show ?thesis
        using persistent c assms by (simp add: processMutationWithContext_def mutation_outcome_def Let_def)
    next
      case fresh: True
      with c have v1: "view w1 = (view w)\<lparr>v_strs := (v_strs (view w))
        (boardSeenKey ?b (mut_id m) \<mapsto> (''1'', Some (v_now (view w) + SEEN_TTL_SECONDS * 1000)))\<rparr>" by simp
      note ab = abs_claim[OF v1]
      have at1: "board_at ?b n (view w1)" using assms ab(2) by simp
      have seen1: "v_strs (view w1) (boardSeenKey ?b (mut_id m)) \<noteq> None" by (simp add: v1)
      have same: "delete_closure ?b ?cs opts (view w1) = delete_closure ?b ?cs opts (view w)" for opts
        by (simp add: v1 delete_closure_def cascade_base_def split: option.split)
      have now1: "v_now (view w1) = v_now (view w)" by (simp add: v1)
      obtain r w2 where a: "applyChangeSet E ?b ?cs (log_option mode) w1 = Some (r, w2)"
        "v_rows (view w2) = v_rows (view w1)" "v_now (view w2) = v_now (view w1)"
        "v_strs (view w2) (boardSeenKey ?b (mut_id m)) = v_strs (view w1) (boardSeenKey ?b (mut_id m))"
        and post: "case r of
            None \<Rightarrow> w2 = w1 \<and> nothing_to_do ?cs
          | Some c \<Rightarrow> \<not> nothing_to_do ?cs \<and> board_at ?b (n + 1) (view w2) \<and>
              pc_sequence c = n + 1 \<and> pc_timestamp c = v_now (view w) \<and>
              distinct (pc_deletes c) \<and> set (pc_deletes c) = delete_closure ?b ?cs (log_option mode) (view w) \<and>
              pc_upserts c = effective_upserts (v_now (view w)) (cs_upserts ?cs) (pc_deletes c) \<and>
              abs_board ?b (view w2) = (spec_change (mode = Collab) c (abs_board ?b (view w)))\<lparr>ab_sequence := n + 1\<rparr>"
        using change_at[OF at1, of ?cs "log_option mode"] unfolding same ab(1) now1 track_log_option by blast
      have run: "processMutationWithContext E m ctx mode w =
        (if refused ?op ctx then applied_without_change E m w1
         else case r of None \<Rightarrow> applied_without_change E m w2
           | Some c \<Rightarrow> Some ((\<lparr>mr_id = mut_id m, mr_status = Applied, mr_timestamp = Some (pc_timestamp c),
               mr_sequence = Some (pc_sequence c), mr_change = Some c\<rparr>, True), w2))"
        using persistent fresh c(1) a(1)
        by (simp add: processMutationWithContext_def refused_def log_option_def split: option.split)
      show ?thesis
      proof (cases "refused ?op ctx \<or> r = None")
        case True
        then have "processMutationWithContext E m ctx mode w = applied_without_change E m w1"
          "refused ?op ctx \<or> nothing_to_do ?cs"
          using run post by auto
        then show ?thesis
          using applied_without_change_at[OF at1 refl] at1 persistent fresh ab(1) seen1
          by (simp add: mutation_outcome_def Let_def v1)
      next
        case False
        then obtain ch where ch: "r = Some ch" "\<not> refused ?op ctx" by auto
        then show ?thesis
          using run post persistent fresh seen1 a(2-4)
          by (simp add: mutation_outcome_def Let_def v1 change_of_def)
      qed
    qed
  qed
qed

end

section \<open>The context mirrors the store\<close>

definition mirrors :: "lock_context \<Rightarrow> (string \<rightharpoonup> json) \<Rightarrow> bool" where
  \<comment> \<open>what the context has is what the element hash has\<close>
  "mirrors ctx h = (\<forall>i e. js_get i ctx = Some e \<longrightarrow> (\<exists>j. h i = Some j \<and> parse_element j = e))"

definition mirrors_on :: "string set \<Rightarrow> lock_context \<Rightarrow> (string \<rightharpoonup> json) \<Rightarrow> bool" where
  "mirrors_on T ctx h = (\<forall>i \<in> T. js_get i ctx = map_option parse_element (h i))"

lemma collect_by_ids_get:
  "js_get i (collect_by_ids ids (map h ids)) = (if i \<in> set ids \<and> i \<noteq> [] then map_option parse_element (h i) else None)"
proof -
  let ?f = "\<lambda>(i, j) m. case j of None \<Rightarrow> m | Some doc \<Rightarrow> if i = [] then m else js_put i (parse_element doc) m"
  have "js_get i (fold ?f (zip ids (map h ids)) m) =
    (if i \<in> set ids \<and> i \<noteq> [] \<and> h i \<noteq> None then map_option parse_element (h i) else js_get i m)" for m
  proof (induction ids arbitrary: m)
    case (Cons a ids)
    show ?case
      by (cases "h a") (auto simp: Cons split: if_splits)
  qed simp
  then show ?thesis by (auto simp: collect_by_ids_def)
qed

lemma mirrors_spread:
  assumes "mirrors c1 h" "mirrors c2 h" "mirrors_on T1 c1 h" "mirrors_on T2 c2 h"
    and "distinct (map fst c2)"
  shows "mirrors (js_spread c1 c2) h \<and> mirrors_on (T1 \<union> T2) (js_spread c1 c2) h"
proof -
  have get: "js_get i (js_spread c1 c2) = (case js_get i c2 of None \<Rightarrow> js_get i c1 | Some e \<Rightarrow> Some e)" for i
    using assms(5) by (rule js_get_spread_distinct)
  have "mirrors (js_spread c1 c2) h"
    using assms(1,2) by (auto simp: mirrors_def get split: option.splits)
  moreover have "js_get i (js_spread c1 c2) = map_option parse_element (h i)" if "i \<in> T1 \<union> T2" for i
    using that assms(1-4)
    by (cases "js_get i c2"; cases "js_get i c1") (force simp: get mirrors_def mirrors_on_def)+
  ultimately show ?thesis by (simp add: mirrors_on_def)
qed

lemma distinct_collect_by_ids: "distinct (map fst (collect_by_ids ids raw))"
proof -
  have "distinct (map fst (fold (\<lambda>(i, j) m. case j of None \<Rightarrow> m
      | Some doc \<Rightarrow> if i = [] then m else js_put i (parse_element doc) m) ps m))"
    if "distinct (map fst m)" for ps and m :: lock_context
    using that
  proof (induction ps arbitrary: m)
    case (Cons p ps)
    then show ?case by (cases p) (auto split: option.split)
  qed simp
  then show ?thesis by (simp add: collect_by_ids_def)
qed

definition element_docs :: "string \<Rightarrow> rview \<Rightarrow> (string \<rightharpoonup> json)" where
  "element_docs b v = ab_elements (abs_board b v)"

lemma element_docs_hash: "element_docs b v = v_hash v (boardElementsKey b)"
  by (simp add: element_docs_def abs_board_def)

context redis_client
begin

lemma fetch_one_ready:
  assumes "board_ready E b w" "distinct ids"
  shows "\<exists>ctx. fetch_one_by_one E b ids w = Some (ctx, w) \<and> distinct (map fst ctx) \<and> set (map fst ctx) \<subseteq> set ids \<and>
    mirrors ctx (element_docs b (view w)) \<and> mirrors_on (set ids) ctx (element_docs b (view w))"
  using assms(2)
proof (induction ids)
  case Nil
  then show ?case by (simp add: mirrors_def mirrors_on_def)
next
  case (Cons i ids)
  then obtain rest where r: "fetch_one_by_one E b ids w = Some (rest, w)" "distinct (map fst rest)"
    "set (map fst rest) \<subseteq> set ids" "mirrors rest (element_docs b (view w))"
    "mirrors_on (set ids) rest (element_docs b (view w))" by auto
  have g: "getElement E b i w = Some (map_option parse_element (element_docs b (view w) i), w)"
    using assms(1) by (simp add: getElement_def waitForBoardLoad_ready hget element_docs_hash)
  have fresh: "js_get i rest = None" using r(3) Cons.prems by (auto simp: js_get_None)
  show ?case
    using r g fresh Cons.prems
    by (cases "element_docs b (view w) i") (auto simp: mirrors_def mirrors_on_def)
qed

lemma fetch_ready:
  assumes "board_ready E b w" "distinct ids"
  shows "\<exists>ctx. fetchByIds E cfg b ids w = Some (ctx, w) \<and> distinct (map fst ctx) \<and>
    mirrors ctx (element_docs b (view w)) \<and> mirrors_on (set ids - {[]}) ctx (element_docs b (view w))"
proof (cases "pr_targetedReads cfg")
  case True
  let ?ctx = "if ids = [] then [] else collect_by_ids ids (map (element_docs b (view w)) ids)"
  have "fetchByIds E cfg b ids w = Some (?ctx, w)"
    using True assms(1)
    by (simp add: fetchByIds_def getElementsByIds_def waitForBoardLoad_ready hmget element_docs_hash)
  moreover have "mirrors ?ctx (element_docs b (view w))" "mirrors_on (set ids - {[]}) ?ctx (element_docs b (view w))"
    by (auto simp: mirrors_def mirrors_on_def collect_by_ids_get split: if_splits)
  ultimately show ?thesis by (intro exI[of _ ?ctx]) (simp add: distinct_collect_by_ids)
next
  case False
  then show ?thesis
    using fetch_one_ready[OF assms] by (force simp: fetchByIds_def mirrors_on_def)
qed

lemma context_ready:
  assumes "board_ready E b w"
  shows "\<exists>ctx. createCachedBoardContext E cfg b ms w = Some (ctx, w) \<and> mirrors ctx (element_docs b (view w)) \<and>
    (if collectTouchedElementIds ms = [] then ctx = []
     else mirrors_on (set (collectTouchedElementIds ms) \<union> set (collectReferencedMetaIds ms) - {[]}) ctx
         (element_docs b (view w)) \<and>
       (\<forall>i e. i \<in> set (collectTouchedElementIds ms) - {[]} \<longrightarrow> js_get i ctx = Some e \<longrightarrow>
         mirrors_on (set (parent_ids e) - {[]}) ctx (element_docs b (view w))))"
proof (cases "collectTouchedElementIds ms = []")
  case True
  then show ?thesis by (simp add: createCachedBoardContext_def mirrors_def)
next
  case touched: False
  let ?h = "element_docs b (view w)" and ?T = "set (collectTouchedElementIds ms)"
  obtain c1 where c1: "fetchByIds E cfg b (collectTouchedElementIds ms) w = Some (c1, w)" "distinct (map fst c1)"
    "mirrors c1 ?h" "mirrors_on (?T - {[]}) c1 ?h"
    using fetch_ready[OF assms, of "collectTouchedElementIds ms" cfg] by (auto simp: collectTouchedElementIds_def)
  define missing where "missing = filter (\<lambda>i. \<not> js_has i c1) (context_parents c1 ms)"
  obtain c2 where c2: "fetchByIds E cfg b missing w = Some (c2, w)" "distinct (map fst c2)"
    "mirrors c2 ?h" "mirrors_on (set missing - {[]}) c2 ?h"
    using fetch_ready[OF assms, of missing cfg] by (auto simp: missing_def context_parents_def)
  let ?ctx = "if missing = [] then c1 else js_spread c1 c2"
  have run: "createCachedBoardContext E cfg b ms w = Some (?ctx, w)"
    using touched c1(1) c2(1) by (simp add: createCachedBoardContext_def Let_def missing_def[symmetric])
  have mir: "mirrors ?ctx ?h \<and> mirrors_on (?T - {[]} \<union> (set missing - {[]})) ?ctx ?h"
    using c1 mirrors_spread[OF c1(3) c2(3) c1(4) c2(4,2)] by simp
  have known: "js_get i ?ctx = map_option parse_element (?h i)" if some: "js_get i c1 \<noteq> None" for i
  proof -
    obtain e j where e: "js_get i c1 = Some e" "?h i = Some j" "parse_element j = e"
      using some c1(3) unfolding mirrors_def by blast
    show ?thesis
    proof (cases "js_get i ?ctx")
      case None
      then show ?thesis using e js_get_spread_distinct[OF c2(2), of i c1] by (auto split: if_splits option.splits)
    next
      case (Some e')
      then show ?thesis using mir e by (fastforce simp: mirrors_def)
    qed
  qed
  have all: "js_get i ?ctx = map_option parse_element (?h i)"
    if "i \<in> ?T \<union> set (context_parents c1 ms)" "i \<noteq> []" for i
  proof (cases "js_get i c1 = None")
    case False
    then show ?thesis by (rule known)
  next
    case True
    then have "i \<in> ?T - {[]} \<union> (set missing - {[]})" using that by (auto simp: missing_def js_has_def)
    then show ?thesis using mir unfolding mirrors_on_def by blast
  qed
  have sub: "set (collectReferencedMetaIds ms) \<subseteq> set (context_parents c1 ms)" by (simp add: context_parents_def)
  have "p \<in> set (context_parents c1 ms)"
    if "i \<in> ?T - {[]}" "js_get i ?ctx = Some e" "p \<in> set (parent_ids e)" for i e p
  proof -
    have "js_get i c1 = Some e"
    proof (cases "js_get i c1")
      case None
      then have "?h i = None" using c1(4) that(1) by (simp add: mirrors_on_def)
      then show ?thesis using that(2) mir[THEN conjunct1] unfolding mirrors_def by fastforce
    next
      case (Some e')
      moreover from this obtain j where "?h i = Some j" "parse_element j = e'"
        using c1(3) unfolding mirrors_def by blast
      ultimately show ?thesis using known[of i] that(2) by simp
    qed
    then have "(i, e) \<in> set c1" using js_get_set[OF c1(2)] by blast
    then show ?thesis using that(3) by (force simp: context_parents_def)
  qed
  then have "mirrors_on (set (parent_ids e) - {[]}) ?ctx ?h" if "i \<in> ?T - {[]}" "js_get i ?ctx = Some e" for i e
    using that all unfolding mirrors_on_def by blast
  moreover have "mirrors_on (?T \<union> set (collectReferencedMetaIds ms) - {[]}) ?ctx ?h"
    using all sub unfolding mirrors_on_def by blast
  ultimately show ?thesis using run mir touched by (intro exI[of _ ?ctx]) (simp only: if_False, blast)
qed

end

section \<open>A batch keeps its context in step\<close>

lemma fold_remove_get: "js_get i (fold js_remove ds ctx) = (if i \<in> set ds then None else js_get i ctx)"
  by (induction ds arbitrary: ctx) auto

lemma apply_context_get:
  assumes "mr_status res = Applied" "mr_change res = Some c" "distinct (map el_id (pc_upserts c))"
  shows "js_get i (applyPersistedChangeToContext ctx res) =
    (if i \<in> set (pc_deletes c) then None
     else case map_of (map (\<lambda>e. (el_id e, e)) (pc_upserts c)) i of Some e \<Rightarrow> Some e | None \<Rightarrow> js_get i ctx)"
proof -
  have "js_get i (fold (\<lambda>e ctx. js_put (el_id e) e ctx) es ctx) =
      (case map_of (map (\<lambda>e. (el_id e, e)) es) i of Some e \<Rightarrow> Some e | None \<Rightarrow> js_get i ctx)"
    if "distinct (map el_id es)" for es ctx
    using that
  proof (induction es arbitrary: ctx)
    case (Cons e es)
    have "map_of (map (\<lambda>e. (el_id e, e)) es) (el_id e) = None"
      using Cons.prems by (auto simp: map_of_eq_None_iff)
    then show ?case using Cons by (auto split: option.split)
  qed simp
  then show ?thesis using assms by (simp add: applyPersistedChangeToContext_def fold_remove_get)
qed

lemma map_of_docs: "map_of (map (\<lambda>e. (el_id e, JObj e)) us) i = map_option JObj (map_of (map (\<lambda>e. (el_id e, e)) us) i)"
  by (induction us) auto

lemma apply_context_mirrors:
  assumes "mr_status res = Applied" "mr_change res = Some c" "distinct (map el_id (pc_upserts c))"
    and "mirrors ctx h" "mirrors_on T ctx h"
  shows "mirrors (applyPersistedChangeToContext ctx res) (overlay (pc_upserts c) (pc_deletes c) h) \<and>
    mirrors_on T (applyPersistedChangeToContext ctx res) (overlay (pc_upserts c) (pc_deletes c) h)"
  using assms(4,5)
  by (auto simp: mirrors_def mirrors_on_def apply_context_get[OF assms(1-3)] overlay_def map_of_docs
      split: option.splits if_splits)

lemma outcome_mirrors:
  assumes "mutation_outcome m ctx mode n v res changed v'" "b = mut_board m"
    and "mirrors ctx (element_docs b v)" "mirrors_on T ctx (element_docs b v)"
  shows "mirrors (applyPersistedChangeToContext ctx res) (element_docs b v') \<and>
    mirrors_on T (applyPersistedChangeToContext ctx res) (element_docs b v')"
proof (cases "mr_change res")
  case None
  then have "element_docs b v' = element_docs b v"
    using assms(1,2) by (auto simp: mutation_outcome_def Let_def element_docs_def split: if_splits)
  then show ?thesis using assms None by (simp add: applyPersistedChangeToContext_def split: mutation_status.split)
next
  case (Some c)
  then have c: "mr_status res = Applied" "change_of b ctx (mut_operation m) mode n v c"
    "abs_board b v' = (spec_change (mode = Collab) c (abs_board b v))\<lparr>ab_sequence := n + 1\<rparr>"
    using assms(1,2) by (auto simp: mutation_outcome_def Let_def split: if_splits)
  have "distinct (map el_id (pc_upserts c))" using c(2) by (simp add: change_of_def distinct_effective_upserts)
  then show ?thesis
    using apply_context_mirrors[OF c(1) Some _ assms(3,4)] c(3)
    by (simp add: element_docs_def spec_change_def Let_def)
qed

section \<open>Protected elements keep their place\<close>

fun repositions :: "operation \<Rightarrow> bool" where
  \<comment> \<open>the operations that change known elements\<close>
  "repositions (MOVE_ELEMENTS moves transient) = True"
| "repositions (UPDATE_ELEMENT i changes) = True"
| "repositions (UPDATE_ELEMENTS updates) = True"
| "repositions (REORDER_ELEMENT i z) = True"
| "repositions _ = False"

fun renames :: "operation \<Rightarrow> bool" where
  \<comment> \<open>a patch overwrites the \<open>id\<close> of an element\<close>
  "renames (UPDATE_ELEMENT i changes) = (''id'' \<in> fst ` set changes)"
| "renames (UPDATE_ELEMENTS updates) = list_ex (\<lambda>(i, changes). ''id'' \<in> fst ` set changes) updates"
| "renames _ = False"

definition keyed :: "lock_context \<Rightarrow> bool" where
  "keyed ctx = (\<forall>i e. js_get i ctx = Some e \<longrightarrow> el_id e = i)"

definition same_place :: "board_element \<Rightarrow> board_element \<Rightarrow> bool" where
  "same_place e u = (\<forall>p \<in> set POSITION_FIELDS. js_get p u = js_get p e)"

lemma not_position [simp]: "''updatedAt'' \<notin> set POSITION_FIELDS" "''zIndex'' \<notin> set POSITION_FIELDS"
  by (simp_all add: POSITION_FIELDS_def)

lemma same_place_put: "k \<notin> set POSITION_FIELDS \<Longrightarrow> same_place e u \<Longrightarrow> same_place e (js_put k x u)"
  by (auto simp: same_place_def)

lemma same_place_patch:
  assumes "\<not> isPositionPatch changes" shows "same_place e (js_spread e changes)"
  using assms position_patch_other unfolding same_place_def by blast

lemma spread_id:
  assumes "''id'' \<notin> fst ` set changes" shows "el_id (js_spread e changes) = el_id e"
proof -
  have "js_get ''id'' (rev changes) = None" using assms by (simp add: js_get_None)
  then show ?thesis by (simp add: el_id_def string_field_def js_get_spread)
qed

lemma patch_keeps_place:
  assumes "keyed ctx" "js_get j ctx = Some e'" "\<not> patch_blocked ctx j changes" "''id'' \<notin> fst ` set changes"
    and "js_get i ctx = Some e" "element_protected ctx e" "el_id (js_spread e' changes) = i"
  shows "same_place e (js_spread e' changes)"
proof -
  have "i = j" using assms(1,2,4,7) by (simp add: keyed_def spread_id)
  then have "\<not> isPositionPatch changes" using assms(2,3,5,6) by (simp add: patch_blocked_def split: if_splits)
  then show ?thesis using same_place_patch assms(2,5) \<open>i = j\<close> by simp
qed

lemma in_toUpsertFromCache [simp]:
  "u \<in> set (toUpsertFromCache ctx i f) \<longleftrightarrow> (\<exists>e. js_get i ctx = Some e \<and> u = f e)"
  by (cases "js_get i ctx") (auto simp: toUpsertFromCache_def)

lemma upsert_keeps_place:
  assumes "keyed ctx" "repositions op" "\<not> renames op" "\<not> isMutationBlockedByLock op ctx"
    and "js_get i ctx = Some e" "element_protected ctx e"
    and "u \<in> set (cs_upserts (toChangeSet ctx op))" "el_id u = i"
  shows "same_place e u"
proof (cases op)
  case (MOVE_ELEMENTS moves transient)
  then obtain j x y e' where m: "(j, x, y) \<in> set moves" "js_get j ctx = Some e'" "u = move_element x y e'"
    using assms(7) that by auto
  then have "i = j" using assms(1,8) by (simp add: keyed_def move_element_def)
  then show ?thesis using m assms(4-6) MOVE_ELEMENTS by (fastforce simp: list_ex_iff)
next
  case (UPDATE_ELEMENT j changes)
  then obtain e' where "js_get j ctx = Some e'" "u = js_spread e' changes"
    using assms(7) by auto
  then show ?thesis using patch_keeps_place[OF assms(1)] assms(3-6,8) UPDATE_ELEMENT by simp
next
  case (UPDATE_ELEMENTS updates)
  then obtain j changes e' where m: "(j, changes) \<in> set updates" "js_get j ctx = Some e'" "u = js_spread e' changes"
    using assms(7) that by auto
  have "\<not> patch_blocked ctx j changes" "''id'' \<notin> fst ` set changes"
    using m(1) assms(3,4) UPDATE_ELEMENTS by (auto simp: list_ex_iff)
  then show ?thesis using patch_keeps_place[OF assms(1) m(2)] m(3) assms(5,6,8) by simp
next
  case (REORDER_ELEMENT j z)
  then obtain e' where m: "js_get j ctx = Some e'" "u = js_put ''zIndex'' (JNum z) e'"
    using assms(7) by auto
  then have "i = j" using assms(1,8) by (simp add: keyed_def)
  then show ?thesis using m assms(5) by (simp add: same_place_put same_place_def)
qed (use assms(2) in simp_all)

lemma effective_upserts_from: "u \<in> set (effective_upserts t us ds) \<Longrightarrow> \<exists>v \<in> set us. u = stamp t v"
proof -
  assume "u \<in> set (effective_upserts t us ds)"
  then obtain v where v: "u = stamp t v" "filter (\<lambda>x. el_id x = el_id v) us \<noteq> []"
    "last (filter (\<lambda>x. el_id x = el_id v) us) = v" unfolding effective_upserts_mem by blast
  then have "v \<in> set us" using last_in_set[OF v(2)] by auto
  with v(1) show ?thesis by blast
qed

end
