(* ===== verification/Payloads.thy ===== *)
theory Payloads
  imports JS_Strings "HOL-Library.Word"
begin

text \<open>
  What clients send: the parsers of \<open>realtime/socketio/payloads.ts\<close>, the mutation check of
  \<open>boards/routes/shared.ts\<close>, the size estimate and the caps of \<open>socketio/limits.ts\<close> and
  \<open>socketio/server.ts\<close>, and the colour of a user (\<open>socketio/user-color.ts\<close>). A payload is a \<open>wire\<close>
  value, so that missing fields, non-finite numbers and binary data are cases of their own. The
  lemmas bound every field of an accepted payload and identify the loops with a filter and a cut.
\<close>

section \<open>Values from the wire\<close>

datatype js_number = Fin rat | PosInf | NegInf | NaN

datatype wire =
    WUndefined
  | WNull
  | WBool bool
  | WNum js_number
  | WStr string
  | WBytes "nat list"
  | WArr "wire list"
  | WObj "(string \<times> wire) list"

fun isRecord :: "wire \<Rightarrow> bool" where
  \<comment> \<open>\<open>typeof value === 'object' && value !== null\<close>\<close>
  "isRecord (WBytes bs) = True"
| "isRecord (WArr items) = True"
| "isRecord (WObj entries) = True"
| "isRecord _ = False"

fun get_prop :: "string \<Rightarrow> wire \<Rightarrow> wire" where
  \<comment> \<open>\<open>value[key]\<close> of an object; arrays and buffers have none of the properties read here\<close>
  "get_prop key (WObj entries) = (case js_get key entries of Some v \<Rightarrow> v | None \<Rightarrow> WUndefined)"
| "get_prop key _ = WUndefined"

fun asString :: "wire \<Rightarrow> string option" where
  "asString (WStr s) = (if s \<noteq> [] then Some s else None)"
| "asString _ = None"

fun normalizeSequence :: "(wire \<Rightarrow> string) \<Rightarrow> wire \<Rightarrow> rat" where
  \<comment> \<open>\<open>js_String\<close> is the conversion \<open>String(value)\<close>\<close>
  "normalizeSequence js_String (WNum (Fin q)) = (if 0 \<le> q then q else 0)"
| "normalizeSequence js_String (WNum n) = 0"
| "normalizeSequence js_String WUndefined = 0"
| "normalizeSequence js_String WNull = 0"
| "normalizeSequence js_String v = (case parse_int (js_String v) of
     None \<Rightarrow> 0 | Some n \<Rightarrow> if 0 \<le> n then of_int n else 0)"

fun byte_of :: "wire \<Rightarrow> nat option" where
  \<comment> \<open>\<open>Number.isInteger(item) && item >= 0 && item <= 255\<close>\<close>
  "byte_of (WNum (Fin q)) = (if of_int \<lfloor>q\<rfloor> = q \<and> 0 \<le> q \<and> q \<le> 255 then Some (nat \<lfloor>q\<rfloor>) else None)"
| "byte_of _ = None"

fun normalizeUpdate :: "wire \<Rightarrow> nat list option" where
  "normalizeUpdate (WBytes bs) = Some bs"
| "normalizeUpdate (WArr items) =
     (if list_all (\<lambda>i. byte_of i \<noteq> None) items then Some (map (\<lambda>i. the (byte_of i)) items) else None)"
| "normalizeUpdate _ = None"

definition MAX_MUTATION_BATCH :: nat where "MAX_MUTATION_BATCH = 100"
definition MAX_BOARD_ID_LENGTH :: nat where "MAX_BOARD_ID_LENGTH = 200"
definition MAX_ID_LENGTH :: nat where "MAX_ID_LENGTH = 200"
definition MAX_ID_LIST_LENGTH :: nat where "MAX_ID_LIST_LENGTH = 100"
definition MAX_MOVES :: nat where "MAX_MOVES = 500"
definition MAX_PRESENCE_MESSAGE_LENGTH :: nat where "MAX_PRESENCE_MESSAGE_LENGTH = 280"

lemmas payload_limits = MAX_MUTATION_BATCH_def MAX_BOARD_ID_LENGTH_def MAX_ID_LENGTH_def MAX_ID_LIST_LENGTH_def
  MAX_MOVES_def MAX_PRESENCE_MESSAGE_LENGTH_def

fun isMutationBatch :: "wire \<Rightarrow> wire list option" where
  "isMutationBatch (WArr items) = (if items \<noteq> [] \<and> length items \<le> MAX_MUTATION_BATCH then Some items else None)"
| "isMutationBatch _ = None"

fun isFiniteNumber :: "wire \<Rightarrow> rat option" where
  "isFiniteNumber (WNum (Fin q)) = Some q"
| "isFiniteNumber _ = None"

fun bounded_id :: "wire \<Rightarrow> string option" where
  "bounded_id (WStr s) = (if s \<noteq> [] \<and> length s \<le> MAX_ID_LENGTH then Some s else None)"
| "bounded_id _ = None"

fun collect_ids :: "wire list \<Rightarrow> string list \<Rightarrow> string list" where
  "collect_ids [] ids = ids"
| "collect_ids (item # items) ids = (case bounded_id item of
     None \<Rightarrow> collect_ids items ids
   | Some s \<Rightarrow> if MAX_ID_LIST_LENGTH \<le> length (ids @ [s]) then ids @ [s] else collect_ids items (ids @ [s]))"

fun parseIdList :: "wire \<Rightarrow> string list" where
  "parseIdList (WArr items) = collect_ids items []"
| "parseIdList _ = []"

type_synonym move = "string \<times> rat \<times> rat"

definition move_of :: "wire \<Rightarrow> move option" where
  "move_of item =
     (if \<not> isRecord item then None
      else case (bounded_id (get_prop ''id'' item), isFiniteNumber (get_prop ''x'' item), isFiniteNumber (get_prop ''y'' item)) of
        (Some i, Some x, Some y) \<Rightarrow> Some (i, x, y) | _ \<Rightarrow> None)"

fun collect_moves :: "wire list \<Rightarrow> move list \<Rightarrow> move list" where
  "collect_moves [] moves = moves"
| "collect_moves (item # items) moves =
     (if MAX_MOVES \<le> length moves then moves
      else case move_of item of None \<Rightarrow> collect_moves items moves
        | Some m \<Rightarrow> collect_moves items (moves @ [m]))"

fun parseMoves :: "wire \<Rightarrow> move list" where
  "parseMoves (WArr items) = collect_moves items []"
| "parseMoves _ = []"

section \<open>The five payloads\<close>

record board_join_payload =
  jp_boardId :: string
  jp_lastSequence :: rat
  jp_sessionId :: string
  jp_shareToken :: "string option"
  jp_userName :: "string option"

record mutation_batch_payload =
  mp_boardId :: string
  mp_mutations :: "wire list"

record crdt_update_payload =
  up_boardId :: string
  up_update :: "nat list"

record presence_payload =
  pp_boardId :: string
  pp_cursor :: "(rat \<times> rat) option"
  pp_selectedIds :: "string list"
  pp_draggedIds :: "string list"
  pp_focusedElementId :: "string option"
  pp_typingField :: "string option"

record tick_payload = presence_payload +
  tp_tickId :: rat
  tp_presenceState :: string
  tp_presenceMessage :: "string option"
  tp_moves :: "move list"

definition board_id_of :: "wire \<Rightarrow> string option" where
  "board_id_of payload = (case asString (get_prop ''boardId'' payload) of
     None \<Rightarrow> None | Some i \<Rightarrow> if length i > MAX_BOARD_ID_LENGTH then None else Some i)"

fun js_string_of :: "wire \<Rightarrow> string option" where
  "js_string_of (WStr s) = Some s"
| "js_string_of _ = None"

definition parseBoardJoinPayload :: "(wire \<Rightarrow> string) \<Rightarrow> wire \<Rightarrow> board_join_payload option" where
  "parseBoardJoinPayload js_String payload =
     (if \<not> isRecord payload then None
      else case (board_id_of payload, bounded_id (get_prop ''sessionId'' payload)) of
        (Some boardId, Some sessionId) \<Rightarrow> Some \<lparr>jp_boardId = boardId,
           jp_lastSequence = normalizeSequence js_String (get_prop ''lastSequence'' payload),
           jp_sessionId = sessionId,
           jp_shareToken = js_string_of (get_prop ''shareToken'' payload),
           jp_userName = (case js_string_of (get_prop ''userName'' payload) of
              None \<Rightarrow> None | Some n \<Rightarrow> if js_trim n \<noteq> [] then Some (take 64 (js_trim n)) else None)\<rparr>
      | _ \<Rightarrow> None)"

definition parseMutationBatchPayload :: "wire \<Rightarrow> mutation_batch_payload option" where
  "parseMutationBatchPayload payload =
     (if \<not> isRecord payload then None
      else case (board_id_of payload, isMutationBatch (get_prop ''mutations'' payload)) of
        (Some boardId, Some mutations) \<Rightarrow> Some \<lparr>mp_boardId = boardId, mp_mutations = mutations\<rparr>
      | _ \<Rightarrow> None)"

definition parseCrdtUpdatePayload :: "wire \<Rightarrow> crdt_update_payload option" where
  "parseCrdtUpdatePayload payload =
     (if \<not> isRecord payload then None
      else case (board_id_of payload, normalizeUpdate (get_prop ''update'' payload)) of
        (Some boardId, Some update) \<Rightarrow> if update = [] then None else Some \<lparr>up_boardId = boardId, up_update = update\<rparr>
      | _ \<Rightarrow> None)"

definition cursor_of :: "wire \<Rightarrow> (rat \<times> rat) option option" where
  \<comment> \<open>\<open>None\<close>: the payload is refused\<close>
  "cursor_of cursor =
     (if cursor = WNull \<or> cursor = WUndefined then Some None
      else if \<not> isRecord cursor then None
      else case (isFiniteNumber (get_prop ''x'' cursor), isFiniteNumber (get_prop ''y'' cursor)) of
        (Some x, Some y) \<Rightarrow> Some (Some (x, y)) | _ \<Rightarrow> None)"

definition typing_of :: "wire \<Rightarrow> string option" where
  "typing_of v = (if v = WStr ''title'' then Some ''title'' else if v = WStr ''body'' then Some ''body'' else None)"

definition parsePresenceUpdatePayload :: "wire \<Rightarrow> presence_payload option" where
  "parsePresenceUpdatePayload payload =
     (if \<not> isRecord payload then None
      else case board_id_of payload of
        None \<Rightarrow> None
      | Some boardId \<Rightarrow>
          (case cursor_of (get_prop ''cursor'' payload) of
             None \<Rightarrow> None
           | Some cursor \<Rightarrow> Some \<lparr>pp_boardId = boardId, pp_cursor = cursor,
               pp_selectedIds = parseIdList (get_prop ''selectedIds'' payload),
               pp_draggedIds = parseIdList (get_prop ''draggedIds'' payload),
               pp_focusedElementId = bounded_id (get_prop ''focusedElementId'' payload),
               pp_typingField = typing_of (get_prop ''typingField'' payload)\<rparr>))"

definition presence_state_of :: "wire \<Rightarrow> string" where
  "presence_state_of v = (if v = WStr ''away'' then ''away''
     else if v = WStr ''interacting'' then ''interacting'' else ''active'')"

fun presence_message_of :: "wire \<Rightarrow> string option" where
  "presence_message_of (WStr s) = (if s \<noteq> [] \<and> length s \<le> MAX_PRESENCE_MESSAGE_LENGTH then Some s else None)"
| "presence_message_of _ = None"

definition parseRealtimeTickPayload :: "(wire \<Rightarrow> string) \<Rightarrow> wire \<Rightarrow> tick_payload option" where
  "parseRealtimeTickPayload js_String payload =
     (if \<not> isRecord payload then None
      else case board_id_of payload of
        None \<Rightarrow> None
      | Some boardId \<Rightarrow>
          (let tickId = normalizeSequence js_String (get_prop ''tickId'' payload) in
           case cursor_of (get_prop ''cursor'' payload) of
             None \<Rightarrow> None
           | Some cursor \<Rightarrow> Some \<lparr>pp_boardId = boardId, pp_cursor = cursor,
               pp_selectedIds = parseIdList (get_prop ''selectedIds'' payload),
               pp_draggedIds = parseIdList (get_prop ''draggedIds'' payload),
               pp_focusedElementId = bounded_id (get_prop ''focusedElementId'' payload),
               pp_typingField = typing_of (get_prop ''typingField'' payload),
               tp_tickId = tickId,
               tp_presenceState = presence_state_of (get_prop ''presenceState'' payload),
               tp_presenceMessage = presence_message_of (get_prop ''presenceMessage'' payload),
               tp_moves = parseMoves (get_prop ''moves'' payload)\<rparr>))"

section \<open>Mutations over HTTP\<close>

fun isStringArray :: "wire \<Rightarrow> bool" where
  "isStringArray (WArr items) = list_all (\<lambda>i. js_string_of i \<noteq> None) items"
| "isStringArray _ = False"

fun isArray :: "wire \<Rightarrow> bool" where
  "isArray (WArr items) = True"
| "isArray _ = False"

definition is_string :: "wire \<Rightarrow> bool" where
  "is_string v = (js_string_of v \<noteq> None)"

definition isMutation :: "wire \<Rightarrow> bool" where
  "isMutation value =
     (if \<not> isRecord value then False
      else if \<not> is_string (get_prop ''mutationId'' value) \<or> \<not> is_string (get_prop ''boardId'' value) \<or>
        isFiniteNumber (get_prop ''clientTimestamp'' value) = None then False
      else let op = get_prop ''operation'' value; kind = js_string_of (get_prop ''type'' op) in
        if \<not> isRecord op then False
        else if kind = Some ''CREATE_ELEMENT''
        then is_string (get_prop ''elementId'' op) \<and> isRecord (get_prop ''data'' op)
        else if kind = Some ''UPDATE_ELEMENT''
        then is_string (get_prop ''elementId'' op) \<and> isRecord (get_prop ''fields'' op)
        else if kind = Some ''DELETE_ELEMENTS'' then isStringArray (get_prop ''elementIds'' op)
        else if kind = Some ''MOVE_ELEMENTS'' then isArray (get_prop ''moves'' op)
        else if kind = Some ''UPDATE_ELEMENTS'' then isArray (get_prop ''updates'' op)
        else if kind = Some ''REORDER_ELEMENT''
        then is_string (get_prop ''elementId'' op) \<and> isFiniteNumber (get_prop ''zIndex'' op) \<noteq> None
        else if kind = Some ''RECONCILE_MONTH_RANGE''
        then is_string (get_prop ''metaId'' op) \<and>
          (case get_prop ''upserts'' op of WArr us \<Rightarrow> us \<noteq> [] \<and> list_all isRecord us | _ \<Rightarrow> False) \<and>
          isStringArray (get_prop ''deletes'' op)
        else False)"

section \<open>Size of a payload\<close>

definition MAX_MEASURE_DEPTH :: nat where "MAX_MEASURE_DEPTH = 8"
definition MAX_MEASURE_DEPTH_BYTES :: nat where "MAX_MEASURE_DEPTH_BYTES = 8"

function measurePayloadBytes :: "(js_number \<Rightarrow> string) \<Rightarrow> nat \<Rightarrow> wire \<Rightarrow> nat" where
  \<comment> \<open>\<open>num\<close> renders a number; a character of ASCII text is one byte\<close>
  "measurePayloadBytes num depth WNull = 4"
| "measurePayloadBytes num depth WUndefined = 4"
| "measurePayloadBytes num depth (WStr s) = length s + 2"
| "measurePayloadBytes num depth (WNum n) = length (num n)"
| "measurePayloadBytes num depth (WBool b) = (if b then 4 else 5)"
| "measurePayloadBytes num depth (WBytes bs) = length bs"
| "measurePayloadBytes num depth (WArr items) =
     (if MAX_MEASURE_DEPTH \<le> depth then MAX_MEASURE_DEPTH_BYTES
      else 2 + sum_list (map (\<lambda>i. measurePayloadBytes num (depth + 1) i + 1) items))"
| "measurePayloadBytes num depth (WObj entries) =
     (if MAX_MEASURE_DEPTH \<le> depth then MAX_MEASURE_DEPTH_BYTES
      else 2 + sum_list (map (\<lambda>p. length (fst p) + 4 + measurePayloadBytes num (depth + 1) (snd p)) entries))"
  by pat_completeness auto

termination measurePayloadBytes
  by (relation "measure (\<lambda>(num, depth, v). MAX_MEASURE_DEPTH - depth)") auto

definition BOARD_JOIN :: string where "BOARD_JOIN = ''board:join''"
definition MUTATION_BATCH :: string where "MUTATION_BATCH = ''mutation:batch''"
definition CRDT_UPDATE :: string where "CRDT_UPDATE = ''crdt:update''"
definition PRESENCE_UPDATE :: string where "PRESENCE_UPDATE = ''presence:update''"
definition REALTIME_TICK :: string where "REALTIME_TICK = ''realtime:tick''"

definition SOCKET_EVENT_BYTE_CAPS :: "(string \<times> nat) list" where
  "SOCKET_EVENT_BYTE_CAPS = [(MUTATION_BATCH, 256 * 1024), (CRDT_UPDATE, 128 * 1024), (REALTIME_TICK, 32 * 1024),
     (PRESENCE_UPDATE, 8 * 1024), (BOARD_JOIN, 4 * 1024)]"

definition payloadExceedsCap :: "(js_number \<Rightarrow> string) \<Rightarrow> string \<Rightarrow> wire \<Rightarrow> bool" where
  "payloadExceedsCap num event payload = (case js_get event SOCKET_EVENT_BYTE_CAPS of
     None \<Rightarrow> False | Some cap \<Rightarrow> cap < measurePayloadBytes num 0 payload)"

section \<open>The colour of a user\<close>

definition USER_COLORS :: "string list" where
  "USER_COLORS = [''#8B5CF6'', ''#EC4899'', ''#F59E0B'', ''#10B981'', ''#3B82F6'', ''#EF4444'', ''#6366F1'', ''#14B8A6'']"

definition hash_step :: "char \<Rightarrow> 32 word \<Rightarrow> 32 word" where
  \<comment> \<open>\<open>hash = ((hash << 5) - hash) + code; hash |= 0\<close>\<close>
  "hash_step c hash = push_bit 5 hash - hash + of_nat (of_char c)"

definition user_hash :: "string \<Rightarrow> 32 word" where
  "user_hash userId = fold hash_step userId 0"

definition getUserColor :: "string \<Rightarrow> string" where
  "getUserColor userId = USER_COLORS ! nat (\<bar>sint (user_hash userId)\<bar> mod int (length USER_COLORS))"

section \<open>Bounds of accepted payloads\<close>

definition valid_id :: "string \<Rightarrow> bool" where
  "valid_id s = (s \<noteq> [] \<and> length s \<le> 200)"

lemma bounded_id_valid: "bounded_id v = Some s \<longleftrightarrow> v = WStr s \<and> valid_id s"
  by (cases v) (auto simp: valid_id_def payload_limits)

lemma collect_ids_cut:
  "length ids < 100 \<Longrightarrow> collect_ids items ids = take 100 (ids @ List.map_filter bounded_id items)"
proof (induction items arbitrary: ids)
  case (Cons item items)
  then show ?case by (cases "bounded_id item") (auto simp: map_filter_simps payload_limits take_Cons')
qed simp

lemma parseIdList_cut: "parseIdList (WArr items) = take 100 (List.map_filter bounded_id items)"
  using collect_ids_cut[of "[]" items] by simp

lemma collect_moves_cut:
  "length ms \<le> 500 \<Longrightarrow> collect_moves items ms = take 500 (ms @ List.map_filter move_of items)"
proof (induction items arbitrary: ms)
  case (Cons item items)
  then show ?case by (cases "move_of item") (auto simp: map_filter_simps payload_limits take_Cons')
qed simp

lemma parseMoves_cut: "parseMoves (WArr items) = take 500 (List.map_filter move_of items)"
  using collect_moves_cut[of "[]" items] by simp

text \<open>The id and move loops keep exactly the first hundred valid ids and the first five hundred valid
  moves of an array, in order and with their repetitions, and nothing of a value that is no array.\<close>

theorem parse_lists_cut_filter:
  "parseIdList v = (case v of WArr items \<Rightarrow> take 100 (List.map_filter bounded_id items) | _ \<Rightarrow> []) \<and>
   parseMoves v = (case v of WArr items \<Rightarrow> take 500 (List.map_filter move_of items) | _ \<Rightarrow> [])"
  by (cases v) (simp_all add: parseIdList_cut parseMoves_cut del: parseIdList.simps(1) parseMoves.simps(1))

lemma set_map_filter: "x \<in> set (List.map_filter f xs) \<Longrightarrow> \<exists>y \<in> set xs. f y = Some x"
  by (auto simp: List.map_filter_def)

lemma parseIdList_bounds: "length (parseIdList v) \<le> 100 \<and> list_all valid_id (parseIdList v)"
  using parse_lists_cut_filter[of v]
  by (auto simp: list_all_iff bounded_id_valid split: wire.splits dest!: in_set_takeD set_map_filter)

lemma parseMoves_bounds: "length (parseMoves v) \<le> 500 \<and> list_all (valid_id \<circ> fst) (parseMoves v)"
  using parse_lists_cut_filter[of v]
  by (auto simp: list_all_iff move_of_def bounded_id_valid split: wire.splits option.splits if_splits
    dest!: in_set_takeD set_map_filter)

lemma board_id_valid: "board_id_of payload = Some i \<Longrightarrow> valid_id i"
  by (cases "get_prop ''boardId'' payload")
    (auto simp: board_id_of_def valid_id_def payload_limits split: if_splits option.splits)

lemma normalizeSequence_nonneg: "0 \<le> normalizeSequence f v"
  by (cases "(f, v)" rule: normalizeSequence.cases) (auto split: option.split)

text \<open>Every field of an accepted realtime tick is bounded: ids have 1 to 200 characters, the two id lists
  at most 100 entries and the moves at most 500, a message 1 to 280 characters, and the tick number is not negative.\<close>

theorem tick_payload_bounds:
  assumes "parseRealtimeTickPayload js_String payload = Some p"
  shows "valid_id (pp_boardId p) \<and> 0 \<le> tp_tickId p \<and>
    length (pp_selectedIds p) \<le> 100 \<and> list_all valid_id (pp_selectedIds p) \<and>
    length (pp_draggedIds p) \<le> 100 \<and> list_all valid_id (pp_draggedIds p) \<and>
    length (tp_moves p) \<le> 500 \<and> list_all (valid_id \<circ> fst) (tp_moves p) \<and>
    pred_option valid_id (pp_focusedElementId p) \<and>
    pred_option (\<lambda>m. m \<noteq> [] \<and> length m \<le> 280) (tp_presenceMessage p) \<and>
    tp_presenceState p \<in> {''active'', ''away'', ''interacting''} \<and>
    pp_typingField p \<in> {None, Some ''title'', Some ''body''}"
proof -
  have msg: "pred_option (\<lambda>m. m \<noteq> [] \<and> length m \<le> 280) (presence_message_of v)" for v
    by (cases v) (auto simp: payload_limits)
  have foc: "pred_option valid_id (bounded_id v)" for v
    by (cases "bounded_id v") (auto simp: bounded_id_valid)
  show ?thesis
    using assms parseIdList_bounds parseMoves_bounds normalizeSequence_nonneg
    by (auto simp: parseRealtimeTickPayload_def Let_def msg foc typing_of_def presence_state_of_def
      split: if_splits option.splits dest!: board_id_valid)
qed

theorem tick_payload_bounds_witness:
  "\<exists>p. parseRealtimeTickPayload (\<lambda>v. '''') (WObj [(''boardId'', WStr ''b''), (''tickId'', WNum (Fin 3)),
      (''moves'', WArr [WObj [(''id'', WStr ''e''), (''x'', WNum (Fin 1)), (''y'', WNum (Fin 2))], WNull])]) = Some p \<and>
     tp_moves p = [(''e'', 1, 2)] \<and> valid_id (pp_boardId p)"
proof -
  let ?v = "WObj [(''boardId'', WStr ''b''), (''tickId'', WNum (Fin 3)),
    (''moves'', WArr [WObj [(''id'', WStr ''e''), (''x'', WNum (Fin 1)), (''y'', WNum (Fin 2))], WNull])]"
  obtain p where p: "parseRealtimeTickPayload (\<lambda>v. '''') ?v = Some p" "tp_moves p = [(''e'', 1, 2)]"
    by (simp add: parseRealtimeTickPayload_def board_id_of_def cursor_of_def payload_limits move_of_def)
  with tick_payload_bounds[OF p(1)] show ?thesis by blast
qed

section \<open>The hash\<close>

fun poly :: "string \<Rightarrow> nat" where
  \<comment> \<open>the polynomial in 31 over the character codes, the last character as the constant\<close>
  "poly [] = 0"
| "poly (c # cs) = of_char c * 31 ^ length cs + poly cs"

lemma hash_step_31: "hash_step c h = 31 * h + of_nat (of_char c)"
  by (simp add: hash_step_def push_bit_eq_mult)

lemma user_hash_fold: "fold hash_step cs h = h * 31 ^ length cs + of_nat (poly cs)"
  by (induction cs arbitrary: h) (simp_all add: hash_step_31 algebra_simps)

text \<open>The 32-bit hash of a user id, with its shifts and wrap-around, is the polynomial in 31 over the
  character codes modulo \<open>2 ^ 32\<close>, and the colour is always one of the eight of the palette, also for a hash of
  \<open>-2 ^ 31\<close>, whose absolute value does not fit the width.\<close>

theorem getUserColor_total:
  "unat (user_hash userId) = poly userId mod 2 ^ 32 \<and> getUserColor userId \<in> set USER_COLORS"
proof -
  have "user_hash userId = of_nat (poly userId)" by (simp add: user_hash_def user_hash_fold)
  moreover have "nat (\<bar>sint (user_hash userId)\<bar> mod int (length USER_COLORS)) < length USER_COLORS"
    by (simp add: USER_COLORS_def nat_less_iff)
  ultimately show ?thesis by (simp add: getUserColor_def unat_of_nat)
qed

end
