(* ===== verification/Tick_Persistence.thy ===== *)
theory Tick_Persistence
  imports Mutation_Processor Payloads
begin

text \<open>
  Saving the moves of realtime ticks (\<open>realtime/socketio/tick-persistence.ts\<close>): the last position of
  every moved element is kept per board, a debounce timer and a maximal-wait timer lead to a flush, and
  a flush hands one \<open>MOVE_ELEMENTS\<close> mutation to the processor. The four maps of the source are the
  fields of \<open>tick_state\<close>; a timer is its due time. \<open>tick_event\<close> lists what the event loop can run
  next. The lemmas show that nothing waits longer than the maximal wait, that a flush carries the
  last position of every element, and what a failed or overlapping flush loses.
\<close>

definition TICK_PERSIST_DEBOUNCE_MS :: int where "TICK_PERSIST_DEBOUNCE_MS = 400"
definition TICK_PERSIST_MAX_WAIT_MS :: int where "TICK_PERSIST_MAX_WAIT_MS = 1500"
definition SYSTEM_ACTOR_TICK :: string where "SYSTEM_ACTOR_TICK = ''system:tick''"

type_synonym positions = "(string \<times> rat \<times> rat) list"

record tick_state =
  tk_pending :: "(string \<times> positions) list"
  tk_debounce :: "(string \<times> int) list"
  tk_maxWait :: "(string \<times> int) list"
  tk_user :: "(string \<times> string) list"

definition no_ticks :: tick_state where
  "no_ticks = \<lparr>tk_pending = [], tk_debounce = [], tk_maxWait = [], tk_user = []\<rparr>"

section \<open>Operations\<close>

definition clearTimers :: "string \<Rightarrow> tick_state \<Rightarrow> tick_state" where
  "clearTimers b s = s\<lparr>tk_debounce := js_remove b (tk_debounce s), tk_maxWait := js_remove b (tk_maxWait s)\<rparr>"

definition scheduleTickPersist :: "int \<Rightarrow> string \<Rightarrow> tick_state \<Rightarrow> tick_state" where
  \<comment> \<open>a timer set in place of a cleared one takes its slot in the map\<close>
  "scheduleTickPersist now b s = s\<lparr>
     tk_debounce := js_put b (now + TICK_PERSIST_DEBOUNCE_MS) (tk_debounce s),
     tk_maxWait := (if js_has b (tk_maxWait s) then tk_maxWait s
       else js_put b (now + TICK_PERSIST_MAX_WAIT_MS) (tk_maxWait s))\<rparr>"

fun set_positions :: "move list \<Rightarrow> positions \<Rightarrow> positions" where
  "set_positions [] pending = pending"
| "set_positions ((i, x, y) # moves) pending = set_positions moves (js_put i (x, y) pending)"

definition queueMoves :: "int \<Rightarrow> string \<Rightarrow> string \<Rightarrow> move list \<Rightarrow> tick_state \<Rightarrow> tick_state" where
  "queueMoves now b userId moves s =
     (if moves = [] then s
      else let pending = (case js_get b (tk_pending s) of None \<Rightarrow> [] | Some p \<Rightarrow> p)
        in scheduleTickPersist now b (s\<lparr>tk_pending := js_put b (set_positions moves pending) (tk_pending s),
             tk_user := js_put b userId (tk_user s)\<rparr>))"

definition clearBoard :: "string \<Rightarrow> tick_state \<Rightarrow> tick_state" where
  "clearBoard b s = (clearTimers b s)\<lparr>tk_pending := js_remove b (tk_pending s), tk_user := js_remove b (tk_user s)\<rparr>"

definition take_moves :: "string \<Rightarrow> tick_state \<Rightarrow> (string \<times> move list) option \<times> tick_state" where
  \<comment> \<open>\<open>flushTickMoves\<close> up to its first \<open>await\<close>: the actor and the moves it takes over\<close>
  "take_moves b s = (case js_get b (tk_pending s) of
     None \<Rightarrow> (None, s)
   | Some [] \<Rightarrow> (None, s)
   | Some moves \<Rightarrow> (Some (case js_get b (tk_user s) of None \<Rightarrow> SYSTEM_ACTOR_TICK | Some u \<Rightarrow> u, moves),
       (clearTimers b s)\<lparr>tk_pending := js_remove b (tk_pending s)\<rparr>))"

definition tick_mutation :: "'w env \<Rightarrow> string \<Rightarrow> string \<Rightarrow> move list \<Rightarrow> 'w \<Rightarrow> mutation" where
  \<comment> \<open>\<open>rnd\<close> is the text of \<open>Math.random().toString(36).slice(2)\<close>\<close>
  "tick_mutation E rnd b moves w = \<lparr>mut_id = ''tick:'' @ dec (e_now E w) @ '':'' @ rnd, mut_board = b,
     mut_clientTimestamp = of_int (e_now E w), mut_operation = MOVE_ELEMENTS moves False\<rparr>"

definition forget_user :: "string \<Rightarrow> tick_state \<Rightarrow> tick_state" where
  "forget_user b s = s\<lparr>tk_user := js_remove b (tk_user s)\<rparr>"

definition flushTickMoves :: "'w env \<Rightarrow> processor_config \<Rightarrow> string \<Rightarrow> (tick_state \<Rightarrow> tick_state) \<Rightarrow> string \<Rightarrow>
    tick_state \<Rightarrow> 'w \<Rightarrow> (unit result \<times> tick_state \<times> 'w) option" where
  \<comment> \<open>\<open>meanwhile\<close> is what the event loop does to the maps while the flush awaits the board and the
    processor; the server installs no \<open>onPersistedChange\<close> callback. That \<open>BOARD_MUTATED\<close> is emitted after
    the batch is left to the callers, who have the events\<close>
  "flushTickMoves E cfg rnd meanwhile b s w = (case take_moves b s of
     (None, s) \<Rightarrow> Some (Inr (), s, w)
   | (Some (userId, moves), s) \<Rightarrow> do {
       (loaded, w) \<leftarrow> loadBoard E b w;
       (case loaded of Inl err \<Rightarrow> Some (Inl err, meanwhile s, w)
        | Inr _ \<Rightarrow> do {
            (results, w) \<leftarrow> processBatch E cfg [tick_mutation E rnd b moves w] w;
            (case results of Inl err \<Rightarrow> Some (Inl err, meanwhile s, w)
             | Inr _ \<Rightarrow> Some (Inr (), forget_user b (meanwhile s), w))
          })
     })"

section \<open>What the event loop can run\<close>

datatype tick_event =
    Queue string string "move list"
  | DebounceDue string
  | MaxWaitDue string
  | FlushNow string
  | Clear string
  | Flushed string

fun enabled :: "int \<Rightarrow> tick_event \<Rightarrow> tick_state \<Rightarrow> bool" where
  "enabled now (DebounceDue b) s = (case js_get b (tk_debounce s) of None \<Rightarrow> False | Some due \<Rightarrow> due \<le> now)"
| "enabled now (MaxWaitDue b) s = (case js_get b (tk_maxWait s) of None \<Rightarrow> False | Some due \<Rightarrow> due \<le> now)"
| "enabled now _ s = True"

fun tick_step :: "int \<Rightarrow> tick_event \<Rightarrow> tick_state \<Rightarrow> tick_state" where
  \<comment> \<open>a timer callback first takes its timer out of the map; \<open>Flushed\<close> is the end of an awaited flush\<close>
  "tick_step now (Queue b u ms) s = queueMoves now b u ms s"
| "tick_step now (DebounceDue b) s = snd (take_moves b (s\<lparr>tk_debounce := js_remove b (tk_debounce s)\<rparr>))"
| "tick_step now (MaxWaitDue b) s = snd (take_moves b (s\<lparr>tk_maxWait := js_remove b (tk_maxWait s)\<rparr>))"
| "tick_step now (FlushNow b) s = snd (take_moves b s)"
| "tick_step now (Clear b) s = clearBoard b s"
| "tick_step now (Flushed b) s = forget_user b s"

definition quiet_until :: "int \<Rightarrow> tick_state \<Rightarrow> bool" where
  \<comment> \<open>no armed timer is due before \<open>t\<close>\<close>
  "quiet_until t s = ((\<forall>b due. js_get b (tk_debounce s) = Some due \<longrightarrow> t \<le> due) \<and>
     (\<forall>b due. js_get b (tk_maxWait s) = Some due \<longrightarrow> t \<le> due))"

inductive ticking :: "(int \<times> tick_event) list \<Rightarrow> int \<Rightarrow> tick_state \<Rightarrow> bool" where
  start: "ticking [] now no_ticks"
| elapse: "ticking h now s \<Longrightarrow> now \<le> t \<Longrightarrow> quiet_until t s \<Longrightarrow> ticking h t s"
| event: "ticking h now s \<Longrightarrow> enabled now ev s \<Longrightarrow> ticking (h @ [(now, ev)]) now (tick_step now ev s)"

section \<open>Pending moves\<close>

definition pending_of :: "string \<Rightarrow> tick_state \<Rightarrow> positions" where
  "pending_of b s = (case js_get b (tk_pending s) of None \<Rightarrow> [] | Some p \<Rightarrow> p)"

lemma set_positions_get:
  "js_get i (set_positions ms pending) = (case map_of (rev ms) i of Some pos \<Rightarrow> Some pos | None \<Rightarrow> js_get i pending)"
  by (induction ms pending rule: set_positions.induct) (auto split: option.split simp: map_add_def)

lemma distinct_set_positions:
  "distinct (map fst pending) \<Longrightarrow> distinct (map fst (set_positions ms pending))"
  by (induction ms pending rule: set_positions.induct) simp_all

lemma set_positions_nonempty: "ms \<noteq> [] \<Longrightarrow> set_positions ms pending \<noteq> []"
proof (induction ms pending rule: set_positions.induct)
  case (2 i x y moves pending)
  then show ?case by (cases moves) (auto simp: js_put_def split: if_splits)
qed simp

lemma take_moves_state:
  "snd (take_moves b s) = (if pending_of b s = [] then s
     else (clearTimers b s)\<lparr>tk_pending := js_remove b (tk_pending s)\<rparr>)"
  by (auto simp: take_moves_def pending_of_def split: option.split list.split)

lemma take_moves_result:
  "fst (take_moves b s) = (if pending_of b s = [] then None
     else Some (case js_get b (tk_user s) of None \<Rightarrow> SYSTEM_ACTOR_TICK | Some u \<Rightarrow> u, pending_of b s))"
  by (auto simp: take_moves_def pending_of_def split: option.split list.split)

lemma pending_queue:
  "pending_of c (queueMoves now b u ms s) =
     (if c = b \<and> ms \<noteq> [] then set_positions ms (pending_of b s) else pending_of c s)"
  by (auto simp: queueMoves_def pending_of_def scheduleTickPersist_def Let_def)

lemma pending_take: "pending_of c (snd (take_moves b s)) = (if c = b then [] else pending_of c s)"
  by (auto simp: take_moves_state clearTimers_def pending_of_def)

lemma maxWait_take: "js_get c (tk_maxWait (snd (take_moves b s))) =
    (if c = b \<and> pending_of b s \<noteq> [] then None else js_get c (tk_maxWait s))"
  by (simp add: take_moves_state clearTimers_def)

lemma maxWait_clear: "js_get c (tk_maxWait (clearBoard b s)) = (if c = b then None else js_get c (tk_maxWait s))"
  by (simp add: clearBoard_def clearTimers_def)

lemma pending_frame [simp]:
  "pending_of c (s\<lparr>tk_debounce := d\<rparr>) = pending_of c s" "pending_of c (s\<lparr>tk_maxWait := d\<rparr>) = pending_of c s"
  "pending_of c (forget_user b s) = pending_of c s" "pending_of c no_ticks = []"
  "pending_of c (clearBoard b s) = (if c = b then [] else pending_of c s)"
  by (auto simp: pending_of_def forget_user_def no_ticks_def clearBoard_def clearTimers_def)

fun latest_step :: "tick_event \<Rightarrow> (string \<Rightarrow> string \<rightharpoonup> rat \<times> rat) \<Rightarrow> string \<Rightarrow> string \<rightharpoonup> rat \<times> rat" where
  \<comment> \<open>the specification: the last position queued for each element since the last flush or clear\<close>
  "latest_step (Queue b u ms) m = m(b := m b ++ map_of (rev ms))"
| "latest_step (DebounceDue b) m = m(b := Map.empty)"
| "latest_step (MaxWaitDue b) m = m(b := Map.empty)"
| "latest_step (FlushNow b) m = m(b := Map.empty)"
| "latest_step (Clear b) m = m(b := Map.empty)"
| "latest_step (Flushed b) m = m"

definition latest :: "(int \<times> tick_event) list \<Rightarrow> string \<Rightarrow> string \<rightharpoonup> rat \<times> rat" where
  "latest h = fold (\<lambda>(t, ev). latest_step ev) h (\<lambda>b. Map.empty)"

lemma latest_snoc [simp]: "latest (h @ [(t, ev)]) = latest_step ev (latest h)"
  by (simp add: latest_def)

lemma pending_latest:
  assumes "ticking h now s"
  shows "(\<lambda>i. js_get i (pending_of b s)) = latest h b \<and> distinct (map fst (pending_of b s))"
  using assms
proof (induction arbitrary: b)
  case (start now)
  show ?case by (simp add: latest_def)
next
  case (elapse h now s t)
  then show ?case by blast
next
  case (event h now s ev)
  show ?case
  proof (cases ev)
    case (Queue c u ms)
    then show ?thesis using event.IH[of b] event.IH[of c]
      by (auto simp: pending_queue set_positions_get distinct_set_positions fun_eq_iff map_add_def split: option.split)
  qed (use event.IH[of b] in \<open>auto simp: pending_take\<close>)
qed

definition queued_since :: "(int \<times> tick_event) list \<Rightarrow> int \<Rightarrow> string \<Rightarrow> string \<Rightarrow> rat \<times> rat \<Rightarrow> bool" where
  \<comment> \<open>the position was queued at \<open>t0\<close> or later\<close>
  "queued_since h t0 b i pos = (\<exists>t u ms. (t, Queue b u ms) \<in> set h \<and> (i, pos) \<in> set ms \<and> t0 \<le> t)"

definition waiting_ok :: "(int \<times> tick_event) list \<Rightarrow> int \<Rightarrow> tick_state \<Rightarrow> bool" where
  "waiting_ok h now s = ((\<forall>b. pending_of b s \<noteq> [] \<longrightarrow> js_has b (tk_maxWait s)) \<and>
     (\<forall>b due. js_get b (tk_maxWait s) = Some due \<longrightarrow> now \<le> due \<and> due \<le> now + TICK_PERSIST_MAX_WAIT_MS \<and>
        (\<forall>i pos. js_get i (pending_of b s) = Some pos \<longrightarrow>
           queued_since h (due - TICK_PERSIST_MAX_WAIT_MS) b i pos)))"

lemma queued_since_more: "queued_since h t0 b i pos \<Longrightarrow> queued_since (h @ h') t0 b i pos"
  by (auto simp: queued_since_def)

lemma waiting_okI:
  assumes "\<And>b. pending_of b s \<noteq> [] \<Longrightarrow> js_has b (tk_maxWait s)"
    and "\<And>b due. js_get b (tk_maxWait s) = Some due \<Longrightarrow> now \<le> due \<and> due \<le> now + TICK_PERSIST_MAX_WAIT_MS"
    and "\<And>b due i pos. js_get b (tk_maxWait s) = Some due \<Longrightarrow> js_get i (pending_of b s) = Some pos \<Longrightarrow>
      queued_since h (due - TICK_PERSIST_MAX_WAIT_MS) b i pos"
  shows "waiting_ok h now s"
  using assms by (simp add: waiting_ok_def)

lemma waiting_okD:
  assumes "waiting_ok h now s"
  shows "pending_of b s \<noteq> [] \<Longrightarrow> js_has b (tk_maxWait s)"
    and "js_get b (tk_maxWait s) = Some due \<Longrightarrow> now \<le> due \<and> due \<le> now + TICK_PERSIST_MAX_WAIT_MS"
    and "js_get b (tk_maxWait s) = Some due \<Longrightarrow> js_get i (pending_of b s) = Some pos \<Longrightarrow>
      queued_since h (due - TICK_PERSIST_MAX_WAIT_MS) b i pos"
  using assms by (simp_all add: waiting_ok_def) (cases pos, blast)

lemma waiting_ok_shrink:
  \<comment> \<open>fewer pending moves, fewer timers, and a timer for each board that has moves\<close>
  assumes "waiting_ok h now s"
    and "\<And>b. pending_of b s' = pending_of b s \<and> js_get b (tk_maxWait s') = js_get b (tk_maxWait s) \<or>
      pending_of b s' = [] \<and> (js_get b (tk_maxWait s') = None \<or> js_get b (tk_maxWait s') = js_get b (tk_maxWait s))"
  shows "waiting_ok (h @ h') now s'"
proof (rule waiting_okI)
  fix b
  show "js_has b (tk_maxWait s')" if "pending_of b s' \<noteq> []"
    using assms(1) assms(2)[of b] that by (auto simp: waiting_ok_def js_has_def)
next
  fix b due
  assume "js_get b (tk_maxWait s') = Some due"
  then show "now \<le> due \<and> due \<le> now + TICK_PERSIST_MAX_WAIT_MS"
    using assms(1) assms(2)[of b] by (auto simp: waiting_ok_def)
next
  fix b due i pos
  assume a: "js_get b (tk_maxWait s') = Some due" "js_get i (pending_of b s') = Some pos"
  then have "pending_of b s' = pending_of b s \<and> js_get b (tk_maxWait s') = js_get b (tk_maxWait s)"
    using assms(2)[of b] by auto
  then show "queued_since (h @ h') (due - TICK_PERSIST_MAX_WAIT_MS) b i pos"
    using a by (metis queued_since_more waiting_okD(3)[OF assms(1)])
qed

lemma waiting_ok_take: "waiting_ok h now s \<Longrightarrow> waiting_ok (h @ h') now (snd (take_moves b s))"
  by (erule waiting_ok_shrink) (simp add: pending_take maxWait_take)

lemma ticking_waiting_ok: "ticking h now s \<Longrightarrow> waiting_ok h now s"
proof (induction rule: ticking.induct)
  case (start now)
  show ?case by (rule waiting_okI) (simp_all add: no_ticks_def pending_of_def)
next
  case (elapse h now s t)
  then show ?case by (fastforce simp: waiting_ok_def quiet_until_def)
next
  case (event h now s ev)
  show ?case
  proof (cases ev)
    case (Queue b u ms)
    show ?thesis
    proof (cases "ms = []")
      case True
      then show ?thesis using event.IH Queue by (auto simp: queueMoves_def intro: waiting_ok_shrink)
    next
      case False
      let ?s = "queueMoves now b u ms s" and ?h = "h @ [(now, ev)]"
      have timers: "tk_maxWait ?s = (if js_has b (tk_maxWait s) then tk_maxWait s
          else js_put b (now + TICK_PERSIST_MAX_WAIT_MS) (tk_maxWait s))"
        using False by (simp add: queueMoves_def scheduleTickPersist_def Let_def)
      have new: "queued_since ?h t0 b i pos" if "(i, pos) \<in> set ms" "t0 \<le> now" for t0 i pos
        using that Queue by (auto simp: queued_since_def)
      have "waiting_ok ?h now ?s"
      proof (rule waiting_okI)
        fix c
        show "js_has c (tk_maxWait ?s)" if "pending_of c ?s \<noteq> []"
          using that event.IH by (auto simp: timers pending_queue waiting_ok_def split: if_splits)
      next
        fix c due
        assume "js_get c (tk_maxWait ?s) = Some due"
        then show "now \<le> due \<and> due \<le> now + TICK_PERSIST_MAX_WAIT_MS"
          using event.IH by (auto simp: timers waiting_ok_def TICK_PERSIST_MAX_WAIT_MS_def split: if_splits)
      next
        fix c due i pos
        assume a: "js_get c (tk_maxWait ?s) = Some due" "js_get i (pending_of c ?s) = Some pos"
        show "queued_since ?h (due - TICK_PERSIST_MAX_WAIT_MS) c i pos"
        proof (cases "c = b \<and> map_of (rev ms) i = Some pos")
          case True
          have "due - TICK_PERSIST_MAX_WAIT_MS \<le> now"
            using a(1) event.IH by (fastforce simp: timers waiting_ok_def split: if_splits)
          moreover have "(i, pos) \<in> set ms" using True by (metis map_of_SomeD set_rev)
          ultimately show ?thesis using new True by simp
        next
          case other: False
          then have old: "js_get i (pending_of c s) = Some pos"
            using a(2) by (auto simp: pending_queue set_positions_get split: if_splits option.splits)
          then have "js_has c (tk_maxWait s)"
            using event.IH by (cases "pending_of c s = []") (simp_all add: waiting_ok_def)
          then have "js_get c (tk_maxWait s) = Some due"
            using a(1) by (auto simp: timers js_has_def split: if_splits)
          then show ?thesis using old by (intro queued_since_more waiting_okD(3)[OF event.IH])
        qed
      qed
      then show ?thesis using Queue by simp
    qed
  next
    case (DebounceDue b)
    have "waiting_ok h now (s\<lparr>tk_debounce := js_remove b (tk_debounce s)\<rparr>)"
      using waiting_ok_shrink[OF event.IH, of _ "[]"] by simp
    then show ?thesis using DebounceDue waiting_ok_take by simp
  next
    case (MaxWaitDue b)
    show ?thesis using MaxWaitDue event.IH
      by (auto simp: pending_take maxWait_take split: if_splits intro!: waiting_ok_shrink[of h now s])
  next
    case (FlushNow b)
    then show ?thesis using event.IH waiting_ok_take by simp
  next
    case (Clear b)
    then show ?thesis using event.IH
      by (auto simp: maxWait_clear split: if_splits intro!: waiting_ok_shrink[of h now s])
  next
    case (Flushed b)
    have "tk_maxWait (forget_user b s) = tk_maxWait s" by (simp add: forget_user_def)
    then show ?thesis using Flushed event.IH by (auto intro!: waiting_ok_shrink[of h now s])
  qed
qed

section \<open>What a flush loses\<close>

lemma flush_fails:
  assumes "take_moves b s = (Some (u, ms), s1)" "loadBoard E b w = Some (Inl err, w')"
  shows "flushTickMoves E cfg rnd id b s w = Some (Inl err, s1, w')"
  using assms by (simp add: flushTickMoves_def)

lemma flush_done:
  assumes "take_moves b s = (Some (u, ms), s1)" "loadBoard E b w = Some (Inr n, w1)"
    and "processBatch E cfg [tick_mutation E rnd b ms w1] w1 = Some (Inr rs, w2)"
  shows "flushTickMoves E cfg rnd meanwhile b s w = Some (Inr (), forget_user b (meanwhile s1), w2)"
  using assms by (simp add: flushTickMoves_def)

lemma user_forgotten: "js_get b (tk_user (forget_user b s)) = None"
  by (simp add: forget_user_def)

lemma take_after_queue:
  assumes "ms \<noteq> []"
  shows "fst (take_moves b (forget_user b (queueMoves now b u ms s))) =
    Some (SYSTEM_ACTOR_TICK, set_positions ms (pending_of b s))"
  using assms set_positions_nonempty[OF assms] by (simp add: take_moves_result pending_queue user_forgotten)

section \<open>What tick persistence guarantees\<close>

text \<open>C14: No move waits longer than the maximal wait. Whatever the event loop runs in whatever order (more moves,
  timers when they are due, flushes and clears from elsewhere), a position that is still pending was queued within
  the last 1500 milliseconds, however often new moves push the debounce timer back.\<close>

theorem pending_move_is_recent:
  assumes "ticking h now s" "js_get i (pending_of b s) = Some pos"
  shows "queued_since h (now - TICK_PERSIST_MAX_WAIT_MS) b i pos"
proof -
  have ok: "waiting_ok h now s" using assms(1) by (rule ticking_waiting_ok)
  have "pending_of b s \<noteq> []" using assms(2) by auto
  then obtain due where due: "js_get b (tk_maxWait s) = Some due"
    using ok by (auto simp: waiting_ok_def js_has_def)
  then have "now \<le> due" "queued_since h (due - TICK_PERSIST_MAX_WAIT_MS) b i pos"
    using waiting_okD(2)[OF ok due] waiting_okD(3)[OF ok due assms(2)] by auto
  then show ?thesis by (force simp: queued_since_def)
qed

definition drag_events :: "(int \<times> tick_event) list" where
  "drag_events = [(0, Queue ''b1'' ''u1'' [(''a'', 1, 1), (''b'', 2, 2)]), (300, Queue ''b1'' ''u1'' [(''a'', 5, 6)])]"

definition dragged :: tick_state where
  "dragged = \<lparr>tk_pending = [(''b1'', [(''a'', 5, 6), (''b'', 2, 2)])], tk_debounce = [(''b1'', 700)],
     tk_maxWait = [(''b1'', 1500)], tk_user = [(''b1'', ''u1'')]\<rparr>"

lemma dragged_reached: "ticking drag_events 300 dragged"
proof -
  let ?s1 = "tick_step 0 (Queue ''b1'' ''u1'' [(''a'', 1, 1), (''b'', 2, 2)]) no_ticks"
  have "ticking [(0, Queue ''b1'' ''u1'' [(''a'', 1, 1), (''b'', 2, 2)])] 0 ?s1"
    using ticking.event[OF ticking.start[of 0], of "Queue ''b1'' ''u1'' [(''a'', 1, 1), (''b'', 2, 2)]"] by simp
  moreover have "quiet_until 300 ?s1"
    by (simp add: quiet_until_def queueMoves_def scheduleTickPersist_def no_ticks_def js_has_def
        TICK_PERSIST_DEBOUNCE_MS_def TICK_PERSIST_MAX_WAIT_MS_def)
  ultimately have "ticking [(0, Queue ''b1'' ''u1'' [(''a'', 1, 1), (''b'', 2, 2)])] 300 ?s1"
    using ticking.elapse by fastforce
  from ticking.event[OF this, of "Queue ''b1'' ''u1'' [(''a'', 5, 6)]"] show ?thesis
    by (simp add: drag_events_def dragged_def queueMoves_def scheduleTickPersist_def no_ticks_def js_has_def
        TICK_PERSIST_DEBOUNCE_MS_def TICK_PERSIST_MAX_WAIT_MS_def)
qed

theorem pending_move_is_recent_witness:
  "js_get ''a'' (pending_of ''b1'' dragged) = Some (5, 6) \<and> queued_since drag_events (- 1200) ''b1'' ''a'' (5, 6)"
  using pending_move_is_recent[OF dragged_reached, of "''a''" "''b1''" "(5, 6)"]
  by (simp add: dragged_def pending_of_def TICK_PERSIST_MAX_WAIT_MS_def)

text \<open>A flush hands over exactly the last position of every element moved since the last flush, each element
  once, under the user who moved last or the system actor, and leaves nothing of it pending.\<close>

theorem flush_takes_latest:
  assumes "ticking h now s"
  shows "(case take_moves b s of
      (None, s') \<Rightarrow> latest h b = Map.empty \<and> s' = s
    | (Some (u, ms), s') \<Rightarrow> map_of ms = latest h b \<and> distinct (map fst ms) \<and> ms \<noteq> [] \<and>
        pending_of b s' = [] \<and> (\<forall>c. c \<noteq> b \<longrightarrow> pending_of c s' = pending_of c s))"
proof -
  have l: "map_of (pending_of b s) = latest h b" "distinct (map fst (pending_of b s))"
    using pending_latest[OF assms, of b] by (auto simp: js_get_def)
  show ?thesis
  proof (cases "pending_of b s = []")
    case True
    then have "take_moves b s = (None, s)"
      using take_moves_result[of b s] take_moves_state[of b s] by (simp add: prod_eq_iff)
    with l True show ?thesis by simp
  next
    case False
    obtain u s' where t: "take_moves b s = (Some (u, pending_of b s), s')"
      using take_moves_result[of b s] False by (cases "take_moves b s") simp
    have "pending_of c s' = (if c = b then [] else pending_of c s)" for c
      using pending_take[of c b s] t by simp
    with t l False show ?thesis by simp
  qed
qed

theorem flush_takes_latest_witness:
  "fst (take_moves ''b1'' dragged) = Some (''u1'', [(''a'', 5, 6), (''b'', 2, 2)]) \<and>
   map_of [(''a'', (5, 6)), (''b'', (2, 2))] = latest drag_events ''b1''"
  using flush_takes_latest[OF dragged_reached, of "''b1''"] by (simp add: dragged_def take_moves_def)

text \<open>A flush that overlaps new moves of its board forgets who made them: when the flush ends it deletes the
  user of the board, so the next flush hands those moves to the processor in the name of the system actor.\<close>

theorem overlapping_flush_forgets_user:
  assumes "take_moves b s = (Some (u, ms), s1)" "loadBoard E b w = Some (Inr n, w1)"
    and "processBatch E cfg [tick_mutation E rnd b ms w1] w1 = Some (Inr rs, w2)" "ms' \<noteq> []"
  shows "\<exists>s2. flushTickMoves E cfg rnd (queueMoves now b u' ms') b s w = Some (Inr (), s2, w2) \<and>
    fst (take_moves b s2) = Some (SYSTEM_ACTOR_TICK, set_positions ms' [])"
proof -
  have "pending_of b s1 = []" using pending_take[of b b s] assms(1) by simp
  then show ?thesis using flush_done[OF assms(1-3)] take_after_queue[OF assms(4), of b now u' s1] by simp
qed

text \<open>A flush whose load or batch fails drops its moves: it has taken them out of the map before the first
  \<open>await\<close> and never puts them back, so afterwards nothing of the board is pending and no timer is armed.\<close>

theorem failed_flush_drops_moves:
  assumes "take_moves b s = (Some (u, ms), s1)"
    and "loadBoard E b w = Some (Inl err, w') \<or> (\<exists>n w1. loadBoard E b w = Some (Inr n, w1) \<and>
      processBatch E cfg [tick_mutation E rnd b ms w1] w1 = Some (Inl err, w'))"
  shows "flushTickMoves E cfg rnd id b s w = Some (Inl err, s1, w') \<and> pending_of b s1 = [] \<and>
    js_get b (tk_debounce s1) = None \<and> js_get b (tk_maxWait s1) = None"
proof -
  have s1: "s1 = snd (take_moves b s)" "pending_of b s \<noteq> []"
    using assms(1) take_moves_result[of b s] by (auto split: if_splits)
  have "flushTickMoves E cfg rnd id b s w = Some (Inl err, s1, w')"
    using assms by (auto simp: flushTickMoves_def)
  then show ?thesis using s1 by (simp add: pending_take) (simp add: take_moves_state clearTimers_def)
qed

definition broken_db :: "mem env" where
  "broken_db = mem_env\<lparr>e_select_elements := (\<lambda>b m. Inl board_busy)\<rparr>"

lemma broken_db_sel [simp]:
  "e_exists broken_db = e_exists mem_env" "e_set_nx_px broken_db = e_set_nx_px mem_env"
  "e_uuid broken_db = e_uuid mem_env" "e_random_hex broken_db = e_random_hex mem_env"
  "e_write broken_db = e_write mem_env" "e_get broken_db = e_get mem_env"
  "e_now broken_db = e_now mem_env" "e_select_elements broken_db b m = Inl board_busy"
  by (simp_all add: broken_db_def)

lemma broken_load: "\<exists>w'. loadBoard broken_db ''b1'' mem0 = Some (Inl board_busy, w')"
  by (simp add: loadBoard.simps acquireBoardLoadLock_def load_rows_def Let_def mem_str_eval key_defs)

theorem failed_flush_drops_moves_witness:
  "\<exists>s1 w'. flushTickMoves broken_db cfg ''r'' id ''b1'' dragged mem0 = Some (Inl board_busy, s1, w') \<and>
    pending_of ''b1'' dragged \<noteq> [] \<and> pending_of ''b1'' s1 = []"
proof -
  obtain w' where w': "loadBoard broken_db ''b1'' mem0 = Some (Inl board_busy, w')" using broken_load by blast
  obtain s1 where s1: "take_moves ''b1'' dragged = (Some (''u1'', [(''a'', 5, 6), (''b'', 2, 2)]), s1)"
    by (simp add: dragged_def take_moves_def)
  have "pending_of ''b1'' dragged \<noteq> []" by (simp add: dragged_def pending_of_def)
  then show ?thesis using failed_flush_drops_moves[OF s1, of broken_db mem0 board_busy w' cfg "''r''"] w' by blast
qed

end
