(* ===== verification/Board_Tables.thy ===== *)
theory Board_Tables
  imports External_Services JS_Strings
begin

text \<open>
  The relational tables behind the board and workspace services (\<open>platform/db/schema/*.ts\<close>):
  one record per table, the rows as lists in the order the database returns them, the unique
  indexes, check constraints and foreign keys of the schema as the outcome of a statement, and the
  string helpers of the two services. \<open>sql_env\<close> holds what the services take from outside: the
  clock, \<open>randomUUID\<close>, \<open>randomBytes\<close> and the error object the client library raises for an SQLSTATE.
\<close>

section \<open>Tables\<close>

record board_row =
  b_id :: string
  b_workspace :: string
  b_name :: string
  b_commit :: "string option"
  b_branch :: "string option"
  b_previewSvg :: "string option"
  b_previewVersion :: "string option"
  b_previewUpdatedAt :: "int option"
  b_viewEnabled :: bool
  b_viewToken :: "string option"
  b_editEnabled :: bool
  b_editToken :: "string option"
  b_createdAt :: "int option"
  b_updatedAt :: "int option"

record board_member_row =
  bm_id :: string
  bm_board :: string
  bm_user :: string
  bm_permission :: string
  bm_addedBy :: "string option"
  bm_createdAt :: "int option"
  bm_updatedAt :: "int option"

record favorite_row =
  fv_board :: string
  fv_user :: string
  fv_createdAt :: "int option"

record board_invitation_row =
  bi_id :: string
  bi_board :: string
  bi_invitedBy :: string
  bi_emailLower :: string
  bi_permission :: string
  bi_status :: string
  bi_token :: string
  bi_expiresAt :: int
  bi_respondedAt :: "int option"
  bi_createdAt :: "int option"
  bi_updatedAt :: "int option"

record workspace_row =
  ws_id :: string
  ws_name :: string
  ws_owner :: string
  ws_createdAt :: "int option"
  ws_updatedAt :: "int option"

record workspace_member_row =
  wm_id :: string
  wm_workspace :: string
  wm_user :: string
  wm_role :: string
  wm_addedBy :: "string option"
  wm_createdAt :: "int option"
  wm_updatedAt :: "int option"

record workspace_invitation_row =
  wi_id :: string
  wi_workspace :: string
  wi_invitedBy :: string
  wi_email :: string
  wi_emailLower :: string
  wi_role :: string
  wi_status :: string
  wi_token :: string
  wi_expiresAt :: int
  wi_respondedAt :: "int option"
  wi_createdAt :: "int option"
  wi_updatedAt :: "int option"

record user_row =
  us_id :: string
  us_email :: string
  us_name :: string
  us_avatarUrl :: "string option"

record tables =
  t_boards :: "board_row list"
  t_members :: "board_member_row list"
  t_favorites :: "favorite_row list option"
    \<comment> \<open>\<open>None\<close>: the relation does not exist, which the code allows for\<close>
  t_invitations :: "board_invitation_row list"
  t_workspaces :: "workspace_row list"
  t_ws_members :: "workspace_member_row list"
  t_ws_invitations :: "workspace_invitation_row list"
  t_users :: "user_row list"
  t_elements :: "element_row list"

section \<open>Statements\<close>

type_synonym sqlstate = string

definition UNDEFINED_TABLE :: sqlstate where "UNDEFINED_TABLE = ''42P01''"
definition UNIQUE_VIOLATION :: sqlstate where "UNIQUE_VIOLATION = ''23505''"
definition FOREIGN_KEY_VIOLATION :: sqlstate where "FOREIGN_KEY_VIOLATION = ''23503''"
definition CHECK_VIOLATION :: sqlstate where "CHECK_VIOLATION = ''23514''"

definition select_one :: "('r \<Rightarrow> bool) \<Rightarrow> 'r list \<Rightarrow> 'r option" where
  \<comment> \<open>\<open>select ... where P limit 1\<close> and \<open>rows[0]\<close>\<close>
  "select_one P rows = List.find P rows"

definition update_rows :: "('r \<Rightarrow> bool) \<Rightarrow> ('r \<Rightarrow> 'r) \<Rightarrow> 'r list \<Rightarrow> 'r list" where
  \<comment> \<open>\<open>update ... set f where P\<close>\<close>
  "update_rows P f rows = map (\<lambda>r. if P r then f r else r) rows"

definition delete_rows :: "('r \<Rightarrow> bool) \<Rightarrow> 'r list \<Rightarrow> 'r list" where
  "delete_rows P rows = filter (\<lambda>r. \<not> P r) rows"

definition has_board :: "tables \<Rightarrow> string \<Rightarrow> bool" where
  "has_board T i = (\<exists>r \<in> set (t_boards T). b_id r = i)"

definition has_user :: "tables \<Rightarrow> string \<Rightarrow> bool" where
  "has_user T i = (\<exists>r \<in> set (t_users T). us_id r = i)"

definition has_workspace :: "tables \<Rightarrow> string \<Rightarrow> bool" where
  "has_workspace T i = (\<exists>r \<in> set (t_workspaces T). ws_id r = i)"

lemma find_mem: "List.find P xs = Some x \<Longrightarrow> x \<in> set xs \<and> P x"
  by (induction xs) (auto split: if_splits)

lemma select_one_Some: "select_one P rows = Some r \<Longrightarrow> r \<in> set rows \<and> P r"
  by (simp add: select_one_def find_mem)

lemma select_one_None: "select_one P rows = None \<longleftrightarrow> (\<forall>r \<in> set rows. \<not> P r)"
  by (auto simp: select_one_def find_None_iff)

lemma select_one_ex: "(\<exists>r. select_one P rows = Some r) \<longleftrightarrow> (\<exists>r \<in> set rows. P r)"
  using select_one_None[of P rows] by (cases "select_one P rows") auto

lemma select_one_unique:
  assumes "r \<in> set rows" "P r" "\<And>s. s \<in> set rows \<Longrightarrow> P s \<Longrightarrow> s = r"
  shows "select_one P rows = Some r"
  using assms select_one_ex[of P rows] select_one_Some[of P rows] by metis

lemma select_one_key:
  assumes "distinct (map key rows)" "r \<in> set rows" "P r" "\<And>s. P s \<Longrightarrow> key s = key r"
  shows "select_one P rows = Some r"
proof (rule select_one_unique)
  show "s = r" if "s \<in> set rows" "P s" for s
    using assms(1,2,4) that by (metis distinct_map inj_onD)
qed (use assms in auto)

lemma set_delete_rows [simp]: "set (delete_rows P rows) = {r \<in> set rows. \<not> P r}"
  by (simp add: delete_rows_def)

lemma set_update_rows [simp]: "set (update_rows P f rows) = (\<lambda>r. if P r then f r else r) ` set rows"
  by (simp add: update_rows_def)

lemma update_rows_keys:
  "(\<And>r. P r \<Longrightarrow> key (f r) = key r) \<Longrightarrow> map key (update_rows P f rows) = map key rows"
  by (simp add: update_rows_def)

lemma delete_rows_keys: "distinct (map key rows) \<Longrightarrow> distinct (map key (delete_rows P rows))"
  by (simp add: delete_rows_def distinct_map_filter)

section \<open>What comes from outside\<close>

record sql_env =
  s_now :: int
  s_uuid :: "nat \<Rightarrow> string"
  s_token :: "nat \<Rightarrow> string"
    \<comment> \<open>\<open>randomBytes(n).toString('hex')\<close> of \<open>n\<close> bytes\<close>
  s_shift :: int
    \<comment> \<open>what the zone's clock changes within the next seven days, 0 in UTC\<close>
  s_raise :: "sqlstate \<Rightarrow> js_error"

datatype domain_error =
    Thrown string
  | WorkspaceInvitationError string string
  | Raised js_error

type_synonym 'a outcome = "domain_error + 'a"

fun error_code :: "js_error \<Rightarrow> string option" where
  \<comment> \<open>\<open>'code' in error ? error.code : undefined\<close>; the \<open>cause\<close> is not looked at\<close>
  "error_code (AppError status message) = None"
| "error_code (DbError code cons msg detail cause) = code"

definition isMissingRelationError :: "js_error \<Rightarrow> bool" where
  "isMissingRelationError e = (error_code e = Some UNDEFINED_TABLE)"

definition isUniqueViolation :: "js_error \<Rightarrow> bool" where
  "isUniqueViolation e = (error_code e = Some UNIQUE_VIOLATION)"

definition INVITATION_TOKEN_BYTES :: nat where "INVITATION_TOKEN_BYTES = 32"
definition LINK_SHARE_TOKEN_BYTES :: nat where "LINK_SHARE_TOKEN_BYTES = 24"
definition INVITATION_EXPIRES_DAYS :: int where "INVITATION_EXPIRES_DAYS = 7"

definition buildInvitationExpiry :: "sql_env \<Rightarrow> int" where
  "buildInvitationExpiry S = s_now S + INVITATION_EXPIRES_DAYS * 86400000 - s_shift S"

definition generateInvitationToken :: "sql_env \<Rightarrow> string" where
  "generateInvitationToken S = s_token S INVITATION_TOKEN_BYTES"

definition generateLinkShareToken :: "sql_env \<Rightarrow> string" where
  "generateLinkShareToken S = s_token S LINK_SHARE_TOKEN_BYTES"

definition is_lower_hex :: "char \<Rightarrow> bool" where
  "is_lower_hex c = (is_digit c \<or> (97 \<le> (of_char c :: nat) \<and> (of_char c :: nat) \<le> 102))"

fun isValidLinkShareToken :: "json option \<Rightarrow> bool" where
  \<comment> \<open>\<open>/^[0-9a-f]{48}$/\<close>\<close>
  "isValidLinkShareToken (Some (JStr s)) = (length s = 48 \<and> list_all is_lower_hex s)"
| "isValidLinkShareToken _ = False"

section \<open>E-mail addresses\<close>

definition normalizeEmail :: "string \<Rightarrow> string" where
  "normalizeEmail email = js_lower (js_trim email)"

lemma normalizeEmail_idem: "normalizeEmail (normalizeEmail e) = normalizeEmail e"
proof -
  have "js_trim (js_lower (js_trim e)) = js_lower (js_trim e)"
    using hd_trim[of e] last_trim[of e]
    by (intro trim_fixed) (auto simp: js_lower_def hd_map last_map)
  then show ?thesis by (simp add: normalizeEmail_def js_lower_def comp_def)
qed

end
