(* ===== verification/Board_Access.thy ===== *)
theory Board_Access
  imports Board_Tables
begin

text \<open>
  Who may open a board: the catalogue (\<open>boards/domain/catalog.ts\<close>), the access check
  (\<open>boards/domain/access.ts\<close>), link sharing and favourites (\<open>boards/domain/sharing.ts\<close>), the role
  predicates of the routes (\<open>boards/routes/shared.ts\<close>). The lemmas compare the access check with a
  declarative statement of who may do what, the list of accessible boards with the access check,
  and show what enabling, disabling and rotating a share link changes.
\<close>

definition BOARD_PERMISSION_VIEW :: string where "BOARD_PERMISSION_VIEW = ''view''"
definition BOARD_PERMISSION_EDIT :: string where "BOARD_PERMISSION_EDIT = ''edit''"

lemmas permission_names = BOARD_PERMISSION_VIEW_def BOARD_PERMISSION_EDIT_def

definition workspaceRoleToBoardPermission :: "string \<Rightarrow> string" where
  "workspaceRoleToBoardPermission role =
     (if role = ''viewer'' then BOARD_PERMISSION_VIEW else BOARD_PERMISSION_EDIT)"

definition canCreateBoards :: "string option \<Rightarrow> bool" where
  "canCreateBoards role = (role = Some ''owner'' \<or> role = Some ''admin'' \<or> role = Some ''editor'')"

definition canManageBoardAccess :: "string option \<Rightarrow> bool" where
  "canManageBoardAccess role = (role = Some ''owner'' \<or> role = Some ''admin'')"

definition canDeleteBoards :: "string option \<Rightarrow> bool" where
  "canDeleteBoards role = (role = Some ''owner'' \<or> role = Some ''admin'')"

section \<open>The catalogue\<close>

record catalog_board =
  cb_board :: board_row
  cb_isFavorite :: bool
  cb_favoriteCreatedAt :: "int option"

record accessible_board = catalog_board +
  ab_permission :: string
  ab_accessSource :: string

definition favorite_rows :: "sql_env \<Rightarrow> tables \<Rightarrow> favorite_row list outcome" where
  \<comment> \<open>a statement on \<open>board_favorites\<close>, which raises when the relation is missing\<close>
  "favorite_rows S T = (case t_favorites T of
     None \<Rightarrow> Inl (Raised (s_raise S UNDEFINED_TABLE)) | Some rows \<Rightarrow> Inr rows)"

definition getFavoriteBoardMap :: "sql_env \<Rightarrow> tables \<Rightarrow> string \<Rightarrow> (string \<times> int option) list outcome" where
  "getFavoriteBoardMap S T userId = (case favorite_rows S T of
     Inr rows \<Rightarrow> Inr (fold (\<lambda>r m. js_put (fv_board r) (fv_createdAt r) m)
       (filter (\<lambda>r. fv_user r = userId) rows) [])
   | Inl (Raised e) \<Rightarrow> if isMissingRelationError e then Inr [] else Inl (Raised e)
   | Inl e \<Rightarrow> Inl e)"

definition getBoardFavoriteCreatedAt :: "sql_env \<Rightarrow> tables \<Rightarrow> string \<Rightarrow> string \<Rightarrow> int option outcome" where
  "getBoardFavoriteCreatedAt S T boardId userId = (case favorite_rows S T of
     Inl e \<Rightarrow> Inl e
   | Inr rows \<Rightarrow> Inr (Option.bind (select_one (\<lambda>r. fv_board r = boardId \<and> fv_user r = userId) rows) fv_createdAt))"

definition truthy :: "string option \<Rightarrow> bool" where
  "truthy s = (s \<noteq> None \<and> s \<noteq> Some [])"

definition getBoard :: "sql_env \<Rightarrow> tables \<Rightarrow> string \<Rightarrow> string option \<Rightarrow> catalog_board option outcome" where
  "getBoard S T boardId userId = (case select_one (\<lambda>r. b_id r = boardId) (t_boards T) of
     None \<Rightarrow> Inr None
   | Some board \<Rightarrow>
       (case (if truthy userId then getBoardFavoriteCreatedAt S T boardId (the userId) else Inr None) of
          Inl e \<Rightarrow> Inl e
        | Inr created \<Rightarrow> Inr (Some \<lparr>cb_board = board, cb_isFavorite = (created \<noteq> None),
            cb_favoriteCreatedAt = created\<rparr>)))"

definition with_favorite :: "(string \<times> int option) list \<Rightarrow> board_row \<Rightarrow> catalog_board" where
  "with_favorite favorites board = \<lparr>cb_board = board, cb_isFavorite = js_has (b_id board) favorites,
     cb_favoriteCreatedAt = Option.bind (js_get (b_id board) favorites) id\<rparr>"

definition getBoardsForWorkspace :: "sql_env \<Rightarrow> tables \<Rightarrow> string \<Rightarrow> string \<Rightarrow> catalog_board list outcome" where
  "getBoardsForWorkspace S T workspaceId userId = (case getFavoriteBoardMap S T userId of
     Inl e \<Rightarrow> Inl e
   | Inr favorites \<Rightarrow> Inr (map (with_favorite favorites)
       (filter (\<lambda>b. b_workspace b = workspaceId) (t_boards T))))"

definition list_entry :: "(string \<times> int option) list \<Rightarrow> board_row \<Rightarrow> string \<Rightarrow> string \<Rightarrow> accessible_board" where
  "list_entry favorites board permission source = catalog_board.extend (with_favorite favorites board)
     \<lparr>ab_permission = permission, ab_accessSource = source\<rparr>"

definition workspace_boards :: "tables \<Rightarrow> string \<Rightarrow> (board_row \<times> string) list" where
  \<comment> \<open>\<open>boards inner join workspace_members\<close> of the user, with the role\<close>
  "workspace_boards T userId = concat (map (\<lambda>b. map (\<lambda>m. (b, wm_role m))
     (filter (\<lambda>m. wm_workspace m = b_workspace b \<and> wm_user m = userId) (t_ws_members T))) (t_boards T))"

definition direct_boards :: "tables \<Rightarrow> string \<Rightarrow> (board_row \<times> string) list" where
  "direct_boards T userId = concat (map (\<lambda>b. map (\<lambda>m. (b, bm_permission m))
     (filter (\<lambda>m. bm_board m = b_id b \<and> bm_user m = userId) (t_members T))) (t_boards T))"

definition listAccessibleBoards :: "sql_env \<Rightarrow> tables \<Rightarrow> string \<Rightarrow> accessible_board list outcome" where
  "listAccessibleBoards S T userId = (case getFavoriteBoardMap S T userId of
     Inl e \<Rightarrow> Inl e
   | Inr favorites \<Rightarrow>
       (let deduped = fold (\<lambda>(b, role) m. js_put (b_id b)
              (list_entry favorites b (workspaceRoleToBoardPermission role) ''workspace'') m)
              (workspace_boards T userId) [];
            deduped = fold (\<lambda>(b, permission) m. if js_has (b_id b) m then m else js_put (b_id b)
              (list_entry favorites b (if permission = BOARD_PERMISSION_EDIT
                 then BOARD_PERMISSION_EDIT else BOARD_PERMISSION_VIEW) ''board_member'') m)
              (direct_boards T userId) deduped
        in Inr (map snd deduped)))"

definition getBoardElements :: "tables \<Rightarrow> string \<Rightarrow> (string \<times> element_row) list" where
  "getBoardElements T boardId = fold (\<lambda>r m. js_put (row_id r) r m)
     (filter (\<lambda>r. row_board r = boardId) (t_elements T)) []"

section \<open>Access\<close>

record access =
  ac_hasAccess :: bool
  ac_permission :: "string option"

definition no_access :: access where
  "no_access = \<lparr>ac_hasAccess = False, ac_permission = None\<rparr>"

definition granted :: "string \<Rightarrow> access" where
  "granted p = \<lparr>ac_hasAccess = True, ac_permission = Some p\<rparr>"

definition getBoardMemberPermission :: "tables \<Rightarrow> string \<Rightarrow> string \<Rightarrow> string option" where
  "getBoardMemberPermission T boardId userId = map_option bm_permission
     (select_one (\<lambda>m. bm_board m = boardId \<and> bm_user m = userId) (t_members T))"

definition getWorkspaceBoardMembershipPermission :: "tables \<Rightarrow> string \<Rightarrow> string \<Rightarrow> string option" where
  "getWorkspaceBoardMembershipPermission T workspaceId userId =
     map_option (\<lambda>m. workspaceRoleToBoardPermission (wm_role m))
       (select_one (\<lambda>m. wm_workspace m = workspaceId \<and> wm_user m = userId) (t_ws_members T))"

definition checkBoardAccess ::
    "sql_env \<Rightarrow> tables \<Rightarrow> string \<Rightarrow> string option \<Rightarrow> string option \<Rightarrow> access outcome" where
  "checkBoardAccess S T boardId userId shareToken = (case getBoard S T boardId None of
     Inl e \<Rightarrow> Inl e
   | Inr None \<Rightarrow> Inr no_access
   | Inr (Some found) \<Rightarrow>
       (let board = cb_board found in
        if truthy shareToken \<and> b_viewEnabled board \<and> b_viewToken board = shareToken
        then Inr (granted BOARD_PERMISSION_VIEW)
        else if truthy shareToken \<and> b_editEnabled board \<and> b_editToken board = shareToken
        then Inr (granted BOARD_PERMISSION_EDIT)
        else if \<not> truthy userId then Inr no_access
        else (case getBoardMemberPermission T boardId (the userId) of
            Some direct \<Rightarrow> if direct \<noteq> [] then Inr (granted direct)
              else (case getWorkspaceBoardMembershipPermission T (b_workspace board) (the userId) of
                  Some p \<Rightarrow> Inr (granted p) | None \<Rightarrow> Inr no_access)
          | None \<Rightarrow> (case getWorkspaceBoardMembershipPermission T (b_workspace board) (the userId) of
                Some p \<Rightarrow> Inr (granted p) | None \<Rightarrow> Inr no_access))))"

definition getShareByToken :: "tables \<Rightarrow> string \<Rightarrow> (string \<times> string) option" where
  "getShareByToken T token =
     (case select_one (\<lambda>b. b_viewToken b = Some token \<and> b_viewEnabled b) (t_boards T) of
        Some b \<Rightarrow> Some (b_id b, BOARD_PERMISSION_VIEW)
      | None \<Rightarrow> (case select_one (\<lambda>b. b_editToken b = Some token \<and> b_editEnabled b) (t_boards T) of
            Some b \<Rightarrow> Some (b_id b, BOARD_PERMISSION_EDIT)
          | None \<Rightarrow> None))"

section \<open>Link sharing and favourites\<close>

record link_share =
  ls_enabled :: bool
  ls_permission :: string
  ls_token :: "string option"

definition share_of :: "string \<Rightarrow> board_row \<Rightarrow> link_share" where
  "share_of permission board = \<lparr>
     ls_enabled = (if permission = ''view'' then b_viewEnabled board else b_editEnabled board),
     ls_permission = permission,
     ls_token = (if permission = ''view'' then b_viewToken board else b_editToken board)\<rparr>"

definition same_token :: "board_row \<Rightarrow> board_row \<Rightarrow> bool" where
  "same_token b c = (b_viewToken b \<noteq> None \<and> b_viewToken b = b_viewToken c \<or>
     b_editToken b \<noteq> None \<and> b_editToken b = b_editToken c)"

definition token_taken :: "tables \<Rightarrow> string \<Rightarrow> (board_row \<Rightarrow> board_row) \<Rightarrow> bool" where
  \<comment> \<open>the patched board \<open>boardId\<close> would repeat a token, which both token columns forbid\<close>
  "token_taken T boardId patch = (\<exists>b \<in> set (t_boards T). b_id b = boardId \<and>
     (\<exists>c \<in> set (t_boards T). b_id c \<noteq> boardId \<and> same_token (patch b) c))"

definition update_board :: "sql_env \<Rightarrow> string \<Rightarrow> (board_row \<Rightarrow> board_row) \<Rightarrow> tables \<Rightarrow>
    board_row option outcome \<times> tables" where
  \<comment> \<open>\<open>update(boards).set(patch).where(eq(boards.id, boardId)).returning()\<close>\<close>
  "update_board S boardId patch T =
     (if token_taken T boardId patch then (Inl (Raised (s_raise S UNIQUE_VIOLATION)), T)
      else let T' = T\<lparr>t_boards := update_rows (\<lambda>b. b_id b = boardId) patch (t_boards T)\<rparr>
           in (Inr (select_one (\<lambda>b. b_id b = boardId) (t_boards T')), T'))"

definition link_share_patch :: "sql_env \<Rightarrow> string \<Rightarrow> bool \<Rightarrow> board_row \<Rightarrow> board_row" where
  "link_share_patch S permission on b =
     (let token = (if on then Some (generateLinkShareToken S) else None)
      in if permission = ''view''
         then b\<lparr>b_viewEnabled := on, b_viewToken := token, b_updatedAt := Some (s_now S)\<rparr>
         else b\<lparr>b_editEnabled := on, b_editToken := token, b_updatedAt := Some (s_now S)\<rparr>)"

definition setBoardLinkShare :: "sql_env \<Rightarrow> string \<Rightarrow> string \<Rightarrow> bool \<Rightarrow> tables \<Rightarrow> link_share option outcome \<times> tables" where
  "setBoardLinkShare S boardId permission on T =
     (case update_board S boardId (link_share_patch S permission on) T of
        (Inl e, T') \<Rightarrow> (Inl e, T') | (Inr found, T') \<Rightarrow> (Inr (map_option (share_of permission) found), T'))"

definition rotate_patch :: "sql_env \<Rightarrow> string \<Rightarrow> board_row \<Rightarrow> board_row" where
  "rotate_patch S permission b = (if permission = ''view''
     then b\<lparr>b_viewToken := Some (generateLinkShareToken S), b_updatedAt := Some (s_now S)\<rparr>
     else b\<lparr>b_editToken := Some (generateLinkShareToken S), b_updatedAt := Some (s_now S)\<rparr>)"

definition rotateBoardLinkShareToken :: "sql_env \<Rightarrow> string \<Rightarrow> string \<Rightarrow> tables \<Rightarrow> link_share option outcome \<times> tables" where
  "rotateBoardLinkShareToken S boardId permission T =
     (case update_board S boardId (rotate_patch S permission) T of
        (Inl e, T') \<Rightarrow> (Inl e, T') | (Inr found, T') \<Rightarrow> (Inr (map_option (share_of permission) found), T'))"

definition write_favorite :: "sql_env \<Rightarrow> string \<Rightarrow> string \<Rightarrow> bool \<Rightarrow> favorite_row list \<Rightarrow> favorite_row list" where
  "write_favorite S boardId userId isFavorite rows =
     (let here = (\<lambda>r. fv_board r = boardId \<and> fv_user r = userId) in
      if \<not> isFavorite then delete_rows here rows
      else if (\<exists>r \<in> set rows. here r) then update_rows here (\<lambda>r. r\<lparr>fv_createdAt := Some (s_now S)\<rparr>) rows
      else rows @ [\<lparr>fv_board = boardId, fv_user = userId, fv_createdAt = Some (s_now S)\<rparr>])"

definition favorite_statement ::
    "sql_env \<Rightarrow> string \<Rightarrow> string \<Rightarrow> bool \<Rightarrow> tables \<Rightarrow> tables outcome" where
  \<comment> \<open>the statement inside the \<open>try\<close>\<close>
  "favorite_statement S boardId userId isFavorite T = (case favorite_rows S T of
     Inl e \<Rightarrow> Inl e
   | Inr rows \<Rightarrow>
       if isFavorite \<and> \<not> (has_board T boardId \<and> has_user T userId)
       then Inl (Raised (s_raise S FOREIGN_KEY_VIOLATION))
       else Inr (T\<lparr>t_favorites := Some (write_favorite S boardId userId isFavorite rows)\<rparr>))"

definition setBoardFavorite ::
    "sql_env \<Rightarrow> string \<Rightarrow> string \<Rightarrow> bool \<Rightarrow> tables \<Rightarrow> catalog_board option outcome \<times> tables" where
  "setBoardFavorite S boardId userId isFavorite T = (case checkBoardAccess S T boardId (Some userId) None of
     Inl e \<Rightarrow> (Inl e, T)
   | Inr found \<Rightarrow>
       if \<not> ac_hasAccess found then (Inr None, T)
       else (case favorite_statement S boardId userId isFavorite T of
           Inl (Raised e) \<Rightarrow> if isMissingRelationError e then (Inr None, T) else (Inl (Raised e), T)
         | Inl e \<Rightarrow> (Inl e, T)
         | Inr T' \<Rightarrow> (getBoard S T' boardId (Some userId), T')))"

section \<open>Well-formed tables\<close>

definition tokens_unique :: "tables \<Rightarrow> bool" where
  "tokens_unique T = (\<forall>b \<in> set (t_boards T). \<forall>c \<in> set (t_boards T). same_token b c \<longrightarrow> b_id b = b_id c)"

lemma same_token_sym: "same_token b c \<Longrightarrow> same_token c b"
  unfolding same_token_def by metis

definition boards_ok :: "tables \<Rightarrow> bool" where
  \<comment> \<open>the primary key and the two token indexes\<close>
  "boards_ok T = (distinct (map b_id (t_boards T)) \<and> tokens_unique T)"

definition members_ok :: "tables \<Rightarrow> bool" where
  \<comment> \<open>\<open>board_member_user_idx\<close> and \<open>valid_board_member_permission\<close>\<close>
  "members_ok T = (distinct (map (\<lambda>m. (bm_board m, bm_user m)) (t_members T)) \<and>
     (\<forall>m \<in> set (t_members T). bm_permission m = ''view'' \<or> bm_permission m = ''edit''))"

definition ws_members_ok :: "tables \<Rightarrow> bool" where
  \<comment> \<open>\<open>workspace_member_idx\<close>\<close>
  "ws_members_ok T = distinct (map (\<lambda>m. (wm_workspace m, wm_user m)) (t_ws_members T))"

lemma truthy_simps [simp]: "\<not> truthy None" "truthy (Some s) = (s \<noteq> [])"
  by (simp_all add: truthy_def)

lemma granted_simps [simp]:
  "ac_hasAccess (granted p)" "ac_permission (granted p) = Some p"
  "\<not> ac_hasAccess no_access" "ac_permission no_access = None"
  by (simp_all add: granted_def no_access_def)

lemma board_found:
  "boards_ok T \<Longrightarrow> b \<in> set (t_boards T) \<Longrightarrow> select_one (\<lambda>r. b_id r = b_id b) (t_boards T) = Some b"
  by (rule select_one_key[where key = b_id]) (auto simp: boards_ok_def)

lemma board_by_id:
  "boards_ok T \<Longrightarrow> b \<in> set (t_boards T) \<Longrightarrow> c \<in> set (t_boards T) \<Longrightarrow> b_id b = b_id c \<Longrightarrow> b = c"
  by (auto simp: boards_ok_def distinct_map inj_on_def)

lemma no_board_found: "select_one (\<lambda>r. b_id r = i) (t_boards T) = None \<longleftrightarrow> \<not> has_board T i"
  by (auto simp: select_one_None has_board_def)

section \<open>The access check\<close>

definition view_link :: "board_row \<Rightarrow> string option \<Rightarrow> bool" where
  "view_link b t = (truthy t \<and> b_viewEnabled b \<and> b_viewToken b = t)"

definition edit_link :: "board_row \<Rightarrow> string option \<Rightarrow> bool" where
  "edit_link b t = (truthy t \<and> b_editEnabled b \<and> b_editToken b = t)"

definition direct_member :: "tables \<Rightarrow> board_row \<Rightarrow> string option \<Rightarrow> string \<Rightarrow> bool" where
  "direct_member T b u p = (truthy u \<and> (\<exists>m \<in> set (t_members T).
     bm_board m = b_id b \<and> Some (bm_user m) = u \<and> bm_permission m = p))"

definition workspace_member :: "tables \<Rightarrow> board_row \<Rightarrow> string option \<Rightarrow> string \<Rightarrow> bool" where
  "workspace_member T b u role = (truthy u \<and> (\<exists>m \<in> set (t_ws_members T).
     wm_workspace m = b_workspace b \<and> Some (wm_user m) = u \<and> wm_role m = role))"

definition may_view :: "tables \<Rightarrow> board_row \<Rightarrow> string option \<Rightarrow> string option \<Rightarrow> bool" where
  "may_view T b u t = (view_link b t \<or> edit_link b t \<or> (\<exists>p. direct_member T b u p) \<or>
     (\<exists>role. workspace_member T b u role))"

definition may_edit :: "tables \<Rightarrow> board_row \<Rightarrow> string option \<Rightarrow> string option \<Rightarrow> bool" where
  \<comment> \<open>a view link outranks everything, an edit link outranks memberships, and a direct membership
     outranks the workspace role\<close>
  "may_edit T b u t = (\<not> view_link b t \<and> (edit_link b t \<or> direct_member T b u ''edit'' \<or>
     (\<not> direct_member T b u ''view'' \<and> (\<exists>role. role \<noteq> ''viewer'' \<and> workspace_member T b u role))))"

lemma member_permission:
  assumes "members_ok T" "u \<noteq> []"
  shows "getBoardMemberPermission T (b_id b) u = Some p \<longleftrightarrow> direct_member T b (Some u) p"
proof -
  have "select_one (\<lambda>n. bm_board n = b_id b \<and> bm_user n = u) (t_members T) = Some m"
    if "m \<in> set (t_members T)" "bm_board m = b_id b" "bm_user m = u" for m
    using assms that
    by (intro select_one_key[where key = "\<lambda>m. (bm_board m, bm_user m)"]) (auto simp: members_ok_def)
  then show ?thesis using assms(2)
    by (auto simp: getBoardMemberPermission_def direct_member_def dest!: select_one_Some)
qed

lemma workspace_permission:
  assumes "ws_members_ok T" "u \<noteq> []"
  shows "getWorkspaceBoardMembershipPermission T (b_workspace b) u = Some p \<longleftrightarrow>
    (\<exists>role. workspace_member T b (Some u) role \<and> p = workspaceRoleToBoardPermission role)"
proof -
  have "select_one (\<lambda>n. wm_workspace n = b_workspace b \<and> wm_user n = u) (t_ws_members T) = Some m"
    if "m \<in> set (t_ws_members T)" "wm_workspace m = b_workspace b" "wm_user m = u" for m
    using assms that
    by (intro select_one_key[where key = "\<lambda>m. (wm_workspace m, wm_user m)"]) (auto simp: ws_members_ok_def)
  then show ?thesis using assms(2)
    by (auto simp: getWorkspaceBoardMembershipPermission_def workspace_member_def dest!: select_one_Some)
qed

lemma member_permission_names:
  "members_ok T \<Longrightarrow> direct_member T b u p \<Longrightarrow> p = ''view'' \<or> p = ''edit''"
  by (auto simp: members_ok_def direct_member_def)

lemma one_direct_permission:
  "members_ok T \<Longrightarrow> direct_member T b u p \<Longrightarrow> direct_member T b u q \<Longrightarrow> p = q"
  by (cases u) (auto simp: member_permission[symmetric] dest: member_permission[THEN iffD2] simp: direct_member_def
    members_ok_def distinct_map inj_on_def)

lemma one_workspace_role:
  "ws_members_ok T \<Longrightarrow> workspace_member T b u p \<Longrightarrow> workspace_member T b u q \<Longrightarrow> p = q"
  by (auto simp: workspace_member_def ws_members_ok_def distinct_map inj_on_def)

lemma checkBoardAccess_missing: "\<not> has_board T i \<Longrightarrow> checkBoardAccess S T i u t = Inr no_access"
  by (simp add: checkBoardAccess_def getBoard_def no_board_found[THEN iffD2])

definition member_access :: "tables \<Rightarrow> board_row \<Rightarrow> string option \<Rightarrow> access" where
  \<comment> \<open>what the memberships alone give\<close>
  "member_access T b u = (if \<not> truthy u then no_access
     else case getBoardMemberPermission T (b_id b) (the u) of
         Some (c # p) \<Rightarrow> granted (c # p)
       | _ \<Rightarrow> (case getWorkspaceBoardMembershipPermission T (b_workspace b) (the u) of
             Some p \<Rightarrow> granted p | None \<Rightarrow> no_access))"

lemma checkBoardAccess_board:
  assumes "boards_ok T" "b \<in> set (t_boards T)"
  shows "checkBoardAccess S T (b_id b) u t = Inr (
     if view_link b t then granted ''view'' else if edit_link b t then granted ''edit''
     else member_access T b u)"
  using board_found[OF assms]
  by (auto simp: checkBoardAccess_def getBoard_def view_link_def edit_link_def permission_names Let_def
      member_access_def split: option.split list.split)

lemma access_of_board:
  assumes "boards_ok T" "members_ok T" "ws_members_ok T" "b \<in> set (t_boards T)"
  shows "\<exists>a. checkBoardAccess S T (b_id b) u t = Inr a \<and> (ac_hasAccess a \<longleftrightarrow> may_view T b u t) \<and>
    (ac_permission a = Some ''edit'' \<longleftrightarrow> may_edit T b u t) \<and>
    (ac_hasAccess a \<longleftrightarrow> ac_permission a \<in> {Some ''view'', Some ''edit''})"
proof (cases "view_link b t \<or> edit_link b t \<or> \<not> truthy u")
  case True
  then show ?thesis
    by (auto simp: checkBoardAccess_board[OF assms(1,4)] member_access_def may_view_def may_edit_def direct_member_def
      workspace_member_def)
next
  case links: False
  then obtain v where u: "u = Some v" "v \<noteq> []" by (cases u) auto
  show ?thesis
  proof (cases "getBoardMemberPermission T (b_id b) v")
    case (Some p)
    then have d: "direct_member T b u p" using member_permission[OF assms(2) u(2)] u(1) by simp
    then have "p = ''view'' \<or> p = ''edit''" by (rule member_permission_names[OF assms(2)])
    then obtain c q where p: "p = c # q" by auto
    have "direct_member T b u r \<longleftrightarrow> r = p" for r
      using one_direct_permission[OF assms(2) d] d by blast
    moreover have "checkBoardAccess S T (b_id b) u t = Inr (granted p)"
      using Some links u p by (simp add: checkBoardAccess_board[OF assms(1,4)] member_access_def)
    ultimately show ?thesis
      using links \<open>p = ''view'' \<or> p = ''edit''\<close> by (auto simp: may_view_def may_edit_def)
  next
    case None
    then have nd: "\<not> direct_member T b u p" for p
      using member_permission[OF assms(2) u(2), of b p] u(1) by simp
    show ?thesis
    proof (cases "getWorkspaceBoardMembershipPermission T (b_workspace b) v")
      case (Some p)
      then obtain role where "workspace_member T b u role" "p = workspaceRoleToBoardPermission role"
        using workspace_permission[OF assms(3) u(2)] u(1) by auto
      then have "workspace_member T b u r \<longleftrightarrow> r = role" for r
        using one_workspace_role[OF assms(3)] by blast
      moreover have "checkBoardAccess S T (b_id b) u t = Inr (granted p)"
        using Some None links u by (simp add: checkBoardAccess_board[OF assms(1,4)] member_access_def)
      ultimately show ?thesis
        using links nd \<open>p = _\<close>
        by (auto simp: may_view_def may_edit_def workspaceRoleToBoardPermission_def permission_names)
    next
      case no_role: None
      then have "\<not> workspace_member T b u role" for role
        using workspace_permission[OF assms(3) u(2), of b] u(1) by auto
      then show ?thesis
        using None no_role links u nd
        by (auto simp: checkBoardAccess_board[OF assms(1,4)] member_access_def may_view_def may_edit_def)
    qed
  qed
qed

lemma access_decided:
  assumes "boards_ok T" "members_ok T" "ws_members_ok T"
  shows "\<exists>a. checkBoardAccess S T i u t = Inr a \<and>
    (ac_hasAccess a \<longleftrightarrow> (\<exists>b \<in> set (t_boards T). b_id b = i \<and> may_view T b u t)) \<and>
    (ac_permission a = Some ''edit'' \<longleftrightarrow> (\<exists>b \<in> set (t_boards T). b_id b = i \<and> may_edit T b u t)) \<and>
    (ac_hasAccess a \<longleftrightarrow> ac_permission a \<in> {Some ''view'', Some ''edit''})"
proof (cases "has_board T i")
  case True
  then obtain b where b: "b \<in> set (t_boards T)" "b_id b = i" by (auto simp: has_board_def)
  then have "(\<exists>c \<in> set (t_boards T). b_id c = i \<and> P c) \<longleftrightarrow> P b" for P
    using board_by_id[OF assms(1) b(1)] b by metis
  then show ?thesis using access_of_board[OF assms b(1), of S u t] by (simp only: b(2))
next
  case False
  then show ?thesis by (auto simp: checkBoardAccess_missing has_board_def)
qed

text \<open>C11: The access check decides exactly the declarative rules: a board opens for whoever has its
  enabled view or edit link, a direct membership or a membership of its workspace; editing needs an
  edit link, a direct \<open>edit\<close> membership, or a workspace role above viewer without a direct \<open>view\<close>
  membership, and a matching view link caps the permission at \<open>view\<close>.\<close>

theorem checkBoardAccess_correct:
  assumes "boards_ok T" "members_ok T" "ws_members_ok T"
  shows "\<exists>a. checkBoardAccess S T i u t = Inr a \<and>
    (ac_hasAccess a \<longleftrightarrow> (\<exists>b \<in> set (t_boards T). b_id b = i \<and> may_view T b u t)) \<and>
    (ac_permission a = Some ''edit'' \<longleftrightarrow> (\<exists>b \<in> set (t_boards T). b_id b = i \<and> may_edit T b u t)) \<and>
    (ac_hasAccess a \<longleftrightarrow> ac_permission a \<in> {Some ''view'', Some ''edit''})"
  using assms by (rule access_decided)

definition demo_board :: "string \<Rightarrow> board_row" where
  "demo_board i = \<lparr>b_id = i, b_workspace = ''w'', b_name = ''plan'', b_commit = None, b_branch = Some ''main'',
     b_previewSvg = None, b_previewVersion = None, b_previewUpdatedAt = None, b_viewEnabled = True,
     b_viewToken = Some ''v'', b_editEnabled = False, b_editToken = None, b_createdAt = Some 0, b_updatedAt = Some 0\<rparr>"

definition demo_tables :: tables where
  "demo_tables = \<lparr>t_boards = [demo_board ''b''],
     t_members = [\<lparr>bm_id = ''m'', bm_board = ''b'', bm_user = ''u'', bm_permission = ''edit'',
        bm_addedBy = None, bm_createdAt = None, bm_updatedAt = None\<rparr>],
     t_favorites = Some [], t_invitations = [],
     t_workspaces = [\<lparr>ws_id = ''w'', ws_name = ''team'', ws_owner = ''o'', ws_createdAt = None, ws_updatedAt = None\<rparr>],
     t_ws_members = [\<lparr>wm_id = ''n'', wm_workspace = ''w'', wm_user = ''u'', wm_role = ''viewer'',
        wm_addedBy = None, wm_createdAt = None, wm_updatedAt = None\<rparr>],
     t_ws_invitations = [],
     t_users = [\<lparr>us_id = ''u'', us_email = ''U@x.org'', us_name = ''U'', us_avatarUrl = None\<rparr>],
     t_elements = []\<rparr>"

definition demo_sql :: sql_env where
  "demo_sql = \<lparr>s_now = 0, s_uuid = (\<lambda>n. ''id'' @ dec (int n)), s_token = (\<lambda>n. ''token''), s_shift = 0,
     s_raise = (\<lambda>c. DbError (Some c) None None None None)\<rparr>"

lemma demo_tables_ok: "boards_ok demo_tables" "members_ok demo_tables" "ws_members_ok demo_tables"
  by (simp_all add: demo_tables_def demo_board_def boards_ok_def tokens_unique_def members_ok_def ws_members_ok_def)

theorem checkBoardAccess_correct_witness:
  "checkBoardAccess demo_sql demo_tables ''b'' (Some ''u'') None = Inr (granted ''edit'')"
  using checkBoardAccess_correct[OF demo_tables_ok, of demo_sql "''b''" "Some ''u''" None]
  by (auto simp: granted_def may_view_def may_edit_def view_link_def edit_link_def direct_member_def
    workspace_member_def demo_tables_def demo_board_def)

section \<open>The list of accessible boards\<close>

definition entry_id :: "accessible_board \<Rightarrow> string" where
  "entry_id x = b_id (cb_board x)"

definition put_entry :: "accessible_board \<Rightarrow> (string \<times> accessible_board) list \<Rightarrow> (string \<times> accessible_board) list" where
  "put_entry x m = js_put (entry_id x) x m"

definition add_entry :: "accessible_board \<Rightarrow> (string \<times> accessible_board) list \<Rightarrow> (string \<times> accessible_board) list" where
  "add_entry x m = (if js_has (entry_id x) m then m else js_put (entry_id x) x m)"

definition ws_entry :: "(string \<times> int option) list \<Rightarrow> board_row \<times> string \<Rightarrow> accessible_board" where
  "ws_entry fav p = list_entry fav (fst p) (workspaceRoleToBoardPermission (snd p)) ''workspace''"

definition direct_entry :: "(string \<times> int option) list \<Rightarrow> board_row \<times> string \<Rightarrow> accessible_board" where
  "direct_entry fav p = list_entry fav (fst p)
     (if snd p = BOARD_PERMISSION_EDIT then BOARD_PERMISSION_EDIT else BOARD_PERMISSION_VIEW) ''board_member''"

lemma entry_id_simps [simp]:
  "entry_id (ws_entry fav p) = b_id (fst p)" "entry_id (direct_entry fav p) = b_id (fst p)"
  "cb_board (ws_entry fav p) = fst p" "cb_board (direct_entry fav p) = fst p"
  "ab_permission (ws_entry fav p) = workspaceRoleToBoardPermission (snd p)"
  "ab_permission (direct_entry fav p) =
     (if snd p = BOARD_PERMISSION_EDIT then BOARD_PERMISSION_EDIT else BOARD_PERMISSION_VIEW)"
  by (simp_all add: entry_id_def ws_entry_def direct_entry_def list_entry_def with_favorite_def
    catalog_board.defs accessible_board.defs)

lemma listAccessibleBoards_folds:
  "listAccessibleBoards S T u = (case getFavoriteBoardMap S T u of Inl e \<Rightarrow> Inl e
     | Inr fav \<Rightarrow> Inr (map snd (fold add_entry (map (direct_entry fav) (direct_boards T u))
         (fold put_entry (map (ws_entry fav) (workspace_boards T u)) []))))"
proof -
  have a: "(\<lambda>(b, role) m. js_put (b_id b) (list_entry fav b (workspaceRoleToBoardPermission role) ''workspace'') m) =
      put_entry \<circ> ws_entry fav" for fav
    by (auto simp: fun_eq_iff put_entry_def entry_id_simps(1)) (simp add: ws_entry_def)
  have b: "(\<lambda>(b, permission) m. if js_has (b_id b) m then m else js_put (b_id b)
      (list_entry fav b (if permission = BOARD_PERMISSION_EDIT
         then BOARD_PERMISSION_EDIT else BOARD_PERMISSION_VIEW) ''board_member'') m) =
      add_entry \<circ> direct_entry fav" for fav
    by (auto simp: fun_eq_iff add_entry_def entry_id_simps(2)) (simp_all add: direct_entry_def)
  show ?thesis
    by (simp add: listAccessibleBoards_def Let_def a b fold_map split: sum.split)
qed

definition keyed_entries :: "(string \<times> accessible_board) list \<Rightarrow> bool" where
  "keyed_entries m = (distinct (map fst m) \<and> (\<forall>p \<in> set m. fst p = entry_id (snd p)))"

lemma keyed_Nil: "keyed_entries []" by (simp add: keyed_entries_def)

lemma keyed_put: "keyed_entries m \<Longrightarrow> keyed_entries (put_entry x m)"
  using set_js_put_subset[of "entry_id x" x m] by (auto simp: keyed_entries_def put_entry_def)

lemma keyed_add: "keyed_entries m \<Longrightarrow> keyed_entries (add_entry x m)"
  using keyed_put[of m x] by (simp add: add_entry_def put_entry_def)

lemma keyed_puts: "keyed_entries m \<Longrightarrow> keyed_entries (fold put_entry xs m)"
  by (induction xs arbitrary: m) (simp_all add: keyed_put)

lemma keyed_adds: "keyed_entries m \<Longrightarrow> keyed_entries (fold add_entry xs m)"
  by (induction xs arbitrary: m) (simp_all add: keyed_add)

lemma keyed_ids: "keyed_entries m \<Longrightarrow> map (entry_id \<circ> snd) m = map fst m"
  by (auto simp: keyed_entries_def)

lemma ids_puts: "fst ` set (fold put_entry xs m) = fst ` set m \<union> entry_id ` set xs"
  by (induction xs arbitrary: m) (auto simp: put_entry_def)

lemma ids_adds: "fst ` set (fold add_entry xs m) = fst ` set m \<union> entry_id ` set xs"
  by (induction xs arbitrary: m) (auto simp: add_entry_def js_has_set)

lemma get_puts_other: "i \<notin> entry_id ` set xs \<Longrightarrow> js_get i (fold put_entry xs m) = js_get i m"
  by (induction xs arbitrary: m) (auto simp: put_entry_def)

lemma get_puts_same:
  assumes "\<And>y. y \<in> set xs \<Longrightarrow> entry_id y = entry_id x \<Longrightarrow> y = x" "x \<in> set xs"
  shows "js_get (entry_id x) (fold put_entry xs m) = Some x"
  using assms
proof (induction xs arbitrary: m)
  case (Cons y ys)
  have uniq: "z = x" if "z \<in> set ys" "entry_id z = entry_id x" for z
    using Cons.prems(1)[of z] that by simp
  show ?case
  proof (cases "x \<in> set ys")
    case True
    then show ?thesis using Cons.IH[OF uniq] by simp
  next
    case False
    then have "y = x" "entry_id x \<notin> entry_id ` set ys" using Cons.prems(2) uniq by auto
    then show ?thesis by (simp add: get_puts_other) (simp add: put_entry_def)
  qed
qed simp

lemma get_add_present: "js_get i m = Some v \<Longrightarrow> js_get i (add_entry x m) = Some v"
  by (auto simp: add_entry_def js_has_def)

lemma get_adds_present: "js_get i m = Some v \<Longrightarrow> js_get i (fold add_entry xs m) = Some v"
  by (induction xs arbitrary: m) (simp_all add: get_add_present)

lemma get_add_new: "js_get (entry_id x) m = None \<Longrightarrow> js_get (entry_id x) (add_entry x m) = Some x"
  by (simp add: add_entry_def js_has_def)

lemma get_add_other: "i \<noteq> entry_id x \<Longrightarrow> js_get i (add_entry x m) = js_get i m"
  by (simp add: add_entry_def)

lemma get_adds_same:
  assumes "\<And>y. y \<in> set xs \<Longrightarrow> entry_id y = entry_id x \<Longrightarrow> y = x" "x \<in> set xs" "js_get (entry_id x) m = None"
  shows "js_get (entry_id x) (fold add_entry xs m) = Some x"
  using assms
proof (induction xs arbitrary: m)
  case (Cons y ys)
  have uniq: "z = x" if "z \<in> set ys" "entry_id z = entry_id x" for z
    using Cons.prems(1)[of z] that by simp
  show ?case
  proof (cases "entry_id y = entry_id x")
    case True
    then have "y = x" using Cons.prems(1) by simp
    then show ?thesis using Cons.prems(3) by (simp add: get_add_new get_adds_present)
  next
    case False
    then have "js_get (entry_id x) (add_entry y m) = None" "x \<in> set ys"
      using Cons.prems by (auto simp: get_add_other)
    then show ?thesis using Cons.IH[OF uniq] by simp
  qed
qed simp

lemma workspace_boards_mem:
  "u \<noteq> [] \<Longrightarrow> set (workspace_boards T u) =
     {(b, r). b \<in> set (t_boards T) \<and> workspace_member T b (Some u) r}"
  by (auto simp: workspace_boards_def workspace_member_def)

lemma direct_boards_mem:
  "u \<noteq> [] \<Longrightarrow> set (direct_boards T u) =
     {(b, p). b \<in> set (t_boards T) \<and> direct_member T b (Some u) p}"
  by (auto simp: direct_boards_def direct_member_def)

text \<open>C27: \<open>listAccessibleBoards\<close> lists every board the access check opens for the user without a share
  token, each once, and no other; the permission it shows is the one of the workspace role when there
  is one, and of the direct membership otherwise.\<close>

theorem listAccessibleBoards_exact:
  assumes "boards_ok T" "members_ok T" "ws_members_ok T" "u \<noteq> []"
    and listed: "listAccessibleBoards S T u = Inr xs"
  shows "distinct (map entry_id xs) \<and>
    (\<forall>i. i \<in> entry_id ` set xs \<longleftrightarrow>
       (\<exists>a. checkBoardAccess S T i (Some u) None = Inr a \<and> ac_hasAccess a)) \<and>
    (\<forall>b \<in> set (t_boards T). \<forall>role. workspace_member T b (Some u) role \<longrightarrow>
       (\<exists>x \<in> set xs. cb_board x = b \<and> ab_permission x = workspaceRoleToBoardPermission role)) \<and>
    (\<forall>b \<in> set (t_boards T). \<forall>p. direct_member T b (Some u) p \<and> (\<forall>role. \<not> workspace_member T b (Some u) role) \<longrightarrow>
       (\<exists>x \<in> set xs. cb_board x = b \<and> ab_permission x = p))"
proof -
  obtain fav where fav: "getFavoriteBoardMap S T u = Inr fav"
    using listed by (cases "getFavoriteBoardMap S T u") (auto simp: listAccessibleBoards_def)
  let ?ws = "map (ws_entry fav) (workspace_boards T u)" and ?ds = "map (direct_entry fav) (direct_boards T u)"
  define m1 where "m1 = fold put_entry ?ws []"
  define m2 where "m2 = fold add_entry ?ds m1"
  have xs: "xs = map snd m2" using listed fav by (simp add: listAccessibleBoards_folds m1_def m2_def)
  have k: "keyed_entries m2" by (simp add: m1_def m2_def keyed_adds keyed_puts keyed_Nil)
  then have ids: "map entry_id xs = map fst m2" using keyed_ids by (simp add: xs)
  have inm: "x \<in> set xs" if "js_get i m2 = Some x" for i x
    using that k by (force simp: xs keyed_entries_def js_get_set)
  have wsu: "y = ws_entry fav (b, r)"
    if y: "y \<in> set ?ws" "entry_id y = b_id b" and b: "b \<in> set (t_boards T)" "workspace_member T b (Some u) r" for y b r
  proof -
    obtain c q where c: "y = ws_entry fav (c, q)" "c \<in> set (t_boards T)" "workspace_member T c (Some u) q"
      using y(1) by (auto simp: workspace_boards_mem[OF assms(4)])
    have "c = b" using board_by_id[OF assms(1) c(2) b(1)] y(2) c(1) by simp
    then show ?thesis using one_workspace_role[OF assms(3) c(3)] b(2) c(1) by simp
  qed
  have dsu: "y = direct_entry fav (b, p)"
    if y: "y \<in> set ?ds" "entry_id y = b_id b" and b: "b \<in> set (t_boards T)" "direct_member T b (Some u) p" for y b p
  proof -
    obtain c q where c: "y = direct_entry fav (c, q)" "c \<in> set (t_boards T)" "direct_member T c (Some u) q"
      using y(1) by (auto simp: direct_boards_mem[OF assms(4)])
    have "c = b" using board_by_id[OF assms(1) c(2) b(1)] y(2) c(1) by simp
    then show ?thesis using one_direct_permission[OF assms(2) c(3)] b(2) c(1) by simp
  qed
  have "distinct (map entry_id xs)" using k ids by (simp add: keyed_entries_def)
  moreover have "i \<in> entry_id ` set xs \<longleftrightarrow>
      (\<exists>a. checkBoardAccess S T i (Some u) None = Inr a \<and> ac_hasAccess a)" for i
  proof -
    have "entry_id ` set xs = fst ` set m2" using arg_cong[OF ids, of set] by simp
    also have "\<dots> = {b_id b | b. b \<in> set (t_boards T) \<and>
        ((\<exists>r. workspace_member T b (Some u) r) \<or> (\<exists>p. direct_member T b (Some u) p))}"
      by (auto simp: m1_def m2_def ids_adds ids_puts workspace_boards_mem[OF assms(4)]
        direct_boards_mem[OF assms(4)] image_iff; blast)
    finally show ?thesis
      using checkBoardAccess_correct[OF assms(1-3), of S i "Some u" None]
      by (auto simp: may_view_def view_link_def edit_link_def)
  qed
  moreover have "\<exists>x \<in> set xs. cb_board x = b \<and> ab_permission x = workspaceRoleToBoardPermission r"
    if b: "b \<in> set (t_boards T)" "workspace_member T b (Some u) r" for b r
  proof -
    have "ws_entry fav (b, r) \<in> set ?ws" using b by (auto simp: workspace_boards_mem[OF assms(4)])
    then have "js_get (entry_id (ws_entry fav (b, r))) m1 = Some (ws_entry fav (b, r))"
      unfolding m1_def by (intro get_puts_same wsu[OF _ _ b]) simp_all
    then have "js_get (b_id b) m2 = Some (ws_entry fav (b, r))" by (simp add: m2_def get_adds_present)
    then have "ws_entry fav (b, r) \<in> set xs" by (rule inm)
    then show ?thesis by (intro bexI[of _ "ws_entry fav (b, r)"]) simp_all
  qed
  moreover have "\<exists>x \<in> set xs. cb_board x = b \<and> ab_permission x = p"
    if b: "b \<in> set (t_boards T)" "direct_member T b (Some u) p" and nw: "\<forall>r. \<not> workspace_member T b (Some u) r" for b p
  proof -
    have "b_id c \<noteq> b_id b" if "(c, r) \<in> set (workspace_boards T u)" for c r
      using that nw board_by_id[OF assms(1) b(1), of c] by (auto simp: workspace_boards_mem[OF assms(4)])
    then have "b_id b \<notin> fst ` set m1" by (simp add: m1_def ids_puts image_image) force
    moreover have "direct_entry fav (b, p) \<in> set ?ds" using b by (auto simp: direct_boards_mem[OF assms(4)])
    ultimately have "js_get (entry_id (direct_entry fav (b, p))) m2 = Some (direct_entry fav (b, p))"
      unfolding m2_def by (intro get_adds_same dsu[OF _ _ b]) (simp_all add: js_get_None)
    then have "direct_entry fav (b, p) \<in> set xs" by (rule inm)
    moreover have "ab_permission (direct_entry fav (b, p)) = p"
      using member_permission_names[OF assms(2) b(2)] by (auto simp: permission_names)
    ultimately show ?thesis by (intro bexI[of _ "direct_entry fav (b, p)"]) simp_all
  qed
  ultimately show ?thesis by blast
qed

theorem listAccessibleBoards_exact_witness:
  "\<exists>xs. listAccessibleBoards demo_sql demo_tables ''u'' = Inr xs \<and> entry_id ` set xs = {''b''} \<and>
     (\<exists>x \<in> set xs. ab_permission x = ''view'')"
proof -
  obtain xs where xs: "listAccessibleBoards demo_sql demo_tables ''u'' = Inr xs"
    by (simp add: listAccessibleBoards_folds getFavoriteBoardMap_def favorite_rows_def demo_tables_def)
  have m: "demo_board ''b'' \<in> set (t_boards demo_tables)"
    "workspace_member demo_tables (demo_board ''b'') (Some ''u'') ''viewer''"
    by (simp_all add: demo_tables_def demo_board_def workspace_member_def)
  note all = listAccessibleBoards_exact[OF demo_tables_ok _ xs, simplified]
  have "i \<in> entry_id ` set xs \<longleftrightarrow> i = ''b''" for i
  proof -
    have "ac_hasAccess a \<longleftrightarrow> i = ''b''" if "checkBoardAccess demo_sql demo_tables i (Some ''u'') None = Inr a" for a
      using that checkBoardAccess_missing[of demo_tables i demo_sql "Some ''u''" None] checkBoardAccess_correct_witness
      by (cases "i = ''b''") (auto simp: has_board_def demo_tables_def demo_board_def)
    then show ?thesis
      using all checkBoardAccess_correct[OF demo_tables_ok, of demo_sql i "Some ''u''" None] by blast
  qed
  moreover have "\<exists>x \<in> set xs. ab_permission x = ''view''"
  proof -
    have "\<exists>x \<in> set xs. cb_board x = demo_board ''b'' \<and> ab_permission x = workspaceRoleToBoardPermission ''viewer''"
      using all m by blast
    then show ?thesis by (auto simp: workspaceRoleToBoardPermission_def permission_names)
  qed
  ultimately show ?thesis using xs by blast
qed

section \<open>Share links\<close>

lemma update_board_some:
  "update_board S i patch T = (Inr found, T') \<Longrightarrow>
   T' = T\<lparr>t_boards := update_rows (\<lambda>b. b_id b = i) patch (t_boards T)\<rparr> \<and> \<not> token_taken T i patch"
  by (auto simp: update_board_def Let_def split: if_splits)

lemma update_board_ok:
  assumes "boards_ok T" "update_board S i patch T = (r, T')" "\<And>b. b_id (patch b) = b_id b"
  shows "boards_ok T'"
proof (cases "token_taken T i patch")
  case True
  then show ?thesis using assms by (simp add: update_board_def)
next
  case False
  then have T': "t_boards T' = update_rows (\<lambda>b. b_id b = i) patch (t_boards T)"
    using assms(2) by (auto simp: update_board_def Let_def)
  have "map b_id (t_boards T') = map b_id (t_boards T)"
    unfolding T' by (rule update_rows_keys) (simp add: assms(3))
  moreover have "b_id b' = b_id c'"
    if m: "b' \<in> set (t_boards T')" "c' \<in> set (t_boards T')" and eq: "same_token b' c'" for b' c'
  proof -
    obtain b c where bc: "b \<in> set (t_boards T)" "c \<in> set (t_boards T)"
      "b' = (if b_id b = i then patch b else b)" "c' = (if b_id c = i then patch c else c)"
      using m by (auto simp: T')
    have uniq: "same_token b c \<Longrightarrow> b_id b = b_id c"
      using assms(1) bc(1,2) by (simp add: boards_ok_def tokens_unique_def)
    have clash: "\<not> same_token (patch x) y"
      if "x \<in> set (t_boards T)" "y \<in> set (t_boards T)" "b_id x = i" "b_id y \<noteq> i" for x y
      using False that by (auto simp: token_taken_def)
    show ?thesis
      using bc(3,4) eq uniq clash[OF bc(1,2)] clash[OF bc(2,1)] same_token_sym[OF eq] assms(3)
      by (cases "b_id b = i"; cases "b_id c = i") simp_all
  qed
  ultimately show ?thesis using assms(1) by (auto simp: boards_ok_def tokens_unique_def)
qed

lemma patch_ids [simp]:
  "b_id (link_share_patch S permission on b) = b_id b" "b_id (rotate_patch S permission b) = b_id b"
  "b_workspace (link_share_patch S permission on b) = b_workspace b"
  by (simp_all add: link_share_patch_def rotate_patch_def Let_def)

lemma setBoardLinkShare_update:
  "snd (setBoardLinkShare S i p on T) = snd (update_board S i (link_share_patch S p on) T)"
  "snd (rotateBoardLinkShareToken S i p T) = snd (update_board S i (rotate_patch S p) T)"
  by (simp_all add: setBoardLinkShare_def rotateBoardLinkShareToken_def split: prod.split sum.split)

lemma boards_ok_link:
  "boards_ok T \<Longrightarrow> boards_ok (snd (setBoardLinkShare S i p on T))"
  "boards_ok T \<Longrightarrow> boards_ok (snd (rotateBoardLinkShareToken S i p T))"
  unfolding setBoardLinkShare_update
  by (auto intro: update_board_ok[where S = S and i = i] simp: prod_eq_iff)

lemma update_board_frame:
  "t_members (snd (update_board S i patch T)) = t_members T"
  "t_ws_members (snd (update_board S i patch T)) = t_ws_members T"
  by (simp_all add: update_board_def Let_def)

lemma access_frame:
  "getBoardMemberPermission (snd (setBoardLinkShare S i p on T)) = getBoardMemberPermission T"
  "getWorkspaceBoardMembershipPermission (snd (setBoardLinkShare S i p on T)) =
     getWorkspaceBoardMembershipPermission T"
  by (simp_all add: fun_eq_iff getBoardMemberPermission_def getWorkspaceBoardMembershipPermission_def
    setBoardLinkShare_update update_board_frame)

lemma member_access_frame:
  "member_access (snd (setBoardLinkShare S i p on T)) (link_share_patch S' p' on' b) u = member_access T b u"
  by (simp add: member_access_def access_frame split: option.split list.split)

lemma disabling_succeeds:
  "boards_ok T \<Longrightarrow> \<not> token_taken T i (link_share_patch S p False)"
proof -
  assume ok: "boards_ok T"
  have "same_token (link_share_patch S p False b) c \<Longrightarrow> same_token b c" for b c
    by (auto simp: same_token_def link_share_patch_def Let_def split: if_splits)
  with ok show ?thesis by (auto simp: token_taken_def boards_ok_def tokens_unique_def)
qed

lemma disabled_tables:
  assumes "boards_ok T"
  shows "snd (setBoardLinkShare S i p False T) =
    T\<lparr>t_boards := update_rows (\<lambda>b. b_id b = i) (link_share_patch S p False) (t_boards T)\<rparr>"
  by (simp add: setBoardLinkShare_update update_board_def disabling_succeeds[OF assms] Let_def)

text \<open>Once both links of a board are disabled, a share token gives nothing any more: every caller
  has exactly the access that the memberships give without a token.\<close>

theorem disabled_links_give_nothing:
  assumes "boards_ok T" "b \<in> set (t_boards T)"
  shows "let T1 = snd (setBoardLinkShare S (b_id b) ''view'' False T);
             T2 = snd (setBoardLinkShare S' (b_id b) ''edit'' False T1)
         in boards_ok T2 \<and> checkBoardAccess S T2 (b_id b) u t = checkBoardAccess S T (b_id b) u None"
proof -
  let ?T1 = "snd (setBoardLinkShare S (b_id b) ''view'' False T)"
  let ?T2 = "snd (setBoardLinkShare S' (b_id b) ''edit'' False ?T1)"
  let ?b1 = "link_share_patch S ''view'' False b"
  let ?b2 = "link_share_patch S' ''edit'' False ?b1"
  have ok1: "boards_ok ?T1" by (rule boards_ok_link(1)[OF assms(1)])
  have ok2: "boards_ok ?T2" by (rule boards_ok_link(1)[OF ok1])
  have m1: "?b1 \<in> set (t_boards ?T1)" using assms(2) by (force simp: disabled_tables[OF assms(1)])
  have m2: "?b2 \<in> set (t_boards ?T2)" using m1 by (force simp: disabled_tables[OF ok1])
  have "\<not> view_link ?b2 t" "\<not> edit_link ?b2 t"
    by (simp_all add: view_link_def edit_link_def link_share_patch_def Let_def)
  moreover have "\<not> view_link b None" "\<not> edit_link b None" by (simp_all add: view_link_def edit_link_def)
  ultimately have "checkBoardAccess S ?T2 (b_id b) u t = checkBoardAccess S T (b_id b) u None"
    using checkBoardAccess_board[OF ok2 m2, of S u t] checkBoardAccess_board[OF assms, of S u None]
    by (simp add: member_access_frame)
  with ok2 show ?thesis by (simp add: Let_def)
qed

theorem disabled_links_give_nothing_witness:
  "checkBoardAccess demo_sql (snd (setBoardLinkShare demo_sql ''b'' ''edit'' False
     (snd (setBoardLinkShare demo_sql ''b'' ''view'' False demo_tables)))) ''b'' None (Some ''v'') = Inr no_access"
  using disabled_links_give_nothing[OF demo_tables_ok(1), of "demo_board ''b''" demo_sql demo_sql None "Some ''v''"]
  by (simp add: demo_tables_def demo_board_def checkBoardAccess_def getBoard_def select_one_def Let_def)

text \<open>What \<open>getShareByToken\<close> tells about a share token is what the access check grants for it:
  the same board opens, with the same permission, for any caller, signed in or not.\<close>

theorem getShareByToken_agrees:
  assumes "boards_ok T" "tok \<noteq> []" "getShareByToken T tok = Some (i, p)"
  shows "checkBoardAccess S T i u (Some tok) = Inr (granted p)"
proof (cases "select_one (\<lambda>b. b_viewToken b = Some tok \<and> b_viewEnabled b) (t_boards T)")
  case (Some b)
  then have "b \<in> set (t_boards T)" "view_link b (Some tok)"
    using assms(2) by (auto simp: view_link_def dest: select_one_Some)
  then show ?thesis using assms(3) Some checkBoardAccess_board[OF assms(1)]
    by (auto simp: getShareByToken_def permission_names)
next
  case None
  then obtain b where b: "select_one (\<lambda>b. b_editToken b = Some tok \<and> b_editEnabled b) (t_boards T) = Some b"
    "i = b_id b" "p = ''edit''"
    using assms(3) by (auto simp: getShareByToken_def permission_names split: option.splits)
  then have m: "b \<in> set (t_boards T)" "edit_link b (Some tok)"
    using assms(2) by (auto simp: edit_link_def dest: select_one_Some)
  moreover have "\<not> view_link b (Some tok)"
    using None m(1) by (auto simp: select_one_None view_link_def)
  ultimately show ?thesis using checkBoardAccess_board[OF assms(1)] b by simp
qed

theorem getShareByToken_agrees_witness:
  "checkBoardAccess demo_sql demo_tables ''b'' None (Some ''v'') = Inr (granted ''view'')"
  by (rule getShareByToken_agrees[OF demo_tables_ok(1)])
    (simp_all add: getShareByToken_def select_one_def demo_tables_def demo_board_def permission_names)

text \<open>Rotating a share link ends the old token: a new token is stored for the chosen link alone, a
  link that was disabled stays disabled, and the old token no longer opens that link.\<close>

theorem rotated_token_replaces_old:
  assumes "boards_ok T" "b \<in> set (t_boards T)"
    and rotated: "rotateBoardLinkShareToken S (b_id b) ''edit'' T = (Inr found, T')"
    and fresh: "Some (generateLinkShareToken S) \<noteq> t"
  shows "found = Some \<lparr>ls_enabled = b_editEnabled b, ls_permission = ''edit'',
        ls_token = Some (generateLinkShareToken S)\<rparr> \<and> boards_ok T' \<and>
    (\<exists>b' \<in> set (t_boards T'). b_id b' = b_id b \<and> b_editEnabled b' = b_editEnabled b \<and>
       \<not> edit_link b' t \<and> view_link b' t = view_link b t)"
proof -
  let ?b = "rotate_patch S ''edit'' b"
  have up: "T' = T\<lparr>t_boards := update_rows (\<lambda>c. b_id c = b_id b) (rotate_patch S ''edit'') (t_boards T)\<rparr>"
    and taken: "\<not> token_taken T (b_id b) (rotate_patch S ''edit'')"
    using rotated update_board_some
    by (fastforce simp: rotateBoardLinkShareToken_def split: prod.splits sum.splits)+
  have ok: "boards_ok T'" using boards_ok_link(2)[OF assms(1), of S "b_id b" "''edit''"] rotated by simp
  have m: "?b \<in> set (t_boards T')" using assms(2) by (force simp: up)
  have "found = map_option (share_of ''edit'') (select_one (\<lambda>c. b_id c = b_id b) (t_boards T'))"
    using rotated taken by (auto simp: rotateBoardLinkShareToken_def update_board_def Let_def up)
  then have "found = Some (share_of ''edit'' ?b)" using board_found[OF ok m] by simp
  moreover have "\<not> edit_link ?b t" using fresh by (auto simp: edit_link_def rotate_patch_def)
  moreover have "view_link ?b t = view_link b t" by (simp add: view_link_def rotate_patch_def)
  ultimately show ?thesis using ok m
    by (auto simp: share_of_def rotate_patch_def intro!: bexI[of _ ?b])
qed

definition rotated_tables :: tables where
  "rotated_tables = snd (rotateBoardLinkShareToken demo_sql ''b'' ''edit'' demo_tables)"

theorem rotated_token_replaces_old_witness:
  "fst (rotateBoardLinkShareToken demo_sql ''b'' ''edit'' demo_tables) =
     Inr (Some \<lparr>ls_enabled = False, ls_permission = ''edit'', ls_token = Some ''token''\<rparr>)"
proof -
  have r: "rotateBoardLinkShareToken demo_sql (b_id (demo_board ''b'')) ''edit'' demo_tables =
      (Inr (Some (share_of ''edit'' (rotate_patch demo_sql ''edit'' (demo_board ''b'')))), rotated_tables)"
    by (simp add: rotated_tables_def rotateBoardLinkShareToken_def update_board_def token_taken_def Let_def
      demo_tables_def demo_board_def update_rows_def select_one_def rotate_patch_def)
  have "demo_board ''b'' \<in> set (t_boards demo_tables)" by (simp add: demo_tables_def)
  from rotated_token_replaces_old[OF demo_tables_ok(1) this r, of None] show ?thesis
    using r by (auto simp: demo_board_def demo_sql_def generateLinkShareToken_def)
qed

end
