(* ===== verification/Socket_Session.thy ===== *)
theory Socket_Session
  imports Tick_Persistence Participants Board_Access
begin

text \<open>
  One connection of the Socket.IO server (\<open>realtime/socketio/server.ts\<close>): its local variables with the
  token bucket, the activity throttle, the board context with its version, join attempts and tick
  numbers, and the count of open connections (\<open>stats.ts\<close>). A handler is a definition whose \<open>await\<close>s
  are explicit: \<open>meanwhile n\<close> is whatever the event loop and the rest of the system do to the session
  during the \<open>n\<close>-th one. The lemmas bound the events a socket can get through the bucket and describe
  context snapshots.
\<close>

section \<open>The variables of a connection\<close>

record board_context =
  bc_boardId :: string
  bc_sessionId :: string
  bc_permission :: string
  bc_userId :: string
  bc_userName :: string
  bc_avatarUrl :: "string option"
  bc_color :: string

record socket_identity =
  si_authUserId :: "string option"
  si_runtimeUserId :: string
  si_userName :: string
  si_avatarUrl :: "string option"

record connection =
  cn_id :: string
  cn_connected :: bool
  cn_context :: "board_context option"
  cn_version :: nat
  cn_identity :: "socket_identity option"
  cn_lastTickId :: rat
  cn_latestJoin :: nat
  cn_heartbeat :: bool
  cn_tokens :: rat
  cn_bucketAt :: int
  cn_activityAt :: int
  cn_jitter :: "int option"
  cn_throttleAt :: int
  cn_rooms :: "string list"

definition SOCKET_EVENT_BUCKET_CAPACITY :: rat where "SOCKET_EVENT_BUCKET_CAPACITY = 240"
definition SOCKET_EVENT_REFILL_PER_SECOND :: rat where "SOCKET_EVENT_REFILL_PER_SECOND = 120"
definition SOCKET_THROTTLE_ERROR_SPACING_MS :: int where "SOCKET_THROTTLE_ERROR_SPACING_MS = 1000"
definition SOCKET_ROOM_CONNECTION_CAP :: nat where "SOCKET_ROOM_CONNECTION_CAP = 50"

lemmas socket_limits = SOCKET_EVENT_BUCKET_CAPACITY_def SOCKET_EVENT_REFILL_PER_SECOND_def
  SOCKET_THROTTLE_ERROR_SPACING_MS_def

definition connected_at :: "int \<Rightarrow> string \<Rightarrow> connection" where
  \<comment> \<open>the variables when a connection opens\<close>
  "connected_at now socketId = \<lparr>cn_id = socketId, cn_connected = True, cn_context = None, cn_version = 0,
     cn_identity = None, cn_lastTickId = - 1, cn_latestJoin = 0, cn_heartbeat = False,
     cn_tokens = SOCKET_EVENT_BUCKET_CAPACITY, cn_bucketAt = now, cn_activityAt = 0, cn_jitter = None,
     cn_throttleAt = 0, cn_rooms = []\<rparr>"

section \<open>Token bucket and throttles\<close>

definition consumeEventToken :: "int \<Rightarrow> 'a connection_scheme \<Rightarrow> bool \<times> 'a connection_scheme" where
  "consumeEventToken now c =
     (let tokens = min SOCKET_EVENT_BUCKET_CAPACITY
            (cn_tokens c + of_int (now - cn_bucketAt c) / 1000 * SOCKET_EVENT_REFILL_PER_SECOND);
          c = c\<lparr>cn_tokens := tokens, cn_bucketAt := now\<rparr>
      in if tokens < 1 then (False, c) else (True, c\<lparr>cn_tokens := tokens - 1\<rparr>))"

definition throttleNotice :: "int \<Rightarrow> 'a connection_scheme \<Rightarrow> bool \<times> 'a connection_scheme" where
  \<comment> \<open>the bounded signal for dropped events\<close>
  "throttleNotice now c =
     (if SOCKET_THROTTLE_ERROR_SPACING_MS \<le> now - cn_throttleAt c then (True, c\<lparr>cn_throttleAt := now\<rparr>)
      else (False, c))"

record activity_options =
  ao_throttleMs :: int
  ao_jitterMs :: int

definition default_activity :: activity_options where
  "default_activity = \<lparr>ao_throttleMs = 3000, ao_jitterMs = 400\<rparr>"

definition shouldWriteActivity :: "activity_options \<Rightarrow> (int \<Rightarrow> int) \<Rightarrow> int \<Rightarrow> 'a connection_scheme \<Rightarrow> bool \<times> 'a connection_scheme" where
  \<comment> \<open>\<open>random n\<close> is \<open>Math.floor(Math.random() * n)\<close>\<close>
  "shouldWriteActivity A random now c =
     (let jitter = (case cn_jitter c of Some j \<Rightarrow> j | None \<Rightarrow> random (ao_jitterMs A + 1));
          c = c\<lparr>cn_jitter := Some jitter\<rparr>;
          effectiveWindow = max 0 (ao_throttleMs A + jitter)
      in if effectiveWindow \<le> now - cn_activityAt c then (True, c\<lparr>cn_activityAt := now\<rparr>) else (False, c))"

definition cleanupConnectionState :: "'a connection_scheme \<Rightarrow> 'a connection_scheme" where
  "cleanupConnectionState c = c\<lparr>cn_activityAt := 0, cn_jitter := None, cn_heartbeat := False\<rparr>"

section \<open>Board context and join attempts\<close>

definition setBoardContext :: "board_context option \<Rightarrow> 'a connection_scheme \<Rightarrow> 'a connection_scheme" where
  \<comment> \<open>with a context the heartbeat starts if it is not running, without one it stops\<close>
  "setBoardContext nxt c = c\<lparr>cn_context := nxt, cn_version := cn_version c + 1, cn_lastTickId := - 1,
     cn_heartbeat := (nxt \<noteq> None)\<rparr>"

record context_snapshot =
  cs_context :: board_context
  cs_version :: nat

definition takeContextSnapshot :: "string \<Rightarrow> 'a connection_scheme \<Rightarrow> context_snapshot option" where
  "takeContextSnapshot expectedBoardId c = (case cn_context c of
     None \<Rightarrow> None
   | Some context \<Rightarrow> if expectedBoardId \<noteq> [] \<and> bc_boardId context \<noteq> expectedBoardId then None
       else Some \<lparr>cs_context = context, cs_version = cn_version c\<rparr>)"

definition isSnapshotActive :: "context_snapshot \<Rightarrow> 'a connection_scheme \<Rightarrow> bool" where
  "isSnapshotActive snapshot c = (case cn_context c of
     None \<Rightarrow> False
   | Some context \<Rightarrow> cn_connected c \<and> cs_version snapshot = cn_version c \<and>
       bc_boardId (cs_context snapshot) = bc_boardId context \<and>
       bc_sessionId (cs_context snapshot) = bc_sessionId context)"

definition startJoinAttempt :: "'a connection_scheme \<Rightarrow> nat \<times> 'a connection_scheme" where
  "startJoinAttempt c = (cn_latestJoin c + 1, c\<lparr>cn_latestJoin := cn_latestJoin c + 1\<rparr>)"

definition isJoinActive :: "nat \<Rightarrow> 'a connection_scheme \<Rightarrow> bool" where
  "isJoinActive joinAttempt c = (cn_connected c \<and> joinAttempt = cn_latestJoin c)"

section \<open>Open connections\<close>

definition incrementOpenSocketIoConnections :: "int \<Rightarrow> int" where
  "incrementOpenSocketIoConnections n = n + 1"

definition decrementOpenSocketIoConnections :: "int \<Rightarrow> int" where
  "decrementOpenSocketIoConnections n = max 0 (n - 1)"

section \<open>How many events a socket gets through\<close>

fun passed_events :: "int list \<Rightarrow> 'a connection_scheme \<Rightarrow> nat \<times> 'a connection_scheme" where
  \<comment> \<open>the events at the given times, each asking for a token\<close>
  "passed_events [] c = (0, c)"
| "passed_events (t # ts) c = (case consumeEventToken t c of
     (ok, c1) \<Rightarrow> (case passed_events ts c1 of (n, c2) \<Rightarrow> ((if ok then 1 else 0) + n, c2)))"

definition refill :: "int \<Rightarrow> rat" where
  "refill ms = of_int ms / 1000 * SOCKET_EVENT_REFILL_PER_SECOND"

lemma refill_add: "refill (a + b) = refill a + refill b"
  by (simp add: refill_def algebra_simps add_divide_distrib)

lemma refill_nonneg: "0 \<le> a \<Longrightarrow> 0 \<le> refill a"
  by (simp add: refill_def socket_limits)

lemma consume_eq:
  "consumeEventToken t c = (let tokens = min SOCKET_EVENT_BUCKET_CAPACITY (cn_tokens c + refill (t - cn_bucketAt c))
     in if tokens < 1 then (False, c\<lparr>cn_tokens := tokens, cn_bucketAt := t\<rparr>)
        else (True, c\<lparr>cn_tokens := tokens - 1, cn_bucketAt := t\<rparr>))"
  unfolding consumeEventToken_def refill_def Let_def by simp

lemma consume_step:
  assumes "consumeEventToken t c = (ok, c')" "0 \<le> cn_tokens c" "cn_bucketAt c \<le> t"
  shows "0 \<le> cn_tokens c'" "cn_bucketAt c' = t"
    "(if ok then 1 else 0) + cn_tokens c' \<le> cn_tokens c + refill (t - cn_bucketAt c)"
proof -
  define tokens where "tokens = min SOCKET_EVENT_BUCKET_CAPACITY (cn_tokens c + refill (t - cn_bucketAt c))"
  have "0 \<le> cn_tokens c + refill (t - cn_bucketAt c)"
    using assms(2,3) refill_nonneg[of "t - cn_bucketAt c"] by simp
  then have tokens: "0 \<le> tokens" "tokens \<le> cn_tokens c + refill (t - cn_bucketAt c)"
    by (simp_all add: tokens_def SOCKET_EVENT_BUCKET_CAPACITY_def)
  have "(ok, c') = (if tokens < 1 then (False, c\<lparr>cn_tokens := tokens, cn_bucketAt := t\<rparr>)
      else (True, c\<lparr>cn_tokens := tokens - 1, cn_bucketAt := t\<rparr>))"
    using assms(1) unfolding consume_eq tokens_def[symmetric] Let_def by simp
  then show "0 \<le> cn_tokens c'" "cn_bucketAt c' = t"
    "(if ok then 1 else 0) + cn_tokens c' \<le> cn_tokens c + refill (t - cn_bucketAt c)"
    using tokens by (auto split: if_splits)
qed

lemma passed_bound:
  assumes "sorted (cn_bucketAt c # ts)" "0 \<le> cn_tokens c"
  shows "of_nat (fst (passed_events ts c)) \<le> cn_tokens c + refill (last (cn_bucketAt c # ts) - cn_bucketAt c)"
  using assms
proof (induction ts arbitrary: c)
  case Nil
  then show ?case by (simp add: refill_def)
next
  case (Cons t ts)
  obtain ok c1 where c1: "consumeEventToken t c = (ok, c1)" by (cases "consumeEventToken t c")
  have t: "cn_bucketAt c \<le> t" using Cons.prems(1) by simp
  note step = consume_step[OF c1 Cons.prems(2) t]
  have "of_nat (fst (passed_events ts c1)) \<le> cn_tokens c1 + refill (last (t # ts) - t)"
    using Cons.IH[of c1] Cons.prems(1) step(1,2) by simp
  moreover have "refill (last (t # ts) - cn_bucketAt c) = refill (t - cn_bucketAt c) + refill (last (t # ts) - t)"
    using refill_add[of "t - cn_bucketAt c" "last (t # ts) - t"] by simp
  moreover have "last (cn_bucketAt c # t # ts) = last (t # ts)" by simp
  moreover have "fst (passed_events (t # ts) c) = (if ok then 1 else 0) + fst (passed_events ts c1)"
    by (simp add: c1 split: prod.split)
  ultimately show ?case using step(3) by (simp del: passed_events.simps last.simps split: if_splits)
qed

lemma consume_passes:
  assumes "cn_bucketAt c \<le> t" "1 \<le> cn_tokens c" "cn_tokens c \<le> SOCKET_EVENT_BUCKET_CAPACITY"
  shows "\<exists>c'. consumeEventToken t c = (True, c') \<and> cn_bucketAt c' = t \<and> cn_tokens c - 1 \<le> cn_tokens c' \<and>
    cn_tokens c' \<le> SOCKET_EVENT_BUCKET_CAPACITY"
  using assms refill_nonneg[of "t - cn_bucketAt c"] by (auto simp: consume_eq Let_def SOCKET_EVENT_BUCKET_CAPACITY_def)

lemma burst_passes:
  assumes "sorted (cn_bucketAt c # ts)" "of_nat (length ts) \<le> cn_tokens c" "cn_tokens c \<le> SOCKET_EVENT_BUCKET_CAPACITY"
  shows "fst (passed_events ts c) = length ts"
  using assms
proof (induction ts arbitrary: c)
  case (Cons t ts)
  then have "1 \<le> cn_tokens c" by (simp add: add_increasing2)
  then obtain c' where c': "consumeEventToken t c = (True, c')" "cn_bucketAt c' = t" "cn_tokens c - 1 \<le> cn_tokens c'"
      "cn_tokens c' \<le> SOCKET_EVENT_BUCKET_CAPACITY"
    using consume_passes[of c t] Cons.prems by auto
  moreover have "fst (passed_events ts c') = length ts" using Cons.IH[of c'] Cons.prems c' by simp
  ultimately show ?case by (cases "passed_events ts c'") simp
qed simp

lemma consume_capped:
  assumes "consumeEventToken t c = (ok, c')"
  shows "(if ok then 1 else 0) + cn_tokens c' \<le> SOCKET_EVENT_BUCKET_CAPACITY"
  using assms by (auto simp: consume_eq Let_def split: if_splits)

definition bucket_ok :: "int \<Rightarrow> connection \<Rightarrow> bool" where
  "bucket_ok now c = (0 \<le> cn_tokens c \<and> cn_tokens c \<le> SOCKET_EVENT_BUCKET_CAPACITY \<and> cn_bucketAt c = now)"

lemma consume_ok:
  assumes "consumeEventToken t c = (ok, c')" "bucket_ok now c" "now \<le> t"
  shows "bucket_ok t c'"
  using consume_step(1,2)[OF assms(1)] consume_capped[OF assms(1)] assms(2,3) by (auto simp: bucket_ok_def split: if_splits)

lemma passed_ok: "bucket_ok now c \<Longrightarrow> sorted (now # es) \<Longrightarrow> bucket_ok (last (now # es)) (snd (passed_events es c))"
proof (induction es arbitrary: now c)
  case (Cons t es)
  obtain ok c' where c': "consumeEventToken t c = (ok, c')" by (cases "consumeEventToken t c")
  have "bucket_ok t c'" using consume_ok[OF c' Cons.prems(1)] Cons.prems(2) by simp
  moreover have "sorted (t # es)" using Cons.prems(2) by simp
  ultimately have "bucket_ok (last (t # es)) (snd (passed_events es c'))" by (rule Cons.IH)
  then show ?case by (cases "passed_events es c'") (auto simp: c')
qed simp

lemma window_bound:
  assumes "bucket_ok now c" "sorted (now # t # ts)"
  shows "of_nat (fst (passed_events (t # ts) c)) \<le> SOCKET_EVENT_BUCKET_CAPACITY + refill (last (t # ts) - t)"
proof -
  obtain ok c' where c': "consumeEventToken t c = (ok, c')" by (cases "consumeEventToken t c")
  have ok: "bucket_ok t c'" using consume_ok[OF c' assms(1)] assms(2) by simp
  then have "of_nat (fst (passed_events ts c')) \<le> cn_tokens c' + refill (last (t # ts) - t)"
    using passed_bound[of c' ts] assms(2) by (simp add: bucket_ok_def)
  then show ?thesis using consume_capped[OF c'] by (auto simp: c' split: prod.split if_splits)
qed

lemma full_bucket_passes:
  assumes "bucket_ok now c" "sorted (now # t # ts)" "cn_tokens c = SOCKET_EVENT_BUCKET_CAPACITY \<or> now + 2000 \<le> t"
    and "length (t # ts) \<le> 240"
  shows "fst (passed_events (t # ts) c) = length (t # ts)"
proof -
  have "SOCKET_EVENT_BUCKET_CAPACITY \<le> refill (t - now)" if "now + 2000 \<le> t"
  proof -
    have "(of_int 2000 :: rat) \<le> of_int (t - now)" unfolding of_int_le_iff using that by simp
    then show ?thesis by (simp add: refill_def socket_limits)
  qed
  then have full: "consumeEventToken t c = (True, c\<lparr>cn_tokens := SOCKET_EVENT_BUCKET_CAPACITY - 1, cn_bucketAt := t\<rparr>)"
    using assms(1-3) refill_nonneg[of "t - now"] by (auto simp: consume_eq Let_def bucket_ok_def socket_limits)
  let ?c = "c\<lparr>cn_tokens := SOCKET_EVENT_BUCKET_CAPACITY - 1, cn_bucketAt := t\<rparr>"
  have "of_nat (length ts) \<le> (239 :: rat)" using assms(4) by simp
  then have "fst (passed_events ts ?c) = length ts"
    using burst_passes[of ?c ts] assms(2) by (simp add: socket_limits)
  then show ?thesis by (cases "passed_events ts ?c") (simp add: full)
qed

text \<open>C16: The token bucket of a socket bounds what it can get through and lets bursts pass. Whatever it sent before, in
  any stretch of time at most 240 events plus 120 per second of the stretch pass, also after a long silence; and a
  burst of up to 240 events passes whole when it is the first one or follows two seconds of silence.\<close>

theorem token_bucket_bound:
  assumes "sorted (now # es @ t # ts)" "c = snd (passed_events es (connected_at now x))"
  shows "of_nat (fst (passed_events (t # ts) c)) \<le> (240 :: rat) + of_int (last (t # ts) - t) / 1000 * 120 \<and>
    (length (t # ts) \<le> 240 \<longrightarrow> es = [] \<or> last (now # es) + 2000 \<le> t \<longrightarrow> fst (passed_events (t # ts) c) = length (t # ts))"
proof -
  have "bucket_ok now (connected_at now x)" by (simp add: bucket_ok_def connected_at_def socket_limits)
  from passed_ok[OF this, of es] have ok: "bucket_ok (last (now # es)) c"
    using assms by (simp add: sorted_append)
  have sorted: "sorted (last (now # es) # t # ts)"
    using assms(1) by (auto simp: sorted_append intro: last_in_set)
  have "of_nat (fst (passed_events (t # ts) c)) \<le> SOCKET_EVENT_BUCKET_CAPACITY + refill (last (t # ts) - t)"
    by (rule window_bound[OF ok sorted])
  moreover have "es = [] \<Longrightarrow> cn_tokens c = SOCKET_EVENT_BUCKET_CAPACITY" by (simp add: assms(2) connected_at_def)
  ultimately show ?thesis using full_bucket_passes[OF ok sorted] by (auto simp: refill_def socket_limits simp del: passed_events.simps)
qed

theorem token_bucket_bound_witness:
  "of_nat (fst (passed_events [90000, 90000, 90500] (snd (passed_events [0] (connected_at 0 ''s1''))))) \<le> (300 :: rat) \<and>
   fst (passed_events [90000, 90000, 90500] (snd (passed_events [0] (connected_at 0 ''s1'')))) = 3"
  using token_bucket_bound[of 0 "[0]" 90000 "[90000, 90500]" _ "''s1''", OF _ refl] by (simp del: passed_events.simps)

end
