(* ===== verification/Heartbeat.thy ===== *)
theory Heartbeat
  imports Participants Socket_Session
begin

text \<open>
  The heartbeat of a socket in a room (\<open>realtime/socketio/server.ts\<close>): an interval that renews the entry
  of the socket in the registry of \<open>Participants\<close> while it has a board and is connected. A beat may miss
  (Redis is not reached, the rejection is caught) and a timer may be late. The lemmas show how many beats
  may miss in a row before the socket drops out of its room, and what happens after that.
\<close>

definition DEFAULT_PARTICIPANT_HEARTBEAT_MS :: int where
  "DEFAULT_PARTICIPANT_HEARTBEAT_MS = 30000"

lemmas heartbeat_times = DEFAULT_PARTICIPANT_HEARTBEAT_MS_def DEFAULT_PARTICIPANT_TTL_MS_def

record 'w beating =
  bt_conn :: connection
  bt_timer :: "int option"
    \<comment> \<open>\<open>participantHeartbeat\<close>: when the interval is due next\<close>
  bt_world :: 'w

section \<open>The timer\<close>

definition startParticipantHeartbeat :: "int \<Rightarrow> int option \<Rightarrow> int option" where
  "startParticipantHeartbeat now timer = (case timer of Some t \<Rightarrow> Some t | None \<Rightarrow> Some (now + DEFAULT_PARTICIPANT_HEARTBEAT_MS))"

definition stopParticipantHeartbeat :: "int option \<Rightarrow> int option" where
  "stopParticipantHeartbeat timer = None"

definition switch_board :: "'w env \<Rightarrow> board_context option \<Rightarrow> 'w beating \<Rightarrow> 'w beating" where
  \<comment> \<open>\<open>setBoardContext\<close> with its timer\<close>
  "switch_board E nxt s = s\<lparr>bt_conn := setBoardContext nxt (bt_conn s),
     bt_timer := (if nxt = None then stopParticipantHeartbeat (bt_timer s)
       else startParticipantHeartbeat (e_now E (bt_world s)) (bt_timer s))\<rparr>"

definition participant_beat :: "'w env \<Rightarrow> participants_options \<Rightarrow> bool \<Rightarrow> 'w beating \<Rightarrow> 'w beating" where
  \<comment> \<open>the callback of the interval, which is due again after it; \<open>reached\<close>: \<open>touchParticipant\<close> is not rejected\<close>
  "participant_beat E P reached s =
     (let s = s\<lparr>bt_timer := Some (e_now E (bt_world s) + DEFAULT_PARTICIPANT_HEARTBEAT_MS)\<rparr> in
      case cn_context (bt_conn s) of
        Some context \<Rightarrow> if cn_connected (bt_conn s) \<and> reached
          then s\<lparr>bt_world := touchParticipant E P (bc_boardId context) (cn_id (bt_conn s)) (bt_world s)\<rparr> else s
      | None \<Rightarrow> s\<lparr>bt_timer := stopParticipantHeartbeat (bt_timer s)\<rparr>)"

lemma switch_keeps_timer: "(bt_timer s \<noteq> None) = cn_heartbeat (bt_conn s) \<Longrightarrow>
    (bt_timer (switch_board E nxt s) \<noteq> None) = cn_heartbeat (bt_conn (switch_board E nxt s))"
  by (simp add: switch_board_def setBoardContext_def startParticipantHeartbeat_def stopParticipantHeartbeat_def split: option.split)

section \<open>Runs of a room\<close>

text \<open>
  What happens to a room while one of its sockets stays: time passes, at most \<open>late\<close> past the timer; the
  timer fires and its beat gets through or misses; any replica prunes the room; other sockets come, go
  and send heartbeats. The number counts the beats missed in a row, at most \<open>tolerated\<close>.
\<close>

inductive room_run :: "'w env \<Rightarrow> ('w \<Rightarrow> rview) \<Rightarrow> participants_options \<Rightarrow> string \<Rightarrow> int \<Rightarrow> nat \<Rightarrow>
    'w beating \<times> nat \<Rightarrow> 'w beating \<times> nat \<Rightarrow> bool"
  for E :: "'w env" and view P b late tolerated where
  stay: "room_run E view P b late tolerated s s"
| time: "room_run E view P b late tolerated s0 (s, m) \<Longrightarrow> bt_timer s = Some t \<Longrightarrow> 0 \<le> d \<Longrightarrow>
    view w = elapse d (view (bt_world s)) \<Longrightarrow> v_now (view w) \<le> t + late \<Longrightarrow>
    room_run E view P b late tolerated s0 (s\<lparr>bt_world := w\<rparr>, m)"
| beat: "room_run E view P b late tolerated s0 (s, m) \<Longrightarrow> bt_timer s = Some t \<Longrightarrow> t \<le> v_now (view (bt_world s)) \<Longrightarrow>
    room_run E view P b late tolerated s0 (participant_beat E P True s, 0)"
| miss: "room_run E view P b late tolerated s0 (s, m) \<Longrightarrow> bt_timer s = Some t \<Longrightarrow> t \<le> v_now (view (bt_world s)) \<Longrightarrow> m < tolerated \<Longrightarrow>
    room_run E view P b late tolerated s0 (participant_beat E P False s, Suc m)"
| prune: "room_run E view P b late tolerated s0 (s, m) \<Longrightarrow>
    room_run E view P b late tolerated s0 (s\<lparr>bt_world := pruneExpired E P b (bt_world s)\<rparr>, m)"
| come: "room_run E view P b late tolerated s0 (s, m) \<Longrightarrow> x \<noteq> cn_id (bt_conn s) \<Longrightarrow>
    room_run E view P b late tolerated s0 (s\<lparr>bt_world := snd (admitParticipant E P b x p cap (bt_world s))\<rparr>, m)"
| go: "room_run E view P b late tolerated s0 (s, m) \<Longrightarrow> x \<noteq> cn_id (bt_conn s) \<Longrightarrow>
    room_run E view P b late tolerated s0 (s\<lparr>bt_world := snd (removeParticipant E P b x (bt_world s))\<rparr>, m)"
| other: "room_run E view P b late tolerated s0 (s, m) \<Longrightarrow> x \<noteq> cn_id (bt_conn s) \<Longrightarrow>
    room_run E view P b late tolerated s0 (s\<lparr>bt_world := touchParticipant E P b x (bt_world s)\<rparr>, m)"

definition in_room :: "string \<Rightarrow> 'w beating \<Rightarrow> bool" where
  "in_room b s = (cn_connected (bt_conn s) \<and> (\<exists>c. cn_context (bt_conn s) = Some c \<and> bc_boardId c = b))"

definition renewed_until :: "('w \<Rightarrow> rview) \<Rightarrow> participants_options \<Rightarrow> string \<Rightarrow> int \<Rightarrow> 'w beating \<Rightarrow> bool" where
  \<comment> \<open>the entry of the socket is there and does not expire before\<close>
  "renewed_until view P b t s = (cn_id (bt_conn s) \<in> registered P b (view (bt_world s)) \<and>
     (case expiry_of P b (view (bt_world s)) (cn_id (bt_conn s)) of None \<Rightarrow> True | Some e \<Rightarrow> t < e))"

definition safe_after :: "('w \<Rightarrow> rview) \<Rightarrow> participants_options \<Rightarrow> string \<Rightarrow> int \<Rightarrow> nat \<Rightarrow> 'w beating \<Rightarrow> nat \<Rightarrow> bool" where
  \<comment> \<open>the next beat is due, and there is time for those that may still miss\<close>
  "safe_after view P b late tolerated s m = (in_room b s \<and> m \<le> tolerated \<and>
     (\<exists>t. bt_timer s = Some t \<and> v_now (view (bt_world s)) \<le> t + late \<and>
        renewed_until view P b (t + late + (int tolerated - int m) * (DEFAULT_PARTICIPANT_HEARTBEAT_MS + late)) s))"

lemma safe_now: "safe_after view P b late tolerated s m \<Longrightarrow> 0 \<le> late \<Longrightarrow> live_participant P b (view (bt_world s)) (cn_id (bt_conn s))"
proof -
  assume safe: "safe_after view P b late tolerated s m" and late: "0 \<le> late"
  then obtain t where t: "v_now (view (bt_world s)) \<le> t + late" "m \<le> tolerated"
    "renewed_until view P b (t + late + (int tolerated - int m) * (DEFAULT_PARTICIPANT_HEARTBEAT_MS + late)) s"
    by (auto simp: safe_after_def)
  have "0 \<le> (int tolerated - int m) * (DEFAULT_PARTICIPANT_HEARTBEAT_MS + late)"
    using t(2) late by (simp add: heartbeat_times)
  with t(1,3) show ?thesis by (auto simp: renewed_until_def live_participant_def split: option.splits)
qed

context redis_client
begin

lemma writes_keep_now [simp]:
  "v_now (view (touchParticipant E P b x w)) = v_now (view w)"
  "v_now (view (pruneExpired E P b w)) = v_now (view w)"
  "v_now (view (snd (admitParticipant E P b x p cap w))) = v_now (view w)"
  "v_now (view (snd (removeParticipant E P b x w))) = v_now (view w)"
  by (simp_all add: touchParticipant_def pruneExpired_def prune_delete_view admitParticipant_def setParticipant_def removeParticipant_def
      written split: option.split)

lemma others_keep_expiry:
  assumes "x \<noteq> y"
  shows "expiry_of P b (view (touchParticipant E P b x w)) y = expiry_of P b (view w) y"
    "expiry_of P b (view (snd (admitParticipant E P b x p cap w))) y = expiry_of P b (view w) y"
    "expiry_of P b (view (snd (removeParticipant E P b x w))) y = expiry_of P b (view w) y"
  using assms
  by (simp_all add: expiry_touch admitParticipant_def setParticipant_view)
    (simp add: removeParticipant_def written expiry_of_def split: option.split)

lemma live_survives_prune:
  assumes "live_participant P b (view w) x"
  shows "x \<in> registered P b (view (pruneExpired E P b w))"
    "expiry_of P b (view (pruneExpired E P b w)) x = expiry_of P b (view w) x"
proof -
  have "x \<notin> set (prune_read E P b w)"
    using assms prune_read_expired[of P b w] by (fastforce simp: live_participant_def expired_sockets_def)
  then show "x \<in> registered P b (view (pruneExpired E P b w))"
    "expiry_of P b (view (pruneExpired E P b w)) x = expiry_of P b (view w) x"
    using assms by (auto simp: live_participant_def registered_prune_delete pruneExpired_def prune_delete_view)
qed

lemma others_keep_safe:
  assumes safe: "safe_after view P b late tolerated s m"
    and w: "cn_id (bt_conn s) \<in> registered P b (view w)" "v_now (view w) = v_now (view (bt_world s))"
      "expiry_of P b (view w) (cn_id (bt_conn s)) = expiry_of P b (view (bt_world s)) (cn_id (bt_conn s))"
  shows "safe_after view P b late tolerated (s\<lparr>bt_world := w\<rparr>) m"
  using safe w by (auto simp: safe_after_def in_room_def renewed_until_def)

lemma beat_safe:
  assumes safe: "safe_after view P b late tolerated s m" and late: "0 \<le> late"
    and spare: "DEFAULT_PARTICIPANT_HEARTBEAT_MS + late + int tolerated * (DEFAULT_PARTICIPANT_HEARTBEAT_MS + late) < po_ttlMs P"
  shows "safe_after view P b late tolerated (participant_beat E P True s) 0"
proof -
  obtain c where c: "cn_context (bt_conn s) = Some c" "bc_boardId c = b" "cn_connected (bt_conn s)"
    using safe by (auto simp: safe_after_def in_room_def)
  have "cn_id (bt_conn s) \<in> registered P b (view (bt_world s))"
    using safe by (auto simp: safe_after_def renewed_until_def)
  then show ?thesis
    using c late spare
    by (auto simp: safe_after_def in_room_def renewed_until_def participant_beat_def Let_def registered_touch expiry_touch now heartbeat_times split: option.split)
qed

lemma miss_safe:
  assumes safe: "safe_after view P b late tolerated s m" and "m < tolerated"
    and t: "bt_timer s = Some t" "t \<le> v_now (view (bt_world s))" and late: "0 \<le> late"
  shows "safe_after view P b late tolerated (participant_beat E P False s) (Suc m)"
proof -
  let ?H = "DEFAULT_PARTICIPANT_HEARTBEAT_MS" and ?now = "v_now (view (bt_world s))"
  obtain c where c: "cn_context (bt_conn s) = Some c" "bc_boardId c = b" "cn_connected (bt_conn s)"
    using safe by (auto simp: safe_after_def in_room_def)
  have until: "renewed_until view P b (t + late + (int tolerated - int m) * (?H + late)) s" "?now \<le> t + late"
    using safe t(1) by (auto simp: safe_after_def)
  have "?now + ?H + late + (int tolerated - int (Suc m)) * (?H + late) \<le> t + late + (int tolerated - int m) * (?H + late)"
    using until(2) by (simp add: algebra_simps)
  then have "renewed_until view P b (?now + ?H + late + (int tolerated - int (Suc m)) * (?H + late)) s"
    using until(1) unfolding renewed_until_def by (cases "expiry_of P b (view (bt_world s)) (cn_id (bt_conn s))") auto
  then show ?thesis
    using c \<open>m < tolerated\<close> late
    by (auto simp: safe_after_def in_room_def renewed_until_def participant_beat_def Let_def now heartbeat_times split: option.splits)
qed

lemma run_safe:
  assumes late: "0 \<le> late"
    and spare: "DEFAULT_PARTICIPANT_HEARTBEAT_MS + late + int tolerated * (DEFAULT_PARTICIPANT_HEARTBEAT_MS + late) < po_ttlMs P"
    and run: "room_run E view P b late tolerated s0 s1"
  shows "safe_after view P b late tolerated (fst s0) (snd s0) \<Longrightarrow> safe_after view P b late tolerated (fst s1) (snd s1)"
  using run
proof (induction rule: room_run.induct)
  case (time s0 s m t d w)
  have "safe_after view P b late tolerated s m" using time by simp
  then show ?case using time(2-5) by (auto simp: safe_after_def in_room_def renewed_until_def registered_def expiry_of_def)
next
  case (beat s0 s m t)
  then show ?case using beat_safe[OF _ late spare] by auto
next
  case (miss s0 s m t)
  then show ?case using miss_safe[OF _ _ _ _ late] by auto
next
  case (prune s0 s m)
  have safe: "safe_after view P b late tolerated s m" using prune by simp
  then show ?case using others_keep_safe[OF safe] live_survives_prune[OF safe_now[OF safe late]] by simp
next
  case (come s0 s m x p cap)
  have safe: "safe_after view P b late tolerated s m" using come by simp
  then have "cn_id (bt_conn s) \<in> registered P b (view (bt_world s))" by (auto simp: safe_after_def renewed_until_def)
  then show ?case using others_keep_safe[OF safe] others_keep_expiry(2)[OF come(2)] by (simp add: admit_registered)
next
  case (go s0 s m x)
  have safe: "safe_after view P b late tolerated s m" using go by simp
  then have "cn_id (bt_conn s) \<in> registered P b (view (bt_world s))" by (auto simp: safe_after_def renewed_until_def)
  then show ?case using others_keep_safe[OF safe] others_keep_expiry(3)[OF go(2)] go(2) by (simp add: remove_registered)
next
  case (other s0 s m x)
  have safe: "safe_after view P b late tolerated s m" using other by simp
  then have "cn_id (bt_conn s) \<in> registered P b (view (bt_world s))" by (auto simp: safe_after_def renewed_until_def)
  then show ?case using others_keep_safe[OF safe] others_keep_expiry(1)[OF other(2)] by (simp add: registered_touch)
qed simp

end

section \<open>Properties\<close>


definition after :: "'w \<Rightarrow> 'w env \<Rightarrow> participants_options \<Rightarrow> 'w beating \<Rightarrow> 'w beating" where
  \<comment> \<open>the world has moved on and the beat misses\<close>
  "after w E P s = participant_beat E P False (s\<lparr>bt_world := w\<rparr>)"

text \<open>Two missed beats are one too many: the next is due at the instant the entry expires, so a prune by any replica
  comes first and the socket, connected and with its board set, is out of the room; the beat does not bring it back.\<close>

theorem two_missed_beats_lose_the_room:
  assumes "redis_client E view" "po_ttlMs P = DEFAULT_PARTICIPANT_TTL_MS" "in_room b s"
    and "cn_id (bt_conn s) \<in> registered P b (view (bt_world s))"
    and "expiry_of P b (view (bt_world s)) (cn_id (bt_conn s)) = Some (v_now (view (bt_world s)) + po_ttlMs P)"
    and "view w1 = elapse DEFAULT_PARTICIPANT_HEARTBEAT_MS (view (bt_world s))" "view w2 = elapse DEFAULT_PARTICIPANT_HEARTBEAT_MS (view w1)"
    and "view w3 = elapse DEFAULT_PARTICIPANT_HEARTBEAT_MS (view w2)" "card (expired_sockets P b (view w3)) \<le> 200"
    and s2: "s2 = after w2 E P (after w1 E P s)" and s3: "s3 = s2\<lparr>bt_world := pruneExpired E P b w3\<rparr>"
  shows "in_room b s3 \<and> bt_timer s3 = Some (v_now (view (bt_world s3))) \<and>
    cn_id (bt_conn s) \<notin> registered P b (view (bt_world s3)) \<and>
    cn_id (bt_conn s) \<notin> registered P b (view (bt_world (participant_beat E P True s3)))"
proof -
  note laws = redis_client.now[OF assms(1)] redis_client.writes_keep_now[OF assms(1)]
  obtain c where c: "cn_context (bt_conn s) = Some c" "bc_boardId c = b" "cn_connected (bt_conn s)"
    using assms(3) by (auto simp: in_room_def)
  have states: "bt_conn s3 = bt_conn s" "bt_world s3 = pruneExpired E P b w3"
    "bt_timer s3 = Some (v_now (view w2) + DEFAULT_PARTICIPANT_HEARTBEAT_MS)"
    using c by (simp_all add: s2 s3 after_def participant_beat_def Let_def laws)
  have "expiry_of P b (view w3) (cn_id (bt_conn s)) = Some (v_now (view w3))"
    using assms(2,5-8) by (simp add: expiry_of_def heartbeat_times)
  then have "\<not> live_participant P b (view w3) (cn_id (bt_conn s))"
    by (simp add: live_participant_def)
  then have out: "cn_id (bt_conn s) \<notin> registered P b (view (pruneExpired E P b w3))"
    using redis_client.pruned_live[OF assms(1,9)] by simp
  show ?thesis
    using c out states assms(8) by (simp add: in_room_def laws participant_beat_def Let_def redis_client.registered_touch[OF assms(1)])
qed

section \<open>Witnesses\<close>

definition seated :: "mem beating" where
  "seated = \<lparr>bt_conn = setBoardContext (Some \<lparr>bc_boardId = ''b'', bc_sessionId = ''v'', bc_permission = ''edit'', bc_userId = ''u'',
      bc_userName = ''U'', bc_avatarUrl = None, bc_color = ''red''\<rparr>) (connected_at 0 ''s1''),
     bt_timer = Some 1030000, bt_world = one_seat_world\<rparr>"

lemma seated_facts:
  "cn_id (bt_conn seated) = ''s1''" "bt_world seated = one_seat_world" "bt_timer seated = Some 1030000" "in_room ''b'' seated"
  by (simp_all add: seated_def setBoardContext_def connected_at_def in_room_def)

lemma slept: "mem_view (e_sleep mem_env 30000 m) = elapse 30000 (mem_view m)"
  using mem_elapse[of m 30000] by (simp del: mem_view_sel)


theorem two_missed_beats_lose_the_room_witness:
  "\<exists>w. in_room ''b'' (seated\<lparr>bt_world := w\<rparr>) \<and> ''s1'' \<in> registered default_options ''b'' (mem_view (bt_world seated)) \<and>
     ''s1'' \<notin> registered default_options ''b'' (mem_view w)"
proof -
  define w1 where "w1 = e_sleep mem_env 30000 one_seat_world"
  define w2 where "w2 = e_sleep mem_env 30000 w1"
  define w3 where "w3 = e_sleep mem_env 30000 w2"
  have w: "mem_view w1 = elapse 30000 (mem_view one_seat_world)" "mem_view w2 = elapse 30000 (mem_view w1)"
    "mem_view w3 = elapse 30000 (mem_view w2)"
    by (simp_all only: w1_def w2_def w3_def slept)
  have "expired_sockets default_options ''b'' (mem_view w3) \<subseteq> {''s1''}"
    using one_seat_facts(1) by (auto simp: expired_sockets_def expiry_of_def w split: if_splits simp del: mem_view_sel)
  from card_mono[OF _ this] have few: "card (expired_sockets default_options ''b'' (mem_view w3)) \<le> 200"
    by (simp del: mem_view_sel)
  have ttl: "po_ttlMs default_options = DEFAULT_PARTICIPANT_TTL_MS" by (simp add: default_options_def)
  have entry: "cn_id (bt_conn seated) \<in> registered default_options ''b'' (mem_view (bt_world seated))"
    unfolding seated_facts one_seat_registered by simp
  have "expiry_of default_options ''b'' (mem_view (bt_world seated)) (cn_id (bt_conn seated)) =
      Some (v_now (mem_view (bt_world seated)) + po_ttlMs default_options)"
    unfolding seated_facts one_seat_facts ttl by (simp add: DEFAULT_PARTICIPANT_TTL_MS_def)
  note expiry = this
  have beats: "mem_view w1 = elapse DEFAULT_PARTICIPANT_HEARTBEAT_MS (mem_view (bt_world seated))"
    "mem_view w2 = elapse DEFAULT_PARTICIPANT_HEARTBEAT_MS (mem_view w1)" "mem_view w3 = elapse DEFAULT_PARTICIPANT_HEARTBEAT_MS (mem_view w2)"
    unfolding w seated_facts DEFAULT_PARTICIPANT_HEARTBEAT_MS_def by (rule refl)+
  have out: "''s1'' \<notin> registered default_options ''b'' (mem_view (pruneExpired mem_env default_options ''b'' w3))"
    using two_missed_beats_lose_the_room[OF mem.redis_client_axioms ttl seated_facts(4) entry expiry beats few refl refl]
    by (simp del: mem_view_sel add: seated_facts)
  have "in_room ''b'' (seated\<lparr>bt_world := pruneExpired mem_env default_options ''b'' w3\<rparr>)"
    using seated_facts(4) by (simp del: mem_view_sel add: in_room_def)
  then show ?thesis using out entry unfolding seated_facts by blast
qed

end
