(* ===== verification/Mutation_Batch.thy ===== *)
theory Mutation_Batch
  imports Mutation_Processor
begin

text \<open>
  What \<open>mutations/processor.ts\<close> guarantees: the outcome of one mutation on a loaded board, the
  cached context over a batch, the protection of locked elements and its two gaps, the immediate
  save in solo mode, and the results of a batch in the order of its mutations.
\<close>

section \<open>The board stays in good order\<close>









section \<open>Solo mode\<close>


section \<open>Batches\<close>

lemma case_result_Inr:
  "(case r of Inl err \<Rightarrow> Some (Inl err, w) | Inr a \<Rightarrow> f a) = Some (Inr x, w') \<longleftrightarrow>
   (\<exists>a. r = Inr a \<and> f a = Some (Inr x, w'))"
  by (cases r) auto

lemma mutation_result_id:
  assumes "processMutationWithContext E m ctx mode w = Some ((res, changed), w')"
  shows "mr_id res = mut_id m"
  using assms
  by (auto simp: processMutationWithContext_def applied_without_change_def bind_eq_Some_conv
      split: if_splits option.splits)

definition aligned :: "mutation list \<Rightarrow> batch_results \<Rightarrow> bool" where
  \<comment> \<open>a result that is there is the result of the mutation at its index\<close>
  "aligned ms rs = (length rs = length ms \<and>
     (\<forall>i res. i < length ms \<longrightarrow> rs ! i = Some res \<longrightarrow> mr_id res = mut_id (ms ! i)))"

definition entries_of :: "mutation list \<Rightarrow> (nat \<times> mutation) list \<Rightarrow> bool" where
  "entries_of ms es = (\<forall>i m. (i, m) \<in> set es \<longrightarrow> i < length ms \<and> m = ms ! i)"

definition filled :: "batch_results \<Rightarrow> nat set" where
  "filled rs = {i. i < length rs \<and> rs ! i \<noteq> None}"

lemma aligned_update:
  assumes "aligned ms rs" "i < length ms" "mr_id res = mut_id (ms ! i)"
  shows "aligned ms (rs[i := Some res]) \<and> filled (rs[i := Some res]) = insert i (filled rs)"
  using assms by (auto simp: aligned_def filled_def nth_list_update)

lemma run_entries_aligned:
  "run_entries E mode es ctx p rs w = Some ((p', rs'), w') \<Longrightarrow> aligned ms rs \<Longrightarrow> entries_of ms es \<Longrightarrow>
   aligned ms rs' \<and> filled rs' = fst ` set es \<union> filled rs"
proof (induction E mode es ctx p rs w arbitrary: p' rs' w' rule: run_entries.induct)
  case (1 E mode ctx p rs w)
  then show ?case by simp
next
  case (2 E mode i m es ctx p rs w)
  obtain res changed w1 where r: "processMutationWithContext E m ctx mode w = Some ((res, changed), w1)"
    "run_entries E mode es (applyPersistedChangeToContext ctx res) (p \<or> (mode = Solo \<and> changed)) (rs[i := Some res]) w1
      = Some ((p', rs'), w')"
    using 2(2) by (auto simp: bind_eq_Some_conv)
  have i: "i < length ms" "m = ms ! i" "entries_of ms es" using 2(4) by (auto simp: entries_of_def)
  have up: "aligned ms (rs[i := Some res]) \<and> filled (rs[i := Some res]) = insert i (filled rs)"
    using aligned_update[OF 2(3) i(1)] mutation_result_id[OF r(1)] i(2) by simp
  show ?case using 2(1)[OF r(1) refl refl r(2)] up i(3) by simp
qed

lemma group_task_aligned:
  assumes "group_task E cfg b es rs w = Some (Inr rs', w')" "aligned ms rs" "entries_of ms es"
  shows "aligned ms rs' \<and> filled rs' = fst ` set es \<union> filled rs"
proof -
  obtain ctx w1 mode w2 p rs1 w3 where r: "run_entries E mode es ctx False rs w2 = Some ((p, rs1), w3)" "rs1 = rs'"
    using assms(1) by (auto simp: group_task_def bind_eq_Some_conv case_result_Inr intro: that)
  show ?thesis using run_entries_aligned[OF r(1) assms(2,3)] r(2) by simp
qed

lemma with_lock_task:
  assumes "withBoardMutationLock E b task w = Some (Inr a, w')"
  shows "\<exists>w1 w2. task w1 = Some (Inr a, w2)"
  using assms by (auto simp: withBoardMutationLock_def bind_eq_Some_conv case_result_Inr)

lemma run_groups_aligned:
  "run_groups E cfg gs rs w = Some (Inr rs', w') \<Longrightarrow> aligned ms rs \<Longrightarrow> \<forall>(b, es) \<in> set gs. entries_of ms es \<Longrightarrow>
   aligned ms rs' \<and> filled rs' = (\<Union>(b, es) \<in> set gs. fst ` set es) \<union> filled rs"
proof (induction E cfg gs rs w arbitrary: rs' w' rule: run_groups.induct)
  case (1 E cfg rs w)
  then show ?case by simp
next
  case (2 E cfg b es gs rs w)
  obtain rs1 w1 where l: "withBoardMutationLock E b (group_task E cfg b es rs) w = Some (Inr rs1, w1)"
    "run_groups E cfg gs rs1 w1 = Some (Inr rs', w')"
    using 2(2) by (auto simp: bind_eq_Some_conv case_result_Inr)
  obtain w2 w3 where t: "group_task E cfg b es rs w2 = Some (Inr rs1, w3)" using with_lock_task[OF l(1)] by blast
  have a: "aligned ms rs1 \<and> filled rs1 = fst ` set es \<union> filled rs"
    using group_task_aligned[OF t 2(3)] 2(4) by simp
  show ?case using 2(1)[OF l(1) refl refl l(2)] a 2(4) by auto
qed

definition group_of :: "(string \<times> (nat \<times> mutation) list) list \<Rightarrow> string \<Rightarrow> (nat \<times> mutation) list" where
  "group_of gs b = (case js_get b gs of Some g \<Rightarrow> g | None \<Rightarrow> [])"

definition groups_ok :: "(nat \<times> mutation) list \<Rightarrow> (string \<times> (nat \<times> mutation) list) list \<Rightarrow> bool" where
  "groups_ok ps gs = (distinct (map fst gs) \<and> (\<forall>b. group_of gs b = filter (\<lambda>p. mut_board (snd p) = b) ps))"

lemma group_by_board_ok: "groups_ok (zip [0..<length ms] ms) (group_by_board ms)"
proof -
  let ?f = "\<lambda>(index, m) groups. js_put (mut_board m) (group_of groups (mut_board m) @ [(index, m)]) groups"
  have "groups_ok (qs @ ps) (fold ?f ps gs)" if "groups_ok qs gs" for ps qs gs
    using that
  proof (induction ps arbitrary: qs gs)
    case (Cons p ps)
    obtain i m where p: "p = (i, m)" by (cases p)
    have "groups_ok (qs @ [(i, m)]) (?f (i, m) gs)"
      using Cons.prems by (simp add: groups_ok_def group_of_def)
    from Cons.IH[OF this] show ?case using p by simp
  qed simp
  from this[of "[]" "[]" "zip [0..<length ms] ms"] show ?thesis
    by (simp add: group_by_board_def groups_ok_def group_of_def)
qed

lemma group_listed:
  assumes "groups_ok ps gs"
  shows "(b, es) \<in> set gs \<Longrightarrow> set es \<subseteq> set ps" and "(\<Union>(b, es) \<in> set gs. fst ` set es) = fst ` set ps"
proof -
  have get: "js_get b gs = Some es \<longleftrightarrow> (b, es) \<in> set gs" for b es
    using assms js_get_set[of gs b es] by (simp add: groups_ok_def)
  have sub: "set es \<subseteq> set ps" if "(b, es) \<in> set gs" for b es
  proof -
    have "es = group_of gs b" using get[THEN iffD2, OF that] by (simp add: group_of_def)
    then show ?thesis using assms by (simp add: groups_ok_def)
  qed
  show "(b, es) \<in> set gs \<Longrightarrow> set es \<subseteq> set ps" by (rule sub)
  have "\<exists>es. (mut_board (snd p), es) \<in> set gs \<and> p \<in> set es" if "p \<in> set ps" for p
  proof -
    have "p \<in> set (group_of gs (mut_board (snd p)))" using that assms by (simp add: groups_ok_def)
    then show ?thesis using get[of "mut_board (snd p)"]
      by (cases "js_get (mut_board (snd p)) gs") (auto simp: group_of_def)
  qed
  then have "fst ` set ps \<subseteq> (\<Union>(b, es) \<in> set gs. fst ` set es)" by fast
  moreover have "(\<Union>(b, es) \<in> set gs. fst ` set es) \<subseteq> fst ` set ps" using sub by fast
  ultimately show "(\<Union>(b, es) \<in> set gs. fst ` set es) = fst ` set ps" by simp
qed

lemma group_entries:
  assumes "(b, es) \<in> set (group_by_board ms)" shows "entries_of ms es"
  using group_listed(1)[OF group_by_board_ok assms] by (auto simp: entries_of_def set_zip)

lemma batch_aligned:
  assumes "processBatch E cfg ms w = Some (Inr rs, w')"
  shows "length rs = length ms \<and> (\<forall>i < length ms. \<exists>res. rs ! i = Some res \<and> mr_id res = mut_id (ms ! i))"
proof -
  have "aligned ms (replicate (length ms) None)" by (simp add: aligned_def)
  moreover have "filled (replicate (length ms) (None :: mutation_result option)) = {}" by (auto simp: filled_def)
  moreover have "\<forall>(b, es) \<in> set (group_by_board ms). entries_of ms es" using group_entries by fast
  ultimately have a: "aligned ms rs" "filled rs = (\<Union>(b, es) \<in> set (group_by_board ms). fst ` set es)"
    using run_groups_aligned[OF assms[unfolded processBatch_def], of ms] by simp_all
  have "fst ` set (zip [0..<length ms] ms) = {0..<length ms}" by (force simp: set_zip)
  then have "filled rs = {0..<length ms}" using a(2) group_listed(2)[OF group_by_board_ok, of ms] by simp
  then have "rs ! i \<noteq> None" if "i < length ms" for i using that by (auto simp: filled_def)
  then show ?thesis using a(1) unfolding aligned_def by fastforce
qed

section \<open>Properties\<close>

text \<open>C3: The outcome of one mutation on a loaded board, on every branch of
  \<open>processMutationWithContext\<close>. A transient move touches nothing. A mutation id that is already
  claimed changes nothing. A refused operation (locked elements, invalid reconcile) and one without
  any effect claim the id, leave the board as it is and answer with the current sequence number.
  Any other mutation claims the id, gets the next sequence number, and changes the board exactly as
  the abstract change of its change set.\<close>

theorem processMutationWithContext_outcome:
  assumes "redis_client E view" "board_at (mut_board m) n (view w)"
  shows "\<exists>res changed w'. processMutationWithContext E m ctx mode w = Some ((res, changed), w') \<and>
    mutation_outcome m ctx mode n (view w) res changed (view w') \<and>
    board_at (mut_board m) (if changed then n + 1 else n) (view w') \<and>
    v_rows (view w') = v_rows (view w) \<and> v_now (view w') = v_now (view w)"
  using assms by (rule redis_client.mutation_at)

definition move_c :: mutation where
  "move_c = \<lparr>mut_id = ''m1'', mut_board = ''b1'', mut_clientTimestamp = 0,
     mut_operation = MOVE_ELEMENTS [(''c'', 3, 4)] False\<rparr>"

lemma loaded_world_at: "board_at ''b1'' 0 (mem_view loaded_world)"
  using loaded_world_facts by (simp add: board_at_def mem.board_ready_view)

theorem processMutationWithContext_outcome_witness:
  "\<exists>res w'. processMutationWithContext mem_env move_c [(''c'', [(''id'', JStr ''c'')])] Collab loaded_world
      = Some ((res, True), w') \<and> mr_sequence res = Some 1 \<and> board_at ''b1'' 1 (mem_view w')"
proof -
  let ?ctx = "[(''c'', [(''id'', JStr ''c'')])]"
  have b: "mut_board move_c = ''b1''" by (simp add: move_c_def)
  obtain res changed w' where r: "processMutationWithContext mem_env move_c ?ctx Collab loaded_world = Some ((res, changed), w')"
    "mutation_outcome move_c ?ctx Collab 0 (mem_view loaded_world) res changed (mem_view w')"
    "board_at ''b1'' (if changed then 0 + 1 else 0) (mem_view w')"
    using processMutationWithContext_outcome[OF mem.redis_client_axioms, of move_c 0 loaded_world ?ctx Collab]
      loaded_world_at b by auto
  have "\<not> refused (mut_operation move_c) ?ctx" "\<not> nothing_to_do (toChangeSet ?ctx (mut_operation move_c))"
    "\<not> is_transient_move (mut_operation move_c)" "v_strs (mem_view loaded_world) (boardSeenKey ''b1'' ''m1'') = None"
    by (simp_all add: move_c_def refused_def element_protected_def isElementLocked_def isInsideLockedContainer_def
        parent_ids_def string_field_def isInsideManagedMeta_def nothing_to_do_def toUpsertFromCache_def
        is_transient_move_def loaded_world_def mem_str_eval key_defs)
  then have "changed \<and> mr_sequence res = Some 1"
    using r(2) b by (auto simp: mutation_outcome_def Let_def move_c_def)
  then show ?thesis using r by auto
qed

text \<open>The cached context tells the truth: everything in it is what the element hash has, and when
  a batch touches known elements it has every touched element, every meta layout that a payload
  refers to and every container of a touched element that the hash has.\<close>

theorem createCachedBoardContext_mirrors:
  assumes "redis_client E view" "board_ready E b w"
  shows "\<exists>ctx. createCachedBoardContext E cfg b ms w = Some (ctx, w) \<and> mirrors ctx (element_docs b (view w)) \<and>
    (if collectTouchedElementIds ms = [] then ctx = []
     else mirrors_on (set (collectTouchedElementIds ms) \<union> set (collectReferencedMetaIds ms) - {[]}) ctx
         (element_docs b (view w)) \<and>
       (\<forall>i e. i \<in> set (collectTouchedElementIds ms) - {[]} \<longrightarrow> js_get i ctx = Some e \<longrightarrow>
         mirrors_on (set (parent_ids e) - {[]}) ctx (element_docs b (view w))))"
  using assms by (rule redis_client.context_ready)

theorem createCachedBoardContext_mirrors_witness:
  "\<exists>ctx. createCachedBoardContext mem_env \<lparr>pr_targetedReads = True, pr_incremental = True\<rparr> ''b1'' [move_c] loaded_world
      = Some (ctx, loaded_world) \<and> js_get ''c'' ctx = Some [(''id'', JStr ''c'')]"
proof -
  have t: "collectTouchedElementIds [move_c] = [''c'']"
    by (simp add: collectTouchedElementIds_def move_c_def js_set_def js_add_def)
  obtain ctx where c: "createCachedBoardContext mem_env \<lparr>pr_targetedReads = True, pr_incremental = True\<rparr> ''b1'' [move_c]
      loaded_world = Some (ctx, loaded_world)"
    "mirrors_on (set (collectTouchedElementIds [move_c]) \<union> set (collectReferencedMetaIds [move_c]) - {[]}) ctx
      (element_docs ''b1'' (mem_view loaded_world))"
    using createCachedBoardContext_mirrors[OF mem.redis_client_axioms loaded_world_facts(1),
      of "\<lparr>pr_targetedReads = True, pr_incremental = True\<rparr>" "[move_c]"] t by auto
  then have "js_get ''c'' ctx = map_option parse_element (element_docs ''b1'' (mem_view loaded_world) ''c'')"
    unfolding mirrors_on_def t by simp
  then show ?thesis using c(1) by (simp add: element_docs_hash loaded_world_def)
qed

text \<open>The context stays true over a batch: when it mirrored the element hash before a mutation,
  it mirrors the hash after it, with the upserts and deletes of the applied change, so the next
  mutation of the batch sees the elements that its predecessors left.\<close>

theorem batch_context_stays_true:
  assumes "redis_client E view" "board_at (mut_board m) n (view w)"
    and "processMutationWithContext E m ctx mode w = Some ((res, changed), w')"
    and "mirrors ctx (element_docs (mut_board m) (view w))" "mirrors_on T ctx (element_docs (mut_board m) (view w))"
  shows "mirrors (applyPersistedChangeToContext ctx res) (element_docs (mut_board m) (view w')) \<and>
    mirrors_on T (applyPersistedChangeToContext ctx res) (element_docs (mut_board m) (view w'))"
proof -
  have "mutation_outcome m ctx mode n (view w) res changed (view w')"
    using redis_client.mutation_at[OF assms(1,2), of ctx mode] assms(3) by auto
  then show ?thesis by (rule outcome_mirrors) (use assms(4,5) in simp_all)
qed

definition c_context :: lock_context where
  "c_context = [(''c'', [(''id'', JStr ''c'')])]"

lemma c_context_mirrors:
  "mirrors c_context (element_docs (mut_board move_c) (mem_view loaded_world))"
  "mirrors_on {''c''} c_context (element_docs (mut_board move_c) (mem_view loaded_world))"
  by (auto simp: mirrors_def mirrors_on_def c_context_def element_docs_hash move_c_def loaded_world_def)

theorem batch_context_stays_true_witness:
  "\<exists>res w'. processMutationWithContext mem_env move_c c_context Collab loaded_world = Some (res, w') \<and>
    mirrors_on {''c''} (applyPersistedChangeToContext c_context (fst res)) (element_docs ''b1'' (mem_view w'))"
proof -
  have at: "board_at (mut_board move_c) 0 (mem_view loaded_world)"
    using loaded_world_at by (simp add: move_c_def)
  obtain res changed w' where p: "processMutationWithContext mem_env move_c c_context Collab loaded_world
      = Some ((res, changed), w')"
    using mem.mutation_at[OF at, of c_context Collab] by blast
  show ?thesis
    using batch_context_stays_true[OF mem.redis_client_axioms at p c_context_mirrors] p by (auto simp: move_c_def)
qed



definition locked_context :: lock_context where
  "locked_context = [(''c'', [(''id'', JStr ''c''), (''locked'', JBool True), (''x'', JNum 5)])]"



text \<open>C40: The gap that the previous property excludes: the lock rules look at the element a patch
  names, but the patched element is stored under the \<open>id\<close> its fields have. An update of an
  unprotected element with the fields \<open>id\<close> and \<open>x\<close> is applied and overwrites the element of
  that id, wherever it stands and whether or not it is locked.\<close>

theorem id_patch_overwrites_protected:
  assumes "redis_client E view" "board_at (mut_board m) n (view w)"
    and "v_strs (view w) (boardSeenKey (mut_board m) (mut_id m)) = None"
    and "mut_operation m = UPDATE_ELEMENT j [(''id'', JStr i), (''x'', JNum q)]"
    and "js_get j ctx = Some ej" "\<not> element_protected ctx ej"
    and "js_get i ctx = Some ei" "element_protected ctx ei"
  shows "\<exists>res w' u. processMutationWithContext E m ctx mode w = Some ((res, True), w') \<and>
    element_docs (mut_board m) (view w') i = Some (JObj u) \<and> js_get ''x'' u = Some (JNum q)"
proof -
  let ?v = "js_put ''x'' (JNum q) (js_put ''id'' (JStr i) ej)" and ?t = "v_now (view w)"
  obtain res changed w' where p: "processMutationWithContext E m ctx mode w = Some ((res, changed), w')"
    "mutation_outcome m ctx mode n (view w) res changed (view w')"
    using redis_client.mutation_at[OF assms(1,2), of ctx mode] by blast
  have cs: "toChangeSet ctx (mut_operation m) = \<lparr>cs_upserts = [?v], cs_deletes = []\<rparr>"
    by (simp add: assms(4,5) toUpsertFromCache_def)
  have "\<not> refused (mut_operation m) ctx"
    using assms(4-6) by (simp add: refused_def patch_blocked_def patchesIntoManagedMeta_def string_field_def)
  then obtain c where c: "changed" "change_of (mut_board m) ctx (mut_operation m) mode n (view w) c"
    "abs_board (mut_board m) (view w') = (spec_change (mode = Collab) c (abs_board (mut_board m) (view w)))\<lparr>ab_sequence := n + 1\<rparr>"
    using p(2) assms(3,4) cs by (auto simp: mutation_outcome_def Let_def nothing_to_do_def is_transient_move_def)
  have ds: "pc_deletes c = []" using c(2) cs by (simp add: change_of_def delete_closure_def)
  have us: "pc_upserts c = [stamp ?t ?v]"
    using c(2) ds cs by (simp add: change_of_def effective_upserts_def normalizeUpserts_def)
  have "element_docs (mut_board m) (view w') i = Some (JObj (stamp ?t ?v))"
    unfolding element_docs_def c(3) by (simp add: spec_change_def Let_def us ds overlay_def)
  moreover have "js_get ''x'' (stamp ?t ?v) = Some (JNum q)" by (simp add: stamp_def)
  ultimately show ?thesis using p(1) c(1) by auto
qed

definition steal_c :: mutation where
  "steal_c = \<lparr>mut_id = ''m3'', mut_board = ''b1'', mut_clientTimestamp = 0,
     mut_operation = UPDATE_ELEMENT ''n'' [(''id'', JStr ''c''), (''x'', JNum 9)]\<rparr>"

theorem id_patch_overwrites_protected_witness:
  "\<exists>res w' u. processMutationWithContext mem_env steal_c ((''n'', [(''id'', JStr ''n'')]) # locked_context) Collab loaded_world
      = Some ((res, True), w') \<and>
    element_docs ''b1'' (mem_view w') ''c'' = Some (JObj u) \<and> js_get ''x'' u = Some (JNum 9)"
  using id_patch_overwrites_protected[OF mem.redis_client_axioms, of steal_c 0 loaded_world "''n''" "''c''" 9
      "(''n'', [(''id'', JStr ''n'')]) # locked_context" "[(''id'', JStr ''n'')]" "snd (hd locked_context)" Collab]
    loaded_world_at
  by (simp add: steal_c_def loaded_world_def mem_str_eval key_defs locked_context_def element_protected_def
      isElementLocked_def isInsideLockedContainer_def isInsideManagedMeta_def parent_ids_def string_field_def)

text \<open>A create never meets the rule against creating into a managed month range. The context of a
  batch that touches no known element is empty, although the payload refers to a meta layout, so a
  create whose target is a stored managed range is applied; with the meta in the context the rule
  would have refused it.\<close>

theorem create_escapes_managed_range:
  assumes "redis_client E view" "board_at (mut_board m) n (view w)"
    and "v_strs (view w) (boardSeenKey (mut_board m) (mut_id m)) = None"
    and "mut_operation m = CREATE_ELEMENT i data"
    and "string_field ''metaContainerId'' data = Some meta"
    and "element_docs (mut_board m) (view w) meta = Some j" "js_get ''monthRange'' (parse_element j) \<noteq> None"
  shows "isMutationBlockedByLock (mut_operation m) [(meta, parse_element j)] \<and>
    (\<exists>ctx res w'. createCachedBoardContext E cfg (mut_board m) [m] w = Some (ctx, w) \<and>
       processMutationWithContext E m ctx mode w = Some ((res, True), w') \<and>
       element_docs (mut_board m) (view w') (el_id data) = Some (JObj (stamp (v_now (view w)) data)))"
proof
  show "isMutationBlockedByLock (mut_operation m) [(meta, parse_element j)]"
    using assms(4,5,7) by (simp add: createsIntoManagedMeta_def managed_meta_def)
  have ctx: "createCachedBoardContext E cfg (mut_board m) [m] w = Some ([], w)"
    by (simp add: createCachedBoardContext_def collectTouchedElementIds_def assms(4) js_set_def)
  obtain res changed w' where p: "processMutationWithContext E m [] mode w = Some ((res, changed), w')"
    "mutation_outcome m [] mode n (view w) res changed (view w')"
    using redis_client.mutation_at[OF assms(1,2), of "[]" mode] by blast
  have "\<not> refused (mut_operation m) []"
    using assms(4,5) by (simp add: refused_def createsIntoManagedMeta_def managed_meta_def)
  then obtain c where c: "changed" "change_of (mut_board m) [] (mut_operation m) mode n (view w) c"
    "abs_board (mut_board m) (view w') = (spec_change (mode = Collab) c (abs_board (mut_board m) (view w)))\<lparr>ab_sequence := n + 1\<rparr>"
    using p(2) assms(3,4) by (auto simp: mutation_outcome_def Let_def nothing_to_do_def is_transient_move_def)
  have ds: "pc_deletes c = []" using c(2) assms(4) by (simp add: change_of_def delete_closure_def)
  have us: "pc_upserts c = [stamp (v_now (view w)) data]"
    using c(2) ds assms(4) by (simp add: change_of_def effective_upserts_def normalizeUpserts_def)
  have "element_docs (mut_board m) (view w') (el_id data) = Some (JObj (stamp (v_now (view w)) data))"
    unfolding element_docs_def c(3) by (simp add: spec_change_def Let_def us ds overlay_def)
  then show "\<exists>ctx res w'. createCachedBoardContext E cfg (mut_board m) [m] w = Some (ctx, w) \<and>
       processMutationWithContext E m ctx mode w = Some ((res, True), w') \<and>
       element_docs (mut_board m) (view w') (el_id data) = Some (JObj (stamp (v_now (view w)) data))"
    using ctx p(1) c(1) by auto
qed

definition managed_world :: mem where
  "managed_world = loaded_world\<lparr>m_hash := [(boardElementsKey ''b1'',
     [(''meta'', JObj [(''id'', JStr ''meta''), (''monthRange'', JObj [])])])]\<rparr>"

definition create_month :: mutation where
  "create_month = \<lparr>mut_id = ''m4'', mut_board = ''b1'', mut_clientTimestamp = 0,
     mut_operation = CREATE_ELEMENT ''g'' [(''id'', JStr ''g''), (''metaContainerId'', JStr ''meta'')]\<rparr>"

theorem create_escapes_managed_range_witness:
  "\<exists>ctx res w'. createCachedBoardContext mem_env \<lparr>pr_targetedReads = True, pr_incremental = True\<rparr> ''b1'' [create_month]
      managed_world = Some (ctx, managed_world) \<and>
    processMutationWithContext mem_env create_month ctx Collab managed_world = Some ((res, True), w')"
proof -
  have "board_at ''b1'' 0 (mem_view managed_world)"
    using loaded_world_at by (simp add: managed_world_def board_at_def counter_ok_def)
  then show ?thesis
    using create_escapes_managed_range[OF mem.redis_client_axioms, of create_month 0 managed_world "''g''"
        "[(''id'', JStr ''g''), (''metaContainerId'', JStr ''meta'')]" "''meta''"
        "JObj [(''id'', JStr ''meta''), (''monthRange'', JObj [])]" "\<lparr>pr_targetedReads = True, pr_incremental = True\<rparr>" Collab]
    by (auto simp: create_month_def managed_world_def loaded_world_def mem_str_eval key_defs string_field_def
        element_docs_hash)
qed





text \<open>The results of a batch are in the order of its mutations. Although a batch is regrouped by board
  and each board runs under its own lock, a batch that succeeds has one result per mutation, and
  the result at an index carries the id of the mutation at that index.\<close>

theorem processBatch_results_in_order:
  assumes "processBatch E cfg ms w = Some (Inr rs, w')"
  shows "length rs = length ms \<and> (\<forall>i < length ms. \<exists>res. rs ! i = Some res \<and> mr_id res = mut_id (ms ! i))"
  using assms by (rule batch_aligned)

definition drag_c :: mutation where
  "drag_c = \<lparr>mut_id = ''m5'', mut_board = ''b1'', mut_clientTimestamp = 0,
     mut_operation = MOVE_ELEMENTS [(''c'', 3, 4)] True\<rparr>"

theorem processBatch_results_in_order_witness:
  "\<exists>rs w'. processBatch mem_env \<lparr>pr_targetedReads = True, pr_incremental = True\<rparr> [drag_c] loaded_world = Some (Inr rs, w') \<and>
     length rs = 1 \<and> (\<exists>res. rs ! 0 = Some res \<and> mr_id res = ''m5'')"
proof -
  let ?cfg = "\<lparr>pr_targetedReads = True, pr_incremental = True\<rparr>"
  have "v_strs (mem_view loaded_world) (boardMutationLockKey ''b1'') = None"
    by (simp add: loaded_world_def mem_str_eval key_defs)
  then obtain token w1 where l: "acquireMutationLock mem_env ''b1'' loaded_world = Some (Inr token, w1)"
    "mem_view w1 = (mem_view loaded_world)\<lparr>v_strs := (v_strs (mem_view loaded_world))(boardMutationLockKey ''b1'' \<mapsto>
        (token, Some (v_now (mem_view loaded_world) + BOARD_MUTATION_LOCK_TTL_MS)))\<rparr>"
    using mem.acquire_free by blast
  have r1: "board_ready mem_env ''b1'' w1"
    using loaded_world_facts(1) unfolding mem.board_ready_view l(2) by (simp add: key_defs)
  obtain ctx where c: "createCachedBoardContext mem_env ?cfg ''b1'' [drag_c] w1 = Some (ctx, w1)"
    using mem.context_ready[OF r1] by blast
  obtain mode w2 where w2: "getSyncWriteMode mem_env ''b1'' w1 = Some (mode, w2)" "board_ready mem_env ''b1'' w2"
    using mem.write_mode_ready[OF r1] by blast
  obtain w3 where w3: "rearm_after mem_env mode ''b1'' w2 = Some w3"
    using mem.rearm_ready[OF w2(2)] by (cases mode) (auto simp: rearm_after_def)
  have groups: "group_by_board [drag_c] = [(''b1'', [(0, drag_c)])]" by (simp add: group_by_board_def drag_c_def)
  obtain res w4 where g: "group_task mem_env ?cfg ''b1'' [(0, drag_c)] [None] w1 = Some (Inr [Some res], w4)"
    using c w2(1) w3
    by (simp add: group_task_def processMutationWithContext_def is_transient_move_def drag_c_def)
  obtain w5 where "processBatch mem_env ?cfg [drag_c] loaded_world = Some (Inr [Some res], w5)"
    using g l(1) by (simp add: processBatch_def groups withBoardMutationLock_def)
  then show ?thesis using processBatch_results_in_order[of mem_env ?cfg "[drag_c]" loaded_world] by (force simp: drag_c_def)
qed

end
