(* ===== verification/Socket_Handlers.thy ===== *)
theory Socket_Handlers
  imports Socket_Session Mutation_Batch
begin

text \<open>
  The handlers of the Socket.IO server (\<open>socketio/handlers/*.ts\<close>) with the helpers of
  \<open>socketio/server.ts\<close> they share: joining a board, mutation batches, CRDT updates, presence, realtime
  ticks, leaving. A handler is a function on the session of one socket; \<open>await n\<close> is its \<open>n\<close>-th
  \<open>await\<close>, after which \<open>sv_meanwhile n\<close> may have changed anything. What a handler sends is collected in
  \<open>se_out\<close>. The first component of a result is \<open>False\<close> when the handler threw. The lemmas show that
  writing needs edit permission, that broadcasts carry the sender's own board and identity, where
  the context of a join comes from, and two orders of events the handlers do not guard against.
\<close>

section \<open>Messages\<close>

fun wire_of :: "json \<Rightarrow> wire" where
  "wire_of JNull = WNull"
| "wire_of (JBool b) = WBool b"
| "wire_of (JNum q) = WNum (Fin q)"
| "wire_of (JStr s) = WStr s"
| "wire_of (JArr items) = WArr (map wire_of items)"
| "wire_of (JObj entries) = WObj (map (\<lambda>p. (fst p, wire_of (snd p))) entries)"

definition string_or_null :: "string option \<Rightarrow> wire" where
  "string_or_null s = (case s of None \<Rightarrow> WNull | Some t \<Rightarrow> WStr t)"

definition strings :: "string list \<Rightarrow> wire" where
  "strings xs = WArr (map WStr xs)"

definition point_or_null :: "(rat \<times> rat) option \<Rightarrow> wire" where
  "point_or_null p = (case p of None \<Rightarrow> WNull
     | Some (x, y) \<Rightarrow> WObj [(''x'', WNum (Fin x)), (''y'', WNum (Fin y))])"

datatype emission =
    ToSelf string wire
  | ToOthers string string wire
  | ToRoom string string wire

datatype app_event = BOARD_MUTATED string | BOARD_EDITORS_LEFT string

definition SYNC_ERROR :: string where "SYNC_ERROR = ''sync:error''"
definition MUTATION_BROADCAST :: string where "MUTATION_BROADCAST = ''mutation''"
definition MUTATION_ACK :: string where "MUTATION_ACK = ''mutation:ack''"
definition PRESENCE :: string where "PRESENCE = ''PRESENCE''"
definition USER_JOINED :: string where "USER_JOINED = ''USER_JOINED''"
definition USER_LEFT :: string where "USER_LEFT = ''USER_LEFT''"
definition BOARD_SNAPSHOT :: string where "BOARD_SNAPSHOT = ''board:snapshot''"

lemmas event_names = SYNC_ERROR_def MUTATION_BROADCAST_def MUTATION_ACK_def PRESENCE_def USER_JOINED_def USER_LEFT_def
  BOARD_SNAPSHOT_def CRDT_UPDATE_def REALTIME_TICK_def

section \<open>Sessions\<close>

record 'w session = connection +
  se_world :: 'w
  se_ticks :: tick_state
  se_updates :: "(string \<times> string \<times> nat list) list"
  se_out :: "emission list"
  se_events :: "app_event list"

record 'w server =
  sv_env :: "'w env"
  sv_rooms :: participants_options
  sv_processor :: processor_config
  sv_activity :: activity_options
  sv_random :: "int \<Rightarrow> int"
  sv_randomText :: string
  sv_js_String :: "wire \<Rightarrow> string"
  sv_number :: "js_number \<Rightarrow> string"
  sv_decode :: "wire \<Rightarrow> mutation"
  sv_resolve :: "'w \<Rightarrow> socket_identity"
  sv_access :: "string \<Rightarrow> string option \<Rightarrow> string option \<Rightarrow> 'w \<Rightarrow> access option"
  sv_shareQuery :: "string option"
  sv_crdtFlush :: "string \<Rightarrow> 'w \<Rightarrow> (unit result \<times> 'w) option"
  sv_meanwhile :: "nat \<Rightarrow> 'w session \<Rightarrow> 'w session"

definition await :: "'w server \<Rightarrow> nat \<Rightarrow> ('w \<Rightarrow> ('a \<times> 'w) option) \<Rightarrow> 'w session \<Rightarrow> ('a \<times> 'w session) option" where
  "await sv n f s = (case f (se_world s) of None \<Rightarrow> None
     | Some (a, w) \<Rightarrow> Some (a, sv_meanwhile sv n (s\<lparr>se_world := w\<rparr>)))"

definition await_unit :: "'w server \<Rightarrow> nat \<Rightarrow> ('w \<Rightarrow> 'w option) \<Rightarrow> 'w session \<Rightarrow> 'w session option" where
  "await_unit sv n f s = (case f (se_world s) of None \<Rightarrow> None
     | Some w \<Rightarrow> Some (sv_meanwhile sv n (s\<lparr>se_world := w\<rparr>)))"

definition emit :: "emission \<Rightarrow> 'w session \<Rightarrow> 'w session" where
  "emit e s = s\<lparr>se_out := se_out s @ [e]\<rparr>"

definition syncError :: "string \<Rightarrow> 'w session \<Rightarrow> 'w session" where
  "syncError message s = emit (ToSelf SYNC_ERROR (WObj [(''message'', WStr message)])) s"

definition now_of :: "'w server \<Rightarrow> 'w session \<Rightarrow> int" where
  "now_of sv s = e_now (sv_env sv) (se_world s)"

definition refreshSocketActivity :: "'w server \<Rightarrow> context_snapshot \<Rightarrow> bool \<Rightarrow> 'w session \<Rightarrow> 'w session option" where
  "refreshSocketActivity sv snapshot forceWrite s =
     (let (write, s) = (if forceWrite then (True, s)
            else shouldWriteActivity (sv_activity sv) (sv_random sv) (now_of sv s) s);
          b = bc_boardId (cs_context snapshot)
      in if \<not> write then Some s
         else do {
           s \<leftarrow> await_unit sv 0 (touchViewerSession (sv_env sv) b (bc_sessionId (cs_context snapshot))) s;
           s \<leftarrow> await_unit sv 1 (trackClient (sv_env sv) b (bc_userId (cs_context snapshot)) (cn_id s)) s;
           await_unit sv 2 (\<lambda>w. Some (touchParticipant (sv_env sv) (sv_rooms sv) b (cn_id s) w)) s
         })"

section \<open>Mutation batches\<close>

definition hasConsistentBatchBoardId :: "string \<Rightarrow> wire list \<Rightarrow> bool" where
  "hasConsistentBatchBoardId boardId mutations =
     list_all (\<lambda>m. isRecord m \<and> get_prop ''boardId'' m = WStr boardId) mutations"

fun ack_loop :: "string \<Rightarrow> (mutation_result option \<times> wire) list \<Rightarrow> string list \<Rightarrow> int option \<Rightarrow> 'w session \<Rightarrow>
    string list \<times> int option \<times> 'w session" where
  "ack_loop b [] ids latestSequence s = (ids, latestSequence, s)"
| "ack_loop b ((None, m) # rest) ids latestSequence s = ack_loop b rest ids latestSequence s"
| "ack_loop b ((Some r, m) # rest) ids latestSequence s =
     ack_loop b rest (ids @ [mr_id r]) (case mr_sequence r of None \<Rightarrow> latestSequence | Some n \<Rightarrow> Some n)
       (if mr_status r \<noteq> Already_applied then emit (ToOthers b MUTATION_BROADCAST (WObj [(''mutation'', m)])) s else s)"

definition ack_message :: "string list \<Rightarrow> int option \<Rightarrow> wire" where
  "ack_message ids latestSequence = WObj [(''mutationIds'', strings ids),
     (''sequence'', case latestSequence of None \<Rightarrow> WUndefined | Some n \<Rightarrow> WNum (Fin (of_int n)))]"

definition acknowledge :: "'w server \<Rightarrow> context_snapshot \<Rightarrow> mutation_batch_payload \<Rightarrow> batch_results \<Rightarrow> 'w session \<Rightarrow> 'w session" where
  \<comment> \<open>from \<open>events.emit\<close> to the end\<close>
  "acknowledge sv snapshot payload results s =
     (let s = sv_meanwhile sv 5 (s\<lparr>se_events := se_events s @ [BOARD_MUTATED (bc_boardId (cs_context snapshot))]\<rparr>);
          (ids, latestSequence, s) = ack_loop (mp_boardId payload) (zip results (mp_mutations payload)) [] None s
      in if isSnapshotActive snapshot s then emit (ToSelf MUTATION_ACK (ack_message ids latestSequence)) s else s)"

definition run_batch :: "'w server \<Rightarrow> context_snapshot \<Rightarrow> mutation_batch_payload \<Rightarrow> 'w session \<Rightarrow> (bool \<times> 'w session) option" where
  "run_batch sv snapshot payload s = do {
     (results, s) \<leftarrow> await sv 4 (processBatch (sv_env sv) (sv_processor sv) (map (sv_decode sv) (mp_mutations payload))) s;
     Some (case results of Inl err \<Rightarrow> (False, s)
       | Inr results \<Rightarrow> (True, if isSnapshotActive snapshot s then acknowledge sv snapshot payload results s else s))
   }"

definition mutationBatchHandler :: "'w server \<Rightarrow> wire \<Rightarrow> 'w session \<Rightarrow> (bool \<times> 'w session) option" where
  "mutationBatchHandler sv raw s =
     (case parseMutationBatchPayload raw of
        None \<Rightarrow> Some (True, syncError ''Invalid mutation batch payload'' s)
      | Some payload \<Rightarrow> (case takeContextSnapshot (mp_boardId payload) s of
          None \<Rightarrow> Some (True, syncError ''Invalid mutation batch payload'' s)
        | Some snapshot \<Rightarrow>
            if \<not> hasConsistentBatchBoardId (mp_boardId payload) (mp_mutations payload)
            then Some (True, syncError ''Mutation board mismatch'' s)
            else if bc_permission (cs_context snapshot) \<noteq> ''edit''
            then Some (True, syncError ''No edit access to this board'' s)
            else do {
              s \<leftarrow> map_option (sv_meanwhile sv 3) (refreshSocketActivity sv snapshot False s);
              if \<not> isSnapshotActive snapshot s then Some (True, s) else run_batch sv snapshot payload s
            }))"

section \<open>CRDT updates, presence and ticks\<close>

definition crdtUpdateHandler :: "'w server \<Rightarrow> wire \<Rightarrow> 'w session \<Rightarrow> (bool \<times> 'w session) option" where
  \<comment> \<open>the Yjs document of the room is not modelled: \<open>se_updates\<close> lists the updates it is given\<close>
  "crdtUpdateHandler sv raw s =
     (case parseCrdtUpdatePayload raw of
        None \<Rightarrow> Some (True, syncError ''Invalid CRDT update payload'' s)
      | Some payload \<Rightarrow> (case takeContextSnapshot (up_boardId payload) s of
          None \<Rightarrow> Some (True, syncError ''Invalid CRDT update payload'' s)
        | Some snapshot \<Rightarrow>
            if bc_permission (cs_context snapshot) \<noteq> ''edit''
            then Some (True, syncError ''No edit access to this board'' s)
            else do {
              s \<leftarrow> map_option (sv_meanwhile sv 3) (refreshSocketActivity sv snapshot False s);
              if \<not> isSnapshotActive snapshot s then Some (True, s)
              else Some (True, emit (ToOthers (up_boardId payload) CRDT_UPDATE
                  (WObj [(''boardId'', WStr (up_boardId payload)), (''update'', WBytes (up_update payload))]))
                (s\<lparr>se_updates := se_updates s @ [(up_boardId payload, bc_userId (cs_context snapshot), up_update payload)]\<rparr>))
            }))"

definition who :: "board_context \<Rightarrow> (string \<times> wire) list" where
  "who c = [(''sessionId'', WStr (bc_sessionId c)), (''userId'', WStr (bc_userId c)), (''userName'', WStr (bc_userName c)),
     (''avatarUrl'', string_or_null (bc_avatarUrl c)), (''color'', WStr (bc_color c))]"

definition pointer :: "'a presence_payload_scheme \<Rightarrow> (string \<times> wire) list" where
  "pointer p = [(''cursor'', point_or_null (pp_cursor p)), (''selectedIds'', strings (pp_selectedIds p)),
     (''draggedIds'', strings (pp_draggedIds p)), (''focusedElementId'', string_or_null (pp_focusedElementId p)),
     (''typingField'', string_or_null (pp_typingField p))]"

definition presenceUpdateHandler :: "'w server \<Rightarrow> wire \<Rightarrow> 'w session \<Rightarrow> (bool \<times> 'w session) option" where
  "presenceUpdateHandler sv raw s =
     (case parsePresenceUpdatePayload raw of
        None \<Rightarrow> Some (True, syncError ''Invalid presence payload'' s)
      | Some payload \<Rightarrow> (case takeContextSnapshot (pp_boardId payload) s of
          None \<Rightarrow> Some (True, syncError ''Invalid presence payload'' s)
        | Some snapshot \<Rightarrow> do {
            s \<leftarrow> map_option (sv_meanwhile sv 3) (refreshSocketActivity sv snapshot False s);
            if \<not> isSnapshotActive snapshot s then Some (True, s)
            else Some (True, emit (ToOthers (pp_boardId payload) PRESENCE
              (WObj (who (cs_context snapshot) @ pointer payload))) s)
          }))"

definition tick_message :: "board_context \<Rightarrow> tick_payload \<Rightarrow> wire" where
  "tick_message c p = WObj ([(''boardId'', WStr (pp_boardId p)), (''tickId'', WNum (Fin (tp_tickId p)))] @ who c @ pointer p
     @ [(''presenceState'', WStr (tp_presenceState p)), (''presenceMessage'', string_or_null (tp_presenceMessage p)),
        (''moves'', WArr (map (\<lambda>(i, x, y). WObj [(''id'', WStr i), (''x'', WNum (Fin x)), (''y'', WNum (Fin y))]) (tp_moves p)))])"

definition realtimeTickHandler :: "'w server \<Rightarrow> wire \<Rightarrow> 'w session \<Rightarrow> (bool \<times> 'w session) option" where
  "realtimeTickHandler sv raw s =
     (case parseRealtimeTickPayload (sv_js_String sv) raw of
        None \<Rightarrow> Some (True, syncError ''Invalid realtime tick payload'' s)
      | Some payload \<Rightarrow> (case takeContextSnapshot (pp_boardId payload) s of
          None \<Rightarrow> Some (True, syncError ''Invalid realtime tick payload'' s)
        | Some snapshot \<Rightarrow>
            if tp_tickId payload \<le> cn_lastTickId s then Some (True, s)
            else let s = s\<lparr>cn_lastTickId := tp_tickId payload\<rparr> in
              if tp_moves payload \<noteq> [] \<and> bc_permission (cs_context snapshot) \<noteq> ''edit''
              then Some (True, syncError ''No edit access to this board'' s)
              else do {
                s \<leftarrow> map_option (sv_meanwhile sv 3) (refreshSocketActivity sv snapshot False s);
                if \<not> isSnapshotActive snapshot s then Some (True, s)
                else (let s = s\<lparr>se_ticks := queueMoves (now_of sv s) (pp_boardId payload)
                          (bc_userId (cs_context snapshot)) (tp_moves payload) (se_ticks s)\<rparr>
                  in Some (True, emit (ToOthers (pp_boardId payload) REALTIME_TICK
                       (tick_message (cs_context snapshot) payload)) s))
              }))"

section \<open>Leaving a board\<close>

definition participant_left :: "participant \<Rightarrow> wire" where
  "participant_left p = WObj [(''sessionId'', get_prop ''sessionId'' (wire_of (JObj p))),
     (''userId'', get_prop ''userId'' (wire_of (JObj p)))]"

definition flush_ticks :: "'w server \<Rightarrow> string \<Rightarrow> 'w session \<Rightarrow> (bool \<times> 'w session) option" where
  \<comment> \<open>\<open>flushTickMoves\<close> with the event that it emits after the batch\<close>
  "flush_ticks sv b s = (case flushTickMoves (sv_env sv) (sv_processor sv) (sv_randomText sv) id b (se_ticks s) (se_world s) of
     None \<Rightarrow> None
   | Some (Inl err, ticks, w) \<Rightarrow> Some (False, sv_meanwhile sv 24 (s\<lparr>se_ticks := ticks, se_world := w\<rparr>))
   | Some (Inr _, ticks, w) \<Rightarrow> Some (True, sv_meanwhile sv 24 (s\<lparr>se_ticks := ticks, se_world := w,
       se_events := (if fst (take_moves b (se_ticks s)) = None then se_events s else se_events s @ [BOARD_MUTATED b])\<rparr>)))"

definition clear_rooms :: "string \<Rightarrow> 'w session \<Rightarrow> 'w session" where
  "clear_rooms b s = s\<lparr>se_ticks := clearBoard b (se_ticks s), se_updates := filter (\<lambda>u. fst u \<noteq> b) (se_updates s)\<rparr>"

definition cleanupBoardRealtimeStateIfEmpty :: "'w server \<Rightarrow> string \<Rightarrow> 'w session \<Rightarrow> (bool \<times> 'w session) option" where
  "cleanupBoardRealtimeStateIfEmpty sv b s = do {
     (size, s) \<leftarrow> await sv 23 (\<lambda>w. Some (getRoomSize (sv_env sv) (sv_rooms sv) b w)) s;
     if size > 0 then Some (True, s)
     else do {
       (ok, s) \<leftarrow> flush_ticks sv b s;
       if \<not> ok then Some (False, s)
       else do {
         (flushed, s) \<leftarrow> await sv 25 (sv_crdtFlush sv b) s;
         (case flushed of Inl err \<Rightarrow> Some (False, s) | Inr _ \<Rightarrow> Some (True, clear_rooms b s))
       }
     }
   }"

definition persistBoardOnGlobalDrain :: "'w server \<Rightarrow> string \<Rightarrow> 'w session \<Rightarrow> (bool \<times> 'w session) option" where
  "persistBoardOnGlobalDrain sv b s = do {
     (globalClientCount, s) \<leftarrow> await sv 26 (getClientCount (sv_env sv) b) s;
     if globalClientCount > 1 then Some (True, s)
     else do {
       (saved, s) \<leftarrow> await sv 27 (persistBoard (sv_env sv) (pr_incremental (sv_processor sv)) b) s;
       Some (case saved of Inl err \<Rightarrow> (False, s) | Inr _ \<Rightarrow> (True, s))
     }
   }"

definition detachFromBoard :: "'w server \<Rightarrow> board_context \<Rightarrow> bool \<Rightarrow> 'w session \<Rightarrow> (bool \<times> 'w session) option" where
  "detachFromBoard sv context broadcastLeave s =
     (let b = bc_boardId context; s = setBoardContext None s in do {
        s \<leftarrow> await_unit sv 20 (removeClient (sv_env sv) b (bc_userId context) (cn_id s)) s;
        s \<leftarrow> await_unit sv 21 (removeViewerSession (sv_env sv) b (bc_sessionId context)) s;
        (participant, s) \<leftarrow> await sv 22 (\<lambda>w. Some (removeParticipant (sv_env sv) (sv_rooms sv) b (cn_id s) w)) s;
        let s = (case participant of None \<Rightarrow> s
          | Some p \<Rightarrow> if broadcastLeave then emit (ToRoom b USER_LEFT (participant_left p)) s else s);
        let s = s\<lparr>cn_rooms := removeAll b (cn_rooms s)\<rparr>;
        (ok, s) \<leftarrow> cleanupBoardRealtimeStateIfEmpty sv b s;
        if \<not> ok then Some (False, s) else persistBoardOnGlobalDrain sv b s
      })"

definition disconnectHandler :: "'w server \<Rightarrow> 'w session \<Rightarrow> (bool \<times> 'w session) option" where
  "disconnectHandler sv s = (case cn_context s of
     None \<Rightarrow> Some (True, cleanupConnectionState s)
   | Some context \<Rightarrow> do {
       (ok, s) \<leftarrow> detachFromBoard sv context True (setBoardContext None s);
       if \<not> ok then Some (False, s)
       else let s = (if bc_permission context = ''edit''
              then sv_meanwhile sv 28 (s\<lparr>se_events := se_events s @ [BOARD_EDITORS_LEFT (bc_boardId context)]\<rparr>) else s)
         in Some (True, cleanupConnectionState s)
     })"

section \<open>Joining a board\<close>

definition identify :: "'w server \<Rightarrow> nat \<Rightarrow> 'w session \<Rightarrow> (socket_identity option \<times> 'w session) option" where
  \<comment> \<open>\<open>runtime.getIdentity() ?? await resolveIdentity(runtime, joinAttempt)\<close>\<close>
  "identify sv joinAttempt s = (case cn_identity s of
     Some identity \<Rightarrow> Some (Some identity, s)
   | None \<Rightarrow> do {
       (identity, s) \<leftarrow> await sv 10 (\<lambda>w. Some (sv_resolve sv w, w)) s;
       if \<not> isJoinActive joinAttempt s then Some (None, sv_meanwhile sv 11 s)
       else Some (Some identity, sv_meanwhile sv 11 (s\<lparr>cn_identity := Some identity\<rparr>))
     })"

definition participant_of :: "board_context \<Rightarrow> participant" where
  "participant_of c = [(''sessionId'', JStr (bc_sessionId c)), (''userId'', JStr (bc_userId c)),
     (''userName'', JStr (bc_userName c)),
     (''avatarUrl'', case bc_avatarUrl c of None \<Rightarrow> JNull | Some u \<Rightarrow> JStr u), (''color'', JStr (bc_color c))]"

definition join_context :: "board_join_payload \<Rightarrow> socket_identity \<Rightarrow> access \<Rightarrow> board_context" where
  \<comment> \<open>anonymous visitors may choose a display name\<close>
  "join_context payload identity access = \<lparr>bc_boardId = jp_boardId payload, bc_sessionId = jp_sessionId payload,
     bc_permission = (if ac_permission access = Some ''edit'' then ''edit'' else ''view''),
     bc_userId = si_runtimeUserId identity,
     bc_userName = (case (si_authUserId identity, jp_userName payload) of
        (None, Some n) \<Rightarrow> if n \<noteq> [] then n else si_userName identity | _ \<Rightarrow> si_userName identity),
     bc_avatarUrl = si_avatarUrl identity, bc_color = getUserColor (si_runtimeUserId identity)\<rparr>"

definition snapshot_message :: "(string \<times> board_element) list \<Rightarrow> int \<Rightarrow> wire" where
  "snapshot_message elements sequence = WObj [(''elements'', WObj (map (\<lambda>p. (fst p, wire_of (JObj (snd p)))) elements)),
     (''lastSequence'', WNum (Fin (of_int sequence)))]"

definition roster_emissions :: "string \<Rightarrow> participant list \<Rightarrow> emission list" where
  "roster_emissions sessionId participants = map (\<lambda>p. ToSelf USER_JOINED (wire_of (JObj p)))
     (filter (\<lambda>p. js_get ''sessionId'' p \<noteq> Some (JStr sessionId)) participants)"

definition announce :: "'w server \<Rightarrow> nat \<Rightarrow> board_context \<Rightarrow> 'w session \<Rightarrow> (bool \<times> 'w session) option" where
  \<comment> \<open>the end of a join: the room hears of the participant, the participant gets the board\<close>
  "announce sv joinAttempt c s = do {
     let s = emit (ToOthers (bc_boardId c) USER_JOINED (wire_of (JObj (participant_of c)))) s;
     (snapshot, s) \<leftarrow> await sv 19 (getSnapshot (sv_env sv) (bc_boardId c)) s;
     Some (True, if \<not> isJoinActive joinAttempt s \<or> (case cn_context s of None \<Rightarrow> True
           | Some current \<Rightarrow> bc_sessionId current \<noteq> bc_sessionId c) then s
         else emit (ToSelf BOARD_SNAPSHOT (snapshot_message (fst snapshot) (snd snapshot))) s)
   }"

definition enter_room :: "'w server \<Rightarrow> nat \<Rightarrow> board_context \<Rightarrow> 'w session \<Rightarrow> (bool \<times> 'w session) option" where
  \<comment> \<open>from \<open>socket.join\<close> on\<close>
  "enter_room sv joinAttempt c s =
     (let b = bc_boardId c; s = setBoardContext (Some c) (s\<lparr>cn_rooms := List.insert b (cn_rooms s)\<rparr>) in do {
        (participants, s) \<leftarrow> await sv 17 (\<lambda>w. Some (getRoomParticipants (sv_env sv) (sv_rooms sv) b w)) s;
        let s = s\<lparr>se_out := se_out s @ roster_emissions (bc_sessionId c) participants\<rparr>;
        (admitted, s) \<leftarrow> await sv 18 (\<lambda>w. Some (admitParticipant (sv_env sv) (sv_rooms sv) b (cn_id s)
           (participant_of c) SOCKET_ROOM_CONNECTION_CAP w)) s;
        if \<not> admitted
        then (let s = syncError ''Board room is full'' s in
          (case cn_context s of None \<Rightarrow> Some (True, s)
           | Some current \<Rightarrow> if bc_boardId current = b then detachFromBoard sv current False s else Some (True, s)))
        else if \<not> isJoinActive joinAttempt s then Some (True, s)
        else announce sv joinAttempt c s
      })"

definition prepare_board :: "'w server \<Rightarrow> nat \<Rightarrow> board_context \<Rightarrow> 'w session \<Rightarrow> (bool \<times> 'w session) option" where
  \<comment> \<open>from \<open>loadBoard\<close> to the last \<open>await\<close> before \<open>socket.join\<close>\<close>
  "prepare_board sv joinAttempt c s = do {
     (loaded, s) \<leftarrow> await sv 14 (loadBoard (sv_env sv) (bc_boardId c)) s;
     (case loaded of Inl err \<Rightarrow> Some (False, s)
      | Inr _ \<Rightarrow> if \<not> isJoinActive joinAttempt s then Some (True, s) else do {
          s \<leftarrow> await_unit sv 15 (trackClient (sv_env sv) (bc_boardId c) (bc_userId c) (cn_id s)) s;
          if \<not> isJoinActive joinAttempt s then Some (True, s) else do {
            s \<leftarrow> await_unit sv 16 (touchViewerSession (sv_env sv) (bc_boardId c) (bc_sessionId c)) s;
            if \<not> isJoinActive joinAttempt s then Some (True, s) else enter_room sv joinAttempt c s
          }
        })
   }"

definition leave_previous :: "'w server \<Rightarrow> board_context \<Rightarrow> 'w session \<Rightarrow> (bool \<times> 'w session) option" where
  "leave_previous sv c s = (case cn_context s of
     None \<Rightarrow> Some (True, s)
   | Some previous \<Rightarrow> if bc_boardId previous \<noteq> bc_boardId c \<or> bc_sessionId previous \<noteq> bc_sessionId c
       then detachFromBoard sv previous True s else Some (True, s))"

definition boardJoinHandler :: "'w server \<Rightarrow> wire \<Rightarrow> 'w session \<Rightarrow> (bool \<times> 'w session) option" where
  "boardJoinHandler sv raw s = (case parseBoardJoinPayload (sv_js_String sv) raw of
     None \<Rightarrow> Some (True, syncError ''Invalid board join payload'' s)
   | Some payload \<Rightarrow> (let (joinAttempt, s) = startJoinAttempt s in do {
       (identity, s) \<leftarrow> identify sv joinAttempt s;
       (case identity of None \<Rightarrow> Some (True, s)
        | Some identity \<Rightarrow> if \<not> isJoinActive joinAttempt s then Some (True, s) else do {
            let shareToken = (case jp_shareToken payload of Some t \<Rightarrow> Some t | None \<Rightarrow> sv_shareQuery sv);
            (access, s) \<leftarrow> await sv 12 (\<lambda>w. Some (sv_access sv (jp_boardId payload) (si_authUserId identity) shareToken w, w)) s;
            (case access of None \<Rightarrow> Some (False, s)
             | Some access \<Rightarrow>
                 if \<not> isJoinActive joinAttempt s then Some (True, s)
                 else if \<not> ac_hasAccess access then Some (True, syncError ''No access to board'' s)
                 else do {
                   ((isAlreadyParticipant, currentRoomSize), s) \<leftarrow> await sv 13 (\<lambda>w. Some (getAdmissionState (sv_env sv)
                      (sv_rooms sv) (jp_boardId payload) (cn_id s) w)) s;
                   if \<not> isJoinActive joinAttempt s then Some (True, s)
                   else if \<not> isAlreadyParticipant \<and> SOCKET_ROOM_CONNECTION_CAP \<le> currentRoomSize
                   then Some (True, syncError ''Board room is full'' s)
                   else do {
                     let c = join_context payload identity access;
                     (ok, s) \<leftarrow> leave_previous sv c s;
                     if \<not> ok then Some (False, s) else prepare_board sv joinAttempt c s
                   }
                 })
          })
     }))"

section \<open>Events of a connection\<close>

definition client_handler :: "'w server \<Rightarrow> string \<Rightarrow> wire \<Rightarrow> 'w session \<Rightarrow> (bool \<times> 'w session) option" where
  "client_handler sv event =
     (if event = BOARD_JOIN then boardJoinHandler sv
      else if event = MUTATION_BATCH then mutationBatchHandler sv
      else if event = CRDT_UPDATE then crdtUpdateHandler sv
      else if event = PRESENCE_UPDATE then presenceUpdateHandler sv
      else if event = REALTIME_TICK then realtimeTickHandler sv
      else (\<lambda>raw s. Some (True, s)))"

definition on_client_event :: "'w server \<Rightarrow> string \<Rightarrow> wire \<Rightarrow> 'w session \<Rightarrow> 'w session option" where
  \<comment> \<open>the listener that \<open>registerHandler\<close> installs\<close>
  "on_client_event sv event payload s =
     (let (passed, s) = consumeEventToken (now_of sv s) s in
      if \<not> passed
      then (let (notice, s) = throttleNotice (now_of sv s) s
        in Some (if notice then syncError ''Too many realtime events'' s else s))
      else if payloadExceedsCap (sv_number sv) event payload
      then Some (syncError ''Realtime payload too large'' s)
      else do {
        (ok, s) \<leftarrow> client_handler sv event payload s;
        Some (if \<not> ok \<and> cn_connected s then syncError ''Internal realtime server error'' s else s)
      })"

definition on_disconnect :: "'w server \<Rightarrow> 'w session \<Rightarrow> 'w session option" where
  "on_disconnect sv s = map_option snd (disconnectHandler sv (s\<lparr>cn_connected := False\<rparr>))"

section \<open>Who may write\<close>

lemma session_frame [simp]:
  "cn_context (emit e s) = cn_context s" "cn_version (emit e s) = cn_version s" "cn_connected (emit e s) = cn_connected s"
  "se_world (emit e s) = se_world s" "se_ticks (emit e s) = se_ticks s" "se_out (emit e s) = se_out s @ [e]"
  "se_updates (emit e s) = se_updates s" "se_events (emit e s) = se_events s" "cn_lastTickId (emit e s) = cn_lastTickId s"
  by (simp_all add: emit_def)

definition only_told :: "'w session \<Rightarrow> 'w session \<Rightarrow> bool" where
  \<comment> \<open>nothing happened but an error message to the sender, and a tick number taken note of\<close>
  "only_told s s' = (\<exists>tick messages. s' = s\<lparr>cn_lastTickId := tick, se_out := se_out s @ map (\<lambda>m.
     ToSelf SYNC_ERROR (WObj [(''message'', WStr m)])) messages\<rparr>)"

lemma only_told_refl: "only_told s s"
  unfolding only_told_def by (intro exI[of _ "cn_lastTickId s"] exI[of _ "[]"]) simp

lemma only_told_error: "only_told s (syncError m s)"
  unfolding only_told_def syncError_def emit_def by (intro exI[of _ "cn_lastTickId s"] exI[of _ "[m]"]) simp

lemma only_told_tick: "only_told s (syncError m (s\<lparr>cn_lastTickId := t\<rparr>))"
  unfolding only_told_def syncError_def emit_def by (intro exI[of _ t] exI[of _ "[m]"]) simp

lemmas only_told_intros = only_told_refl only_told_error only_told_tick

definition may_write :: "wire \<Rightarrow> 'a connection_scheme \<Rightarrow> bool" where
  "may_write raw c = (case cn_context c of None \<Rightarrow> False
     | Some context \<Rightarrow> bc_permission context = ''edit'' \<and> board_id_of raw = Some (bc_boardId context))"

lemma board_id_nonempty: "board_id_of raw = Some b \<Longrightarrow> b \<noteq> []"
  unfolding board_id_of_def by (cases "get_prop ''boardId'' raw") (auto split: if_splits)

lemma parsed_board_id:
  "parseMutationBatchPayload raw = Some p1 \<Longrightarrow> board_id_of raw = Some (mp_boardId p1)"
  "parseCrdtUpdatePayload raw = Some p2 \<Longrightarrow> board_id_of raw = Some (up_boardId p2)"
  "parsePresenceUpdatePayload raw = Some p3 \<Longrightarrow> board_id_of raw = Some (pp_boardId p3)"
  "parseRealtimeTickPayload js raw = Some p4 \<Longrightarrow> board_id_of raw = Some (pp_boardId p4)"
  unfolding parseMutationBatchPayload_def parseCrdtUpdatePayload_def parsePresenceUpdatePayload_def
    parseRealtimeTickPayload_def Let_def
  by (auto split: if_splits option.splits)

lemma snapshot_taken:
  assumes "takeContextSnapshot b c = Some snapshot" "b \<noteq> []"
  shows "cn_context c = Some (cs_context snapshot)" "bc_boardId (cs_context snapshot) = b" "cs_version snapshot = cn_version c"
  using assms by (auto simp: takeContextSnapshot_def split: option.splits if_splits)

lemma snapshot_may_write:
  assumes "board_id_of raw = Some b" "takeContextSnapshot b c = Some snapshot"
  shows "may_write raw c = (bc_permission (cs_context snapshot) = ''edit'')"
  using snapshot_taken[OF assms(2) board_id_nonempty[OF assms(1)]] assms(1) by (simp add: may_write_def)

text \<open>C7: Whoever has no edit permission for the board of a message changes nothing with it: a mutation batch,
  a CRDT update or a tick with moves leaves the board, the queues, the rooms and everything else as they are and is
  answered with an error message at most, whatever the message contains and whatever runs meanwhile.\<close>

theorem viewers_change_nothing:
  assumes "\<not> may_write raw s"
  shows "(\<exists>s'. mutationBatchHandler sv raw s = Some (True, s') \<and> only_told s s') \<and>
    (\<exists>s'. crdtUpdateHandler sv raw s = Some (True, s') \<and> only_told s s') \<and>
    ((\<exists>s'. realtimeTickHandler sv raw s = Some (True, s') \<and> only_told s s') \<or>
     (\<exists>p. parseRealtimeTickPayload (sv_js_String sv) raw = Some p \<and> tp_moves p = []))"
proof (intro conjI)
  show "\<exists>s'. mutationBatchHandler sv raw s = Some (True, s') \<and> only_told s s'"
  proof (cases "parseMutationBatchPayload raw")
    case None
    then show ?thesis by (simp add: mutationBatchHandler_def only_told_intros)
  next
    case (Some p)
    note b = parsed_board_id(1)[OF Some]
    show ?thesis using assms snapshot_may_write[OF b, of s] Some
      by (cases "takeContextSnapshot (mp_boardId p) s") (simp_all add: mutationBatchHandler_def only_told_intros)
  qed
  show "\<exists>s'. crdtUpdateHandler sv raw s = Some (True, s') \<and> only_told s s'"
  proof (cases "parseCrdtUpdatePayload raw")
    case None
    then show ?thesis by (simp add: crdtUpdateHandler_def only_told_intros)
  next
    case (Some p)
    note b = parsed_board_id(2)[OF Some]
    show ?thesis using assms snapshot_may_write[OF b, of s] Some
      by (cases "takeContextSnapshot (up_boardId p) s") (simp_all add: crdtUpdateHandler_def only_told_intros)
  qed
  show "(\<exists>s'. realtimeTickHandler sv raw s = Some (True, s') \<and> only_told s s') \<or>
     (\<exists>p. parseRealtimeTickPayload (sv_js_String sv) raw = Some p \<and> tp_moves p = [])"
  proof (cases "parseRealtimeTickPayload (sv_js_String sv) raw")
    case None
    then show ?thesis by (simp add: realtimeTickHandler_def only_told_intros)
  next
    case (Some p)
    note b = parsed_board_id(4)[OF Some]
    show ?thesis using assms snapshot_may_write[OF b, of s] Some
      by (cases "takeContextSnapshot (pp_boardId p) s") (auto simp: realtimeTickHandler_def Let_def only_told_intros)
  qed
qed

section \<open>What a message is signed with\<close>

fun sent_by :: "board_context option \<Rightarrow> emission \<Rightarrow> bool" where
  \<comment> \<open>a broadcast goes to the board of the context and carries its session, user and name\<close>
  "sent_by c (ToSelf ev p) = True"
| "sent_by None (ToOthers b ev p) = False"
| "sent_by (Some c) (ToOthers b ev p) = (b = bc_boardId c \<and>
     (if ev = PRESENCE \<or> ev = REALTIME_TICK
      then get_prop ''sessionId'' p = WStr (bc_sessionId c) \<and> get_prop ''userId'' p = WStr (bc_userId c) \<and>
        get_prop ''userName'' p = WStr (bc_userName c)
      else ev = MUTATION_BROADCAST \<or> ev = CRDT_UPDATE))"
| "sent_by c (ToRoom b ev p) = False"

definition adds :: "board_context option \<Rightarrow> 'w session \<Rightarrow> 'w session \<Rightarrow> bool" where
  "adds c s s' = (\<exists>es. se_out s' = se_out s @ es \<and> list_all (sent_by c) es)"

lemma adds_refl: "se_out s' = se_out s \<Longrightarrow> adds c s s'"
  by (simp add: adds_def)

lemma adds_trans: "adds c s t \<Longrightarrow> adds c t u \<Longrightarrow> adds c s u"
  unfolding adds_def by (metis append_assoc list_all_append)

lemma adds_emit: "sent_by c e \<Longrightarrow> adds c s (emit e s)"
  unfolding adds_def by (intro exI[of _ "[e]"]) simp

lemma adds_error [simp]: "adds c s (syncError m s)"
  unfolding syncError_def by (rule adds_emit) simp

definition silent :: "'w server \<Rightarrow> bool" where
  \<comment> \<open>what the socket sends meanwhile is not counted as sent by the handler\<close>
  "silent sv = (\<forall>n s. se_out (sv_meanwhile sv n s) = se_out s)"

lemma activity_out: "se_out (snd (shouldWriteActivity A r t s)) = se_out s"
  by (simp add: shouldWriteActivity_def Let_def)

lemma await_unit_out: "silent sv \<Longrightarrow> await_unit sv n f s = Some s' \<Longrightarrow> se_out s' = se_out s"
  by (auto simp: await_unit_def silent_def split: option.splits)

lemma await_out: "silent sv \<Longrightarrow> await sv n f s = Some (a, s') \<Longrightarrow> se_out s' = se_out s"
  by (auto simp: await_def silent_def split: option.splits)

lemma refresh_out:
  assumes "silent sv" "map_option (sv_meanwhile sv n) (refreshSocketActivity sv snapshot force s) = Some s'"
  shows "se_out s' = se_out s"
proof -
  obtain t where t: "refreshSocketActivity sv snapshot force s = Some t" "s' = sv_meanwhile sv n t"
    using assms(2) by (cases "refreshSocketActivity sv snapshot force s") auto
  have "se_out t = se_out s"
    using t(1) activity_out[of "sv_activity sv" "sv_random sv" "now_of sv s" s]
    by (auto simp: refreshSocketActivity_def Let_def Option.bind_eq_Some_conv dest!: await_unit_out[OF assms(1)]
        split: if_splits prod.splits)
  then show ?thesis using t(2) assms(1) by (simp add: silent_def)
qed

lemma ack_loop_adds: "adds (Some c) s (snd (snd (ack_loop (bc_boardId c) rs ids n s)))"
proof (induction "bc_boardId c" rs ids n s rule: ack_loop.induct)
  case (3 r m rest ids n s)
  have "adds (Some c) s (emit (ToOthers (bc_boardId c) MUTATION_BROADCAST (WObj [(''mutation'', m)])) s)"
    by (rule adds_emit) (simp add: event_names)
  then show ?case using 3 adds_trans by (auto intro: adds_refl)
qed (auto intro: adds_refl)

lemma signed [simp]:
  "js_get ''sessionId'' (who c @ xs) = Some (WStr (bc_sessionId c))"
  "js_get ''userId'' (who c @ xs) = Some (WStr (bc_userId c))"
  "js_get ''userName'' (who c @ xs) = Some (WStr (bc_userName c))"
  "get_prop ''sessionId'' (tick_message c p) = WStr (bc_sessionId c)"
  "get_prop ''userId'' (tick_message c p) = WStr (bc_userId c)"
  "get_prop ''userName'' (tick_message c p) = WStr (bc_userName c)"
  by (simp_all add: who_def tick_message_def)

lemma acknowledge_adds:
  assumes "silent sv" "bc_boardId (cs_context snapshot) = mp_boardId payload"
  shows "adds (Some (cs_context snapshot)) s (acknowledge sv snapshot payload results s)"
proof -
  define v where "v = sv_meanwhile sv 5 (s\<lparr>se_events := se_events s @ [BOARD_MUTATED (bc_boardId (cs_context snapshot))]\<rparr>)"
  obtain ids n x where x: "ack_loop (mp_boardId payload) (zip results (mp_mutations payload)) [] None v = (ids, n, x)"
    by (metis prod_cases3)
  have "adds (Some (cs_context snapshot)) s v" using assms(1) by (simp add: adds_refl v_def silent_def)
  moreover have "adds (Some (cs_context snapshot)) v x"
    using ack_loop_adds[of "cs_context snapshot" v] x assms(2) by (metis snd_conv)
  moreover have "adds (Some (cs_context snapshot)) x (emit (ToSelf MUTATION_ACK (ack_message ids n)) x)"
    by (rule adds_emit) simp
  ultimately show ?thesis using x
    by (auto simp: acknowledge_def v_def[symmetric] intro: adds_trans)
qed

lemma run_batch_adds:
  assumes "silent sv" "bc_boardId (cs_context snapshot) = mp_boardId payload"
    and "run_batch sv snapshot payload s = Some (ok, s')"
  shows "adds (Some (cs_context snapshot)) s s'"
proof -
  obtain results t where t: "await sv 4 (processBatch (sv_env sv) (sv_processor sv)
      (map (sv_decode sv) (mp_mutations payload))) s = Some (results, t)"
    using assms(3) by (auto simp: run_batch_def Option.bind_eq_Some_conv)
  have st: "adds (Some (cs_context snapshot)) s t" using await_out[OF assms(1) t] by (rule adds_refl)
  show ?thesis using assms(3) t st acknowledge_adds[OF assms(1,2)]
    by (auto simp: run_batch_def split: sum.splits if_splits intro: adds_trans)
qed

lemma batch_adds:
  assumes "silent sv" "mutationBatchHandler sv raw s = Some (ok, s')"
  shows "adds (cn_context s) s s'"
proof (cases "parseMutationBatchPayload raw")
  case (Some payload)
  show ?thesis
  proof (cases "takeContextSnapshot (mp_boardId payload) s")
    case snap: (Some snap)
    note taken = snapshot_taken[OF snap board_id_nonempty[OF parsed_board_id(1)[OF Some]]]
    have later: "adds (cn_context s) s t" if "map_option (sv_meanwhile sv 3) (refreshSocketActivity sv snap False s) = Some t" for t
      using refresh_out[OF assms(1) that] by (rule adds_refl)
    show ?thesis using assms(2) Some snap later run_batch_adds[OF assms(1), of snap payload] taken
      by (auto simp: mutationBatchHandler_def Option.bind_eq_Some_conv split: if_splits intro: adds_trans)
  qed (use assms(2) Some in \<open>auto simp: mutationBatchHandler_def\<close>)
qed (use assms(2) in \<open>auto simp: mutationBatchHandler_def\<close>)

lemma crdt_adds:
  assumes "silent sv" "crdtUpdateHandler sv raw s = Some (ok, s')"
  shows "adds (cn_context s) s s'"
proof (cases "parseCrdtUpdatePayload raw")
  case (Some payload)
  show ?thesis
  proof (cases "takeContextSnapshot (up_boardId payload) s")
    case snap: (Some snap)
    note taken = snapshot_taken[OF snap board_id_nonempty[OF parsed_board_id(2)[OF Some]]]
    have later: "se_out t = se_out s" if "map_option (sv_meanwhile sv 3) (refreshSocketActivity sv snap False s) = Some t" for t
      by (rule refresh_out[OF assms(1) that])
    show ?thesis using assms(2) Some snap later taken
      by (auto simp: crdtUpdateHandler_def Option.bind_eq_Some_conv adds_def syncError_def event_names split: if_splits)
  qed (use assms(2) Some in \<open>auto simp: crdtUpdateHandler_def\<close>)
qed (use assms(2) in \<open>auto simp: crdtUpdateHandler_def\<close>)

lemma presence_adds:
  assumes "silent sv" "presenceUpdateHandler sv raw s = Some (ok, s')"
  shows "adds (cn_context s) s s'"
proof (cases "parsePresenceUpdatePayload raw")
  case (Some payload)
  show ?thesis
  proof (cases "takeContextSnapshot (pp_boardId payload) s")
    case snap: (Some snap)
    note taken = snapshot_taken[OF snap board_id_nonempty[OF parsed_board_id(3)[OF Some]]]
    have later: "se_out t = se_out s" if "map_option (sv_meanwhile sv 3) (refreshSocketActivity sv snap False s) = Some t" for t
      by (rule refresh_out[OF assms(1) that])
    show ?thesis using assms(2) Some snap later taken
      by (auto simp: presenceUpdateHandler_def Option.bind_eq_Some_conv adds_def syncError_def split: if_splits)
  qed (use assms(2) Some in \<open>auto simp: presenceUpdateHandler_def\<close>)
qed (use assms(2) in \<open>auto simp: presenceUpdateHandler_def\<close>)

lemma tick_adds:
  assumes "silent sv" "realtimeTickHandler sv raw s = Some (ok, s')"
  shows "adds (cn_context s) s s'"
proof (cases "parseRealtimeTickPayload (sv_js_String sv) raw")
  case (Some payload)
  show ?thesis
  proof (cases "takeContextSnapshot (pp_boardId payload) s")
    case snap: (Some snap)
    note taken = snapshot_taken[OF snap board_id_nonempty[OF parsed_board_id(4)[OF Some]]]
    let ?s = "s\<lparr>cn_lastTickId := tp_tickId payload\<rparr>"
    have later: "se_out t = se_out s" if "map_option (sv_meanwhile sv 3) (refreshSocketActivity sv snap False ?s) = Some t" for t
      using refresh_out[OF assms(1) that] by simp
    have told: "adds (cn_context s) s (syncError m ?s)" for m
      by (auto simp: adds_def syncError_def)
    show ?thesis using assms(2) Some snap later taken told
      by (auto simp: realtimeTickHandler_def Let_def Option.bind_eq_Some_conv adds_def syncError_def split: if_splits)
  qed (use assms(2) Some in \<open>auto simp: realtimeTickHandler_def\<close>)
qed (use assms(2) in \<open>auto simp: realtimeTickHandler_def\<close>)

lemma gate_frame:
  "cn_context (snd (consumeEventToken t s)) = cn_context s" "se_out (snd (consumeEventToken t s)) = se_out s"
  "cn_context (snd (throttleNotice t s)) = cn_context s" "se_out (snd (throttleNotice t s)) = se_out s"
  by (simp_all add: consumeEventToken_def throttleNotice_def Let_def)

lemma client_handler_adds:
  assumes "silent sv" "event \<noteq> BOARD_JOIN" "client_handler sv event raw s = Some (ok, s')"
  shows "adds (cn_context s) s s'"
  using assms(2,3) batch_adds[OF assms(1)] crdt_adds[OF assms(1)] presence_adds[OF assms(1)] tick_adds[OF assms(1)]
  by (auto simp: client_handler_def adds_refl split: if_splits)

text \<open>What a client sends to a board is signed by the server: apart from joins, whatever event with whatever
  payload arrives and whatever runs meanwhile, the other sockets hear of it only on the board of the sender's own
  context at that time, and presence and tick messages carry the session, user and name of that context.\<close>

theorem broadcasts_are_signed:
  assumes "silent sv" "event \<noteq> BOARD_JOIN" "on_client_event sv event raw s = Some s'"
  shows "\<exists>es. se_out s' = se_out s @ es \<and> list_all (sent_by (cn_context s)) es"
proof -
  obtain passed s1 where s1: "consumeEventToken (now_of sv s) s = (passed, s1)" by fastforce
  have frame: "cn_context s1 = cn_context s" "se_out s1 = se_out s"
    using gate_frame(1,2)[of "now_of sv s" s] s1 by simp_all
  have start: "adds (cn_context s) s s1" using frame by (simp add: adds_refl)
  have "adds (cn_context s) s1 s'"
  proof (cases passed)
    case False
    obtain notice s2 where s2: "throttleNotice (now_of sv s1) s1 = (notice, s2)" by fastforce
    have "adds (cn_context s) s1 s2" using gate_frame(4)[of "now_of sv s1" s1] s2 by (simp add: adds_refl)
    then show ?thesis using assms(3) s1 s2 False adds_trans adds_error by (fastforce simp: on_client_event_def Let_def)
  next
    case True
    show ?thesis
    proof (cases "payloadExceedsCap (sv_number sv) event raw")
      case True
      then show ?thesis using assms(3) s1 \<open>passed\<close> by (auto simp: on_client_event_def Let_def)
    next
      case False
      then obtain ok s2 where s2: "client_handler sv event raw s1 = Some (ok, s2)"
          "s' = (if \<not> ok \<and> cn_connected s2 then syncError ''Internal realtime server error'' s2 else s2)"
        using assms(3) s1 True by (auto simp: on_client_event_def Let_def Option.bind_eq_Some_conv)
      have "adds (cn_context s) s1 s2" using client_handler_adds[OF assms(1,2) s2(1)] frame by simp
      then show ?thesis using s2(2) adds_trans adds_error by fastforce
    qed
  qed
  then have "adds (cn_context s) s s'" using start adds_trans by blast
  then show ?thesis by (simp add: adds_def)
qed

section \<open>A late tick\<close>

definition quiet :: "'w server \<Rightarrow> 'w server" where
  "quiet sv = sv\<lparr>sv_meanwhile := (\<lambda>n s. s)\<rparr>"

lemma quiet_sel [simp]:
  "sv_env (quiet sv) = sv_env sv" "sv_activity (quiet sv) = sv_activity sv" "sv_random (quiet sv) = sv_random sv"
  "sv_js_String (quiet sv) = sv_js_String sv" "sv_meanwhile (quiet sv) n s = s" "now_of (quiet sv) s = now_of sv s"
  by (simp_all add: quiet_def now_of_def)

definition deliver_tick :: "'w server \<Rightarrow> board_context \<Rightarrow> tick_payload \<Rightarrow> 'w session \<Rightarrow> 'w session" where
  \<comment> \<open>the end of the handler: moves to the queue, message to the board\<close>
  "deliver_tick sv c p s = emit (ToOthers (pp_boardId p) REALTIME_TICK (tick_message c p))
     (s\<lparr>se_ticks := queueMoves (now_of sv s) (pp_boardId p) (bc_userId c) (tp_moves p) (se_ticks s)\<rparr>)"

definition editing_at :: "board_context \<Rightarrow> tick_payload \<Rightarrow> 'w session \<Rightarrow> bool" where
  "editing_at c p s = (cn_connected s \<and> cn_context s = Some c \<and> bc_permission c = ''edit'' \<and>
     pp_boardId p = bc_boardId c \<and> cn_lastTickId s < tp_tickId p)"

definition snapshot_of :: "board_context \<Rightarrow> 'a connection_scheme \<Rightarrow> context_snapshot" where
  "snapshot_of c s = \<lparr>cs_context = c, cs_version = cn_version s\<rparr>"

lemma tick_start:
  assumes "parseRealtimeTickPayload (sv_js_String sv) raw = Some p" "editing_at c p s"
    and "refreshSocketActivity sv (snapshot_of c s) False (s\<lparr>cn_lastTickId := tp_tickId p\<rparr>) = Some t"
    and "sv_meanwhile sv 3 t = t" "isSnapshotActive (snapshot_of c s) t"
  shows "realtimeTickHandler sv raw s = Some (True, deliver_tick sv c p t)"
  using assms
  by (auto simp: realtimeTickHandler_def editing_at_def takeContextSnapshot_def Let_def deliver_tick_def
      snapshot_of_def now_of_def)

lemma activity_writes:
  assumes "shouldWriteActivity A r t s = (True, s')"
  shows "\<exists>j. s' = s\<lparr>cn_jitter := Some j, cn_activityAt := t\<rparr> \<and>
    j = (case cn_jitter s of Some j \<Rightarrow> j | None \<Rightarrow> r (ao_jitterMs A + 1)) \<and> (\<forall>t' u. cn_jitter u = Some j \<longrightarrow> cn_activityAt u = t \<longrightarrow> t' - t < max 0 (ao_throttleMs A + j) \<longrightarrow>
      shouldWriteActivity A r t' u = (False, u))"
  using assms by (auto simp: shouldWriteActivity_def Let_def split: if_splits option.splits)

lemma refresh_skips:
  assumes "shouldWriteActivity (sv_activity sv) (sv_random sv) (now_of sv s) s = (False, s)"
  shows "refreshSocketActivity sv snapshot False s = Some s"
  using assms by (simp add: refreshSocketActivity_def)

lemma refresh_writes:
  assumes "shouldWriteActivity (sv_activity sv) (sv_random sv) (now_of sv s) s = (True, s1)"
    and "touchViewerSession (sv_env sv) (bc_boardId (cs_context snapshot)) (bc_sessionId (cs_context snapshot)) (se_world s1) = Some w1"
    and "sv_meanwhile sv 0 (s1\<lparr>se_world := w1\<rparr>) = s2"
    and "trackClient (sv_env sv) (bc_boardId (cs_context snapshot)) (bc_userId (cs_context snapshot)) (cn_id s2) (se_world s2) = Some w2"
    and "sv_meanwhile sv 1 = (\<lambda>s. s)" "sv_meanwhile sv 2 = (\<lambda>s. s)"
  shows "refreshSocketActivity sv snapshot False s = Some (s2\<lparr>se_world := touchParticipant (sv_env sv) (sv_rooms sv)
    (bc_boardId (cs_context snapshot)) (cn_id s2) w2\<rparr>)"
  using assms by (simp add: refreshSocketActivity_def await_unit_def)

lemma delivered [simp]:
  "cn_id (deliver_tick sv c p s) = cn_id s" "se_world (deliver_tick sv c p s) = se_world s"
  "cn_context (deliver_tick sv c p s) = cn_context s" "cn_version (deliver_tick sv c p s) = cn_version s"
  "cn_connected (deliver_tick sv c p s) = cn_connected s" "cn_lastTickId (deliver_tick sv c p s) = cn_lastTickId s"
  "se_out (deliver_tick sv c p s) = se_out s @ [ToOthers (pp_boardId p) REALTIME_TICK (tick_message c p)]"
  by (simp_all add: deliver_tick_def emit_def)

lemma delivered_pending:
  "map_of (rev (tp_moves p)) i = Some pos \<Longrightarrow>
   js_get i (pending_of (pp_boardId p) (se_ticks (deliver_tick sv c p s))) = Some pos"
  by (auto simp: deliver_tick_def pending_queue set_positions_get)

text \<open>An older tick can overtake a newer one. The tick number is compared before the activity of the socket is
  refreshed: when the older tick has to await that refresh and the newer one, arriving meanwhile, has not, the newer
  is sent and queued first and then the older one, so its positions replace the newer ones for the other clients
  and in the moves to be saved, although the last tick number is the newer one.\<close>

theorem older_tick_overtakes:
  fixes s :: "'w session"
  assumes "parseRealtimeTickPayload (sv_js_String sv) raw1 = Some p1" "editing_at c p1 s"
    and "parseRealtimeTickPayload (sv_js_String sv) raw2 = Some p2" "pp_boardId p2 = bc_boardId c"
    and "tp_tickId p1 < tp_tickId p2"
    and "shouldWriteActivity (sv_activity sv) (sv_random sv) (now_of sv s) (s\<lparr>cn_lastTickId := tp_tickId p1\<rparr>) = (True, s1)"
    and "touchViewerSession (sv_env sv) (bc_boardId c) (bc_sessionId c) (se_world s) = Some w1"
    and "trackClient (sv_env sv) (bc_boardId c) (bc_userId c) (cn_id s) w1 = Some w2"
    and "e_now (sv_env sv) w1 - now_of sv s < ao_throttleMs (sv_activity sv)" "\<forall>n. 0 \<le> sv_random sv n"
      "\<forall>j. cn_jitter s = Some j \<longrightarrow> 0 \<le> j"
    and "sv_meanwhile sv = (\<lambda>n s. if n = 0 then snd (the (realtimeTickHandler (quiet sv) raw2 s)) else s)"
  shows "\<exists>s'. realtimeTickHandler sv raw1 s = Some (True, s') \<and> cn_lastTickId s' = tp_tickId p2 \<and>
    se_out s' = se_out s @ [ToOthers (bc_boardId c) REALTIME_TICK (tick_message c p2),
      ToOthers (bc_boardId c) REALTIME_TICK (tick_message c p1)] \<and>
    (\<forall>i pos. map_of (rev (tp_moves p1)) i = Some pos \<longrightarrow>
       js_get i (pending_of (bc_boardId c) (se_ticks s')) = Some pos)"
proof -
  obtain j where s1: "s1 = s\<lparr>cn_lastTickId := tp_tickId p1, cn_jitter := Some j, cn_activityAt := now_of sv s\<rparr>"
    and later: "\<And>t' (u :: 'w session). cn_jitter u = Some j \<Longrightarrow> cn_activityAt u = now_of sv s \<Longrightarrow>
      t' - now_of sv s < max 0 (ao_throttleMs (sv_activity sv) + j) \<Longrightarrow>
      shouldWriteActivity (sv_activity sv) (sv_random sv) t' u = (False, u)"
    and choice: "j = (case cn_jitter s of Some j \<Rightarrow> j | None \<Rightarrow> sv_random sv (ao_jitterMs (sv_activity sv) + 1))"
    using activity_writes[OF assms(6)] by auto
  have j: "0 \<le> j" using assms(10,11) by (simp add: choice split: option.split)
  define s2 where "s2 = s1\<lparr>se_world := w1\<rparr>"
  define s3 where "s3 = deliver_tick (quiet sv) c p2 (s2\<lparr>cn_lastTickId := tp_tickId p2\<rparr>)"
  have ed2: "editing_at c p2 s2" using assms(2,4,5) by (simp add: editing_at_def s2_def s1)
  have "refreshSocketActivity (quiet sv) (snapshot_of c s2) False (s2\<lparr>cn_lastTickId := tp_tickId p2\<rparr>)
      = Some (s2\<lparr>cn_lastTickId := tp_tickId p2\<rparr>)"
    by (rule refresh_skips) (use assms(9) j in \<open>auto simp: now_of_def s2_def s1 intro!: later\<close>)
  then have h2: "realtimeTickHandler (quiet sv) raw2 s2 = Some (True, s3)"
    unfolding s3_def using assms(2,3) by (intro tick_start ed2)
      (auto simp: isSnapshotActive_def snapshot_of_def s2_def s1 editing_at_def)
  have world3: "se_world s3 = w1" "cn_id s3 = cn_id s" by (simp_all add: s3_def s2_def s1)
  define s4 where "s4 = s3\<lparr>se_world := touchParticipant (sv_env sv) (sv_rooms sv) (bc_boardId c) (cn_id s) w2\<rparr>"
  have "refreshSocketActivity sv (snapshot_of c s) False (s\<lparr>cn_lastTickId := tp_tickId p1\<rparr>) = Some s4"
    unfolding s4_def
    using refresh_writes[of sv "s\<lparr>cn_lastTickId := tp_tickId p1\<rparr>" s1 "snapshot_of c s" w1 s3 w2] assms(6,7,8,12) h2 world3
    by (simp add: snapshot_of_def now_of_def s2_def[symmetric]) (simp add: s1)
  then have h1: "realtimeTickHandler sv raw1 s = Some (True, deliver_tick sv c p1 s4)"
    using assms(1,2,12) by (intro tick_start)
      (auto simp: isSnapshotActive_def snapshot_of_def s4_def s3_def s2_def s1 editing_at_def)
  have b1: "pp_boardId p1 = bc_boardId c" using assms(2) by (simp add: editing_at_def)
  have pend: "js_get i (pending_of (bc_boardId c) (se_ticks (deliver_tick sv c p1 s4))) = Some pos"
    if "map_of (rev (tp_moves p1)) i = Some pos" for i pos
    using delivered_pending[OF that, of sv c s4] b1 by simp
  show ?thesis
    by (intro exI[of _ "deliver_tick sv c p1 s4"] conjI allI impI pend)
      (simp_all add: h1 b1 assms(4) s4_def s3_def s2_def s1)
qed

section \<open>Whom a join lets in\<close>

definition steady :: "'w server \<Rightarrow> bool" where
  \<comment> \<open>nothing else sets the context of this socket meanwhile\<close>
  "steady sv = (\<forall>n s. cn_context (sv_meanwhile sv n s) = cn_context s)"

lemma await_context: "steady sv \<Longrightarrow> await sv n f s = Some (a, s') \<Longrightarrow> cn_context s' = cn_context s"
  by (auto simp: await_def steady_def split: option.splits)

lemma await_unit_context: "steady sv \<Longrightarrow> await_unit sv n f s = Some s' \<Longrightarrow> cn_context s' = cn_context s"
  by (auto simp: await_unit_def steady_def split: option.splits)

lemma error_context [simp]: "cn_context (syncError m s) = cn_context s"
  by (simp add: syncError_def)

lemma flush_ticks_context: "steady sv \<Longrightarrow> flush_ticks sv b s = Some (ok, s') \<Longrightarrow> cn_context s' = cn_context s"
  by (auto simp: flush_ticks_def steady_def split: option.splits sum.splits)

lemma some_result [elim]: "\<forall>e. r \<noteq> Inl e \<Longrightarrow> r \<noteq> Inr () \<Longrightarrow> P"
  by (cases r) auto

lemma cleanup_context:
  assumes "steady sv" "cleanupBoardRealtimeStateIfEmpty sv b s = Some (ok, s')"
  shows "cn_context s' = cn_context s"
  using assms(2) by (auto simp: cleanupBoardRealtimeStateIfEmpty_def Option.bind_eq_Some_conv clear_rooms_def
      split: if_splits sum.splits dest!: await_context[OF assms(1)] flush_ticks_context[OF assms(1)])

lemma drain_context:
  assumes "steady sv" "persistBoardOnGlobalDrain sv b s = Some (ok, s')"
  shows "cn_context s' = cn_context s"
  using assms(2) by (auto simp: persistBoardOnGlobalDrain_def Option.bind_eq_Some_conv
      split: if_splits sum.splits dest!: await_context[OF assms(1)])

lemma detach_context:
  assumes "steady sv" "detachFromBoard sv c broadcast s = Some (ok, s')"
  shows "cn_context s' = None"
proof -
  have none: "cn_context (setBoardContext None t) = None" for t :: "'a session"
    by (simp add: setBoardContext_def)
  show ?thesis using assms(2) none
    by (auto simp: detachFromBoard_def Let_def Option.bind_eq_Some_conv split: if_splits option.splits
        dest!: await_context[OF assms(1)] await_unit_context[OF assms(1)] cleanup_context[OF assms(1)]
          drain_context[OF assms(1)])
qed

lemma enter_room_context:
  assumes "steady sv" "enter_room sv n c s = Some (ok, s')"
  shows "cn_context s' \<in> {None, Some c}"
proof -
  let ?s = "setBoardContext (Some c) (s\<lparr>cn_rooms := List.insert (bc_boardId c) (cn_rooms s)\<rparr>)"
  obtain ps s1 adm s2 where s1: "await sv 17 (\<lambda>w. Some (getRoomParticipants (sv_env sv) (sv_rooms sv) (bc_boardId c) w)) ?s = Some (ps, s1)"
    and s2: "await sv 18 (\<lambda>w. Some (admitParticipant (sv_env sv) (sv_rooms sv) (bc_boardId c) (cn_id s1)
        (participant_of c) SOCKET_ROOM_CONNECTION_CAP w)) (s1\<lparr>se_out := se_out s1 @ roster_emissions (bc_sessionId c) ps\<rparr>)
        = Some (adm, s2)"
    using assms(2) by (auto simp: enter_room_def Let_def Option.bind_eq_Some_conv)
  have "cn_context s2 = Some c"
    using await_context[OF assms(1) s1] await_context[OF assms(1) s2] by (simp add: setBoardContext_def)
  then show ?thesis using assms(2) s1 s2
    by (auto simp: enter_room_def announce_def Let_def Option.bind_eq_Some_conv split: if_splits
        dest!: await_context[OF assms(1)] detach_context[OF assms(1)])
qed

lemma prepare_board_context:
  assumes "steady sv" "prepare_board sv n c s = Some (ok, s')"
  shows "cn_context s' \<in> {None, Some c, cn_context s}"
  using assms(2) by (auto simp: prepare_board_def Option.bind_eq_Some_conv split: if_splits sum.splits
      dest!: await_context[OF assms(1)] await_unit_context[OF assms(1)] enter_room_context[OF assms(1)])

lemma leave_previous_context:
  assumes "steady sv" "leave_previous sv c s = Some (ok, s')"
  shows "cn_context s' \<in> {None, cn_context s}"
  using assms(2) by (auto simp: leave_previous_def split: if_splits option.splits dest!: detach_context[OF assms(1)])

lemma switch_context:
  assumes "steady sv" "(let c = c in do { (ok, s) \<leftarrow> leave_previous sv c s;
    if \<not> ok then Some (False, s) else prepare_board sv n c s }) = Some (ok, s')"
  shows "cn_context s' \<in> {None, Some c, cn_context s}"
proof -
  obtain ok1 s1 where s1: "leave_previous sv c s = Some (ok1, s1)"
    using assms(2) by (auto simp: Let_def Option.bind_eq_Some_conv)
  have "cn_context s' \<in> {None, Some c, cn_context s1}"
    using assms(2) s1 prepare_board_context[OF assms(1), of n c s1 ok s'] by (auto split: if_splits)
  then show ?thesis using leave_previous_context[OF assms(1) s1] by auto
qed

definition identified :: "'w server \<Rightarrow> 'w session \<Rightarrow> socket_identity \<Rightarrow> bool" where
  "identified sv s identity = (case cn_identity s of Some i \<Rightarrow> identity = i | None \<Rightarrow> \<exists>w. identity = sv_resolve sv w)"

lemma identify_facts:
  assumes "steady sv" "identify sv n s = Some (identity, s')"
  shows "cn_context s' = cn_context s \<and> (\<forall>i. identity = Some i \<longrightarrow> identified sv s i)"
proof (cases "cn_identity s")
  case None
  have kept: "cn_context (sv_meanwhile sv 11 t) = cn_context t" for t
    using assms(1) by (simp add: steady_def)
  have resolved: "\<exists>w. i = sv_resolve sv w" if "await sv 10 (\<lambda>w. Some (sv_resolve sv w, w)) s = Some (i, t)" for i t
    using that by (auto simp: await_def)
  show ?thesis using assms(2) None resolved
    by (auto simp: identify_def identified_def Option.bind_eq_Some_conv kept split: if_splits
        dest: await_context[OF assms(1)])
qed (use assms(2) in \<open>auto simp: identify_def identified_def\<close>)

definition presented_token :: "'w server \<Rightarrow> board_join_payload \<Rightarrow> string option" where
  "presented_token sv payload = (case jp_shareToken payload of Some t \<Rightarrow> Some t | None \<Rightarrow> sv_shareQuery sv)"

definition join_asks :: "'w server \<Rightarrow> wire \<Rightarrow> 'w session \<Rightarrow> board_join_payload \<Rightarrow> socket_identity \<Rightarrow> 'w \<Rightarrow> bool" where
  \<comment> \<open>with this payload and this identity the join that starts in \<open>s\<close> comes to its access check, in this world\<close>
  "join_asks sv raw s payload identity w = (parseBoardJoinPayload (sv_js_String sv) raw = Some payload \<and>
     (\<exists>s1. identify sv (fst (startJoinAttempt s)) (snd (startJoinAttempt s)) = Some (Some identity, s1) \<and> se_world s1 = w))"

definition let_in :: "'w server \<Rightarrow> wire \<Rightarrow> 'w session \<Rightarrow> socket_identity \<Rightarrow> board_context \<Rightarrow> bool" where
  "let_in sv raw s identity c = (\<exists>payload access w. join_asks sv raw s payload identity w \<and>
     sv_access sv (jp_boardId payload) (si_authUserId identity) (presented_token sv payload) w = Some access \<and>
     ac_hasAccess access \<and> c = join_context payload identity access)"

lemma join_lets_in:
  assumes "steady sv" "boardJoinHandler sv raw s = Some (ok, s')" "cn_context s' = Some c"
  shows "cn_context s = Some c \<or> (\<exists>identity. identified sv s identity \<and> let_in sv raw s identity c)"
proof (cases "parseBoardJoinPayload (sv_js_String sv) raw")
  case None
  then show ?thesis using assms(2,3) by (auto simp: boardJoinHandler_def)
next
  case (Some payload)
  obtain n s0 where s0: "startJoinAttempt s = (n, s0)" by fastforce
  then have frame: "cn_context s0 = cn_context s" "cn_identity s0 = cn_identity s" by (auto simp: startJoinAttempt_def)
  obtain identity s1 where s1: "identify sv n s0 = Some (identity, s1)"
    using assms(2) Some s0 by (auto simp: boardJoinHandler_def Option.bind_eq_Some_conv)
  have c1: "cn_context s1 = cn_context s" "\<And>i. identity = Some i \<Longrightarrow> identified sv s i"
    using identify_facts[OF assms(1) s1] frame by (auto simp: identified_def)
  show ?thesis
  proof (cases "identity = None \<or> \<not> isJoinActive n s1")
    case True
    then show ?thesis using assms(2,3) Some s0 s1 c1
      by (cases identity) (auto simp: boardJoinHandler_def)
  next
    case False
    then obtain i where i: "identity = Some i" by auto
    let ?token = "case jp_shareToken payload of Some t \<Rightarrow> Some t | None \<Rightarrow> sv_shareQuery sv"
    obtain access s2 where s2: "await sv 12 (\<lambda>w. Some (sv_access sv (jp_boardId payload) (si_authUserId i) ?token w, w)) s1
        = Some (access, s2)"
      using assms(2) Some s0 s1 i False by (auto simp: boardJoinHandler_def Option.bind_eq_Some_conv)
    have c2: "cn_context s2 = cn_context s" using await_context[OF assms(1) s2] c1 by simp
    have asked: "sv_access sv (jp_boardId payload) (si_authUserId i) (presented_token sv payload) (se_world s1) = access"
      "join_asks sv raw s payload i (se_world s1)"
      using s2 Some s0 s1 i by (auto simp: await_def presented_token_def join_asks_def)
    show ?thesis
    proof (cases "\<exists>a. access = Some a \<and> isJoinActive n s2 \<and> ac_hasAccess a")
      case False
      then show ?thesis using assms(2,3) Some s0 s1 s2 i c2 \<open>\<not> (identity = None \<or> \<not> isJoinActive n s1)\<close>
        by (auto simp: boardJoinHandler_def split: option.splits if_splits)
    next
      case True
      then obtain a where a: "access = Some a" "isJoinActive n s2" "ac_hasAccess a" by auto
      have "cn_context s' \<in> {None, cn_context s, Some (join_context payload i a)}"
        using assms(2) Some s0 s1 s2 i a c2 \<open>\<not> (identity = None \<or> \<not> isJoinActive n s1)\<close>
        by (auto simp: boardJoinHandler_def Option.bind_eq_Some_conv[of "await sv 13 f t" for f t] split: if_splits
            dest!: await_context[OF assms(1)] switch_context[OF assms(1)])
      then have "cn_context s = Some c \<or> c = join_context payload i a" using assms(3) by auto
      moreover have "let_in sv raw s i (join_context payload i a)"
        using asked a unfolding let_in_def by blast
      ultimately show ?thesis using c1(2)[OF i] by blast
    qed
  qed
qed

text \<open>Only a join that passes the access check gives a socket a board: the context it ends with is the one it
  had, none, or the board, session and permission of a request for which the access check, asked about the
  authenticated user of this socket and the share token, has granted access.\<close>

theorem join_needs_access:
  assumes "steady sv" "boardJoinHandler sv raw s = Some (ok, s')" "cn_context s' = Some c"
  shows "cn_context s = Some c \<or> (\<exists>identity. identified sv s identity \<and> let_in sv raw s identity c)"
  using assms by (rule join_lets_in)

text \<open>C19: Nobody becomes an editor of a room against the sharing rules. Let the access check of the board service
  decide on the tables \<open>T w\<close> of the world \<open>w\<close> in which the join asks it, and let no other handler set the context of
  this socket while the join awaits (\<open>steady\<close>; anything else may change meanwhile). If the join gives the socket a new
  context with edit permission, then the board of that context is the one of its payload, it existed when the check
  ran, and the user of this socket, or whoever holds the token that this payload or else the handshake presents, may
  edit it by the rules.\<close>

theorem join_edits_by_rule:
  assumes "steady sv" "boardJoinHandler sv raw s = Some (ok, s')"
    and "cn_context s' = Some c" "cn_context s \<noteq> Some c" "bc_permission c = ''edit''"
    and checked: "sv_access sv = (\<lambda>b u t w. case checkBoardAccess S (T w) b u t of Inl _ \<Rightarrow> None | Inr a \<Rightarrow> Some a)"
    and tables: "\<And>w. boards_ok (T w)" "\<And>w. members_ok (T w)" "\<And>w. ws_members_ok (T w)"
  shows "\<exists>payload identity w b. join_asks sv raw s payload identity w \<and> identified sv s identity \<and>
    bc_userId c = si_runtimeUserId identity \<and> bc_boardId c = jp_boardId payload \<and>
    b \<in> set (t_boards (T w)) \<and> b_id b = bc_boardId c \<and>
    may_edit (T w) b (si_authUserId identity) (presented_token sv payload)"
proof -
  obtain i where i: "identified sv s i" "let_in sv raw s i c"
    using join_lets_in[OF assms(1-3)] assms(4) by blast
  then obtain p a w where p: "join_asks sv raw s p i w" "c = join_context p i a"
    and a: "sv_access sv (jp_boardId p) (si_authUserId i) (presented_token sv p) w = Some a"
    unfolding let_in_def by blast
  have "checkBoardAccess S (T w) (jp_boardId p) (si_authUserId i) (presented_token sv p) = Inr a"
    using a by (auto simp: checked split: sum.splits)
  then have "ac_permission a = Some ''edit'' \<longleftrightarrow>
      (\<exists>b \<in> set (t_boards (T w)). b_id b = jp_boardId p \<and> may_edit (T w) b (si_authUserId i) (presented_token sv p))"
    using access_decided[OF tables, of S w "jp_boardId p" "si_authUserId i" "presented_token sv p"] by auto
  moreover have "ac_permission a = Some ''edit''"
    using assms(5) by (simp add: p(2) join_context_def split: if_splits)
  ultimately have "\<exists>b \<in> set (t_boards (T w)). b_id b = jp_boardId p \<and> may_edit (T w) b (si_authUserId i) (presented_token sv p)"
    by blast
  then show ?thesis using i(1) p(1) unfolding p(2) by (auto simp: join_context_def)
qed

section \<open>Services that return on a loaded board\<close>

context redis_client
begin

lemma extend_ready:
  "board_ready E b (extendCollabModeIfNeeded E b n w) = board_ready E b w"
  "v_now (view (extendCollabModeIfNeeded E b n w)) = v_now (view w)"
  by (simp_all add: extendCollabModeIfNeeded_def extendCollabMode_def board_ready_view written key_defs
      COLLAB_MODE_COOLDOWN_MS_def)

lemma touch_ready:
  assumes "board_ready E b w"
  shows "\<exists>w'. touchViewerSession E b x w = Some w' \<and> board_ready E b w' \<and> v_now (view w') = v_now (view w)"
  using assms by (simp add: touchViewerSession_def waitForBoardLoad_ready Let_def extend_ready)
    (simp add: board_ready_view written key_defs)

lemma track_ready:
  assumes "board_ready E b w"
  shows "\<exists>w'. trackClient E b u x w = Some w' \<and> board_ready E b w' \<and> v_now (view w') = v_now (view w)"
  using assms by (simp add: trackClient_def waitForBoardLoad_ready Let_def extend_ready)
    (simp add: board_ready_view written key_defs CLIENT_LEASE_TTL_SECONDS_def)

end

definition loaded_at :: "string \<Rightarrow> rview \<Rightarrow> bool" where
  "loaded_at b v = (v_strs v (boardEvictionLockKey b) = None \<and> v_strs v (boardSeqKey b) \<noteq> None)"

context redis_client
begin

lemma loaded_at_ready: "loaded_at b (view w) \<Longrightarrow> board_ready E b w"
  by (auto simp: loaded_at_def board_ready_view)

lemma extend_frame:
  "v_hash (view (extendCollabModeIfNeeded E b n w)) = v_hash (view w)"
  "loaded_at b (view (extendCollabModeIfNeeded E b n w)) = loaded_at b (view w)"
  by (simp_all add: extendCollabModeIfNeeded_def extendCollabMode_def loaded_at_def written key_defs)

lemma touch_joining:
  assumes "loaded_at b (view w)"
  shows "\<exists>w'. touchViewerSession E b x w = Some w' \<and> loaded_at b (view w') \<and> v_hash (view w') = v_hash (view w)"
  using assms by (simp add: touchViewerSession_def waitForBoardLoad_ready[OF loaded_at_ready] Let_def extend_frame)
    (simp add: loaded_at_def written key_defs)

lemma track_joining:
  assumes "loaded_at b (view w)"
  shows "\<exists>w'. trackClient E b u x w = Some w' \<and> loaded_at b (view w') \<and> v_hash (view w') = v_hash (view w)"
  using assms by (simp add: trackClient_def waitForBoardLoad_ready[OF loaded_at_ready] Let_def extend_frame)
    (simp add: loaded_at_def written key_defs CLIENT_LEASE_TTL_SECONDS_def)

lemma prune_joining:
  "loaded_at b (view (pruneExpired E P b' w)) = loaded_at b (view w)"
  "registered P b (view (pruneExpired E P b w)) \<subseteq> registered P b (view w)"
  by (simp add: pruneExpired_def prune_delete_def loaded_at_def written) (simp add: registered_prune)

lemma admit_joining:
  "loaded_at b (view (snd (admitParticipant E P b' x p cap w))) = loaded_at b (view w)"
  by (simp add: admitParticipant_def setParticipant_def loaded_at_def written)

lemma snapshot_joining: "loaded_at b (view w) \<Longrightarrow> \<exists>r. getSnapshot E b w = Some (r, w)"
  by (simp add: getSnapshot_def waitForBoardLoad_ready[OF loaded_at_ready])

lemma finite_registered: "finite (registered P b (view w))"
  using finite_hash[of w] by (simp add: registered_def)

end

definition board_message :: "emission \<Rightarrow> bool" where
  "board_message e = (\<exists>elements sequence. e = ToSelf BOARD_SNAPSHOT (snapshot_message elements sequence))"

definition joined :: "'w server \<Rightarrow> ('w \<Rightarrow> rview) \<Rightarrow> board_context \<Rightarrow> 'w session \<Rightarrow> bool" where
  \<comment> \<open>in the room and listed, the others told, the board received\<close>
  "joined sv view c s = (cn_context s = Some c \<and> bc_boardId c \<in> set (cn_rooms s) \<and>
     cn_id s \<in> registered (sv_rooms sv) (bc_boardId c) (view (se_world s)) \<and>
     (\<exists>before board. se_out s = before @
       [ToOthers (bc_boardId c) USER_JOINED (wire_of (JObj (participant_of c))), board] \<and> board_message board))"

lemma board_messageI [intro]: "board_message (ToSelf BOARD_SNAPSHOT (snapshot_message elements sequence))"
  by (auto simp: board_message_def)

context redis_client
begin

lemma enter_room_completes:
  assumes env: "sv_env sv = E" and quiet: "sv_meanwhile sv = (\<lambda>n s. s)"
    and "isJoinActive n s" "loaded_at (bc_boardId c) (view (se_world s))"
    and room: "card (registered (sv_rooms sv) (bc_boardId c) (view (se_world s))) < SOCKET_ROOM_CONNECTION_CAP"
  shows "\<exists>s'. enter_room sv n c s = Some (True, s') \<and> joined sv view c s'"
proof -
  let ?b = "bc_boardId c" and ?P = "sv_rooms sv"
  let ?w1 = "pruneExpired E ?P ?b (se_world s)"
  obtain ps where ps: "getRoomParticipants E ?P ?b (se_world s) = (ps, ?w1)"
    by (simp add: getRoomParticipants_def Let_def)
  have fits: "card (registered ?P ?b (view ?w1)) < SOCKET_ROOM_CONNECTION_CAP"
    using card_mono[OF finite_registered prune_joining(2), of ?P ?b "se_world s"] room by simp
  obtain w2 where w2: "admitParticipant E ?P ?b (cn_id s) (participant_of c) SOCKET_ROOM_CONNECTION_CAP ?w1 = (True, w2)"
    using admit_reply[of ?P ?b "cn_id s" "participant_of c" SOCKET_ROOM_CONNECTION_CAP ?w1] fits by (metis eq_fst_iff)
  have "loaded_at ?b (view w2)" "cn_id s \<in> registered ?P ?b (view w2)"
    using admit_joining[of ?b ?P ?b "cn_id s" "participant_of c" SOCKET_ROOM_CONNECTION_CAP ?w1]
      admit_registered[of ?P ?b "cn_id s" "participant_of c" SOCKET_ROOM_CONNECTION_CAP ?w1] w2 assms(4)
    by (simp_all add: prune_joining(1))
  then show ?thesis
    using snapshot_joining[of ?b w2] ps w2 assms(3) quiet env
    by (auto simp: enter_room_def announce_def await_def Let_def setBoardContext_def isJoinActive_def joined_def emit_def)
qed

lemma prepare_board_completes:
  assumes env: "sv_env sv = E" and quiet: "sv_meanwhile sv = (\<lambda>n s. s)"
    and active: "isJoinActive n s" and loaded: "loaded_at (bc_boardId c) (view (se_world s))"
    and room: "card (registered (sv_rooms sv) (bc_boardId c) (view (se_world s))) < SOCKET_ROOM_CONNECTION_CAP"
  shows "\<exists>s'. prepare_board sv n c s = Some (True, s') \<and> joined sv view c s'"
proof -
  let ?b = "bc_boardId c"
  have load: "loadBoard E ?b (se_world s) = Some (Inr 0, se_world s)"
    using loaded by (simp add: loaded_at_def loadBoard.simps exists_str)
  obtain w1 where w1: "trackClient E ?b (bc_userId c) (cn_id s) (se_world s) = Some w1"
      "loaded_at ?b (view w1)" "v_hash (view w1) = v_hash (view (se_world s))"
    using track_joining[OF loaded] by blast
  obtain w2 where w2: "touchViewerSession E ?b (bc_sessionId c) w1 = Some w2"
      "loaded_at ?b (view w2)" "v_hash (view w2) = v_hash (view w1)"
    using touch_joining[OF w1(2)] by blast
  have "\<exists>s'. enter_room sv n c (s\<lparr>se_world := w2\<rparr>) = Some (True, s') \<and> joined sv view c s'"
    by (rule enter_room_completes[OF env quiet])
      (use active w1 w2 room in \<open>simp_all add: isJoinActive_def registered_def\<close>)
  then show ?thesis using load w1(1) w2(1) active quiet env
    by (simp add: prepare_board_def await_def await_unit_def isJoinActive_def)
qed

end

lemma join_gets_through:
  assumes "redis_client (sv_env sv) view" and quiet: "sv_meanwhile sv = (\<lambda>n s. s)"
    and "parseBoardJoinPayload (sv_js_String sv) raw = Some p"
    and "cn_connected s" "cn_context s = None" "cn_identity s = Some i"
    and access: "sv_access sv (jp_boardId p) (si_authUserId i)
        (case jp_shareToken p of Some t \<Rightarrow> Some t | None \<Rightarrow> sv_shareQuery sv) (se_world s) = Some a" "ac_hasAccess a"
    and loaded: "loaded_at (jp_boardId p) (view (se_world s))"
    and room: "card (registered (sv_rooms sv) (jp_boardId p) (view (se_world s))) < SOCKET_ROOM_CONNECTION_CAP"
  shows "\<exists>s'. boardJoinHandler sv raw s = Some (True, s') \<and> joined sv view (join_context p i a) s'"
proof -
  note redis = redis_client.finite_registered[OF assms(1)] redis_client.prune_joining[OF assms(1)] redis_client.hlen[OF assms(1)]
  let ?b = "jp_boardId p" and ?P = "sv_rooms sv" and ?c = "join_context p i a"
  let ?w = "pruneExpired (sv_env sv) ?P ?b (se_world s)"
  let ?s = "s\<lparr>cn_latestJoin := cn_latestJoin s + 1\<rparr>"
  have b: "bc_boardId ?c = ?b" by (simp add: join_context_def)
  have fits: "card (registered ?P ?b (view ?w)) < SOCKET_ROOM_CONNECTION_CAP"
    using card_mono[OF redis(1,3), of ?P ?b "se_world s"] room by simp
  obtain m k where k: "getAdmissionState (sv_env sv) ?P ?b (cn_id s) (se_world s) = ((m, k), ?w)"
      "k < SOCKET_ROOM_CONNECTION_CAP"
    using fits by (simp add: getAdmissionState_def Let_def redis registered_def)
  have "\<exists>s'. prepare_board sv (cn_latestJoin s + 1) ?c (?s\<lparr>se_world := ?w\<rparr>) = Some (True, s') \<and> joined sv view ?c s'"
    by (rule redis_client.prepare_board_completes[OF assms(1) refl quiet])
      (use assms(4) fits loaded in \<open>simp_all add: isJoinActive_def b redis(2)\<close>)
  then show ?thesis using assms(3-6) access k quiet
    by (simp add: boardJoinHandler_def startJoinAttempt_def identify_def await_def isJoinActive_def leave_previous_def)
qed

text \<open>A join gets through: on a loaded board with a free seat, for a connected socket that is on no board and for
  which the access check grants access, a valid request ends with the socket in the room with the permission
  granted, listed among the participants, the others told, and the board as the last message to the client.\<close>

theorem join_completes:
  assumes "redis_client (sv_env sv) view" and quiet: "sv_meanwhile sv = (\<lambda>n s. s)"
    and "parseBoardJoinPayload (sv_js_String sv) raw = Some p"
    and "cn_connected s" "cn_context s = None" "cn_identity s = Some i"
    and access: "sv_access sv (jp_boardId p) (si_authUserId i)
        (case jp_shareToken p of Some t \<Rightarrow> Some t | None \<Rightarrow> sv_shareQuery sv) (se_world s) = Some a" "ac_hasAccess a"
    and loaded: "loaded_at (jp_boardId p) (view (se_world s))"
    and room: "card (registered (sv_rooms sv) (jp_boardId p) (view (se_world s))) < SOCKET_ROOM_CONNECTION_CAP"
  shows "\<exists>s'. boardJoinHandler sv raw s = Some (True, s') \<and> joined sv view (join_context p i a) s'"
  using assms by (rule join_gets_through)

section \<open>What a join and a cleanup do not look at\<close>

text \<open>A join admits a socket that has gone. Between setting the context and the admission the handler awaits the
  list of participants and does not ask again whether the join is still active: when the socket disconnects in this
  moment, and its disconnect handler takes it out of the room, the join then writes it into the room again; it stays
  listed without a connection, a context or a heartbeat.\<close>

theorem join_admits_gone_socket:
  assumes "redis_client (sv_env sv) view"
    and gone: "sv_meanwhile sv 17 = (\<lambda>s. t)" "\<not> cn_connected t" "cn_context t = None" and later: "sv_meanwhile sv 18 = (\<lambda>s. s)"
    and room: "card (registered (sv_rooms sv) (bc_boardId c) (view (se_world t))) < SOCKET_ROOM_CONNECTION_CAP"
  shows "\<exists>s'. enter_room sv n c s = Some (True, s') \<and> \<not> cn_connected s' \<and> cn_context s' = None \<and>
    cn_id t \<in> registered (sv_rooms sv) (bc_boardId c) (view (se_world s'))"
proof -
  let ?b = "bc_boardId c" and ?P = "sv_rooms sv"
  obtain ps w1 where ps: "getRoomParticipants (sv_env sv) ?P ?b (se_world s) = (ps, w1)" by fastforce
  obtain w2 where w2: "admitParticipant (sv_env sv) ?P ?b (cn_id t) (participant_of c) SOCKET_ROOM_CONNECTION_CAP (se_world t) = (True, w2)"
    using redis_client.admit_reply[OF assms(1), of ?P ?b "cn_id t" "participant_of c" SOCKET_ROOM_CONNECTION_CAP "se_world t"] room
    by (metis eq_fst_iff)
  have "cn_id t \<in> registered ?P ?b (view w2)"
    using redis_client.admit_registered[OF assms(1), of ?P ?b "cn_id t" "participant_of c" SOCKET_ROOM_CONNECTION_CAP "se_world t"] w2
    by simp
  then show ?thesis using ps w2 gone later
    by (simp add: enter_room_def await_def Let_def isJoinActive_def setBoardContext_def)
qed

text \<open>The cleanup of a board that was found empty drops the moves that arrive while it runs: when somebody joins
  and moves elements while the cleanup awaits the flush of the CRDT room, the moves are queued, and the cleanup then
  clears the queue with its timers; nothing has saved them.\<close>

theorem cleanup_drops_new_moves:
  assumes "sv_meanwhile sv 23 = (\<lambda>s. s)" "getRoomSize (sv_env sv) (sv_rooms sv) b (se_world s) = (0, w0)"
    and "flush_ticks sv b (s\<lparr>se_world := w0\<rparr>) = Some (True, s1)" "sv_crdtFlush sv b (se_world s1) = Some (Inr (), w1)"
    and new: "sv_meanwhile sv 25 = (\<lambda>s. s\<lparr>se_ticks := queueMoves now b u ms (se_ticks s)\<rparr>)" "ms \<noteq> []"
  shows "\<exists>s'. cleanupBoardRealtimeStateIfEmpty sv b s = Some (True, s') \<and> se_world s' = w1 \<and>
    pending_of b (queueMoves now b u ms (se_ticks s1)) \<noteq> [] \<and> pending_of b (se_ticks s') = [] \<and>
    \<not> js_has b (tk_debounce (se_ticks s')) \<and> \<not> js_has b (tk_maxWait (se_ticks s'))"
proof -
  have "pending_of b (queueMoves now b u ms (se_ticks s1)) \<noteq> []"
    using new(2) by (simp add: pending_queue set_positions_nonempty)
  moreover have "cleanupBoardRealtimeStateIfEmpty sv b s = Some (True,
      clear_rooms b (s1\<lparr>se_world := w1, se_ticks := queueMoves now b u ms (se_ticks s1)\<rparr>))"
    using assms by (simp add: cleanupBoardRealtimeStateIfEmpty_def await_def)
  ultimately show ?thesis
    by (simp add: clear_rooms_def clearBoard_def clearTimers_def pending_of_def js_has_def)
qed

section \<open>A concrete session\<close>

definition editor :: board_context where
  "editor = \<lparr>bc_boardId = ''b1'', bc_sessionId = ''s1'', bc_permission = ''edit'', bc_userId = ''u1'',
     bc_userName = ''Ann'', bc_avatarUrl = None, bc_color = ''#8B5CF6''\<rparr>"

definition tick_wire :: "rat \<Rightarrow> rat \<Rightarrow> wire" where
  "tick_wire n x = WObj [(''boardId'', WStr ''b1''), (''tickId'', WNum (Fin n)),
     (''moves'', WArr [WObj [(''id'', WStr ''a''), (''x'', WNum (Fin x)), (''y'', WNum (Fin 0))]])]"

definition demo_server :: "(nat \<Rightarrow> mem session \<Rightarrow> mem session) \<Rightarrow> mem server" where
  "demo_server meanwhile = \<lparr>sv_env = mem_env, sv_rooms = default_options,
     sv_processor = \<lparr>pr_targetedReads = True, pr_incremental = True\<rparr>, sv_activity = default_activity,
     sv_random = (\<lambda>n. 0), sv_randomText = ''r'', sv_js_String = (\<lambda>v. ''''), sv_number = (\<lambda>n. ''''),
     sv_decode = (\<lambda>v. \<lparr>mut_id = '''', mut_board = '''', mut_clientTimestamp = 0, mut_operation = DELETE_ELEMENTS []\<rparr>),
     sv_resolve = (\<lambda>w. \<lparr>si_authUserId = Some ''u1'', si_runtimeUserId = ''u1'', si_userName = ''Ann'', si_avatarUrl = None\<rparr>),
     sv_access = (\<lambda>b u t w. Some (granted ''edit'')), sv_shareQuery = None,
     sv_crdtFlush = (\<lambda>b w. Some (Inr (), w)), sv_meanwhile = meanwhile\<rparr>"

definition session_of :: "connection \<Rightarrow> mem \<Rightarrow> mem session" where
  "session_of c w = connection.extend c \<lparr>se_world = w, se_ticks = no_ticks, se_updates = [], se_out = [], se_events = []\<rparr>"

definition editing :: "mem session" where
  "editing = session_of ((connected_at 1000000 ''c1'')\<lparr>cn_context := Some editor, cn_version := 1\<rparr>) loaded_world"

lemma demo_server_sel [simp]:
  "sv_env (demo_server m) = mem_env" "sv_rooms (demo_server m) = default_options"
  "sv_activity (demo_server m) = default_activity" "sv_random (demo_server m) n = 0"
  "sv_js_String (demo_server m) v = []" "sv_meanwhile (demo_server m) = m"
  by (simp_all add: demo_server_def)

lemma editing_sel [simp]:
  "cn_id editing = ''c1''" "cn_connected editing" "cn_context editing = Some editor" "cn_version editing = 1"
  "cn_lastTickId editing = - 1" "cn_jitter editing = None" "cn_activityAt editing = 0" "se_world editing = loaded_world"
  "se_ticks editing = no_ticks" "se_out editing = []"
  by (simp_all add: editing_def session_of_def connection.defs connected_at_def)

definition demo_tick :: "rat \<Rightarrow> rat \<Rightarrow> tick_payload" where
  "demo_tick n x = \<lparr>pp_boardId = ''b1'', pp_cursor = None, pp_selectedIds = [], pp_draggedIds = [],
     pp_focusedElementId = None, pp_typingField = None, tp_tickId = n, tp_presenceState = ''active'',
     tp_presenceMessage = None, tp_moves = [(''a'', x, 0)]\<rparr>"

lemma demo_tick_parsed: "0 \<le> n \<Longrightarrow> parseRealtimeTickPayload js (tick_wire n x) = Some (demo_tick n x)"
  by (simp add: parseRealtimeTickPayload_def tick_wire_def demo_tick_def board_id_of_def payload_limits cursor_of_def
      typing_of_def presence_state_of_def move_of_def Let_def)

lemma loaded_world_now: "m_now loaded_world = 1000000"
  by (simp add: loaded_world_def)

lemma quiet_demo_server: "quiet (demo_server m) = demo_server (\<lambda>n s. s)"
  by (simp add: quiet_def demo_server_def)

theorem older_tick_overtakes_witness:
  "\<exists>s'. realtimeTickHandler (demo_server (\<lambda>n s. if n = 0
       then snd (the (realtimeTickHandler (demo_server (\<lambda>n s. s)) (tick_wire 2 20) s)) else s)) (tick_wire 1 10) editing
     = Some (True, s') \<and> cn_lastTickId s' = 2 \<and> js_get ''a'' (pending_of ''b1'' (se_ticks s')) = Some (10, 0)"
proof -
  let ?sv = "demo_server (\<lambda>n s. if n = 0
    then snd (the (realtimeTickHandler (demo_server (\<lambda>n s. s)) (tick_wire 2 20) s)) else s)"
  obtain w1 where w1: "touchViewerSession mem_env ''b1'' ''s1'' loaded_world = Some w1" "board_ready mem_env ''b1'' w1"
      "e_now mem_env w1 = 1000000"
    using mem.touch_ready[OF loaded_world_facts(1), of "''s1''"] loaded_world_now by (auto simp: mem.now[symmetric])
  obtain w2 where w2: "trackClient mem_env ''b1'' ''u1'' ''c1'' w1 = Some w2"
    using mem.track_ready[OF w1(2)] by blast
  have due: "shouldWriteActivity (sv_activity ?sv) (sv_random ?sv) (now_of ?sv editing)
      (editing\<lparr>cn_lastTickId := tp_tickId (demo_tick 1 10)\<rparr>) =
      (True, editing\<lparr>cn_lastTickId := 1, cn_jitter := Some 0, cn_activityAt := 1000000\<rparr>)"
    by (simp add: shouldWriteActivity_def default_activity_def now_of_def loaded_world_now demo_tick_def Let_def)
  have meanwhile: "sv_meanwhile ?sv = (\<lambda>n s. if n = 0
      then snd (the (realtimeTickHandler (quiet ?sv) (tick_wire 2 20) s)) else s)"
    unfolding quiet_demo_server by simp
  have "\<exists>s'. realtimeTickHandler ?sv (tick_wire 1 10) editing = Some (True, s') \<and>
    cn_lastTickId s' = tp_tickId (demo_tick 2 20) \<and> se_out s' = se_out editing @
      [ToOthers (bc_boardId editor) REALTIME_TICK (tick_message editor (demo_tick 2 20)),
       ToOthers (bc_boardId editor) REALTIME_TICK (tick_message editor (demo_tick 1 10))] \<and>
    (\<forall>i pos. map_of (rev (tp_moves (demo_tick 1 10))) i = Some pos \<longrightarrow>
       js_get i (pending_of (bc_boardId editor) (se_ticks s')) = Some pos)"
    by (rule older_tick_overtakes[OF demo_tick_parsed _ demo_tick_parsed _ _ due _ _ _ _ _ meanwhile,
          where ?w1.0 = w1 and ?w2.0 = w2])
      (use w1 w2 in \<open>simp_all add: editing_at_def editor_def demo_tick_def default_activity_def now_of_def loaded_world_now\<close>)
  then show ?thesis by (auto simp: editor_def demo_tick_def)
qed

definition viewer :: board_context where
  "viewer = editor\<lparr>bc_permission := ''view''\<rparr>"

definition viewing :: "mem session" where
  "viewing = editing\<lparr>cn_context := Some viewer\<rparr>"

theorem viewers_change_nothing_witness:
  "\<exists>s'. realtimeTickHandler (demo_server (\<lambda>n s. s)) (tick_wire 1 10) viewing = Some (True, s') \<and> only_told viewing s'"
proof -
  have "\<not> may_write (tick_wire 1 10) viewing"
    by (simp add: may_write_def viewing_def viewer_def)
  from viewers_change_nothing[OF this, of "demo_server (\<lambda>n s. s)"] show ?thesis
    by (auto simp: demo_tick_parsed) (simp add: demo_tick_def)
qed

definition active :: "mem session" where
  "active = editing\<lparr>cn_jitter := Some 0, cn_activityAt := 1000000\<rparr>"

lemma active_tick:
  "on_client_event (demo_server (\<lambda>n s. s)) REALTIME_TICK (tick_wire 1 10) active =
   Some (deliver_tick (demo_server (\<lambda>n s. s)) editor (demo_tick 1 10)
     (active\<lparr>cn_tokens := SOCKET_EVENT_BUCKET_CAPACITY - 1, cn_lastTickId := 1\<rparr>))"
proof -
  let ?a = "active\<lparr>cn_tokens := SOCKET_EVENT_BUCKET_CAPACITY - 1\<rparr>"
  have fits: "\<not> payloadExceedsCap (sv_number (demo_server (\<lambda>n s. s))) REALTIME_TICK (tick_wire 1 10)"
    by (simp add: payloadExceedsCap_def demo_server_def tick_wire_def SOCKET_EVENT_BYTE_CAPS_def event_names
        MUTATION_BATCH_def MAX_MEASURE_DEPTH_def)
  have passes: "consumeEventToken (now_of (demo_server (\<lambda>n s. s)) active) active = (True, ?a)"
    by (simp add: consumeEventToken_def now_of_def active_def editing_def session_of_def connected_at_def
        connection.defs loaded_world_now SOCKET_EVENT_BUCKET_CAPACITY_def)
  have "refreshSocketActivity (demo_server (\<lambda>n s. s)) (snapshot_of editor ?a) False (?a\<lparr>cn_lastTickId := 1\<rparr>)
      = Some (?a\<lparr>cn_lastTickId := 1\<rparr>)"
    by (rule refresh_skips)
      (simp add: shouldWriteActivity_def active_def now_of_def loaded_world_now default_activity_def)
  then have handled: "realtimeTickHandler (demo_server (\<lambda>n s. s)) (tick_wire 1 10) ?a =
    Some (True, deliver_tick (demo_server (\<lambda>n s. s)) editor (demo_tick 1 10) (?a\<lparr>cn_lastTickId := 1\<rparr>))"
    by (intro tick_start)
      (simp_all add: demo_tick_parsed editing_at_def active_def demo_tick_def editor_def isSnapshotActive_def snapshot_of_def)
  show ?thesis using fits passes handled
    by (simp add: on_client_event_def client_handler_def event_names BOARD_JOIN_def MUTATION_BATCH_def PRESENCE_UPDATE_def)
qed

theorem broadcasts_are_signed_witness:
  "\<exists>s'. on_client_event (demo_server (\<lambda>n s. s)) REALTIME_TICK (tick_wire 1 10) active = Some s' \<and>
     se_out s' = [ToOthers ''b1'' REALTIME_TICK (tick_message editor (demo_tick 1 10))] \<and>
     list_all (sent_by (Some editor)) (se_out s')"
proof -
  have "silent (demo_server (\<lambda>n s. s))" "REALTIME_TICK \<noteq> BOARD_JOIN"
    by (simp_all add: silent_def event_names BOARD_JOIN_def)
  from broadcasts_are_signed[OF this active_tick] active_tick show ?thesis
    by (simp add: active_def) (simp add: demo_tick_def)
qed

definition coming :: "mem session" where
  "coming = session_of ((connected_at 1000000 ''c1'')\<lparr>cn_identity := Some
     \<lparr>si_authUserId = Some ''u1'', si_runtimeUserId = ''u1'', si_userName = ''Ann'', si_avatarUrl = None\<rparr>\<rparr>) loaded_world"

lemma coming_sel [simp]:
  "cn_connected coming" "cn_context coming = None" "se_world coming = loaded_world" "cn_id coming = ''c1''"
  "se_ticks coming = no_ticks" "se_out coming = []"
  "cn_identity coming = Some \<lparr>si_authUserId = Some ''u1'', si_runtimeUserId = ''u1'', si_userName = ''Ann'', si_avatarUrl = None\<rparr>"
  by (simp_all add: coming_def session_of_def connection.defs connected_at_def)

definition join_wire :: wire where
  "join_wire = WObj [(''boardId'', WStr ''b1''), (''sessionId'', WStr ''s1'')]"

lemma join_wire_parsed:
  "parseBoardJoinPayload js join_wire = Some \<lparr>jp_boardId = ''b1'', jp_lastSequence = 0, jp_sessionId = ''s1'',
     jp_shareToken = None, jp_userName = None\<rparr>"
  by (simp add: parseBoardJoinPayload_def join_wire_def board_id_of_def payload_limits)

lemma empty_room: "registered default_options ''b1'' (mem_view loaded_world) = {}"
  by (simp add: registered_def loaded_world_def mem_str_eval key_defs participantsHashKey_def default_options_def
      bkey_def)

lemma loaded_world_loaded: "loaded_at ''b1'' (mem_view loaded_world)"
  by (simp add: loaded_at_def loaded_world_def mem_str_eval key_defs)

definition joining :: board_context where
  "joining = editor\<lparr>bc_color := getUserColor ''u1''\<rparr>"

lemma demo_join:
  "\<exists>s'. boardJoinHandler (demo_server (\<lambda>n s. s)) join_wire coming = Some (True, s') \<and>
     joined (demo_server (\<lambda>n s. s)) mem_view joining s'"
  using join_gets_through[of "demo_server (\<lambda>n s. s)" mem_view, OF _ _ join_wire_parsed, of coming _ "granted ''edit''"]
    mem.redis_client_axioms loaded_world_loaded
  by (simp add: empty_room granted_def demo_server_def SOCKET_ROOM_CONNECTION_CAP_def join_context_def joining_def editor_def)

theorem join_completes_witness:
  "\<exists>s'. boardJoinHandler (demo_server (\<lambda>n s. s)) join_wire coming = Some (True, s') \<and>
     joined (demo_server (\<lambda>n s. s)) mem_view joining s'"
  using join_completes[of "demo_server (\<lambda>n s. s)" mem_view, OF _ _ join_wire_parsed, of coming _ "granted ''edit''"]
    mem.redis_client_axioms loaded_world_loaded
  by (simp add: empty_room granted_def demo_server_def SOCKET_ROOM_CONNECTION_CAP_def join_context_def joining_def
      editor_def)

theorem join_needs_access_witness:
  "\<exists>s'. boardJoinHandler (demo_server (\<lambda>n s. s)) join_wire coming = Some (True, s') \<and>
     (\<exists>identity. identified (demo_server (\<lambda>n s. s)) coming identity \<and>
        let_in (demo_server (\<lambda>n s. s)) join_wire coming identity joining)"
proof -
  obtain s' where s': "boardJoinHandler (demo_server (\<lambda>n s. s)) join_wire coming = Some (True, s')" "cn_context s' = Some joining"
    using demo_join by (auto simp: joined_def)
  have "steady (demo_server (\<lambda>n s. s))" by (simp add: steady_def)
  from join_needs_access[OF this s'] s'(1) show ?thesis by simp
qed

definition room_tables :: tables where
  "room_tables = demo_tables\<lparr>t_boards := [demo_board ''b1''],
     t_members := [\<lparr>bm_id = ''m'', bm_board = ''b1'', bm_user = ''u1'', bm_permission = ''edit'',
       bm_addedBy = None, bm_createdAt = None, bm_updatedAt = None\<rparr>]\<rparr>"

definition checking_server :: "mem server" where
  "checking_server = (demo_server (\<lambda>n s. s))\<lparr>sv_access :=
     (\<lambda>b u t w. case checkBoardAccess demo_sql room_tables b u t of Inl _ \<Rightarrow> None | Inr a \<Rightarrow> Some a)\<rparr>"

lemma room_tables_ok: "boards_ok room_tables" "members_ok room_tables" "ws_members_ok room_tables"
  by (simp_all add: room_tables_def demo_tables_def demo_board_def boards_ok_def tokens_unique_def members_ok_def
      ws_members_ok_def)

lemma room_access: "checkBoardAccess demo_sql room_tables ''b1'' (Some ''u1'') None = Inr (granted ''edit'')"
  using access_decided[OF room_tables_ok, of demo_sql "''b1''" "Some ''u1''" None]
  by (auto simp: granted_def may_view_def may_edit_def view_link_def edit_link_def direct_member_def
    workspace_member_def room_tables_def demo_tables_def demo_board_def)

theorem join_edits_by_rule_witness:
  "\<exists>s' payload identity w b. boardJoinHandler checking_server join_wire coming = Some (True, s') \<and>
     cn_context s' = Some joining \<and> join_asks checking_server join_wire coming payload identity w \<and>
     b \<in> set (t_boards room_tables) \<and> b_id b = ''b1'' \<and>
     may_edit room_tables b (si_authUserId identity) (presented_token checking_server payload)"
proof -
  have "\<exists>s'. boardJoinHandler checking_server join_wire coming = Some (True, s') \<and> joined checking_server mem_view joining s'"
    using join_gets_through[of checking_server mem_view, OF _ _ join_wire_parsed, of coming _ "granted ''edit''"]
      mem.redis_client_axioms loaded_world_loaded room_access
    by (simp add: checking_server_def empty_room SOCKET_ROOM_CONNECTION_CAP_def join_context_def joining_def editor_def)
      (simp add: granted_def demo_server_def)
  then obtain s' where s': "boardJoinHandler checking_server join_wire coming = Some (True, s')" "cn_context s' = Some joining"
    by (auto simp: joined_def)
  have "steady checking_server" by (simp add: steady_def checking_server_def)
  from join_edits_by_rule[OF this s', of demo_sql "\<lambda>w. room_tables"] room_tables_ok s' show ?thesis
    by (fastforce simp: checking_server_def joining_def editor_def)
qed

definition gone :: "mem session" where
  \<comment> \<open>what a disconnect leaves\<close>
  "gone = coming\<lparr>cn_connected := False\<rparr>"

definition leaving :: "nat \<Rightarrow> mem session \<Rightarrow> mem session" where
  "leaving n s = (if n = 17 then gone else s)"

lemma leaving_at [simp]: "leaving 17 = (\<lambda>s. gone)" "leaving 18 = (\<lambda>s. s)"
  by (simp_all add: leaving_def fun_eq_iff)

theorem join_admits_gone_socket_witness:
  "\<exists>s'. enter_room (demo_server leaving) 1 joining coming = Some (True, s') \<and>
     \<not> cn_connected s' \<and> ''c1'' \<in> registered default_options ''b1'' (mem_view (se_world s'))"
proof -
  have "\<not> cn_connected gone" "cn_context gone = None" "cn_id gone = ''c1''" "se_world gone = loaded_world"
    by (simp_all add: gone_def)
  moreover have "bc_boardId joining = ''b1''" by (simp add: joining_def editor_def)
  ultimately show ?thesis
    using join_admits_gone_socket[of "demo_server leaving" mem_view gone joining 1 coming] mem.redis_client_axioms
    by (auto simp: empty_room SOCKET_ROOM_CONNECTION_CAP_def)
qed

theorem cleanup_drops_new_moves_witness:
  "\<exists>s'. cleanupBoardRealtimeStateIfEmpty (demo_server (\<lambda>n s. if n = 25
       then s\<lparr>se_ticks := queueMoves 5 ''b1'' ''u2'' [(''a'', 1, 2)] (se_ticks s)\<rparr> else s)) ''b1'' coming = Some (True, s') \<and>
     pending_of ''b1'' (se_ticks s') = []"
proof -
  let ?sv = "demo_server (\<lambda>n s. if n = 25
    then s\<lparr>se_ticks := queueMoves 5 ''b1'' ''u2'' [(''a'', 1, 2)] (se_ticks s)\<rparr> else s)"
  obtain n w0 where w0: "getRoomSize mem_env default_options ''b1'' loaded_world = (n, w0)" by fastforce
  have "n = 0" using mem.prune_joining(2)[of default_options "''b1''" loaded_world] w0 empty_room
    by (auto simp: getRoomSize_def Let_def mem.hlen registered_def)
  moreover have "flush_ticks ?sv ''b1'' (coming\<lparr>se_world := w0\<rparr>) = Some (True, coming\<lparr>se_world := w0\<rparr>)"
    by (simp add: flush_ticks_def flushTickMoves_def take_moves_def no_ticks_def)
  ultimately show ?thesis
    using cleanup_drops_new_moves[of ?sv "''b1''" coming w0 "coming\<lparr>se_world := w0\<rparr>" w0 5 "''u2''" "[(''a'', 1, 2)]"] w0
    by (auto simp: demo_server_def)
qed

end
