(* ===== verification/Board_Membership.thy ===== *)
theory Board_Membership
  imports Board_Access
begin

text \<open>
  Members and invitations of a board (\<open>boards/domain/members.ts\<close>,
  \<open>boards/domain/invitation-transitions.ts\<close>, \<open>boards/domain/pending-invites.ts\<close>). A transaction
  that throws returns the tables it started from; \<open>race\<close> arguments stand for what other requests
  commit between two statements of one call. The lemmas follow an invitation through its states.
\<close>

definition INVITATION_STATUS_PENDING :: string where "INVITATION_STATUS_PENDING = ''pending''"
definition INVITATION_STATUS_ACCEPTED :: string where "INVITATION_STATUS_ACCEPTED = ''accepted''"
definition INVITATION_STATUS_REVOKED :: string where "INVITATION_STATUS_REVOKED = ''revoked''"

lemmas status_names =
  INVITATION_STATUS_PENDING_def INVITATION_STATUS_ACCEPTED_def INVITATION_STATUS_REVOKED_def

section \<open>Members\<close>

definition getBoardMembers :: "tables \<Rightarrow> string \<Rightarrow> board_member_row list" where
  "getBoardMembers T boardId = filter (\<lambda>m. bm_board m = boardId) (t_members T)"

definition member_key :: "string \<Rightarrow> string \<Rightarrow> board_member_row \<Rightarrow> bool" where
  "member_key boardId userId m = (bm_board m = boardId \<and> bm_user m = userId)"

definition upsert_member :: "sql_env \<Rightarrow> board_member_row \<Rightarrow> (board_member_row \<Rightarrow> board_member_row) \<Rightarrow>
    tables \<Rightarrow> tables outcome" where
  \<comment> \<open>\<open>insert ... on conflict (board_id, user_id) do update\<close>\<close>
  "upsert_member S row update T =
     (let here = member_key (bm_board row) (bm_user row) in
      if bm_permission row \<noteq> BOARD_PERMISSION_VIEW \<and> bm_permission row \<noteq> BOARD_PERMISSION_EDIT
      then Inl (Raised (s_raise S CHECK_VIOLATION))
      else if \<not> (has_board T (bm_board row) \<and> has_user T (bm_user row) \<and>
        (case bm_addedBy row of None \<Rightarrow> True | Some a \<Rightarrow> has_user T a))
      then Inl (Raised (s_raise S FOREIGN_KEY_VIOLATION))
      else if \<exists>m \<in> set (t_members T). here m
      then Inr (T\<lparr>t_members := update_rows here update (t_members T)\<rparr>)
      else Inr (T\<lparr>t_members := t_members T @ [row]\<rparr>))"

definition new_member :: "sql_env \<Rightarrow> string \<Rightarrow> string \<Rightarrow> string \<Rightarrow> string option \<Rightarrow> board_member_row" where
  "new_member S boardId userId permission addedBy = \<lparr>bm_id = s_uuid S 0, bm_board = boardId,
     bm_user = userId, bm_permission = permission, bm_addedBy = addedBy, bm_createdAt = Some (s_now S),
     bm_updatedAt = Some (s_now S)\<rparr>"

definition upsertBoardMember :: "sql_env \<Rightarrow> string \<Rightarrow> string \<Rightarrow> string \<Rightarrow> string option \<Rightarrow> tables \<Rightarrow>
    board_member_row option outcome \<times> tables" where
  "upsertBoardMember S boardId userId permission addedBy T =
     (case upsert_member S (new_member S boardId userId permission addedBy)
        (\<lambda>m. m\<lparr>bm_permission := permission, bm_addedBy := addedBy, bm_updatedAt := Some (s_now S)\<rparr>) T of
        Inl e \<Rightarrow> (Inl e, T)
      | Inr T' \<Rightarrow> (Inr (select_one (member_key boardId userId) (t_members T')), T'))"

definition updateBoardMemberPermission :: "sql_env \<Rightarrow> string \<Rightarrow> string \<Rightarrow> string \<Rightarrow> tables \<Rightarrow> unit outcome \<times> tables" where
  "updateBoardMemberPermission S boardId memberId permission T =
     (let hit = (\<lambda>m. bm_id m = memberId \<and> bm_board m = boardId) in
      if (\<exists>m \<in> set (t_members T). hit m) \<and> permission \<noteq> BOARD_PERMISSION_VIEW \<and> permission \<noteq> BOARD_PERMISSION_EDIT
      then (Inl (Raised (s_raise S CHECK_VIOLATION)), T)
      else (Inr (), T\<lparr>t_members := update_rows hit
        (\<lambda>m. m\<lparr>bm_permission := permission, bm_updatedAt := Some (s_now S)\<rparr>) (t_members T)\<rparr>))"

definition deleteBoardMember :: "string \<Rightarrow> string \<Rightarrow> tables \<Rightarrow> tables" where
  "deleteBoardMember boardId memberId T =
     T\<lparr>t_members := delete_rows (\<lambda>m. bm_id m = memberId \<and> bm_board m = boardId) (t_members T)\<rparr>"

definition leaveBoard :: "string \<Rightarrow> string \<Rightarrow> tables \<Rightarrow> tables" where
  "leaveBoard boardId userId T = T\<lparr>t_members := delete_rows (member_key boardId userId) (t_members T)\<rparr>"

section \<open>Invitations\<close>

definition same_invitation_slot :: "board_invitation_row \<Rightarrow> board_invitation_row \<Rightarrow> bool" where
  \<comment> \<open>\<open>board_invitation_pending_idx\<close>: board, address and status, whatever the status is\<close>
  "same_invitation_slot q r = (bi_board q = bi_board r \<and> bi_emailLower q = bi_emailLower r \<and> bi_status q = bi_status r)"

definition invitations_unique :: "board_invitation_row list \<Rightarrow> bool" where
  "invitations_unique rows = (\<forall>q \<in> set rows. \<forall>r \<in> set rows. bi_id q \<noteq> bi_id r \<longrightarrow>
     bi_token q \<noteq> bi_token r \<and> \<not> same_invitation_slot q r)"

definition getUserEmail :: "tables \<Rightarrow> string \<Rightarrow> string outcome" where
  "getUserEmail T userId = (case select_one (\<lambda>u. us_id u = userId) (t_users T) of
     None \<Rightarrow> Inl (Thrown ''User not found'')
   | Some u \<Rightarrow> if us_email u = [] then Inl (Thrown ''User not found'') else Inr (us_email u))"

definition getPendingBoardInvitation :: "tables \<Rightarrow> string \<Rightarrow> string \<Rightarrow> board_invitation_row option" where
  "getPendingBoardInvitation T boardId emailLower = select_one (\<lambda>i. bi_board i = boardId \<and>
     bi_emailLower i = emailLower \<and> bi_status i = INVITATION_STATUS_PENDING) (t_invitations T)"

definition insert_invitation :: "sql_env \<Rightarrow> board_invitation_row \<Rightarrow> tables \<Rightarrow> tables outcome" where
  "insert_invitation S row T =
     (if bi_permission row \<noteq> BOARD_PERMISSION_VIEW \<and> bi_permission row \<noteq> BOARD_PERMISSION_EDIT
      then Inl (Raised (s_raise S CHECK_VIOLATION))
      else if bi_id row \<in> bi_id ` set (t_invitations T) \<or> \<not> invitations_unique (t_invitations T @ [row])
      then Inl (Raised (s_raise S UNIQUE_VIOLATION))
      else if \<not> (has_board T (bi_board row) \<and> has_user T (bi_invitedBy row))
      then Inl (Raised (s_raise S FOREIGN_KEY_VIOLATION))
      else Inr (T\<lparr>t_invitations := t_invitations T @ [row]\<rparr>))"

record invite_ref =
  ir_inviteId :: string
  ir_token :: string

definition ref_of :: "board_invitation_row \<Rightarrow> invite_ref" where
  "ref_of i = \<lparr>ir_inviteId = bi_id i, ir_token = bi_token i\<rparr>"

definition new_invitation :: "sql_env \<Rightarrow> string \<Rightarrow> string \<Rightarrow> string \<Rightarrow> string \<Rightarrow> board_invitation_row" where
  "new_invitation S boardId invitedBy emailLower permission = \<lparr>bi_id = s_uuid S 0, bi_board = boardId,
     bi_invitedBy = invitedBy, bi_emailLower = emailLower, bi_permission = permission,
     bi_status = INVITATION_STATUS_PENDING, bi_token = generateInvitationToken S,
     bi_expiresAt = buildInvitationExpiry S, bi_respondedAt = None, bi_createdAt = Some (s_now S),
     bi_updatedAt = Some (s_now S)\<rparr>"

definition createBoardInvitation :: "sql_env \<Rightarrow> (tables \<Rightarrow> tables) \<Rightarrow> (tables \<Rightarrow> tables) \<Rightarrow>
    string \<Rightarrow> string \<Rightarrow> string \<Rightarrow> string \<Rightarrow> tables \<Rightarrow> invite_ref outcome \<times> tables" where
  "createBoardInvitation S race1 race2 boardId invitedBy email permission T =
     (let emailLower = normalizeEmail email in
      case getPendingBoardInvitation T boardId emailLower of
        Some pending \<Rightarrow> (Inr (ref_of pending), T)
      | None \<Rightarrow>
          (let T = race1 T; row = new_invitation S boardId invitedBy emailLower permission in
           case insert_invitation S row T of
             Inr T' \<Rightarrow> (Inr (ref_of row), T')
           | Inl (Raised e) \<Rightarrow>
               if isUniqueViolation e
               then (let T = race2 T in
                     case getPendingBoardInvitation T boardId emailLower of
                       Some pending \<Rightarrow> (Inr (ref_of pending), T)
                     | None \<Rightarrow> (Inl (Raised e), T))
               else (Inl (Raised e), T)
           | Inl e \<Rightarrow> (Inl e, T)))"

definition respond :: "sql_env \<Rightarrow> string \<Rightarrow> board_invitation_row \<Rightarrow> board_invitation_row" where
  "respond S status i =
     i\<lparr>bi_status := status, bi_respondedAt := Some (s_now S), bi_updatedAt := Some (s_now S)\<rparr>"

definition update_invitations :: "sql_env \<Rightarrow> (board_invitation_row \<Rightarrow> bool) \<Rightarrow> string \<Rightarrow> tables \<Rightarrow>
    board_invitation_row list outcome \<times> tables" where
  \<comment> \<open>\<open>update(boardInvitations).set({ status, respondedAt, updatedAt }).where(hit)\<close>: the rows hit\<close>
  "update_invitations S hit status T =
     (let rows = update_rows hit (respond S status) (t_invitations T)
      in if invitations_unique rows then (Inr (filter hit (t_invitations T)), T\<lparr>t_invitations := rows\<rparr>)
         else (Inl (Raised (s_raise S UNIQUE_VIOLATION)), T))"

definition acceptBoardInvitationByToken :: "sql_env \<Rightarrow> string \<Rightarrow> string \<Rightarrow> tables \<Rightarrow> unit outcome \<times> tables" where
  "acceptBoardInvitationByToken S token userId T = (case getUserEmail T userId of
     Inl e \<Rightarrow> (Inl e, T)
   | Inr email \<Rightarrow>
       (let emailLower = normalizeEmail email in
        case select_one (\<lambda>i. bi_token i = token \<and> bi_emailLower i = emailLower) (t_invitations T) of
          None \<Rightarrow> (Inl (Thrown ''Invitation not found''), T)
        | Some invitation \<Rightarrow>
            (case update_invitations S (\<lambda>i. bi_id i = bi_id invitation \<and> bi_status i = INVITATION_STATUS_PENDING \<and>
                s_now S < bi_expiresAt i) INVITATION_STATUS_ACCEPTED T of
               (Inl e, _) \<Rightarrow> (Inl e, T)
             | (Inr accepted, T1) \<Rightarrow>
                 if accepted = [] then (Inl (Thrown ''Invitation expired or already used''), T)
                 else (case upsert_member S (new_member S (bi_board invitation) userId (bi_permission invitation)
                       (Some (bi_invitedBy invitation)))
                     (\<lambda>m. m\<lparr>bm_permission := bi_permission invitation, bm_updatedAt := Some (s_now S)\<rparr>) T1 of
                     Inl e \<Rightarrow> (Inl e, T)
                   | Inr T2 \<Rightarrow> (Inr (), T2)))))"

definition ws_slot_clash :: "workspace_invitation_row list \<Rightarrow> bool" where
  \<comment> \<open>\<open>workspace_invitation_pending_idx\<close> and the unique token\<close>
  "ws_slot_clash rows = (\<exists>q \<in> set rows. \<exists>r \<in> set rows. wi_id q \<noteq> wi_id r \<and> (wi_token q = wi_token r \<or>
     wi_workspace q = wi_workspace r \<and> wi_emailLower q = wi_emailLower r \<and> wi_status q = wi_status r))"

definition update_ws_invitations :: "sql_env \<Rightarrow> (workspace_invitation_row \<Rightarrow> bool) \<Rightarrow> string \<Rightarrow> tables \<Rightarrow>
    workspace_invitation_row list outcome \<times> tables" where
  "update_ws_invitations S hit status T =
     (let rows = update_rows hit (\<lambda>i. i\<lparr>wi_status := status, wi_respondedAt := Some (s_now S),
        wi_updatedAt := Some (s_now S)\<rparr>) (t_ws_invitations T)
      in if ws_slot_clash rows then (Inl (Raised (s_raise S UNIQUE_VIOLATION)), T)
         else (Inr (filter hit (t_ws_invitations T)), T\<lparr>t_ws_invitations := rows\<rparr>))"

definition declinePendingInvitationByToken :: "sql_env \<Rightarrow> string \<Rightarrow> string \<Rightarrow> tables \<Rightarrow> unit outcome \<times> tables" where
  "declinePendingInvitationByToken S token userId T = (case getUserEmail T userId of
     Inl e \<Rightarrow> (Inl e, T)
   | Inr email \<Rightarrow>
       (let emailLower = normalizeEmail email in
        case select_one (\<lambda>i. bi_token i = token \<and> bi_emailLower i = emailLower \<and>
            bi_status i = INVITATION_STATUS_PENDING) (t_invitations T) of
          Some invitation \<Rightarrow>
            (case update_invitations S (\<lambda>i. bi_id i = bi_id invitation \<and> bi_status i = INVITATION_STATUS_PENDING)
                INVITATION_STATUS_REVOKED T of
               (Inl e, _) \<Rightarrow> (Inl e, T) | (Inr _, T1) \<Rightarrow> (Inr (), T1))
        | None \<Rightarrow>
            (case select_one (\<lambda>i. wi_token i = token \<and> wi_emailLower i = emailLower \<and>
                wi_status i = INVITATION_STATUS_PENDING) (t_ws_invitations T) of
               None \<Rightarrow> (Inl (Thrown ''Invitation not found''), T)
             | Some invitation \<Rightarrow>
                 (case update_ws_invitations S (\<lambda>i. wi_id i = wi_id invitation \<and>
                     wi_status i = INVITATION_STATUS_PENDING) ''declined'' T of
                    (Inl e, _) \<Rightarrow> (Inl e, T) | (Inr _, T1) \<Rightarrow> (Inr (), T1)))))"

definition unit_result :: "'a outcome \<times> tables \<Rightarrow> unit outcome \<times> tables" where
  "unit_result r = (case r of (Inl e, T) \<Rightarrow> (Inl e, T) | (Inr _, T) \<Rightarrow> (Inr (), T))"

definition revokeBoardInvitation :: "sql_env \<Rightarrow> string \<Rightarrow> string \<Rightarrow> tables \<Rightarrow> unit outcome \<times> tables" where
  "revokeBoardInvitation S boardId inviteId T = unit_result (update_invitations S
     (\<lambda>i. bi_id i = inviteId \<and> bi_board i = boardId \<and> bi_status i = INVITATION_STATUS_PENDING)
     INVITATION_STATUS_REVOKED T)"

definition getBoardInvitationIds :: "tables \<Rightarrow> string \<Rightarrow> string list" where
  "getBoardInvitationIds T boardId = map bi_id (filter (\<lambda>i. bi_board i = boardId) (t_invitations T))"

definition expireInvitations :: "sql_env \<Rightarrow> string list \<Rightarrow> tables \<Rightarrow> unit outcome \<times> tables" where
  "expireInvitations S inviteIds T =
     (if inviteIds = [] then (Inr (), T)
      else unit_result (update_invitations S (\<lambda>i. bi_id i \<in> set inviteIds \<and> bi_status i \<noteq> ''accepted'') ''expired'' T))"

section \<open>Pending invitations of a user\<close>

record pending_invite =
  pi_id :: string
  pi_kind :: string
  pi_token :: string
  pi_target :: string
  pi_title :: string
  pi_grant :: string
  pi_createdAt :: int
  pi_createdBy :: string
  pi_status :: string

definition created_or_now :: "sql_env \<Rightarrow> int option \<Rightarrow> int" where
  "created_or_now S created = (case created of Some t \<Rightarrow> t | None \<Rightarrow> s_now S)"

definition board_invite_rows :: "tables \<Rightarrow> string \<Rightarrow> (board_invitation_row \<times> board_row \<times> user_row) list" where
  "board_invite_rows T email = concat (map (\<lambda>i. concat (map (\<lambda>b. map (\<lambda>u. (i, b, u))
       (filter (\<lambda>u. us_id u = bi_invitedBy i) (t_users T)))
       (filter (\<lambda>b. b_id b = bi_board i) (t_boards T))))
     (filter (\<lambda>i. bi_emailLower i = email \<and> bi_status i = ''pending'') (t_invitations T)))"

definition workspace_invite_rows :: "tables \<Rightarrow> string \<Rightarrow> (workspace_invitation_row \<times> workspace_row \<times> user_row) list" where
  "workspace_invite_rows T email = concat (map (\<lambda>i. concat (map (\<lambda>w. map (\<lambda>u. (i, w, u))
       (filter (\<lambda>u. us_id u = wi_invitedBy i) (t_users T)))
       (filter (\<lambda>w. ws_id w = wi_workspace i) (t_workspaces T))))
     (filter (\<lambda>i. wi_emailLower i = email \<and> wi_status i = ''pending'') (t_ws_invitations T)))"

definition listPendingInvitesForUser :: "sql_env \<Rightarrow> tables \<Rightarrow> string \<Rightarrow> pending_invite list outcome" where
  "listPendingInvitesForUser S T userId = (case getUserEmail T userId of
     Inl e \<Rightarrow> Inl e
   | Inr email \<Rightarrow>
       (let email = normalizeEmail email in
        Inr (map (\<lambda>(i, b, u). \<lparr>pi_id = bi_id i, pi_kind = ''board'', pi_token = bi_token i, pi_target = bi_board i,
               pi_title = b_name b, pi_grant = bi_permission i, pi_createdAt = created_or_now S (bi_createdAt i),
               pi_createdBy = us_name u, pi_status = bi_status i\<rparr>) (board_invite_rows T email)
           @ map (\<lambda>(i, w, u). \<lparr>pi_id = wi_id i, pi_kind = ''workspace'', pi_token = wi_token i,
               pi_target = wi_workspace i, pi_title = ws_name w, pi_grant = wi_role i,
               pi_createdAt = created_or_now S (wi_createdAt i), pi_createdBy = us_name u, pi_status = wi_status i\<rparr>)
             (workspace_invite_rows T email))))"

section \<open>An invitation through its states\<close>

definition invitations_ok :: "tables \<Rightarrow> bool" where
  "invitations_ok T = (distinct (map bi_id (t_invitations T)) \<and> invitations_unique (t_invitations T))"

definition slot_free :: "tables \<Rightarrow> board_invitation_row \<Rightarrow> string \<Rightarrow> bool" where
  \<comment> \<open>no invitation of that board and address has the status yet\<close>
  "slot_free T iv status = (\<forall>q \<in> set (t_invitations T).
     \<not> (bi_board q = bi_board iv \<and> bi_emailLower q = bi_emailLower iv \<and> bi_status q = status))"

lemma respond_simps [simp]:
  "bi_id (respond S st i) = bi_id i" "bi_token (respond S st i) = bi_token i"
  "bi_board (respond S st i) = bi_board i" "bi_emailLower (respond S st i) = bi_emailLower i"
  "bi_status (respond S st i) = st" "bi_permission (respond S st i) = bi_permission i"
  "bi_invitedBy (respond S st i) = bi_invitedBy i"
  by (simp_all add: respond_def)

lemma invitation_by_id:
  "invitations_ok T \<Longrightarrow> q \<in> set (t_invitations T) \<Longrightarrow> r \<in> set (t_invitations T) \<Longrightarrow> bi_id q = bi_id r \<Longrightarrow> q = r"
  by (auto simp: invitations_ok_def distinct_map inj_on_def)

lemma invitation_by_token:
  "invitations_ok T \<Longrightarrow> q \<in> set (t_invitations T) \<Longrightarrow> r \<in> set (t_invitations T) \<Longrightarrow> bi_token q = bi_token r \<Longrightarrow> q = r"
  using invitation_by_id[of T q r] by (auto simp: invitations_ok_def invitations_unique_def)

lemma unique_after_respond:
  assumes ok: "invitations_ok T" and iv: "iv \<in> set (t_invitations T)" and st: "bi_status iv \<noteq> st"
  shows "invitations_unique (update_rows (\<lambda>i. i = iv) (respond S st) (t_invitations T)) \<longleftrightarrow> slot_free T iv st"
proof -
  let ?I = "set (t_invitations T)"
  define f where "f = (\<lambda>i. if i = iv then respond S st i else i)"
  have old: "bi_token q \<noteq> bi_token r \<and> \<not> same_invitation_slot q r" if "q \<in> ?I" "r \<in> ?I" "bi_id q \<noteq> bi_id r" for q r
    using ok that by (simp add: invitations_ok_def invitations_unique_def)
  have kept [simp]: "bi_id (f i) = bi_id i" "bi_token (f i) = bi_token i" for i by (simp_all add: f_def)
  have neq: "q = r \<longleftrightarrow> bi_id q = bi_id r" if "q \<in> ?I" "r \<in> ?I" for q r
    using invitation_by_id[OF ok that] by blast
  have slot: "same_invitation_slot (f q) (f r) \<longleftrightarrow>
      (q = iv \<and> bi_board r = bi_board iv \<and> bi_emailLower r = bi_emailLower iv \<and> bi_status r = st) \<or>
      (r = iv \<and> bi_board q = bi_board iv \<and> bi_emailLower q = bi_emailLower iv \<and> bi_status q = st)"
    if "q \<in> ?I" "r \<in> ?I" "bi_id q \<noteq> bi_id r" for q r
    using old[OF that] that by (auto simp: same_invitation_slot_def f_def)
  have "set (update_rows (\<lambda>i. i = iv) (respond S st) (t_invitations T)) = f ` ?I"
    by (simp add: f_def)
  then have "invitations_unique (update_rows (\<lambda>i. i = iv) (respond S st) (t_invitations T)) \<longleftrightarrow>
      (\<forall>q \<in> ?I. \<forall>r \<in> ?I. bi_id q \<noteq> bi_id r \<longrightarrow> \<not> same_invitation_slot (f q) (f r))"
    using old by (simp add: invitations_unique_def)
  also have "\<dots> \<longleftrightarrow> (\<forall>q \<in> ?I. bi_id q \<noteq> bi_id iv \<longrightarrow>
      \<not> (bi_board q = bi_board iv \<and> bi_emailLower q = bi_emailLower iv \<and> bi_status q = st))"
    using slot iv by (auto 4 3)
  also have "\<dots> \<longleftrightarrow> slot_free T iv st"
    using neq[OF _ iv] st unfolding slot_free_def by metis
  finally show ?thesis .
qed

lemma hit_one:
  assumes "invitations_ok T" "iv \<in> set (t_invitations T)"
  shows "update_rows (\<lambda>i. bi_id i = bi_id iv \<and> P i) f (t_invitations T) =
     (if P iv then update_rows (\<lambda>i. i = iv) f (t_invitations T) else t_invitations T)"
    "filter (\<lambda>i. bi_id i = bi_id iv \<and> P i) (t_invitations T) = (if P iv then [iv] else [])"
proof -
  have id: "i \<in> set (t_invitations T) \<Longrightarrow> bi_id i = bi_id iv \<longleftrightarrow> i = iv" for i
    using invitation_by_id[OF assms(1) _ assms(2)] by blast
  show "update_rows (\<lambda>i. bi_id i = bi_id iv \<and> P i) f (t_invitations T) =
     (if P iv then update_rows (\<lambda>i. i = iv) f (t_invitations T) else t_invitations T)"
    using id by (auto simp: update_rows_def intro!: map_idI)
  have "filter (\<lambda>i. bi_id i = bi_id iv \<and> P i) (t_invitations T) =
      filter P (filter (\<lambda>i. bi_id i = bi_id iv) (t_invitations T))" by (simp add: conj_commute)
  also have "filter (\<lambda>i. bi_id i = bi_id iv) (t_invitations T) = [iv]"
  proof -
    have "distinct (map bi_id xs) \<Longrightarrow> iv \<in> set xs \<Longrightarrow> filter (\<lambda>i. bi_id i = bi_id iv) xs = [iv]" for xs
      by (induction xs) (auto simp: filter_empty_conv image_iff)
    then show ?thesis using assms by (simp add: invitations_ok_def)
  qed
  finally show "filter (\<lambda>i. bi_id i = bi_id iv \<and> P i) (t_invitations T) = (if P iv then [iv] else [])" by simp
qed

lemma invitations_ok_respond:
  assumes "invitations_ok T" "invitations_unique (update_rows hit (respond S st) (t_invitations T))"
  shows "invitations_ok (T\<lparr>t_invitations := update_rows hit (respond S st) (t_invitations T)\<rparr>)"
proof -
  have "map bi_id (update_rows hit (respond S st) (t_invitations T)) = map bi_id (t_invitations T)"
    by (rule update_rows_keys) simp
  with assms show ?thesis by (simp add: invitations_ok_def)
qed

lemma getUserEmail_user: "getUserEmail T u = Inr email \<Longrightarrow> has_user T u"
  by (auto simp: getUserEmail_def has_user_def dest: select_one_Some split: option.splits if_splits)

lemma has_frame [simp]:
  "has_board (T\<lparr>t_invitations := is\<rparr>) = has_board T" "has_user (T\<lparr>t_invitations := is\<rparr>) = has_user T"
  by (simp_all add: fun_eq_iff has_board_def has_user_def)

section \<open>Memberships after an upsert\<close>

lemma upsert_member_succeeds:
  assumes "bm_permission row = ''view'' \<or> bm_permission row = ''edit''" "has_board T (bm_board row)"
    "has_user T (bm_user row)" "case bm_addedBy row of None \<Rightarrow> True | Some a \<Rightarrow> has_user T a"
  shows "\<exists>T'. upsert_member S row upd T = Inr T'"
  using assms
  by (cases "\<exists>m \<in> set (t_members T). member_key (bm_board row) (bm_user row) m")
    (auto simp: upsert_member_def permission_names Let_def)

lemma upsert_member_permission:
  assumes "members_ok T" "upsert_member S row upd T = Inr T'"
    and "\<And>m. bm_board (upd m) = bm_board m \<and> bm_user (upd m) = bm_user m \<and> bm_permission (upd m) = bm_permission row"
  shows "members_ok T' \<and> t_invitations T' = t_invitations T \<and> (\<forall>b v. getBoardMemberPermission T' b v =
     (if b = bm_board row \<and> v = bm_user row then Some (bm_permission row) else getBoardMemberPermission T b v))"
proof -
  let ?here = "member_key (bm_board row) (bm_user row)"
  have perm: "bm_permission row = ''view'' \<or> bm_permission row = ''edit''"
    using assms(2) by (auto simp: upsert_member_def permission_names Let_def split: if_splits)
  show ?thesis
  proof (cases "\<exists>m \<in> set (t_members T). ?here m")
    case True
    then have T': "T' = T\<lparr>t_members := update_rows ?here upd (t_members T)\<rparr>"
      using assms(2) by (auto simp: upsert_member_def Let_def split: if_splits)
    have "map (\<lambda>m. (bm_board m, bm_user m)) (t_members T') = map (\<lambda>m. (bm_board m, bm_user m)) (t_members T)"
      unfolding T' by (simp add: update_rows_keys assms(3))
    then have ok: "members_ok T'" using assms(1,3) perm by (auto simp: members_ok_def T')
    have "List.find (\<lambda>m. bm_board m = b \<and> bm_user m = v) (update_rows ?here upd ms) =
        map_option (\<lambda>m. if ?here m then upd m else m) (List.find (\<lambda>m. bm_board m = b \<and> bm_user m = v) ms)" for b v ms
      using assms(3) by (induction ms) (auto simp: update_rows_def)
    then have "getBoardMemberPermission T' b v = map_option (\<lambda>m. if ?here m then bm_permission row else bm_permission m)
        (select_one (\<lambda>m. bm_board m = b \<and> bm_user m = v) (t_members T))" for b v
      using assms(3) by (auto simp: getBoardMemberPermission_def select_one_def T' option.map_comp comp_def
        intro!: option.map_cong)
    moreover have "map_option (\<lambda>m. if ?here m then bm_permission row else bm_permission m)
        (select_one (\<lambda>m. bm_board m = b \<and> bm_user m = v) (t_members T)) =
       (if b = bm_board row \<and> v = bm_user row then Some (bm_permission row) else getBoardMemberPermission T b v)" for b v
    proof (cases "select_one (\<lambda>m. bm_board m = b \<and> bm_user m = v) (t_members T)")
      case None
      then have "\<not> (b = bm_board row \<and> v = bm_user row)"
        using True by (auto simp: member_key_def select_one_None)
      with None show ?thesis by (simp add: getBoardMemberPermission_def)
    next
      case (Some m)
      then show ?thesis using select_one_Some[OF Some] by (auto simp: getBoardMemberPermission_def member_key_def)
    qed
    ultimately show ?thesis using ok by (simp add: T')
  next
    case False
    then have T': "T' = T\<lparr>t_members := t_members T @ [row]\<rparr>"
      using assms(2) by (auto simp: upsert_member_def Let_def split: if_splits)
    have "members_ok T'" using assms(1) perm False by (auto simp: members_ok_def T' member_key_def)
    moreover have "List.find P (ms @ [row]) = (case List.find P ms of None \<Rightarrow> if P row then Some row else None
        | Some m \<Rightarrow> Some m)" for P ms by (induction ms) auto
    ultimately show ?thesis using False
      by (auto simp: getBoardMemberPermission_def select_one_def T' member_key_def find_None_iff
        split: option.split dest: find_mem)
  qed
qed

section \<open>Accepting\<close>

definition acceptable :: "sql_env \<Rightarrow> tables \<Rightarrow> board_invitation_row \<Rightarrow> string \<Rightarrow> bool" where
  "acceptable S T iv email = (bi_emailLower iv = normalizeEmail email \<and> bi_status iv = ''pending'' \<and>
     s_now S < bi_expiresAt iv \<and> slot_free T iv ''accepted'')"

lemma invitation_found:
  assumes "invitations_ok T" "iv \<in> set (t_invitations T)"
  shows "select_one (\<lambda>i. bi_token i = bi_token iv \<and> P i) (t_invitations T) = (if P iv then Some iv else None)"
proof (cases "P iv")
  case True
  then have "select_one (\<lambda>i. bi_token i = bi_token iv \<and> P i) (t_invitations T) = Some iv"
    using assms invitation_by_token by (intro select_one_unique) blast+
  with True show ?thesis by simp
next
  case False
  then have "select_one (\<lambda>i. bi_token i = bi_token iv \<and> P i) (t_invitations T) = None"
    using assms invitation_by_token[of T _ iv] by (auto simp: select_one_None)
  with False show ?thesis by simp
qed

lemma respond_one:
  assumes "invitations_ok T" "iv \<in> set (t_invitations T)" "P iv \<Longrightarrow> bi_status iv \<noteq> st"
  shows "update_invitations S (\<lambda>i. bi_id i = bi_id iv \<and> P i) st T =
    (if \<not> P iv then (Inr [], T)
     else if slot_free T iv st
     then (Inr [iv], T\<lparr>t_invitations := update_rows (\<lambda>i. i = iv) (respond S st) (t_invitations T)\<rparr>)
     else (Inl (Raised (s_raise S UNIQUE_VIOLATION)), T))"
  using unique_after_respond[OF assms(1,2)] assms(1,3)
  by (simp add: update_invitations_def hit_one[OF assms(1,2)] Let_def invitations_ok_def)

text \<open>C36: Accepting an invitation succeeds exactly when it is addressed to the caller, pending and not
  expired (and no earlier invitation of that board and address was accepted): then it is marked accepted
  and the caller has the permission it carries, with every other membership unchanged. In every other
  case the call throws and the tables are as before.\<close>

theorem acceptBoardInvitationByToken_outcome:
  assumes ok: "invitations_ok T" "members_ok T" and email: "getUserEmail T u = Inr email"
    and iv: "iv \<in> set (t_invitations T)" "has_board T (bi_board iv)" "has_user T (bi_invitedBy iv)"
      "bi_permission iv = ''view'' \<or> bi_permission iv = ''edit''"
  shows "case acceptBoardInvitationByToken S (bi_token iv) u T of
      (Inr _, T') \<Rightarrow> acceptable S T iv email \<and> invitations_ok T' \<and> members_ok T' \<and>
        t_invitations T' = update_rows (\<lambda>i. i = iv) (respond S ''accepted'') (t_invitations T) \<and>
        (\<forall>b v. getBoardMemberPermission T' b v =
          (if b = bi_board iv \<and> v = u then Some (bi_permission iv) else getBoardMemberPermission T b v))
    | (Inl e, T') \<Rightarrow> \<not> acceptable S T iv email \<and> T' = T"
proof -
  let ?hit = "\<lambda>i. bi_status i = ''pending'' \<and> s_now S < bi_expiresAt i"
  let ?T1 = "T\<lparr>t_invitations := update_rows (\<lambda>i. i = iv) (respond S ''accepted'') (t_invitations T)\<rparr>"
  have upd: "update_invitations S (\<lambda>i. bi_id i = bi_id iv \<and> ?hit i) ''accepted'' T =
    (if \<not> ?hit iv then (Inr [], T) else if slot_free T iv ''accepted'' then (Inr [iv], ?T1)
     else (Inl (Raised (s_raise S UNIQUE_VIOLATION)), T))"
    by (rule respond_one[OF ok(1) iv(1)]) simp
  note run = acceptBoardInvitationByToken_def email Let_def invitation_found[OF ok(1) iv(1)] status_names upd
  show ?thesis
  proof (cases "acceptable S T iv email")
    case True
    let ?row = "new_member S (bi_board iv) u (bi_permission iv) (Some (bi_invitedBy iv))"
    let ?upd = "\<lambda>m. m\<lparr>bm_permission := bi_permission iv, bm_updatedAt := Some (s_now S)\<rparr>"
    have m1: "members_ok ?T1" using ok(2) by (simp add: members_ok_def)
    have "\<exists>T2. upsert_member S ?row ?upd ?T1 = Inr T2"
      using iv getUserEmail_user[OF email] by (intro upsert_member_succeeds) (simp_all add: new_member_def)
    then obtain T2 where T2: "upsert_member S ?row ?upd ?T1 = Inr T2" ..
    have after: "members_ok T2 \<and> t_invitations T2 = t_invitations ?T1 \<and> (\<forall>b v. getBoardMemberPermission T2 b v =
        (if b = bi_board iv \<and> v = u then Some (bi_permission iv) else getBoardMemberPermission T b v))"
      using upsert_member_permission[OF m1 T2]
      by (simp add: new_member_def getBoardMemberPermission_def)
    have "invitations_ok ?T1"
      using True unique_after_respond[OF ok(1) iv(1)]
      by (intro invitations_ok_respond[OF ok(1)]) (simp add: acceptable_def)
    then have "invitations_ok T2" using after by (simp add: invitations_ok_def)
    moreover have "acceptBoardInvitationByToken S (bi_token iv) u T = (Inr (), T2)"
      using True T2 by (simp add: run acceptable_def)
    ultimately show ?thesis using True after by simp
  next
    case False
    then have "\<exists>e. acceptBoardInvitationByToken S (bi_token iv) u T = (Inl e, T)"
      by (simp add: run acceptable_def)
    with False show ?thesis by auto
  qed
qed

definition demo_invitation :: board_invitation_row where
  "demo_invitation = \<lparr>bi_id = ''i1'', bi_board = ''b'', bi_invitedBy = ''u'', bi_emailLower = ''u@x.org'',
     bi_permission = ''view'', bi_status = ''pending'', bi_token = ''t1'', bi_expiresAt = 10, bi_respondedAt = None,
     bi_createdAt = None, bi_updatedAt = None\<rparr>"

definition invited_tables :: tables where
  "invited_tables = demo_tables\<lparr>t_invitations := [demo_invitation]\<rparr>"

lemma invited_tables_ok: "invitations_ok invited_tables" "members_ok invited_tables"
  "getUserEmail invited_tables ''u'' = Inr ''U@x.org''"
  by (simp_all add: invitations_ok_def invitations_unique_def invited_tables_def demo_invitation_def demo_tables_def
    members_ok_def getUserEmail_def select_one_def)

lemma demo_email: "normalizeEmail ''U@x.org'' = ''u@x.org''"
  by code_simp

theorem acceptBoardInvitationByToken_outcome_witness:
  "\<exists>T'. acceptBoardInvitationByToken demo_sql ''t1'' ''u'' invited_tables = (Inr (), T') \<and>
     getBoardMemberPermission T' ''b'' ''u'' = Some ''view''"
proof -
  have acc: "acceptable demo_sql invited_tables demo_invitation ''U@x.org''"
    by (simp add: acceptable_def demo_email slot_free_def invited_tables_def demo_invitation_def demo_sql_def)
  have "demo_invitation \<in> set (t_invitations invited_tables)"
    "has_board invited_tables (bi_board demo_invitation)" "has_user invited_tables (bi_invitedBy demo_invitation)"
    "bi_permission demo_invitation = ''view'' \<or> bi_permission demo_invitation = ''edit''"
    by (simp_all add: invited_tables_def demo_invitation_def has_board_def has_user_def demo_tables_def demo_board_def)
  from acceptBoardInvitationByToken_outcome[OF invited_tables_ok this, of demo_sql] acc
  have "case acceptBoardInvitationByToken demo_sql (bi_token demo_invitation) ''u'' invited_tables of
      (Inr _, T') \<Rightarrow> getBoardMemberPermission T' ''b'' ''u'' = Some ''view'' | (Inl e, T') \<Rightarrow> False"
    by (auto simp: demo_invitation_def split: prod.splits sum.splits)
  then show ?thesis
    by (cases "acceptBoardInvitationByToken demo_sql (bi_token demo_invitation) ''u'' invited_tables";
        cases "fst (acceptBoardInvitationByToken demo_sql (bi_token demo_invitation) ''u'' invited_tables)")
      (simp_all add: demo_invitation_def)
qed

text \<open>A user whose earlier invitation to a board was accepted cannot accept another one, even a
  pending and unexpired one sent after the membership ended: the unique index covers the status, the
  update to \<open>accepted\<close> violates it, and the call fails with the database error.\<close>

theorem reinvited_user_cannot_accept:
  assumes ok: "invitations_ok T" and email: "getUserEmail T u = Inr email"
    and earlier: "old \<in> set (t_invitations T)" "bi_status old = ''accepted''"
    and again: "iv \<in> set (t_invitations T)" "bi_status iv = ''pending''" "s_now S < bi_expiresAt iv"
      "bi_emailLower iv = normalizeEmail email"
    and same: "bi_board old = bi_board iv" "bi_emailLower old = bi_emailLower iv"
  shows "acceptBoardInvitationByToken S (bi_token iv) u T = (Inl (Raised (s_raise S UNIQUE_VIOLATION)), T)"
proof -
  have "\<not> slot_free T iv ''accepted''" using earlier same by (auto simp: slot_free_def)
  moreover have "update_invitations S (\<lambda>i. bi_id i = bi_id iv \<and> bi_status i = ''pending'' \<and> s_now S < bi_expiresAt i)
      ''accepted'' T = (if \<not> (bi_status iv = ''pending'' \<and> s_now S < bi_expiresAt iv) then (Inr [], T)
        else if slot_free T iv ''accepted''
        then (Inr [iv], T\<lparr>t_invitations := update_rows (\<lambda>i. i = iv) (respond S ''accepted'') (t_invitations T)\<rparr>)
        else (Inl (Raised (s_raise S UNIQUE_VIOLATION)), T))"
    by (rule respond_one[OF ok again(1)]) simp
  ultimately show ?thesis
    using again by (simp add: acceptBoardInvitationByToken_def email Let_def invitation_found[OF ok again(1)] status_names)
qed

definition reinvited_tables :: tables where
  "reinvited_tables = demo_tables\<lparr>t_invitations := [demo_invitation\<lparr>bi_id := ''i0'', bi_token := ''t0'',
     bi_status := ''accepted''\<rparr>, demo_invitation], t_members := []\<rparr>"

theorem reinvited_user_cannot_accept_witness:
  "acceptBoardInvitationByToken demo_sql ''t1'' ''u'' reinvited_tables =
     (Inl (Raised (DbError (Some ''23505'') None None None None)), reinvited_tables)"
proof -
  have "invitations_ok reinvited_tables" "getUserEmail reinvited_tables ''u'' = Inr ''U@x.org''"
    "demo_invitation\<lparr>bi_id := ''i0'', bi_token := ''t0'', bi_status := ''accepted''\<rparr> \<in> set (t_invitations reinvited_tables)"
    "bi_status (demo_invitation\<lparr>bi_id := ''i0'', bi_token := ''t0'', bi_status := ''accepted''\<rparr>) = ''accepted''"
    "demo_invitation \<in> set (t_invitations reinvited_tables)" "bi_status demo_invitation = ''pending''"
    "s_now demo_sql < bi_expiresAt demo_invitation" "bi_emailLower demo_invitation = normalizeEmail ''U@x.org''"
    by (simp_all add: invitations_ok_def invitations_unique_def same_invitation_slot_def reinvited_tables_def
      demo_invitation_def demo_tables_def getUserEmail_def select_one_def demo_sql_def demo_email)
  from reinvited_user_cannot_accept[OF this] show ?thesis
    by (simp add: demo_invitation_def demo_sql_def UNIQUE_VIOLATION_def)
qed

section \<open>Creating\<close>

lemma createBoardInvitation_pending:
  assumes "getPendingBoardInvitation T b (normalizeEmail email) = Some p"
  shows "createBoardInvitation S race1 race2 b by_user email permission T = (Inr (ref_of p), T)"
  using assms by (simp add: createBoardInvitation_def)

text \<open>Whatever other requests commit while an invitation is created, an answer names an invitation of
  that board and address that is pending in the tables left behind, and a call that loses the race for the
  pending slot answers with the invitation of the winner instead of the unique violation.\<close>

theorem createBoardInvitation_answers_pending:
  assumes codes: "isUniqueViolation (s_raise S UNIQUE_VIOLATION)"
  shows "case createBoardInvitation S race1 race2 b by_user email permission T of
      (Inr ref, T') \<Rightarrow> \<exists>i \<in> set (t_invitations T'). ref = ref_of i \<and> bi_board i = b \<and>
          bi_emailLower i = normalizeEmail email \<and> bi_status i = ''pending''
    | (Inl e, T') \<Rightarrow> getPendingBoardInvitation T b (normalizeEmail email) = None \<and>
        (e = Raised (s_raise S UNIQUE_VIOLATION) \<longrightarrow> getPendingBoardInvitation T' b (normalizeEmail email) = None)"
proof -
  let ?e = "normalizeEmail email"
  have pend: "p \<in> set (t_invitations T') \<and> bi_board p = b \<and> bi_emailLower p = ?e \<and> bi_status p = ''pending''"
    if "getPendingBoardInvitation T' b ?e = Some p" for p T'
    using select_one_Some[OF that[unfolded getPendingBoardInvitation_def]] by (simp add: status_names)
  show ?thesis
  proof (cases "getPendingBoardInvitation T b ?e")
    case (Some p)
    then show ?thesis using pend[OF Some] by (auto simp: createBoardInvitation_pending)
  next
    case None
    let ?row = "new_invitation S b by_user ?e permission"
    have row: "bi_board ?row = b" "bi_emailLower ?row = ?e" "bi_status ?row = ''pending''"
      by (simp_all add: new_invitation_def status_names)
    show ?thesis
    proof (cases "insert_invitation S ?row (race1 T)")
      case (Inr T')
      then have "?row \<in> set (t_invitations T')" by (auto simp: insert_invitation_def split: if_splits)
      then show ?thesis using None Inr row by (auto simp: createBoardInvitation_def Let_def)
    next
      case (Inl e)
      then obtain j where j: "e = Raised j" by (auto simp: insert_invitation_def split: if_splits)
      show ?thesis
      proof (cases "isUniqueViolation j")
        case True
        then show ?thesis using None Inl j pend[of "race2 (race1 T)"]
          by (auto simp: createBoardInvitation_def Let_def split: option.split)
      next
        case False
        then have "j \<noteq> s_raise S UNIQUE_VIOLATION" using codes by auto
        then show ?thesis using None Inl j False by (simp add: createBoardInvitation_def Let_def)
      qed
    qed
  qed
qed

theorem createBoardInvitation_answers_pending_witness:
  "createBoardInvitation demo_sql (\<lambda>T. T\<lparr>t_invitations := [demo_invitation]\<rparr>) id ''b'' ''u'' '' u@x.org '' ''edit'' demo_tables
     = (Inr \<lparr>ir_inviteId = ''i1'', ir_token = ''t1''\<rparr>, invited_tables)"
proof -
  let ?r = "createBoardInvitation demo_sql (\<lambda>T. T\<lparr>t_invitations := [demo_invitation]\<rparr>) id ''b'' ''u'' '' u@x.org '' ''edit'' demo_tables"
  have n: "normalizeEmail '' u@x.org '' = ''u@x.org''"
    by code_simp
  have u: "isUniqueViolation (s_raise demo_sql UNIQUE_VIOLATION)" by (simp add: isUniqueViolation_def demo_sql_def)
  have run: "\<exists>ref. ?r = (Inr ref, invited_tables)"
    using u by (simp add: createBoardInvitation_def n getPendingBoardInvitation_def select_one_def demo_tables_def
      insert_invitation_def invitations_unique_def same_invitation_slot_def new_invitation_def demo_invitation_def
      status_names permission_names Let_def invited_tables_def demo_sql_def dec_def dec_nat.simps)
  from createBoardInvitation_answers_pending[OF u, where ?race1.0 = "\<lambda>T. T\<lparr>t_invitations := [demo_invitation]\<rparr>"
      and ?race2.0 = id and b = "''b''" and by_user = "''u''" and email = "'' u@x.org ''" and permission = "''edit''"
      and T = demo_tables] run
  show ?thesis by (auto simp: invited_tables_def demo_tables_def ref_of_def demo_invitation_def)
qed

end
