(* ===== verification/Workspaces.thy ===== *)
theory Workspaces
  imports Board_Membership
begin

text \<open>
  Workspaces, their members and invitations (\<open>workspaces/workspace/common.ts\<close>, \<open>core.ts\<close>,
  \<open>invitations.ts\<close>), over the tables of \<open>Board_Tables\<close>. The lemmas show that every operation keeps
  exactly one owner per workspace.
\<close>

definition trimEmail :: "string \<Rightarrow> string" where
  "trimEmail email = js_trim email"

section \<open>Workspaces and members\<close>

definition ws_member_key :: "string \<Rightarrow> string \<Rightarrow> workspace_member_row \<Rightarrow> bool" where
  "ws_member_key workspaceId userId m = (wm_workspace m = workspaceId \<and> wm_user m = userId)"

definition valid_role :: "string \<Rightarrow> bool" where
  "valid_role role = (role \<in> {''owner'', ''admin'', ''editor'', ''viewer''})"

definition ws_member_clash :: "tables \<Rightarrow> workspace_member_row \<Rightarrow> bool" where
  \<comment> \<open>the primary key, \<open>workspace_member_idx\<close> and \<open>workspace_single_owner_idx\<close>\<close>
  "ws_member_clash T row = (\<exists>m \<in> set (t_ws_members T). wm_id m = wm_id row \<or>
     ws_member_key (wm_workspace row) (wm_user row) m \<or>
     wm_workspace m = wm_workspace row \<and> wm_role m = ''owner'' \<and> wm_role row = ''owner'')"

definition insert_ws_member :: "sql_env \<Rightarrow> bool \<Rightarrow> workspace_member_row \<Rightarrow> tables \<Rightarrow> tables outcome" where
  \<comment> \<open>\<open>insert into workspace_members\<close>, with \<open>on conflict do nothing\<close> when \<open>lenient\<close>\<close>
  "insert_ws_member S lenient row T =
     (if \<not> valid_role (wm_role row) then Inl (Raised (s_raise S CHECK_VIOLATION))
      else if ws_member_clash T row
      then (if lenient then Inr T else Inl (Raised (s_raise S UNIQUE_VIOLATION)))
      else if \<not> (has_workspace T (wm_workspace row) \<and> has_user T (wm_user row) \<and>
        (case wm_addedBy row of None \<Rightarrow> True | Some a \<Rightarrow> has_user T a))
      then Inl (Raised (s_raise S FOREIGN_KEY_VIOLATION))
      else Inr (T\<lparr>t_ws_members := t_ws_members T @ [row]\<rparr>))"

definition new_workspace :: "sql_env \<Rightarrow> string \<Rightarrow> string \<Rightarrow> workspace_row" where
  "new_workspace S name ownerId = \<lparr>ws_id = s_uuid S 0, ws_name = name, ws_owner = ownerId,
     ws_createdAt = Some (s_now S), ws_updatedAt = Some (s_now S)\<rparr>"

definition new_ws_member :: "sql_env \<Rightarrow> string \<Rightarrow> string \<Rightarrow> string \<Rightarrow> string option \<Rightarrow> workspace_member_row" where
  "new_ws_member S workspaceId userId role addedBy = \<lparr>wm_id = s_uuid S 1, wm_workspace = workspaceId,
     wm_user = userId, wm_role = role, wm_addedBy = addedBy, wm_createdAt = Some (s_now S),
     wm_updatedAt = Some (s_now S)\<rparr>"

definition createWorkspace :: "sql_env \<Rightarrow> string \<Rightarrow> string \<Rightarrow> tables \<Rightarrow> workspace_row outcome \<times> tables" where
  "createWorkspace S name ownerId T =
     (let w = new_workspace S name ownerId in
      if has_workspace T (ws_id w) then (Inl (Raised (s_raise S UNIQUE_VIOLATION)), T)
      else if \<not> has_user T ownerId then (Inl (Raised (s_raise S FOREIGN_KEY_VIOLATION)), T)
      else (case insert_ws_member S False (new_ws_member S (ws_id w) ownerId ''owner'' None)
          (T\<lparr>t_workspaces := t_workspaces T @ [w]\<rparr>) of
          Inl e \<Rightarrow> (Inl e, T) | Inr T' \<Rightarrow> (Inr w, T')))"

definition renameWorkspace :: "sql_env \<Rightarrow> string \<Rightarrow> string \<Rightarrow> tables \<Rightarrow> workspace_row option \<times> tables" where
  "renameWorkspace S workspaceId name T =
     (let T' = T\<lparr>t_workspaces := update_rows (\<lambda>w. ws_id w = workspaceId)
        (\<lambda>w. w\<lparr>ws_name := name, ws_updatedAt := Some (s_now S)\<rparr>) (t_workspaces T)\<rparr>
      in (select_one (\<lambda>w. ws_id w = workspaceId) (t_workspaces T'), T'))"

definition getWorkspacesForUser :: "tables \<Rightarrow> string \<Rightarrow> (workspace_row \<times> string) list" where
  \<comment> \<open>id, name and owner of each workspace with the caller's role\<close>
  "getWorkspacesForUser T userId = concat (map (\<lambda>m. map (\<lambda>w. (w, wm_role m))
     (filter (\<lambda>w. ws_id w = wm_workspace m) (t_workspaces T)))
     (filter (\<lambda>m. wm_user m = userId) (t_ws_members T)))"

definition getWorkspaceMembers :: "tables \<Rightarrow> string \<Rightarrow> (workspace_member_row \<times> user_row) list" where
  "getWorkspaceMembers T workspaceId = concat (map (\<lambda>m. map (\<lambda>u. (m, u))
     (filter (\<lambda>u. us_id u = wm_user m) (t_users T)))
     (filter (\<lambda>m. wm_workspace m = workspaceId) (t_ws_members T)))"

definition deleteWorkspaceMember :: "string \<Rightarrow> string \<Rightarrow> tables \<Rightarrow> bool \<times> tables" where
  "deleteWorkspaceMember workspaceId memberId T =
     (case select_one (\<lambda>m. wm_workspace m = workspaceId \<and> wm_id m = memberId) (t_ws_members T) of
        None \<Rightarrow> (False, T)
      | Some member \<Rightarrow>
          if wm_role member = ''owner'' then (False, T)
          else (True, T\<lparr>t_ws_members := delete_rows (\<lambda>m. wm_id m = memberId) (t_ws_members T)\<rparr>))"

definition isWorkspaceMember :: "tables \<Rightarrow> string \<Rightarrow> string \<Rightarrow> bool" where
  "isWorkspaceMember T workspaceId userId =
     (select_one (ws_member_key workspaceId userId) (t_ws_members T) \<noteq> None)"

definition getWorkspaceMemberRole :: "tables \<Rightarrow> string \<Rightarrow> string \<Rightarrow> string option" where
  "getWorkspaceMemberRole T workspaceId userId =
     map_option wm_role (select_one (ws_member_key workspaceId userId) (t_ws_members T))"

section \<open>Invitations\<close>

definition getWorkspaceInvitations :: "tables \<Rightarrow> string \<Rightarrow> (workspace_invitation_row \<times> string \<times> string) list" where
  \<comment> \<open>each invitation with the name and address of the inviter\<close>
  "getWorkspaceInvitations T workspaceId = concat (map (\<lambda>i. map (\<lambda>u. (i, us_name u, us_email u))
     (filter (\<lambda>u. us_id u = wi_invitedBy i) (t_users T)))
     (filter (\<lambda>i. wi_workspace i = workspaceId) (t_ws_invitations T)))"

definition pending_ws_invitation :: "tables \<Rightarrow> string \<Rightarrow> string \<Rightarrow> workspace_invitation_row option" where
  "pending_ws_invitation T workspaceId emailLower = select_one (\<lambda>i. wi_workspace i = workspaceId \<and>
     wi_emailLower i = emailLower \<and> wi_status i = INVITATION_STATUS_PENDING) (t_ws_invitations T)"

definition new_ws_invitation :: "sql_env \<Rightarrow> string \<Rightarrow> string \<Rightarrow> string \<Rightarrow> string \<Rightarrow> workspace_invitation_row" where
  "new_ws_invitation S workspaceId email role invitedBy = \<lparr>wi_id = s_uuid S 0, wi_workspace = workspaceId,
     wi_invitedBy = invitedBy, wi_email = trimEmail email, wi_emailLower = normalizeEmail email, wi_role = role,
     wi_status = INVITATION_STATUS_PENDING, wi_token = generateInvitationToken S,
     wi_expiresAt = buildInvitationExpiry S, wi_respondedAt = None, wi_createdAt = Some (s_now S),
     wi_updatedAt = Some (s_now S)\<rparr>"

definition insert_ws_invitation :: "sql_env \<Rightarrow> workspace_invitation_row \<Rightarrow> tables \<Rightarrow> tables outcome" where
  "insert_ws_invitation S row T =
     (if wi_role row \<notin> {''admin'', ''editor'', ''viewer''} then Inl (Raised (s_raise S CHECK_VIOLATION))
      else if wi_id row \<in> wi_id ` set (t_ws_invitations T) \<or> ws_slot_clash (t_ws_invitations T @ [row])
      then Inl (Raised (s_raise S UNIQUE_VIOLATION))
      else if \<not> (has_workspace T (wi_workspace row) \<and> has_user T (wi_invitedBy row))
      then Inl (Raised (s_raise S FOREIGN_KEY_VIOLATION))
      else Inr (T\<lparr>t_ws_invitations := t_ws_invitations T @ [row]\<rparr>))"

definition createInvitation :: "sql_env \<Rightarrow> (tables \<Rightarrow> tables) \<Rightarrow> (tables \<Rightarrow> tables) \<Rightarrow>
    string \<Rightarrow> string \<Rightarrow> string \<Rightarrow> string \<Rightarrow> tables \<Rightarrow> workspace_invitation_row outcome \<times> tables" where
  "createInvitation S race1 race2 workspaceId email role invitedBy T =
     (case pending_ws_invitation T workspaceId (normalizeEmail email) of
        Some pending \<Rightarrow> (Inr pending, T)
      | None \<Rightarrow>
          (let T = race1 T; row = new_ws_invitation S workspaceId email role invitedBy in
           case insert_ws_invitation S row T of
             Inr T' \<Rightarrow> (Inr row, T')
           | Inl (Raised e) \<Rightarrow>
               if isUniqueViolation e
               then (let T = race2 T in
                     case pending_ws_invitation T workspaceId (normalizeEmail email) of
                       Some pending \<Rightarrow> (Inr pending, T)
                     | None \<Rightarrow> (Inl (Raised e), T))
               else (Inl (Raised e), T)
           | Inl e \<Rightarrow> (Inl e, T)))"

definition getInvitation :: "tables \<Rightarrow> string \<Rightarrow> (workspace_invitation_row \<times> string \<times> string \<times> string) option" where
  \<comment> \<open>the invitation with the name of its workspace and the name and address of the inviter\<close>
  "getInvitation T token = (case concat (map (\<lambda>i. concat (map (\<lambda>u. map (\<lambda>w. (i, ws_name w, us_name u, us_email u))
       (filter (\<lambda>w. ws_id w = wi_workspace i) (t_workspaces T)))
       (filter (\<lambda>u. us_id u = wi_invitedBy i) (t_users T))))
       (filter (\<lambda>i. wi_token i = token) (t_ws_invitations T))) of
     [] \<Rightarrow> None | r # _ \<Rightarrow> Some r)"

definition acceptInvitation :: "sql_env \<Rightarrow> string \<Rightarrow> string \<Rightarrow> tables \<Rightarrow> workspace_row option outcome \<times> tables" where
  "acceptInvitation S token userId T =
     (case select_one (\<lambda>u. us_id u = userId) (t_users T) of
        None \<Rightarrow> (Inl (WorkspaceInvitationError ''user_not_found'' ''User not found''), T)
      | Some user \<Rightarrow>
          if us_email user = [] then (Inl (WorkspaceInvitationError ''user_not_found'' ''User not found''), T)
          else (case select_one (\<lambda>i. wi_token i = token) (t_ws_invitations T) of
            None \<Rightarrow> (Inl (WorkspaceInvitationError ''not_found'' ''Invitation not found''), T)
          | Some invitation \<Rightarrow>
              if wi_emailLower invitation \<noteq> normalizeEmail (us_email user)
              then (Inl (WorkspaceInvitationError ''wrong_user'' ''Invitation email does not match current user''), T)
              else (case update_ws_invitations S (\<lambda>i. wi_id i = wi_id invitation \<and> wi_status i = ''pending'' \<and>
                  s_now S < wi_expiresAt i) ''accepted'' T of
                (Inl e, _) \<Rightarrow> (Inl e, T)
              | (Inr accepted, T1) \<Rightarrow>
                  if accepted = []
                  then (Inl (WorkspaceInvitationError ''expired_or_used'' ''Invitation is expired or already used''), T)
                  else (case insert_ws_member S True (new_ws_member S (wi_workspace invitation) userId
                        (wi_role invitation) (Some (wi_invitedBy invitation))) T1 of
                      Inl e \<Rightarrow> (Inl e, T)
                    | Inr T2 \<Rightarrow> (Inr (select_one (\<lambda>w. ws_id w = wi_workspace invitation) (t_workspaces T2)), T2)))))"

section \<open>One owner per workspace\<close>

definition owners :: "tables \<Rightarrow> string \<Rightarrow> workspace_member_row list" where
  "owners T i = filter (\<lambda>m. wm_workspace m = i \<and> wm_role m = ''owner'') (t_ws_members T)"

definition one_owner :: "tables \<Rightarrow> bool" where
  "one_owner T = (\<forall>w \<in> set (t_workspaces T). length (owners T (ws_id w)) = 1)"

definition ws_references_ok :: "tables \<Rightarrow> bool" where
  \<comment> \<open>the primary key of \<open>workspace_members\<close>, its foreign key, and \<open>valid_workspace_invite_role\<close>\<close>
  "ws_references_ok T = (distinct (map wm_id (t_ws_members T)) \<and>
     (\<forall>m \<in> set (t_ws_members T). has_workspace T (wm_workspace m)) \<and>
     (\<forall>i \<in> set (t_ws_invitations T). wi_role i \<noteq> ''owner''))"

datatype workspace_op =
    Create string string
  | Rename string string
  | Remove string string
  | Invite string string string string
  | Accept string string

fun workspace_step :: "sql_env \<Rightarrow> workspace_op \<Rightarrow> tables \<Rightarrow> tables" where
  "workspace_step S (Create name owner) T = snd (createWorkspace S name owner T)"
| "workspace_step S (Rename i name) T = snd (renameWorkspace S i name T)"
| "workspace_step S (Remove i member) T = snd (deleteWorkspaceMember i member T)"
| "workspace_step S (Invite i email role by_user) T = snd (createInvitation S id id i email role by_user T)"
| "workspace_step S (Accept token u) T = snd (acceptInvitation S token u T)"

lemma insert_ws_member_cases:
  assumes "insert_ws_member S lenient row T = Inr T'"
  shows "T' = T \<or> (T' = T\<lparr>t_ws_members := t_ws_members T @ [row]\<rparr> \<and> has_workspace T (wm_workspace row) \<and>
    wm_id row \<notin> wm_id ` set (t_ws_members T))"
  using assms by (auto simp: insert_ws_member_def ws_member_clash_def split: if_splits)

lemma owners_frame [simp]:
  "owners (T\<lparr>t_workspaces := ws\<rparr>) = owners T" "owners (T\<lparr>t_ws_invitations := is\<rparr>) = owners T"
  by (simp_all add: fun_eq_iff owners_def)

lemma ws_frame [simp]: "has_workspace (T\<lparr>t_ws_invitations := is\<rparr>) = has_workspace T"
  "has_workspace (T\<lparr>t_ws_members := ms\<rparr>) = has_workspace T"
  by (simp_all add: fun_eq_iff has_workspace_def)

lemma owners_insert:
  "owners (T\<lparr>t_ws_members := t_ws_members T @ [row]\<rparr>) i =
     owners T i @ (if wm_workspace row = i \<and> wm_role row = ''owner'' then [row] else [])"
  by (simp add: owners_def)

lemma no_owners: "ws_references_ok T \<Longrightarrow> \<not> has_workspace T i \<Longrightarrow> owners T i = []"
  by (auto simp: owners_def ws_references_ok_def filter_empty_conv)

lemma add_member_keeps:
  assumes "one_owner T" "ws_references_ok T" "wm_role row \<noteq> ''owner''" "insert_ws_member S l row T = Inr T'"
  shows "one_owner T' \<and> ws_references_ok T'"
  using insert_ws_member_cases[OF assms(4)] assms(1-3)
  by (auto simp: one_owner_def owners_insert ws_references_ok_def)

lemma createWorkspace_keeps:
  assumes "one_owner T" "ws_references_ok T"
  shows "one_owner (snd (createWorkspace S name ow T)) \<and> ws_references_ok (snd (createWorkspace S name ow T))"
proof -
  let ?w = "new_workspace S name ow" and ?m = "new_ws_member S (ws_id (new_workspace S name ow)) ow ''owner'' None"
  let ?T1 = "T\<lparr>t_workspaces := t_workspaces T @ [?w]\<rparr>"
  show ?thesis
  proof (cases "has_workspace T (ws_id ?w) \<or> \<not> has_user T ow \<or> (\<exists>e. insert_ws_member S False ?m ?T1 = Inl e)")
    case True
    then show ?thesis using assms by (auto simp: createWorkspace_def Let_def)
  next
    case False
    then obtain T' where T': "insert_ws_member S False ?m ?T1 = Inr T'"
      by (cases "insert_ws_member S False ?m ?T1") auto
    have ins: "T' = ?T1\<lparr>t_ws_members := t_ws_members T @ [?m]\<rparr>" "wm_id ?m \<notin> wm_id ` set (t_ws_members T)"
      using T' by (auto simp: insert_ws_member_def ws_member_clash_def split: if_splits)
    have new: "ws_id v \<noteq> ws_id ?w" if "v \<in> set (t_workspaces T)" for v
      using False that by (auto simp: has_workspace_def)
    have own: "owners T' i = owners T i @ (if i = ws_id ?w then [?m] else [])" for i
      using owners_insert[of ?T1 ?m i] by (simp add: ins new_ws_member_def)
    have ws: "t_workspaces T' = t_workspaces T @ [?w]" by (simp add: ins)
    have "length (owners T' (ws_id v)) = 1" if "v \<in> set (t_workspaces T')" for v
      using that assms(1) False new no_owners[OF assms(2), of "ws_id ?w"]
      unfolding own ws by (auto simp: one_owner_def)
    moreover have "ws_references_ok T'"
      using assms(2) ins(2) by (auto simp: ws_references_ok_def ins(1) has_workspace_def new_ws_member_def)
    moreover have "snd (createWorkspace S name ow T) = T'"
      using False T' by (simp add: createWorkspace_def Let_def)
    ultimately show ?thesis by (simp add: one_owner_def)
  qed
qed

lemma deleteWorkspaceMember_keeps:
  assumes "one_owner T" "ws_references_ok T"
  shows "one_owner (snd (deleteWorkspaceMember i member T)) \<and> ws_references_ok (snd (deleteWorkspaceMember i member T))"
proof (cases "select_one (\<lambda>m. wm_workspace m = i \<and> wm_id m = member) (t_ws_members T)")
  case None
  then show ?thesis using assms by (simp add: deleteWorkspaceMember_def)
next
  case (Some m)
  show ?thesis
  proof (cases "wm_role m = ''owner''")
    case True
    then show ?thesis using assms Some by (simp add: deleteWorkspaceMember_def)
  next
    case False
    let ?T = "T\<lparr>t_ws_members := delete_rows (\<lambda>m. wm_id m = member) (t_ws_members T)\<rparr>"
    have "n = m" if "n \<in> set (t_ws_members T)" "wm_id n = member" for n
      using select_one_Some[OF Some] that assms(2) by (auto simp: ws_references_ok_def distinct_map inj_on_def)
    then have "owners ?T j = owners T j" for j
      using False by (auto simp: owners_def delete_rows_def intro!: filter_cong)
    then show ?thesis using assms Some False
      by (auto simp: deleteWorkspaceMember_def one_owner_def ws_references_ok_def delete_rows_keys)
  qed
qed

lemma update_ws_invitations_keeps:
  assumes "update_ws_invitations S hit st T = (Inr hits, T')" "one_owner T" "ws_references_ok T"
  shows "one_owner T' \<and> ws_references_ok T'"
  using assms by (auto simp: update_ws_invitations_def Let_def one_owner_def ws_references_ok_def split: if_splits)

lemma acceptInvitation_keeps:
  assumes "one_owner T" "ws_references_ok T"
  shows "one_owner (snd (acceptInvitation S token u T)) \<and> ws_references_ok (snd (acceptInvitation S token u T))"
proof (cases "fst (acceptInvitation S token u T)")
  case (Inl e)
  then have "snd (acceptInvitation S token u T) = T"
    by (auto simp: acceptInvitation_def split: option.splits sum.splits prod.splits if_splits)
  with assms show ?thesis by simp
next
  case (Inr r)
  then obtain i T1 hits T2 where step: "i \<in> set (t_ws_invitations T)"
    "update_ws_invitations S (\<lambda>j. wi_id j = wi_id i \<and> wi_status j = ''pending'' \<and> s_now S < wi_expiresAt j)
       ''accepted'' T = (Inr hits, T1)"
    "insert_ws_member S True (new_ws_member S (wi_workspace i) u (wi_role i) (Some (wi_invitedBy i))) T1 = Inr T2"
    "snd (acceptInvitation S token u T) = T2"
    by (auto simp: acceptInvitation_def dest: select_one_Some split: option.splits sum.splits prod.splits if_splits)
  have "wi_role i \<noteq> ''owner''" using assms(2) step(1) by (simp add: ws_references_ok_def)
  then show ?thesis
    using update_ws_invitations_keeps[OF step(2) assms] add_member_keeps[OF _ _ _ step(3)] step(4)
    by (simp add: new_ws_member_def)
qed

lemma createInvitation_keeps:
  assumes "one_owner T" "ws_references_ok T"
  shows "one_owner (snd (createInvitation S id id i email role by_user T)) \<and>
    ws_references_ok (snd (createInvitation S id id i email role by_user T))"
proof -
  have "snd (createInvitation S id id i email role by_user T) = T \<or>
    (wi_role (new_ws_invitation S i email role by_user) \<noteq> ''owner'' \<and>
     snd (createInvitation S id id i email role by_user T) =
       T\<lparr>t_ws_invitations := t_ws_invitations T @ [new_ws_invitation S i email role by_user]\<rparr>)"
    by (auto simp: createInvitation_def Let_def insert_ws_invitation_def
      split: option.split sum.split domain_error.split)
  then show ?thesis using assms by (auto simp: one_owner_def ws_references_ok_def)
qed

lemma has_workspace_ids: "has_workspace T i \<longleftrightarrow> i \<in> set (map ws_id (t_workspaces T))"
  by (auto simp: has_workspace_def)

lemma renameWorkspace_keeps:
  assumes "one_owner T" "ws_references_ok T"
  shows "one_owner (snd (renameWorkspace S i name T)) \<and> ws_references_ok (snd (renameWorkspace S i name T))"
proof -
  let ?T = "snd (renameWorkspace S i name T)"
  have ids: "map ws_id (t_workspaces ?T) = map ws_id (t_workspaces T)"
    by (simp add: renameWorkspace_def Let_def update_rows_keys)
  have same: "t_ws_members ?T = t_ws_members T" "t_ws_invitations ?T = t_ws_invitations T"
    by (simp_all add: renameWorkspace_def Let_def)
  have "one_owner U \<longleftrightarrow> (\<forall>i \<in> set (map ws_id (t_workspaces U)). length (owners U i) = 1)" for U :: tables
    by (simp add: one_owner_def)
  then show ?thesis using assms by (simp add: ids same owners_def ws_references_ok_def has_workspace_ids del: set_map)
qed

lemma workspace_step_keeps:
  assumes "one_owner T" "ws_references_ok T"
  shows "one_owner (workspace_step S op T) \<and> ws_references_ok (workspace_step S op T)"
  using assms createWorkspace_keeps renameWorkspace_keeps deleteWorkspaceMember_keeps
    createInvitation_keeps acceptInvitation_keeps by (cases op) simp_all

text \<open>C10: Every workspace has exactly one owner, and keeps exactly one, whatever sequence of operations runs:
  creating and renaming workspaces, removing members, inviting and accepting; a removal that names the owner is
  refused and an invitation never makes an owner.\<close>

theorem workspaces_keep_one_owner:
  assumes "one_owner T" "ws_references_ok T"
  shows "one_owner (fold (\<lambda>(S, op). workspace_step S op) ops T) \<and>
    ws_references_ok (fold (\<lambda>(S, op). workspace_step S op) ops T)"
  using assms
proof (induction ops arbitrary: T)
  case (Cons p ops)
  obtain S op where p: "p = (S, op)" by (cases p)
  have "one_owner (workspace_step S op T) \<and> ws_references_ok (workspace_step S op T)"
    using workspace_step_keeps[OF Cons.prems] .
  then show ?case using Cons.IH p by simp
qed simp

definition owned_tables :: tables where
  "owned_tables = demo_tables\<lparr>t_ws_members := [\<lparr>wm_id = ''n'', wm_workspace = ''w'', wm_user = ''u'', wm_role = ''owner'',
     wm_addedBy = None, wm_createdAt = None, wm_updatedAt = None\<rparr>]\<rparr>"

theorem workspaces_keep_one_owner_witness:
  "length (owners (workspace_step demo_sql (Remove ''w'' ''n'') owned_tables) ''w'') = 1"
proof -
  have "one_owner owned_tables" "ws_references_ok owned_tables"
    by (simp_all add: owned_tables_def demo_tables_def one_owner_def owners_def ws_references_ok_def has_workspace_def)
  from workspaces_keep_one_owner[OF this, of "[(demo_sql, Remove ''w'' ''n'')]"] show ?thesis
    by (simp add: one_owner_def deleteWorkspaceMember_def select_one_def owned_tables_def demo_tables_def)
qed

end
