(* ===== verification/Users.thy ===== *)
theory Users
  imports Workspaces
begin

text \<open>
  The user service (\<open>modules/users/user.service.ts\<close>): signing in with Google creates the user, the
  account and the personal workspace in one transaction, or finds them again. The lemmas show that a
  sign-in is repeatable and keeps one owner per workspace.
\<close>

record oauth_row =
  oa_user :: string
  oa_provider :: string
  oa_providerId :: string
  oa_email :: string

record accounts =
  ac_tables :: tables
  ac_oauth :: "oauth_row list"

record google_user =
  gu_email :: string
  gu_name :: string
  gu_avatarUrl :: "string option"
  gu_googleId :: string

definition getUserById :: "tables \<Rightarrow> string \<Rightarrow> user_row option" where
  "getUserById T i = select_one (\<lambda>u. us_id u = i) (t_users T)"

definition getUserByEmail :: "tables \<Rightarrow> string \<Rightarrow> user_row option" where
  "getUserByEmail T email = select_one (\<lambda>u. us_email u = email) (t_users T)"

definition new_user :: "sql_env \<Rightarrow> google_user \<Rightarrow> user_row" where
  "new_user S g = \<lparr>us_id = s_uuid S 2, us_email = gu_email g, us_name = gu_name g, us_avatarUrl = gu_avatarUrl g\<rparr>"

definition google_account :: "string \<Rightarrow> accounts \<Rightarrow> oauth_row option" where
  "google_account googleId A =
     select_one (\<lambda>a. oa_provider a = ''google'' \<and> oa_providerId a = googleId) (ac_oauth A)"

definition sign_up :: "sql_env \<Rightarrow> google_user \<Rightarrow> accounts \<Rightarrow> user_row outcome \<times> accounts" where
  \<comment> \<open>the transaction: \<open>users\<close> has its key and the unique address, the workspace and its owner are
    inserted as \<open>createWorkspace\<close> inserts them\<close>
  "sign_up S g A =
     (let u = new_user S g; T = ac_tables A in
      if list_ex (\<lambda>v. us_id v = us_id u \<or> us_email v = us_email u) (t_users T)
      then (Inl (Raised (s_raise S UNIQUE_VIOLATION)), A)
      else (case createWorkspace S ''Personal Workspace'' (us_id u) (T\<lparr>t_users := t_users T @ [u]\<rparr>) of
          (Inl e, _) \<Rightarrow> (Inl e, A)
        | (Inr w, T) \<Rightarrow> (Inr u, A\<lparr>ac_tables := T, ac_oauth := ac_oauth A @ [\<lparr>oa_user = us_id u,
            oa_provider = ''google'', oa_providerId = gu_googleId g, oa_email = gu_email g\<rparr>]\<rparr>)))"

definition upsertGoogleUser :: "sql_env \<Rightarrow> google_user \<Rightarrow> accounts \<Rightarrow> user_row option outcome \<times> accounts" where
  \<comment> \<open>\<open>None\<close> is \<open>undefined\<close>\<close>
  "upsertGoogleUser S g A = (case google_account (gu_googleId g) A of
     Some account \<Rightarrow> (Inr (getUserById (ac_tables A) (oa_user account)), A)
   | None \<Rightarrow> (case sign_up S g A of (Inl e, A) \<Rightarrow> (Inl e, A) | (Inr u, A) \<Rightarrow> (Inr (Some u), A)))"

section \<open>Lemmas\<close>

lemma created_users: "createWorkspace S name ow T = (r, T') \<Longrightarrow> t_users T' = t_users T"
  by (auto simp: createWorkspace_def insert_ws_member_def Let_def split: if_splits sum.splits)

lemma users_independent: "one_owner (T\<lparr>t_users := us\<rparr>) = one_owner T"
  "ws_references_ok (T\<lparr>t_users := us\<rparr>) = ws_references_ok T"
  by (simp_all add: one_owner_def owners_def ws_references_ok_def has_workspace_def)

lemma sign_up_result:
  assumes "sign_up S g A = (Inr u, A')"
  shows "u = new_user S g \<and> getUserById (ac_tables A') (us_id u) = Some u \<and>
    (\<exists>a. ac_oauth A' = ac_oauth A @ [a] \<and> oa_user a = us_id u \<and> oa_provider a = ''google'' \<and> oa_providerId a = gu_googleId g)"
proof -
  have fresh: "\<not> list_ex (\<lambda>v. us_id v = us_id (new_user S g) \<or> us_email v = us_email (new_user S g)) (t_users (ac_tables A))"
    using assms by (auto simp: sign_up_def Let_def)
  then have "getUserById (T\<lparr>t_users := t_users (ac_tables A) @ [new_user S g]\<rparr>) (us_id (new_user S g)) = Some (new_user S g)" for T
    by (auto simp: getUserById_def list_ex_iff intro!: select_one_unique)
  then have "getUserById T' (us_id (new_user S g)) = Some (new_user S g)"
    if "t_users T' = t_users (ac_tables A) @ [new_user S g]" for T'
    using that by (simp add: getUserById_def)
  with assms fresh show ?thesis
    by (auto simp: sign_up_def Let_def split: sum.splits prod.splits dest!: created_users)
qed

lemma sign_up_keeps:
  assumes "one_owner (ac_tables A)" "ws_references_ok (ac_tables A)"
  shows "one_owner (ac_tables (snd (sign_up S g A))) \<and> ws_references_ok (ac_tables (snd (sign_up S g A)))"
proof -
  have "one_owner T' \<and> ws_references_ok T'"
    if "createWorkspace S n ow (ac_tables A\<lparr>t_users := us\<rparr>) = (r, T')" for n ow us r T'
    using createWorkspace_keeps[of "ac_tables A\<lparr>t_users := us\<rparr>" S n ow] that assms
    by (simp add: users_independent)
  then show ?thesis using assms by (auto simp: sign_up_def Let_def split: sum.split prod.split)
qed

lemma account_found:
  assumes "google_account i A = None" "ac_oauth A' = ac_oauth A @ [a]" "oa_provider a = ''google''" "oa_providerId a = i"
  shows "google_account i A' = Some a"
  using assms by (auto simp: google_account_def select_one_None intro!: select_one_unique)

text \<open>Signing in with Google is repeatable: once it has given a user, signing in again with the same Google account,
  whatever address, name or picture Google reports now, gives the same user and changes nothing; and every sign-in,
  also one that fails, keeps exactly one owner per workspace.\<close>

theorem google_sign_in_repeats:
  assumes "upsertGoogleUser S g A = (Inr (Some u), A')" "gu_googleId g' = gu_googleId g"
    and "one_owner (ac_tables A)" "ws_references_ok (ac_tables A)"
  shows "upsertGoogleUser S' g' A' = (Inr (Some u), A') \<and> one_owner (ac_tables A')"
proof (cases "google_account (gu_googleId g) A")
  case (Some a)
  then show ?thesis using assms by (auto simp: upsertGoogleUser_def)
next
  case None
  then have s: "sign_up S g A = (Inr u, A')"
    using assms(1) by (auto simp: upsertGoogleUser_def split: sum.splits prod.splits)
  from sign_up_result[OF s] obtain a where a: "ac_oauth A' = ac_oauth A @ [a]" "oa_user a = us_id u"
      "oa_provider a = ''google''" "oa_providerId a = gu_googleId g" "getUserById (ac_tables A') (us_id u) = Some u"
    by blast
  have "one_owner (ac_tables A')" using sign_up_keeps[OF assms(3,4), of S g] s by simp
  then show ?thesis using account_found[OF None a(1,3,4)] a assms(2) by (simp add: upsertGoogleUser_def)
qed

definition no_accounts :: accounts where
  "no_accounts = \<lparr>ac_tables = \<lparr>t_boards = [], t_members = [], t_favorites = Some [], t_invitations = [], t_workspaces = [],
     t_ws_members = [], t_ws_invitations = [], t_users = [], t_elements = []\<rparr>, ac_oauth = []\<rparr>"

theorem google_sign_in_repeats_witness:
  "\<exists>u A'. upsertGoogleUser demo_sql \<lparr>gu_email = ''a@x'', gu_name = ''A'', gu_avatarUrl = None, gu_googleId = ''g1''\<rparr> no_accounts
      = (Inr (Some u), A') \<and>
    upsertGoogleUser demo_sql \<lparr>gu_email = ''b@x'', gu_name = ''B'', gu_avatarUrl = None, gu_googleId = ''g1''\<rparr> A' = (Inr (Some u), A')"
proof -
  let ?g = "\<lparr>gu_email = ''a@x'', gu_name = ''A'', gu_avatarUrl = None, gu_googleId = ''g1''\<rparr>"
  have "\<exists>u A'. upsertGoogleUser demo_sql ?g no_accounts = (Inr (Some u), A')"
    by (simp add: upsertGoogleUser_def google_account_def select_one_def no_accounts_def sign_up_def new_user_def
        createWorkspace_def new_workspace_def insert_ws_member_def new_ws_member_def valid_role_def ws_member_clash_def
        has_workspace_def has_user_def Let_def)
  then obtain u A' where s: "upsertGoogleUser demo_sql ?g no_accounts = (Inr (Some u), A')" by blast
  show ?thesis
    using google_sign_in_repeats[OF s, of "\<lparr>gu_email = ''b@x'', gu_name = ''B'', gu_avatarUrl = None, gu_googleId = ''g1''\<rparr>" demo_sql] s
    by (auto simp: no_accounts_def one_owner_def ws_references_ok_def)
qed

end
