(* ===== verification/Credentials.thy ===== *)
theory Credentials
  imports Users Socket_Session
begin

text \<open>
  How a request proves who it is: \<open>parseCookieHeader\<close> (\<open>shared/cookies.ts\<close>), the origin lists
  (\<open>shared/cors.ts\<close>), the cookie names and options (\<open>auth/routes/helpers.ts\<close>), the two REST
  middlewares, the handshake gate of \<open>socketio/server.ts\<close> and the identity of a socket
  (\<open>socketio/identity.ts\<close>). \<open>verifyAccessToken\<close>, which wraps a JWT library, is the parameter
  \<open>verify\<close>: the subject of a valid token, \<open>None\<close> when it throws. Text is its UTF-8 bytes here.
\<close>

section \<open>Cookie headers\<close>

definition hex_value :: "char \<Rightarrow> nat option" where
  "hex_value c = (let n = (of_char c :: nat) in
     if 48 \<le> n \<and> n \<le> 57 then Some (n - 48)
     else if 65 \<le> n \<and> n \<le> 70 then Some (n - 55)
     else if 97 \<le> n \<and> n \<le> 102 then Some (n - 87)
     else None)"

datatype piece = Plain char | Escaped nat

fun pieces :: "string \<Rightarrow> piece list option" where
  "pieces [] = Some []"
| "pieces (c # cs) =
     (if c \<noteq> CHR ''%'' then map_option (Cons (Plain c)) (pieces cs)
      else (case cs of a # b # rest \<Rightarrow>
          (case (hex_value a, hex_value b) of
             (Some m, Some n) \<Rightarrow> map_option (Cons (Escaped (16 * m + n))) (pieces rest)
           | _ \<Rightarrow> None)
        | _ \<Rightarrow> None))"

definition tail_byte :: "nat \<Rightarrow> bool" where
  "tail_byte n = (128 \<le> n \<and> n \<le> 191)"

fun well_encoded :: "piece list \<Rightarrow> bool" where
  \<comment> \<open>the escaped bytes above 127 are UTF-8\<close>
  "well_encoded [] = True"
| "well_encoded (Plain c # ps) = well_encoded ps"
| "well_encoded (Escaped n # ps) =
     (if n < 128 then well_encoded ps
      else if 194 \<le> n \<and> n \<le> 223
      then (case ps of Escaped a # ps \<Rightarrow> tail_byte a \<and> well_encoded ps | _ \<Rightarrow> False)
      else if 224 \<le> n \<and> n \<le> 239
      then (case ps of Escaped a # Escaped b # ps \<Rightarrow> tail_byte a \<and> tail_byte b \<and> (n = 224 \<longrightarrow> 160 \<le> a) \<and>
              (n = 237 \<longrightarrow> a \<le> 159) \<and> well_encoded ps | _ \<Rightarrow> False)
      else if 240 \<le> n \<and> n \<le> 244
      then (case ps of Escaped a # Escaped b # Escaped c # ps \<Rightarrow> tail_byte a \<and> tail_byte b \<and> tail_byte c \<and>
              (n = 240 \<longrightarrow> 144 \<le> a) \<and> (n = 244 \<longrightarrow> a \<le> 143) \<and> well_encoded ps | _ \<Rightarrow> False)
      else False)"

fun piece_char :: "piece \<Rightarrow> char" where
  "piece_char (Plain c) = c"
| "piece_char (Escaped n) = char_of n"

definition decodeURIComponent :: "string \<Rightarrow> string option" where
  \<comment> \<open>\<open>None\<close>: a \<open>URIError\<close>\<close>
  "decodeURIComponent s = (case pieces s of None \<Rightarrow> None
     | Some ps \<Rightarrow> if well_encoded ps then Some (map piece_char ps) else None)"

fun js_split :: "char \<Rightarrow> string \<Rightarrow> string list" where
  "js_split c [] = [[]]"
| "js_split c (x # xs) = (if x = c then [] # js_split c xs
     else (case js_split c xs of [] \<Rightarrow> [[x]] | p # ps \<Rightarrow> (x # p) # ps))"

fun js_join :: "string \<Rightarrow> string list \<Rightarrow> string" where
  "js_join sep [] = []"
| "js_join sep [s] = s"
| "js_join sep (s # ss) = s @ sep @ js_join sep ss"

definition add_cookie :: "string \<Rightarrow> (string \<times> string) list \<Rightarrow> (string \<times> string) list" where
  \<comment> \<open>one segment; an object ignores a string assigned to \<open>__proto__\<close>\<close>
  "add_cookie segment cookies = (case js_split CHR ''='' (js_trim segment) of
     name # rest \<Rightarrow> if name = [] \<or> rest = [] \<or> name = ''__proto__'' then cookies
       else (let raw = js_join ''='' rest in
         js_put name (case decodeURIComponent (js_trim raw) of Some v \<Rightarrow> v | None \<Rightarrow> raw) cookies)
   | [] \<Rightarrow> cookies)"

definition parseCookieHeader :: "string option \<Rightarrow> (string \<times> string) list" where
  "parseCookieHeader raw = (if \<not> truthy raw then [] else fold add_cookie (js_split CHR '';'' (the raw)) [])"

section \<open>Origins and cookie options\<close>

definition parseAllowedOrigins :: "string \<Rightarrow> string list" where
  "parseAllowedOrigins raw = filter (\<lambda>v. v \<noteq> []) (map js_trim (js_split CHR '','' raw))"

definition cors_allows :: "string \<Rightarrow> string option \<Rightarrow> bool" where
  \<comment> \<open>the decision of \<open>createCorsMiddleware\<close>\<close>
  "cors_allows origin requestOrigin = (\<not> truthy requestOrigin \<or> the requestOrigin \<in> set (parseAllowedOrigins origin))"

record auth_config =
  af_nodeEnv :: string
  af_corsOrigin :: string
  af_jwtExpiresIn :: string
  af_refreshTokenExpiresDays :: int
  af_enableOauthFragmentTokens :: bool

definition isAllowedOrigin :: "auth_config \<Rightarrow> string option \<Rightarrow> bool" where
  "isAllowedOrigin C origin = (truthy origin \<and> the origin \<in> set (parseAllowedOrigins (af_corsOrigin C)))"

definition resolveFrontendOrigin :: "string \<Rightarrow> string" where
  "resolveFrontendOrigin corsOrigin = (let allowed = parseAllowedOrigins corsOrigin in
     case List.find (starts_with ''https://'') allowed of
       Some x \<Rightarrow> x | None \<Rightarrow> (case allowed of [] \<Rightarrow> corsOrigin | x # _ \<Rightarrow> x))"

definition resolveFrontendOriginForRequest :: "auth_config \<Rightarrow> string option \<Rightarrow> string" where
  "resolveFrontendOriginForRequest C requestOrigin =
     (if isAllowedOrigin C requestOrigin then the requestOrigin else resolveFrontendOrigin (af_corsOrigin C))"

definition isProduction :: "auth_config \<Rightarrow> bool" where
  "isProduction C = (af_nodeEnv C = ''production'')"

definition ACCESS_TOKEN_COOKIE_NAME :: string where "ACCESS_TOKEN_COOKIE_NAME = ''accessToken''"
definition ACCESS_TOKEN_COOKIE_NAMES :: "string list" where
  "ACCESS_TOKEN_COOKIE_NAMES = [''__Host-'' @ ACCESS_TOKEN_COOKIE_NAME, ACCESS_TOKEN_COOKIE_NAME]"
definition REFRESH_TOKEN_COOKIE_NAME :: string where "REFRESH_TOKEN_COOKIE_NAME = ''refreshToken''"
definition REFRESH_TOKEN_COOKIE_PATH :: string where "REFRESH_TOKEN_COOKIE_PATH = ''/auth''"
definition OAUTH_STATE_COOKIE_NAME :: string where "OAUTH_STATE_COOKIE_NAME = ''oauthState''"
definition OAUTH_PKCE_COOKIE_NAME :: string where "OAUTH_PKCE_COOKIE_NAME = ''oauthPkceVerifier''"
definition OAUTH_ORIGIN_COOKIE_NAME :: string where "OAUTH_ORIGIN_COOKIE_NAME = ''oauthOrigin''"
definition OAUTH_COOKIE_MAX_AGE_MS :: int where "OAUTH_COOKIE_MAX_AGE_MS = 10 * 60 * 1000"

definition accessTokenCookieName :: "auth_config \<Rightarrow> string" where
  "accessTokenCookieName C = (if isProduction C then ''__Host-'' @ ACCESS_TOKEN_COOKIE_NAME else ACCESS_TOKEN_COOKIE_NAME)"

record cookie_options =
  ck_httpOnly :: bool
  ck_secure :: bool
  ck_sameSite :: string
  ck_maxAge :: int
  ck_path :: string

definition with_security :: "auth_config \<Rightarrow> int \<Rightarrow> string \<Rightarrow> cookie_options" where
  \<comment> \<open>\<open>httpOnly\<close> and \<open>buildCookieSecurityOptions\<close>, then age and path\<close>
  "with_security C maxAge path = \<lparr>ck_httpOnly = True, ck_secure = isProduction C,
     ck_sameSite = (if isProduction C then ''none'' else ''lax''), ck_maxAge = maxAge, ck_path = path\<rparr>"

definition buildRefreshTokenCookieOptions :: "auth_config \<Rightarrow> cookie_options" where
  "buildRefreshTokenCookieOptions C = with_security C (af_refreshTokenExpiresDays C * 24 * 60 * 60 * 1000) ''/auth''"

definition unit_multiplier :: "char \<Rightarrow> int option" where
  "unit_multiplier u = (if u = CHR ''s'' then Some 1000 else if u = CHR ''m'' then Some (60 * 1000)
     else if u = CHR ''h'' then Some (60 * 60 * 1000) else if u = CHR ''d'' then Some (24 * 60 * 60 * 1000) else None)"

definition parseJwtExpiryToMs :: "string \<Rightarrow> int" where
  \<comment> \<open>\<open>/^(\d+)([smhd])$/\<close>\<close>
  "parseJwtExpiryToMs raw = (if raw = [] then 15 * 60 * 1000
     else let amount = butlast raw in
       case unit_multiplier (last raw) of
         Some k \<Rightarrow> if amount \<noteq> [] \<and> list_all is_digit amount then int (digits_value amount) * k else 15 * 60 * 1000
       | None \<Rightarrow> 15 * 60 * 1000)"

definition buildAccessTokenCookieOptions :: "auth_config \<Rightarrow> cookie_options" where
  "buildAccessTokenCookieOptions C = with_security C (parseJwtExpiryToMs (af_jwtExpiresIn C)) ''/''"

definition buildOAuthCookieOptions :: "auth_config \<Rightarrow> cookie_options" where
  "buildOAuthCookieOptions C = with_security C OAUTH_COOKIE_MAX_AGE_MS ''/auth''"

section \<open>REST middlewares\<close>

record request =
  rq_authorization :: "string option"
  rq_cookies :: "(string \<times> json) list"
    \<comment> \<open>what \<open>cookie-parser\<close> made of the header\<close>
  rq_cookieHeader :: "string option"
  rq_origin :: "string option"
  rq_query :: "(string \<times> json) list"
  rq_body :: json

definition bearer :: "string option \<Rightarrow> string option" where
  "bearer header = (case header of None \<Rightarrow> None
     | Some h \<Rightarrow> if starts_with ''Bearer '' h then Some (drop 7 h) else None)"

fun first_token :: "(string \<Rightarrow> string option) \<Rightarrow> string list \<Rightarrow> string option" where
  \<comment> \<open>the loop over the cookie names: the first that is a non-empty string\<close>
  "first_token cookie [] = None"
| "first_token cookie (name # names) = (if truthy (cookie name) then cookie name else first_token cookie names)"

definition string_cookie :: "request \<Rightarrow> string \<Rightarrow> string option" where
  "string_cookie req name = (case js_get name (rq_cookies req) of Some (JStr s) \<Rightarrow> Some s | _ \<Rightarrow> None)"

definition readAccessToken :: "request \<Rightarrow> string option" where
  "readAccessToken req = (case bearer (rq_authorization req) of
     Some t \<Rightarrow> Some t
   | None \<Rightarrow> (case first_token (string_cookie req) ACCESS_TOKEN_COOKIE_NAMES of
       Some t \<Rightarrow> Some t
     | None \<Rightarrow> if \<not> truthy (rq_cookieHeader req) then None
         else first_token (\<lambda>n. js_get n (parseCookieHeader (rq_cookieHeader req))) ACCESS_TOKEN_COOKIE_NAMES))"

definition authMiddleware :: "(string \<Rightarrow> string option) \<Rightarrow> request \<Rightarrow> string + string" where
  \<comment> \<open>\<open>Inl\<close>: 401 with this error; \<open>Inr\<close>: \<open>req.userId\<close>\<close>
  "authMiddleware verify req =
     (let token = readAccessToken req in
      if \<not> truthy token then Inl ''Missing authentication token''
      else (case verify (the token) of None \<Rightarrow> Inl ''Invalid or expired token'' | Some sub \<Rightarrow> Inr sub))"

definition optionalAuth :: "(string \<Rightarrow> string option) \<Rightarrow> request \<Rightarrow> string option" where
  "optionalAuth verify req =
     (let token = (case bearer (rq_authorization req) of Some t \<Rightarrow> Some t
        | None \<Rightarrow> first_token (string_cookie req) ACCESS_TOKEN_COOKIE_NAMES) in
      if \<not> truthy token then None
      else (case verify (the token) of None \<Rightarrow> None | Some sub \<Rightarrow> if sub = [] then None else Some sub))"

section \<open>Sockets\<close>

record handshake =
  hs_id :: string
  hs_cookieHeader :: "string option"
  hs_authorization :: "string option"
  hs_authToken :: "string option"
    \<comment> \<open>\<open>handshake.auth.token\<close>, when it is a string\<close>
  hs_authShareToken :: "json option"
  hs_queryShareToken :: "json option"

definition gate_candidates :: "handshake \<Rightarrow> string list" where
  "gate_candidates h = (let cookies = parseCookieHeader (hs_cookieHeader h) in
     filter (\<lambda>t. t \<noteq> []) (List.map_filter id ([hs_authToken h, bearer (hs_authorization h)] @
       map (\<lambda>n. js_get n cookies) ACCESS_TOKEN_COOKIE_NAMES)))"

definition handshake_share_token :: "handshake \<Rightarrow> json option" where
  "handshake_share_token h = (case hs_queryShareToken h of Some (JStr s) \<Rightarrow> Some (JStr s) | _ \<Rightarrow> hs_authShareToken h)"

definition handshake_admits :: "(string \<Rightarrow> string option) \<Rightarrow> handshake \<Rightarrow> bool" where
  "handshake_admits verify h =
     (if list_ex (\<lambda>t. verify t \<noteq> None) (gate_candidates h) then True
      else isValidLinkShareToken (handshake_share_token h))"

definition token_sources :: "handshake \<Rightarrow> string list" where
  "token_sources h = (let cookies = parseCookieHeader (hs_cookieHeader h) in
     filter (\<lambda>t. t \<noteq> []) (List.map_filter id [hs_authToken h, bearer (hs_authorization h),
       first_token (\<lambda>n. js_get n cookies) ACCESS_TOKEN_COOKIE_NAMES]))"

fun identity_loop :: "(string \<Rightarrow> string option) \<Rightarrow> (string \<Rightarrow> user_row option) \<Rightarrow> string list \<Rightarrow> user_row option" where
  "identity_loop verify user_by_id [] = None"
| "identity_loop verify user_by_id (t # ts) = (case verify t of
     None \<Rightarrow> identity_loop verify user_by_id ts
   | Some sub \<Rightarrow> (case user_by_id sub of Some u \<Rightarrow> Some u | None \<Rightarrow> identity_loop verify user_by_id ts))"

definition resolveSocketIdentity :: "(string \<Rightarrow> string option) \<Rightarrow> tables \<Rightarrow> handshake \<Rightarrow> socket_identity" where
  "resolveSocketIdentity verify T h = (case identity_loop verify (getUserById T) (token_sources h) of
     Some user \<Rightarrow> \<lparr>si_authUserId = Some (us_id user), si_runtimeUserId = us_id user, si_userName = us_name user,
       si_avatarUrl = us_avatarUrl user\<rparr>
   | None \<Rightarrow> \<lparr>si_authUserId = None, si_runtimeUserId = ''anonymous:'' @ hs_id h, si_userName = ''Guest'', si_avatarUrl = None\<rparr>)"

section \<open>Cookies that come back\<close>

lemma split_absent: "c \<notin> set s \<Longrightarrow> js_split c s = [s]"
  by (induction s) auto

lemma split_first: "c \<notin> set s \<Longrightarrow> js_split c (s @ c # t) = s # js_split c t"
  by (induction s) auto

lemma split_nonempty [simp]: "js_split c s \<noteq> []"
  by (induction s) (auto split: list.split)

lemma join_split [simp]: "js_join [c] (js_split c s) = s"
proof (induction s)
  case (Cons x xs)
  obtain p ps where p: "js_split c xs = p # ps" by (cases "js_split c xs") auto
  then show ?case using Cons by (cases ps) (auto split: if_splits)
qed simp

lemma decode_plain: "CHR ''%'' \<notin> set s \<Longrightarrow> decodeURIComponent s = Some s"
proof -
  have "CHR ''%'' \<notin> set s \<Longrightarrow> pieces s = Some (map Plain s)" by (induction s) auto
  moreover have "well_encoded (map Plain s)" by (induction s) auto
  ultimately show "CHR ''%'' \<notin> set s \<Longrightarrow> decodeURIComponent s = Some s"
    by (simp add: decodeURIComponent_def comp_def)
qed

definition cookie_safe :: "string \<times> string \<Rightarrow> bool" where
  \<comment> \<open>a token as the name; no blank, semicolon or percent sign in the value, as in hex, base64url and JWTs\<close>
  "cookie_safe p = (fst p \<noteq> [] \<and> fst p \<noteq> ''__proto__'' \<and> CHR ''='' \<notin> set (fst p) \<and>
     list_all (\<lambda>c. \<not> is_space c \<and> c \<noteq> CHR '';'') (fst p @ snd p) \<and> CHR ''%'' \<notin> set (snd p))"

definition render_cookie :: "string \<times> string \<Rightarrow> string" where
  "render_cookie p = fst p @ ''='' @ snd p"

lemma trim_unspaced: "list_all (\<lambda>c. \<not> is_space c) s \<Longrightarrow> js_trim s = s"
  by (rule trim_fixed) (auto simp: list_all_iff)

lemma trim_blank: "js_trim (CHR '' '' # s) = js_trim s"
  by (simp add: js_trim_def is_space_def)

lemma equals_unspaced: "\<not> is_space CHR ''=''"
  by (simp add: is_space_def)

lemma add_rendered:
  assumes "cookie_safe p"
  shows "add_cookie (render_cookie p) cs = js_put (fst p) (snd p) cs"
    "add_cookie (CHR '' '' # render_cookie p) cs = js_put (fst p) (snd p) cs"
proof -
  have "list_all (\<lambda>c. \<not> is_space c) (render_cookie p)" "list_all (\<lambda>c. \<not> is_space c) (snd p)"
    using assms equals_unspaced by (auto simp: render_cookie_def cookie_safe_def list_all_iff)
  then have t: "js_trim (render_cookie p) = render_cookie p" "js_trim (snd p) = snd p"
    by (simp_all add: trim_unspaced)
  have "js_split CHR ''='' (render_cookie p) = fst p # js_split CHR ''='' (snd p)"
    using assms by (simp add: render_cookie_def cookie_safe_def split_first)
  with t assms show "add_cookie (render_cookie p) cs = js_put (fst p) (snd p) cs"
      "add_cookie (CHR '' '' # render_cookie p) cs = js_put (fst p) (snd p) cs"
    by (simp_all add: add_cookie_def trim_blank cookie_safe_def decode_plain Let_def)
qed

lemma split_rendered:
  assumes "list_all cookie_safe (p # ps)"
  shows "js_split CHR '';'' (js_join ''; '' (map render_cookie (p # ps))) =
    render_cookie p # map (\<lambda>q. CHR '' '' # render_cookie q) ps"
  using assms
proof (induction ps arbitrary: p)
  case Nil
  then have "CHR '';'' \<notin> set (render_cookie p)" by (auto simp: render_cookie_def cookie_safe_def list_all_iff)
  then show ?case by (simp add: split_absent)
next
  case (Cons q qs)
  have "CHR '';'' \<notin> set (render_cookie p)"
    using Cons.prems by (auto simp: render_cookie_def cookie_safe_def list_all_iff)
  moreover have blank: "js_split CHR '';'' (CHR '' '' # s) = (case js_split CHR '';'' s of x # xs \<Rightarrow> (CHR '' '' # x) # xs)" for s
    by (cases "js_split CHR '';'' s") auto
  ultimately show ?case using Cons.IH[of q] Cons.prems by (simp add: split_first)
qed

lemma puts_distinct:
  "distinct (map fst (cs @ ps)) \<Longrightarrow> fold (\<lambda>p. js_put (fst p) (snd p)) ps cs = cs @ ps"
proof (induction ps arbitrary: cs)
  case (Cons p ps)
  then have "js_put (fst p) (snd p) cs = cs @ [p]" by (auto simp: js_put_fresh)
  with Cons.IH[of "cs @ [p]"] Cons.prems show ?case by simp
qed simp

text \<open>The cookie parser reads back what a browser sends: for cookies with different names whose values are tokens,
  hexadecimal or base64url texts or JWTs, parsing the header gives exactly those names and values, in their order.\<close>

theorem cookie_header_roundtrip:
  assumes "list_all cookie_safe cookies" "distinct (map fst cookies)"
  shows "parseCookieHeader (Some (js_join ''; '' (map render_cookie cookies))) = cookies"
proof (cases cookies)
  case Nil
  then show ?thesis by (simp add: parseCookieHeader_def truthy_def)
next
  case (Cons p ps)
  have "fold add_cookie (map (\<lambda>q. CHR '' '' # render_cookie q) ps) cs = fold (\<lambda>p. js_put (fst p) (snd p)) ps cs" for cs
    using assms(1) Cons by (induction ps arbitrary: cs cookies p) (auto simp: add_rendered)
  moreover have "js_join ''; '' (map render_cookie cookies) \<noteq> []"
    using Cons by (cases ps) (auto simp: render_cookie_def)
  moreover have "fold (\<lambda>p. js_put (fst p) (snd p)) ps [p] = cookies"
    using puts_distinct[of "[p]" ps] assms(2) Cons by simp
  ultimately show ?thesis
    using split_rendered[of p ps] assms(1) Cons by (simp add: parseCookieHeader_def truthy_def add_rendered)
qed

theorem cookie_header_roundtrip_witness:
  "parseCookieHeader (Some ''refreshToken=a1; accessToken=e=1'') = [(''refreshToken'', ''a1''), (''accessToken'', ''e=1'')]"
  using cookie_header_roundtrip[of "[(''refreshToken'', ''a1''), (''accessToken'', ''e=1'')]"]
  by (simp add: cookie_safe_def is_space_def render_cookie_def)

section \<open>Who is who\<close>

lemma first_token_Some: "first_token cookie names = Some t \<Longrightarrow> t \<noteq> [] \<and> (\<exists>n \<in> set names. cookie n = Some t)"
  by (induction names) (auto simp: truthy_def split: if_splits)

lemma identity_loop_Some:
  "identity_loop verify user_by_id ts = Some u \<Longrightarrow> \<exists>t \<in> set ts. \<exists>sub. verify t = Some sub \<and> user_by_id sub = Some u"
  by (induction ts) (auto split: option.splits)

definition presented :: "request \<Rightarrow> string \<Rightarrow> bool" where
  "presented req t = (bearer (rq_authorization req) = Some t \<or>
     (\<exists>n \<in> set ACCESS_TOKEN_COOKIE_NAMES. string_cookie req n = Some t \<or>
        js_get n (parseCookieHeader (rq_cookieHeader req)) = Some t))"

lemma set_present: "x \<in> set (List.map_filter id xs) \<longleftrightarrow> Some x \<in> set xs"
  by (induction xs) (auto simp: map_filter_simps split: option.split)

lemma token_sources_candidates: "set (token_sources h) \<subseteq> set (gate_candidates h)"
proof
  fix x assume "x \<in> set (token_sources h)"
  then have "x \<noteq> []" and origin: "Some x = hs_authToken h \<or> Some x = bearer (hs_authorization h) \<or>
      first_token (\<lambda>n. js_get n (parseCookieHeader (hs_cookieHeader h))) ACCESS_TOKEN_COOKIE_NAMES = Some x"
    unfolding token_sources_def Let_def set_filter mem_Collect_eq set_present by auto
  moreover have "Some x = hs_authToken h \<or> Some x = bearer (hs_authorization h) \<or>
      (\<exists>n \<in> set ACCESS_TOKEN_COOKIE_NAMES. js_get n (parseCookieHeader (hs_cookieHeader h)) = Some x)"
    using origin first_token_Some by blast
  ultimately show "x \<in> set (gate_candidates h)"
    unfolding gate_candidates_def Let_def set_filter mem_Collect_eq set_present by force
qed

lemma readAccessToken_presented: "readAccessToken req = Some t \<Longrightarrow> presented req t"
  by (auto simp: readAccessToken_def presented_def split: option.splits if_splits dest!: first_token_Some)

text \<open>C24: Nobody is taken for a user without that user's token: both REST middlewares name a user only if a token in the
  authorization header or an access-token cookie verifies for him, and a socket gets a user's identity only if a token
  of its handshake verifies for a user that exists; every such handshake also passes the gate.\<close>

theorem identity_needs_token:
  "(\<forall>u. authMiddleware verify req = Inr u \<longrightarrow> (\<exists>t. presented req t \<and> verify t = Some u)) \<and>
   (\<forall>u. optionalAuth verify req = Some u \<longrightarrow> (\<exists>t. presented req t \<and> verify t = Some u)) \<and>
   (\<forall>u. si_authUserId (resolveSocketIdentity verify T h) = Some u \<longrightarrow>
      (\<exists>t \<in> set (token_sources h). verify t = Some u) \<and> has_user T u \<and> handshake_admits verify h)"
proof (intro conjI allI impI)
  fix u assume u: "authMiddleware verify req = Inr u"
  then obtain t where "readAccessToken req = Some t" by (auto simp: authMiddleware_def truthy_def Let_def split: if_splits)
  with u readAccessToken_presented[OF this] show "\<exists>t. presented req t \<and> verify t = Some u"
    by (auto simp: authMiddleware_def Let_def split: option.splits if_splits)
next
  fix u assume "optionalAuth verify req = Some u"
  then show "\<exists>t. presented req t \<and> verify t = Some u"
    by (auto simp: optionalAuth_def presented_def Let_def truthy_def split: option.splits if_splits dest!: first_token_Some)
next
  fix u assume u: "si_authUserId (resolveSocketIdentity verify T h) = Some u"
  then obtain r where "identity_loop verify (getUserById T) (token_sources h) = Some r" "us_id r = u"
    by (auto simp: resolveSocketIdentity_def split: option.splits)
  from identity_loop_Some[OF this(1)] this(2) obtain t sub where t: "t \<in> set (token_sources h)" "verify t = Some sub"
    "getUserById T sub = Some r" by blast
  have r: "r \<in> set (t_users T)" "us_id r = sub"
    using select_one_Some[of "\<lambda>v. us_id v = sub" "t_users T" r] t(3) by (auto simp: getUserById_def)
  then show "\<exists>t \<in> set (token_sources h). verify t = Some u" "has_user T u"
    using t \<open>us_id r = u\<close> by (auto simp: has_user_def)
  show "handshake_admits verify h"
    using t token_sources_candidates[of h] by (auto simp: handshake_admits_def list_ex_iff)
qed

definition demo_handshake :: handshake where
  "demo_handshake = \<lparr>hs_id = ''c1'', hs_cookieHeader = Some ''accessToken=t1'', hs_authorization = None, hs_authToken = None,
     hs_authShareToken = None, hs_queryShareToken = None\<rparr>"

definition demo_users :: tables where
  "demo_users = demo_tables\<lparr>t_users := [\<lparr>us_id = ''u'', us_email = ''e'', us_name = ''n'', us_avatarUrl = None\<rparr>]\<rparr>"

definition demo_verify :: "string \<Rightarrow> string option" where
  "demo_verify t = (if t = ''t1'' then Some ''u'' else None)"

theorem identity_needs_token_witness:
  "handshake_admits demo_verify demo_handshake"
proof -
  have "parseCookieHeader (Some ''accessToken=t1'') = [(''accessToken'', ''t1'')]"
    using split_rendered[of "(''accessToken'', ''t1'')" "[]"] add_rendered(1)[of "(''accessToken'', ''t1'')" "[]"]
    by (simp add: cookie_safe_def is_space_def render_cookie_def parseCookieHeader_def truthy_def)
  then have "si_authUserId (resolveSocketIdentity demo_verify demo_users demo_handshake) = Some ''u''"
    by (simp add: resolveSocketIdentity_def demo_handshake_def token_sources_def getUserById_def select_one_def demo_users_def
        demo_verify_def map_filter_simps bearer_def ACCESS_TOKEN_COOKIE_NAMES_def ACCESS_TOKEN_COOKIE_NAME_def truthy_def)
  with identity_needs_token[of demo_verify undefined demo_users demo_handshake] show ?thesis by blast
qed

end
