(* ===== verification/Sessions.thy ===== *)
theory Sessions
  imports Credentials
begin

text \<open>
  Sign-in, refresh and logout (\<open>auth/routes/session.routes.ts\<close>, \<open>google.routes.ts\<close>): refresh tokens
  with rotation and theft detection, the OAuth callback with its state check. The random sources, the
  hash, the token signer, the e-mail test and the messages of zod, and Google are fields of
  \<open>auth_env\<close>. A refresh is modelled in the steps between its awaits, so that other requests can come
  between them. The lemmas show that a family of tokens never has two that are good, that a replay
  ends its family, the race that lets one token survive, and that the callback needs the cookie of
  the browser that started the flow.
\<close>

section \<open>Replies\<close>

datatype cookie_op =
    SetCookie string string cookie_options
  | ClearCookie string string

datatype redirect =
    Consent string string
      \<comment> \<open>Google's page, with state and PKCE challenge\<close>
  | Frontend string "string option" "(string \<times> string) option"
      \<comment> \<open>\<open>/callback\<close> of an origin, with an error or with the tokens in the fragment\<close>

record reply =
  rp_status :: nat
  rp_cookies :: "cookie_op list"
  rp_body :: json
  rp_location :: "redirect option"

definition error_body :: "string \<Rightarrow> json" where
  "error_body message = JObj [(''error'', JStr message)]"

definition send_error :: "nat \<Rightarrow> string \<Rightarrow> cookie_op list \<Rightarrow> reply" where
  "send_error status message cookies =
     \<lparr>rp_status = status, rp_cookies = cookies, rp_body = error_body message, rp_location = None\<rparr>"

section \<open>Tokens\<close>

record token_row =
  rt_id :: string
  rt_user :: string
  rt_family :: string
  rt_hash :: string
  rt_expiresAt :: int
  rt_revokedAt :: "int option"

record google_payload =
  gp_email :: "string option"
  gp_name :: "string option"
  gp_picture :: "string option"
  gp_sub :: "string option"

record auth_env =
  ae_now :: int
  ae_shift :: int
    \<comment> \<open>what the zone's clock changes until the expiry, 0 in UTC\<close>
  ae_config :: auth_config
  ae_sql :: sql_env
  ae_hash :: "string \<Rightarrow> string"
  ae_sign :: "string \<Rightarrow> string"
  ae_refreshToken :: string
  ae_tokenId :: string
  ae_family :: string
  ae_state :: string
  ae_verifier :: string
  ae_challenge :: "string \<Rightarrow> string"
  ae_issue :: "request \<Rightarrow> string"
  ae_isEmail :: "string \<Rightarrow> bool"
  ae_getToken :: "string \<Rightarrow> string \<Rightarrow> string option outcome"
  ae_verifyIdToken :: "string \<Rightarrow> google_payload option outcome"

record auth_state = accounts +
  as_tokens :: "token_row list"

definition buildRefreshTokenExpiry :: "auth_env \<Rightarrow> int" where
  "buildRefreshTokenExpiry E = ae_now E + af_refreshTokenExpiresDays (ae_config E) * 86400000 - ae_shift E"

definition find_token :: "auth_env \<Rightarrow> string \<Rightarrow> token_row list \<Rightarrow> token_row option" where
  "find_token E token rows = select_one (\<lambda>r. rt_hash r = ae_hash E token) rows"

definition claim_token :: "int \<Rightarrow> token_row \<Rightarrow> token_row list \<Rightarrow> bool \<times> token_row list" where
  \<comment> \<open>the atomic claim: whether the update hit a row\<close>
  "claim_token now row rows = (let hit = (\<lambda>r. rt_id r = rt_id row \<and> rt_revokedAt r = None) in
     (list_ex hit rows, update_rows hit (\<lambda>r. r\<lparr>rt_revokedAt := Some now\<rparr>) rows))"

definition revoke_family :: "int \<Rightarrow> token_row \<Rightarrow> token_row list \<Rightarrow> token_row list" where
  "revoke_family now row rows =
     update_rows (\<lambda>r. rt_family r = rt_family row \<and> rt_revokedAt r = None) (\<lambda>r. r\<lparr>rt_revokedAt := Some now\<rparr>) rows"

definition new_token :: "auth_env \<Rightarrow> string \<Rightarrow> string \<Rightarrow> token_row" where
  "new_token E userId family = \<lparr>rt_id = ae_tokenId E, rt_user = userId, rt_family = family,
     rt_hash = ae_hash E (ae_refreshToken E), rt_expiresAt = buildRefreshTokenExpiry E, rt_revokedAt = None\<rparr>"

definition session_cookies :: "auth_env \<Rightarrow> string \<Rightarrow> cookie_op list" where
  "session_cookies E userId =
     [SetCookie (accessTokenCookieName (ae_config E)) (ae_sign E userId) (buildAccessTokenCookieOptions (ae_config E)),
      SetCookie REFRESH_TOKEN_COOKIE_NAME (ae_refreshToken E) (buildRefreshTokenCookieOptions (ae_config E))]"

definition clear_session :: "auth_env \<Rightarrow> cookie_op list" where
  "clear_session E = [ClearCookie REFRESH_TOKEN_COOKIE_NAME REFRESH_TOKEN_COOKIE_PATH,
     ClearCookie (accessTokenCookieName (ae_config E)) ''/'']"

section \<open>Input\<close>

fun refresh_body :: "json \<Rightarrow> string option option" where
  \<comment> \<open>\<open>refreshTokenBodySchema\<close> on \<open>req.body ?? {}\<close>: \<open>None\<close> when it does not parse\<close>
  "refresh_body JNull = Some None"
| "refresh_body (JObj entries) = (case js_get ''refreshToken'' entries of
     None \<Rightarrow> Some None
   | Some (JStr s) \<Rightarrow> if 1 \<le> length s \<and> length s \<le> 4096 then Some (Some s) else None
   | Some v \<Rightarrow> None)"
| "refresh_body v = None"

definition validateRequestInput :: "request \<Rightarrow> 'a option \<Rightarrow> 'a option" where
  \<comment> \<open>the routes have no parameters and accept no query; \<open>body\<close> is the parsed body\<close>
  "validateRequestInput req body = (if rq_query req = [] then body else None)"

definition refresh_token_of :: "request \<Rightarrow> string option \<Rightarrow> string option" where
  \<comment> \<open>the cookie, else the body; a cookie is text here, not an object \<open>cookie-parser\<close> read from \<open>j:\<close>\<close>
  "refresh_token_of req body = (case string_cookie req REFRESH_TOKEN_COOKIE_NAME of
     Some t \<Rightarrow> if t = [] then body else Some t | None \<Rightarrow> body)"

section \<open>Routes\<close>

definition refresh_lookup :: "auth_env \<Rightarrow> request \<Rightarrow> token_row list \<Rightarrow> reply + token_row" where
  \<comment> \<open>up to the claim\<close>
  "refresh_lookup E req rows = (case validateRequestInput req (refresh_body (rq_body req)) of
     None \<Rightarrow> Inl (send_error 400 (ae_issue E req) [])
   | Some body \<Rightarrow>
       if \<not> isAllowedOrigin (ae_config E) (rq_origin req) then Inl (send_error 403 ''Untrusted origin'' [])
       else (case refresh_token_of req body of
         None \<Rightarrow> Inl (send_error 401 ''Missing refresh token'' [])
       | Some token \<Rightarrow> (case find_token E token rows of
           None \<Rightarrow> Inl (send_error 401 ''Invalid or expired refresh token'' (clear_session E))
         | Some row \<Rightarrow> if rt_expiresAt row \<le> ae_now E
             then Inl (send_error 401 ''Invalid or expired refresh token'' (clear_session E)) else Inr row)))"

definition refresh_reply :: "auth_env \<Rightarrow> token_row \<Rightarrow> reply" where
  "refresh_reply E row = \<lparr>rp_status = 200, rp_cookies = session_cookies E (rt_user row),
     rp_body = JObj [(''ok'', JBool True), (''accessToken'', JStr (ae_sign E (rt_user row))),
       (''refreshToken'', JStr (ae_refreshToken E))], rp_location = None\<rparr>"

definition reuse_reply :: "auth_env \<Rightarrow> reply" where
  "reuse_reply E = send_error 401 ''Refresh token reuse detected; session revoked'' (clear_session E)"

definition refresh :: "auth_env \<Rightarrow> request \<Rightarrow> token_row list \<Rightarrow> reply \<times> token_row list" where
  \<comment> \<open>without interruption\<close>
  "refresh E req rows = (case refresh_lookup E req rows of
     Inl r \<Rightarrow> (r, rows)
   | Inr row \<Rightarrow> (case claim_token (ae_now E) row rows of
       (False, rows) \<Rightarrow> (reuse_reply E, revoke_family (ae_now E) row rows)
     | (True, rows) \<Rightarrow> (refresh_reply E row, rows @ [new_token E (rt_user row) (rt_family row)])))"

definition open_session :: "auth_env \<Rightarrow> string \<Rightarrow> 'a auth_state_scheme \<Rightarrow> 'a auth_state_scheme outcome" where
  \<comment> \<open>\<open>insert into refresh_tokens\<close> with a new family\<close>
  "open_session E userId A = (if \<not> has_user (ac_tables A) userId
     then Inl (Raised (s_raise (ae_sql E) FOREIGN_KEY_VIOLATION))
     else Inr (A\<lparr>as_tokens := as_tokens A @ [new_token E userId (ae_family E)]\<rparr>))"

fun login_email :: "auth_env \<Rightarrow> json \<Rightarrow> string option" where
  "login_email E (JObj entries) = (case js_get ''email'' entries of
     Some (JStr s) \<Rightarrow> if ae_isEmail E s then Some s else None | _ \<Rightarrow> None)"
| "login_email E v = None"

definition user_json :: "user_row \<Rightarrow> json" where
  "user_json u = JObj [(''id'', JStr (us_id u)), (''email'', JStr (us_email u)), (''name'', JStr (us_name u)),
     (''avatarUrl'', case us_avatarUrl u of None \<Rightarrow> JNull | Some a \<Rightarrow> JStr a)]"

definition dev_login :: "auth_env \<Rightarrow> request \<Rightarrow> auth_state \<Rightarrow> reply outcome \<times> auth_state" where
  "dev_login E req A = (case validateRequestInput req (login_email E (rq_body req)) of
     None \<Rightarrow> (Inr (send_error 400 (ae_issue E req) []), A)
   | Some email \<Rightarrow>
       if af_nodeEnv (ae_config E) \<noteq> ''development'' then (Inr (send_error 404 ''Not found'' []), A)
       else if \<not> isAllowedOrigin (ae_config E) (rq_origin req) then (Inr (send_error 403 ''Untrusted origin'' []), A)
       else (case getUserByEmail (ac_tables A) email of
         None \<Rightarrow> (Inr (send_error 404 ''User not found. Run: just db-seed'' []), A)
       | Some user \<Rightarrow> (case open_session E (us_id user) A of
           Inl e \<Rightarrow> (Inl e, A)
         | Inr A \<Rightarrow> (Inr \<lparr>rp_status = 200, rp_cookies = session_cookies E (us_id user),
             rp_body = JObj [(''user'', user_json user)], rp_location = None\<rparr>, A))))"

definition revoke_token :: "auth_env \<Rightarrow> string \<Rightarrow> token_row list \<Rightarrow> token_row list" where
  "revoke_token E token rows = update_rows (\<lambda>r. rt_hash r = ae_hash E token \<and> rt_revokedAt r = None)
     (\<lambda>r. r\<lparr>rt_revokedAt := Some (ae_now E)\<rparr>) rows"

definition logout :: "auth_env \<Rightarrow> request \<Rightarrow> token_row list \<Rightarrow> reply \<times> token_row list" where
  "logout E req rows = (case validateRequestInput req (refresh_body (rq_body req)) of
     None \<Rightarrow> (send_error 400 (ae_issue E req) [], rows)
   | Some body \<Rightarrow>
       if \<not> isAllowedOrigin (ae_config E) (rq_origin req) then (send_error 403 ''Untrusted origin'' [], rows)
       else (\<lparr>rp_status = 200, rp_cookies = clear_session E, rp_body = JStr ''OK'', rp_location = None\<rparr>,
         case refresh_token_of req body of None \<Rightarrow> rows | Some token \<Rightarrow> revoke_token E token rows))"

definition google_start :: "auth_env \<Rightarrow> request \<Rightarrow> reply" where
  "google_start E req = (case validateRequestInput req (if rq_body req \<in> {JNull, JObj []} then Some () else None) of
     None \<Rightarrow> send_error 400 (ae_issue E req) []
   | Some _ \<Rightarrow> (let options = buildOAuthCookieOptions (ae_config E) in
       \<lparr>rp_status = 302, rp_cookies = [SetCookie OAUTH_STATE_COOKIE_NAME (ae_state E) options,
           SetCookie OAUTH_PKCE_COOKIE_NAME (ae_verifier E) options] @
         (if isAllowedOrigin (ae_config E) (rq_origin req)
          then [SetCookie OAUTH_ORIGIN_COOKIE_NAME (the (rq_origin req)) options] else []),
        rp_body = JNull, rp_location = Some (Consent (ae_state E) (ae_challenge E (ae_verifier E)))\<rparr>))"

definition string_query :: "request \<Rightarrow> string \<Rightarrow> string option" where
  "string_query req name = (case js_get name (rq_query req) of Some (JStr s) \<Rightarrow> Some s | _ \<Rightarrow> None)"

definition clear_oauth :: "cookie_op list" where
  "clear_oauth = [ClearCookie OAUTH_STATE_COOKIE_NAME REFRESH_TOKEN_COOKIE_PATH,
     ClearCookie OAUTH_PKCE_COOKIE_NAME REFRESH_TOKEN_COOKIE_PATH]"

definition clear_oauth_origin :: "cookie_op list" where
  "clear_oauth_origin = clear_oauth @ [ClearCookie OAUTH_ORIGIN_COOKIE_NAME REFRESH_TOKEN_COOKIE_PATH]"

definition flow_origin :: "auth_env \<Rightarrow> request \<Rightarrow> string" where
  "flow_origin E req = resolveFrontendOriginForRequest (ae_config E) (string_cookie req OAUTH_ORIGIN_COOKIE_NAME)"

definition oauth_denied :: "auth_env \<Rightarrow> request \<Rightarrow> string \<Rightarrow> reply" where
  \<comment> \<open>Google redirected with \<open>?error=\<close>\<close>
  "oauth_denied E req oauthError =
     (let errorState = string_query req ''state''; stateFromCookie = string_cookie req OAUTH_STATE_COOKIE_NAME in
      if \<not> truthy errorState \<or> \<not> truthy stateFromCookie \<or> stateFromCookie \<noteq> errorState
      then send_error 403 ''Invalid OAuth state'' []
      else \<lparr>rp_status = 302, rp_cookies = clear_oauth_origin, rp_body = JNull,
        rp_location = Some (Frontend (flow_origin E req) (Some oauthError) None)\<rparr>)"

definition callback_query :: "request \<Rightarrow> (string \<times> string) option" where
  \<comment> \<open>\<open>authCallbackQuerySchema\<close> and the empty body\<close>
  "callback_query req = (if rq_body req \<notin> {JNull, JObj []} then None
     else case (string_query req ''code'', string_query req ''state'') of
       (Some code, Some state) \<Rightarrow> if code \<noteq> [] \<and> state \<noteq> [] then Some (code, state) else None
     | _ \<Rightarrow> None)"

definition extractGoogleUserInfo :: "google_payload \<Rightarrow> google_user" where
  "extractGoogleUserInfo p = \<lparr>gu_email = (case gp_email p of None \<Rightarrow> [] | Some x \<Rightarrow> x),
     gu_name = (case gp_name p of None \<Rightarrow> [] | Some x \<Rightarrow> x), gu_avatarUrl = gp_picture p,
     gu_googleId = (case gp_sub p of None \<Rightarrow> [] | Some x \<Rightarrow> x)\<rparr>"

definition signed_in :: "auth_env \<Rightarrow> request \<Rightarrow> string \<Rightarrow> reply" where
  "signed_in E req userId = \<lparr>rp_status = 302, rp_cookies = session_cookies E userId @ clear_oauth_origin,
     rp_body = JNull, rp_location = Some (Frontend (flow_origin E req) None
       (if af_enableOauthFragmentTokens (ae_config E) then Some (ae_sign E userId, ae_refreshToken E) else None))\<rparr>"

definition authentication_failed :: reply where
  "authentication_failed = send_error 500 ''Authentication failed'' clear_oauth"

definition sign_in_google :: "auth_env \<Rightarrow> request \<Rightarrow> google_payload \<Rightarrow> auth_state \<Rightarrow> reply \<times> auth_state" where
  \<comment> \<open>from \<open>upsertGoogleUser\<close> on, inside the \<open>try\<close>\<close>
  "sign_in_google E req payload A =
     (case upsertGoogleUser (ae_sql E) (extractGoogleUserInfo payload) (accounts.truncate A) of
        (Inl e, _) \<Rightarrow> (authentication_failed, A)
      | (Inr None, _) \<Rightarrow> (authentication_failed, A)
      | (Inr (Some user), B) \<Rightarrow>
          (let A = A\<lparr>ac_tables := ac_tables B, ac_oauth := ac_oauth B\<rparr> in
           case open_session E (us_id user) A of
             Inl e \<Rightarrow> (authentication_failed, A)
           | Inr A \<Rightarrow> (signed_in E req (us_id user), A)))"

definition google_callback :: "auth_env \<Rightarrow> request \<Rightarrow> auth_state \<Rightarrow> reply \<times> auth_state" where
  "google_callback E req A = (if truthy (string_query req ''error'')
     then (oauth_denied E req (the (string_query req ''error'')), A)
     else (case callback_query req of
       None \<Rightarrow> (send_error 400 (ae_issue E req) [], A)
     | Some (code, state) \<Rightarrow>
         (let stateFromCookie = string_cookie req OAUTH_STATE_COOKIE_NAME; verifier = string_cookie req OAUTH_PKCE_COOKIE_NAME in
          if \<not> truthy stateFromCookie \<or> stateFromCookie \<noteq> Some state \<or> \<not> truthy verifier
          then (send_error 403 ''Invalid OAuth state'' clear_oauth, A)
          else (case ae_getToken E code (the verifier) of
            Inl e \<Rightarrow> (authentication_failed, A)
          | Inr idToken \<Rightarrow>
              if \<not> truthy idToken then (send_error 400 ''Missing id_token from Google'' [], A)
              else (case ae_verifyIdToken E (the idToken) of
                Inl e \<Rightarrow> (authentication_failed, A)
              | Inr None \<Rightarrow> (send_error 400 ''Invalid Google token payload'' [], A)
              | Inr (Some payload) \<Rightarrow> sign_in_google E req payload A)))))"

section \<open>Families of tokens\<close>

definition live :: "string \<Rightarrow> token_row list \<Rightarrow> nat" where
  "live f rows = length (filter (\<lambda>r. rt_family r = f \<and> rt_revokedAt r = None) rows)"

lemma live_append: "live f (rows @ rows') = live f rows + live f rows'"
  by (simp add: live_def)

lemma live_single: "live f [r] = (if rt_family r = f \<and> rt_revokedAt r = None then 1 else 0)"
  by (simp add: live_def)

lemma claim_keys:
  "claim_token t r rows = (ok, rows') \<Longrightarrow> map rt_id rows' = map rt_id rows \<and> map rt_family rows' = map rt_family rows"
  by (auto simp: claim_token_def Let_def update_rows_def)

lemma revoke_keys:
  "map rt_id (revoke_family t r rows) = map rt_id rows" "map rt_family (revoke_family t r rows) = map rt_family rows"
  "map rt_id (revoke_token E x rows) = map rt_id rows" "map rt_family (revoke_token E x rows) = map rt_family rows"
  by (simp_all add: revoke_family_def revoke_token_def update_rows_def)

lemma revoke_live: "live f (revoke_family t r rows) = (if f = rt_family r then 0 else live f rows)"
proof (cases "f = rt_family r")
  case True
  then show ?thesis by (auto simp: live_def revoke_family_def update_rows_def filter_empty_conv)
next
  case False
  then show ?thesis by (induction rows) (auto simp: live_def revoke_family_def update_rows_def)
qed

lemma revoke_token_live: "live f (revoke_token E x rows) \<le> live f rows"
  by (induction rows) (auto simp: live_def revoke_token_def update_rows_def)

lemma claim_live:
  assumes "claim_token t r rows = (True, rows')" "distinct (map rt_id rows)" "r' \<in> set rows" "rt_id r' = rt_id r"
  shows "live f rows = live f rows' + (if rt_family r' = f then 1 else 0)"
proof -
  have hit: "list_ex (\<lambda>q. rt_id q = rt_id r \<and> rt_revokedAt q = None) rows"
      "rows' = update_rows (\<lambda>q. rt_id q = rt_id r \<and> rt_revokedAt q = None) (\<lambda>q. q\<lparr>rt_revokedAt := Some t\<rparr>) rows"
    using assms(1) by (auto simp: claim_token_def Let_def)
  have same: "update_rows (\<lambda>q. rt_id q = i \<and> rt_revokedAt q = None) (\<lambda>q. q\<lparr>rt_revokedAt := Some t\<rparr>) qs = qs"
    if "i \<notin> rt_id ` set qs" for i qs
    using that by (auto simp: update_rows_def intro!: map_idI)
  show ?thesis unfolding hit(2) using hit(1) assms(2-4)
  proof (induction rows)
    case (Cons q qs)
    show ?case
    proof (cases "rt_id q = rt_id r")
      case True
      then have new: "rt_id r \<notin> rt_id ` set qs" using Cons.prems(2) by simp
      then have others: "rt_id p \<noteq> rt_id r" if "p \<in> set qs" for p
        using that by (metis imageI)
      have "rt_revokedAt q = None" using Cons.prems(1) others by (auto simp: list_ex_iff)
      moreover have "r' = q" using Cons.prems(3,4) others by auto
      moreover note new
      ultimately show ?thesis using same[of "rt_id r" qs] True by (simp add: live_def update_rows_def)
    next
      case False
      with Cons show ?thesis by (auto simp: live_def update_rows_def)
    qed
  qed simp
qed

lemma claim_fails:
  assumes "distinct (map rt_id rows)" "row \<in> set rows" "rt_revokedAt row \<noteq> None"
  shows "claim_token t row rows = (False, rows)"
proof -
  have "q = row" if "q \<in> set rows" "rt_id q = rt_id row" for q
    using that assms(1,2) by (metis distinct_map inj_onD)
  then have none: "\<not> (rt_id q = rt_id row \<and> rt_revokedAt q = None)" if "q \<in> set rows" for q
    using that assms(3) by metis
  then have "\<not> list_ex (\<lambda>q. rt_id q = rt_id row \<and> rt_revokedAt q = None) rows" by (auto simp: list_ex_iff)
  moreover have "update_rows (\<lambda>q. rt_id q = rt_id row \<and> rt_revokedAt q = None) (\<lambda>q. q\<lparr>rt_revokedAt := Some t\<rparr>) rows = rows"
    unfolding update_rows_def by (rule map_idI) (simp only: none if_False)
  ultimately show ?thesis by (simp add: claim_token_def Let_def)
qed

lemma claim_succeeds:
  assumes "distinct (map rt_id rows)" "row \<in> set rows" "rt_revokedAt row = None"
  shows "claim_token t row rows = (True, update_rows (\<lambda>q. q = row) (\<lambda>q. q\<lparr>rt_revokedAt := Some t\<rparr>) rows)"
proof -
  have "q = row" if "q \<in> set rows" "rt_id q = rt_id row" for q
    using that assms(1,2) by (metis distinct_map inj_onD)
  then have "update_rows (\<lambda>q. rt_id q = rt_id row \<and> rt_revokedAt q = None) (\<lambda>q. q\<lparr>rt_revokedAt := Some t\<rparr>) rows =
      update_rows (\<lambda>q. q = row) (\<lambda>q. q\<lparr>rt_revokedAt := Some t\<rparr>) rows"
    using assms(3) by (auto simp: update_rows_def)
  with assms(2,3) show ?thesis by (auto simp: claim_token_def Let_def list_ex_iff)
qed

lemma lookup_row: "refresh_lookup E req rows = Inr row \<Longrightarrow> row \<in> set rows \<and> ae_now E < rt_expiresAt row"
  by (auto simp: refresh_lookup_def find_token_def dest!: select_one_Some split: option.splits if_splits)

text \<open>A refresh with a known, unexpired token either rotates or ends the session: a token that is still good is
  revoked and replaced by one new token for the same user in the same family; a token that has been used or revoked
  before revokes every token of its family, leaves all other families as they are, and clears the cookies.\<close>

theorem refresh_outcome:
  assumes "refresh_lookup E req rows = Inr row" "distinct (map rt_id rows)"
  shows "(rt_revokedAt row = None \<and> refresh E req rows = (refresh_reply E row,
       update_rows (\<lambda>q. q = row) (\<lambda>q. q\<lparr>rt_revokedAt := Some (ae_now E)\<rparr>) rows @
         [new_token E (rt_user row) (rt_family row)])) \<or>
    (rt_revokedAt row \<noteq> None \<and> (\<exists>rows'. refresh E req rows = (reuse_reply E, rows') \<and> live (rt_family row) rows' = 0 \<and>
       filter (\<lambda>r. rt_family r \<noteq> rt_family row) rows' = filter (\<lambda>r. rt_family r \<noteq> rt_family row) rows))"
proof (cases "rt_revokedAt row = None")
  case True
  then show ?thesis using claim_succeeds[OF assms(2) conjunct1[OF lookup_row[OF assms(1)]] True] assms(1)
    by (simp add: refresh_def)
next
  case False
  have "filter (\<lambda>r. rt_family r \<noteq> rt_family row) (revoke_family t row rows) = filter (\<lambda>r. rt_family r \<noteq> rt_family row) rows" for t
    by (induction rows) (auto simp: revoke_family_def update_rows_def)
  then show ?thesis using claim_fails[OF assms(2) conjunct1[OF lookup_row[OF assms(1)]] False] assms(1) False
    by (simp add: refresh_def revoke_live)
qed


definition demo_request :: request where
  "demo_request = \<lparr>rq_authorization = None, rq_cookies = [(''refreshToken'', JStr ''r1'')], rq_cookieHeader = None,
     rq_origin = Some ''http://a'', rq_query = [], rq_body = JNull\<rparr>"

definition demo_auth :: "string \<Rightarrow> string \<Rightarrow> auth_env" where
  "demo_auth tokenId family = \<lparr>ae_now = 5, ae_shift = 0, ae_config = \<lparr>af_nodeEnv = ''development'', af_corsOrigin = ''http://a'',
       af_jwtExpiresIn = ''15m'', af_refreshTokenExpiresDays = 30, af_enableOauthFragmentTokens = False\<rparr>,
     ae_sql = demo_sql, ae_hash = (\<lambda>t. CHR ''h'' # t), ae_sign = (\<lambda>u. CHR ''j'' # u), ae_refreshToken = ''r2'',
     ae_tokenId = tokenId, ae_family = family, ae_state = ''s'', ae_verifier = ''v'', ae_challenge = (\<lambda>v. v),
     ae_issue = (\<lambda>req. ''bad''), ae_isEmail = (\<lambda>s. True), ae_getToken = (\<lambda>c v. Inr (Some ''id'')),
     ae_verifyIdToken = (\<lambda>t. Inr (Some \<lparr>gp_email = Some ''e'', gp_name = Some ''n'', gp_picture = None, gp_sub = Some ''g''\<rparr>))\<rparr>"

definition demo_token :: "string \<Rightarrow> int option \<Rightarrow> token_row" where
  "demo_token i revoked = \<lparr>rt_id = i, rt_user = ''u'', rt_family = ''f'', rt_hash = CHR ''h'' # CHR ''r'' # i,
     rt_expiresAt = 9, rt_revokedAt = revoked\<rparr>"

lemma demo_origin: "isAllowedOrigin (ae_config (demo_auth i f)) (rq_origin demo_request)"
  by (simp add: demo_auth_def demo_request_def isAllowedOrigin_def parseAllowedOrigins_def truthy_def js_split.simps
      js_trim_def is_space_def)

theorem refresh_outcome_witness:
  "refresh (demo_auth ''3'' ''f'') demo_request [demo_token ''1'' (Some 4), demo_token ''2'' None] =
     (reuse_reply (demo_auth ''3'' ''f''), [demo_token ''1'' (Some 4), demo_token ''2'' (Some 5)])"
proof -
  have "refresh_lookup (demo_auth ''3'' ''f'') demo_request [demo_token ''1'' (Some 4), demo_token ''2'' None] =
      Inr (demo_token ''1'' (Some 4))"
    using demo_origin[of "''3''" "''f''"]
    by (simp add: refresh_lookup_def validateRequestInput_def refresh_token_of_def string_cookie_def find_token_def
        select_one_def demo_request_def demo_auth_def demo_token_def REFRESH_TOKEN_COOKIE_NAME_def)
  from refresh_outcome[OF this] this show ?thesis
    by (auto simp: demo_token_def refresh_def claim_token_def revoke_family_def update_rows_def Let_def demo_auth_def)
qed

section \<open>Requests at the same time\<close>

record session_sys =
  sy_rows :: "token_row list"
  sy_claimed :: "token_row list"
    \<comment> \<open>refreshes between their claim and their insert\<close>
  sy_reused :: "token_row list"
    \<comment> \<open>refreshes that lost the claim, before they revoke the family\<close>

definition stored_as :: "token_row \<Rightarrow> token_row list \<Rightarrow> bool" where
  \<comment> \<open>a row read earlier: since then it may have been revoked\<close>
  "stored_as r rows = (\<exists>q \<in> set rows. rt_id q = rt_id r \<and> rt_family q = rt_family r \<and> rt_user q = rt_user r)"

inductive sessions :: "session_sys \<Rightarrow> bool" where
  start: "sessions \<lparr>sy_rows = [], sy_claimed = [], sy_reused = []\<rparr>"
| login: "sessions s \<Longrightarrow> ae_tokenId E \<notin> rt_id ` set (sy_rows s) \<Longrightarrow> ae_family E \<notin> rt_family ` set (sy_rows s) \<Longrightarrow>
    sessions (s\<lparr>sy_rows := sy_rows s @ [new_token E u (ae_family E)]\<rparr>)"
| claim: "sessions s \<Longrightarrow> stored_as r (sy_rows s) \<Longrightarrow> claim_token t r (sy_rows s) = (True, rows) \<Longrightarrow>
    sessions (s\<lparr>sy_rows := rows, sy_claimed := r # sy_claimed s\<rparr>)"
| reuse: "sessions s \<Longrightarrow> stored_as r (sy_rows s) \<Longrightarrow> claim_token t r (sy_rows s) = (False, rows) \<Longrightarrow>
    sessions (s\<lparr>sy_rows := rows, sy_reused := r # sy_reused s\<rparr>)"
| rotate: "sessions s \<Longrightarrow> r \<in> set (sy_claimed s) \<Longrightarrow> ae_tokenId E \<notin> rt_id ` set (sy_rows s) \<Longrightarrow>
    sessions (s\<lparr>sy_rows := sy_rows s @ [new_token E (rt_user r) (rt_family r)], sy_claimed := remove1 r (sy_claimed s)\<rparr>)"
| revoke: "sessions s \<Longrightarrow> r \<in> set (sy_reused s) \<Longrightarrow>
    sessions (s\<lparr>sy_rows := revoke_family t r (sy_rows s), sy_reused := remove1 r (sy_reused s)\<rparr>)"
| logout: "sessions s \<Longrightarrow> sessions (s\<lparr>sy_rows := revoke_token E token (sy_rows s)\<rparr>)"
| crash: "sessions s \<Longrightarrow> sessions (s\<lparr>sy_claimed := [], sy_reused := []\<rparr>)"

definition in_family :: "string \<Rightarrow> token_row list \<Rightarrow> nat" where
  "in_family f rs = length (filter (\<lambda>r. rt_family r = f) rs)"

lemma in_family_remove: "r \<in> set rs \<Longrightarrow> in_family f rs = in_family f (remove1 r rs) + (if rt_family r = f then 1 else 0)"
  by (induction rs) (auto simp: in_family_def)

definition families_ok :: "session_sys \<Rightarrow> bool" where
  "families_ok s = (distinct (map rt_id (sy_rows s)) \<and> rt_family ` set (sy_claimed s) \<subseteq> rt_family ` set (sy_rows s) \<and>
     (\<forall>f. live f (sy_rows s) + in_family f (sy_claimed s) \<le> 1))"

lemma new_token_sel [simp]:
  "rt_id (new_token E u f) = ae_tokenId E" "rt_family (new_token E u f) = f" "rt_revokedAt (new_token E u f) = None"
  by (simp_all add: new_token_def)

lemma absent_family: "f \<notin> rt_family ` set rows \<Longrightarrow> live f rows = 0"
  by (auto simp: live_def filter_empty_conv)

lemma absent_claim: "f \<notin> rt_family ` set rs \<Longrightarrow> in_family f rs = 0"
  by (auto simp: in_family_def filter_empty_conv)

lemma keys_sets: "map rt_id rows' = map rt_id rows \<and> map rt_family rows' = map rt_family rows \<Longrightarrow>
   distinct (map rt_id rows') = distinct (map rt_id rows) \<and> rt_family ` set rows' = rt_family ` set rows"
  by (metis image_set)

lemma sessions_ok: "sessions s \<Longrightarrow> families_ok s"
proof (induction rule: sessions.induct)
  case start
  then show ?case by (simp add: families_ok_def live_def in_family_def)
next
  case (login s E u)
  then have none: "live (ae_family E) (sy_rows s) = 0" "in_family (ae_family E) (sy_claimed s) = 0"
    by (auto simp: families_ok_def absent_family intro!: absent_claim)
  have "live f (sy_rows s) + live f [new_token E u (ae_family E)] + in_family f (sy_claimed s) \<le> 1" for f
    using login(4) none by (cases "f = ae_family E") (simp_all add: families_ok_def live_single)
  with login show ?case by (auto simp: families_ok_def live_append)
next
  case (claim s r t rows)
  obtain q where q: "q \<in> set (sy_rows s)" "rt_id q = rt_id r" "rt_family q = rt_family r"
    using claim(2) by (auto simp: stored_as_def)
  note ok = claim(4)[unfolded families_ok_def]
  have "live f (sy_rows s) = live f rows + (if rt_family r = f then 1 else 0)" for f
    using claim_live[OF claim(3) _ q(1,2), of f] ok q(3) by simp
  moreover have "in_family f (r # sy_claimed s) = in_family f (sy_claimed s) + (if rt_family r = f then 1 else 0)" for f
    by (simp add: in_family_def)
  ultimately have "live f rows + in_family f (r # sy_claimed s) \<le> 1" for f
    using ok by (metis add.assoc add.commute)
  moreover have "rt_family r \<in> rt_family ` set (sy_rows s)" using q by (metis imageI)
  ultimately show ?case using ok keys_sets[OF claim_keys[OF claim(3)]] by (auto simp: families_ok_def)
next
  case (reuse s r t rows)
  then have "rows = sy_rows s" by (auto simp: claim_token_def Let_def update_rows_def list_ex_iff intro!: map_idI)
  with reuse show ?case by (simp add: families_ok_def)
next
  case (rotate s r E)
  have "live f (sy_rows s) + live f [new_token E (rt_user r) (rt_family r)] + in_family f (remove1 r (sy_claimed s)) \<le> 1" for f
  proof -
    have "live f (sy_rows s) + in_family f (sy_claimed s) \<le> 1" using rotate(4) by (simp add: families_ok_def)
    then show ?thesis using in_family_remove[OF rotate(2), of f] by (cases "rt_family r = f") (simp_all add: live_single)
  qed
  moreover have "rt_family ` set (remove1 r (sy_claimed s)) \<subseteq> rt_family ` set (sy_rows s)"
    using rotate(4) set_remove1_subset[of r "sy_claimed s"] unfolding families_ok_def by (meson image_mono order.trans)
  ultimately show ?case using rotate(3,4) by (auto simp: families_ok_def live_append)
next
  case (revoke s r t)
  then show ?case using keys_sets[of "revoke_family t r (sy_rows s)" "sy_rows s"]
    by (auto simp: families_ok_def revoke_keys revoke_live intro: order.trans[OF le_add2])
next
  case (logout s E token)
  have "live f (revoke_token E token (sy_rows s)) + in_family f (sy_claimed s) \<le> 1" for f
    using logout revoke_token_live[of f E token "sy_rows s"] by (simp add: families_ok_def) (meson add_le_mono1 order.trans)
  then show ?case using logout keys_sets[of "revoke_token E token (sy_rows s)" "sy_rows s"]
    by (auto simp: families_ok_def revoke_keys)
next
  case (crash s)
  then show ?case by (auto simp: families_ok_def in_family_def) (meson add_leD1 One_nat_def)
qed

text \<open>C9: However logins, refreshes, replays and logouts of any number of clients interleave, even between the claim of
  a token and the insertion of its successor, a session never has two good refresh tokens: of the tokens of one family
  at most one is not revoked.\<close>

theorem one_good_token_per_family:
  assumes "sessions s"
  shows "live f (sy_rows s) \<le> 1"
  using sessions_ok[OF assms] by (auto simp: families_ok_def intro: add_leD1)


definition logged_in :: session_sys where
  "logged_in = \<lparr>sy_rows = [new_token (demo_auth ''1'' ''f'') ''u'' ''f''], sy_claimed = [], sy_reused = []\<rparr>"

definition replayed :: session_sys where
  \<comment> \<open>two requests with the same token: one claimed it, the other lost\<close>
  "replayed = \<lparr>sy_rows = [(new_token (demo_auth ''1'' ''f'') ''u'' ''f'')\<lparr>rt_revokedAt := Some 5\<rparr>],
     sy_claimed = [new_token (demo_auth ''1'' ''f'') ''u'' ''f''], sy_reused = [new_token (demo_auth ''1'' ''f'') ''u'' ''f'']\<rparr>"

lemma logged_in_reachable: "sessions logged_in"
  using sessions.login[OF sessions.start, of "demo_auth ''1'' ''f''" "''u''"]
  by (simp add: logged_in_def) (simp add: demo_auth_def)

lemma replayed_reachable: "sessions replayed"
proof -
  define r where "r = new_token (demo_auth ''1'' ''f'') ''u'' ''f''"
  have "claim_token 5 r [r] = (True, [r\<lparr>rt_revokedAt := Some 5\<rparr>])"
    by (simp add: claim_token_def Let_def update_rows_def r_def)
  then have "sessions (logged_in\<lparr>sy_rows := [r\<lparr>rt_revokedAt := Some 5\<rparr>], sy_claimed := [r]\<rparr>)"
    using sessions.claim[OF logged_in_reachable, of r 5] by (simp add: logged_in_def r_def stored_as_def)
  moreover have "claim_token 6 r [r\<lparr>rt_revokedAt := Some 5\<rparr>] = (False, [r\<lparr>rt_revokedAt := Some 5\<rparr>])"
    by (simp add: claim_token_def Let_def update_rows_def)
  ultimately show ?thesis
    using sessions.reuse[of "logged_in\<lparr>sy_rows := [r\<lparr>rt_revokedAt := Some 5\<rparr>], sy_claimed := [r]\<rparr>" r 6]
    by (simp add: logged_in_def replayed_def r_def stored_as_def)
qed

theorem one_good_token_per_family_witness: "live ''f'' (sy_rows logged_in) \<le> 1"
  by (rule one_good_token_per_family[OF logged_in_reachable])

text \<open>Theft detection has a gap: when a replay of a token is answered while the refresh that claimed the token has
  not yet inserted its successor, the replay revokes the whole family and yet the refresh then adds a good token to
  it. The family that was reported as ended lives on.\<close>

theorem replay_misses_rotation:
  assumes "sessions s" "r \<in> set (sy_claimed s)" "q \<in> set (sy_reused s)" "rt_family q = rt_family r"
    "ae_tokenId (E :: auth_env) \<notin> rt_id ` set (sy_rows s)"
  shows "\<exists>s'. sessions s' \<and> sy_claimed s' = remove1 r (sy_claimed s) \<and> sy_reused s' = remove1 q (sy_reused s) \<and>
    live (rt_family r) (sy_rows s') = 1"
proof -
  define u where "u = s\<lparr>sy_rows := revoke_family 0 q (sy_rows s), sy_reused := remove1 q (sy_reused s)\<rparr>"
  define v where "v = u\<lparr>sy_rows := sy_rows u @ [new_token E (rt_user r) (rt_family r)], sy_claimed := remove1 r (sy_claimed u)\<rparr>"
  have ids: "rt_id ` set (sy_rows u) = rt_id ` set (sy_rows s)"
    using revoke_keys(1)[of 0 q "sy_rows s"] by (simp add: u_def) (metis image_set)
  have "sessions v" unfolding v_def
    using sessions.revoke[OF assms(1,3), of 0] assms(2,5) ids by (intro sessions.rotate) (simp_all add: u_def)
  then show ?thesis
    by (intro exI[of _ v]) (simp add: v_def u_def live_append live_single revoke_live assms(4))
qed

theorem replay_misses_rotation_witness:
  "\<exists>s'. sessions s' \<and> sy_claimed s' = [] \<and> sy_reused s' = [] \<and> live ''f'' (sy_rows s') = 1"
  using replay_misses_rotation[OF replayed_reachable, of "new_token (demo_auth ''1'' ''f'') ''u'' ''f''"
      "new_token (demo_auth ''1'' ''f'') ''u'' ''f''" "demo_auth ''2'' ''f''"]
  by (simp add: replayed_def) (simp add: demo_auth_def)

section \<open>The OAuth callback\<close>

text \<open>C28: Only the browser that started a sign-in can finish it: the callback stores anything, or sets a cookie, only if
  the state in the query is the non-empty state of the browser's own cookie, its PKCE verifier is there, and Google
  exchanged the code with that verifier for a token it vouches for.\<close>

theorem callback_needs_cookie:
  assumes "google_callback E req A = (reply, A')"
    "A' \<noteq> A \<or> (\<exists>name value options. SetCookie name value options \<in> set (rp_cookies reply))"
  shows "\<exists>state code verifier token payload. string_query req ''state'' = Some state \<and> state \<noteq> [] \<and>
    string_query req ''code'' = Some code \<and> string_cookie req OAUTH_STATE_COOKIE_NAME = Some state \<and>
    string_cookie req OAUTH_PKCE_COOKIE_NAME = Some verifier \<and> verifier \<noteq> [] \<and>
    ae_getToken E code verifier = Inr (Some token) \<and> ae_verifyIdToken E token = Inr (Some payload)"
  using assms
  by (auto simp: google_callback_def oauth_denied_def callback_query_def send_error_def clear_oauth_def
      clear_oauth_origin_def authentication_failed_def truthy_def Let_def split: if_splits option.splits sum.splits)

definition demo_callback :: request where
  "demo_callback = \<lparr>rq_authorization = None, rq_cookies = [(''oauthState'', JStr ''s''), (''oauthPkceVerifier'', JStr ''v'')],
     rq_cookieHeader = None, rq_origin = None, rq_query = [(''code'', JStr ''c''), (''state'', JStr ''s'')], rq_body = JNull\<rparr>"

definition known_account :: auth_state where
  "known_account = \<lparr>ac_tables = (ac_tables no_accounts)\<lparr>t_users :=
       [\<lparr>us_id = ''u'', us_email = ''e'', us_name = ''n'', us_avatarUrl = None\<rparr>]\<rparr>,
     ac_oauth = [\<lparr>oa_user = ''u'', oa_provider = ''google'', oa_providerId = ''g'', oa_email = ''e''\<rparr>], as_tokens = []\<rparr>"

theorem callback_needs_cookie_witness:
  "as_tokens (snd (google_callback (demo_auth ''1'' ''f'') demo_callback known_account)) =
     [new_token (demo_auth ''1'' ''f'') ''u'' ''f''] \<and>
   string_cookie demo_callback OAUTH_STATE_COOKIE_NAME = string_query demo_callback ''state''"
proof -
  have stored: "as_tokens (snd (google_callback (demo_auth ''1'' ''f'') demo_callback known_account)) =
      [new_token (demo_auth ''1'' ''f'') ''u'' ''f'']"
    by (simp add: google_callback_def demo_callback_def string_query_def string_cookie_def callback_query_def truthy_def
        OAUTH_STATE_COOKIE_NAME_def OAUTH_PKCE_COOKIE_NAME_def)
      (simp add: demo_auth_def sign_in_google_def upsertGoogleUser_def google_account_def select_one_def known_account_def
        accounts.defs extractGoogleUserInfo_def getUserById_def open_session_def has_user_def)
  obtain reply A' where "google_callback (demo_auth ''1'' ''f'') demo_callback known_account = (reply, A')" by fastforce
  moreover from this stored have "A' \<noteq> known_account" by (auto simp: known_account_def)
  ultimately show ?thesis using callback_needs_cookie[of "demo_auth ''1'' ''f''" demo_callback known_account reply A'] stored
    by auto
qed

end
