(* ===== verification/Event_Bus.thy ===== *)
theory Event_Bus
  imports Payloads
begin

text \<open>
  The domain events (\<open>shared/events.ts\<close>, with \<open>withJobTraceparent\<close> of \<open>shared/trace-context.ts\<close>): the
  in-process bus and the bus over BullMQ queues. A handler is a reference \<open>'h\<close>; \<open>call\<close> runs it on a
  board id and says how it ended. \<open>BullMQ\<close>, zod's messages and OpenTelemetry are fields of \<open>bus_env\<close>:
  \<open>be_add\<close> and \<open>be_park\<close> are the \<open>add\<close> of a domain queue and of the dead-letter queue. Log lines are left
  out, except the dead-letter summaries, which are the purpose of the counters. The lemmas show what
  an enqueued event comes to, which jobs are parked, and when a handler is not run or run twice.
\<close>

section \<open>Events and envelopes\<close>

definition BOARD_MUTATED :: string where "BOARD_MUTATED = ''board.mutated''"
definition BOARD_EDITORS_LEFT :: string where "BOARD_EDITORS_LEFT = ''board.editorsLeft''"
definition APP_EVENTS :: "string list" where "APP_EVENTS = [BOARD_MUTATED, BOARD_EDITORS_LEFT]"
definition APP_EVENT_SCHEMA_VERSION :: int where "APP_EVENT_SCHEMA_VERSION = 1"
definition DEFAULT_EMIT_TIMEOUT_MS :: int where "DEFAULT_EMIT_TIMEOUT_MS = 5000"

definition DEDUP_TTL_MS :: "string \<Rightarrow> int" where
  "DEDUP_TTL_MS event = (if event = BOARD_MUTATED then 2000 else 1000)"

datatype dead_letter_reason = Invalid_envelope | Unknown_schema_version | Unknown_event | Invalid_payload

record dead_letter =
  dl_originalQueue :: string
  dl_originalJobId :: "string option"
  dl_event :: string
  dl_reason :: dead_letter_reason
  dl_error :: "string option"
  dl_envelope :: wire

record bus_job =
  bj_queueName :: string
  bj_id :: "string option"
  bj_data :: wire

definition deduplicationId :: "string \<Rightarrow> string option \<Rightarrow> string" where
  "deduplicationId event boardId =
     map (\<lambda>c. if c = CHR '':'' then CHR ''-'' else c) (event @ ''-'' @ (case boardId of None \<Rightarrow> ''all'' | Some b \<Rightarrow> b))"

fun isAppEventName :: "wire \<Rightarrow> string option" where
  "isAppEventName (WStr s) = (if s \<in> set APP_EVENTS then Some s else None)"
| "isAppEventName _ = None"

definition safe_int :: "rat \<Rightarrow> int option" where
  \<comment> \<open>\<open>z.number().int()\<close>: a safe integer\<close>
  "safe_int q = (if of_int \<lfloor>q\<rfloor> = q \<and> \<bar>\<lfloor>q\<rfloor>\<bar> < 2 ^ 53 then Some \<lfloor>q\<rfloor> else None)"

fun positive_int :: "wire \<Rightarrow> int option" where
  \<comment> \<open>\<open>.int().min(1)\<close>, \<open>.int().positive()\<close>\<close>
  "positive_int (WNum (Fin q)) = (case safe_int q of Some n \<Rightarrow> if 1 \<le> n then Some n else None | None \<Rightarrow> None)"
| "positive_int _ = None"

record app_event_envelope =
  en_schemaVersion :: int
  en_producerId :: string
  en_timestamp :: int
  en_data :: wire

fun appEventEnvelopeSchema :: "wire \<Rightarrow> app_event_envelope option" where
  "appEventEnvelopeSchema (WObj props) =
     (case (positive_int (get_prop ''schemaVersion'' (WObj props)), asString (get_prop ''producerId'' (WObj props)),
            positive_int (get_prop ''timestamp'' (WObj props))) of
        (Some version, Some producer, Some timestamp) \<Rightarrow>
          Some \<lparr>en_schemaVersion = version, en_producerId = producer, en_timestamp = timestamp,
            en_data = get_prop ''data'' (WObj props)\<rparr>
      | _ \<Rightarrow> None)"
| "appEventEnvelopeSchema _ = None"

fun boardRefPayloadSchema :: "wire \<Rightarrow> string option" where
  "boardRefPayloadSchema (WObj props) = asString (get_prop ''boardId'' (WObj props))"
| "boardRefPayloadSchema _ = None"

definition boardIdOfEnvelope :: "wire \<Rightarrow> string option" where
  "boardIdOfEnvelope envelope = (case get_prop ''boardId'' (get_prop ''data'' envelope) of WStr b \<Rightarrow> Some b | _ \<Rightarrow> None)"

section \<open>Handlers\<close>

datatype handler_end =
    Done
  | Throws string
      \<comment> \<open>throws before its first \<open>await\<close>\<close>
  | Rejects string
      \<comment> \<open>returns a promise that rejects\<close>

type_synonym 'h handlers = "(string \<times> 'h list) list"

definition handlers_of :: "string \<Rightarrow> 'h handlers \<Rightarrow> 'h list" where
  "handlers_of event hs = (case js_get event hs of None \<Rightarrow> [] | Some refs \<Rightarrow> refs)"

definition on_event :: "string \<Rightarrow> 'h \<Rightarrow> 'h handlers \<Rightarrow> 'h handlers" where
  \<comment> \<open>\<open>on\<close>: the set is created when it is missing\<close>
  "on_event event h hs = js_put event (js_add h (handlers_of event hs)) hs"

definition off_event :: "string \<Rightarrow> 'h \<Rightarrow> 'h handlers \<Rightarrow> 'h handlers" where
  \<comment> \<open>the function that \<open>on\<close> returns\<close>
  "off_event event h hs = js_put event (filter (\<lambda>x. x \<noteq> h) (handlers_of event hs)) hs"

section \<open>The bus in one process\<close>

record 'h local_bus =
  lb_handlers :: "'h handlers"
  lb_warned :: "string list"

definition local_handlers :: "('h \<Rightarrow> string \<Rightarrow> 's \<Rightarrow> handler_end \<times> 's) \<Rightarrow> 'h list \<Rightarrow> string \<Rightarrow> 's \<Rightarrow> 's" where
  \<comment> \<open>each handler starts in a promise callback of its own\<close>
  "local_handlers call refs b s = fold (\<lambda>h s. snd (call h b s)) refs s"

definition local_emit :: "('h \<Rightarrow> string \<Rightarrow> 's \<Rightarrow> handler_end \<times> 's) \<Rightarrow> string \<Rightarrow> string \<Rightarrow>
    'h local_bus \<Rightarrow> 's \<Rightarrow> 'h local_bus \<times> 's" where
  "local_emit call event b bus s =
     (if handlers_of event (lb_handlers bus) = [] then (bus\<lparr>lb_warned := js_add event (lb_warned bus)\<rparr>, s)
      else (bus, local_handlers call (handlers_of event (lb_handlers bus)) b s))"

definition local_close :: "'h local_bus \<Rightarrow> 'h local_bus" where
  "local_close bus = bus\<lparr>lb_warned := []\<rparr>"

section \<open>The bus over queues\<close>

datatype bus_error =
    BusError string
  | AggregateError "string list" string

datatype settlement =
    Resolves int
  | Fails int string
  | Hangs
    \<comment> \<open>a promise with the milliseconds it takes\<close>

record bus_queues =
  bq_mutations :: string
  bq_controlEvents :: string
  bq_dlq :: "string option"

record 'w bus_env =
  be_add :: "string \<Rightarrow> string \<Rightarrow> wire \<Rightarrow> string \<times> int \<Rightarrow> 'w \<Rightarrow> settlement \<times> 'w"
    \<comment> \<open>queue, job name, job data, deduplication id and window\<close>
  be_park :: "string \<Rightarrow> dead_letter \<Rightarrow> 'w \<Rightarrow> (bus_error + unit) \<times> 'w"
  be_issues :: "string \<Rightarrow> wire \<Rightarrow> string"
    \<comment> \<open>\<open>formatIssues\<close> of a schema's error on a value\<close>
  be_now :: "'w \<Rightarrow> int"
  be_traceparent :: "string option"
    \<comment> \<open>\<open>injectTraceparent()\<close>\<close>
  be_extracts :: "string \<Rightarrow> bool"
    \<comment> \<open>\<open>propagation.extract\<close> does not throw\<close>
  be_producerId :: string
  be_queues :: bus_queues
  be_emitTimeoutMs :: int
  be_dlqSummaryIntervalMs :: int
  be_onEnqueueFailed :: "(string \<Rightarrow> string \<Rightarrow> 'w \<Rightarrow> 'w) option"

type_synonym dlq_summary = "nat \<times> nat \<times> (dead_letter_reason \<times> nat) list"

record 'h queue_bus =
  qb_handlers :: "'h handlers"
  qb_workers :: "string list"
    \<comment> \<open>the queues with a running worker\<close>
  qb_consumersStarted :: bool
  qb_total :: nat
  qb_byReason :: "(dead_letter_reason \<times> nat) list"
  qb_sinceBoot :: nat
  qb_summaryDue :: "int option"
    \<comment> \<open>\<open>dlqSummaryTimer\<close>\<close>
  qb_summaries :: "dlq_summary list"
    \<comment> \<open>logged: total, since boot, by reason\<close>

definition new_queue_bus :: "'h queue_bus" where
  "new_queue_bus = \<lparr>qb_handlers = [], qb_workers = [], qb_consumersStarted = False, qb_total = 0, qb_byReason = [],
     qb_sinceBoot = 0, qb_summaryDue = None, qb_summaries = []\<rparr>"

fun withTimeout :: "settlement \<Rightarrow> int \<Rightarrow> string \<Rightarrow> string + unit" where
  "withTimeout (Resolves ms) timeoutMs label =
     (if ms < timeoutMs then Inr () else Inl (label @ '' timed out after '' @ dec timeoutMs @ ''ms''))"
| "withTimeout (Fails ms e) timeoutMs label =
     (if ms < timeoutMs then Inl e else Inl (label @ '' timed out after '' @ dec timeoutMs @ ''ms''))"
| "withTimeout Hangs timeoutMs label = Inl (label @ '' timed out after '' @ dec timeoutMs @ ''ms'')"

definition event_envelope :: "'w bus_env \<Rightarrow> string \<Rightarrow> 'w \<Rightarrow> wire" where
  "event_envelope B b w = WObj [(''schemaVersion'', WNum (Fin (of_int APP_EVENT_SCHEMA_VERSION))),
     (''producerId'', WStr (be_producerId B)), (''timestamp'', WNum (Fin (of_int (be_now B w)))),
     (''data'', WObj [(''boardId'', WStr b)])]"

definition event_job_data :: "'w bus_env \<Rightarrow> string \<Rightarrow> string \<Rightarrow> 'w \<Rightarrow> wire" where
  \<comment> \<open>an undefined traceparent does not survive the JSON of the queue\<close>
  "event_job_data B event b w = WObj ([(''event'', WStr event), (''envelope'', event_envelope B b w)] @
     (case be_traceparent B of None \<Rightarrow> [] | Some t \<Rightarrow> [(''traceparent'', WStr t)]))"

definition queue_for :: "'w bus_env \<Rightarrow> string \<Rightarrow> string" where
  "queue_for B event =
     (if event = BOARD_EDITORS_LEFT then bq_controlEvents (be_queues B) else bq_mutations (be_queues B))"

definition queue_emit :: "'w bus_env \<Rightarrow> string \<Rightarrow> string \<Rightarrow> 'w \<Rightarrow> 'w" where
  "queue_emit B event b w =
     (case be_add B (queue_for B event) event (event_job_data B event b w)
         (deduplicationId event (Some b), DEDUP_TTL_MS event) w of (end, w) \<Rightarrow>
       (case withTimeout end (be_emitTimeoutMs B) (''[EventBus] enqueue '' @ event) of
          Inr _ \<Rightarrow> w
        | Inl e \<Rightarrow> (case be_onEnqueueFailed B of None \<Rightarrow> w | Some report \<Rightarrow> report e event w)))"

subsection \<open>Consumers\<close>

definition startConsumers :: "'w bus_env \<Rightarrow> 'h queue_bus \<Rightarrow> 'h queue_bus" where
  "startConsumers B bus = (if qb_consumersStarted bus then bus
     else bus\<lparr>qb_consumersStarted := True, qb_workers := qb_workers bus @
       [bq_mutations (be_queues B), bq_controlEvents (be_queues B)] @
       (case bq_dlq (be_queues B) of None \<Rightarrow> [] | Some dlq \<Rightarrow> [dlq])\<rparr>)"

definition queue_on :: "'w bus_env \<Rightarrow> string \<Rightarrow> 'h \<Rightarrow> 'h queue_bus \<Rightarrow> 'h queue_bus" where
  "queue_on B event h bus = startConsumers B (bus\<lparr>qb_handlers := on_event event h (qb_handlers bus)\<rparr>)"

definition log_summary :: "'h queue_bus \<Rightarrow> 'h queue_bus" where
  \<comment> \<open>the end of both summary functions\<close>
  "log_summary bus = (if qb_total bus = 0 then bus
     else bus\<lparr>qb_summaries := qb_summaries bus @ [(qb_total bus, qb_sinceBoot bus, qb_byReason bus)],
       qb_total := 0, qb_byReason := []\<rparr>)"

definition scheduleDlqSummary :: "'w bus_env \<Rightarrow> int \<Rightarrow> 'h queue_bus \<Rightarrow> 'h queue_bus" where
  "scheduleDlqSummary B now bus = (if qb_summaryDue bus \<noteq> None then bus
     else bus\<lparr>qb_summaryDue := Some (now + be_dlqSummaryIntervalMs B)\<rparr>)"

definition summary_due :: "'h queue_bus \<Rightarrow> 'h queue_bus" where
  \<comment> \<open>the callback of the timer\<close>
  "summary_due bus = log_summary (bus\<lparr>qb_summaryDue := None\<rparr>)"

definition flushDlqSummary :: "'h queue_bus \<Rightarrow> 'h queue_bus" where
  "flushDlqSummary bus = log_summary (bus\<lparr>qb_summaryDue := None\<rparr>)"

definition queue_close :: "'h queue_bus \<Rightarrow> 'h queue_bus" where
  "queue_close bus = (flushDlqSummary bus)\<lparr>qb_workers := [], qb_consumersStarted := False\<rparr>"

definition count_of :: "dead_letter_reason \<Rightarrow> (dead_letter_reason \<times> nat) list \<Rightarrow> nat" where
  "count_of reason counts = (case js_get reason counts of None \<Rightarrow> 0 | Some n \<Rightarrow> n)"

definition dead_letter_of :: "bus_job \<Rightarrow> dead_letter_reason \<Rightarrow> string option \<Rightarrow> dead_letter" where
  "dead_letter_of job reason err = \<lparr>dl_originalQueue = bj_queueName job, dl_originalJobId = bj_id job,
     dl_event = (case get_prop ''event'' (bj_data job) of WStr e \<Rightarrow> e | _ \<Rightarrow> ''unknown''), dl_reason = reason, dl_error = err,
     dl_envelope = (case get_prop ''envelope'' (bj_data job) of WUndefined \<Rightarrow> WNull | v \<Rightarrow> v)\<rparr>"

definition parkDeadLetter :: "'w bus_env \<Rightarrow> bus_job \<Rightarrow> dead_letter_reason \<Rightarrow> string option \<Rightarrow>
    'h queue_bus \<Rightarrow> 'w \<Rightarrow> (bus_error + unit) \<times> 'h queue_bus \<times> 'w" where
  "parkDeadLetter B job reason err bus w =
     (let bus = scheduleDlqSummary B (be_now B w) (bus\<lparr>qb_total := qb_total bus + 1, qb_sinceBoot := qb_sinceBoot bus + 1,
            qb_byReason := js_put reason (count_of reason (qb_byReason bus) + 1) (qb_byReason bus)\<rparr>)
      in case bq_dlq (be_queues B) of
           None \<Rightarrow> (Inr (), bus, w)
         | Some dlq \<Rightarrow> (case be_park B dlq (dead_letter_of job reason err) w of (end, w) \<Rightarrow> (end, bus, w)))"

fun run_handlers :: "('h \<Rightarrow> string \<Rightarrow> 's \<Rightarrow> handler_end \<times> 's) \<Rightarrow> 'h list \<Rightarrow> string \<Rightarrow> 's \<Rightarrow>
    (string + string list) \<times> 's" where
  \<comment> \<open>\<open>[...handlers].map((handler) => Promise.resolve(handler(payload)))\<close>: a handler that throws ends the
    \<open>map\<close>; otherwise the reasons of the rejections\<close>
  "run_handlers call [] b s = (Inr [], s)"
| "run_handlers call (h # hs) b s = (case call h b s of
     (Throws e, s) \<Rightarrow> (Inl e, s)
   | (Done, s) \<Rightarrow> run_handlers call hs b s
   | (Rejects e, s) \<Rightarrow> (case run_handlers call hs b s of
        (Inl e', s) \<Rightarrow> (Inl e', s)
      | (Inr es, s) \<Rightarrow> (Inr (e # es), s)))"

definition dispatch :: "('h \<Rightarrow> string \<Rightarrow> 's \<Rightarrow> handler_end \<times> 's) \<Rightarrow> 'h handlers \<Rightarrow> string \<Rightarrow> string \<Rightarrow> 's \<Rightarrow>
    (bus_error + unit) \<times> 's" where
  "dispatch call hs event b s = (case run_handlers call (handlers_of event hs) b s of
     (Inl e, s) \<Rightarrow> (Inl (BusError e), s)
   | (Inr [], s) \<Rightarrow> (Inr (), s)
   | (Inr failures, s) \<Rightarrow> (Inl (AggregateError failures
       (''[EventBus] '' @ dec (int (length failures)) @ '' handler(s) failed for '' @ event)), s))"

definition withJobTraceparent :: "'w bus_env \<Rightarrow> string option \<Rightarrow> ('s \<Rightarrow> ('e + unit) \<times> 's) \<Rightarrow> 's \<Rightarrow> ('e + unit) \<times> 's" where
  \<comment> \<open>the \<open>catch\<close> is around the call of \<open>fn\<close>, too\<close>
  "withJobTraceparent B traceparent fn s = (case traceparent of
     None \<Rightarrow> fn s
   | Some t \<Rightarrow> if t = [] \<or> \<not> be_extracts B t then fn s
       else (case fn s of (Inr x, s) \<Rightarrow> (Inr x, s) | (Inl e, s) \<Rightarrow> fn s))"

datatype decoded =
    Undecodable dead_letter_reason "string option"
  | Decoded string string
    \<comment> \<open>event and board\<close>

definition js_string_wire :: "('w bus_env) \<Rightarrow> wire \<Rightarrow> string" where
  \<comment> \<open>\<open>String(event)\<close>; for what is no string the text of \<open>be_issues\<close>\<close>
  "js_string_wire B v = (case v of WStr s \<Rightarrow> s | _ \<Rightarrow> be_issues B ''String'' v)"

definition decode_job :: "'w bus_env \<Rightarrow> bus_job \<Rightarrow> decoded" where
  "decode_job B job = (case appEventEnvelopeSchema (get_prop ''envelope'' (bj_data job)) of
     None \<Rightarrow> Undecodable Invalid_envelope (Some (be_issues B ''envelope'' (get_prop ''envelope'' (bj_data job))))
   | Some envelope \<Rightarrow>
       if en_schemaVersion envelope \<noteq> APP_EVENT_SCHEMA_VERSION
       then Undecodable Unknown_schema_version (Some (''unsupported schemaVersion '' @ dec (en_schemaVersion envelope)))
       else (case isAppEventName (get_prop ''event'' (bj_data job)) of
         None \<Rightarrow> Undecodable Unknown_event (Some (''unknown event '' @ js_string_wire B (get_prop ''event'' (bj_data job))))
       | Some event \<Rightarrow> (case boardRefPayloadSchema (en_data envelope) of
           None \<Rightarrow> Undecodable Invalid_payload (Some (be_issues B ''payload'' (en_data envelope)))
         | Some b \<Rightarrow> Decoded event b)))"

definition handleDomainEventJob :: "'w bus_env \<Rightarrow> ('h \<Rightarrow> string \<Rightarrow> 'w \<Rightarrow> handler_end \<times> 'w) \<Rightarrow> bus_job \<Rightarrow>
    'h queue_bus \<Rightarrow> 'w \<Rightarrow> (bus_error + unit) \<times> 'h queue_bus \<times> 'w" where
  "handleDomainEventJob B call job bus w = (case decode_job B job of
     Undecodable reason err \<Rightarrow> parkDeadLetter B job reason err bus w
   | Decoded event b \<Rightarrow>
       (case withJobTraceparent B (case get_prop ''traceparent'' (bj_data job) of WStr t \<Rightarrow> Some t | _ \<Rightarrow> None)
           (dispatch call (qb_handlers bus) event b) w of (end, w) \<Rightarrow> (end, bus, w)))"

record job_failure_info =
  jf_queue :: string
  jf_jobId :: "string option"
  jf_event :: "string option"
  jf_boardId :: "string option"
  jf_error :: bus_error

definition reportJobFailure :: "string \<Rightarrow> bus_job option \<Rightarrow> bus_error \<Rightarrow> job_failure_info" where
  \<comment> \<open>what \<open>onJobFailed\<close> is called with\<close>
  "reportJobFailure queueName job err = \<lparr>jf_queue = queueName, jf_jobId = Option.bind job bj_id,
     jf_event = (case job of None \<Rightarrow> None | Some j \<Rightarrow> (case get_prop ''event'' (bj_data j) of WStr e \<Rightarrow> Some e | _ \<Rightarrow> None)),
     jf_boardId = (case job of None \<Rightarrow> None | Some j \<Rightarrow> boardIdOfEnvelope (get_prop ''envelope'' (bj_data j))),
     jf_error = err\<rparr>"

section \<open>What a bus goes through\<close>

datatype 'h bus_event =
    Job bus_job
  | SummaryDue
  | On string 'h
  | Close

fun bus_step :: "'w bus_env \<Rightarrow> ('h \<Rightarrow> string \<Rightarrow> 'w \<Rightarrow> handler_end \<times> 'w) \<Rightarrow> 'h bus_event \<Rightarrow>
    'h queue_bus \<times> 'w \<Rightarrow> 'h queue_bus \<times> 'w" where
  "bus_step B call (Job job) (bus, w) = snd (handleDomainEventJob B call job bus w)"
| "bus_step B call SummaryDue (bus, w) = (if qb_summaryDue bus \<noteq> None then summary_due bus else bus, w)"
| "bus_step B call (On event h) (bus, w) = (queue_on B event h bus, w)"
| "bus_step B call Close (bus, w) = (queue_close bus, w)"

definition bus_run :: "'w bus_env \<Rightarrow> ('h \<Rightarrow> string \<Rightarrow> 'w \<Rightarrow> handler_end \<times> 'w) \<Rightarrow> 'h bus_event list \<Rightarrow> 'w \<Rightarrow>
    'h queue_bus \<times> 'w" where
  "bus_run B call events w = fold (bus_step B call) events (new_queue_bus, w)"

definition counts_sum :: "(dead_letter_reason \<times> nat) list \<Rightarrow> nat" where
  "counts_sum counts = sum_list (map snd counts)"

definition summarised :: "'h queue_bus \<Rightarrow> nat" where
  "summarised bus = sum_list (map fst (qb_summaries bus))"

definition bus_ok :: "'w bus_env \<Rightarrow> 'h queue_bus \<Rightarrow> bool" where
  "bus_ok B bus = (qb_sinceBoot bus = summarised bus + qb_total bus \<and> counts_sum (qb_byReason bus) = qb_total bus \<and>
     distinct (map fst (qb_byReason bus)) \<and> (qb_total bus > 0 \<longrightarrow> qb_summaryDue bus \<noteq> None) \<and>
     (\<forall>(total, sinceBoot, byReason) \<in> set (qb_summaries bus). total > 0 \<and> counts_sum byReason = total) \<and>
     qb_workers bus = (if qb_consumersStarted bus then [bq_mutations (be_queues B), bq_controlEvents (be_queues B)] @
       (case bq_dlq (be_queues B) of None \<Rightarrow> [] | Some dlq \<Rightarrow> [dlq]) else []))"

lemma counts_sum_put:
  "counts_sum (js_put reason (count_of reason counts + 1) counts) = counts_sum counts + 1"
  by (induction counts) (auto simp: counts_sum_def count_of_def)

lemma bus_ok_new: "bus_ok B new_queue_bus"
  by (simp add: bus_ok_def new_queue_bus_def summarised_def counts_sum_def)

lemma bus_ok_park:
  assumes "bus_ok B bus"
  shows "bus_ok B (fst (snd (parkDeadLetter B job reason err bus w)))"
proof -
  have "fst (snd (parkDeadLetter B job reason err bus w)) = scheduleDlqSummary B (be_now B w)
      (bus\<lparr>qb_total := qb_total bus + 1, qb_sinceBoot := qb_sinceBoot bus + 1,
        qb_byReason := js_put reason (count_of reason (qb_byReason bus) + 1) (qb_byReason bus)\<rparr>)"
    by (auto simp: parkDeadLetter_def Let_def split: option.split prod.split)
  then show ?thesis using assms
    by (auto simp: bus_ok_def scheduleDlqSummary_def summarised_def counts_sum_put[simplified])
qed

lemma bus_ok_log: "bus_ok B bus \<Longrightarrow> bus_ok B (log_summary (bus\<lparr>qb_summaryDue := None\<rparr>))"
  by (auto simp: bus_ok_def log_summary_def summarised_def counts_sum_def)

lemma bus_ok_step: "bus_ok B bus \<Longrightarrow> bus_ok B (fst (bus_step B call ev (bus, w)))"
proof (cases ev)
  case (Job job)
  assume "bus_ok B bus"
  then show ?thesis using Job bus_ok_park[of B bus job]
    by (auto simp: handleDomainEventJob_def split: decoded.split prod.split)
next
  case SummaryDue
  assume "bus_ok B bus"
  then show ?thesis using SummaryDue bus_ok_log[of B bus] by (simp add: summary_due_def)
next
  case (On event h)
  assume "bus_ok B bus"
  then show ?thesis using On by (auto simp: queue_on_def startConsumers_def bus_ok_def summarised_def)
next
  case Close
  assume "bus_ok B bus"
  then have "bus_ok B (flushDlqSummary bus)" by (simp add: flushDlqSummary_def bus_ok_log)
  then show ?thesis using Close by (auto simp: queue_close_def bus_ok_def summarised_def)
qed

text \<open>The dead-letter summaries lose nothing: whatever jobs arrive, timers fire, handlers register and the bus closes
  and starts again, the dead letters since boot are those of the logged summaries and of the open window, the reasons
  of a summary add up to its total, an open window has its timer, and each queue has at most one worker.\<close>

theorem dead_letters_are_summarised: "bus_ok B (fst (bus_run B call events w))"
proof -
  have "bus_ok B (fst (fold (bus_step B call) events (bus, w)))" if "bus_ok B bus" for bus w
    using that
  proof (induction events arbitrary: bus w)
    case (Cons ev events)
    obtain bus' w' where s: "bus_step B call ev (bus, w) = (bus', w')" by fastforce
    then have "bus_ok B bus'" using bus_ok_step[OF Cons.prems, of call ev w] by simp
    then show ?case using Cons.IH s by simp
  qed simp
  then show ?thesis by (simp add: bus_run_def bus_ok_new)
qed

section \<open>Delivery\<close>

lemma safe_int_of_int [simp]: "safe_int (of_int n) = (if \<bar>n\<bar> < 2 ^ 53 then Some n else None)"
  by (simp add: safe_int_def)

lemma job_data_props [simp]:
  "get_prop ''envelope'' (event_job_data B event b w) = event_envelope B b w"
  "get_prop ''event'' (event_job_data B event b w) = WStr event"
  "get_prop ''traceparent'' (event_job_data B event b w) =
     (case be_traceparent B of None \<Rightarrow> WUndefined | Some t \<Rightarrow> WStr t)"
  by (auto simp: event_job_data_def js_get_append split: option.split)

lemma event_envelope_accepted:
  assumes "be_producerId B \<noteq> []" "0 < be_now B w" "be_now B w < 2 ^ 53"
  shows "appEventEnvelopeSchema (event_envelope B b w) = Some \<lparr>en_schemaVersion = 1, en_producerId = be_producerId B,
    en_timestamp = be_now B w, en_data = WObj [(''boardId'', WStr b)]\<rparr>"
  using assms by (simp add: event_envelope_def APP_EVENT_SCHEMA_VERSION_def safe_int_of_int[of 1, simplified])

text \<open>C31: What \<open>emit\<close> puts on a queue is what the consumer reads from it: the job of an event of the program, for a board
  with an id, decodes to the same event and board, whatever queue and id it has.\<close>

theorem emitted_event_decodes:
  assumes "event \<in> set APP_EVENTS" "b \<noteq> []" "be_producerId B \<noteq> []" "0 < be_now B w" "be_now B w < 2 ^ 53"
  shows "decode_job B \<lparr>bj_queueName = queue, bj_id = i, bj_data = event_job_data B event b w\<rparr> = Decoded event b"
proof -
  note event_envelope_accepted[OF assms(3-5), of b]
  then show ?thesis using assms(1,2) by (simp add: decode_job_def APP_EVENT_SCHEMA_VERSION_def)
qed

lemma run_handlers_all:
  assumes "\<forall>h \<in> set hs. \<forall>s e. fst (call h b s) \<noteq> Throws e"
  shows "snd (run_handlers call hs b s) = local_handlers call hs b s \<and>
    (\<exists>es. fst (run_handlers call hs b s) = Inr es \<and>
      (es = [] \<longleftrightarrow> (\<forall>n < length hs. fst (call (hs ! n) b (local_handlers call (take n hs) b s)) = Done)))"
  using assms
proof (induction hs arbitrary: s)
  case Nil
  show ?case by (simp add: local_handlers_def)
next
  case (Cons h hs)
  obtain e s1 where h: "call h b s = (e, s1)" by fastforce
  have step: "local_handlers call (h # xs) b s = local_handlers call xs b s1" for xs
    by (simp add: local_handlers_def h)
  have all: "(\<forall>n < length (h # hs). fst (call ((h # hs) ! n) b (local_handlers call (take n (h # hs)) b s)) = Done) \<longleftrightarrow>
      e = Done \<and> (\<forall>n < length hs. fst (call (hs ! n) b (local_handlers call (take n hs) b s1)) = Done)"
    by (auto simp: less_Suc_eq_0_disj h step local_handlers_def)
  obtain es where "run_handlers call hs b s1 = (Inr es, local_handlers call hs b s1)"
    "es = [] \<longleftrightarrow> (\<forall>n < length hs. fst (call (hs ! n) b (local_handlers call (take n hs) b s1)) = Done)"
    using Cons.IH[of s1] Cons.prems by (metis list.set_intros(2) prod.collapse)
  moreover have "e \<noteq> Throws x" for x using Cons.prems h by (metis fst_conv list.set_intros(1))
  ultimately show ?case unfolding all step by (cases e) (auto simp: h)
qed

text \<open>As long as no handler throws before its first \<open>await\<close>, a delivery runs every handler of the event, in the order
  they registered, whether or not another one fails; it fails, to be redelivered, when at least one of them did.\<close>

theorem dispatch_fans_out:
  assumes "\<forall>h \<in> set (handlers_of event hs). \<forall>s e. fst (call h b s) \<noteq> Throws e"
  shows "snd (dispatch call hs event b s) = local_handlers call (handlers_of event hs) b s \<and>
    (fst (dispatch call hs event b s) = Inr () \<longleftrightarrow> (\<forall>n < length (handlers_of event hs).
       fst (call (handlers_of event hs ! n) b (local_handlers call (take n (handlers_of event hs)) b s)) = Done))"
  using run_handlers_all[of "handlers_of event hs" call b s] assms
  by (auto simp: dispatch_def split: prod.split sum.split list.split)

text \<open>A handler that throws synchronously starves those after it: the fan-out that the comment in \<open>dispatch\<close> promises
  stops at it, the later handlers are not run.\<close>

theorem throwing_handler_starves:
  assumes "handlers_of event hs = before @ [h] @ later" "\<forall>x \<in> set before. \<forall>s. fst (call x b s) = Done"
    and "call h b (local_handlers call before b s) = (Throws e, s')"
  shows "dispatch call hs event b s = (Inl (BusError e), s')"
proof -
  have "run_handlers call (before @ [h] @ later) b s = (Inl e, s')"
    using assms(2,3)
  proof (induction before arbitrary: s)
    case Nil
    then show ?case by (simp add: local_handlers_def)
  next
    case (Cons x before)
    obtain s1 where "call x b s = (Done, s1)" using Cons.prems(1) by (metis list.set_intros(1) prod.collapse)
    then show ?case using Cons by (simp add: local_handlers_def)
  qed
  then show ?thesis using assms(1) by (simp add: dispatch_def)
qed

text \<open>A delivery that carries a traceparent and fails is run a second time at once, inside the same job: the \<open>catch\<close> that
  is there for a broken traceparent also catches the failure of the handlers. The job fails only if the second run does.\<close>

theorem failed_delivery_runs_twice:
  assumes "decode_job B job = Decoded event b" "get_prop ''traceparent'' (bj_data job) = WStr t" "t \<noteq> []" "be_extracts B t"
    and "dispatch call (qb_handlers bus) event b w = (Inl e, w')"
  shows "handleDomainEventJob B call job bus w =
    (case dispatch call (qb_handlers bus) event b w' of (end, w'') \<Rightarrow> (end, bus, w''))"
  using assms by (simp add: handleDomainEventJob_def withJobTraceparent_def)

section \<open>Witnesses\<close>

definition demo_bus :: "(string list \<times> nat) bus_env" where
  \<comment> \<open>a queue that accepts every job; the world holds the boards the handlers saw and a counter\<close>
  "demo_bus = \<lparr>be_add = (\<lambda>queue name data dedup w. (Resolves 3, w)), be_park = (\<lambda>dlq letter w. (Inr (), w)),
     be_issues = (\<lambda>schema v. ''issue''), be_now = (\<lambda>w. 1000), be_traceparent = Some ''00-1-1-01'', be_extracts = (\<lambda>t. True),
     be_producerId = ''api'', be_queues = \<lparr>bq_mutations = ''board-mutations'', bq_controlEvents = ''board-control-events'',
       bq_dlq = Some ''domain-events-dlq''\<rparr>, be_emitTimeoutMs = DEFAULT_EMIT_TIMEOUT_MS, be_dlqSummaryIntervalMs = 60000,
     be_onEnqueueFailed = None\<rparr>"

fun demo_call :: "nat \<Rightarrow> string \<Rightarrow> string list \<times> nat \<Rightarrow> handler_end \<times> (string list \<times> nat)" where
  \<comment> \<open>0 notes the board, 1 throws, 2 counts and rejects\<close>
  "demo_call h b (seen, n) = (if h = 0 then (Done, (seen @ [b], n)) else if h = 1 then (Throws ''bug'', (seen, n))
     else (Rejects ''down'', (seen, n + 1)))"

theorem emitted_event_decodes_witness:
  "decode_job demo_bus \<lparr>bj_queueName = ''board-mutations'', bj_id = None, bj_data = event_job_data demo_bus BOARD_MUTATED ''b'' ([], 0)\<rparr> =
   Decoded BOARD_MUTATED ''b''"
  by (rule emitted_event_decodes) (simp_all add: demo_bus_def APP_EVENTS_def)

theorem dispatch_fans_out_witness:
  "snd (dispatch demo_call [(BOARD_MUTATED, [2, 0])] BOARD_MUTATED ''b'' ([], 0)) = ([''b''], 1) \<and>
   fst (dispatch demo_call [(BOARD_MUTATED, [2, 0])] BOARD_MUTATED ''b'' ([], 0)) \<noteq> Inr ()"
proof -
  have "\<forall>h \<in> set (handlers_of BOARD_MUTATED [(BOARD_MUTATED, [2, 0])]). \<forall>s e. fst (demo_call h ''b'' s) \<noteq> Throws e"
    by (auto simp: handlers_of_def)
  note fan = dispatch_fans_out[where call = demo_call and event = BOARD_MUTATED and b = "''b''" and
      hs = "[(BOARD_MUTATED, [2, 0])]" and s = "([], 0)", OF this]
  have "\<not> (\<forall>n < length [2, 0 :: nat]. fst (demo_call ([2, 0] ! n) ''b'' (local_handlers demo_call (take n [2, 0]) ''b'' ([], 0))) = Done)"
    by (intro notI, drule spec[of _ 0]) (simp add: local_handlers_def)
  then show ?thesis using fan by (simp add: handlers_of_def local_handlers_def)
qed

theorem throwing_handler_starves_witness:
  "dispatch demo_call [(BOARD_MUTATED, [0, 1, 2])] BOARD_MUTATED ''b'' ([], 0) = (Inl (BusError ''bug''), ([''b''], 0))"
  by (rule throwing_handler_starves[where before = "[0]" and h = 1 and later = "[2]"])
    (auto simp: handlers_of_def local_handlers_def)

theorem failed_delivery_runs_twice_witness:
  "fst (snd (snd (handleDomainEventJob demo_bus demo_call
     \<lparr>bj_queueName = ''board-mutations'', bj_id = None, bj_data = event_job_data demo_bus BOARD_MUTATED ''b'' ([], 0)\<rparr>
     (queue_on demo_bus BOARD_MUTATED 2 (queue_on demo_bus BOARD_MUTATED 0 new_queue_bus)) ([], 0)))) = [''b'', ''b'']"
proof -
  let ?job = "\<lparr>bj_queueName = ''board-mutations'', bj_id = None, bj_data = event_job_data demo_bus BOARD_MUTATED ''b'' ([], 0)\<rparr>"
  let ?bus = "queue_on demo_bus BOARD_MUTATED 2 (queue_on demo_bus BOARD_MUTATED 0 (new_queue_bus :: nat queue_bus))"
  have hs: "handlers_of BOARD_MUTATED (qb_handlers ?bus) = [0, 2]"
    by (simp add: queue_on_def startConsumers_def on_event_def handlers_of_def new_queue_bus_def js_add_def)
  have d: "decode_job demo_bus ?job = Decoded BOARD_MUTATED ''b''" by code_simp
  have run: "dispatch demo_call (qb_handlers ?bus) BOARD_MUTATED ''b'' (seen, n) =
      (Inl (AggregateError [''down''] (''[EventBus] '' @ dec 1 @ '' handler(s) failed for '' @ BOARD_MUTATED)), (seen @ [''b''], n + 1))"
    for seen n by (simp add: dispatch_def hs)
  show ?thesis
    by (subst failed_delivery_runs_twice[OF d _ _ _ run, of "''00-1-1-01''"])
      (auto simp: demo_bus_def[THEN arg_cong[of _ _ be_traceparent]] demo_bus_def[THEN arg_cong[of _ _ be_extracts]] run)
qed

end
