(* ===== verification/JS_Values.thy ===== *)
theory JS_Values
  imports Payloads
begin

text \<open>
  Values without a checked type: arithmetic on JavaScript numbers (rationals with the infinities and NaN;
  the rounding of doubles and the sign of zero are left out), the conversions of \<open>+\<close>, of the other
  operators and of template strings, \<open>??\<close> and \<open>JSON.stringify\<close>. How a double is written and read is the
  parameter \<open>number_text\<close>.
\<close>

record number_text =
  nt_show :: "js_number \<Rightarrow> string"
  nt_read :: "string \<Rightarrow> js_number"

section \<open>Numbers\<close>

fun n_add :: "js_number \<Rightarrow> js_number \<Rightarrow> js_number" where
  "n_add (Fin a) (Fin b) = Fin (a + b)"
| "n_add NaN b = NaN"
| "n_add a NaN = NaN"
| "n_add PosInf NegInf = NaN"
| "n_add NegInf PosInf = NaN"
| "n_add (Fin a) b = b"
| "n_add a b = a"

fun n_neg :: "js_number \<Rightarrow> js_number" where
  "n_neg (Fin a) = Fin (- a)"
| "n_neg PosInf = NegInf"
| "n_neg NegInf = PosInf"
| "n_neg NaN = NaN"

definition n_sub :: "js_number \<Rightarrow> js_number \<Rightarrow> js_number" where
  "n_sub a b = n_add a (n_neg b)"

definition signed_inf :: "rat \<Rightarrow> js_number" where
  "signed_inf q = (if q > 0 then PosInf else if q < 0 then NegInf else NaN)"

fun n_sign :: "js_number \<Rightarrow> rat" where
  "n_sign (Fin a) = (if a > 0 then 1 else if a < 0 then - 1 else 0)"
| "n_sign PosInf = 1"
| "n_sign NegInf = - 1"
| "n_sign NaN = 0"

definition n_mul :: "js_number \<Rightarrow> js_number \<Rightarrow> js_number" where
  "n_mul a b = (case (a, b) of (Fin x, Fin y) \<Rightarrow> Fin (x * y) | _ \<Rightarrow> signed_inf (n_sign a * n_sign b))"

definition n_div :: "js_number \<Rightarrow> js_number \<Rightarrow> js_number" where
  "n_div a b = (case (a, b) of
     (Fin x, Fin y) \<Rightarrow> if y = 0 then signed_inf x else Fin (x / y)
   | (NaN, _) \<Rightarrow> NaN
   | (_, NaN) \<Rightarrow> NaN
   | (Fin x, _) \<Rightarrow> Fin 0
   | (_, Fin y) \<Rightarrow> signed_inf (if y < 0 then - n_sign a else n_sign a)
   | _ \<Rightarrow> NaN)"

fun n_less_eq :: "js_number \<Rightarrow> js_number \<Rightarrow> bool" where
  "n_less_eq NaN b = False"
| "n_less_eq a NaN = False"
| "n_less_eq NegInf b = True"
| "n_less_eq a PosInf = True"
| "n_less_eq (Fin a) (Fin b) = (a \<le> b)"
| "n_less_eq a b = False"

definition n_max :: "js_number \<Rightarrow> js_number \<Rightarrow> js_number" where
  \<comment> \<open>\<open>Math.max(a, b)\<close>\<close>
  "n_max a b = (if a = NaN \<or> b = NaN then NaN else if n_less_eq a b then b else a)"

definition n_min :: "js_number \<Rightarrow> js_number \<Rightarrow> js_number" where
  "n_min a b = (if a = NaN \<or> b = NaN then NaN else if n_less_eq a b then a else b)"

lemma n_arith [simp]:
  "n_sub (Fin a) (Fin b) = Fin (a - b)" "n_mul (Fin a) (Fin b) = Fin (a * b)"
  "b \<noteq> 0 \<Longrightarrow> n_div (Fin a) (Fin b) = Fin (a / b)"
  "n_max (Fin a) (Fin b) = Fin (max a b)" "n_min (Fin a) (Fin b) = Fin (min a b)"
  by (simp_all add: n_sub_def n_mul_def n_div_def n_max_def n_min_def)

section \<open>Conversions\<close>

fun to_text :: "number_text \<Rightarrow> wire \<Rightarrow> string" where
  \<comment> \<open>\<open>String(v)\<close> and the holes of a template string\<close>
  "to_text N WUndefined = ''undefined''"
| "to_text N WNull = ''null''"
| "to_text N (WBool b) = (if b then ''true'' else ''false'')"
| "to_text N (WNum n) = nt_show N n"
| "to_text N (WStr s) = s"
| "to_text N (WBytes bs) = commas (map (\<lambda>b. dec (int b)) bs)"
| "to_text N (WArr vs) = commas (map (\<lambda>v. if v = WUndefined \<or> v = WNull then '''' else to_text N v) vs)"
| "to_text N (WObj entries) = ''[object Object]''"

fun to_number :: "number_text \<Rightarrow> wire \<Rightarrow> js_number" where
  "to_number N WUndefined = NaN"
| "to_number N WNull = Fin 0"
| "to_number N (WBool b) = Fin (if b then 1 else 0)"
| "to_number N (WNum n) = n"
| "to_number N v = nt_read N (to_text N v)"

fun is_plain :: "wire \<Rightarrow> bool" where
  \<comment> \<open>converts to a number under \<open>+\<close>\<close>
  "is_plain WUndefined = True"
| "is_plain WNull = True"
| "is_plain (WBool b) = True"
| "is_plain (WNum n) = True"
| "is_plain _ = False"

definition js_plus :: "number_text \<Rightarrow> wire \<Rightarrow> wire \<Rightarrow> wire" where
  "js_plus N a b = (if is_plain a \<and> is_plain b then WNum (n_add (to_number N a) (to_number N b))
     else WStr (to_text N a @ to_text N b))"

definition num :: "rat \<Rightarrow> wire" where
  "num q = WNum (Fin q)"

definition coalesce :: "wire \<Rightarrow> wire \<Rightarrow> wire" where
  \<comment> \<open>\<open>a ?? b\<close>\<close>
  "coalesce a b = (if a = WUndefined \<or> a = WNull then b else a)"

definition truthy_value :: "wire \<Rightarrow> bool" where
  "truthy_value v = (v \<notin> {WUndefined, WNull, WBool False, WNum (Fin 0), WNum NaN, WStr ''''})"

lemma num_simps [simp]:
  "to_number N (num q) = Fin q" "js_plus N (num a) (num b) = num (a + b)" "num a = num b \<longleftrightarrow> a = b"
  "coalesce (num a) v = num a" "coalesce WUndefined v = v" "coalesce WNull v = v"
  by (simp_all add: num_def js_plus_def coalesce_def)

section \<open>JSON.stringify\<close>

fun hex_nat :: "nat \<Rightarrow> string" where
  "hex_nat n = (let d = (\<lambda>k. char_of (if k < 10 then 48 + k else 87 + k)) in
     if n < 16 then [d n] else hex_nat (n div 16) @ [d (n mod 16)])"

declare hex_nat.simps [simp del]

definition json_char :: "char \<Rightarrow> string" where
  "json_char c = (let n = (of_char c :: nat) in
     if n = 34 \<or> n = 92 then [CHR 0x5C, c]
     else if n = 8 then [CHR 0x5C, CHR ''b''] else if n = 9 then [CHR 0x5C, CHR ''t'']
     else if n = 10 then [CHR 0x5C, CHR ''n''] else if n = 12 then [CHR 0x5C, CHR ''f'']
     else if n = 13 then [CHR 0x5C, CHR ''r'']
     else if n < 16 then CHR 0x5C # ''u000'' @ hex_nat n else if n < 32 then CHR 0x5C # ''u00'' @ hex_nat n
     else [c])"

definition json_quote :: "string \<Rightarrow> string" where
  "json_quote s = [CHR 0x22] @ concat (map json_char s) @ [CHR 0x22]"

definition json_array :: "string list \<Rightarrow> string" where
  "json_array items = ''['' @ commas items @ '']''"

definition json_object :: "(string \<times> string) list \<Rightarrow> string" where
  "json_object props = [CHR 0x7B] @ commas (map (\<lambda>(k, t). json_quote k @ '':'' @ t) props) @ [CHR 0x7D]"

fun json_value :: "number_text \<Rightarrow> wire \<Rightarrow> string" where
  \<comment> \<open>\<open>undefined\<close> in an array; a property that is \<open>undefined\<close> is left out of its object\<close>
  "json_value N WUndefined = ''null''"
| "json_value N WNull = ''null''"
| "json_value N (WBool b) = (if b then ''true'' else ''false'')"
| "json_value N (WNum (Fin q)) = nt_show N (Fin q)"
| "json_value N (WNum n) = ''null''"
| "json_value N (WStr s) = json_quote s"
| "json_value N (WBytes bs) = json_array (map (\<lambda>b. dec (int b)) bs)"
| "json_value N (WArr vs) = json_array (map (json_value N) vs)"
| "json_value N (WObj entries) =
     json_object (map (\<lambda>(k, v). (k, json_value N v)) (filter (\<lambda>(k, v). v \<noteq> WUndefined) entries))"

definition demo_text :: number_text where
  "demo_text = \<lparr>nt_show = (\<lambda>n. case n of Fin q \<Rightarrow> dec \<lfloor>q\<rfloor> | _ \<Rightarrow> ''NaN''), nt_read = (\<lambda>s. case parse_int s of None \<Rightarrow> NaN | Some n \<Rightarrow> Fin (of_int n))\<rparr>"

end
