(* ===== verification/Preview_Render.thy ===== *)
theory Preview_Render
  imports JS_Values
begin

text \<open>
  The preview picture of a board (\<open>previews/board-preview.service.ts\<close>): element rows become notes and
  grids, these an SVG text and a version. What steers the layout (ids, grid sizes, spans, orders) is read
  at its declared type, a value of another type as if it were missing; what is drawn (\<open>x\<close>, \<open>y\<close>,
  \<open>width\<close>, \<open>height\<close>, weights) is any stored value, since the casts of the source check nothing. The
  order of \<open>localeCompare\<close> is the parameter \<open>before\<close>. The lemmas show that well-typed shapes fit into
  the picture, that colours come from the palette, and that a stored string is written into the SVG.
\<close>

section \<open>Elements\<close>

record raw_element_row =
  rw_id :: string
  rw_type :: string
  rw_data :: wire

record note_element =
  ne_id :: string
  ne_x :: wire
  ne_y :: wire
  ne_color :: "string option"
  ne_width :: wire
  ne_customWidth :: wire
  ne_layoutHeight :: wire
  ne_containerId :: "string option"
  ne_containerColumnId :: "string option"
  ne_containerOrder :: "rat option"

record column_def =
  cd_id :: string
  cd_col :: "rat option"
  cd_row :: "rat option"
  cd_colSpan :: "rat option"
  cd_rowSpan :: "rat option"
  cd_subColumns :: "rat option"

record preview_box =
  bx_x :: wire
  bx_y :: wire
  bx_width :: wire
  bx_height :: wire

record column_element =
  ce_id :: string
  ce_box :: preview_box
  ce_gridCols :: "rat option"
  ce_gridRows :: "rat option"
  ce_gridColWidths :: "wire list option"
  ce_gridRowHeights :: "wire list option"
  ce_sections :: "column_def list"
    \<comment> \<open>\<open>sections ?? columnDefs ?? []\<close>\<close>

record table_column =
  tc_id :: string
  tc_width :: wire
  tc_colType :: string

record table_element =
  te_id :: string
  te_box :: preview_box
  te_columns :: "table_column list"
  te_rows :: "string list"
    \<comment> \<open>the ids of \<open>tableRows\<close>\<close>

fun text_prop :: "wire \<Rightarrow> string option" where
  "text_prop (WStr s) = Some s"
| "text_prop _ = None"

fun number_prop :: "wire \<Rightarrow> rat option" where
  "number_prop (WNum (Fin q)) = Some q"
| "number_prop _ = None"

fun array_prop :: "wire \<Rightarrow> wire list option" where
  "array_prop (WArr vs) = Some vs"
| "array_prop _ = None"

definition text_of :: "wire \<Rightarrow> string" where
  "text_of v = (case text_prop v of Some s \<Rightarrow> s | None \<Rightarrow> '''')"

definition normalizeElement :: "raw_element_row \<Rightarrow> string \<times> string \<times> wire" where
  \<comment> \<open>id and kind of the row win over those in the data\<close>
  "normalizeElement row = (rw_id row, rw_type row, if isRecord (rw_data row) then rw_data row else WObj [])"

definition as_note :: "string \<times> string \<times> wire \<Rightarrow> note_element" where
  "as_note e = (case e of (i, kind, d) \<Rightarrow> \<lparr>ne_id = i, ne_x = get_prop ''x'' d, ne_y = get_prop ''y'' d,
     ne_color = text_prop (get_prop ''color'' d), ne_width = get_prop ''width'' d, ne_customWidth = get_prop ''customWidth'' d,
     ne_layoutHeight = get_prop ''computedLayoutHeight'' d, ne_containerId = text_prop (get_prop ''containerId'' d),
     ne_containerColumnId = text_prop (get_prop ''containerColumnId'' d),
     ne_containerOrder = number_prop (get_prop ''containerOrder'' d)\<rparr>)"

definition as_box :: "wire \<Rightarrow> preview_box" where
  "as_box d = \<lparr>bx_x = get_prop ''x'' d, bx_y = get_prop ''y'' d, bx_width = get_prop ''width'' d, bx_height = get_prop ''height'' d\<rparr>"

definition as_section :: "wire \<Rightarrow> column_def" where
  "as_section d = \<lparr>cd_id = text_of (get_prop ''id'' d), cd_col = number_prop (get_prop ''col'' d),
     cd_row = number_prop (get_prop ''row'' d), cd_colSpan = number_prop (get_prop ''colSpan'' d),
     cd_rowSpan = number_prop (get_prop ''rowSpan'' d), cd_subColumns = number_prop (get_prop ''subColumns'' d)\<rparr>"

definition as_column :: "string \<times> string \<times> wire \<Rightarrow> column_element" where
  "as_column e = (case e of (i, kind, d) \<Rightarrow> \<lparr>ce_id = i, ce_box = as_box d,
     ce_gridCols = number_prop (get_prop ''gridCols'' d), ce_gridRows = number_prop (get_prop ''gridRows'' d),
     ce_gridColWidths = array_prop (get_prop ''gridColWidths'' d), ce_gridRowHeights = array_prop (get_prop ''gridRowHeights'' d),
     ce_sections = map as_section (case array_prop (get_prop ''sections'' d) of Some vs \<Rightarrow> vs
       | None \<Rightarrow> (case array_prop (get_prop ''columnDefs'' d) of Some vs \<Rightarrow> vs | None \<Rightarrow> []))\<rparr>)"

definition as_table :: "string \<times> string \<times> wire \<Rightarrow> table_element" where
  "as_table e = (case e of (i, kind, d) \<Rightarrow> \<lparr>te_id = i, te_box = as_box d,
     te_columns = map (\<lambda>c. \<lparr>tc_id = text_of (get_prop ''id'' c), tc_width = get_prop ''width'' c,
         tc_colType = text_of (get_prop ''colType'' c)\<rparr>)
       (case array_prop (get_prop ''tableColumns'' d) of Some vs \<Rightarrow> vs | None \<Rightarrow> []),
     te_rows = map (\<lambda>r. text_of (get_prop ''id'' r))
       (case array_prop (get_prop ''tableRows'' d) of Some vs \<Rightarrow> vs | None \<Rightarrow> [])\<rparr>)"

section \<open>The model of the picture\<close>

record preview_note = preview_box +
  pn_colorKey :: string

record preview_grid = preview_box +
  pg_sections :: "preview_box list"

record preview_model =
  pm_notes :: "preview_note list"
  pm_grids :: "preview_grid list"

definition NOTE_COLOR_KEYS :: "string list" where
  "NOTE_COLOR_KEYS = [''amber'', ''orange'', ''red'', ''green'', ''emerald'', ''teal'', ''blue'', ''sky'', ''purple'',
     ''violet'', ''pink'', ''gray'']"

definition color_key :: "string option \<Rightarrow> string" where
  "color_key color = (case color of Some c \<Rightarrow> if c \<in> set NOTE_COLOR_KEYS then c else ''amber'' | None \<Rightarrow> ''amber'')"

definition number_or :: "rat option \<Rightarrow> rat \<Rightarrow> rat" where
  "number_or x d = (case x of None \<Rightarrow> d | Some q \<Rightarrow> q)"

definition at_index :: "'a list \<Rightarrow> rat \<Rightarrow> 'a option" where
  \<comment> \<open>\<open>xs[q]\<close>: \<open>None\<close> is undefined\<close>
  "at_index xs q = (if of_int \<lfloor>q\<rfloor> = q \<and> 0 \<le> q \<and> nat \<lfloor>q\<rfloor> < length xs then Some (xs ! nat \<lfloor>q\<rfloor>) else None)"

definition weights_of :: "wire list option \<Rightarrow> rat \<Rightarrow> string + wire list" where
  \<comment> \<open>\<open>weights ?? Array(n).fill(1)\<close>\<close>
  "weights_of weights n = (case weights of Some ws \<Rightarrow> Inr ws
     | None \<Rightarrow> if of_int \<lfloor>n\<rfloor> = n \<and> 0 \<le> n \<and> n < 2 ^ 32 then Inr (replicate (nat \<lfloor>n\<rfloor>) (num 1)) else Inl ''Invalid array length'')"

definition total_weight :: "number_text \<Rightarrow> wire list \<Rightarrow> wire" where
  "total_weight N ws = (let total = foldl (js_plus N) (num 0) ws in if truthy_value total then total else num 1)"

fun track_starts :: "number_text \<Rightarrow> wire \<Rightarrow> js_number \<Rightarrow> wire list \<Rightarrow> wire \<Rightarrow> nat \<Rightarrow> nat \<Rightarrow> wire list" where
  \<comment> \<open>the two loops over grid columns and rows; \<open>extent\<close> is what is divided, \<open>n\<close> the turns left\<close>
  "track_starts N acc extent ws weight i 0 = []"
| "track_starts N acc extent ws weight i (Suc n) = acc # track_starts N
     (js_plus N acc (WNum (n_mul extent (n_div (to_number N (coalesce (case at_index ws (of_nat i) of Some w \<Rightarrow> w | None \<Rightarrow> WUndefined) (num 1)))
        (to_number N weight))))) extent ws weight (i + 1) n"

definition loop_turns :: "rat \<Rightarrow> nat" where
  \<comment> \<open>turns of \<open>for (let i = 0; i < q; i++)\<close>\<close>
  "loop_turns q = nat \<lceil>q\<rceil>"

definition or_value :: "wire option \<Rightarrow> wire \<Rightarrow> wire" where
  "or_value x d = (case x of Some v \<Rightarrow> coalesce v d | None \<Rightarrow> d)"

definition section_box :: "number_text \<Rightarrow> preview_box \<Rightarrow> wire \<Rightarrow> js_number \<Rightarrow> wire list \<Rightarrow> wire list \<Rightarrow> column_def \<Rightarrow> preview_box" where
  "section_box N column bodyY bodyHeight colStarts rowStarts section =
     (let col = number_or (cd_col section) 0; row = number_or (cd_row section) 0;
          colSpan = number_or (cd_colSpan section) 1; rowSpan = number_or (cd_rowSpan section) 1;
          x = or_value (at_index colStarts col) (bx_x column); y = or_value (at_index rowStarts row) bodyY;
          right = or_value (at_index colStarts (col + colSpan)) (js_plus N (bx_x column) (bx_width column));
          bottom = or_value (at_index rowStarts (row + rowSpan)) (js_plus N bodyY (WNum bodyHeight))
      in \<lparr>bx_x = x, bx_y = y, bx_width = WNum (n_max (Fin 1) (n_sub (to_number N right) (to_number N x))),
           bx_height = WNum (n_max (Fin 1) (n_sub (to_number N bottom) (to_number N y)))\<rparr>)"

definition calcColumnSections :: "number_text \<Rightarrow> column_element \<Rightarrow> string + preview_box list" where
  "calcColumnSections N column =
     (let gridCols = number_or (ce_gridCols column) 1; gridRows = number_or (ce_gridRows column) 1; box = ce_box column in
      case (weights_of (ce_gridColWidths column) gridCols, weights_of (ce_gridRowHeights column) gridRows) of
        (Inl e, _) \<Rightarrow> Inl e
      | (_, Inl e) \<Rightarrow> Inl e
      | (Inr colWeights, Inr rowWeights) \<Rightarrow>
          (let bodyY = js_plus N (bx_y box) (num 42);
               bodyHeight = n_max (Fin 40) (n_sub (to_number N (bx_height box)) (Fin 42));
               colStarts = track_starts N (bx_x box) (to_number N (bx_width box)) colWeights (total_weight N colWeights) 0 (loop_turns gridCols);
               rowStarts = track_starts N bodyY bodyHeight rowWeights (total_weight N rowWeights) 0 (loop_turns gridRows)
           in Inr (map (section_box N box bodyY bodyHeight colStarts rowStarts) (ce_sections column))))"

fun split_at_colons :: "string \<Rightarrow> string list" where
  \<comment> \<open>\<open>s.split(':')\<close>\<close>
  "split_at_colons [] = ['''']"
| "split_at_colons (c # cs) = (if c = CHR '':'' then '''' # split_at_colons cs
     else (case split_at_colons cs of part # parts \<Rightarrow> (c # part) # parts | [] \<Rightarrow> [[c]]))"

definition group_notes :: "(note_element \<Rightarrow> string option) \<Rightarrow> note_element list \<Rightarrow> (string \<times> note_element list) list" where
  \<comment> \<open>a \<open>Map\<close> from the key of a note, if it has one, to the notes with it\<close>
  "group_notes key notes = fold (\<lambda>note groups. case key note of None \<Rightarrow> groups
     | Some k \<Rightarrow> js_put k ((case js_get k groups of None \<Rightarrow> [] | Some g \<Rightarrow> g) @ [note]) groups) notes []"

definition in_order :: "note_element list \<Rightarrow> note_element list" where
  "in_order notes = sort_key (\<lambda>n. number_or (ne_containerOrder n) 0) notes"

fun stack_notes :: "number_text \<Rightarrow> (note_element \<Rightarrow> js_number \<times> js_number) \<Rightarrow> wire \<Rightarrow> rat \<Rightarrow> wire \<Rightarrow> note_element list \<Rightarrow>
    preview_note list" where
  \<comment> \<open>notes below each other: \<open>dims\<close> gives width and height, \<open>gap\<close> the space between\<close>
  "stack_notes N dims x gap cursorY [] = []"
| "stack_notes N dims x gap cursorY (note # notes) = (case dims note of (width, height) \<Rightarrow>
     \<lparr>bx_x = x, bx_y = cursorY, bx_width = WNum width, bx_height = WNum height, pn_colorKey = color_key (ne_color note)\<rparr> #
     stack_notes N dims x gap (js_plus N cursorY (WNum (n_add height (Fin gap)))) notes)"

definition clamp :: "rat \<Rightarrow> js_number \<Rightarrow> js_number \<Rightarrow> js_number" where
  \<comment> \<open>\<open>Math.max(lo, Math.min(hi, v))\<close>\<close>
  "clamp lo hi v = n_max (Fin lo) (n_min hi v)"

definition drawn_width :: "note_element \<Rightarrow> rat \<Rightarrow> wire" where
  "drawn_width note d = coalesce (ne_customWidth note) (coalesce (ne_width note) (num d))"

definition layoutContainedNotes :: "number_text \<Rightarrow> column_element \<Rightarrow> note_element list \<Rightarrow> string + preview_note list" where
  "layoutContainedNotes N column notes = (case calcColumnSections N column of Inl e \<Rightarrow> Inl e
     | Inr boxes \<Rightarrow>
        (let found = fold (\<lambda>(s, box). js_put (cd_id s) (s, box)) (zip (ce_sections column) boxes) [];
             grouped = group_notes (\<lambda>n. case ne_containerColumnId n of Some k \<Rightarrow> if k = '''' then None else Some k | None \<Rightarrow> None) notes
         in Inr (concat (map (\<lambda>(targetId, targetNotes).
              (let parts = split_at_colons targetId in
               case js_get (hd parts) found of None \<Rightarrow> []
               | Some (section, box) \<Rightarrow>
                  (let subColumns = number_or (cd_subColumns section) 1;
                       subIndex = (if subColumns > 1 then (case tl parts of [] \<Rightarrow> Fin 0 | raw # _ \<Rightarrow> to_number N (WStr raw)) else Fin 0);
                       subWidth = n_div (to_number N (bx_width box)) (Fin (max 1 subColumns));
                       subX = js_plus N (bx_x box) (WNum (n_mul subIndex subWidth))
                   in stack_notes N (\<lambda>note. (clamp 20 (n_sub subWidth (Fin 8)) (to_number N (drawn_width note 160)),
                        clamp 26 (Fin 140) (to_number N (coalesce (ne_layoutHeight note) (num 74)))))
                      (js_plus N subX (num 4)) 4 (js_plus N (bx_y box) (num 24)) (in_order targetNotes)))) grouped))))"

definition column_lefts :: "number_text \<Rightarrow> table_element \<Rightarrow> (string \<times> wire) list" where
  "column_lefts N table = snd (fold (\<lambda>col (colX, starts). (js_plus N colX (tc_width col), js_put (tc_id col) colX starts))
     (te_columns table) (js_plus N (bx_x (te_box table)) (num 36), []))"

definition calcTableSections :: "number_text \<Rightarrow> table_element \<Rightarrow> preview_box list" where
  "calcTableSections N table = (if te_columns table = [] \<or> te_rows table = [] then []
     else concat (map (\<lambda>rowIdx. map (\<lambda>col.
         \<lparr>bx_x = or_value (js_get (tc_id col) (column_lefts N table)) (bx_x (te_box table)),
          bx_y = js_plus N (js_plus N (bx_y (te_box table)) (num 40)) (num (of_nat rowIdx * 28)),
          bx_width = WNum (n_max (Fin 1) (to_number N (tc_width col))), bx_height = num 28\<rparr>) (te_columns table))
       [0..<length (te_rows table)]))"

definition note_cell :: "table_element \<Rightarrow> note_element \<Rightarrow> string option" where
  \<comment> \<open>the key of the grouping: column and row of the cell that holds the note\<close>
  "note_cell table note = (case ne_containerColumnId note of None \<Rightarrow> None
     | Some k \<Rightarrow> (case split_at_colons k of
          colId # rowId # _ \<Rightarrow>
            if colId \<in> tc_id ` set (filter (\<lambda>c. tc_colType c = ''NOTE'') (te_columns table)) \<and> rowId \<in> set (te_rows table)
            then Some (colId @ '':'' @ rowId) else None
        | _ \<Rightarrow> None))"

fun index_in :: "string \<Rightarrow> string list \<Rightarrow> nat" where
  \<comment> \<open>\<open>findIndex\<close> of an element that is there\<close>
  "index_in r [] = 0"
| "index_in r (x # xs) = (if x = r then 0 else Suc (index_in r xs))"

definition layoutTableContainedNotes :: "number_text \<Rightarrow> table_element \<Rightarrow> note_element list \<Rightarrow> preview_note list" where
  "layoutTableContainedNotes N table notes =
     (if filter (\<lambda>c. tc_colType c = ''NOTE'') (te_columns table) = [] \<or> te_rows table = [] then []
      else concat (map (\<lambda>(key, cellNotes). (case split_at_colons key of
          colId # rowId # _ \<Rightarrow> (case List.find (\<lambda>c. tc_id c = colId) (te_columns table) of None \<Rightarrow> []
            | Some col \<Rightarrow> if rowId \<notin> set (te_rows table) then []
                else stack_notes N (\<lambda>note. (clamp 16 (n_sub (to_number N (tc_width col)) (Fin 8)) (to_number N (drawn_width note 120)),
                    clamp 18 (Fin 60) (to_number N (coalesce (ne_layoutHeight note) (num 28)))))
                  (js_plus N (or_value (js_get colId (column_lefts N table)) (bx_x (te_box table))) (num 2)) 2
                  (js_plus N (js_plus N (js_plus N (bx_y (te_box table)) (num 40)) (num (of_nat (index_in rowId (te_rows table)) * 28))) (num 2))
                  (in_order cellNotes))
        | _ \<Rightarrow> [])) (group_notes (note_cell table) notes)))"

fun insert_by :: "('a \<Rightarrow> 'a \<Rightarrow> bool) \<Rightarrow> 'a \<Rightarrow> 'a list \<Rightarrow> 'a list" where
  "insert_by le x [] = [x]"
| "insert_by le x (y # ys) = (if le x y then x # y # ys else y # insert_by le x ys)"

definition sortById :: "(string \<Rightarrow> string \<Rightarrow> bool) \<Rightarrow> ('a \<Rightarrow> string) \<Rightarrow> 'a list \<Rightarrow> 'a list" where
  \<comment> \<open>stable; \<open>before a b\<close> is \<open>a.localeCompare(b) <= 0\<close>\<close>
  "sortById before id_of items = foldr (insert_by (\<lambda>a b. before (id_of a) (id_of b))) items []"

fun join_results :: "(string + 'a list) list \<Rightarrow> string + 'a list" where
  \<comment> \<open>\<open>flatMap\<close> of a function that may throw\<close>
  "join_results [] = Inr []"
| "join_results (Inl e # rs) = Inl e"
| "join_results (Inr xs # rs) = (case join_results rs of Inl e \<Rightarrow> Inl e | Inr ys \<Rightarrow> Inr (xs @ ys))"

definition free_note :: "note_element \<Rightarrow> preview_note" where
  "free_note note = \<lparr>bx_x = ne_x note, bx_y = ne_y note, bx_width = drawn_width note 180,
     bx_height = coalesce (ne_layoutHeight note) (num 74), pn_colorKey = color_key (ne_color note)\<rparr>"

definition free_notes :: "note_element list \<Rightarrow> preview_note list" where
  "free_notes notes = map free_note (filter (\<lambda>n. ne_containerId n \<in> {None, Some ''''}) notes)"

definition of_kind :: "string \<Rightarrow> raw_element_row list \<Rightarrow> (string \<times> string \<times> wire) list" where
  "of_kind kind rows = filter (\<lambda>(i, k, d). k = kind) (map normalizeElement rows)"

definition notes_of :: "(string \<Rightarrow> string \<Rightarrow> bool) \<Rightarrow> raw_element_row list \<Rightarrow> note_element list" where
  "notes_of before rows = sortById before ne_id (map as_note (of_kind ''NOTE'' rows))"

definition inside :: "string \<Rightarrow> note_element list \<Rightarrow> note_element list" where
  "inside i notes = filter (\<lambda>n. ne_containerId n = Some i) notes"

definition buildBoardPreviewModel :: "number_text \<Rightarrow> (string \<Rightarrow> string \<Rightarrow> bool) \<Rightarrow> raw_element_row list \<Rightarrow> string + preview_model" where
  "buildBoardPreviewModel N before rows =
     (let notes = notes_of before rows;
          columns = sortById before ce_id (map as_column (of_kind ''COLUMN'' rows));
          tables = sortById before te_id (map as_table (of_kind ''TABLE'' rows))
      in case join_results (map (\<lambda>c. layoutContainedNotes N c (inside (ce_id c) notes)) columns) of
           Inl e \<Rightarrow> Inl e
         | Inr containedNotes \<Rightarrow>
             (case join_results (map (\<lambda>c. map_sum id (\<lambda>boxes. [preview_box.extend (ce_box c) (preview_grid.fields boxes)])
                 (calcColumnSections N c)) columns) of
                Inl e \<Rightarrow> Inl e
              | Inr grids \<Rightarrow> Inr \<lparr>
                  pm_notes = free_notes notes @ containedNotes @
                    concat (map (\<lambda>t. layoutTableContainedNotes N t (inside (te_id t) notes)) tables),
                  pm_grids = grids @ map (\<lambda>t. preview_box.extend (te_box t) (preview_grid.fields (calcTableSections N t))) tables\<rparr>))"

section \<open>Version\<close>

definition fnv_step :: "char \<Rightarrow> 32 word \<Rightarrow> 32 word" where
  "fnv_step c hash = (xor hash (of_nat (of_char c))) * 16777619"

definition hashString :: "string \<Rightarrow> string" where
  "hashString input = hex_nat (unat (fold fnv_step input (2166136261 :: 32 word)))"

definition json_box :: "number_text \<Rightarrow> preview_box \<Rightarrow> (string \<times> string) list" where
  "json_box N b = map (\<lambda>(k, v). (k, json_value N v)) (filter (\<lambda>(k, v). v \<noteq> WUndefined)
     [(''x'', bx_x b), (''y'', bx_y b), (''width'', bx_width b), (''height'', bx_height b)])"

definition json_model :: "number_text \<Rightarrow> preview_model \<Rightarrow> string" where
  \<comment> \<open>\<open>JSON.stringify(model)\<close>\<close>
  "json_model N m = json_object
     [(''notes'', json_array (map (\<lambda>n. json_object (json_box N (preview_box.truncate n) @ [(''colorKey'', json_quote (pn_colorKey n))])) (pm_notes m))),
      (''grids'', json_array (map (\<lambda>g. json_object (json_box N (preview_box.truncate g) @
         [(''sections'', json_array (map (\<lambda>b. json_object (json_box N b)) (pg_sections g)))])) (pm_grids m)))]"

definition getBoardPreviewVersion :: "number_text \<Rightarrow> preview_model \<Rightarrow> string" where
  "getBoardPreviewVersion N m = hashString (json_model N m)"

section \<open>The SVG text\<close>

definition all_rects :: "preview_model \<Rightarrow> preview_box list" where
  "all_rects m = map preview_box.truncate (pm_grids m) @ map preview_box.truncate (pm_notes m)"

definition min_of :: "js_number list \<Rightarrow> js_number" where
  "min_of ns = fold n_min ns PosInf"

definition max_of :: "js_number list \<Rightarrow> js_number" where
  "max_of ns = fold n_max ns NegInf"

definition fit_transform :: "number_text \<Rightarrow> rat \<Rightarrow> rat \<Rightarrow> preview_box list \<Rightarrow> js_number \<times> js_number \<times> js_number" where
  \<comment> \<open>scale, tx and ty\<close>
  "fit_transform N width height rects =
     (let minX = (if rects = [] then Fin 0 else min_of (map (\<lambda>r. to_number N (bx_x r)) rects));
          minY = (if rects = [] then Fin 0 else min_of (map (\<lambda>r. to_number N (bx_y r)) rects));
          maxX = (if rects = [] then Fin width else max_of (map (\<lambda>r. to_number N (js_plus N (bx_x r) (bx_width r))) rects));
          maxY = (if rects = [] then Fin height else max_of (map (\<lambda>r. to_number N (js_plus N (bx_y r) (bx_height r))) rects));
          sourceWidth = n_max (Fin 1) (n_add (n_sub maxX minX) (Fin 16));
          sourceHeight = n_max (Fin 1) (n_add (n_sub maxY minY) (Fin 16));
          scale = n_min (n_div (Fin width) sourceWidth) (n_div (Fin height) sourceHeight);
          offsetX = n_div (n_sub (Fin width) (n_mul sourceWidth scale)) (Fin 2);
          offsetY = n_div (n_sub (Fin height) (n_mul sourceHeight scale)) (Fin 2)
      in (scale, n_sub offsetX (n_mul (n_sub minX (Fin 8)) scale), n_sub offsetY (n_mul (n_sub minY (Fin 8)) scale)))"

definition attr :: "string \<Rightarrow> string \<Rightarrow> string" where
  \<comment> \<open>\<open> name="value"\<close>\<close>
  "attr name v = '' '' @ name @ ''='' @ [CHR 0x22] @ v @ [CHR 0x22]"

definition rect_attrs :: "number_text \<Rightarrow> preview_box \<Rightarrow> string" where
  "rect_attrs N b = attr ''x'' (to_text N (bx_x b)) @ attr ''y'' (to_text N (bx_y b)) @
     attr ''width'' (to_text N (bx_width b)) @ attr ''height'' (to_text N (bx_height b))"

definition note_shape :: "number_text \<Rightarrow> preview_note \<Rightarrow> string" where
  "note_shape N n = ''<rect'' @ rect_attrs N (preview_box.truncate n) @ attr ''rx'' ''6'' @
     attr ''fill'' (''var(--preview-note-'' @ pn_colorKey n @ '')'') @ attr ''stroke'' ''var(--preview-note-stroke)'' @
     attr ''stroke-width'' ''0.5'' @ ''/>''"

definition grid_shape :: "number_text \<Rightarrow> preview_grid \<Rightarrow> string" where
  "grid_shape N g = ''<rect'' @ rect_attrs N (preview_box.truncate g) @ attr ''rx'' ''8'' @
     attr ''fill'' ''var(--preview-grid-fill)'' @ attr ''stroke'' ''var(--preview-grid-stroke)'' @ attr ''stroke-width'' ''1.5'' @ ''/>'' @
     concat (map (\<lambda>b. ''<rect'' @ rect_attrs N b @ attr ''fill'' ''none'' @ attr ''stroke'' ''var(--preview-section-stroke)'' @
       attr ''stroke-width'' ''1'' @ ''/>'') (pg_sections g))"

definition renderBoardPreviewSvg :: "number_text \<Rightarrow> rat \<Rightarrow> rat \<Rightarrow> preview_model \<Rightarrow> string" where
  "renderBoardPreviewSvg N width height m =
     (let w = nt_show N (Fin width); h = nt_show N (Fin height) in case fit_transform N width height (all_rects m) of (scale, tx, ty) \<Rightarrow>
        ''<svg'' @ attr ''xmlns'' ''http://www.w3.org/2000/svg'' @ attr ''viewBox'' (''0 0 '' @ w @ '' '' @ h) @ attr ''width'' w @ attr ''height'' h @
        ''><rect'' @ attr ''width'' w @ attr ''height'' h @ attr ''fill'' ''var(--preview-bg)'' @ ''/><g'' @
        attr ''transform'' (''matrix('' @ nt_show N scale @ '' 0 0 '' @ nt_show N scale @ '' '' @ nt_show N tx @ '' '' @ nt_show N ty @ '')'') @ ''>'' @
        concat (map (grid_shape N) (pm_grids m)) @ concat (map (note_shape N) (pm_notes m)) @ ''</g></svg>'')"

record rendered =
  rd_svg :: string
  rd_version :: string

definition render_preview :: "number_text \<Rightarrow> (string \<Rightarrow> string \<Rightarrow> bool) \<Rightarrow> raw_element_row list \<Rightarrow> string + rendered" where
  \<comment> \<open>\<open>render\<close>, with the default size\<close>
  "render_preview N before rows = map_sum id (\<lambda>m. \<lparr>rd_svg = renderBoardPreviewSvg N 320 200 m, rd_version = getBoardPreviewVersion N m\<rparr>)
     (buildBoardPreviewModel N before rows)"

section \<open>The picture holds its shapes\<close>

definition numeric_box :: "preview_box \<Rightarrow> rat \<Rightarrow> rat \<Rightarrow> rat \<Rightarrow> rat \<Rightarrow> bool" where
  "numeric_box b x y w h = (b = \<lparr>bx_x = num x, bx_y = num y, bx_width = num w, bx_height = num h\<rparr> \<and> 0 \<le> w \<and> 0 \<le> h)"

fun coord :: "wire \<Rightarrow> rat" where
  "coord (WNum (Fin q)) = q"
| "coord v = 0"

lemma coord_num [simp]: "coord (num q) = q"
  by (simp add: num_def)

lemma numeric_values:
  assumes "numeric_box b x y w h"
  shows "to_number N (bx_x b) = Fin (coord (bx_x b))" "to_number N (bx_y b) = Fin (coord (bx_y b))"
    "to_number N (js_plus N (bx_x b) (bx_width b)) = Fin (coord (bx_x b) + coord (bx_width b))"
    "to_number N (js_plus N (bx_y b) (bx_height b)) = Fin (coord (bx_y b) + coord (bx_height b))"
    "coord (bx_x b) = x" "coord (bx_y b) = y" "coord (bx_width b) = w" "coord (bx_height b) = h"
  using assms by (simp_all add: numeric_box_def)

lemma fold_n_min: "\<exists>m. fold n_min (map Fin qs) (Fin a) = Fin m \<and> m \<le> a \<and> (\<forall>q \<in> set qs. m \<le> q)"
proof (induction qs arbitrary: a)
  case (Cons q qs)
  obtain m where "fold n_min (map Fin qs) (Fin (min q a)) = Fin m" "m \<le> min q a" "\<forall>q \<in> set qs. m \<le> q"
    using Cons.IH by blast
  then show ?case by auto
qed simp

lemma fold_n_max: "\<exists>m. fold n_max (map Fin qs) (Fin a) = Fin m \<and> a \<le> m \<and> (\<forall>q \<in> set qs. q \<le> m)"
proof (induction qs arbitrary: a)
  case (Cons q qs)
  obtain m where "fold n_max (map Fin qs) (Fin (max q a)) = Fin m" "max q a \<le> m" "\<forall>q \<in> set qs. q \<le> m"
    using Cons.IH by blast
  then show ?case by auto
qed simp

lemma min_max_of:
  assumes "qs \<noteq> []"
  shows "\<exists>m. min_of (map Fin qs) = Fin m \<and> (\<forall>q \<in> set qs. m \<le> q)"
    and "\<exists>m. max_of (map Fin qs) = Fin m \<and> (\<forall>q \<in> set qs. q \<le> m)"
proof -
  obtain q qs' where qs: "qs = q # qs'" using assms by (cases qs) auto
  have "n_min (Fin q) PosInf = Fin q" "n_max (Fin q) NegInf = Fin q" by (simp_all add: n_min_def n_max_def)
  then show "\<exists>m. min_of (map Fin qs) = Fin m \<and> (\<forall>q \<in> set qs. m \<le> q)"
    "\<exists>m. max_of (map Fin qs) = Fin m \<and> (\<forall>q \<in> set qs. q \<le> m)"
    using fold_n_min[of qs' q] fold_n_max[of qs' q] by (auto simp: qs min_of_def max_of_def)
qed

lemma fit_axis:
  \<comment> \<open>one axis: from \<open>lo\<close> to \<open>hi\<close> in a source of extent \<open>e\<close>, drawn at scale \<open>s\<close> into \<open>size\<close>\<close>
  fixes s e lo hi len v :: rat
  assumes "0 < s" "s * e \<le> len" "hi - lo + 16 \<le> e"
  shows "lo \<le> v \<Longrightarrow> 0 \<le> s * v + ((len - e * s) / 2 - (lo - 8) * s)"
    and "v \<le> hi \<Longrightarrow> s * v + ((len - e * s) / 2 - (lo - 8) * s) \<le> len"
proof -
  have eq: "s * v + ((len - e * s) / 2 - (lo - 8) * s) = (len - s * e) / 2 + s * (v - lo + 8)" for v
    by (simp add: algebra_simps)
  have "s * (v - lo + 8) \<ge> 0" if "lo \<le> v" using that assms(1) by simp
  then show "lo \<le> v \<Longrightarrow> 0 \<le> s * v + ((len - e * s) / 2 - (lo - 8) * s)" unfolding eq using assms(2) by simp
  have "s * (v - lo + 8) \<le> s * e" if "v \<le> hi" using that assms(1,3) by simp
  then show "v \<le> hi \<Longrightarrow> s * v + ((len - e * s) / 2 - (lo - 8) * s) \<le> len" unfolding eq using assms(2) by (simp add: field_simps)
qed

text \<open>The transformation of the picture puts every shape inside it: when all notes and grids have numbers as coordinates
  and sizes that are not negative, each is drawn between 0 and the width, and between 0 and the height.\<close>

theorem preview_shapes_fit:
  assumes "0 < width" "0 < height"
    and numeric: "\<forall>b \<in> set (all_rects m). \<exists>x y w h. numeric_box b x y w h"
  shows "\<exists>s tx ty. fit_transform N width height (all_rects m) = (Fin s, Fin tx, Fin ty) \<and> 0 < s \<and>
    (\<forall>b \<in> set (all_rects m). \<forall>x y w h. numeric_box b x y w h \<longrightarrow>
       0 \<le> s * x + tx \<and> s * (x + w) + tx \<le> width \<and> 0 \<le> s * y + ty \<and> s * (y + h) + ty \<le> height)"
proof -
  let ?rs = "all_rects m"
  let ?X = "\<lambda>b. coord (bx_x b)" and ?Y = "\<lambda>b. coord (bx_y b)"
  let ?R = "\<lambda>b. ?X b + coord (bx_width b)" and ?B = "\<lambda>b. ?Y b + coord (bx_height b)"
  have maps: "map (\<lambda>r. to_number N (bx_x r)) ?rs = map Fin (map ?X ?rs)"
    "map (\<lambda>r. to_number N (bx_y r)) ?rs = map Fin (map ?Y ?rs)"
    "map (\<lambda>r. to_number N (js_plus N (bx_x r) (bx_width r))) ?rs = map Fin (map ?R ?rs)"
    "map (\<lambda>r. to_number N (js_plus N (bx_y r) (bx_height r))) ?rs = map Fin (map ?B ?rs)"
    using numeric numeric_values(1-4) by auto
  obtain x0 y0 x1 y1 where mm:
    "(if ?rs = [] then Fin 0 else min_of (map (\<lambda>r. to_number N (bx_x r)) ?rs)) = Fin x0"
    "(if ?rs = [] then Fin 0 else min_of (map (\<lambda>r. to_number N (bx_y r)) ?rs)) = Fin y0"
    "(if ?rs = [] then Fin width else max_of (map (\<lambda>r. to_number N (js_plus N (bx_x r) (bx_width r))) ?rs)) = Fin x1"
    "(if ?rs = [] then Fin height else max_of (map (\<lambda>r. to_number N (js_plus N (bx_y r) (bx_height r))) ?rs)) = Fin y1"
    "\<forall>b \<in> set ?rs. x0 \<le> ?X b \<and> y0 \<le> ?Y b \<and> ?R b \<le> x1 \<and> ?B b \<le> y1"
  proof (cases "?rs = []")
    case True
    then show ?thesis using that[of 0 0 width height] by simp
  next
    case False
    then have ne: "map f ?rs \<noteq> []" for f :: "preview_box \<Rightarrow> rat" by simp
    obtain x0 y0 x1 y1 where
      "min_of (map Fin (map ?X ?rs)) = Fin x0" "\<forall>q \<in> set (map ?X ?rs). x0 \<le> q"
      "min_of (map Fin (map ?Y ?rs)) = Fin y0" "\<forall>q \<in> set (map ?Y ?rs). y0 \<le> q"
      "max_of (map Fin (map ?R ?rs)) = Fin x1" "\<forall>q \<in> set (map ?R ?rs). q \<le> x1"
      "max_of (map Fin (map ?B ?rs)) = Fin y1" "\<forall>q \<in> set (map ?B ?rs). q \<le> y1"
      using min_max_of(1)[OF ne[of ?X]] min_max_of(1)[OF ne[of ?Y]] min_max_of(2)[OF ne[of ?R]] min_max_of(2)[OF ne[of ?B]] by blast
    then show ?thesis using that[of x0 y0 x1 y1] False unfolding maps by simp
  qed
  define sw sh s where "sw = max 1 (x1 - x0 + 16)" and "sh = max 1 (y1 - y0 + 16)" and "s = min (width / sw) (height / sh)"
  have pos: "1 \<le> sw" "1 \<le> sh" "x1 - x0 + 16 \<le> sw" "y1 - y0 + 16 \<le> sh" by (simp_all add: sw_def sh_def)
  then have s: "0 < s" "s * sw \<le> width" "s * sh \<le> height"
    using assms(1,2) by (auto simp: s_def min_def field_simps)
  have fit: "fit_transform N width height ?rs =
      (Fin s, Fin ((width - sw * s) / 2 - (x0 - 8) * s), Fin ((height - sh * s) / 2 - (y0 - 8) * s))"
    using pos by (simp add: fit_transform_def Let_def mm(1-4) sw_def[symmetric] sh_def[symmetric] s_def[symmetric])
  have "0 \<le> s * x + ((width - sw * s) / 2 - (x0 - 8) * s) \<and> s * (x + w) + ((width - sw * s) / 2 - (x0 - 8) * s) \<le> width \<and>
      0 \<le> s * y + ((height - sh * s) / 2 - (y0 - 8) * s) \<and> s * (y + h) + ((height - sh * s) / 2 - (y0 - 8) * s) \<le> height"
    if "b \<in> set ?rs" "numeric_box b x y w h" for b x y w h
  proof -
    have "x0 \<le> x" "x + w \<le> x1" "y0 \<le> y" "y + h \<le> y1"
      using mm(5) that(1) numeric_values(5-8)[OF that(2)] by auto
    then show ?thesis using fit_axis[OF s(1,2) pos(3)] fit_axis[OF s(1,3) pos(4)] by blast
  qed
  then show ?thesis using fit s(1) by blast
qed

section \<open>What is drawn\<close>

lemma set_insert_by [simp]: "set (insert_by le x ys) = insert x (set ys)"
  by (induction ys) auto

lemma set_sortById [simp]: "set (sortById before id_of items) = set items"
  by (induction items) (auto simp: sortById_def)

lemma color_key_in [simp]: "color_key c \<in> set NOTE_COLOR_KEYS"
proof -
  have "''amber'' \<in> set NOTE_COLOR_KEYS" by (simp add: NOTE_COLOR_KEYS_def)
  then show ?thesis by (auto simp: color_key_def split: option.split)
qed

lemma stack_colors: "n \<in> set (stack_notes N dims x gap cursorY items) \<Longrightarrow> pn_colorKey n \<in> set NOTE_COLOR_KEYS"
  by (induction N dims x gap cursorY items rule: stack_notes.induct)
    (auto split: prod.splits)

lemma contained_colors:
  "layoutContainedNotes N column notes = Inr ns \<Longrightarrow> n \<in> set ns \<Longrightarrow> pn_colorKey n \<in> set NOTE_COLOR_KEYS"
  by (auto simp: layoutContainedNotes_def Let_def dest: stack_colors split: sum.splits option.splits prod.splits)

lemma table_colors: "n \<in> set (layoutTableContainedNotes N table notes) \<Longrightarrow> pn_colorKey n \<in> set NOTE_COLOR_KEYS"
  by (auto simp: layoutTableContainedNotes_def dest: stack_colors split: if_splits list.splits option.splits)

lemma join_results_set:
  "join_results rs = Inr xs \<Longrightarrow> set xs = (\<Union>r \<in> set rs. case r of Inr ys \<Rightarrow> set ys | Inl e \<Rightarrow> {})"
  by (induction rs arbitrary: xs rule: join_results.induct) (auto split: sum.splits)

lemma built_notes:
  assumes "buildBoardPreviewModel N before rows = Inr m"
  obtains contained columns tables where
    "join_results (map (\<lambda>c. layoutContainedNotes N c (inside (ce_id c) (notes_of before rows))) columns) = Inr contained"
    "pm_notes m = free_notes (notes_of before rows) @ contained @
       concat (map (\<lambda>t. layoutTableContainedNotes N t (inside (te_id t) (notes_of before rows))) tables)"
  using assms by (auto simp: buildBoardPreviewModel_def Let_def split: sum.splits)

text \<open>The colour keys, which the picture uses inside the names of CSS variables, always come from the palette, whatever
  the elements have stored as their colour.\<close>

theorem preview_colors_from_palette:
  assumes "buildBoardPreviewModel N before rows = Inr m" "n \<in> set (pm_notes m)"
  shows "pn_colorKey n \<in> set NOTE_COLOR_KEYS"
proof -
  obtain contained columns tables where
    c: "join_results (map (\<lambda>c. layoutContainedNotes N c (inside (ce_id c) (notes_of before rows))) columns) = Inr contained" and
    ns: "pm_notes m = free_notes (notes_of before rows) @ contained @
       concat (map (\<lambda>t. layoutTableContainedNotes N t (inside (te_id t) (notes_of before rows))) tables)"
    using built_notes[OF assms(1)] by blast
  have free: "pn_colorKey (free_note x) \<in> set NOTE_COLOR_KEYS" for x
    by (simp add: free_note_def)
  consider "n \<in> set (free_notes (notes_of before rows))" | "n \<in> set contained"
    | t where "n \<in> set (layoutTableContainedNotes N t (inside (te_id t) (notes_of before rows)))"
    using assms(2) ns by auto
  then show ?thesis
  proof cases
    case 2
    then obtain x where "n \<in> (case layoutContainedNotes N x (inside (ce_id x) (notes_of before rows)) of Inr ys \<Rightarrow> set ys | Inl e \<Rightarrow> {})"
      unfolding join_results_set[OF c] by auto
    then show ?thesis
      by (cases "layoutContainedNotes N x (inside (ce_id x) (notes_of before rows))") (auto dest: contained_colors)
  qed (use free table_colors in \<open>auto simp: free_notes_def\<close>)
qed

definition has_part :: "string \<Rightarrow> string \<Rightarrow> bool" where
  "has_part t s = (\<exists>front back. s = front @ t @ back)"

lemma has_part_self: "has_part t t"
  unfolding has_part_def by (metis append_Nil append_Nil2)

lemma has_part_left: "has_part t a \<Longrightarrow> has_part t (a @ b)"
  unfolding has_part_def by (metis append.assoc)

lemma has_part_right: "has_part t b \<Longrightarrow> has_part t (a @ b)"
  unfolding has_part_def by (metis append.assoc)

lemmas has_part_intros = has_part_self has_part_left has_part_right

lemma has_part_trans: "has_part t s \<Longrightarrow> has_part s r \<Longrightarrow> has_part t r"
  unfolding has_part_def by (metis append.assoc)

lemma has_part_concat: "t \<in> set ts \<Longrightarrow> has_part t (concat ts)"
  by (induction ts) (auto intro: has_part_intros)

lemma note_in_svg:
  assumes "n \<in> set (pm_notes m)"
  shows "has_part (note_shape N n) (renderBoardPreviewSvg N width height m)"
proof -
  have "has_part (note_shape N n) (concat (map (note_shape N) (pm_notes m)))"
    using assms by (intro has_part_concat) simp
  then have "has_part (note_shape N n) (concat (map (note_shape N) (pm_notes m)) @ ''</g></svg>'')" by (rule has_part_left)
  then show ?thesis unfolding renderBoardPreviewSvg_def Let_def prod.case_distrib[of "has_part _"]
    by (simp only: has_part_right split: prod.split) simp
qed

text \<open>Stored text becomes markup: a free note whose \<open>x\<close> is a string is drawn with that string, unescaped, as its
  attribute. A user who may edit the board puts any markup into the picture that everybody sees.\<close>

theorem stored_text_reaches_svg:
  assumes "row \<in> set rows" "rw_type row = ''NOTE''" "rw_data row = WObj d"
    and "get_prop ''x'' (WObj d) = WStr t" "get_prop ''containerId'' (WObj d) = WUndefined"
    and "render_preview N before rows = Inr r"
  shows "\<exists>front back. rd_svg r = front @ attr ''x'' t @ back"
proof -
  let ?n = "free_note (as_note (normalizeElement row))"
  obtain m where m: "buildBoardPreviewModel N before rows = Inr m" "rd_svg r = renderBoardPreviewSvg N 320 200 m"
    using assms(6) by (cases "buildBoardPreviewModel N before rows") (auto simp: render_preview_def)
  have "normalizeElement row \<in> set (of_kind ''NOTE'' rows)" using assms(1,2) by (auto simp: normalizeElement_def of_kind_def)
  then have "as_note (normalizeElement row) \<in> set (notes_of before rows)" by (simp add: notes_of_def)
  moreover have "ne_containerId (as_note (normalizeElement row)) = None"
    using assms(3,5) by (simp add: normalizeElement_def as_note_def)
  ultimately have "?n \<in> set (free_notes (notes_of before rows))" by (auto simp: free_notes_def)
  then have "?n \<in> set (pm_notes m)" using built_notes[OF m(1)] by (metis UnI1 set_append)
  then have "has_part (note_shape N ?n) (rd_svg r)" unfolding m(2) by (rule note_in_svg)
  moreover have "bx_x (preview_box.truncate ?n) = WStr t"
    using assms(3,4) by (simp add: free_note_def as_note_def normalizeElement_def preview_box.defs)
  then have "has_part (attr ''x'' t) (rect_attrs N (preview_box.truncate ?n))"
    unfolding rect_attrs_def by (simp only: to_text.simps) (intro has_part_left has_part_self)
  then have "has_part (attr ''x'' t) (note_shape N ?n)"
    unfolding note_shape_def by (rule has_part_right[OF has_part_left])
  ultimately show ?thesis using has_part_trans unfolding has_part_def[symmetric] by blast
qed

lemma sections_total:
  \<comment> \<open>a grid throws only by the length of its missing weights\<close>
  assumes "ce_gridColWidths c \<noteq> None \<or> (\<exists>n :: nat. number_or (ce_gridCols c) 1 = of_nat n \<and> n < 2 ^ 32)"
    and "ce_gridRowHeights c \<noteq> None \<or> (\<exists>n :: nat. number_or (ce_gridRows c) 1 = of_nat n \<and> n < 2 ^ 32)"
  shows "\<exists>boxes. calcColumnSections N c = Inr boxes"
proof -
  have "\<exists>ws. weights_of w q = Inr ws" if "w \<noteq> None \<or> (\<exists>n :: nat. q = of_nat n \<and> n < 2 ^ 32)" for w q
    using that by (cases w) (auto simp: weights_of_def, metis of_int_of_nat_eq)
  from this[OF assms(1)] this[OF assms(2)] show ?thesis by (auto simp: calcColumnSections_def Let_def)
qed

section \<open>Witnesses\<close>

definition plain_note :: raw_element_row where
  "plain_note = \<lparr>rw_id = ''n'', rw_type = ''NOTE'', rw_data = WObj [(''x'', num 10), (''y'', num 20), (''color'', WStr ''red'')]\<rparr>"

definition evil_note :: raw_element_row where
  "evil_note = \<lparr>rw_id = ''n'', rw_type = ''NOTE'', rw_data = WObj [(''x'', WStr ([CHR 0x22] @ ''/><script>'')), (''y'', num 20)]\<rparr>"

definition picture_of :: "raw_element_row \<Rightarrow> preview_model" where
  "picture_of row = \<lparr>pm_notes = free_notes [as_note (normalizeElement row)], pm_grids = []\<rparr>"

lemma picture_built:
  "rw_type row = ''NOTE'' \<Longrightarrow> buildBoardPreviewModel N before [row] = Inr (picture_of row)"
  by (simp add: buildBoardPreviewModel_def Let_def notes_of_def of_kind_def normalizeElement_def sortById_def picture_of_def)

theorem preview_shapes_fit_witness:
  "\<exists>s tx ty. fit_transform demo_text 320 200 (all_rects (picture_of plain_note)) = (Fin s, Fin tx, Fin ty) \<and>
     0 \<le> s * 10 + tx \<and> s * (10 + 180) + tx \<le> 320"
proof -
  have rects: "all_rects (picture_of plain_note) = [\<lparr>bx_x = num 10, bx_y = num 20, bx_width = num 180, bx_height = num 74\<rparr>]"
    by (simp add: all_rects_def picture_of_def free_notes_def free_note_def as_note_def normalizeElement_def plain_note_def
        drawn_width_def preview_box.defs)
  have box: "numeric_box \<lparr>bx_x = num 10, bx_y = num 20, bx_width = num 180, bx_height = num 74\<rparr> 10 20 180 74"
    by (simp add: numeric_box_def)
  have "\<forall>b \<in> set (all_rects (picture_of plain_note)). \<exists>x y w h. numeric_box b x y w h" using box rects by auto
  from preview_shapes_fit[of 320 200 "picture_of plain_note" demo_text, OF _ _ this]
  obtain s tx ty where fit: "fit_transform demo_text 320 200 (all_rects (picture_of plain_note)) = (Fin s, Fin tx, Fin ty)"
    "\<forall>b \<in> set (all_rects (picture_of plain_note)). \<forall>x y w h. numeric_box b x y w h \<longrightarrow>
       0 \<le> s * x + tx \<and> s * (x + w) + tx \<le> 320 \<and> 0 \<le> s * y + ty \<and> s * (y + h) + ty \<le> 200" by auto
  have "0 \<le> s * 10 + tx \<and> s * (10 + 180) + tx \<le> 320" using fit(2) box unfolding rects by (metis list.set_intros(1))
  then show ?thesis using fit(1) by blast
qed

theorem preview_colors_from_palette_witness:
  "hd (pm_notes (picture_of plain_note)) \<in> set (pm_notes (picture_of plain_note)) \<and>
   pn_colorKey (hd (pm_notes (picture_of plain_note))) \<in> set NOTE_COLOR_KEYS"
proof -
  have "hd (pm_notes (picture_of plain_note)) \<in> set (pm_notes (picture_of plain_note))"
    by (simp add: picture_of_def free_notes_def as_note_def normalizeElement_def plain_note_def)
  moreover have "buildBoardPreviewModel demo_text (\<lambda>a b. True) [plain_note] = Inr (picture_of plain_note)"
    by (rule picture_built) (simp add: plain_note_def)
  ultimately show ?thesis using preview_colors_from_palette by blast
qed

theorem stored_text_reaches_svg_witness:
  "\<exists>r front back. render_preview demo_text (\<lambda>a b. True) [evil_note] = Inr r \<and>
     rd_svg r = front @ attr ''x'' ([CHR 0x22] @ ''/><script>'') @ back"
proof -
  obtain r where r: "render_preview demo_text (\<lambda>a b. True) [evil_note] = Inr r"
    using picture_built[of evil_note demo_text "\<lambda>a b. True"] by (simp add: render_preview_def evil_note_def)
  have "\<exists>front back. rd_svg r = front @ attr ''x'' ([CHR 0x22] @ ''/><script>'') @ back"
    by (rule stored_text_reaches_svg[of evil_note "[evil_note]"
          "[(''x'', WStr ([CHR 0x22] @ ''/><script>'')), (''y'', num 20)]", OF _ _ _ _ _ r]) (simp_all add: evil_note_def)
  then show ?thesis using r by blast
qed

end
