(* ===== verification/Board_Lifecycle.thy ===== *)
theory Board_Lifecycle
  imports Board_Access Mutation_Processor "HOL-Library.List_Lexorder" "HOL-Library.Char_ord"
begin

text \<open>
  The life of a board (\<open>boards/domain/lifecycle.ts\<close>), the copy of its elements under new ids
  (\<open>boards/board.service.utils.ts\<close>) and the batch of mutations behind \<open>PATCH elements\<close>
  (\<open>boards/utils.ts\<close>). The lemmas show that the renaming of ids can be undone, that a duplicate leaves
  the original alone and keeps containment, and what the built batch deletes and creates.
\<close>

section \<open>Renaming ids\<close>

definition REMAPPABLE_ID_KEYS :: "string list" where
  "REMAPPABLE_ID_KEYS = [''id'', ''elementId'', ''parentId'', ''sourceId'', ''targetId'', ''startElementId'',
     ''endElementId'', ''containerId'', ''containedById'', ''columnId'', ''metaColumnId'', ''gridId'', ''noteId'',
     ''arrowId'', ''shapeId'', ''textId'', ''drawingId'', ''imageId'', ''linkPreviewId'', ''childId'', ''itemId'']"

definition remappable :: "string \<Rightarrow> bool" where
  "remappable keyHint = (keyHint \<in> set REMAPPABLE_ID_KEYS \<or> js_includes (js_lower keyHint) ''id'')"

definition remap_string :: "(string \<times> string) list \<Rightarrow> string \<Rightarrow> string \<Rightarrow> string" where
  "remap_string idMap keyHint s = (case js_get s idMap of
     None \<Rightarrow> s | Some remapped \<Rightarrow> if remapped \<noteq> [] \<and> remappable keyHint then remapped else s)"

fun remapElementData :: "(string \<times> string) list \<Rightarrow> string \<Rightarrow> json \<Rightarrow> json" where
  "remapElementData idMap keyHint (JArr items) = JArr (map (remapElementData idMap keyHint) items)"
| "remapElementData idMap keyHint (JObj entries) =
     JObj (map (\<lambda>p. (fst p, remapElementData idMap (fst p) (snd p))) entries)"
| "remapElementData idMap keyHint (JStr s) = JStr (remap_string idMap keyHint s)"
| "remapElementData idMap keyHint v = v"

definition createElementIdMap :: "sql_env \<Rightarrow> element_row list \<Rightarrow> (string \<times> string) list" where
  \<comment> \<open>the first identifier of the call names the new board, the following ones its elements\<close>
  "createElementIdMap S rows = fold (\<lambda>(n, r) m. js_put (row_id r) (s_uuid S (Suc n)) m) (enumerate 0 rows) []"

definition remap_data :: "(string \<times> string) list \<Rightarrow> js_object \<Rightarrow> js_object" where
  "remap_data idMap data = (case remapElementData idMap '''' (JObj data) of JObj d \<Rightarrow> d | _ \<Rightarrow> [])"

definition buildDuplicatedElements :: "sql_env \<Rightarrow> element_row list \<Rightarrow> string \<Rightarrow> int \<Rightarrow> element_row list" where
  "buildDuplicatedElements S rows target now =
     (let idMap = createElementIdMap S rows in
      map (\<lambda>r. \<lparr>row_id = the (js_get (row_id r) idMap), row_board = target, row_type = row_type r,
        row_data = remap_data idMap (row_data r), row_updated = Some now\<rparr>) rows)"

section \<open>Boards\<close>

definition new_board :: "sql_env \<Rightarrow> string \<Rightarrow> string \<Rightarrow> board_row" where
  \<comment> \<open>the defaults of the table\<close>
  "new_board S workspaceId name = \<lparr>b_id = s_uuid S 0, b_workspace = workspaceId, b_name = name, b_commit = None,
     b_branch = Some ''main'', b_previewSvg = None, b_previewVersion = None, b_previewUpdatedAt = None,
     b_viewEnabled = False, b_viewToken = None, b_editEnabled = False, b_editToken = None,
     b_createdAt = Some (s_now S), b_updatedAt = Some (s_now S)\<rparr>"

definition createBoard :: "sql_env \<Rightarrow> string \<Rightarrow> string \<Rightarrow> tables \<Rightarrow> board_row outcome \<times> tables" where
  "createBoard S workspaceId name T =
     (if has_board T (s_uuid S 0) then (Inl (Raised (s_raise S UNIQUE_VIOLATION)), T)
      else if \<not> has_workspace T workspaceId then (Inl (Raised (s_raise S FOREIGN_KEY_VIOLATION)), T)
      else (Inr (new_board S workspaceId name), T\<lparr>t_boards := t_boards T @ [new_board S workspaceId name]\<rparr>))"

definition renameBoard :: "sql_env \<Rightarrow> string \<Rightarrow> string \<Rightarrow> tables \<Rightarrow> board_row option \<times> tables" where
  "renameBoard S boardId name T =
     (let T' = T\<lparr>t_boards := update_rows (\<lambda>b. b_id b = boardId)
        (\<lambda>b. b\<lparr>b_name := name, b_updatedAt := Some (s_now S)\<rparr>) (t_boards T)\<rparr>
      in (select_one (\<lambda>b. b_id b = boardId) (t_boards T'), T'))"

definition duplicateBoard :: "sql_env \<Rightarrow> string \<Rightarrow> tables \<Rightarrow> board_row option outcome \<times> tables" where
  "duplicateBoard S boardId T =
     (case select_one (\<lambda>b. b_id b = boardId) (t_boards T) of
        None \<Rightarrow> (Inr None, T)
      | Some source \<Rightarrow>
          (case createBoard S (b_workspace source) (b_name source @ '' (Copy)'') T of
             (Inl e, _) \<Rightarrow> (Inl e, T)
           | (Inr copy, T1) \<Rightarrow>
               (let sources = filter (\<lambda>r. row_board r = boardId) (t_elements T1);
                    duplicated = buildDuplicatedElements S sources (b_id copy) (s_now S)
                in if distinct (map row_id (t_elements T1 @ duplicated))
                   then (Inr (Some copy), T1\<lparr>t_elements := t_elements T1 @ duplicated\<rparr>)
                   else (Inl (Raised (s_raise S UNIQUE_VIOLATION)), T))))"

definition deleteBoard :: "string \<Rightarrow> tables \<Rightarrow> tables" where
  \<comment> \<open>with what the schema deletes in cascade\<close>
  "deleteBoard boardId T = T\<lparr>t_boards := delete_rows (\<lambda>b. b_id b = boardId) (t_boards T),
     t_members := delete_rows (\<lambda>m. bm_board m = boardId) (t_members T),
     t_favorites := map_option (delete_rows (\<lambda>f. fv_board f = boardId)) (t_favorites T),
     t_invitations := delete_rows (\<lambda>i. bi_board i = boardId) (t_invitations T),
     t_elements := delete_rows (\<lambda>r. row_board r = boardId) (t_elements T)\<rparr>"

section \<open>The batch of a patch\<close>

definition collectCascadeDeleteIds_sorted :: "(string \<times> board_element) list \<Rightarrow> string list \<Rightarrow> string list" where
  \<comment> \<open>the second copy of the cascade, whose answer is sorted\<close>
  "collectCascadeDeleteIds_sorted allElements requestedDeletes =
     (let pending = js_set requestedDeletes; es = map snd allElements
      in sort (cascade_loop (index_children ''containerId'' es) (index_children ''metaContainerId'' es)
           pending pending))"

definition buildElementMutationBatch :: "sql_env \<Rightarrow> string \<Rightarrow> (string \<times> board_element) list \<Rightarrow>
    board_element list \<Rightarrow> string list \<Rightarrow> mutation list" where
  "buildElementMutationBatch S boardId currentElements upserts deletes =
     (let deleteIds = collectCascadeDeleteIds_sorted currentElements deletes;
          kept = filter (\<lambda>e. el_id e \<notin> set deleteIds) upserts;
          operations = (if deleteIds \<noteq> [] then [DELETE_ELEMENTS deleteIds] else [])
            @ map (\<lambda>e. CREATE_ELEMENT (el_id e) e) kept
      in map (\<lambda>(n, op). \<lparr>mut_id = s_uuid S n, mut_board = boardId, mut_clientTimestamp = s_now S,
           mut_operation = op\<rparr>) (enumerate 0 operations))"

section \<open>Renaming can be undone\<close>

fun json_strings :: "json \<Rightarrow> string set" where
  "json_strings (JArr items) = (\<Union>v \<in> set items. json_strings v)"
| "json_strings (JObj entries) = (\<Union>p \<in> set entries. json_strings (snd p))"
| "json_strings (JStr s) = {s}"
| "json_strings v = {}"

definition renaming :: "(string \<times> string) list \<Rightarrow> bool" where
  "renaming m = (distinct (map fst m) \<and> distinct (map snd m) \<and> [] \<notin> fst ` set m \<and> [] \<notin> snd ` set m)"

lemma js_get_swap:
  assumes "renaming m"
  shows "js_get r (map prod.swap m) = Some s \<longleftrightarrow> js_get s m = Some r"
proof -
  have "js_get r (map prod.swap m) = Some s \<longleftrightarrow> (r, s) \<in> set (map prod.swap m)"
    using assms by (intro js_get_set) (simp add: renaming_def comp_def prod.swap_def)
  also have "\<dots> \<longleftrightarrow> (s, r) \<in> set m" by force
  also have "\<dots> \<longleftrightarrow> js_get s m = Some r"
    using assms by (intro js_get_set[symmetric]) (simp add: renaming_def)
  finally show ?thesis .
qed

lemma remap_string_undone:
  assumes "renaming m" "s \<notin> snd ` set m"
  shows "remap_string (map prod.swap m) h (remap_string m h s) = s"
proof (cases "js_get s m")
  case None
  have "js_get s (map prod.swap m) = None"
    using assms(2) by (force simp: js_get_None)
  then show ?thesis using None by (simp add: remap_string_def)
next
  case (Some r)
  have "js_get s (map prod.swap m) = None" using assms(2) by (force simp: js_get_None)
  moreover have "js_get r (map prod.swap m) = Some s" using js_get_swap[OF assms(1)] Some by blast
  moreover have "r \<noteq> []" "s \<noteq> []"
    using Some assms(1) by (force simp: renaming_def js_get_def dest: map_of_SomeD)+
  ultimately show ?thesis using Some by (simp add: remap_string_def)
qed

text \<open>Renaming the ids of an element's data can be undone: the inverse renaming gives the data back, for any
  injective renaming to names that do not occur in the data.\<close>

theorem remapElementData_roundtrip:
  assumes "renaming m" "json_strings v \<inter> snd ` set m = {}"
  shows "remapElementData (map prod.swap m) h (remapElementData m h v) = v"
  using assms
proof (induction m h v rule: remapElementData.induct)
  case (1 m h items)
  have "remapElementData (map prod.swap m) h (remapElementData m h v) = v" if v: "v \<in> set items" for v
  proof -
    have "json_strings v \<inter> snd ` set m = {}" using "1.prems"(2) v by auto
    then show ?thesis using "1.IH"[OF v "1.prems"(1)] by simp
  qed
  then show ?case by (simp add: comp_def map_idI)
next
  case (2 m h entries)
  have "remapElementData (map prod.swap m) (fst p) (remapElementData m (fst p) (snd p)) = snd p"
    if p: "p \<in> set entries" for p
  proof -
    have "json_strings (snd p) \<inter> snd ` set m = {}" using "2.prems"(2) p by auto
    then show ?thesis using "2.IH"[OF p "2.prems"(1)] by simp
  qed
  then show ?case by (simp add: comp_def map_idI)
next
  case (3 m h s)
  then show ?case by (simp add: remap_string_undone)
qed simp_all

theorem remapElementData_roundtrip_witness:
  "remapElementData [(''y'', ''x'')] '''' (remapElementData [(''x'', ''y'')] ''''
     (JObj [(''containerId'', JStr ''x''), (''text'', JStr ''x'')])) =
   JObj [(''containerId'', JStr ''x''), (''text'', JStr ''x'')] \<and>
   remapElementData [(''x'', ''y'')] '''' (JObj [(''containerId'', JStr ''x'')]) = JObj [(''containerId'', JStr ''y'')]"
proof -
  have "renaming [(''x'', ''y'')]" by (simp add: renaming_def)
  moreover have "json_strings (JObj [(''containerId'', JStr ''x''), (''text'', JStr ''x'')]) \<inter> snd ` set [(''x'', ''y'')] = {}"
    by simp
  ultimately have "remapElementData (map prod.swap [(''x'', ''y'')]) '''' (remapElementData [(''x'', ''y'')] ''''
     (JObj [(''containerId'', JStr ''x''), (''text'', JStr ''x'')])) =
     JObj [(''containerId'', JStr ''x''), (''text'', JStr ''x'')]"
    by (rule remapElementData_roundtrip)
  then show ?thesis by (simp add: remap_string_def remappable_def REMAPPABLE_ID_KEYS_def)
qed

section \<open>A duplicate\<close>

lemma idMap_fold:
  "js_get i (fold (\<lambda>(n, r) m. js_put (row_id r) (s_uuid S (Suc n)) m) ps m) = None \<longleftrightarrow>
     i \<notin> (row_id \<circ> snd) ` set ps \<and> js_get i m = None"
  by (induction ps arbitrary: m) (auto split: if_splits)

lemma idMap_values:
  "js_get i (fold (\<lambda>(n, r) m. js_put (row_id r) (s_uuid S (Suc n)) m) ps m) = Some v \<Longrightarrow>
     js_get i m = Some v \<or> (\<exists>n. v = s_uuid S (Suc n))"
proof (induction ps arbitrary: m)
  case (Cons p ps)
  then show ?case by (cases p) (fastforce split: if_splits)
qed simp

lemma idMap_dom: "js_get i (createElementIdMap S rows) = None \<longleftrightarrow> i \<notin> row_id ` set rows"
proof -
  have "(row_id \<circ> snd) ` set (enumerate 0 rows) = row_id ` set rows"
    using arg_cong[OF map_snd_enumerate[of 0 rows], of set] image_comp[of row_id snd "set (enumerate 0 rows)"]
    by (simp only: set_map)
  then show ?thesis by (simp add: createElementIdMap_def idMap_fold)
qed

lemma list_all2_partner:
  assumes "list_all2 P xs ys" "x \<in> set xs"
  shows "\<exists>y \<in> set ys. P x y"
  using assms by (induction rule: list_all2_induct) auto

definition copy_of :: "(string \<times> string) list \<Rightarrow> string \<Rightarrow> int \<Rightarrow> element_row \<Rightarrow> element_row \<Rightarrow> bool" where
  "copy_of m target now r d = (js_get (row_id r) m = Some (row_id d) \<and> row_board d = target \<and>
     row_type d = row_type r \<and> row_updated d = Some now \<and> row_data d = remap_data m (row_data r))"

lemma remap_data_field:
  "js_get k (remap_data m d) = map_option (remapElementData m k) (js_get k d)"
  by (induction d) (auto simp: remap_data_def)

lemma remap_reference:
  assumes "js_get k d = Some (JStr i)" "remappable k" "js_get i m = Some j" "j \<noteq> []"
  shows "js_get k (remap_data m d) = Some (JStr j)"
  using assms by (simp add: remap_data_field remap_string_def)

lemma duplicates_copy:
  "list_all2 (copy_of (createElementIdMap S rows) target now) rows (buildDuplicatedElements S rows target now)"
proof -
  have "copy_of (createElementIdMap S rows) target now r \<lparr>row_id = the (js_get (row_id r) (createElementIdMap S rows)),
      row_board = target, row_type = row_type r, row_data = remap_data (createElementIdMap S rows) (row_data r),
      row_updated = Some now\<rparr>" if "r \<in> set rows" for r
    using that idMap_dom[of "row_id r" S rows] by (auto simp: copy_of_def)
  then show ?thesis
    by (auto simp: buildDuplicatedElements_def Let_def list.rel_map intro!: list.rel_refl_strong)
qed

text \<open>Duplicating a board adds one board named after the original and one copy of each of its elements and
  changes nothing else: every element of the original has its copy under a new id, and a reference field that named
  an element of the board (a container, an arrow end) names that element's copy. When the call fails or finds no
  board, the tables are as before.\<close>

theorem duplicateBoard_copies:
  assumes uuids: "\<forall>n. s_uuid S n \<noteq> []"
  shows "case duplicateBoard S i T of
      (Inr (Some c), T') \<Rightarrow> (\<exists>source \<in> set (t_boards T). b_id source = i \<and> b_workspace c = b_workspace source \<and>
          b_name c = b_name source @ '' (Copy)'') \<and> \<not> has_board T (b_id c) \<and>
        (\<exists>m dup. T' = T\<lparr>t_boards := t_boards T @ [c], t_elements := t_elements T @ dup\<rparr> \<and>
          distinct (map row_id (t_elements T')) \<and>
          list_all2 (copy_of m (b_id c) (s_now S)) (filter (\<lambda>r. row_board r = i) (t_elements T)) dup \<and>
          (\<forall>r \<in> set (t_elements T). \<forall>q \<in> set (t_elements T). \<forall>k. row_board r = i \<and> row_board q = i \<and>
             remappable k \<and> js_get k (row_data r) = Some (JStr (row_id q)) \<longrightarrow>
             (\<exists>d \<in> set dup. \<exists>e \<in> set dup. copy_of m (b_id c) (s_now S) r d \<and> copy_of m (b_id c) (s_now S) q e \<and>
                js_get k (row_data d) = Some (JStr (row_id e)))))
    | (_, T') \<Rightarrow> T' = T"
proof (cases "\<exists>c. fst (duplicateBoard S i T) = Inr (Some c)")
  case False
  then have "snd (duplicateBoard S i T) = T"
    by (auto simp: duplicateBoard_def Let_def split: option.splits sum.splits prod.splits if_splits)
  then show ?thesis using False by (cases "duplicateBoard S i T") (auto split: sum.split option.split)
next
  case True
  let ?src = "filter (\<lambda>r. row_board r = i) (t_elements T)"
  let ?m = "createElementIdMap S ?src"
  obtain source c where found: "select_one (\<lambda>b. b_id b = i) (t_boards T) = Some source"
    and c: "c = new_board S (b_workspace source) (b_name source @ '' (Copy)'')" "\<not> has_board T (s_uuid S 0)"
    and dup: "duplicateBoard S i T = (Inr (Some c), T\<lparr>t_boards := t_boards T @ [c],
      t_elements := t_elements T @ buildDuplicatedElements S ?src (b_id c) (s_now S)\<rparr>)"
      "distinct (map row_id (t_elements T @ buildDuplicatedElements S ?src (b_id c) (s_now S)))"
    using True
    by (auto simp: duplicateBoard_def createBoard_def Let_def split: option.splits if_splits)
  let ?dup = "buildDuplicatedElements S ?src (b_id c) (s_now S)"
  let ?cp = "copy_of ?m (b_id c) (s_now S)"
  have cp: "list_all2 ?cp ?src ?dup" by (rule duplicates_copy)
  have copy: "\<exists>d \<in> set ?dup. ?cp r d" if "r \<in> set ?src" for r
    by (rule list_all2_partner[OF cp that])
  have ref: "\<exists>d \<in> set ?dup. \<exists>e \<in> set ?dup. ?cp r d \<and> ?cp q e \<and> js_get k (row_data d) = Some (JStr (row_id e))"
    if r: "r \<in> set ?src" "remappable k" "js_get k (row_data r) = Some (JStr (row_id q))" and q: "q \<in> set ?src"
    for r k q
  proof -
    obtain d where d: "d \<in> set ?dup" "?cp r d" using copy[OF r(1)] by blast
    obtain e where e: "e \<in> set ?dup" "?cp q e" using copy[OF q] by blast
    have je: "js_get (row_id q) ?m = Some (row_id e)" using e(2) by (simp add: copy_of_def)
    then obtain n where "row_id e = s_uuid S (Suc n)"
      using idMap_values[of "row_id q" S "enumerate 0 ?src" "[]"] by (auto simp: createElementIdMap_def)
    then have "row_id e \<noteq> []" using uuids by simp
    then have "js_get k (row_data d) = Some (JStr (row_id e))"
      using d(2) remap_reference[OF r(3,2) je] by (simp add: copy_of_def)
    then show ?thesis using d e by blast
  qed
  have src: "source \<in> set (t_boards T)" "b_id source = i" using select_one_Some[OF found] by auto
  have new: "b_id c = s_uuid S 0" "b_workspace c = b_workspace source" "b_name c = b_name source @ '' (Copy)''"
    by (simp_all add: c(1) new_board_def)
  show ?thesis unfolding dup(1) prod.case sum.case option.case
  proof (intro conjI exI[of _ ?m] exI[of _ ?dup] refl cp)
    show "\<exists>source \<in> set (t_boards T). b_id source = i \<and> b_workspace c = b_workspace source \<and>
        b_name c = b_name source @ '' (Copy)''" using src new by auto
    show "\<not> has_board T (b_id c)" using c(2) new by simp
    show "distinct (map row_id (t_elements (T\<lparr>t_boards := t_boards T @ [c], t_elements := t_elements T @ ?dup\<rparr>)))"
      using dup(2) by simp
  qed (use ref in auto)
qed

definition source_tables :: tables where
  "source_tables = demo_tables\<lparr>t_elements :=
     [\<lparr>row_id = ''x'', row_board = ''b'', row_type = JStr ''COLUMN'', row_data = [], row_updated = None\<rparr>,
      \<lparr>row_id = ''y'', row_board = ''b'', row_type = JStr ''NOTE'', row_data = [(''containerId'', JStr ''x'')],
       row_updated = None\<rparr>]\<rparr>"

theorem duplicateBoard_copies_witness:
  "\<exists>c T'. duplicateBoard demo_sql ''b'' source_tables = (Inr (Some c), T') \<and> length (t_elements T') = 4"
proof -
  have ids: "\<forall>n. s_uuid demo_sql n \<noteq> []" by (simp add: demo_sql_def)
  have "case duplicateBoard demo_sql ''b'' source_tables of (Inr (Some c), _) \<Rightarrow> True | _ \<Rightarrow> False"
    by code_simp
  then obtain c T' where r: "duplicateBoard demo_sql ''b'' source_tables = (Inr (Some c), T')"
    by (auto split: prod.splits sum.splits option.splits)
  obtain m dup where "T' = source_tables\<lparr>t_boards := t_boards source_tables @ [c], t_elements := t_elements source_tables @ dup\<rparr>"
    "list_all2 (copy_of m (b_id c) (s_now demo_sql)) (filter (\<lambda>r. row_board r = ''b'') (t_elements source_tables)) dup"
    using duplicateBoard_copies[OF ids, where i = "''b''" and T = source_tables] unfolding r by auto
  then have "length (t_elements T') = 4" by (auto simp: source_tables_def dest!: list_all2_lengthD)
  with r show ?thesis by blast
qed

section \<open>The batch\<close>

lemma sort_distinct_set: "distinct xs \<Longrightarrow> sort xs = sorted_list_of_set (set xs)"
  by (simp add: sorted_list_of_set_sort_remdups distinct_remdups_id)

lemma cascade_sorted:
  "collectCascadeDeleteIds_sorted els req = sort (collectCascadeDeleteIds els req)"
  by (simp add: collectCascadeDeleteIds_sorted_def collectCascadeDeleteIds_def Let_def)

text \<open>The batch of a patch first deletes the requested elements with everything they contain, directly or
  indirectly, in sorted order, then creates the upserted elements in their order, leaving out each one that the
  deletion takes; it deletes nothing when nothing was asked for, and every mutation is for the board.\<close>

theorem buildElementMutationBatch_shape:
  "let ids = (contains_rel (snd ` set els))\<^sup>* `` set deletes;
       ms = buildElementMutationBatch S b els upserts deletes
   in map mut_operation ms = (if deletes = [] then [] else [DELETE_ELEMENTS (sorted_list_of_set ids)])
        @ map (\<lambda>e. CREATE_ELEMENT (el_id e) e) (filter (\<lambda>e. el_id e \<notin> ids) upserts) \<and>
      list_all (\<lambda>m. mut_board m = b) ms \<and> map mut_id ms = map (s_uuid S) [0..<length ms]"
proof -
  let ?ids = "(contains_rel (snd ` set els))\<^sup>* `` set deletes"
  let ?d = "collectCascadeDeleteIds_sorted els deletes"
  have set: "set ?d = ?ids" by (simp add: cascade_sorted collectCascadeDeleteIds_closure)
  have sorted: "?d = sorted_list_of_set ?ids"
    using sort_distinct_set[OF collectCascadeDeleteIds_closure(1)[of els deletes]]
    by (simp add: cascade_sorted collectCascadeDeleteIds_closure)
  have empty: "?d = [] \<longleftrightarrow> deletes = []"
  proof (cases deletes)
    case Nil
    then have "set ?d = {}" using set by simp
    with Nil show ?thesis by simp
  next
    case (Cons i rest)
    then have "i \<in> set ?d" unfolding set by auto
    with Cons show ?thesis by auto
  qed
  have ops: "map mut_operation (map (\<lambda>(n, op). \<lparr>mut_id = s_uuid S n, mut_board = b, mut_clientTimestamp = s_now S,
      mut_operation = op\<rparr>) (enumerate k ops)) = ops" for k ops
    by (induction ops arbitrary: k) simp_all
  have ids: "map mut_id (map (\<lambda>(n, op). \<lparr>mut_id = s_uuid S n, mut_board = b, mut_clientTimestamp = s_now S,
      mut_operation = op\<rparr>) (enumerate k ops)) = map (s_uuid S) [k..<k + length ops]" for k ops
    by (induction ops arbitrary: k) (simp_all add: upt_rec)
  have body: "buildElementMutationBatch S b els upserts deletes = map (\<lambda>(n, op). \<lparr>mut_id = s_uuid S n,
      mut_board = b, mut_clientTimestamp = s_now S, mut_operation = op\<rparr>) (enumerate 0
        ((if deletes \<noteq> [] then [DELETE_ELEMENTS (sorted_list_of_set ?ids)] else [])
         @ map (\<lambda>e. CREATE_ELEMENT (el_id e) e) (filter (\<lambda>e. el_id e \<notin> ?ids) upserts)))"
    unfolding buildElementMutationBatch_def Let_def set empty unfolding sorted ..
  show ?thesis
    unfolding Let_def body ops ids by (auto simp: length_enumerate list_all_iff)
qed

end
