(* ===== verification/Http.thy ===== *)
theory Http
  imports Workspaces Board_Lifecycle Payloads
begin

text \<open>
  What the REST routes share: answers and the error handler (\<open>shared/http.ts\<close>, \<open>shared/errors.ts\<close>),
  the input schemas (\<open>shared/openapi/schemas.ts\<close>, \<open>boards/routes/shared.ts\<close>) and the origin check of
  \<open>app/create-app.ts\<close>. A schema is a function from the request's value to the parsed value, \<open>None\<close> when
  it does not parse; zod's tests of UUIDs and addresses and its messages are fields of \<open>http_env\<close>. An
  exception that leaves a handler is answered by \<open>errorHandler\<close>, so every route gives an answer.
\<close>

section \<open>Answers\<close>

datatype 'a answer =
    Refused int string
      \<comment> \<open>a status and \<open>{ error }\<close>\<close>
  | Answer int 'a

record http_env =
  ht_isUuid :: "string \<Rightarrow> bool"
  ht_isEmail :: "string \<Rightarrow> bool"
  ht_issue :: "string \<Rightarrow> wire \<Rightarrow> string"
    \<comment> \<open>the first issue of a schema on an input\<close>

fun resolveStatus :: "domain_error \<Rightarrow> int" where
  \<comment> \<open>no other error of the program has a \<open>status\<close>\<close>
  "resolveStatus (Raised (AppError status message)) = status"
| "resolveStatus e = 500"

fun error_message :: "domain_error \<Rightarrow> string" where
  "error_message (Thrown message) = message"
| "error_message (WorkspaceInvitationError code message) = message"
| "error_message (Raised (AppError status message)) = message"
| "error_message (Raised (DbError code cons message detail cause)) = (case message of None \<Rightarrow> [] | Some m \<Rightarrow> m)"

definition errorHandler :: "domain_error \<Rightarrow> 'a answer" where
  "errorHandler e = (if resolveStatus e \<ge> 500 then Refused (resolveStatus e) ''Internal server error''
     else Refused (resolveStatus e) (error_message e))"

definition FORBIDDEN :: "'a answer" where "FORBIDDEN = Refused 403 ''Forbidden''"

definition toRecord :: "('r \<Rightarrow> string) \<Rightarrow> 'r list \<Rightarrow> (string \<times> 'r) list" where
  "toRecord id_of rows = fold (\<lambda>r. js_put (id_of r) r) rows []"

definition parsed_or_400 :: "http_env \<Rightarrow> string \<Rightarrow> wire \<Rightarrow> 'i option \<Rightarrow> ('i \<Rightarrow> 's \<Rightarrow> 'a answer \<times> 's) \<Rightarrow> 's \<Rightarrow> 'a answer \<times> 's" where
  \<comment> \<open>\<open>parseWithSchema\<close> and \<open>sendBadRequest\<close>, or the parsed input to the rest of the handler\<close>
  "parsed_or_400 H schema input parsed handler s =
     (case parsed of None \<Rightarrow> (Refused 400 (ht_issue H schema input), s) | Some x \<Rightarrow> handler x s)"

definition settle :: "'a outcome \<times> 's \<Rightarrow> ('a \<Rightarrow> 'b answer) \<Rightarrow> 'b answer \<times> 's" where
  \<comment> \<open>a service call whose exception leaves the handler\<close>
  "settle r done = (case r of (Inl e, s) \<Rightarrow> (errorHandler e, s) | (Inr x, s) \<Rightarrow> (done x, s))"

definition found_or_404 :: "string \<Rightarrow> int \<Rightarrow> 'a option \<Rightarrow> 'a answer" where
  "found_or_404 message status x = (case x of None \<Rightarrow> Refused 404 message | Some a \<Rightarrow> Answer status a)"

definition origin_refused :: "string \<Rightarrow> string list \<Rightarrow> string option \<Rightarrow> bool" where
  \<comment> \<open>the origin check before all routers: \<open>originCheck\<close>\<close>
  "origin_refused verb allowed origin = (case origin of None \<Rightarrow> False
     | Some x \<Rightarrow> verb \<in> {''POST'', ''PUT'', ''PATCH'', ''DELETE''} \<and> x \<notin> set allowed)"

section \<open>Schemas\<close>

fun trimmed_text :: "wire \<Rightarrow> string option" where
  \<comment> \<open>\<open>z.string().trim().min(1)\<close>\<close>
  "trimmed_text (WStr s) = (if js_trim s = [] then None else Some (js_trim s))"
| "trimmed_text v = None"

fun uuid_text :: "http_env \<Rightarrow> wire \<Rightarrow> string option" where
  \<comment> \<open>\<open>z.string().trim().uuid()\<close>\<close>
  "uuid_text H (WStr s) = (if ht_isUuid H (js_trim s) then Some (js_trim s) else None)"
| "uuid_text H v = None"

fun email_text :: "http_env \<Rightarrow> wire \<Rightarrow> string option" where
  "email_text H (WStr s) = (if ht_isEmail H s then Some s else None)"
| "email_text H v = None"

fun permission_text :: "wire \<Rightarrow> string option" where
  \<comment> \<open>\<open>z.enum(['view', 'edit'])\<close>\<close>
  "permission_text (WStr s) = (if s = ''view'' \<or> s = ''edit'' then Some s else None)"
| "permission_text v = None"

fun role_text :: "wire \<Rightarrow> string option" where
  "role_text (WStr s) = (if s = ''admin'' \<or> s = ''editor'' \<or> s = ''viewer'' then Some s else None)"
| "role_text v = None"

fun optional :: "(wire \<Rightarrow> 'a option) \<Rightarrow> wire \<Rightarrow> 'a option option" where
  "optional parse WUndefined = Some None"
| "optional parse v = map_option Some (parse v)"

fun with_fields :: "wire \<Rightarrow> 'a option \<Rightarrow> 'a option" where
  \<comment> \<open>\<open>z.object({ ... })\<close> whose fields parse to \<open>x\<close>\<close>
  "with_fields (WObj entries) x = x"
| "with_fields v x = None"

definition boardAccessQuerySchema :: "wire \<Rightarrow> string option option" where
  "boardAccessQuerySchema q = with_fields q (optional trimmed_text (get_prop ''shareToken'' q))"

definition nameBodySchema :: "wire \<Rightarrow> string option" where
  \<comment> \<open>\<open>createBoardBodySchema\<close>, \<open>createWorkspaceBodySchema\<close>\<close>
  "nameBodySchema body = with_fields body (trimmed_text (get_prop ''name'' body))"

definition createWorkspaceInvitationBodySchema :: "http_env \<Rightarrow> wire \<Rightarrow> (string \<times> string option) option" where
  "createWorkspaceInvitationBodySchema H body = with_fields body
     (case (email_text H (get_prop ''email'' body), optional role_text (get_prop ''role'' body)) of
        (Some email, Some role) \<Rightarrow> Some (email, role) | _ \<Rightarrow> None)"

definition createBoardInviteBodySchema :: "http_env \<Rightarrow> wire \<Rightarrow> (string \<times> string option) option" where
  "createBoardInviteBodySchema H body = with_fields body
     (case (email_text H (get_prop ''email'' body), optional permission_text (get_prop ''permission'' body)) of
        (Some email, Some permission) \<Rightarrow> Some (email, permission) | _ \<Rightarrow> None)"

definition permissionBodySchema :: "wire \<Rightarrow> string option" where
  \<comment> \<open>\<open>updateBoardMemberPermissionBodySchema\<close>, \<open>rotateBoardLinkSharingBodySchema\<close>\<close>
  "permissionBodySchema body = with_fields body (permission_text (get_prop ''permission'' body))"

fun bool_value :: "wire \<Rightarrow> bool option" where
  "bool_value (WBool b) = Some b"
| "bool_value v = None"

definition setBoardLinkSharingBodySchema :: "wire \<Rightarrow> (bool \<times> string option) option" where
  "setBoardLinkSharingBodySchema body = with_fields body
     (case (bool_value (get_prop ''enabled'' body), optional permission_text (get_prop ''permission'' body)) of
        (Some on, Some permission) \<Rightarrow> Some (on, permission) | _ \<Rightarrow> None)"

definition upsertBoardMemberBodySchema :: "http_env \<Rightarrow> wire \<Rightarrow> (string \<times> string option) option" where
  "upsertBoardMemberBodySchema H body = with_fields body
     (case (uuid_text H (get_prop ''userId'' body), optional permission_text (get_prop ''permission'' body)) of
        (Some userId, Some permission) \<Rightarrow> Some (userId, permission) | _ \<Rightarrow> None)"

definition presenceBodySchema :: "wire \<Rightarrow> string option" where
  "presenceBodySchema body = with_fields body (trimmed_text (get_prop ''sessionId'' body))"

fun wire_items :: "wire \<Rightarrow> wire list option" where
  "wire_items (WArr items) = Some items"
| "wire_items v = None"

definition patchElementsBodySchema :: "wire \<Rightarrow> (wire list \<times> wire list \<times> string option) option" where
  "patchElementsBodySchema body = with_fields body
     (case (wire_items (get_prop ''upserts'' body), wire_items (get_prop ''deletes'' body),
        optional trimmed_text (get_prop ''sessionId'' body)) of
       (Some upserts, Some deletes, Some sessionId) \<Rightarrow>
         if upserts \<noteq> [] \<or> deletes \<noteq> [] then Some (upserts, deletes, sessionId) else None
     | _ \<Rightarrow> None)"

definition mutationsBodySchema :: "wire \<Rightarrow> (wire list \<times> string option) option" where
  "mutationsBodySchema body = with_fields body
     (case (wire_items (get_prop ''mutations'' body), optional trimmed_text (get_prop ''sessionId'' body)) of
       (Some mutations, Some sessionId) \<Rightarrow>
         if mutations \<noteq> [] \<and> length mutations \<le> 100 \<and> list_all isMutation mutations
         then Some (mutations, sessionId) else None
     | _ \<Rightarrow> None)"

definition edit_or_view :: "string option \<Rightarrow> string" where
  "edit_or_view permission = (if permission = Some ''edit'' then ''edit'' else ''view'')"

section \<open>Lemmas\<close>

lemma parsed_or_400_cases [case_names bad ok]:
  assumes "parsed = None \<Longrightarrow> P (Refused 400 (ht_issue H schema input), s)"
    and "\<And>x. parsed = Some x \<Longrightarrow> P (handler x s)"
  shows "P (parsed_or_400 H schema input parsed handler s)"
  using assms by (simp add: parsed_or_400_def split: option.split)

lemma parsed_state:
  "snd (parsed_or_400 H schema input parsed handler s) = (case parsed of None \<Rightarrow> s | Some x \<Rightarrow> snd (handler x s))"
  by (simp add: parsed_or_400_def split: option.split)

lemma settle_state [simp]: "snd (settle r done) = snd r"
  by (simp add: settle_def split: prod.split sum.split)

lemma toRecord_get:
  "js_get i (toRecord id_of rows) = map_of (map (\<lambda>r. (id_of r, r)) (rev rows)) i"
proof -
  have "js_get i (fold (\<lambda>r. js_put (id_of r) r) rows m) =
      (case map_of (map (\<lambda>r. (id_of r, r)) (rev rows)) i of None \<Rightarrow> js_get i m | Some r \<Rightarrow> Some r)" for m
    by (induction rows arbitrary: m) (auto split: option.split simp: map_add_def)
  then show ?thesis by (simp add: toRecord_def split: option.split)
qed

end
