(* ===== verification/Workspace_Routes.thy ===== *)
theory Workspace_Routes
  imports Http Users
begin

text \<open>
  The REST routes of workspaces and users (\<open>workspaces/routes.ts\<close>, \<open>users/routes.ts\<close>) over the services
  of \<open>Workspaces\<close> and \<open>Users\<close>; \<open>u\<close> is the user the authentication middleware named. A route is a
  function of the tables; the invitation route takes what other requests do meanwhile (\<open>race1\<close>, \<open>race2\<close>)
  as the service does. The lemmas show who can change what through these routes.
\<close>

section \<open>Routes\<close>

definition is_owner_or_admin :: "string option \<Rightarrow> bool" where
  "is_owner_or_admin role = (role = Some ''owner'' \<or> role = Some ''admin'')"

definition list_workspaces_route :: "string \<Rightarrow> tables \<Rightarrow> (string \<times> workspace_row \<times> string) list answer" where
  "list_workspaces_route u T = Answer 200 (toRecord (\<lambda>(w, role). ws_id w) (getWorkspacesForUser T u))"

definition create_workspace_route :: "http_env \<Rightarrow> sql_env \<Rightarrow> string \<Rightarrow> wire \<Rightarrow> tables \<Rightarrow> workspace_row answer \<times> tables" where
  "create_workspace_route H S u body =
     parsed_or_400 H ''CreateWorkspaceBody'' body (nameBodySchema body) (\<lambda>name T.
       settle (createWorkspace S name u T) (Answer 201))"

definition for_admins :: "string \<Rightarrow> string \<Rightarrow> (tables \<Rightarrow> 'a answer \<times> tables) \<Rightarrow> tables \<Rightarrow> 'a answer \<times> tables" where
  \<comment> \<open>the role check of four routes\<close>
  "for_admins wid u handler T =
     (if is_owner_or_admin (getWorkspaceMemberRole T wid u) then handler T else (FORBIDDEN, T))"

definition rename_workspace_route ::
    "http_env \<Rightarrow> sql_env \<Rightarrow> string \<Rightarrow> wire \<Rightarrow> wire \<Rightarrow> tables \<Rightarrow> workspace_row answer \<times> tables" where
  "rename_workspace_route H S u wid body =
     parsed_or_400 H ''wid'' wid (uuid_text H wid) (\<lambda>wid.
     parsed_or_400 H ''CreateWorkspaceBody'' body (nameBodySchema body) (\<lambda>name.
     for_admins wid u (\<lambda>T. case renameWorkspace S wid name T of
       (w, T) \<Rightarrow> (found_or_404 ''Workspace not found'' 200 w, T))))"

definition workspace_members_route ::
    "http_env \<Rightarrow> string \<Rightarrow> wire \<Rightarrow> tables \<Rightarrow> (string \<times> workspace_member_row \<times> user_row) list answer \<times> tables" where
  "workspace_members_route H u wid =
     parsed_or_400 H ''wid'' wid (uuid_text H wid) (\<lambda>wid T.
       if \<not> isWorkspaceMember T wid u then (FORBIDDEN, T)
       else (Answer 200 (toRecord (\<lambda>(m, user). wm_id m) (getWorkspaceMembers T wid)), T))"

definition remove_workspace_member_route ::
    "http_env \<Rightarrow> string \<Rightarrow> wire \<Rightarrow> wire \<Rightarrow> tables \<Rightarrow> unit answer \<times> tables" where
  "remove_workspace_member_route H u wid memberId =
     parsed_or_400 H ''wid'' wid (uuid_text H wid) (\<lambda>wid.
     parsed_or_400 H ''memberId'' memberId (uuid_text H memberId) (\<lambda>memberId.
     for_admins wid u (\<lambda>T. case deleteWorkspaceMember wid memberId T of
       (removed, T) \<Rightarrow> (if removed then Answer 204 () else Refused 404 ''Member not found'', T))))"

definition workspace_invitations_route ::
    "http_env \<Rightarrow> string \<Rightarrow> wire \<Rightarrow> tables \<Rightarrow> (string \<times> workspace_invitation_row \<times> string \<times> string) list answer \<times> tables" where
  "workspace_invitations_route H u wid =
     parsed_or_400 H ''wid'' wid (uuid_text H wid) (\<lambda>wid.
     for_admins wid u (\<lambda>T. (Answer 200 (toRecord (\<lambda>(i, name, email). wi_id i) (getWorkspaceInvitations T wid)), T)))"

definition create_invitation_route :: "http_env \<Rightarrow> sql_env \<Rightarrow> (tables \<Rightarrow> tables) \<Rightarrow> (tables \<Rightarrow> tables) \<Rightarrow> string \<Rightarrow>
    wire \<Rightarrow> wire \<Rightarrow> tables \<Rightarrow> workspace_invitation_row answer \<times> tables" where
  "create_invitation_route H S race1 race2 u wid body =
     parsed_or_400 H ''wid'' wid (uuid_text H wid) (\<lambda>wid.
     parsed_or_400 H ''CreateWorkspaceInvitationBody'' body (createWorkspaceInvitationBodySchema H body) (\<lambda>(email, role).
     for_admins wid u (\<lambda>T.
       settle (createInvitation S race1 race2 wid email (case role of None \<Rightarrow> ''viewer'' | Some r \<Rightarrow> r) u T) (Answer 201))))"

definition get_invitation_route ::
    "http_env \<Rightarrow> wire \<Rightarrow> tables \<Rightarrow> (workspace_invitation_row \<times> string \<times> string \<times> string) answer \<times> tables" where
  \<comment> \<open>without authentication\<close>
  "get_invitation_route H token =
     parsed_or_400 H ''token'' token (trimmed_text token) (\<lambda>token T.
       (found_or_404 ''Invitation not found'' 200 (getInvitation T token), T))"

fun accept_failure :: "domain_error \<Rightarrow> 'a answer" where
  "accept_failure (WorkspaceInvitationError code message) =
     (if code = ''wrong_user'' then Refused 403 ''Invitation is for a different email address''
      else if code = ''not_found'' then Refused 404 ''Invitation not found''
      else if code = ''expired_or_used'' then Refused 410 ''Invitation expired or already used''
      else Refused 404 ''Invitation not found or already used'')"
| "accept_failure e = Refused 404 ''Invitation not found or already used''"

definition accept_invitation_route ::
    "http_env \<Rightarrow> sql_env \<Rightarrow> string \<Rightarrow> wire \<Rightarrow> tables \<Rightarrow> workspace_row option answer \<times> tables" where
  "accept_invitation_route H S u token =
     parsed_or_400 H ''token'' token (trimmed_text token) (\<lambda>token T.
       case acceptInvitation S token u T of
         (Inl e, T) \<Rightarrow> (accept_failure e, T) | (Inr workspace, T) \<Rightarrow> (Answer 200 workspace, T))"

definition me_route :: "string \<Rightarrow> tables \<Rightarrow> user_row answer" where
  "me_route u T = found_or_404 ''User not found'' 200 (getUserById T u)"

datatype workspace_call =
    CreateCall wire
  | RenameCall wire wire
  | MembersCall wire
  | RemoveCall wire wire
  | InvitationsCall wire
  | InviteCall wire wire
  | ShowCall wire
  | AcceptCall wire

fun workspace_effect :: "http_env \<Rightarrow> sql_env \<Rightarrow> string \<Rightarrow> workspace_call \<Rightarrow> tables \<Rightarrow> tables" where
  \<comment> \<open>what a request of \<open>u\<close> leaves in the tables\<close>
  "workspace_effect H S u (CreateCall body) T = snd (create_workspace_route H S u body T)"
| "workspace_effect H S u (RenameCall wid body) T = snd (rename_workspace_route H S u wid body T)"
| "workspace_effect H S u (MembersCall wid) T = snd (workspace_members_route H u wid T)"
| "workspace_effect H S u (RemoveCall wid memberId) T = snd (remove_workspace_member_route H u wid memberId T)"
| "workspace_effect H S u (InvitationsCall wid) T = snd (workspace_invitations_route H u wid T)"
| "workspace_effect H S u (InviteCall wid body) T = snd (create_invitation_route H S id id u wid body T)"
| "workspace_effect H S u (ShowCall token) T = snd (get_invitation_route H token T)"
| "workspace_effect H S u (AcceptCall token) T = snd (accept_invitation_route H S u token T)"

section \<open>Who may\<close>

definition has_role :: "tables \<Rightarrow> string \<Rightarrow> string \<Rightarrow> string set \<Rightarrow> bool" where
  "has_role T wid u roles = (\<exists>m \<in> set (t_ws_members T). wm_workspace m = wid \<and> wm_user m = u \<and> wm_role m \<in> roles)"

lemma role_has: "getWorkspaceMemberRole T wid u = Some r \<Longrightarrow> r \<in> roles \<Longrightarrow> has_role T wid u roles"
  by (auto simp: getWorkspaceMemberRole_def has_role_def ws_member_key_def dest!: select_one_Some)

lemma owner_or_admin_has: "is_owner_or_admin (getWorkspaceMemberRole T wid u) \<Longrightarrow> has_role T wid u {''owner'', ''admin''}"
  by (auto simp: is_owner_or_admin_def intro: role_has)

lemma for_admins_state:
  "snd (for_admins wid u handler T) = (if is_owner_or_admin (getWorkspaceMemberRole T wid u) then snd (handler T) else T)"
  by (simp add: for_admins_def)

fun invited_user :: "sql_env \<Rightarrow> string \<Rightarrow> string option \<Rightarrow> tables \<Rightarrow> bool" where
  \<comment> \<open>a pending invitation with the token, not expired, addressed to the user\<close>
  "invited_user S u None T = False"
| "invited_user S u (Some token) T = (\<exists>i \<in> set (t_ws_invitations T). \<exists>v \<in> set (t_users T). us_id v = u \<and>
     wi_token i = token \<and> wi_emailLower i = normalizeEmail (us_email v) \<and>
     (\<exists>j \<in> set (t_ws_invitations T). wi_id j = wi_id i \<and> wi_status j = ''pending'' \<and> s_now S < wi_expiresAt j))"

fun workspace_allowed :: "http_env \<Rightarrow> sql_env \<Rightarrow> string \<Rightarrow> workspace_call \<Rightarrow> tables \<Rightarrow> bool" where
  "workspace_allowed H S u (CreateCall body) T = (nameBodySchema body \<noteq> None)"
| "workspace_allowed H S u (RenameCall wid body) T = (\<exists>w. uuid_text H wid = Some w \<and> has_role T w u {''owner'', ''admin''})"
| "workspace_allowed H S u (RemoveCall wid memberId) T =
     (\<exists>w i. uuid_text H wid = Some w \<and> uuid_text H memberId = Some i \<and> has_role T w u {''owner'', ''admin''} \<and>
        (\<exists>m \<in> set (t_ws_members T). wm_id m = i \<and> wm_workspace m = w \<and> wm_role m \<noteq> ''owner''))"
| "workspace_allowed H S u (InviteCall wid body) T =
     (\<exists>w. uuid_text H wid = Some w \<and> has_role T w u {''owner'', ''admin''})"
| "workspace_allowed H S u (AcceptCall token) T = invited_user S u (trimmed_text token) T"
| "workspace_allowed H S u call T = False"

lemma accept_changes:
  assumes "snd (acceptInvitation S token u T) \<noteq> T"
  shows "invited_user S u (Some token) T"
proof -
  obtain v where v: "select_one (\<lambda>x. us_id x = u) (t_users T) = Some v"
    using assms by (auto simp: acceptInvitation_def split: option.splits)
  moreover obtain i where i: "select_one (\<lambda>i. wi_token i = token) (t_ws_invitations T) = Some i"
    using assms v by (auto simp: acceptInvitation_def split: option.splits if_splits)
  moreover have "wi_emailLower i = normalizeEmail (us_email v)"
    using assms v i by (auto simp: acceptInvitation_def split: if_splits)
  moreover have "filter (\<lambda>j. wi_id j = wi_id i \<and> wi_status j = ''pending'' \<and> s_now S < wi_expiresAt j) (t_ws_invitations T) \<noteq> []"
    using assms v i by (auto simp: acceptInvitation_def update_ws_invitations_def Let_def split: if_splits)
  ultimately show ?thesis using select_one_Some[OF v] select_one_Some[OF i] by (auto simp: filter_empty_conv)
qed

lemma remove_changes:
  assumes "snd (deleteWorkspaceMember w i T) \<noteq> T"
  shows "\<exists>m \<in> set (t_ws_members T). wm_id m = i \<and> wm_workspace m = w \<and> wm_role m \<noteq> ''owner''"
  using assms by (auto simp: deleteWorkspaceMember_def split: option.splits if_splits dest!: select_one_Some)

lemmas workspace_routes = create_workspace_route_def rename_workspace_route_def workspace_members_route_def
  remove_workspace_member_route_def workspace_invitations_route_def create_invitation_route_def get_invitation_route_def
  accept_invitation_route_def

lemma case_sum_state: "snd (case x of Inl e \<Rightarrow> (f e, t) | Inr w \<Rightarrow> (g w, t)) = t"
  by (simp split: sum.split)

lemmas workspace_states = workspace_routes parsed_state for_admins_state case_sum_state split_beta

lemma workspace_effect_op:
  "workspace_effect H S u call T = T \<or> (\<exists>op. workspace_effect H S u call T = workspace_step S op T)"
proof (cases call)
  case (CreateCall body)
  then show ?thesis by (auto simp: workspace_states split: option.split intro: exI[of _ "Create _ _"])
next
  case (RenameCall wid body)
  then show ?thesis by (auto simp: workspace_states split: option.split intro: exI[of _ "Rename _ _"])
next
  case (RemoveCall wid memberId)
  then show ?thesis by (auto simp: workspace_states split: option.split intro: exI[of _ "Remove _ _"])
next
  case (InviteCall wid body)
  then show ?thesis by (auto simp: workspace_states split: option.split intro: exI[of _ "Invite _ _ _ _"])
next
  case (AcceptCall token)
  then show ?thesis by (auto simp: workspace_states split: option.split intro: exI[of _ "Accept _ _"])
qed (simp_all add: workspace_states split: option.split)

text \<open>A request changes the workspaces only if its user may: renaming and inviting take an owner or admin of that
  workspace, so does removing a member, and the member must be of that workspace and not its owner; accepting takes a
  pending, unexpired invitation to the user's own address.\<close>

theorem workspace_routes_authorised:
  assumes "workspace_effect H S u call T \<noteq> T"
  shows "workspace_allowed H S u call T"
proof (cases call)
  case (CreateCall body)
  then show ?thesis using assms by (simp add: workspace_states split: option.splits)
next
  case (RenameCall wid body)
  then show ?thesis using assms
    by (simp add: workspace_states owner_or_admin_has split: option.splits if_splits)
next
  case (RemoveCall wid memberId)
  then show ?thesis using assms
    by (simp add: workspace_states owner_or_admin_has remove_changes split: option.splits if_splits)
next
  case (InviteCall wid body)
  then show ?thesis using assms
    by (simp add: workspace_states owner_or_admin_has split: option.splits if_splits)
next
  case (AcceptCall token)
  then obtain t where "trimmed_text token = Some t" "snd (acceptInvitation S t u T) \<noteq> T"
    using assms by (auto simp: workspace_states split: option.splits)
  then show ?thesis using AcceptCall accept_changes[of S t u T] by simp
qed (use assms in \<open>simp_all add: workspace_states split: option.splits if_splits\<close>)

definition demo_http :: http_env where
  "demo_http = \<lparr>ht_isUuid = (\<lambda>s. s \<noteq> []), ht_isEmail = (\<lambda>s. s \<noteq> []), ht_issue = (\<lambda>schema input. ''invalid'')\<rparr>"

definition rename_body :: wire where
  "rename_body = WObj [(''name'', WStr ''team 2'')]"

theorem workspace_routes_authorised_witness:
  "workspace_effect demo_http demo_sql ''u'' (RenameCall (WStr ''w'') rename_body) owned_tables \<noteq> owned_tables \<and>
   has_role owned_tables ''w'' ''u'' {''owner'', ''admin''}"
proof -
  have trim: "js_trim ''team 2'' = ''team 2''" "js_trim ''w'' = ''w''" by code_simp+
  have "workspace_effect demo_http demo_sql ''u'' (RenameCall (WStr ''w'') rename_body) owned_tables \<noteq> owned_tables"
    by (simp add: workspace_states rename_body_def nameBodySchema_def trim demo_http_def is_owner_or_admin_def
        getWorkspaceMemberRole_def ws_member_key_def select_one_def renameWorkspace_def Let_def update_rows_def
        owned_tables_def demo_tables_def)
  from this workspace_routes_authorised[OF this] show ?thesis by (auto simp: trim demo_http_def)
qed

text \<open>Whatever requests whatever users send to the workspace routes, in whatever order, every workspace keeps
  exactly one owner.\<close>

theorem workspace_routes_keep_owner:
  assumes "one_owner T" "ws_references_ok T"
  shows "one_owner (fold (\<lambda>(S, u, call). workspace_effect H S u call) calls T)"
proof -
  have "one_owner (fold (\<lambda>(S, u, call). workspace_effect H S u call) calls T) \<and>
      ws_references_ok (fold (\<lambda>(S, u, call). workspace_effect H S u call) calls T)"
    using assms
  proof (induction calls arbitrary: T)
    case (Cons p calls)
    obtain S u call where p: "p = (S, u, call)" by (cases p) auto
    have "one_owner (workspace_effect H S u call T) \<and> ws_references_ok (workspace_effect H S u call T)"
      using workspace_effect_op[of H S u call T] workspace_step_keeps[OF Cons.prems] Cons.prems by metis
    then show ?case using Cons.IH p by simp
  qed simp
  then show ?thesis ..
qed

theorem workspace_routes_keep_owner_witness:
  "one_owner (workspace_effect demo_http demo_sql ''u'' (RemoveCall (WStr ''w'') (WStr ''n'')) owned_tables)"
proof -
  have "one_owner owned_tables" "ws_references_ok owned_tables"
    by (simp_all add: owned_tables_def demo_tables_def one_owner_def owners_def ws_references_ok_def has_workspace_def)
  from workspace_routes_keep_owner[OF this, of demo_http "[(demo_sql, ''u'', RemoveCall (WStr ''w'') (WStr ''n''))]"]
  show ?thesis by simp
qed

end
