(* ===== verification/Board_Routes.thy ===== *)
theory Board_Routes
  imports Workspace_Routes
begin

text \<open>
  The REST routes of boards that work on the tables (\<open>boards/routes/management.routes.ts\<close>,
  \<open>members.routes.ts\<close>, \<open>invitations.routes.ts\<close>, \<open>link-sharing.routes.ts\<close>): who may create, rename,
  duplicate, delete and share boards. \<open>u\<close> is the user the authentication middleware named. The lemmas
  show which caller and which rows a request can touch.
\<close>

section \<open>Guards\<close>

definition getWorkspaceRoleForBoard :: "sql_env \<Rightarrow> tables \<Rightarrow> string \<Rightarrow> string \<Rightarrow> string option outcome" where
  "getWorkspaceRoleForBoard S T boardId u = (case getBoard S T boardId None of
     Inl e \<Rightarrow> Inl e
   | Inr None \<Rightarrow> Inr None
   | Inr (Some board) \<Rightarrow> Inr (getWorkspaceMemberRole T (b_workspace (cb_board board)) u))"

definition for_role :: "sql_env \<Rightarrow> string \<Rightarrow> (string option \<Rightarrow> bool) \<Rightarrow> string \<Rightarrow> (tables \<Rightarrow> 'a answer \<times> tables) \<Rightarrow>
    tables \<Rightarrow> 'a answer \<times> tables" where
  \<comment> \<open>the role check of a board's route\<close>
  "for_role S u allowed boardId handler T = (case getWorkspaceRoleForBoard S T boardId u of
     Inl e \<Rightarrow> (errorHandler e, T) | Inr role \<Rightarrow> if allowed role then handler T else (FORBIDDEN, T))"

definition with_access :: "sql_env \<Rightarrow> string option \<Rightarrow> string option \<Rightarrow> (access \<Rightarrow> bool) \<Rightarrow> 'a answer \<Rightarrow> string \<Rightarrow>
    tables \<Rightarrow> 'a answer + access" where
  \<comment> \<open>\<open>requireBoardAccess\<close> and the refusal that follows it\<close>
  "with_access S u shareToken enough refusal boardId T = (case checkBoardAccess S T boardId u shareToken of
     Inl e \<Rightarrow> Inl (errorHandler e) | Inr found \<Rightarrow> if enough found then Inr found else Inl refusal)"

section \<open>Boards\<close>

definition workspace_boards_route :: "http_env \<Rightarrow> sql_env \<Rightarrow> string \<Rightarrow> wire \<Rightarrow> tables \<Rightarrow>
    (string \<times> catalog_board) list answer \<times> tables" where
  "workspace_boards_route H S u wid =
     parsed_or_400 H ''wid'' wid (uuid_text H wid) (\<lambda>wid T.
       if \<not> isWorkspaceMember T wid u then (FORBIDDEN, T)
       else settle (getBoardsForWorkspace S T wid u, T) (\<lambda>bs. Answer 200 (toRecord (\<lambda>b. b_id (cb_board b)) bs)))"

definition list_boards_route :: "sql_env \<Rightarrow> string \<Rightarrow> tables \<Rightarrow> (string \<times> accessible_board) list answer \<times> tables" where
  "list_boards_route S u T =
     settle (listAccessibleBoards S T u, T) (\<lambda>bs. Answer 200 (toRecord (\<lambda>b. b_id (cb_board b)) bs))"

definition create_board_route :: "http_env \<Rightarrow> sql_env \<Rightarrow> string \<Rightarrow> wire \<Rightarrow> wire \<Rightarrow> tables \<Rightarrow> board_row answer \<times> tables" where
  "create_board_route H S u wid body =
     parsed_or_400 H ''wid'' wid (uuid_text H wid) (\<lambda>wid.
     parsed_or_400 H ''CreateBoardBody'' body (nameBodySchema body) (\<lambda>name T.
       if canCreateBoards (getWorkspaceMemberRole T wid u) then settle (createBoard S wid name T) (Answer 201)
       else (FORBIDDEN, T)))"

definition rename_board_route :: "http_env \<Rightarrow> sql_env \<Rightarrow> string \<Rightarrow> wire \<Rightarrow> wire \<Rightarrow> tables \<Rightarrow> board_row answer \<times> tables" where
  "rename_board_route H S u boardId body =
     parsed_or_400 H ''id'' boardId (uuid_text H boardId) (\<lambda>boardId.
     parsed_or_400 H ''CreateBoardBody'' body (nameBodySchema body) (\<lambda>name.
     for_role S u canCreateBoards boardId (\<lambda>T. case renameBoard S boardId name T of
       (board, T) \<Rightarrow> (found_or_404 ''Board not found'' 200 board, T))))"

definition duplicate_board_route :: "http_env \<Rightarrow> sql_env \<Rightarrow> string \<Rightarrow> wire \<Rightarrow> tables \<Rightarrow> board_row answer \<times> tables" where
  "duplicate_board_route H S u boardId =
     parsed_or_400 H ''id'' boardId (uuid_text H boardId) (\<lambda>boardId.
     for_role S u canCreateBoards boardId (\<lambda>T.
       settle (duplicateBoard S boardId T) (found_or_404 ''Board not found'' 201)))"

definition delete_board_route :: "http_env \<Rightarrow> sql_env \<Rightarrow> string \<Rightarrow> wire \<Rightarrow> tables \<Rightarrow> string answer \<times> tables" where
  \<comment> \<open>answers with the board whose Redis state the handler then evicts\<close>
  "delete_board_route H S u boardId =
     parsed_or_400 H ''id'' boardId (uuid_text H boardId) (\<lambda>boardId.
     for_role S u canDeleteBoards boardId (\<lambda>T. (Answer 204 boardId, deleteBoard boardId T)))"

definition favorite_route :: "http_env \<Rightarrow> sql_env \<Rightarrow> string \<Rightarrow> bool \<Rightarrow> wire \<Rightarrow> tables \<Rightarrow> catalog_board answer \<times> tables" where
  \<comment> \<open>\<open>PUT\<close> and \<open>DELETE\<close>\<close>
  "favorite_route H S u on boardId =
     parsed_or_400 H ''id'' boardId (uuid_text H boardId) (\<lambda>boardId T.
       case with_access S (Some u) None ac_hasAccess FORBIDDEN boardId T of
         Inl refusal \<Rightarrow> (refusal, T)
       | Inr _ \<Rightarrow> settle (setBoardFavorite S boardId u on T)
           (\<lambda>board. case board of None \<Rightarrow> FORBIDDEN | Some b \<Rightarrow> Answer 200 b))"

definition leave_board_route :: "http_env \<Rightarrow> sql_env \<Rightarrow> string \<Rightarrow> wire \<Rightarrow> tables \<Rightarrow> unit answer \<times> tables" where
  "leave_board_route H S u boardId =
     parsed_or_400 H ''id'' boardId (uuid_text H boardId) (\<lambda>boardId T.
       case getWorkspaceRoleForBoard S T boardId u of
         Inl e \<Rightarrow> (errorHandler e, T)
       | Inr role \<Rightarrow> if truthy role
           then (Refused 400 ''Workspace members cannot leave board access via this endpoint'', T)
           else (Answer 204 (), leaveBoard boardId u T))"

section \<open>Members\<close>

definition board_members_route :: "http_env \<Rightarrow> sql_env \<Rightarrow> string \<Rightarrow> wire \<Rightarrow> tables \<Rightarrow>
    (string \<times> board_member_row) list answer \<times> tables" where
  "board_members_route H S u boardId =
     parsed_or_400 H ''id'' boardId (uuid_text H boardId) (\<lambda>boardId.
     for_role S u canManageBoardAccess boardId (\<lambda>T. (Answer 200 (toRecord bm_id (getBoardMembers T boardId)), T)))"

definition add_member_route :: "http_env \<Rightarrow> sql_env \<Rightarrow> string \<Rightarrow> wire \<Rightarrow> wire \<Rightarrow> tables \<Rightarrow>
    board_member_row option answer \<times> tables" where
  "add_member_route H S u boardId body =
     parsed_or_400 H ''id'' boardId (uuid_text H boardId) (\<lambda>boardId.
     parsed_or_400 H ''UpsertBoardMemberBody'' body (upsertBoardMemberBodySchema H body) (\<lambda>(userId, permission).
     for_role S u canManageBoardAccess boardId (\<lambda>T.
       settle (upsertBoardMember S boardId userId (edit_or_view permission) (Some u) T) (Answer 201))))"

definition change_member_route :: "http_env \<Rightarrow> sql_env \<Rightarrow> string \<Rightarrow> wire \<Rightarrow> wire \<Rightarrow> wire \<Rightarrow> tables \<Rightarrow> unit answer \<times> tables" where
  "change_member_route H S u boardId memberId body =
     parsed_or_400 H ''id'' boardId (uuid_text H boardId) (\<lambda>boardId.
     parsed_or_400 H ''memberId'' memberId (uuid_text H memberId) (\<lambda>memberId.
     for_role S u canManageBoardAccess boardId
       (parsed_or_400 H ''UpdateBoardMemberPermissionBody'' body (permissionBodySchema body) (\<lambda>permission T.
         settle (updateBoardMemberPermission S boardId memberId permission T) (Answer 204)))))"

definition remove_member_route :: "http_env \<Rightarrow> sql_env \<Rightarrow> string \<Rightarrow> wire \<Rightarrow> wire \<Rightarrow> tables \<Rightarrow> unit answer \<times> tables" where
  "remove_member_route H S u boardId memberId =
     parsed_or_400 H ''id'' boardId (uuid_text H boardId) (\<lambda>boardId.
     parsed_or_400 H ''memberId'' memberId (uuid_text H memberId) (\<lambda>memberId.
     for_role S u canManageBoardAccess boardId (\<lambda>T. (Answer 204 (), deleteBoardMember boardId memberId T))))"

section \<open>Invitations\<close>

definition invite_route :: "http_env \<Rightarrow> sql_env \<Rightarrow> (tables \<Rightarrow> tables) \<Rightarrow> (tables \<Rightarrow> tables) \<Rightarrow> string \<Rightarrow> wire \<Rightarrow> wire \<Rightarrow>
    tables \<Rightarrow> invite_ref answer \<times> tables" where
  "invite_route H S race1 race2 u boardId body =
     parsed_or_400 H ''id'' boardId (uuid_text H boardId) (\<lambda>boardId.
     parsed_or_400 H ''CreateBoardInviteBody'' body (createBoardInviteBodySchema H body) (\<lambda>(email, permission).
     for_role S u canManageBoardAccess boardId (\<lambda>T.
       settle (createBoardInvitation S race1 race2 boardId u email (edit_or_view permission) T) (Answer 201))))"

definition no_content_or_404 :: "unit outcome \<times> tables \<Rightarrow> unit answer \<times> tables" where
  \<comment> \<open>the \<open>try\<close> of two routes: every error is answered with its message\<close>
  "no_content_or_404 r = (case r of (Inl e, T) \<Rightarrow> (Refused 404 (error_message e), T) | (Inr x, T) \<Rightarrow> (Answer 204 (), T))"

definition accept_invite_route :: "http_env \<Rightarrow> sql_env \<Rightarrow> string \<Rightarrow> wire \<Rightarrow> tables \<Rightarrow> unit answer \<times> tables" where
  "accept_invite_route H S u token =
     parsed_or_400 H ''token'' token (trimmed_text token) (\<lambda>token T.
       no_content_or_404 (acceptBoardInvitationByToken S token u T))"

definition decline_invite_route :: "http_env \<Rightarrow> sql_env \<Rightarrow> string \<Rightarrow> wire \<Rightarrow> tables \<Rightarrow> unit answer \<times> tables" where
  "decline_invite_route H S u token =
     parsed_or_400 H ''token'' token (trimmed_text token) (\<lambda>token T.
       no_content_or_404 (declinePendingInvitationByToken S token u T))"

definition pending_invites_route :: "sql_env \<Rightarrow> string \<Rightarrow> tables \<Rightarrow> pending_invite list answer \<times> tables" where
  "pending_invites_route S u T = settle (listPendingInvitesForUser S T u, T) (Answer 200)"

definition revoke_invite_route :: "http_env \<Rightarrow> sql_env \<Rightarrow> string \<Rightarrow> wire \<Rightarrow> wire \<Rightarrow> tables \<Rightarrow> unit answer \<times> tables" where
  "revoke_invite_route H S u boardId inviteId =
     parsed_or_400 H ''id'' boardId (uuid_text H boardId) (\<lambda>boardId.
     parsed_or_400 H ''inviteId'' inviteId (uuid_text H inviteId) (\<lambda>inviteId.
     for_role S u canManageBoardAccess boardId (\<lambda>T. settle (revokeBoardInvitation S boardId inviteId T) (Answer 204))))"

section \<open>Link sharing\<close>

definition link_sharing_route :: "http_env \<Rightarrow> sql_env \<Rightarrow> string \<Rightarrow> wire \<Rightarrow> wire \<Rightarrow> tables \<Rightarrow> link_share answer \<times> tables" where
  "link_sharing_route H S u boardId body =
     parsed_or_400 H ''id'' boardId (uuid_text H boardId) (\<lambda>boardId.
     parsed_or_400 H ''SetBoardLinkSharingBody'' body (setBoardLinkSharingBodySchema body) (\<lambda>(on, permission).
     for_role S u canManageBoardAccess boardId (\<lambda>T.
       settle (setBoardLinkShare S boardId (edit_or_view permission) on T) (found_or_404 ''Board not found'' 200))))"

definition rotate_link_route :: "http_env \<Rightarrow> sql_env \<Rightarrow> string \<Rightarrow> wire \<Rightarrow> wire \<Rightarrow> tables \<Rightarrow> link_share answer \<times> tables" where
  "rotate_link_route H S u boardId body =
     parsed_or_400 H ''id'' boardId (uuid_text H boardId) (\<lambda>boardId.
     parsed_or_400 H ''RotateBoardLinkSharingBody'' body (permissionBodySchema body) (\<lambda>permission.
     for_role S u canManageBoardAccess boardId (\<lambda>T.
       settle (rotateBoardLinkShareToken S boardId permission T) (found_or_404 ''Board not found'' 200))))"

definition shared_route :: "http_env \<Rightarrow> wire \<Rightarrow> tables \<Rightarrow> (string \<times> string) answer \<times> tables" where
  \<comment> \<open>\<open>GET /shared/:token\<close>, without authentication\<close>
  "shared_route H token =
     parsed_or_400 H ''token'' token (trimmed_text token) (\<lambda>token T.
       (found_or_404 ''Share link not found or expired'' 200 (getShareByToken T token), T))"

section \<open>Requests\<close>

datatype board_call =
    CreateBoard wire wire
  | RenameBoard wire wire
  | DuplicateBoard wire
  | DeleteBoard wire
  | Favorite bool wire
  | LeaveBoard wire
  | AddMember wire wire
  | ChangeMember wire wire wire
  | RemoveMember wire wire
  | InviteToBoard wire wire
  | AcceptInvite wire
  | DeclineInvite wire
  | RevokeInvite wire wire
  | LinkSharing wire wire
  | RotateLink wire wire

fun board_effect :: "http_env \<Rightarrow> sql_env \<Rightarrow> string \<Rightarrow> board_call \<Rightarrow> tables \<Rightarrow> tables" where
  \<comment> \<open>what a request of \<open>u\<close> leaves in the tables\<close>
  "board_effect H S u (CreateBoard wid body) T = snd (create_board_route H S u wid body T)"
| "board_effect H S u (RenameBoard b body) T = snd (rename_board_route H S u b body T)"
| "board_effect H S u (DuplicateBoard b) T = snd (duplicate_board_route H S u b T)"
| "board_effect H S u (DeleteBoard b) T = snd (delete_board_route H S u b T)"
| "board_effect H S u (Favorite on b) T = snd (favorite_route H S u on b T)"
| "board_effect H S u (LeaveBoard b) T = snd (leave_board_route H S u b T)"
| "board_effect H S u (AddMember b body) T = snd (add_member_route H S u b body T)"
| "board_effect H S u (ChangeMember b m body) T = snd (change_member_route H S u b m body T)"
| "board_effect H S u (RemoveMember b m) T = snd (remove_member_route H S u b m T)"
| "board_effect H S u (InviteToBoard b body) T = snd (invite_route H S id id u b body T)"
| "board_effect H S u (AcceptInvite token) T = snd (accept_invite_route H S u token T)"
| "board_effect H S u (DeclineInvite token) T = snd (decline_invite_route H S u token T)"
| "board_effect H S u (RevokeInvite b i) T = snd (revoke_invite_route H S u b i T)"
| "board_effect H S u (LinkSharing b body) T = snd (link_sharing_route H S u b body T)"
| "board_effect H S u (RotateLink b body) T = snd (rotate_link_route H S u b body T)"

section \<open>Who may, and what stays\<close>

definition board_role :: "tables \<Rightarrow> string \<Rightarrow> string \<Rightarrow> string set \<Rightarrow> bool" where
  "board_role T b u roles = (\<exists>r \<in> set (t_boards T). b_id r = b \<and> has_role T (b_workspace r) u roles)"

fun named_board :: "http_env \<Rightarrow> board_call \<Rightarrow> string option" where
  \<comment> \<open>the board a request names\<close>
  "named_board H (RenameBoard b body) = uuid_text H b"
| "named_board H (DuplicateBoard b) = uuid_text H b"
| "named_board H (DeleteBoard b) = uuid_text H b"
| "named_board H (Favorite on b) = uuid_text H b"
| "named_board H (LeaveBoard b) = uuid_text H b"
| "named_board H (AddMember b body) = uuid_text H b"
| "named_board H (ChangeMember b m body) = uuid_text H b"
| "named_board H (RemoveMember b m) = uuid_text H b"
| "named_board H (InviteToBoard b body) = uuid_text H b"
| "named_board H (RevokeInvite b i) = uuid_text H b"
| "named_board H (LinkSharing b body) = uuid_text H b"
| "named_board H (RotateLink b body) = uuid_text H b"
| "named_board H call = None"

definition invited_board :: "string \<Rightarrow> wire \<Rightarrow> (board_invitation_row \<Rightarrow> bool) \<Rightarrow> tables \<Rightarrow> string option" where
  \<comment> \<open>the board of the invitation with this token to the address of \<open>u\<close>\<close>
  "invited_board u token open_to T = (case (getUserEmail T u, trimmed_text token) of
     (Inr email, Some t) \<Rightarrow> map_option bi_board (select_one (\<lambda>i. bi_token i = t \<and>
       bi_emailLower i = normalizeEmail email \<and> open_to i) (t_invitations T))
   | _ \<Rightarrow> None)"

fun changed_board :: "http_env \<Rightarrow> sql_env \<Rightarrow> string \<Rightarrow> tables \<Rightarrow> board_call \<Rightarrow> string option" where
  \<comment> \<open>the board whose rows a request may change: for a new board its id, for an answer the board of the invitation\<close>
  "changed_board H S u T (CreateBoard wid body) = Some (s_uuid S 0)"
| "changed_board H S u T (DuplicateBoard b) = Some (s_uuid S 0)"
| "changed_board H S u T (AcceptInvite token) = invited_board u token (\<lambda>i. True) T"
| "changed_board H S u T (DeclineInvite token) = invited_board u token (\<lambda>i. bi_status i = INVITATION_STATUS_PENDING) T"
| "changed_board H S u T call = named_board H call"

definition invited_to_board :: "string \<Rightarrow> string \<Rightarrow> tables \<Rightarrow> bool" where
  "invited_to_board u token T = (\<exists>v \<in> set (t_users T). us_id v = u \<and>
     ((\<exists>i \<in> set (t_invitations T). bi_token i = token \<and> bi_emailLower i = normalizeEmail (us_email v)) \<or>
      (\<exists>i \<in> set (t_ws_invitations T). wi_token i = token \<and> wi_emailLower i = normalizeEmail (us_email v))))"

fun board_allowed :: "http_env \<Rightarrow> sql_env \<Rightarrow> string \<Rightarrow> board_call \<Rightarrow> tables \<Rightarrow> bool" where
  "board_allowed H S u (CreateBoard wid body) T =
     (\<exists>w. uuid_text H wid = Some w \<and> has_role T w u {''owner'', ''admin'', ''editor''})"
| "board_allowed H S u (RenameBoard b body) T = board_role T (the (uuid_text H b)) u {''owner'', ''admin'', ''editor''}"
| "board_allowed H S u (DuplicateBoard b) T = board_role T (the (uuid_text H b)) u {''owner'', ''admin'', ''editor''}"
| "board_allowed H S u (Favorite on b) T =
     (\<exists>a. checkBoardAccess S T (the (uuid_text H b)) (Some u) None = Inr a \<and> ac_hasAccess a)"
| "board_allowed H S u (LeaveBoard b) T =
     (\<exists>m \<in> set (t_members T). bm_board m = the (uuid_text H b) \<and> bm_user m = u)"
| "board_allowed H S u (AcceptInvite token) T = invited_to_board u (the (trimmed_text token)) T"
| "board_allowed H S u (DeclineInvite token) T = invited_to_board u (the (trimmed_text token)) T"
| "board_allowed H S u call T = board_role T (the (named_board H call)) u {''owner'', ''admin''}"

definition other_rows :: "string \<Rightarrow> tables \<Rightarrow> tables" where
  \<comment> \<open>the tables without the rows of one board\<close>
  "other_rows b T = T\<lparr>t_boards := filter (\<lambda>r. b_id r \<noteq> b) (t_boards T),
     t_members := filter (\<lambda>m. bm_board m \<noteq> b) (t_members T),
     t_favorites := map_option (filter (\<lambda>f. fv_board f \<noteq> b)) (t_favorites T),
     t_invitations := filter (\<lambda>i. bi_board i \<noteq> b) (t_invitations T),
     t_elements := filter (\<lambda>r. row_board r \<noteq> b) (t_elements T)\<rparr>"

lemma role_on_board:
  assumes "getWorkspaceRoleForBoard S T b u = Inr (Some r)" "r \<in> roles"
  shows "board_role T b u roles"
  using assms role_has[of T _ u r roles]
  by (auto simp: getWorkspaceRoleForBoard_def getBoard_def board_role_def split: option.splits dest!: select_one_Some)

lemma for_role_state:
  "snd (for_role S u allowed b handler T) = (case getWorkspaceRoleForBoard S T b u of
     Inl e \<Rightarrow> T | Inr role \<Rightarrow> if allowed role then snd (handler T) else T)"
  by (simp add: for_role_def split: sum.split)

lemma for_role_changes:
  assumes "snd (for_role S u allowed b handler T) \<noteq> T" "\<And>role. allowed role \<Longrightarrow> \<exists>r \<in> roles. role = Some r"
  shows "board_role T b u roles \<and> snd (for_role S u allowed b handler T) = snd (handler T)"
  using assms role_on_board[of S T b u _ roles] by (fastforce simp: for_role_state split: sum.splits if_splits)

lemma role_predicates:
  "canCreateBoards role \<Longrightarrow> \<exists>r \<in> {''owner'', ''admin'', ''editor''}. role = Some r"
  "canManageBoardAccess role \<Longrightarrow> \<exists>r \<in> {''owner'', ''admin''}. role = Some r"
  "canDeleteBoards role \<Longrightarrow> \<exists>r \<in> {''owner'', ''admin''}. role = Some r"
  by (auto simp: canCreateBoards_def canManageBoardAccess_def canDeleteBoards_def)

lemma filter_update_rows:
  assumes "\<And>r. P r \<Longrightarrow> Q r = False" "\<And>r. P r \<Longrightarrow> Q (f r) = False"
  shows "filter Q (update_rows P f rows) = filter Q rows"
  using assms by (induction rows) (auto simp: update_rows_def)

lemma filter_delete_rows:
  assumes "\<And>r. P r \<Longrightarrow> Q r = False"
  shows "filter Q (delete_rows P rows) = filter Q rows"
  using assms by (induction rows) (auto simp: delete_rows_def)

lemma other_rowsI:
  "filter (\<lambda>r. b_id r \<noteq> b) bs = filter (\<lambda>r. b_id r \<noteq> b) (t_boards T) \<Longrightarrow>
    other_rows b (T\<lparr>t_boards := bs\<rparr>) = other_rows b T"
  "filter (\<lambda>m. bm_board m \<noteq> b) ms = filter (\<lambda>m. bm_board m \<noteq> b) (t_members T) \<Longrightarrow>
    other_rows b (T\<lparr>t_members := ms\<rparr>) = other_rows b T"
  "map_option (filter (\<lambda>f. fv_board f \<noteq> b)) fs = map_option (filter (\<lambda>f. fv_board f \<noteq> b)) (t_favorites T) \<Longrightarrow>
    other_rows b (T\<lparr>t_favorites := fs\<rparr>) = other_rows b T"
  "filter (\<lambda>i. bi_board i \<noteq> b) vs = filter (\<lambda>i. bi_board i \<noteq> b) (t_invitations T) \<Longrightarrow>
    other_rows b (T\<lparr>t_invitations := vs\<rparr>) = other_rows b T"
  "filter (\<lambda>r. row_board r \<noteq> b) es = filter (\<lambda>r. row_board r \<noteq> b) (t_elements T) \<Longrightarrow>
    other_rows b (T\<lparr>t_elements := es\<rparr>) = other_rows b T"
  by (simp_all add: other_rows_def)

lemmas row_filters = other_rowsI filter_update_rows filter_delete_rows

lemma update_board_elsewhere:
  "(\<And>r. b_id (patch r) = b_id r) \<Longrightarrow> other_rows b (snd (update_board S b patch T)) = other_rows b T"
  by (auto simp: update_board_def Let_def intro!: row_filters)

lemma boards_elsewhere:
  "other_rows b (snd (renameBoard S b name T)) = other_rows b T"
  "other_rows b (deleteBoard b T) = other_rows b T"
  "other_rows b (snd (setBoardLinkShare S b p on T)) = other_rows b T"
  "other_rows b (snd (rotateBoardLinkShareToken S b p T)) = other_rows b T"
proof -
  show "other_rows b (snd (renameBoard S b name T)) = other_rows b T"
    by (auto simp: renameBoard_def Let_def intro!: row_filters)
  show "other_rows b (deleteBoard b T) = other_rows b T"
    by (cases "t_favorites T") (simp_all add: deleteBoard_def other_rows_def delete_rows_def)
  show "other_rows b (snd (setBoardLinkShare S b p on T)) = other_rows b T"
    using update_board_elsewhere[of "link_share_patch S p on" b S T]
    by (auto simp: setBoardLinkShare_def link_share_patch_def Let_def split: prod.split sum.split)
  show "other_rows b (snd (rotateBoardLinkShareToken S b p T)) = other_rows b T"
    using update_board_elsewhere[of "rotate_patch S p" b S T]
    by (auto simp: rotateBoardLinkShareToken_def rotate_patch_def split: prod.split sum.split)
qed

lemma create_elsewhere: "other_rows (s_uuid S 0) (snd (createBoard S w name T)) = other_rows (s_uuid S 0) T"
  by (simp add: createBoard_def new_board_def other_rows_def)

lemma duplicates_on: "filter (\<lambda>r. row_board r \<noteq> b) (buildDuplicatedElements S rows b now) = []"
  by (auto simp: buildDuplicatedElements_def Let_def filter_empty_conv)

lemma duplicate_elsewhere: "other_rows (s_uuid S 0) (snd (duplicateBoard S b T)) = other_rows (s_uuid S 0) T"
proof (cases "snd (duplicateBoard S b T) = T")
  case False
  then obtain w n where c: "createBoard S w n T = (Inr (new_board S w n), T\<lparr>t_boards := t_boards T @ [new_board S w n]\<rparr>)"
      "snd (duplicateBoard S b T) = T\<lparr>t_boards := t_boards T @ [new_board S w n],
         t_elements := t_elements T @ buildDuplicatedElements S (filter (\<lambda>r. row_board r = b) (t_elements T))
           (b_id (new_board S w n)) (s_now S)\<rparr>"
    by (auto simp: duplicateBoard_def createBoard_def Let_def split: option.splits if_splits)
  then show ?thesis by (simp add: other_rows_def new_board_def duplicates_on)
qed simp

lemma favorite_elsewhere: "other_rows b (snd (setBoardFavorite S b u on T)) = other_rows b T"
proof -
  have "filter (\<lambda>f. fv_board f \<noteq> b) (write_favorite S b u on rows) = filter (\<lambda>f. fv_board f \<noteq> b) rows" for rows
    by (auto simp: write_favorite_def Let_def intro!: filter_update_rows filter_delete_rows)
  then have "favorite_statement S b u on T = Inr T' \<Longrightarrow> other_rows b T' = other_rows b T" for T'
    by (auto simp: favorite_statement_def favorite_rows_def split: option.splits if_splits intro!: other_rowsI)
  then show ?thesis by (auto simp: setBoardFavorite_def split: sum.split domain_error.split)
qed

lemma upsert_elsewhere:
  "upsert_member S (new_member S b u p by_user) up T = Inr T' \<Longrightarrow> (\<And>m. bm_board (up m) = bm_board m) \<Longrightarrow>
   other_rows b T' = other_rows b T"
  by (auto simp: upsert_member_def member_key_def new_member_def Let_def split: if_splits intro!: row_filters)

lemma members_elsewhere:
  "other_rows b (leaveBoard b u T) = other_rows b T"
  "other_rows b (deleteBoardMember b m T) = other_rows b T"
  "other_rows b (snd (updateBoardMemberPermission S b m p T)) = other_rows b T"
  "other_rows b (snd (upsertBoardMember S b u' p by_user T)) = other_rows b T"
proof -
  show "other_rows b (leaveBoard b u T) = other_rows b T" "other_rows b (deleteBoardMember b m T) = other_rows b T"
    by (auto simp: leaveBoard_def deleteBoardMember_def member_key_def intro!: row_filters)
  show "other_rows b (snd (updateBoardMemberPermission S b m p T)) = other_rows b T"
    by (auto simp: updateBoardMemberPermission_def Let_def intro!: row_filters)
  show "other_rows b (snd (upsertBoardMember S b u' p by_user T)) = other_rows b T"
    using upsert_elsewhere by (auto simp: upsertBoardMember_def split: sum.split)
qed

lemma update_invitations_elsewhere:
  "(\<And>i. hit i \<Longrightarrow> bi_board i = b) \<Longrightarrow> other_rows b (snd (update_invitations S hit st T)) = other_rows b T"
  by (auto simp: update_invitations_def Let_def intro!: row_filters)

lemma unit_result_state [simp]: "snd (unit_result r) = snd r"
  by (simp add: unit_result_def split: prod.split sum.split)

lemma invitations_elsewhere:
  "other_rows b (snd (revokeBoardInvitation S b i T)) = other_rows b T"
  "other_rows b (snd (createBoardInvitation S id id b by_user email p T)) = other_rows b T"
proof -
  show "other_rows b (snd (revokeBoardInvitation S b i T)) = other_rows b T"
    unfolding revokeBoardInvitation_def unit_result_state by (rule update_invitations_elsewhere) simp
  have "insert_invitation S (new_invitation S b by_user e p) T = Inr T' \<Longrightarrow> other_rows b T' = other_rows b T" for e T'
    by (auto simp: insert_invitation_def new_invitation_def split: if_splits intro!: other_rowsI)
  then show "other_rows b (snd (createBoardInvitation S id id b by_user email p T)) = other_rows b T"
    by (auto simp: createBoardInvitation_def Let_def split: option.split sum.split domain_error.split)
qed

lemmas elsewhere = boards_elsewhere create_elsewhere duplicate_elsewhere favorite_elsewhere members_elsewhere
  invitations_elsewhere

lemmas board_routes = create_board_route_def rename_board_route_def duplicate_board_route_def delete_board_route_def
  favorite_route_def leave_board_route_def add_member_route_def change_member_route_def remove_member_route_def
  invite_route_def accept_invite_route_def decline_invite_route_def revoke_invite_route_def link_sharing_route_def
  rotate_link_route_def

lemma no_content_state [simp]: "snd (no_content_or_404 r) = snd r"
  by (simp add: no_content_or_404_def split: prod.split sum.split)

lemma invited_email:
  assumes "getUserEmail T u = Inr email"
  shows "\<exists>v \<in> set (t_users T). us_id v = u \<and> us_email v = email"
  using assms by (auto simp: getUserEmail_def split: option.splits if_splits dest!: select_one_Some)

lemma accept_invite_changes:
  assumes "snd (acceptBoardInvitationByToken S token u T) \<noteq> T"
  shows "invited_to_board u token T"
proof -
  obtain email where e: "getUserEmail T u = Inr email"
    using assms by (auto simp: acceptBoardInvitationByToken_def split: sum.splits)
  obtain i where i: "select_one (\<lambda>i. bi_token i = token \<and> bi_emailLower i = normalizeEmail email) (t_invitations T) = Some i"
    using assms e by (auto simp: acceptBoardInvitationByToken_def Let_def split: option.splits)
  show ?thesis using invited_email[OF e] select_one_Some[OF i] unfolding invited_to_board_def by blast
qed

lemma same_invitation:
  assumes "distinct (map bi_id (t_invitations T))" "select_one P (t_invitations T) = Some i"
  shows "j \<in> set (t_invitations T) \<Longrightarrow> bi_id j = bi_id i \<Longrightarrow> bi_board j = bi_board i"
  using assms(1) select_one_Some[OF assms(2)] by (metis distinct_map inj_onD)

lemma respond_elsewhere:
  assumes "distinct (map bi_id (t_invitations T))" "select_one P (t_invitations T) = Some i"
  shows "other_rows (bi_board i) (snd (update_invitations S (\<lambda>j. bi_id j = bi_id i \<and> Q j) st T)) = other_rows (bi_board i) T"
proof -
  have "update_rows (\<lambda>j. bi_id j = bi_id i \<and> Q j) f rows = update_rows (\<lambda>j. bi_board j = bi_board i \<and> bi_id j = bi_id i \<and> Q j) f rows"
    if "set rows \<subseteq> set (t_invitations T)" for rows and f :: "board_invitation_row \<Rightarrow> board_invitation_row"
    using that same_invitation[OF assms] by (induction rows) (auto simp: update_rows_def)
  then have "snd (update_invitations S (\<lambda>j. bi_id j = bi_id i \<and> Q j) st T) =
      snd (update_invitations S (\<lambda>j. bi_board j = bi_board i \<and> bi_id j = bi_id i \<and> Q j) st T)"
    by (simp add: update_invitations_def Let_def)
  then show ?thesis by (simp only:) (rule update_invitations_elsewhere, simp)
qed

lemma accept_elsewhere:
  assumes "distinct (map bi_id (t_invitations T))" "getUserEmail T u = Inr email"
    and i: "select_one (\<lambda>i. bi_token i = token \<and> bi_emailLower i = normalizeEmail email) (t_invitations T) = Some i"
  shows "other_rows (bi_board i) (snd (acceptBoardInvitationByToken S token u T)) = other_rows (bi_board i) T"
proof -
  let ?upd = "update_invitations S (\<lambda>j. bi_id j = bi_id i \<and> bi_status j = INVITATION_STATUS_PENDING \<and> s_now S < bi_expiresAt j)
      INVITATION_STATUS_ACCEPTED T"
  obtain r T1 where u: "?upd = (r, T1)" by (cases ?upd)
  have "other_rows (bi_board i) T1 = other_rows (bi_board i) T"
    using respond_elsewhere[OF assms(1) i, where S = S and Q = "\<lambda>j. bi_status j = INVITATION_STATUS_PENDING \<and> s_now S < bi_expiresAt j"
        and st = INVITATION_STATUS_ACCEPTED] unfolding u by simp
  then show ?thesis
    using upsert_elsewhere[of S "bi_board i" u "bi_permission i" "Some (bi_invitedBy i)" _ T1]
    by (auto simp: acceptBoardInvitationByToken_def assms(2) Let_def i u split: sum.splits)
qed

lemma decline_elsewhere:
  assumes "distinct (map bi_id (t_invitations T))" "getUserEmail T u = Inr email"
  shows "case select_one (\<lambda>i. bi_token i = token \<and> bi_emailLower i = normalizeEmail email \<and>
      bi_status i = INVITATION_STATUS_PENDING) (t_invitations T) of
    Some i \<Rightarrow> other_rows (bi_board i) (snd (declinePendingInvitationByToken S token u T)) = other_rows (bi_board i) T
  | None \<Rightarrow> snd (declinePendingInvitationByToken S token u T) =
      T\<lparr>t_ws_invitations := t_ws_invitations (snd (declinePendingInvitationByToken S token u T))\<rparr>"
proof (cases "select_one (\<lambda>i. bi_token i = token \<and> bi_emailLower i = normalizeEmail email \<and>
      bi_status i = INVITATION_STATUS_PENDING) (t_invitations T)")
  case None
  then show ?thesis
    by (auto simp: declinePendingInvitationByToken_def assms(2) Let_def update_ws_invitations_def split: option.split sum.split)
next
  case (Some i)
  then show ?thesis
    using respond_elsewhere[OF assms(1) Some, where S = S and Q = "\<lambda>j. bi_status j = INVITATION_STATUS_PENDING" and st = INVITATION_STATUS_REVOKED]
    by (auto simp: declinePendingInvitationByToken_def assms(2) Let_def split: sum.split prod.split)
qed

lemma decline_invite_changes:
  assumes "snd (declinePendingInvitationByToken S token u T) \<noteq> T"
  shows "invited_to_board u token T"
proof -
  obtain email where e: "getUserEmail T u = Inr email"
    using assms by (auto simp: declinePendingInvitationByToken_def split: sum.splits)
  have "(\<exists>i \<in> set (t_invitations T). bi_token i = token \<and> bi_emailLower i = normalizeEmail email) \<or>
      (\<exists>i \<in> set (t_ws_invitations T). wi_token i = token \<and> wi_emailLower i = normalizeEmail email)"
    using assms e
    by (auto simp: declinePendingInvitationByToken_def Let_def split: option.splits dest!: select_one_Some)
  then show ?thesis using invited_email[OF e] unfolding invited_to_board_def by blast
qed

lemmas role_changes = for_role_changes[where allowed = canCreateBoards, OF _ role_predicates(1)]
  for_role_changes[where allowed = canManageBoardAccess, OF _ role_predicates(2)]
  for_role_changes[where allowed = canDeleteBoards, OF _ role_predicates(3)]

lemma leave_changes: "leaveBoard b u T \<noteq> T \<Longrightarrow> \<exists>m \<in> set (t_members T). bm_board m = b \<and> bm_user m = u"
  by (rule ccontr) (auto simp: leaveBoard_def delete_rows_def member_key_def filter_id_conv)

text \<open>C12: A request to the routes of boards, members, invitations and links changes boards only if its user may:
  creating, renaming and duplicating take an editor of the workspace, deleting, sharing and managing members an owner
  or admin of it, a favourite takes access to the board, leaving is for members of the board themselves, and an
  invitation is answered by the address it went to. And it changes rows of one board only: the one it names, the new
  one, or the one the invitation is for; answering an invitation to a workspace changes no board. (The batch of
  mutations is not one of these requests.)\<close>

theorem board_routes_authorised:
  assumes "board_effect H S u call T \<noteq> T" "distinct (map bi_id (t_invitations T))"
  shows "board_allowed H S u call T \<and> (case changed_board H S u T call of
      Some b \<Rightarrow> other_rows b (board_effect H S u call T) = other_rows b T
    | None \<Rightarrow> board_effect H S u call T = T\<lparr>t_ws_invitations := t_ws_invitations (board_effect H S u call T)\<rparr>)"
proof (cases call)
  case (CreateBoard wid body)
  obtain w name where w: "uuid_text H wid = Some w" "canCreateBoards (getWorkspaceMemberRole T w u)"
      "board_effect H S u call T = snd (createBoard S w name T)"
    using assms(1) CreateBoard by (auto simp: board_routes parsed_state split: option.splits if_splits)
  obtain r where "getWorkspaceMemberRole T w u = Some r" "r \<in> {''owner'', ''admin'', ''editor''}"
    using role_predicates(1)[OF w(2)] by blast
  then show ?thesis using role_has w CreateBoard create_elsewhere[of S w name T] by auto
next
  case (Favorite on b)
  then show ?thesis using assms(1)
    by (auto simp: board_routes parsed_state with_access_def elsewhere split: option.splits sum.splits if_splits)
next
  case (LeaveBoard b)
  then show ?thesis using assms(1)
    by (auto simp: board_routes parsed_state elsewhere leave_changes split: option.splits sum.splits if_splits)
next
  case (AcceptInvite token)
  obtain t where t: "trimmed_text token = Some t" "board_effect H S u call T = snd (acceptBoardInvitationByToken S t u T)"
    using assms(1) AcceptInvite by (auto simp: board_routes parsed_state split: option.splits)
  obtain email i where i: "getUserEmail T u = Inr email"
      "select_one (\<lambda>i. bi_token i = t \<and> bi_emailLower i = normalizeEmail email) (t_invitations T) = Some i"
    using assms(1) t(2) by (auto simp: acceptBoardInvitationByToken_def Let_def split: sum.splits option.splits)
  show ?thesis
    using accept_invite_changes[of S t u T] assms(1) t accept_elsewhere[OF assms(2) i, of S]
    by (simp add: AcceptInvite invited_board_def i)
next
  case (DeclineInvite token)
  obtain t where t: "trimmed_text token = Some t" "board_effect H S u call T = snd (declinePendingInvitationByToken S t u T)"
    using assms(1) DeclineInvite by (auto simp: board_routes parsed_state split: option.splits)
  obtain email where e: "getUserEmail T u = Inr email"
    using assms(1) t(2) by (auto simp: declinePendingInvitationByToken_def split: sum.splits)
  show ?thesis
    using decline_invite_changes[of S t u T] assms(1) t decline_elsewhere[OF assms(2) e, where S = S and token = t]
    by (simp add: DeclineInvite invited_board_def e split: option.splits)
qed (use assms(1) in \<open>auto simp: board_routes parsed_state split_beta elsewhere split: option.splits dest!: role_changes\<close>)

theorem board_routes_authorised_witness:
  "board_effect demo_http demo_sql ''u'' (RenameBoard (WStr ''b'') rename_body) owned_tables \<noteq> owned_tables \<and>
   board_role owned_tables ''b'' ''u'' {''owner'', ''admin'', ''editor''}"
proof -
  have trim: "js_trim ''team 2'' = ''team 2''" "js_trim ''b'' = ''b''" by code_simp+
  have "board_effect demo_http demo_sql ''u'' (RenameBoard (WStr ''b'') rename_body) owned_tables \<noteq> owned_tables"
    by (simp add: board_routes parsed_state rename_body_def nameBodySchema_def trim demo_http_def for_role_state
        getWorkspaceRoleForBoard_def getBoard_def canCreateBoards_def getWorkspaceMemberRole_def ws_member_key_def
        select_one_def renameBoard_def Let_def update_rows_def owned_tables_def demo_tables_def demo_board_def)
  moreover have "distinct (map bi_id (t_invitations owned_tables))" by (simp add: owned_tables_def demo_tables_def)
  ultimately show ?thesis using board_routes_authorised[of demo_http demo_sql "''u''" "RenameBoard (WStr ''b'') rename_body" owned_tables]
    by (simp add: trim demo_http_def)
qed

end
