(* ===== verification/Live_Routes.thy ===== *)
theory Live_Routes
  imports Board_Routes Mutation_Batch
begin

text \<open>
  The REST routes of boards that work on the live state (\<open>boards/routes/access.routes.ts\<close>,
  \<open>mutations.routes.ts\<close>): reading a board, presence, patches and batches of mutations. \<open>u\<close> is the user
  the optional authentication found, if any; access is decided on the tables, the rest happens in the
  world of the collaboration core. A value is the answer with the world, \<open>None\<close> when a wait never ends.
  The lemmas show that a refused request leaves the world alone, that a patch stays on its board, and
  that a batch of mutations does not: it goes to the boards its mutations name.
\<close>

record 'w live =
  lv_world :: 'w
  lv_mutated :: "string list"
    \<comment> \<open>the \<open>BOARD_MUTATED\<close> events emitted\<close>

type_synonym ('a, 'w) live_route = "'w live \<Rightarrow> ('a answer \<times> 'w live) option"

definition run :: "('w \<Rightarrow> ('a \<times> 'w) option) \<Rightarrow> 'w live \<Rightarrow> ('a \<times> 'w live) option" where
  "run f s = map_option (\<lambda>(a, w). (a, s\<lparr>lv_world := w\<rparr>)) (f (lv_world s))"

definition run_unit :: "('w \<Rightarrow> 'w option) \<Rightarrow> 'w live \<Rightarrow> 'w live option" where
  "run_unit f s = map_option (\<lambda>w. s\<lparr>lv_world := w\<rparr>) (f (lv_world s))"

definition anonymousActorId :: "string option \<Rightarrow> string option \<Rightarrow> string" where
  "anonymousActorId u sessionId = (case u of Some i \<Rightarrow> i
     | None \<Rightarrow> ''anonymous:'' @ (case sessionId of None \<Rightarrow> ''unknown'' | Some s \<Rightarrow> s))"

definition board_request :: "http_env \<Rightarrow> sql_env \<Rightarrow> tables \<Rightarrow> string option \<Rightarrow> wire \<Rightarrow> wire \<Rightarrow> string \<Rightarrow> wire \<Rightarrow> 'i option \<Rightarrow>
    (access \<Rightarrow> bool) \<Rightarrow> 'a answer \<Rightarrow> (string \<Rightarrow> 'i \<Rightarrow> access \<Rightarrow> ('a, 'w) live_route) \<Rightarrow> ('a, 'w) live_route" where
  \<comment> \<open>the beginning all handlers share: parameters, query and body, then the access check\<close>
  "board_request H S T u boardId query schema input parsed enough refusal handler s =
     (case uuid_text H boardId of None \<Rightarrow> Some (Refused 400 (ht_issue H ''id'' boardId), s)
      | Some b \<Rightarrow> (case boardAccessQuerySchema query of None \<Rightarrow> Some (Refused 400 (ht_issue H ''BoardAccessQuery'' query), s)
        | Some shareToken \<Rightarrow> (case parsed of None \<Rightarrow> Some (Refused 400 (ht_issue H schema input), s)
          | Some x \<Rightarrow> (case with_access S u shareToken enough refusal b T of
              Inl reply \<Rightarrow> Some (reply, s) | Inr found \<Rightarrow> handler b x found s))))"

definition may_edit_found :: "access \<Rightarrow> bool" where
  "may_edit_found found = (ac_hasAccess found \<and> ac_permission found = Some ''edit'')"

section \<open>Reading and presence\<close>

definition get_board_route :: "http_env \<Rightarrow> sql_env \<Rightarrow> tables \<Rightarrow> string option \<Rightarrow> wire \<Rightarrow> wire \<Rightarrow>
    (catalog_board \<times> string option, 'w) live_route" where
  "get_board_route H S T u boardId query =
     board_request H S T u boardId query ''id'' boardId (Some ()) ac_hasAccess FORBIDDEN (\<lambda>b _ found s.
       Some (case getBoard S T b u of
           Inl e \<Rightarrow> errorHandler e
         | Inr None \<Rightarrow> Refused 404 ''Board not found''
         | Inr (Some board) \<Rightarrow> Answer 200 (board, ac_permission found), s))"

definition get_elements_route :: "http_env \<Rightarrow> sql_env \<Rightarrow> tables \<Rightarrow> 'w env \<Rightarrow> string option \<Rightarrow> wire \<Rightarrow> wire \<Rightarrow>
    ((string \<times> board_element) list \<times> int, 'w) live_route" where
  "get_elements_route H S T E u boardId query =
     board_request H S T u boardId query ''id'' boardId (Some ()) ac_hasAccess FORBIDDEN (\<lambda>b _ found s. do {
       (loaded, s) \<leftarrow> run (loadBoard E b) s;
       (case loaded of Inl e \<Rightarrow> Some (errorHandler (Raised e), s)
        | Inr _ \<Rightarrow> do {
            (elements, s) \<leftarrow> run (getElements E b) s;
            (lastSequence, s) \<leftarrow> run (peekSequence E b) s;
            Some (Answer 200 (elements, lastSequence), s) })
     })"

definition active_users_route :: "http_env \<Rightarrow> sql_env \<Rightarrow> tables \<Rightarrow> 'w env \<Rightarrow> string option \<Rightarrow> wire \<Rightarrow> wire \<Rightarrow>
    (nat, 'w) live_route" where
  "active_users_route H S T E u boardId query =
     board_request H S T u boardId query ''id'' boardId (Some ()) ac_hasAccess FORBIDDEN (\<lambda>b _ found s. do {
       (count, s) \<leftarrow> run (getActiveViewerCount E b) s;
       Some (Answer 200 count, s) })"

definition touch_presence_route :: "http_env \<Rightarrow> sql_env \<Rightarrow> tables \<Rightarrow> 'w env \<Rightarrow> string option \<Rightarrow> wire \<Rightarrow> wire \<Rightarrow> wire \<Rightarrow>
    (unit, 'w) live_route" where
  "touch_presence_route H S T E u boardId query body =
     board_request H S T u boardId query ''PresenceBody'' body (presenceBodySchema body) ac_hasAccess FORBIDDEN
       (\<lambda>b sessionId found s. do { s \<leftarrow> run_unit (touchViewerSession E b sessionId) s; Some (Answer 204 (), s) })"

definition drop_presence_route :: "http_env \<Rightarrow> sql_env \<Rightarrow> tables \<Rightarrow> 'w env \<Rightarrow> string option \<Rightarrow> wire \<Rightarrow> wire \<Rightarrow> wire \<Rightarrow>
    (unit, 'w) live_route" where
  \<comment> \<open>both parameters are parsed before the query\<close>
  "drop_presence_route H S T E u boardId sessionId query s =
     (case trimmed_text sessionId of
        None \<Rightarrow> Some (Refused 400 (if uuid_text H boardId = None then ht_issue H ''id'' boardId
          else ht_issue H ''sessionId'' sessionId), s)
      | Some session \<Rightarrow>
          board_request H S T u boardId query ''id'' boardId (Some ()) ac_hasAccess FORBIDDEN
            (\<lambda>b _ found s. do { s \<leftarrow> run_unit (removeViewerSession E b session) s; Some (Answer 204 (), s) }) s)"

section \<open>Changing elements\<close>

definition emit_mutated :: "string \<Rightarrow> 'w live \<Rightarrow> 'w live" where
  "emit_mutated b s = s\<lparr>lv_mutated := lv_mutated s @ [b]\<rparr>"

definition latest_result :: "batch_results \<Rightarrow> mutation_result option" where
  "latest_result results = (case List.find (\<lambda>r. mr_status r = Applied) (rev (List.map_filter id results)) of
     Some r \<Rightarrow> Some r | None \<Rightarrow> if results = [] then None else last results)"

definition patch_elements_route :: "http_env \<Rightarrow> sql_env \<Rightarrow> tables \<Rightarrow> 'w env \<Rightarrow> processor_config \<Rightarrow>
    (wire \<Rightarrow> board_element) \<Rightarrow> (wire \<Rightarrow> string) \<Rightarrow> string option \<Rightarrow> wire \<Rightarrow> wire \<Rightarrow> wire \<Rightarrow> (int \<times> int, 'w) live_route" where
  \<comment> \<open>\<open>as_element\<close> and \<open>as_id\<close> are the casts of \<open>buildElementMutationBatch\<close>; the answer has the sequence and the time\<close>
  "patch_elements_route H S T E cfg as_element as_id u boardId query body =
     board_request H S T u boardId query ''PatchElementsBody'' body (patchElementsBodySchema body) may_edit_found
       (Refused 403 ''No edit access to this board'') (\<lambda>b (upserts, deletes, sessionId) found s. do {
         (loaded, s) \<leftarrow> run (loadBoard E b) s;
         (case loaded of Inl e \<Rightarrow> Some (errorHandler (Raised e), s)
          | Inr _ \<Rightarrow> do {
              (current, s) \<leftarrow> run (getElements E b) s;
              (results, s) \<leftarrow> run (processBatch E cfg
                 (buildElementMutationBatch S b current (map as_element upserts) (map as_id deletes))) s;
              (case results of Inl e \<Rightarrow> Some (errorHandler (Raised e), s)
               | Inr results \<Rightarrow> do {
                   let s = emit_mutated b s;
                   let latest = latest_result results;
                   (sequence, s) \<leftarrow> (case Option.bind latest mr_sequence of
                      Some n \<Rightarrow> Some (n, s) | None \<Rightarrow> run (peekSequence E b) s);
                   Some (Answer 200 (sequence, case Option.bind latest mr_timestamp of Some t \<Rightarrow> t
                      | None \<Rightarrow> e_now E (lv_world s)), s) })
            })
       })"

definition mutations_route :: "http_env \<Rightarrow> sql_env \<Rightarrow> tables \<Rightarrow> 'w env \<Rightarrow> processor_config \<Rightarrow> (wire \<Rightarrow> mutation) \<Rightarrow>
    string option \<Rightarrow> wire \<Rightarrow> wire \<Rightarrow> wire \<Rightarrow> (batch_results, 'w) live_route" where
  \<comment> \<open>\<open>decode\<close> is the cast of a value that passed \<open>isMutation\<close>\<close>
  "mutations_route H S T E cfg decode u boardId query body =
     board_request H S T u boardId query ''MutationsBody'' body (mutationsBodySchema body) may_edit_found
       (Refused 403 ''No edit access to this board'') (\<lambda>b (mutations, sessionId) found s. do {
         (loaded, s) \<leftarrow> run (loadBoard E b) s;
         (case loaded of Inl e \<Rightarrow> Some (errorHandler (Raised e), s)
          | Inr _ \<Rightarrow> do {
              (results, s) \<leftarrow> run (processBatch E cfg (map decode mutations)) s;
              Some (case results of Inl e \<Rightarrow> (errorHandler (Raised e), s)
                | Inr results \<Rightarrow> (Answer 200 results, emit_mutated b s)) })
       })"

section \<open>Deleting a board\<close>

definition delete_board :: "http_env \<Rightarrow> sql_env \<Rightarrow> 'w env \<Rightarrow> ('w \<Rightarrow> 'w) \<Rightarrow> string \<Rightarrow> wire \<Rightarrow> tables \<Rightarrow> 'w live \<Rightarrow>
    string answer \<times> tables \<times> 'w live" where
  \<comment> \<open>\<open>cascade\<close> is what the deletion of the board's row does to the element rows of the world\<close>
  "delete_board H S E cascade u boardId T s = (case delete_board_route H S u boardId T of
     (Answer status b, T) \<Rightarrow> (Answer status b, T, s\<lparr>lv_world := flushBoard E b False (cascade (lv_world s))\<rparr>)
   | (reply, T) \<Rightarrow> (reply, T, s))"

section \<open>Lemmas\<close>

lemma run_bind [simp]: "Option.bind (run f s) g = Option.bind (f (lv_world s)) (\<lambda>(a, w). g (a, s\<lparr>lv_world := w\<rparr>))"
  by (cases "f (lv_world s)") (auto simp: run_def)

lemma granted_request:
  assumes "uuid_text H boardId = Some b" "boardAccessQuerySchema query = Some shareToken" "parsed = Some x"
    "checkBoardAccess S T b u shareToken = Inr found" "enough found"
  shows "board_request H S T u boardId query schema input parsed enough refusal handler s = handler b x found s"
  using assms by (simp add: board_request_def with_access_def)

context redis_client
begin

lemma load_present:
  "v_strs (view w) (boardEvictionLockKey b) = None \<Longrightarrow> v_strs (view w) (boardSeqKey b) \<noteq> None \<Longrightarrow>
   loadBoard E b w = Some (Inr 0, w)"
  by (simp add: loadBoard.simps exists_str)

lemma collab_create_applies:
  \<comment> \<open>a batch of one create on a shared, loaded board\<close>
  assumes at: "board_at (mut_board m) n (view w)" and collab: "collab_active (mut_board m) (view w)"
    and free: "v_strs (view w) (boardMutationLockKey (mut_board m)) = None"
    and new: "v_strs (view w) (boardSeenKey (mut_board m) (mut_id m)) = None"
    and op: "mut_operation m = CREATE_ELEMENT i data" "string_field ''metaContainerId'' data = None"
  shows "\<exists>rs w'. processBatch E cfg [m] w = Some (Inr rs, w') \<and>
    element_docs (mut_board m) (view w') (el_id data) = Some (JObj (stamp (v_now (view w)) data))"
proof -
  let ?b = "mut_board m"
  obtain token w1 where w1: "acquireMutationLock E ?b w = Some (Inr token, w1)"
    "view w1 = (view w)\<lparr>v_strs := (v_strs (view w))(boardMutationLockKey ?b \<mapsto>
        (token, Some (v_now (view w) + BOARD_MUTATION_LOCK_TTL_MS)))\<rparr>"
    using acquire_free[OF free] by blast
  have at1: "board_at ?b n (view w1)" using at by (simp add: w1(2) board_at_def counter_ok_def key_defs)
  have "collab_active ?b (view w1)" using collab
    by (simp add: collab_active_def marker_live_def live_clients_def active_viewers_def w1(2) key_defs)
  then obtain w2 where w2: "getSyncWriteMode E ?b w1 = Some (Collab, w2)" "v_now (view w2) = v_now (view w)"
    "\<forall>k. k \<noteq> boardCollabModeUntilKey ?b \<longrightarrow> v_strs (view w2) k = v_strs (view w1) k"
    using write_mode_ready[OF board_at_ready[OF at1]] by (auto simp: w1(2))
  have at2: "board_at ?b n (view w2)" using at1 w2(3) by (simp add: board_at_def counter_ok_def key_defs)
  have seen: "v_strs (view w2) (boardSeenKey ?b (mut_id m)) = None" using w2(3) new by (simp add: w1(2) key_defs)
  obtain res changed w3 where p: "processMutationWithContext E m [] Collab w2 = Some ((res, changed), w3)"
    "mutation_outcome m [] Collab n (view w2) res changed (view w3)"
    using mutation_at[OF at2, of "[]" Collab] by blast
  have "\<not> refused (mut_operation m) []" using op by (simp add: refused_def createsIntoManagedMeta_def)
  then obtain c where c: "change_of ?b [] (mut_operation m) Collab n (view w2) c"
    "abs_board ?b (view w3) = (spec_change True c (abs_board ?b (view w2)))\<lparr>ab_sequence := n + 1\<rparr>"
    using p(2) seen op(1) by (auto simp: mutation_outcome_def Let_def nothing_to_do_def is_transient_move_def)
  have "pc_deletes c = []" "pc_upserts c = [stamp (v_now (view w)) data]"
    using c(1) op(1) w2(2)
    by (auto simp: change_of_def delete_closure_def effective_upserts_def normalizeUpserts_def)
  then have docs: "element_docs ?b (view w3) (el_id data) = Some (JObj (stamp (v_now (view w)) data))"
    unfolding element_docs_def c(2) by (simp add: spec_change_def Let_def overlay_def)
  have ctx: "createCachedBoardContext E cfg ?b [m] w1 = Some ([], w1)"
    by (simp add: createCachedBoardContext_def collectTouchedElementIds_def op(1) js_set_def)
  have "group_by_board [m] = [(?b, [(0, m)])]" by (simp add: group_by_board_def)
  then have "processBatch E cfg [m] w =
      Some (Inr [Some res], releaseMutationLock E ?b token (extendCollabMode E ?b w3))"
    using w1(1) ctx w2(1) p(1)
    by (simp add: processBatch_def withBoardMutationLock_def group_task_def rearm_after_def)
  moreover have "element_docs ?b (view (releaseMutationLock E ?b token (extendCollabMode E ?b w3))) = element_docs ?b (view w3)"
    by (simp add: element_docs_def abs_board_def release_view extendCollabMode_view key_defs)
  ultimately show ?thesis using docs by auto
qed

end

section \<open>What the routes guarantee\<close>

lemma refused_request:
  assumes "\<And>b shareToken found. uuid_text H boardId = Some b \<Longrightarrow> boardAccessQuerySchema query = Some shareToken \<Longrightarrow>
      checkBoardAccess S T b u shareToken = Inr found \<Longrightarrow> \<not> enough found"
    and "\<exists>status message. refusal = Refused status message"
  shows "\<exists>status message. board_request H S T u boardId query schema input parsed enough refusal handler s =
    Some (Refused status message, s)"
  using assms by (auto simp: board_request_def with_access_def errorHandler_def split: option.split sum.split)

text \<open>C13: Elements change over REST only for somebody who may edit: unless the caller, by his memberships or by the
  share token of the request, may edit the board the path names, a patch and a batch of mutations are refused and leave
  the live state and the event queue as they were.\<close>

theorem rest_edits_need_permission:
  assumes "boards_ok T" "members_ok T" "ws_members_ok T"
    and "\<not> (\<exists>b \<in> set (t_boards T). Some (b_id b) = uuid_text H boardId \<and>
      may_edit T b u (the (boardAccessQuerySchema query)))"
  shows "(\<exists>status message. mutations_route H S T E cfg decode u boardId query body s = Some (Refused status message, s)) \<and>
    (\<exists>status message. patch_elements_route H S T E cfg as_element as_id u boardId query body s =
       Some (Refused status message, s))"
proof -
  have "\<not> may_edit_found found" if "uuid_text H boardId = Some b" "boardAccessQuerySchema query = Some t"
    "checkBoardAccess S T b u t = Inr found" for b t found
    using access_decided[OF assms(1-3), of S b u t] that assms(4) by (auto simp: may_edit_found_def)
  then show ?thesis
    unfolding mutations_route_def patch_elements_route_def by (intro conjI refused_request) auto
qed

text \<open>C37: A batch of mutations escapes the access check. The route checks the board of its path, the processor
  applies every mutation to the board the mutation itself names: whoever may edit some board creates elements on every
  other board, also one that he may not even see.\<close>

theorem rest_mutations_reach_other_boards:
  assumes "redis_client E view" "uuid_text H boardId = Some b" "boardAccessQuerySchema query = Some shareToken"
    and "checkBoardAccess S T b u shareToken = Inr found" "may_edit_found found"
    and "checkBoardAccess S T (mut_board (decode raw)) u shareToken = Inr no_access"
    and "mutationsBodySchema body = Some ([raw], sessionId)"
    and "mut_operation (decode raw) = CREATE_ELEMENT i data" "string_field ''metaContainerId'' data = None"
    and "v_strs (view (lv_world s)) (boardEvictionLockKey b) = None" "v_strs (view (lv_world s)) (boardSeqKey b) \<noteq> None"
    and "board_at (mut_board (decode raw)) n (view (lv_world s))" "collab_active (mut_board (decode raw)) (view (lv_world s))"
    and "v_strs (view (lv_world s)) (boardMutationLockKey (mut_board (decode raw))) = None"
    and "v_strs (view (lv_world s)) (boardSeenKey (mut_board (decode raw)) (mut_id (decode raw))) = None"
  shows "\<exists>results s'. mutations_route H S T E cfg decode u boardId query body s = Some (Answer 200 results, s') \<and>
    element_docs (mut_board (decode raw)) (view (lv_world s')) (el_id data) =
      Some (JObj (stamp (v_now (view (lv_world s))) data))"
proof -
  obtain rs w' where "processBatch E cfg [decode raw] (lv_world s) = Some (Inr rs, w')"
    "element_docs (mut_board (decode raw)) (view w') (el_id data) = Some (JObj (stamp (v_now (view (lv_world s))) data))"
    using redis_client.collab_create_applies[OF assms(1,12-15,8,9)] by blast
  moreover have "loadBoard E b (lv_world s) = Some (Inr 0, lv_world s)"
    using redis_client.load_present[OF assms(1,10,11)] .
  ultimately show ?thesis
    unfolding mutations_route_def
      granted_request[where enough = may_edit_found, OF assms(2,3,7,4,5)] by (auto simp: emit_mutated_def)
qed

definition two_boards :: tables where
  \<comment> \<open>u edits the board b; the board b1 belongs to a workspace he is not in\<close>
  "two_boards = demo_tables\<lparr>t_boards := [demo_board ''b'', (demo_board ''b1'')\<lparr>b_workspace := ''w1'', b_viewToken := None\<rparr>]\<rparr>"

definition shared_world :: mem where
  "shared_world = loaded_world\<lparr>m_strs := [(boardSeqKey ''b1'', (''0'', None)), (boardSeqKey ''b'', (''0'', None)),
     (boardCollabModeUntilKey ''b1'', (dec (m_now mem0 + 1000), None))]\<rparr>"

definition smuggled :: "wire \<Rightarrow> mutation" where
  "smuggled raw = \<lparr>mut_id = ''m'', mut_board = ''b1'', mut_clientTimestamp = 0,
     mut_operation = CREATE_ELEMENT ''e'' [(''id'', JStr ''e'')]\<rparr>"

definition smuggling_body :: wire where
  "smuggling_body = WObj [(''mutations'', WArr [WObj [(''mutationId'', WStr ''m''), (''boardId'', WStr ''b1''),
     (''clientTimestamp'', WNum (Fin 0)), (''operation'', WObj [(''type'', WStr ''CREATE_ELEMENT''),
       (''elementId'', WStr ''e''), (''data'', WObj [(''id'', WStr ''e'')])])]])]"

definition path_query :: wire where
  "path_query = WObj []"

lemma smuggling_parsed: "mutationsBodySchema smuggling_body = Some ([case get_prop ''mutations'' smuggling_body of WArr (x # _) \<Rightarrow> x | v \<Rightarrow> v], None)"
  by (simp add: mutationsBodySchema_def smuggling_body_def isMutation_def is_string_def)

lemma two_boards_access:
  "checkBoardAccess demo_sql two_boards ''b'' (Some ''u'') None = Inr (granted ''edit'')"
  "checkBoardAccess demo_sql two_boards ''b1'' (Some ''u'') None = Inr no_access"
  by (simp_all add: checkBoardAccess_def getBoard_def select_one_def two_boards_def demo_tables_def demo_board_def
      getBoardMemberPermission_def getWorkspaceBoardMembershipPermission_def)

theorem rest_mutations_reach_other_boards_witness:
  "\<exists>results s'. mutations_route demo_http demo_sql two_boards mem_env \<lparr>pr_targetedReads = True, pr_incremental = True\<rparr>
      smuggled (Some ''u'') (WStr ''b'') path_query smuggling_body \<lparr>lv_world = shared_world, lv_mutated = []\<rparr> =
      Some (Answer 200 results, s') \<and> element_docs ''b1'' (mem_view (lv_world s')) ''e'' \<noteq> None"
proof -
  have trim: "js_trim ''b'' = ''b''" by code_simp
  have world: "v_strs (mem_view shared_world) (boardEvictionLockKey ''b'') = None"
    "v_strs (mem_view shared_world) (boardSeqKey ''b'') \<noteq> None" "board_at ''b1'' 0 (mem_view shared_world)"
    "v_strs (mem_view shared_world) (boardMutationLockKey ''b1'') = None"
    "v_strs (mem_view shared_world) (boardSeenKey ''b1'' ''m'') = None"
    by (simp_all add: shared_world_def loaded_world_def mem_str_eval key_defs board_at_def counter_ok_def dec_0 bkey_def)
  have active: "collab_active ''b1'' (mem_view shared_world)"
    by (auto simp: collab_active_def marker_live_def shared_world_def loaded_world_def mem_str_eval key_defs bkey_def)
  obtain raw where parsed: "mutationsBodySchema smuggling_body = Some ([raw], None)" using smuggling_parsed by blast
  have "\<exists>results s'. mutations_route demo_http demo_sql two_boards mem_env \<lparr>pr_targetedReads = True, pr_incremental = True\<rparr>
      smuggled (Some ''u'') (WStr ''b'') path_query smuggling_body \<lparr>lv_world = shared_world, lv_mutated = []\<rparr> =
        Some (Answer 200 results, s') \<and>
      element_docs (mut_board (smuggled raw)) (mem_view (lv_world s')) (el_id [(''id'', JStr ''e'')]) =
        Some (JObj (stamp (v_now (mem_view (lv_world \<lparr>lv_world = shared_world, lv_mutated = []\<rparr>))) [(''id'', JStr ''e'')]))"
    by (rule rest_mutations_reach_other_boards[OF mem.redis_client_axioms _ _ two_boards_access(1) _ _ parsed,
          where i = "''e''" and n = 0])
      (insert world active, simp_all add: two_boards_access trim smuggled_def demo_http_def path_query_def
        boardAccessQuerySchema_def may_edit_found_def granted_def string_field_def)
  then show ?thesis by (auto simp: smuggled_def el_id_def string_field_def)
qed

theorem rest_edits_need_permission_witness:
  "\<exists>status message. mutations_route demo_http demo_sql two_boards mem_env \<lparr>pr_targetedReads = True, pr_incremental = True\<rparr>
      smuggled (Some ''u'') (WStr ''b1'') path_query smuggling_body \<lparr>lv_world = shared_world, lv_mutated = []\<rparr> =
      Some (Refused status message, \<lparr>lv_world = shared_world, lv_mutated = []\<rparr>)"
proof -
  have trim: "js_trim ''b1'' = ''b1''" by code_simp
  have "boards_ok two_boards" "members_ok two_boards" "ws_members_ok two_boards"
    by (auto simp: two_boards_def demo_tables_def demo_board_def boards_ok_def tokens_unique_def same_token_def
        members_ok_def ws_members_ok_def)
  moreover have "\<not> (\<exists>b \<in> set (t_boards two_boards). Some (b_id b) = uuid_text demo_http (WStr ''b1'') \<and>
      may_edit two_boards b (Some ''u'') (the (boardAccessQuerySchema path_query)))"
    by (auto simp: two_boards_def demo_tables_def demo_board_def trim demo_http_def boardAccessQuerySchema_def path_query_def
        may_edit_def edit_link_def direct_member_def workspace_member_def)
  ultimately show ?thesis using rest_edits_need_permission by blast
qed

end
