(* ===== verification/Preview_Jobs.thy ===== *)
theory Preview_Jobs
  imports Event_Bus Preview_Render Live_Routes
begin

text \<open>
  When previews are drawn (\<open>previews/preview-job.service.ts\<close>), and the handlers by which the worker turns
  domain events into preview jobs (\<open>apps/worker.main.ts\<close>). The queue is an abstract state \<open>'q\<close> with the
  operation \<open>pe_add\<close>; the preview columns of the boards and the element rows of the database are the
  fields of \<open>preview_state\<close>. Renders are spaced, a deferred job comes back when it is due, an event
  schedules a render, and of two renders that overlap the older picture can win.
\<close>

definition PREVIEW_DEBOUNCE_WINDOW_MS :: int where "PREVIEW_DEBOUNCE_WINDOW_MS = 90000"
definition PREVIEW_MIN_INTERVAL_MS :: int where "PREVIEW_MIN_INTERVAL_MS = 180000"
definition PREVIEW_FLUSH_DELAY_MS :: int where "PREVIEW_FLUSH_DELAY_MS = 3000"

record preview_job =
  pj_boardId :: string
  pj_flush :: bool

record job_options =
  jo_id :: string
    \<comment> \<open>the deduplication id\<close>
  jo_ttl :: int
  jo_extend :: bool
  jo_replace :: bool
  jo_delay :: int

record preview_row =
  pw_svg :: "string option"
  pw_version :: "string option"
  pw_updatedAt :: "int option"

record 'q preview_state =
  ps_boards :: "(string \<times> preview_row) list"
  ps_elements :: "string \<Rightarrow> raw_element_row list"
  ps_queue :: 'q

record 'q preview_env =
  pe_add :: "int \<Rightarrow> preview_job \<Rightarrow> job_options \<Rightarrow> 'q \<Rightarrow> (string + unit) \<times> 'q"
    \<comment> \<open>\<open>getQueue().add\<close> at a time\<close>
  pe_render :: "raw_element_row list \<Rightarrow> string + rendered"

section \<open>Operations\<close>

definition dedupIdFor :: "string \<Rightarrow> string" where
  "dedupIdFor b = ''preview-'' @ b"

definition flushDedupIdFor :: "string \<Rightarrow> string" where
  "flushDedupIdFor b = ''preview-flush-'' @ b"

definition add_job :: "'q preview_env \<Rightarrow> int \<Rightarrow> preview_job \<Rightarrow> job_options \<Rightarrow> 'q preview_state \<Rightarrow> (string + unit) \<times> 'q preview_state" where
  "add_job E now job options s = (case pe_add E now job options (ps_queue s) of (end, q) \<Rightarrow> (end, s\<lparr>ps_queue := q\<rparr>))"

definition enqueue :: "'q preview_env \<Rightarrow> int \<Rightarrow> string \<Rightarrow> 'q preview_state \<Rightarrow> (string + (string \<times> int)) \<times> 'q preview_state" where
  "enqueue E now b s = (case add_job E now \<lparr>pj_boardId = b, pj_flush = False\<rparr>
       \<lparr>jo_id = dedupIdFor b, jo_ttl = PREVIEW_DEBOUNCE_WINDOW_MS, jo_extend = True, jo_replace = True,
        jo_delay = PREVIEW_DEBOUNCE_WINDOW_MS\<rparr> s of
     (end, s) \<Rightarrow> (map_sum id (\<lambda>_. (b, now + PREVIEW_DEBOUNCE_WINDOW_MS)) end, s))"

definition enqueueFlush :: "'q preview_env \<Rightarrow> int \<Rightarrow> string \<Rightarrow> 'q preview_state \<Rightarrow> (string + (string \<times> int)) \<times> 'q preview_state" where
  "enqueueFlush E now b s = (case add_job E now \<lparr>pj_boardId = b, pj_flush = True\<rparr>
       \<lparr>jo_id = flushDedupIdFor b, jo_ttl = PREVIEW_FLUSH_DELAY_MS, jo_extend = True, jo_replace = True,
        jo_delay = PREVIEW_FLUSH_DELAY_MS\<rparr> s of
     (end, s) \<Rightarrow> (map_sum id (\<lambda>_. (b, now + PREVIEW_FLUSH_DELAY_MS)) end, s))"

definition maybeDeferForMinInterval :: "int \<Rightarrow> string \<Rightarrow> 'q preview_state \<Rightarrow> int option" where
  \<comment> \<open>the time a deferred render is due\<close>
  "maybeDeferForMinInterval now b s = (case js_get b (ps_boards s) of
     None \<Rightarrow> None
   | Some board \<Rightarrow> (case pw_updatedAt board of
       None \<Rightarrow> None
     | Some updatedAt \<Rightarrow> if updatedAt = 0 \<or> now - updatedAt \<ge> PREVIEW_MIN_INTERVAL_MS then None
         else Some (updatedAt + PREVIEW_MIN_INTERVAL_MS)))"

datatype preview_outcome = Updated | Skipped | Deferred

definition store_preview :: "int \<Rightarrow> string \<Rightarrow> rendered \<Rightarrow> 'q preview_state \<Rightarrow> 'q preview_state" where
  "store_preview now b r s = s\<lparr>ps_boards := map (\<lambda>(i, row). (i, if i = b
     then \<lparr>pw_svg = Some (rd_svg r), pw_version = Some (rd_version r), pw_updatedAt = Some now\<rparr> else row)) (ps_boards s)\<rparr>"

definition render_board :: "'q preview_env \<Rightarrow> int \<Rightarrow> ('q preview_state \<Rightarrow> 'q preview_state) \<Rightarrow> string \<Rightarrow> 'q preview_state \<Rightarrow>
    (string + preview_outcome) \<times> 'q preview_state" where
  \<comment> \<open>\<open>meanwhile\<close> is what others do between the read of the elements and the update of the board\<close>
  "render_board E now meanwhile b s =
     (if \<not> js_has b (ps_boards s) then (Inr Skipped, s)
      else case pe_render E (ps_elements s b) of
        Inl e \<Rightarrow> (Inl e, meanwhile s)
      | Inr r \<Rightarrow> (Inr Updated, store_preview now b r (meanwhile s)))"

definition processBoardPreview :: "'q preview_env \<Rightarrow> int \<Rightarrow> ('q preview_state \<Rightarrow> 'q preview_state) \<Rightarrow> string \<Rightarrow> bool \<Rightarrow>
    'q preview_state \<Rightarrow> (string + preview_outcome) \<times> 'q preview_state" where
  "processBoardPreview E now meanwhile b skipMinInterval s =
     (case (if skipMinInterval then None else maybeDeferForMinInterval now b s) of
        Some dueAt \<Rightarrow> (case add_job E now \<lparr>pj_boardId = b, pj_flush = False\<rparr>
            \<lparr>jo_id = dedupIdFor b, jo_ttl = max (dueAt - now) 0, jo_extend = True, jo_replace = True,
             jo_delay = max (dueAt - now) 0\<rparr> s of
          (end, s) \<Rightarrow> (map_sum id (\<lambda>_. Deferred) end, s))
      | None \<Rightarrow> render_board E now meanwhile b s)"

definition preview_worker :: "'q preview_env \<Rightarrow> int \<Rightarrow> ('q preview_state \<Rightarrow> 'q preview_state) \<Rightarrow> preview_job \<Rightarrow>
    'q preview_state \<Rightarrow> (string + preview_outcome) \<times> 'q preview_state" where
  \<comment> \<open>the processor of \<open>startWorker\<close>\<close>
  "preview_worker E now meanwhile job s = processBoardPreview E now meanwhile (pj_boardId job) (pj_flush job) s"

section \<open>The worker's handlers\<close>

datatype worker_handler = EnqueuePreview | EnqueueFlush

fun worker_call :: "'q preview_env \<Rightarrow> ('q preview_state \<Rightarrow> int) \<Rightarrow> worker_handler \<Rightarrow> string \<Rightarrow> 'q preview_state \<Rightarrow>
    handler_end \<times> 'q preview_state" where
  \<comment> \<open>a failed enqueue is logged and forgotten\<close>
  "worker_call E clock EnqueuePreview b s = (Done, snd (enqueue E (clock s) b s))"
| "worker_call E clock EnqueueFlush b s = (Done, snd (enqueueFlush E (clock s) b s))"

definition worker_bus :: "'w bus_env \<Rightarrow> worker_handler queue_bus" where
  \<comment> \<open>\<open>start\<close> of the worker\<close>
  "worker_bus B = queue_on B BOARD_EDITORS_LEFT EnqueueFlush (queue_on B BOARD_MUTATED EnqueuePreview new_queue_bus)"

section \<open>The route\<close>

definition preview_jobs_route :: "http_env \<Rightarrow> sql_env \<Rightarrow> tables \<Rightarrow> 'q preview_env \<Rightarrow> int \<Rightarrow> string option \<Rightarrow> wire \<Rightarrow> wire \<Rightarrow>
    (string \<times> int, 'q preview_state) live_route" where
  "preview_jobs_route H S T E now u boardId query =
     board_request H S T u boardId query ''id'' boardId (Some ()) ac_hasAccess FORBIDDEN
       (\<lambda>b _ found s.
         (case enqueue E now b (lv_world s) of
            (Inl e, ps) \<Rightarrow> Some (errorHandler (Thrown e), s\<lparr>lv_world := ps\<rparr>)
          | (Inr job, ps) \<Rightarrow> Some (Answer 202 job, s\<lparr>lv_world := ps\<rparr>)))"

section \<open>What a job does\<close>

lemma js_get_map_key: "js_get k (map (\<lambda>(i, v). (i, f i v)) xs) = map_option (f k) (js_get k xs)"
  by (induction xs) auto

lemma stored_preview:
  "js_get c (ps_boards (store_preview now b r s)) = (if c = b then map_option (\<lambda>_. \<lparr>pw_svg = Some (rd_svg r),
     pw_version = Some (rd_version r), pw_updatedAt = Some now\<rparr>) (js_get c (ps_boards s)) else js_get c (ps_boards s))"
  by (auto simp: store_preview_def js_get_map_key option.map_ident)

text \<open>A preview job ends in one of these ways: without a board it does nothing; an ordinary job within the minimal interval
  puts itself back into the queue, for the end of the interval; otherwise it draws the elements that are stored when it
  reads them and stores that picture with the time, on its own board only.\<close>

theorem preview_job_outcome:
  assumes "pe_render E (ps_elements s (pj_boardId job)) = Inr r"
  shows "case js_get (pj_boardId job) (ps_boards s) of
     None \<Rightarrow> preview_worker E now id job s = (Inr Skipped, s)
   | Some row \<Rightarrow>
       if \<not> pj_flush job \<and> (\<exists>t. pw_updatedAt row = Some t \<and> t \<noteq> 0 \<and> now < t + PREVIEW_MIN_INTERVAL_MS)
       then preview_worker E now id job s = (let wait = the (pw_updatedAt row) + PREVIEW_MIN_INTERVAL_MS - now in
         case pe_add E now \<lparr>pj_boardId = pj_boardId job, pj_flush = False\<rparr> \<lparr>jo_id = ''preview-'' @ pj_boardId job, jo_ttl = wait,
             jo_extend = True, jo_replace = True, jo_delay = wait\<rparr> (ps_queue s) of
           (Inl e, q) \<Rightarrow> (Inl e, s\<lparr>ps_queue := q\<rparr>) | (Inr _, q) \<Rightarrow> (Inr Deferred, s\<lparr>ps_queue := q\<rparr>))
       else \<exists>s'. preview_worker E now id job s = (Inr Updated, s') \<and> ps_queue s' = ps_queue s \<and> ps_elements s' = ps_elements s \<and>
         (\<forall>c. js_get c (ps_boards s') = (if c = pj_boardId job then Some \<lparr>pw_svg = Some (rd_svg r),
            pw_version = Some (rd_version r), pw_updatedAt = Some now\<rparr> else js_get c (ps_boards s)))"
proof (cases "js_get (pj_boardId job) (ps_boards s)")
  case None
  then show ?thesis
    by (simp add: preview_worker_def processBoardPreview_def maybeDeferForMinInterval_def render_board_def js_has_def)
next
  case (Some row)
  have render: "render_board E now id (pj_boardId job) s = (Inr Updated, store_preview now (pj_boardId job) r s)"
    using Some assms by (simp add: render_board_def js_has_def)
  show ?thesis
  proof (cases "\<not> pj_flush job \<and> (\<exists>t. pw_updatedAt row = Some t \<and> t \<noteq> 0 \<and> now < t + PREVIEW_MIN_INTERVAL_MS)")
    case True
    then show ?thesis using Some
      by (auto simp: preview_worker_def processBoardPreview_def maybeDeferForMinInterval_def add_job_def dedupIdFor_def Let_def
          max_def split: prod.split sum.split)
  next
    case False
    then have "(if pj_flush job then None else maybeDeferForMinInterval now (pj_boardId job) s) = None"
      using Some by (auto simp: maybeDeferForMinInterval_def split: option.split)
    then have "preview_worker E now id job s = (Inr Updated, store_preview now (pj_boardId job) r s)"
      using render by (simp add: preview_worker_def processBoardPreview_def)
    moreover have "ps_queue (store_preview now (pj_boardId job) r s) = ps_queue s \<and>
        ps_elements (store_preview now (pj_boardId job) r s) = ps_elements s"
      by (simp add: store_preview_def)
    ultimately show ?thesis unfolding Some option.case if_not_P[OF False]
      by (intro exI[of _ "store_preview now (pj_boardId job) r s"]) (simp add: stored_preview Some)
  qed
qed

text \<open>Ordinary renders of a board are spaced: whatever else ran in between, a job that is not a flush and stores a picture
  runs at least three minutes after the picture stored before.\<close>

theorem renders_are_spaced:
  assumes "preview_worker E now meanwhile job s = (Inr Updated, s')" "\<not> pj_flush job"
    and "js_get (pj_boardId job) (ps_boards s) = Some row" "pw_updatedAt row = Some t" "t \<noteq> 0"
  shows "t + PREVIEW_MIN_INTERVAL_MS \<le> now"
proof (rule ccontr)
  assume "\<not> ?thesis"
  then have "maybeDeferForMinInterval now (pj_boardId job) s = Some (t + PREVIEW_MIN_INTERVAL_MS)"
    using assms(3-5) by (simp add: maybeDeferForMinInterval_def)
  then have "\<exists>res :: string + unit. fst (preview_worker E now meanwhile job s) = map_sum id (\<lambda>_. Deferred) res"
    using assms(2) by (simp add: preview_worker_def processBoardPreview_def case_prod_beta) blast
  then obtain res :: "string + unit" where "fst (preview_worker E now meanwhile job s) = map_sum id (\<lambda>_. Deferred) res" by blast
  then show False using assms(1) by (cases res) auto
qed

text \<open>C34: The way of a change into the picture: the job that \<open>emit\<close> puts on the queue for a changed board makes the worker add
  one debounced preview job for that board, due after the debounce window.\<close>

theorem changed_board_gets_a_preview_job:
  assumes "b \<noteq> []" "be_producerId B \<noteq> []" "0 < be_now B sent" "be_now B sent < 2 ^ 53"
    and "pe_add E (be_now B s) \<lparr>pj_boardId = b, pj_flush = False\<rparr> \<lparr>jo_id = ''preview-'' @ b, jo_ttl = 90000, jo_extend = True,
      jo_replace = True, jo_delay = 90000\<rparr> (ps_queue s) = (added, q)"
  shows "handleDomainEventJob B (worker_call E (be_now B)) \<lparr>bj_queueName = queue, bj_id = i,
      bj_data = event_job_data B BOARD_MUTATED b sent\<rparr> (worker_bus B) s = (Inr (), worker_bus B, s\<lparr>ps_queue := q\<rparr>)"
proof -
  let ?job = "\<lparr>bj_queueName = queue, bj_id = i, bj_data = event_job_data B BOARD_MUTATED b sent\<rparr>"
  have envelope: "appEventEnvelopeSchema (event_envelope B b sent) = Some \<lparr>en_schemaVersion = 1, en_producerId = be_producerId B,
      en_timestamp = be_now B sent, en_data = WObj [(''boardId'', WStr b)]\<rparr>"
    using assms(2-4) by (rule event_envelope_accepted)
  have d: "decode_job B ?job = Decoded BOARD_MUTATED b"
    using assms(1) by (simp add: decode_job_def envelope APP_EVENT_SCHEMA_VERSION_def APP_EVENTS_def)
  have hs: "handlers_of BOARD_MUTATED (qb_handlers (worker_bus B)) = [EnqueuePreview]"
    by (simp add: worker_bus_def queue_on_def startConsumers_def on_event_def handlers_of_def new_queue_bus_def js_add_def
        BOARD_MUTATED_def BOARD_EDITORS_LEFT_def)
  have run: "dispatch (worker_call E (be_now B)) (qb_handlers (worker_bus B)) BOARD_MUTATED b s = (Inr (), s\<lparr>ps_queue := q\<rparr>)"
    using assms(5) by (simp add: dispatch_def hs enqueue_def add_job_def dedupIdFor_def PREVIEW_DEBOUNCE_WINDOW_MS_def)
  show ?thesis
    by (auto simp: handleDomainEventJob_def d withJobTraceparent_def run split: option.split wire.split)
qed

text \<open>Two renders of a board that overlap (the worker runs three jobs at a time, and a flush job has another deduplication id
  than the debounced one) can leave the older picture: the one that read its elements first and stores last wins.\<close>

theorem overlapping_renders_store_older:
  assumes "js_has b (ps_boards s)" "pe_render E (ps_elements s b) = Inr older"
  shows "\<exists>s'. preview_worker E now (\<lambda>s. snd (preview_worker E now id \<lparr>pj_boardId = b, pj_flush = True\<rparr> (s\<lparr>ps_elements := elements\<rparr>)))
      \<lparr>pj_boardId = b, pj_flush = True\<rparr> s = (Inr Updated, s') \<and> ps_elements s' = elements \<and>
    map_option pw_svg (js_get b (ps_boards s')) = Some (Some (rd_svg older))"
proof -
  let ?mid = "snd (preview_worker E now id \<lparr>pj_boardId = b, pj_flush = True\<rparr> (s\<lparr>ps_elements := elements\<rparr>))"
  have "js_has b (ps_boards ?mid) \<and> ps_elements ?mid = elements"
    using assms(1) by (auto simp: preview_worker_def processBoardPreview_def render_board_def js_has_def stored_preview
        store_preview_def[THEN arg_cong[of _ _ ps_elements]] split: sum.split)
  then show ?thesis using assms
    by (auto simp: preview_worker_def processBoardPreview_def render_board_def js_has_def stored_preview
        store_preview_def[THEN arg_cong[of _ _ ps_elements]])
qed

section \<open>Witnesses\<close>

type_synonym delayed_jobs = "(string \<times> preview_job \<times> int) list"

definition debounced_add :: "int \<Rightarrow> preview_job \<Rightarrow> job_options \<Rightarrow> delayed_jobs \<Rightarrow> (string + unit) \<times> delayed_jobs" where
  \<comment> \<open>a queue that replaces a delayed job of the same deduplication id\<close>
  "debounced_add now job opts q = (Inr (), js_put (jo_id opts) (job, now + jo_delay opts) q)"

definition demo_preview :: "delayed_jobs preview_env" where
  "demo_preview = \<lparr>pe_add = debounced_add, pe_render = render_preview demo_text (\<lambda>a b. True)\<rparr>"

definition drawn_at :: "int \<Rightarrow> delayed_jobs preview_state" where
  "drawn_at t = \<lparr>ps_boards = [(''b'', \<lparr>pw_svg = None, pw_version = None, pw_updatedAt = Some t\<rparr>)],
     ps_elements = (\<lambda>b. [plain_note]), ps_queue = []\<rparr>"

definition plain_picture :: rendered where
  "plain_picture = \<lparr>rd_svg = renderBoardPreviewSvg demo_text 320 200 (picture_of plain_note),
     rd_version = getBoardPreviewVersion demo_text (picture_of plain_note)\<rparr>"

lemma demo_renders: "pe_render demo_preview (ps_elements (drawn_at t) b) = Inr plain_picture"
  using picture_built[of plain_note demo_text "\<lambda>a b. True"]
  by (simp add: demo_preview_def drawn_at_def render_preview_def plain_picture_def plain_note_def)

theorem preview_job_outcome_witness:
  "preview_worker demo_preview 100000 id \<lparr>pj_boardId = ''b'', pj_flush = False\<rparr> (drawn_at 1000) =
   (Inr Deferred, (drawn_at 1000)\<lparr>ps_queue := [(''preview-b'', \<lparr>pj_boardId = ''b'', pj_flush = False\<rparr>, 181000)]\<rparr>)"
proof -
  have "pe_render demo_preview (ps_elements (drawn_at 1000) (pj_boardId \<lparr>pj_boardId = ''b'', pj_flush = False\<rparr>)) = Inr plain_picture"
    by (rule demo_renders)
  from preview_job_outcome[OF this, of 100000] show ?thesis
    by (simp add: drawn_at_def demo_preview_def debounced_add_def PREVIEW_MIN_INTERVAL_MS_def)
qed

theorem renders_are_spaced_witness:
  "(\<exists>s'. preview_worker demo_preview 200000 id \<lparr>pj_boardId = ''b'', pj_flush = False\<rparr> (drawn_at 1000) = (Inr Updated, s')) \<and>
   1000 + PREVIEW_MIN_INTERVAL_MS \<le> 200000"
proof -
  obtain s' where "preview_worker demo_preview 200000 id \<lparr>pj_boardId = ''b'', pj_flush = False\<rparr> (drawn_at 1000) = (Inr Updated, s')"
    using demo_renders[of 1000 "''b''"]
    by (simp add: preview_worker_def processBoardPreview_def maybeDeferForMinInterval_def render_board_def js_has_def
        drawn_at_def PREVIEW_MIN_INTERVAL_MS_def)
  then show ?thesis using renders_are_spaced by (fastforce simp: drawn_at_def)
qed

definition worker_demo_bus :: "delayed_jobs preview_state bus_env" where
  "worker_demo_bus = \<lparr>be_add = (\<lambda>queue name data dedup w. (Resolves 3, w)), be_park = (\<lambda>dlq letter w. (Inr (), w)),
     be_issues = (\<lambda>schema v. ''issue''), be_now = (\<lambda>w. 1000), be_traceparent = None, be_extracts = (\<lambda>t. True),
     be_producerId = ''api'', be_queues = \<lparr>bq_mutations = ''board-mutations'', bq_controlEvents = ''board-control-events'',
       bq_dlq = Some ''domain-events-dlq''\<rparr>, be_emitTimeoutMs = DEFAULT_EMIT_TIMEOUT_MS, be_dlqSummaryIntervalMs = 60000,
     be_onEnqueueFailed = None\<rparr>"

theorem changed_board_gets_a_preview_job_witness:
  "handleDomainEventJob worker_demo_bus (worker_call demo_preview (be_now worker_demo_bus)) \<lparr>bj_queueName = ''board-mutations'',
     bj_id = None, bj_data = event_job_data worker_demo_bus BOARD_MUTATED ''b'' (drawn_at 0)\<rparr> (worker_bus worker_demo_bus) (drawn_at 0) =
   (Inr (), worker_bus worker_demo_bus,
    (drawn_at 0)\<lparr>ps_queue := [(''preview-b'', \<lparr>pj_boardId = ''b'', pj_flush = False\<rparr>, 91000)]\<rparr>)"
  by (rule changed_board_gets_a_preview_job[where added = "Inr ()"])
    (simp_all add: worker_demo_bus_def demo_preview_def debounced_add_def drawn_at_def)

theorem overlapping_renders_store_older_witness:
  "\<exists>s'. preview_worker demo_preview 9 (\<lambda>s. snd (preview_worker demo_preview 9 id \<lparr>pj_boardId = ''b'', pj_flush = True\<rparr>
      (s\<lparr>ps_elements := (\<lambda>b. [])\<rparr>))) \<lparr>pj_boardId = ''b'', pj_flush = True\<rparr> (drawn_at 1) = (Inr Updated, s') \<and>
    ps_elements s' = (\<lambda>b. []) \<and> map_option pw_svg (js_get ''b'' (ps_boards s')) = Some (Some (rd_svg plain_picture))"
  by (rule overlapping_renders_store_older[OF _ demo_renders]) (simp add: drawn_at_def js_has_def)

end
