(* ===== verification/Crdt_Rooms.thy ===== *)
theory Crdt_Rooms
  imports Tick_Persistence
begin

text \<open>
  The CRDT rooms of the realtime server (\<open>realtime/socketio/crdt-room.ts\<close>): a Yjs document per board whose
  map \<open>moves\<close> clients update, the positions that changed, two timers and a flush that hands one
  \<open>MOVE_ELEMENTS\<close> mutation to the processor. Yjs is the parameter \<open>yjs\<close>: \<open>y_apply\<close> gives the keys that an update
  changes in the map (with whether it deletes them), the new document, and the error that \<open>applyUpdate\<close>
  throws. The positions are read as the numbers the source takes them for. The server installs no
  \<open>onPersistedChange\<close> callback. The lemmas show that a pending position is taken in time and is the one
  of the document, and what an update that throws and a flush that fails leave behind.
\<close>

definition DEFAULT_CRDT_DEBOUNCE_MS :: int where "DEFAULT_CRDT_DEBOUNCE_MS = 400"
definition DEFAULT_CRDT_MAX_WAIT_MS :: int where "DEFAULT_CRDT_MAX_WAIT_MS = 1600"
definition SYSTEM_ACTOR_CRDT :: string where "SYSTEM_ACTOR_CRDT = ''system:crdt''"

record 'd yjs =
  y_new :: 'd
  y_apply :: "nat list \<Rightarrow> 'd \<Rightarrow> (string \<times> bool) list \<times> 'd \<times> string option"
  y_get :: "'d \<Rightarrow> string \<Rightarrow> (rat \<times> rat) option"

record 'd crdt_room =
  cr_doc :: 'd
  cr_pending :: positions
  cr_debounce :: "int option"
  cr_maxWait :: "int option"
  cr_flushStartedAt :: "int option"
  cr_lastEditor :: string

type_synonym 'd crdt_rooms = "(string \<times> 'd crdt_room) list"

section \<open>Operations\<close>

definition new_room :: "'d yjs \<Rightarrow> 'd crdt_room" where
  "new_room Y = \<lparr>cr_doc = y_new Y, cr_pending = [], cr_debounce = None, cr_maxWait = None, cr_flushStartedAt = None,
     cr_lastEditor = SYSTEM_ACTOR_CRDT\<rparr>"

definition getOrCreateRoom :: "'d yjs \<Rightarrow> string \<Rightarrow> 'd crdt_rooms \<Rightarrow> 'd crdt_room" where
  "getOrCreateRoom Y b rooms = (case js_get b rooms of Some room \<Rightarrow> room | None \<Rightarrow> new_room Y)"

definition observe_moves :: "'d yjs \<Rightarrow> 'd \<Rightarrow> (string \<times> bool) list \<Rightarrow> positions \<Rightarrow> positions" where
  \<comment> \<open>the callback of \<open>moves.observe\<close>\<close>
  "observe_moves Y doc changes pending = fold (\<lambda>(i, deleted) pending. if deleted then pending
     else (case y_get Y doc i of Some pos \<Rightarrow> js_put i pos pending | None \<Rightarrow> pending)) changes pending"

definition clear_room_timers :: "'d crdt_room \<Rightarrow> 'd crdt_room" where
  "clear_room_timers room = room\<lparr>cr_debounce := None, cr_maxWait := None, cr_flushStartedAt := None\<rparr>"

definition scheduleFlush :: "int \<Rightarrow> 'd crdt_room \<Rightarrow> 'd crdt_room" where
  "scheduleFlush now room = (let room = room\<lparr>cr_debounce := Some (now + DEFAULT_CRDT_DEBOUNCE_MS)\<rparr> in
     if cr_maxWait room \<noteq> None then room
     else room\<lparr>cr_flushStartedAt := Some now, cr_maxWait := Some (now + DEFAULT_CRDT_MAX_WAIT_MS)\<rparr>)"

definition applyRemoteUpdate :: "'d yjs \<Rightarrow> int \<Rightarrow> string \<Rightarrow> string \<Rightarrow> nat list \<Rightarrow> 'd crdt_rooms \<Rightarrow> (string + unit) \<times> 'd crdt_rooms" where
  "applyRemoteUpdate Y now b userId update rooms =
     (let room = (getOrCreateRoom Y b rooms)\<lparr>cr_lastEditor := userId\<rparr> in
      case y_apply Y update (cr_doc room) of (changes, doc, err) \<Rightarrow>
        (let room = room\<lparr>cr_doc := doc, cr_pending := observe_moves Y doc changes (cr_pending room)\<rparr> in
         case err of Some e \<Rightarrow> (Inl e, js_put b room rooms)
         | None \<Rightarrow> (Inr (), js_put b (scheduleFlush now room) rooms)))"

definition take_pending :: "string \<Rightarrow> 'd crdt_rooms \<Rightarrow> move list \<times> 'd crdt_rooms" where
  \<comment> \<open>\<open>flush\<close> up to its first \<open>await\<close>\<close>
  "take_pending b rooms = (case js_get b rooms of
     None \<Rightarrow> ([], rooms)
   | Some room \<Rightarrow> if cr_pending room = [] then ([], rooms)
       else (cr_pending room, js_put b ((clear_room_timers room)\<lparr>cr_pending := []\<rparr>) rooms))"

definition crdt_mutation :: "'w env \<Rightarrow> string \<Rightarrow> string \<Rightarrow> move list \<Rightarrow> 'w \<Rightarrow> mutation" where
  "crdt_mutation E uuid b moves w = \<lparr>mut_id = uuid, mut_board = b, mut_clientTimestamp = of_int (e_now E w),
     mut_operation = MOVE_ELEMENTS moves False\<rparr>"

definition flush_room :: "'w env \<Rightarrow> processor_config \<Rightarrow> string \<Rightarrow> string \<Rightarrow> 'd crdt_rooms \<Rightarrow> 'w \<Rightarrow>
    (unit result \<times> 'd crdt_rooms \<times> 'w) option" where
  \<comment> \<open>\<open>uuid\<close> is the \<open>randomUUID()\<close>; the rest of \<open>flush\<close> does not change the rooms\<close>
  "flush_room E cfg uuid b rooms w = (case take_pending b rooms of
     ([], rooms) \<Rightarrow> Some (Inr (), rooms, w)
   | (moves, rooms) \<Rightarrow> do {
       (loaded, w) \<leftarrow> loadBoard E b w;
       (case loaded of Inl err \<Rightarrow> Some (Inl err, rooms, w)
        | Inr _ \<Rightarrow> do {
            (results, w) \<leftarrow> processBatch E cfg [crdt_mutation E uuid b moves w] w;
            Some (map_sum id (\<lambda>_. ()) results, rooms, w)
          })
     })"

definition clearRoom :: "string \<Rightarrow> 'd crdt_rooms \<Rightarrow> 'd crdt_rooms" where
  "clearRoom b rooms = js_remove b rooms"

section \<open>What the event loop can run\<close>

datatype crdt_event =
    Update string string "nat list"
  | CrdtDebounceDue string
  | CrdtMaxWaitDue string
  | CrdtFlushNow string
  | ClearRoom string

fun room_timer :: "('d crdt_room \<Rightarrow> int option) \<Rightarrow> string \<Rightarrow> 'd crdt_rooms \<Rightarrow> int option" where
  "room_timer timer b rooms = Option.bind (js_get b rooms) timer"

fun crdt_enabled :: "int \<Rightarrow> crdt_event \<Rightarrow> 'd crdt_rooms \<Rightarrow> bool" where
  "crdt_enabled now (CrdtDebounceDue b) rooms = (case room_timer cr_debounce b rooms of None \<Rightarrow> False | Some due \<Rightarrow> due \<le> now)"
| "crdt_enabled now (CrdtMaxWaitDue b) rooms = (case room_timer cr_maxWait b rooms of None \<Rightarrow> False | Some due \<Rightarrow> due \<le> now)"
| "crdt_enabled now _ rooms = True"

definition change_room :: "('d crdt_room \<Rightarrow> 'd crdt_room) \<Rightarrow> string \<Rightarrow> 'd crdt_rooms \<Rightarrow> 'd crdt_rooms" where
  "change_room f b rooms = (case js_get b rooms of None \<Rightarrow> rooms | Some room \<Rightarrow> js_put b (f room) rooms)"

fun crdt_step :: "'d yjs \<Rightarrow> int \<Rightarrow> crdt_event \<Rightarrow> 'd crdt_rooms \<Rightarrow> 'd crdt_rooms" where
  \<comment> \<open>a timer callback first forgets its timer\<close>
  "crdt_step Y now (Update b u update) rooms = snd (applyRemoteUpdate Y now b u update rooms)"
| "crdt_step Y now (CrdtDebounceDue b) rooms = snd (take_pending b (change_room (\<lambda>r. r\<lparr>cr_debounce := None\<rparr>) b rooms))"
| "crdt_step Y now (CrdtMaxWaitDue b) rooms = snd (take_pending b (change_room (\<lambda>r. r\<lparr>cr_maxWait := None\<rparr>) b rooms))"
| "crdt_step Y now (CrdtFlushNow b) rooms = snd (take_pending b rooms)"
| "crdt_step Y now (ClearRoom b) rooms = clearRoom b rooms"

definition timers_after :: "int \<Rightarrow> 'd crdt_rooms \<Rightarrow> bool" where
  \<comment> \<open>no armed timer is due before \<open>t\<close>\<close>
  "timers_after t rooms = (\<forall>b room due. js_get b rooms = Some room \<longrightarrow>
     cr_debounce room = Some due \<or> cr_maxWait room = Some due \<longrightarrow> t \<le> due)"

inductive crdt_from :: "'d yjs \<Rightarrow> int \<Rightarrow> 'd crdt_rooms \<Rightarrow> crdt_event list \<Rightarrow> int \<Rightarrow> 'd crdt_rooms \<Rightarrow> bool" for Y start rooms0 where
  here: "crdt_from Y start rooms0 [] start rooms0"
| wait: "crdt_from Y start rooms0 evs now rooms \<Longrightarrow> now \<le> t \<Longrightarrow> timers_after t rooms \<Longrightarrow> crdt_from Y start rooms0 evs t rooms"
| step: "crdt_from Y start rooms0 evs now rooms \<Longrightarrow> crdt_enabled now ev rooms \<Longrightarrow>
    crdt_from Y start rooms0 (evs @ [ev]) now (crdt_step Y now ev rooms)"

fun takes :: "string \<Rightarrow> crdt_event \<Rightarrow> bool" where
  \<comment> \<open>the events at which a flush takes the positions of the board out of its room, or the room goes\<close>
  "takes b (Update c u update) = False"
| "takes b (CrdtDebounceDue c) = (c = b)"
| "takes b (CrdtMaxWaitDue c) = (c = b)"
| "takes b (CrdtFlushNow c) = (c = b)"
| "takes b (ClearRoom c) = (c = b)"

section \<open>Rooms\<close>

definition room_ok :: "'d yjs \<Rightarrow> int \<Rightarrow> 'd crdt_room \<Rightarrow> bool" where
  \<comment> \<open>the maximal wait is a bound of its timer, and pending positions are those of the document, unless they were deleted
    there afterwards\<close>
  "room_ok Y now room = ((\<forall>due. cr_maxWait room = Some due \<longrightarrow> now \<le> due \<and> due \<le> now + DEFAULT_CRDT_MAX_WAIT_MS) \<and>
     (\<forall>i pos. js_get i (cr_pending room) = Some pos \<longrightarrow> y_get Y (cr_doc room) i \<in> {Some pos, None}))"

definition rooms_ok :: "'d yjs \<Rightarrow> int \<Rightarrow> 'd crdt_rooms \<Rightarrow> bool" where
  "rooms_ok Y now rooms = (\<forall>b room. js_get b rooms = Some room \<longrightarrow> room_ok Y now room)"

definition yjs_keys :: "'d yjs \<Rightarrow> bool" where
  \<comment> \<open>the event of a map lists the keys whose values changed, and as deleted those that are gone\<close>
  "yjs_keys Y = (\<forall>update d changes d' err. y_apply Y update d = (changes, d', err) \<longrightarrow>
     (\<forall>i. (i, True) \<notin> set changes \<longrightarrow> (i, False) \<notin> set changes \<longrightarrow> y_get Y d' i = y_get Y d i) \<and>
     (\<forall>i. (i, True) \<in> set changes \<longrightarrow> y_get Y d' i = None))"

lemma observe_Cons:
  "observe_moves Y doc ((k, deleted) # changes) pending =
     observe_moves Y doc changes (if deleted \<or> y_get Y doc k = None then pending else js_put k (the (y_get Y doc k)) pending)"
  by (cases deleted; cases "y_get Y doc k") (simp_all add: observe_moves_def)

lemma observed:
  "js_get i (observe_moves Y doc changes pending) =
     (if (i, False) \<in> set changes \<and> y_get Y doc i \<noteq> None then y_get Y doc i else js_get i pending)"
proof (induction changes arbitrary: pending)
  case Nil
  show ?case by (simp add: observe_moves_def)
next
  case (Cons c changes)
  obtain k deleted where c: "c = (k, deleted)" by fastforce
  show ?case
  proof (cases "k = i")
    case True
    then show ?thesis unfolding c observe_Cons Cons.IH by (cases deleted) auto
  next
    case False
    then show ?thesis unfolding c observe_Cons Cons.IH by auto
  qed
qed

lemma room_ok_update:
  assumes "yjs_keys Y" "room_ok Y now room"
    and applied: "y_apply Y update (cr_doc room) = (changes, doc, err)"
  shows "room_ok Y now (let room = room\<lparr>cr_lastEditor := u, cr_doc := doc, cr_pending := observe_moves Y doc changes (cr_pending room)\<rparr>
    in case err of Some e \<Rightarrow> room | None \<Rightarrow> scheduleFlush now room)"
proof -
  have keys: "(i, True) \<notin> set changes \<Longrightarrow> (i, False) \<notin> set changes \<Longrightarrow> y_get Y doc i = y_get Y (cr_doc room) i"
    "(i, True) \<in> set changes \<Longrightarrow> y_get Y doc i = None" for i
    using assms(1)[unfolded yjs_keys_def, rule_format, OF applied] by simp_all
  have doc: "y_get Y doc i \<in> {Some pos, None}" if "js_get i (observe_moves Y doc changes (cr_pending room)) = Some pos" for i pos
  proof (cases "(i, True) \<in> set changes \<or> (i, False) \<in> set changes \<and> y_get Y doc i \<noteq> None")
    case True
    then show ?thesis using that keys(2)[of i] unfolding observed by auto
  next
    case False
    then have "js_get i (cr_pending room) = Some pos" using that unfolding observed by (simp split: if_splits)
    then have "y_get Y (cr_doc room) i \<in> {Some pos, None}" using assms(2) unfolding room_ok_def by blast
    then show ?thesis using False keys(1)[of i] by auto
  qed
  show ?thesis using assms(2) doc
    by (cases err) (auto simp: room_ok_def scheduleFlush_def Let_def DEFAULT_CRDT_MAX_WAIT_MS_def)
qed

lemma new_room_ok: "room_ok Y now (new_room Y)"
  by (simp add: room_ok_def new_room_def)

lemma take_pending_state:
  "js_get c (snd (take_pending b rooms)) = (if c = b then map_option (\<lambda>room. if cr_pending room = [] then room
     else (clear_room_timers room)\<lparr>cr_pending := []\<rparr>) (js_get b rooms) else js_get c rooms)"
  by (auto simp: take_pending_def split: option.split)

lemma room_ok_flushed: "room_ok Y now ((clear_room_timers room)\<lparr>cr_pending := []\<rparr>)"
  by (simp add: room_ok_def clear_room_timers_def)

lemma room_ok_forget_debounce: "room_ok Y now room \<Longrightarrow> room_ok Y now (room\<lparr>cr_debounce := None\<rparr>)"
  by (simp add: room_ok_def)

lemma room_ok_forget_maxWait: "room_ok Y now room \<Longrightarrow> room_ok Y now (room\<lparr>cr_maxWait := None\<rparr>)"
  by (simp add: room_ok_def)

lemma change_room_get: "js_get c (change_room f b rooms) = (if c = b then map_option f (js_get b rooms) else js_get c rooms)"
  by (auto simp: change_room_def split: option.split)

lemma take_ok: "rooms_ok Y now rooms \<Longrightarrow> rooms_ok Y now (snd (take_pending b rooms))"
  by (auto simp: rooms_ok_def take_pending_state room_ok_flushed split: if_splits)

lemma change_ok:
  "rooms_ok Y now rooms \<Longrightarrow> (\<And>room. room_ok Y now room \<Longrightarrow> room_ok Y now (f room)) \<Longrightarrow> rooms_ok Y now (change_room f b rooms)"
  by (auto simp: rooms_ok_def change_room_get split: if_splits)

lemma step_rooms_ok:
  assumes "yjs_keys Y" "rooms_ok Y now rooms" shows "rooms_ok Y now (crdt_step Y now ev rooms)"
proof (cases ev)
  case (Update b u update)
  let ?room = "getOrCreateRoom Y b rooms"
  obtain changes doc err where a: "y_apply Y update (cr_doc ?room) = (changes, doc, err)" by (metis prod_cases3)
  have "room_ok Y now ?room" using assms(2) new_room_ok by (auto simp: rooms_ok_def getOrCreateRoom_def split: option.split)
  from room_ok_update[OF assms(1) this a, of u] show ?thesis using assms(2) Update a
    by (auto simp: rooms_ok_def applyRemoteUpdate_def Let_def split: option.split)
qed (use assms(2) in \<open>auto simp: clearRoom_def rooms_ok_def[of Y now "js_remove _ _"] intro!: take_ok change_ok room_ok_forget_debounce
  room_ok_forget_maxWait split: if_splits dest: rooms_ok_def[THEN iffD1, rule_format]\<close>)

lemma from_rooms_ok:
  assumes "crdt_from Y start rooms0 evs now rooms" "yjs_keys Y" "rooms_ok Y start rooms0"
  shows "rooms_ok Y now rooms"
  using assms(1)
proof induction
  case (wait evs now rooms t)
  then show ?case unfolding timers_after_def rooms_ok_def room_ok_def by fastforce
qed (simp_all add: assms(3) step_rooms_ok[OF assms(2)])

definition waiting :: "string \<Rightarrow> int \<Rightarrow> string \<Rightarrow> 'd crdt_rooms \<Rightarrow> bool" where
  \<comment> \<open>the room of the board has a position of \<open>i\<close> to save, and its maximal wait ends at \<open>due\<close>\<close>
  "waiting b due i rooms = (\<exists>room. js_get b rooms = Some room \<and> cr_maxWait room = Some due \<and> js_get i (cr_pending room) \<noteq> None)"

lemma keeps_pending: "js_get i pending \<noteq> None \<Longrightarrow> js_get i (observe_moves Y doc changes pending) \<noteq> None"
  by (simp add: observed)

lemma waiting_step:
  assumes "waiting b due i rooms" "\<not> takes b ev" shows "waiting b due i (crdt_step Y now ev rooms)"
proof (cases ev)
  case (Update c u update)
  obtain room where room: "js_get b rooms = Some room" "cr_maxWait room = Some due" "js_get i (cr_pending room) \<noteq> None"
    using assms(1) by (auto simp: waiting_def)
  show ?thesis
  proof (cases "c = b")
    case True
    obtain changes doc err where a: "y_apply Y update (cr_doc room) = (changes, doc, err)" by (metis prod_cases3)
    then show ?thesis using room True keeps_pending[OF room(3), of Y doc changes]
      by (cases err) (auto simp: waiting_def Update applyRemoteUpdate_def getOrCreateRoom_def Let_def scheduleFlush_def)
  next
    case False
    then show ?thesis using room
      by (auto simp: waiting_def Update applyRemoteUpdate_def Let_def split: prod.split option.split)
  qed
qed (use assms in \<open>auto simp: waiting_def take_pending_state change_room_get clearRoom_def\<close>)

lemma waiting_from:
  assumes "crdt_from Y start rooms0 evs now rooms" "waiting b due i rooms0" "start \<le> due" "\<forall>ev \<in> set evs. \<not> takes b ev"
  shows "waiting b due i rooms \<and> now \<le> due"
  using assms(1,4)
proof induction
  case here
  show ?case using assms(2,3) by simp
next
  case (wait evs now rooms t)
  then show ?case by (auto simp: waiting_def timers_after_def)
next
  case (step evs now rooms ev)
  then show ?case using waiting_step[of b due i rooms ev Y now] by simp
qed

lemma accepted_waits:
  assumes "rooms_ok Y now rooms" "applyRemoteUpdate Y now b u update rooms = (Inr (), rooms1)"
    and "js_get b rooms1 = Some room1" "js_get i (cr_pending room1) \<noteq> None"
  shows "\<exists>due. waiting b due i rooms1 \<and> now \<le> due \<and> due \<le> now + DEFAULT_CRDT_MAX_WAIT_MS"
proof -
  let ?room = "getOrCreateRoom Y b rooms"
  obtain changes doc where a: "y_apply Y update (cr_doc ?room) = (changes, doc, None)"
    using assms(2) by (auto simp: applyRemoteUpdate_def Let_def split: prod.splits option.splits)
  have "room_ok Y now ?room" using assms(1) new_room_ok by (auto simp: rooms_ok_def getOrCreateRoom_def split: option.split)
  moreover have "rooms1 = js_put b (scheduleFlush now (?room\<lparr>cr_lastEditor := u, cr_doc := doc,
      cr_pending := observe_moves Y doc changes (cr_pending ?room)\<rparr>)) rooms"
    using assms(2) a by (simp add: applyRemoteUpdate_def Let_def)
  ultimately show ?thesis using assms(3,4)
    by (cases "cr_maxWait ?room") (auto simp: waiting_def scheduleFlush_def Let_def room_ok_def DEFAULT_CRDT_MAX_WAIT_MS_def)
qed

section \<open>What the rooms guarantee\<close>

text \<open>C15: A position moved by the CRDT is taken to be saved in time. Take any run of the rooms and an update of a board that
  is applied without an error at \<open>t\<close>, and an element whose position waits in the room then. Whatever follows, updates
  that throw half-way included: until an event takes the positions of the room for a flush (or the room is cleared),
  not more than 1600 milliseconds have passed since \<open>t\<close>, the maximal-wait timer is armed and due by then, and the
  position still waits, as the document has it, or as it had it before the document deleted the element.\<close>

theorem crdt_moves_saved_in_time:
  assumes "yjs_keys Y" "crdt_from Y start [] before t rooms"
    and "applyRemoteUpdate Y t b u update rooms = (Inr (), rooms1)"
    and "js_get b rooms1 = Some room1" "js_get i (cr_pending room1) \<noteq> None"
    and "crdt_from Y t rooms1 after now rooms2" "\<forall>ev \<in> set after. \<not> takes b ev"
  shows "now \<le> t + 1600 \<and> (\<exists>room2 due pos. js_get b rooms2 = Some room2 \<and>
    cr_maxWait room2 = Some due \<and> now \<le> due \<and> due \<le> t + 1600 \<and>
    js_get i (cr_pending room2) = Some pos \<and> y_get Y (cr_doc room2) i \<in> {Some pos, None})"
proof -
  have ok: "rooms_ok Y t rooms" by (rule from_rooms_ok[OF assms(2,1)]) (simp add: rooms_ok_def)
  obtain due where due: "waiting b due i rooms1" "t \<le> due" "due \<le> t + DEFAULT_CRDT_MAX_WAIT_MS"
    using accepted_waits[OF ok assms(3-5)] by blast
  have "rooms_ok Y t (crdt_step Y t (Update b u update) rooms)" by (rule step_rooms_ok[OF assms(1) ok])
  then have "rooms_ok Y t rooms1" by (simp add: assms(3))
  then have ok2: "rooms_ok Y now rooms2" by (rule from_rooms_ok[OF assms(6,1)])
  have w: "waiting b due i rooms2" "now \<le> due" using waiting_from[OF assms(6) due(1,2) assms(7)] by auto
  then obtain room2 pos where "js_get b rooms2 = Some room2" "cr_maxWait room2 = Some due" "js_get i (cr_pending room2) = Some pos"
    by (auto simp: waiting_def)
  moreover from this have "y_get Y (cr_doc room2) i \<in> {Some pos, None}" using ok2 unfolding rooms_ok_def room_ok_def by blast
  ultimately show ?thesis using w(2) due(3) by (auto simp: DEFAULT_CRDT_MAX_WAIT_MS_def)
qed

text \<open>An update that Yjs throws on after it has changed the map leaves its positions without a timer: nothing saves them
  until another update of the board comes.\<close>

theorem rejected_update_strands_moves:
  assumes "js_get b rooms = None" "y_apply Y update (y_new Y) = ([(i, False)], doc, Some e)" "y_get Y doc i = Some pos"
  shows "\<exists>room. applyRemoteUpdate Y now b u update rooms = (Inl e, js_put b room rooms) \<and>
    cr_pending room = [(i, pos)] \<and> cr_debounce room = None \<and> cr_maxWait room = None"
  using assms
  by (intro exI[of _ "\<lparr>cr_doc = doc, cr_pending = [(i, pos)], cr_debounce = None, cr_maxWait = None, cr_flushStartedAt = None,
        cr_lastEditor = u\<rparr>"]) (simp add: applyRemoteUpdate_def getOrCreateRoom_def new_room_def observe_moves_def Let_def)

text \<open>A flush takes the positions out of the room before it loads the board: when that fails they are gone, no timer brings
  them back, and the database keeps the old ones.\<close>

theorem failed_crdt_flush_drops_moves:
  assumes "js_get b rooms = Some room" "cr_pending room \<noteq> []" "loadBoard E b w = Some (Inl err, w')"
  shows "\<exists>rooms'. flush_room E cfg uuid b rooms w = Some (Inl err, rooms', w') \<and>
    (\<exists>room'. js_get b rooms' = Some room' \<and> cr_pending room' = [] \<and> cr_debounce room' = None \<and> cr_maxWait room' = None)"
proof -
  let ?rooms = "js_put b ((clear_room_timers room)\<lparr>cr_pending := []\<rparr>) rooms"
  obtain m ms where "take_pending b rooms = (m # ms, ?rooms)"
    using assms(1,2) by (cases "cr_pending room") (simp_all add: take_pending_def)
  then show ?thesis using assms(3) by (simp add: flush_room_def clear_room_timers_def)
qed

section \<open>Witnesses\<close>

definition demo_yjs :: "positions yjs" where
  \<comment> \<open>an update of three bytes sets an element, one of two deletes it, any other throws\<close>
  "demo_yjs = \<lparr>y_new = [], y_apply = (\<lambda>update d. case update of
       [i, x, y] \<Rightarrow> ([([char_of i], False)], js_put [char_of i] (of_nat x, of_nat y) d, None)
     | [i, x] \<Rightarrow> ([([char_of i], True)], js_remove [char_of i] d, None)
     | _ \<Rightarrow> ([], d, Some ''Unexpected end of array'')), y_get = (\<lambda>d i. js_get i d)\<rparr>"

definition late_yjs :: "positions yjs" where
  \<comment> \<open>throws after it has set the element\<close>
  "late_yjs = demo_yjs\<lparr>y_apply := (\<lambda>update d. ([(''e'', False)], js_put ''e'' (1, 2) d, Some ''Integer out of Range''))\<rparr>"

definition moved_rooms :: "positions crdt_rooms" where
  "moved_rooms = [(''b1'', \<lparr>cr_doc = [(''e'', 1, 2)], cr_pending = [(''e'', 1, 2)], cr_debounce = Some 400, cr_maxWait = Some 1600,
     cr_flushStartedAt = Some 0, cr_lastEditor = ''u''\<rparr>)]"

lemma demo_yjs_keys: "yjs_keys demo_yjs"
  by (auto simp: yjs_keys_def demo_yjs_def split: list.splits)

lemma js_get_hd: "js_get k ((k, v) # xs) = Some v"
  by simp

lemma char_e: "char_of (101 :: nat) = CHR ''e''"
  by code_simp

lemma moved_rooms_reached: "applyRemoteUpdate demo_yjs 0 ''b1'' ''u'' [101, 1, 2] [] = (Inr (), moved_rooms)"
  by (simp add: applyRemoteUpdate_def getOrCreateRoom_def new_room_def demo_yjs_def observe_moves_def Let_def
      scheduleFlush_def moved_rooms_def char_e DEFAULT_CRDT_DEBOUNCE_MS_def DEFAULT_CRDT_MAX_WAIT_MS_def)

theorem crdt_moves_saved_in_time_witness:
  "\<exists>now rooms2. crdt_from demo_yjs 0 moved_rooms [Update ''b1'' ''v'' [1]] now rooms2 \<and> now = 400 \<and>
     (\<exists>room2 due. js_get ''b1'' rooms2 = Some room2 \<and> cr_maxWait room2 = Some due \<and> due \<le> 1600)"
proof -
  have "\<exists>room. js_get ''b1'' moved_rooms = Some room \<and> js_get ''e'' (cr_pending room) = Some (1, 2)"
    unfolding moved_rooms_def by (intro exI conjI, rule js_get_hd) simp
  then obtain room where room: "js_get ''b1'' moved_rooms = Some room" "js_get ''e'' (cr_pending room) \<noteq> None" by auto
  have "crdt_from demo_yjs 0 moved_rooms [] 400 moved_rooms"
    by (rule crdt_from.wait[OF crdt_from.here]) (auto simp: timers_after_def moved_rooms_def split: if_splits)
  from crdt_from.step[OF this, of "Update ''b1'' ''v'' [1]"]
  have run: "crdt_from demo_yjs 0 moved_rooms [Update ''b1'' ''v'' [1]] 400 (crdt_step demo_yjs 400 (Update ''b1'' ''v'' [1]) moved_rooms)"
    by simp
  have "\<forall>ev \<in> set [Update ''b1'' ''v'' [1]]. \<not> takes ''b1'' ev" by simp
  from crdt_moves_saved_in_time[OF demo_yjs_keys crdt_from.here moved_rooms_reached room run this] run
  show ?thesis by (simp del: crdt_step.simps) blast
qed

theorem rejected_update_strands_moves_witness:
  "\<exists>room. applyRemoteUpdate late_yjs 0 ''b1'' ''u'' [9] [] = (Inl ''Integer out of Range'', js_put ''b1'' room []) \<and>
    cr_pending room = [(''e'', 1, 2)] \<and> cr_debounce room = None \<and> cr_maxWait room = None"
  by (rule rejected_update_strands_moves[of _ _ late_yjs _ _ "[(''e'', 1, 2)]"]) (simp_all add: late_yjs_def demo_yjs_def)

theorem failed_crdt_flush_drops_moves_witness:
  "\<exists>rooms' w' err. flush_room broken_db \<lparr>pr_targetedReads = True, pr_incremental = True\<rparr> ''m'' ''b1'' moved_rooms mem0 =
     Some (Inl err, rooms', w') \<and> (\<exists>room'. js_get ''b1'' rooms' = Some room' \<and> cr_pending room' = [])"
proof -
  have "\<exists>room. js_get ''b1'' moved_rooms = Some room \<and> cr_pending room \<noteq> []" by (simp add: moved_rooms_def)
  then obtain room where room: "js_get ''b1'' moved_rooms = Some room" "cr_pending room \<noteq> []" by blast
  obtain err w' where "loadBoard broken_db ''b1'' mem0 = Some (Inl err, w')" using broken_load by blast
  from failed_crdt_flush_drops_moves[OF room this] show ?thesis by metis
qed

end
