(* ===== verification/Billing.thy ===== *)
theory Billing
  imports Users
begin

text \<open>
  The billing service (\<open>modules/billing/billing/*.ts\<close>): customer links, subscriptions, the billing
  profile, checkout and portal, webhooks, with the status codes of \<open>billing/routes.ts\<close>. Stripe is the
  parameter \<open>stripe_api\<close>, one operation per call the code makes. The tables of
  \<open>platform/db/schema/billing.ts\<close> are the record \<open>billing\<close>; an operation returns its result or the
  error it throws, and the tables after it: statements that have run stay, there is no transaction.
  The lemmas show that the unique indexes hold, which plan a profile shows, that a webhook event
  changes the tables at most once, and four ways in which links and events are lost.
\<close>

section \<open>Plans\<close>

datatype billing_plan = Free | Startup | Business | Trial | Dev

fun plan_name :: "billing_plan \<Rightarrow> string" where
  "plan_name Free = ''free''"
| "plan_name Startup = ''startup''"
| "plan_name Business = ''business''"
| "plan_name Trial = ''trial''"
| "plan_name Dev = ''dev''"

record plan_limits =
  li_workspaces :: "nat option"
  li_boards :: "nat option"
  li_elements :: "nat option"
  li_users :: "nat option"

fun PLAN_LIMITS :: "billing_plan \<Rightarrow> plan_limits" where
  "PLAN_LIMITS Free = \<lparr>li_workspaces = Some 1, li_boards = Some 5, li_elements = Some 500, li_users = Some 1\<rparr>"
| "PLAN_LIMITS Startup = \<lparr>li_workspaces = Some 5, li_boards = Some 25, li_elements = Some 2500, li_users = Some 5\<rparr>"
| "PLAN_LIMITS Business = \<lparr>li_workspaces = Some 25, li_boards = Some 100, li_elements = Some 10000, li_users = Some 20\<rparr>"
| "PLAN_LIMITS Trial = \<lparr>li_workspaces = Some 3, li_boards = Some 10, li_elements = Some 1500, li_users = Some 3\<rparr>"
| "PLAN_LIMITS Dev = \<lparr>li_workspaces = None, li_boards = None, li_elements = None, li_users = None\<rparr>"

record billing_config =
  cf_nodeEnv :: string
  cf_corsOrigin :: string
  cf_enabled :: bool
  cf_secretKey :: "string option"
  cf_priceStartup :: "string option"
  cf_priceBusiness :: "string option"
  cf_successUrl :: "string option"
  cf_cancelUrl :: "string option"
  cf_portalReturnUrl :: "string option"
  cf_webhookSecret :: "string option"

definition isStripeConfigured :: "billing_config \<Rightarrow> bool" where
  "isStripeConfigured C = (cf_enabled C \<and> truthy (cf_secretKey C) \<and> truthy (cf_priceStartup C) \<and> truthy (cf_priceBusiness C))"

definition getPlanFromPriceId :: "string option \<Rightarrow> billing_config \<Rightarrow> billing_plan" where
  "getPlanFromPriceId priceId C =
     (if \<not> truthy priceId then Free
      else if truthy (cf_priceBusiness C) \<and> priceId = cf_priceBusiness C then Business
      else if truthy (cf_priceStartup C) \<and> priceId = cf_priceStartup C then Startup
      else Free)"

definition getPlanFromSubscriptionRecord :: "string \<Rightarrow> string \<Rightarrow> billing_plan" where
  "getPlanFromSubscriptionRecord plan status =
     (if status = ''trialing'' then Trial
      else if plan = ''business'' then Business
      else if plan = ''startup'' then Startup
      else Free)"

section \<open>What Stripe hands out\<close>

record customer =
  cu_id :: string
  cu_email :: "string option"
  cu_userId :: "string option"
    \<comment> \<open>\<open>metadata.userId\<close>\<close>

record subscription_item =
  it_price :: string
  it_periodEnd :: "int option"

record subscription =
  su_id :: string
  su_customer :: string
  su_status :: string
  su_created :: int
  su_items :: "subscription_item list"
  su_userId :: "string option"
  su_organizationId :: "string option"
  su_organization_id :: "string option"
    \<comment> \<open>the three entries of \<open>metadata\<close> the code reads\<close>
  su_trialEnd :: "int option"
  su_cancelAtPeriodEnd :: bool

definition ACTIVE_STATES :: "string list" where
  "ACTIVE_STATES = [''trialing'', ''active'', ''past_due'', ''unpaid'']"

definition pickActiveSubscription :: "subscription list \<Rightarrow> subscription option" where
  "pickActiveSubscription subscriptions =
     (case sort_key (\<lambda>s. - su_created s) (filter (\<lambda>s. su_status s \<in> set ACTIVE_STATES) subscriptions) of
        [] \<Rightarrow> None | s # _ \<Rightarrow> Some s)"

definition getSubscriptionOrganizationId :: "subscription \<Rightarrow> string option" where
  "getSubscriptionOrganizationId s =
     (case su_organizationId s of None \<Rightarrow> su_organization_id s | Some i \<Rightarrow> Some i)"

definition toDate :: "int option \<Rightarrow> int option" where
  \<comment> \<open>seconds to the milliseconds of a \<open>Date\<close>; 0 is falsy\<close>
  "toDate v = (case v of None \<Rightarrow> None | Some n \<Rightarrow> if n = 0 then None else Some (n * 1000))"

definition getSubscriptionCurrentPeriodEnd :: "subscription \<Rightarrow> int option" where
  "getSubscriptionCurrentPeriodEnd s =
     (case List.map_filter it_periodEnd (su_items s) of [] \<Rightarrow> None | e # es \<Rightarrow> Some (fold max es e))"

definition first_price :: "subscription \<Rightarrow> string option" where
  "first_price s = (case su_items s of [] \<Rightarrow> None | i # _ \<Rightarrow> Some (it_price i))"

record checkout_session =
  se_customer :: "string option"
    \<comment> \<open>when it is a string\<close>
  se_userId :: "string option"
  se_organizationId :: "string option"
  se_organization_id :: "string option"
  se_email :: "string option"

datatype event_data =
    CheckoutSessionCompleted checkout_session
  | SubscriptionCreated subscription
  | SubscriptionUpdated subscription
  | SubscriptionResumed subscription
  | SubscriptionTrialWillEnd subscription
  | SubscriptionDeleted subscription
  | SubscriptionPaused subscription
  | OtherEvent string

record stripe_event =
  ev_id :: string
  ev_data :: event_data

fun event_type :: "event_data \<Rightarrow> string" where
  "event_type (CheckoutSessionCompleted s) = ''checkout.session.completed''"
| "event_type (SubscriptionCreated s) = ''customer.subscription.created''"
| "event_type (SubscriptionUpdated s) = ''customer.subscription.updated''"
| "event_type (SubscriptionResumed s) = ''customer.subscription.resumed''"
| "event_type (SubscriptionTrialWillEnd s) = ''customer.subscription.trial_will_end''"
| "event_type (SubscriptionDeleted s) = ''customer.subscription.deleted''"
| "event_type (SubscriptionPaused s) = ''customer.subscription.paused''"
| "event_type (OtherEvent t) = t"

record checkout_order =
  co_customer :: string
  co_price :: string
  co_successUrl :: string
  co_cancelUrl :: string
  co_userId :: string
  co_plan :: string

record stripe_api =
  sp_retrieve :: "string \<Rightarrow> customer option outcome"
    \<comment> \<open>\<open>None\<close>: the customer has been deleted\<close>
  sp_list_customers :: "string \<Rightarrow> customer list outcome"
  sp_create_customer :: "string \<Rightarrow> string \<Rightarrow> string \<Rightarrow> customer outcome"
  sp_list_subscriptions :: "string \<Rightarrow> subscription list outcome"
  sp_checkout :: "checkout_order \<Rightarrow> (string option \<times> string) outcome"
    \<comment> \<open>URL and id of the session\<close>
  sp_portal :: "string \<Rightarrow> string \<Rightarrow> string outcome"
  sp_construct_event :: "nat list \<Rightarrow> string \<Rightarrow> string \<Rightarrow> stripe_event outcome"

section \<open>Tables\<close>

record customer_link_row =
  cl_customer :: string
  cl_user :: "string option"
  cl_organization :: "string option"
  cl_email :: "string option"
  cl_updatedAt :: "int option"

record subscription_row =
  sr_subscription :: string
  sr_customer :: string
  sr_organization :: "string option"
  sr_user :: "string option"
  sr_status :: string
  sr_plan :: string
  sr_price :: "string option"
  sr_trialEnd :: "int option"
  sr_periodEnd :: "int option"
  sr_cancelAtPeriodEnd :: bool
  sr_raw :: "subscription option"
  sr_updatedAt :: "int option"

record webhook_event_row =
  we_event :: string
  we_type :: string

record billing =
  bl_links :: "customer_link_row list"
  bl_subscriptions :: "subscription_row list"
  bl_events :: "webhook_event_row list"

record billing_env =
  be_sql :: sql_env
  be_config :: billing_config
  be_api :: stripe_api
  be_tables :: tables

definition stripe :: "billing_env \<Rightarrow> stripe_api option" where
  "stripe E = (if isStripeConfigured (be_config E) then Some (be_api E) else None)"

definition user_reference_ok :: "billing_env \<Rightarrow> string option \<Rightarrow> bool" where
  \<comment> \<open>the foreign key to \<open>users\<close>; text that is no UUID is no key either\<close>
  "user_reference_ok E u = (case u of None \<Rightarrow> True | Some i \<Rightarrow> has_user (be_tables E) i)"

definition upsert_row :: "('r \<Rightarrow> bool) \<Rightarrow> ('r \<Rightarrow> 'r) \<Rightarrow> 'r \<Rightarrow> 'r list \<Rightarrow> 'r list" where
  \<comment> \<open>\<open>insert ... on conflict (key) do update\<close>\<close>
  "upsert_row is_target upd row rows =
     (if list_ex is_target rows then update_rows is_target upd rows else rows @ [row])"

section \<open>Customers\<close>

definition upsertCustomerLink ::
    "billing_env \<Rightarrow> string \<Rightarrow> string option \<Rightarrow> string option \<Rightarrow> string option \<Rightarrow> billing \<Rightarrow> unit outcome \<times> billing" where
  \<comment> \<open>the statement of the code; both refusals are those of the schema, the unique index on the user and the foreign key\<close>
  "upsertCustomerLink E customerId userId organizationId email B =
     (if userId \<noteq> None \<and> list_ex (\<lambda>l. cl_customer l \<noteq> customerId \<and> cl_user l = userId) (bl_links B)
      then (Inl (Raised (s_raise (be_sql E) UNIQUE_VIOLATION)), B)
      else if \<not> user_reference_ok E userId then (Inl (Raised (s_raise (be_sql E) FOREIGN_KEY_VIOLATION)), B)
      else let row = \<lparr>cl_customer = customerId, cl_user = userId, cl_organization = organizationId,
               cl_email = email, cl_updatedAt = Some (s_now (be_sql E))\<rparr>
        in (Inr (), B\<lparr>bl_links := upsert_row (\<lambda>l. cl_customer l = customerId) (\<lambda>l. row) row (bl_links B)\<rparr>))"

definition find_customer_by_email ::
    "billing_env \<Rightarrow> stripe_api \<Rightarrow> string \<Rightarrow> string \<Rightarrow> billing \<Rightarrow> customer option outcome \<times> billing" where
  "find_customer_by_email E api userId email B = (case sp_list_customers api email of
     Inl e \<Rightarrow> (Inl e, B)
   | Inr customers \<Rightarrow>
      (case (case List.find (\<lambda>c. cu_userId c = Some userId) customers of
               Some c \<Rightarrow> Some c | None \<Rightarrow> (case customers of [] \<Rightarrow> None | c # _ \<Rightarrow> Some c)) of
         None \<Rightarrow> (Inr None, B)
       | Some customer \<Rightarrow> (case upsertCustomerLink E (cu_id customer) (Some userId) None (cu_email customer) B of
           (Inl e, B) \<Rightarrow> (Inl e, B)
         | (Inr _, B) \<Rightarrow> (Inr (Some customer), B))))"

definition findStripeCustomerByUser ::
    "billing_env \<Rightarrow> string \<Rightarrow> string \<Rightarrow> billing \<Rightarrow> customer option outcome \<times> billing" where
  "findStripeCustomerByUser E userId email B = (case stripe E of
     None \<Rightarrow> (Inr None, B)
   | Some api \<Rightarrow> (case select_one (\<lambda>l. cl_user l = Some userId) (bl_links B) of
       None \<Rightarrow> find_customer_by_email E api userId email B
     | Some link \<Rightarrow> (case sp_retrieve api (cl_customer link) of
         Inl e \<Rightarrow> (Inl e, B)
       | Inr (Some customer) \<Rightarrow> (Inr (Some customer), B)
       | Inr None \<Rightarrow> find_customer_by_email E api userId email B)))"

definition getOrCreateStripeCustomer ::
    "billing_env \<Rightarrow> string \<Rightarrow> string \<Rightarrow> string \<Rightarrow> billing \<Rightarrow> customer outcome \<times> billing" where
  "getOrCreateStripeCustomer E userId email name B = (case stripe E of
     None \<Rightarrow> (Inl (Thrown ''Stripe billing is not configured''), B)
   | Some api \<Rightarrow> (case findStripeCustomerByUser E userId email B of
       (Inl e, B) \<Rightarrow> (Inl e, B)
     | (Inr (Some existing), B) \<Rightarrow> (Inr existing, B)
     | (Inr None, B) \<Rightarrow> (case sp_create_customer api email name userId of
         Inl e \<Rightarrow> (Inl e, B)
       | Inr customer \<Rightarrow> (case upsertCustomerLink E (cu_id customer) (Some userId) None
             (case cu_email customer of None \<Rightarrow> Some email | Some m \<Rightarrow> Some m) B of
           (Inl e, B) \<Rightarrow> (Inl e, B)
         | (Inr _, B) \<Rightarrow> (Inr customer, B)))))"

section \<open>Subscriptions\<close>

definition subscription_values :: "billing_env \<Rightarrow> subscription \<Rightarrow> string \<Rightarrow> subscription_row" where
  "subscription_values E s plan = \<lparr>sr_subscription = su_id s, sr_customer = su_customer s,
     sr_organization = getSubscriptionOrganizationId s, sr_user = su_userId s, sr_status = su_status s, sr_plan = plan,
     sr_price = first_price s, sr_trialEnd = toDate (su_trialEnd s),
     sr_periodEnd = toDate (getSubscriptionCurrentPeriodEnd s), sr_cancelAtPeriodEnd = su_cancelAtPeriodEnd s,
     sr_raw = Some s, sr_updatedAt = Some (s_now (be_sql E))\<rparr>"

definition upsertSubscription :: "billing_env \<Rightarrow> subscription \<Rightarrow> billing \<Rightarrow> unit outcome \<times> billing" where
  "upsertSubscription E s B =
     (case upsertCustomerLink E (su_customer s) (su_userId s) (getSubscriptionOrganizationId s) None B of
        (Inl e, B) \<Rightarrow> (Inl e, B)
      | (Inr _, B) \<Rightarrow>
          (if \<not> user_reference_ok E (su_userId s) then (Inl (Raised (s_raise (be_sql E) FOREIGN_KEY_VIOLATION)), B)
           else let row = subscription_values E s (plan_name (getPlanFromPriceId (first_price s) (be_config E)))
             in (Inr (), B\<lparr>bl_subscriptions := upsert_row (\<lambda>r. sr_subscription r = su_id s) (\<lambda>r. row) row
                  (bl_subscriptions B)\<rparr>)))"

definition markSubscriptionCanceled :: "billing_env \<Rightarrow> subscription \<Rightarrow> billing \<Rightarrow> unit outcome \<times> billing" where
  \<comment> \<open>the foreign key is checked for the row inserted; the update leaves the user of the row\<close>
  "markSubscriptionCanceled E s B =
     (if \<not> list_ex (\<lambda>r. sr_subscription r = su_id s) (bl_subscriptions B) \<and> \<not> user_reference_ok E (su_userId s)
      then (Inl (Raised (s_raise (be_sql E) FOREIGN_KEY_VIOLATION)), B)
      else (Inr (), B\<lparr>bl_subscriptions := upsert_row (\<lambda>r. sr_subscription r = su_id s)
        (\<lambda>r. r\<lparr>sr_status := su_status s, sr_plan := ''free'', sr_raw := Some s, sr_updatedAt := Some (s_now (be_sql E))\<rparr>)
        (subscription_values E s ''free'') (bl_subscriptions B)\<rparr>))"

section \<open>The profile\<close>

record usage_counters =
  uc_workspacesUsed :: nat
  uc_boardsInCurrentWorkspace :: nat
  uc_largestBoardElements :: nat
  uc_realtimeUsersCurrentBoard :: nat

record billing_profile =
  bp_currentPlan :: billing_plan
  bp_trialExpiration :: "int option"
  bp_usage :: usage_counters
  bp_limits :: plan_limits
  bp_isDevOverride :: bool
  bp_isTrialActive :: bool

definition getUsageCounters :: "billing_env \<Rightarrow> string \<Rightarrow> usage_counters outcome" where
  "getUsageCounters E userId = (case listAccessibleBoards (be_sql E) (be_tables E) userId of
     Inl e \<Rightarrow> Inl e
   | Inr boards \<Rightarrow>
       (let per_workspace = fold (\<lambda>b m. let w = b_workspace (cb_board b) in
              js_put w ((case js_get w m of None \<Rightarrow> 0 | Some n \<Rightarrow> n) + 1) m) boards []
        in Inr \<lparr>uc_workspacesUsed = length (getWorkspacesForUser (be_tables E) userId),
             uc_boardsInCurrentWorkspace = fold max (map snd per_workspace) 0,
             uc_largestBoardElements = 0, uc_realtimeUsersCurrentBoard = 1\<rparr>))"

definition trial_running :: "billing_env \<Rightarrow> billing_plan \<Rightarrow> int option \<Rightarrow> bool" where
  \<comment> \<open>\<open>plan === 'trial' && Boolean(expiration && expiration > Date.now())\<close>\<close>
  "trial_running E plan expiration = (plan = Trial \<and> (case expiration of None \<Rightarrow> False
     | Some t \<Rightarrow> t \<noteq> 0 \<and> s_now (be_sql E) < t))"

definition profile_of :: "usage_counters \<Rightarrow> billing_plan \<Rightarrow> int option \<Rightarrow> bool \<Rightarrow> bool \<Rightarrow> billing_profile" where
  "profile_of usage plan expiration isDevOverride isTrialActive = \<lparr>bp_currentPlan = plan,
     bp_trialExpiration = expiration, bp_usage = usage, bp_limits = PLAN_LIMITS plan,
     bp_isDevOverride = isDevOverride, bp_isTrialActive = isTrialActive\<rparr>"

definition newest_subscription :: "string \<Rightarrow> billing \<Rightarrow> subscription_row option" where
  \<comment> \<open>\<open>order by updated_at desc limit 1\<close>, where nulls come first\<close>
  "newest_subscription userId B = (let rows = filter (\<lambda>r. sr_user r = Some userId) (bl_subscriptions B) in
     case filter (\<lambda>r. sr_updatedAt r = None) rows of
       r # _ \<Rightarrow> Some r
     | [] \<Rightarrow> (case sort_key (\<lambda>r. - the (sr_updatedAt r)) rows of [] \<Rightarrow> None | r # _ \<Rightarrow> Some r))"

definition profile_from_stripe ::
    "billing_env \<Rightarrow> stripe_api \<Rightarrow> user_row \<Rightarrow> usage_counters \<Rightarrow> billing \<Rightarrow> billing_profile outcome \<times> billing" where
  \<comment> \<open>no usable row: from \<open>findStripeCustomerByUser\<close> on\<close>
  "profile_from_stripe E api user usage B = (case findStripeCustomerByUser E (us_id user) (us_email user) B of
     (Inl e, B) \<Rightarrow> (Inl e, B)
   | (Inr None, B) \<Rightarrow> (Inr (profile_of usage Free None False False), B)
   | (Inr (Some customer), B) \<Rightarrow> (case sp_list_subscriptions api (cu_id customer) of
       Inl e \<Rightarrow> (Inl e, B)
     | Inr subscriptions \<Rightarrow> (case pickActiveSubscription subscriptions of
         None \<Rightarrow> (Inr (profile_of usage Free None False False), B)
       | Some s \<Rightarrow> (case upsertSubscription E s B of
           (Inl e, B) \<Rightarrow> (Inl e, B)
         | (Inr _, B) \<Rightarrow>
             (let plan = (if su_status s = ''trialing'' then Trial else getPlanFromPriceId (first_price s) (be_config E));
                  expiration = toDate (su_trialEnd s)
              in (Inr (profile_of usage plan expiration False (trial_running E plan expiration)), B))))))"

definition fetchCurrentBillingProfile :: "billing_env \<Rightarrow> string \<Rightarrow> billing \<Rightarrow> billing_profile outcome \<times> billing" where
  "fetchCurrentBillingProfile E userId B = (case getUserById (be_tables E) userId of
     None \<Rightarrow> (Inl (Thrown ''User not found''), B)
   | Some user \<Rightarrow> (case getUsageCounters E userId of
       Inl e \<Rightarrow> (Inl e, B)
     | Inr usage \<Rightarrow> (case stripe E of
         None \<Rightarrow> (let isDevOverride = (cf_nodeEnv (be_config E) \<noteq> ''production'')
           in (Inr (profile_of usage (if isDevOverride then Dev else Free) None isDevOverride False), B))
       | Some api \<Rightarrow> (case newest_subscription userId B of
           Some r \<Rightarrow> (if sr_status r \<in> set ACTIVE_STATES
             then (let plan = getPlanFromSubscriptionRecord (sr_plan r) (sr_status r)
               in (Inr (profile_of usage plan (sr_trialEnd r) False (trial_running E plan (sr_trialEnd r))), B))
             else profile_from_stripe E api user usage B)
         | None \<Rightarrow> profile_from_stripe E api user usage B))))"

section \<open>Checkout and portal\<close>

record checkout_request =
  cr_plan :: billing_plan
  cr_successUrl :: "string option"
  cr_cancelUrl :: "string option"

definition or_else :: "'a option \<Rightarrow> 'a option \<Rightarrow> 'a \<Rightarrow> 'a" where
  \<comment> \<open>\<open>a ?? b ?? c\<close>\<close>
  "or_else a b c = (case a of Some x \<Rightarrow> x | None \<Rightarrow> (case b of Some x \<Rightarrow> x | None \<Rightarrow> c))"

definition billing_page :: "billing_config \<Rightarrow> string" where
  "billing_page C = cf_corsOrigin C @ ''/profile/billing''"

definition startCheckout ::
    "billing_env \<Rightarrow> string \<Rightarrow> checkout_request \<Rightarrow> billing \<Rightarrow> (string \<times> string \<times> billing_plan) outcome \<times> billing" where
  "startCheckout E userId request B = (case stripe E of
     None \<Rightarrow> (Inl (Thrown ''Stripe billing is not configured''), B)
   | Some api \<Rightarrow>
       if cr_plan request \<noteq> Startup \<and> cr_plan request \<noteq> Business
       then (Inl (Thrown ''Checkout is only available for paid plans''), B)
       else (case getUserById (be_tables E) userId of
         None \<Rightarrow> (Inl (Thrown ''User not found''), B)
       | Some user \<Rightarrow> (case getOrCreateStripeCustomer E (us_id user) (us_email user) (us_name user) B of
           (Inl e, B) \<Rightarrow> (Inl e, B)
         | (Inr customer, B) \<Rightarrow>
             (let C = be_config E; order = \<lparr>co_customer = cu_id customer,
                co_price = the (if cr_plan request = Startup then cf_priceStartup C else cf_priceBusiness C),
                co_successUrl = or_else (cr_successUrl request) (cf_successUrl C) (billing_page C),
                co_cancelUrl = or_else (cr_cancelUrl request) (cf_cancelUrl C) (billing_page C),
                co_userId = us_id user, co_plan = plan_name (cr_plan request)\<rparr>
              in (case sp_checkout api order of
                    Inl e \<Rightarrow> (Inl e, B)
                  | Inr (url, sessionId) \<Rightarrow>
                      if \<not> truthy url then (Inl (Thrown ''Stripe checkout URL missing from session''), B)
                      else (Inr (the url, sessionId, cr_plan request), B))))))"

definition openBillingPortal ::
    "billing_env \<Rightarrow> string \<Rightarrow> string option \<Rightarrow> billing \<Rightarrow> (string \<times> string) outcome \<times> billing" where
  "openBillingPortal E userId returnUrl B = (case stripe E of
     None \<Rightarrow> (Inl (Thrown ''Stripe billing is not configured''), B)
   | Some api \<Rightarrow> (case getUserById (be_tables E) userId of
       None \<Rightarrow> (Inl (Thrown ''User not found''), B)
     | Some user \<Rightarrow> (case getOrCreateStripeCustomer E (us_id user) (us_email user) (us_name user) B of
         (Inl e, B) \<Rightarrow> (Inl e, B)
       | (Inr customer, B) \<Rightarrow>
           (let resolved = or_else returnUrl (cf_portalReturnUrl (be_config E)) (billing_page (be_config E))
            in (case sp_portal api (cu_id customer) resolved of
                  Inl e \<Rightarrow> (Inl e, B) | Inr url \<Rightarrow> (Inr (url, resolved), B))))))"

section \<open>Webhooks\<close>

definition applied_event :: "billing_env \<Rightarrow> event_data \<Rightarrow> billing \<Rightarrow> unit outcome \<times> billing" where
  \<comment> \<open>the \<open>switch\<close>\<close>
  "applied_event E data B = (case data of
     CheckoutSessionCompleted s \<Rightarrow> (case se_customer s of
       None \<Rightarrow> (Inr (), B)
     | Some customerId \<Rightarrow> if customerId = [] then (Inr (), B)
         else upsertCustomerLink E customerId (se_userId s)
           (case se_organizationId s of None \<Rightarrow> se_organization_id s | Some i \<Rightarrow> Some i) (se_email s) B)
   | SubscriptionCreated s \<Rightarrow> upsertSubscription E s B
   | SubscriptionUpdated s \<Rightarrow> upsertSubscription E s B
   | SubscriptionResumed s \<Rightarrow> upsertSubscription E s B
   | SubscriptionTrialWillEnd s \<Rightarrow> upsertSubscription E s B
   | SubscriptionDeleted s \<Rightarrow> markSubscriptionCanceled E s B
   | SubscriptionPaused s \<Rightarrow> markSubscriptionCanceled E s B
   | OtherEvent t \<Rightarrow> (Inr (), B))"

definition handleWebhook ::
    "billing_env \<Rightarrow> nat list \<Rightarrow> string option \<Rightarrow> billing \<Rightarrow> bool outcome \<times> billing" where
  \<comment> \<open>the result is \<open>duplicate\<close>\<close>
  "handleWebhook E rawBody signature B =
     (if stripe E = None \<or> \<not> truthy (cf_webhookSecret (be_config E))
      then (Inl (Thrown ''Stripe webhook is not configured''), B)
      else if \<not> truthy signature then (Inl (Thrown ''Missing Stripe signature''), B)
      else (case sp_construct_event (be_api E) rawBody (the signature) (the (cf_webhookSecret (be_config E))) of
        Inl e \<Rightarrow> (Inl e, B)
      | Inr event \<Rightarrow>
          if list_ex (\<lambda>r. we_event r = ev_id event) (bl_events B) then (Inr True, B)
          else (case applied_event E (ev_data event)
                (B\<lparr>bl_events := bl_events B @ [\<lparr>we_event = ev_id event, we_type = event_type (ev_data event)\<rparr>]\<rparr>) of
              (Inl e, B) \<Rightarrow> (Inl e, B)
            | (Inr _, B) \<Rightarrow> (Inr False, B))))"

definition mapBillingErrorToStatus :: "string \<Rightarrow> nat" where
  \<comment> \<open>of the message of the error\<close>
  "mapBillingErrorToStatus message =
     (if js_includes message ''not configured'' then 503
      else if js_includes message ''only available'' then 400
      else if js_includes message ''signature'' \<or> js_includes message ''configured'' \<or> js_includes message ''webhook'' then 400
      else if js_includes message ''User not found'' then 404
      else 500)"

section \<open>Webhook events\<close>

lemma upsert_has: "row \<in> set (upsert_row P (\<lambda>r. row) row rows)"
  by (auto simp: upsert_row_def list_ex_iff)

definition known_event :: "string \<Rightarrow> billing \<Rightarrow> bool" where
  "known_event i B = (i \<in> we_event ` set (bl_events B))"

lemma events_frame: "bl_events (snd (applied_event E d B)) = bl_events B"
  by (auto simp: applied_event_def upsertSubscription_def upsertCustomerLink_def markSubscriptionCanceled_def Let_def
      split: event_data.split option.split)

lemma webhook_ready:
  assumes "isStripeConfigured (be_config E)" "truthy (cf_webhookSecret (be_config E))" "truthy sig"
    and "sp_construct_event (be_api E) raw (the sig) (the (cf_webhookSecret (be_config E))) = Inr ev"
  shows "handleWebhook E raw sig B = (if known_event (ev_id ev) B then (Inr True, B)
    else case applied_event E (ev_data ev)
        (B\<lparr>bl_events := bl_events B @ [\<lparr>we_event = ev_id ev, we_type = event_type (ev_data ev)\<rparr>]\<rparr>) of
      (Inl e, B) \<Rightarrow> (Inl e, B) | (Inr _, B) \<Rightarrow> (Inr False, B))"
  using assms by (auto simp: handleWebhook_def stripe_def known_event_def list_ex_iff image_iff)

lemma webhook_keeps_events:
  assumes "known_event i B" shows "known_event i (snd (handleWebhook E raw sig B))"
proof -
  have "known_event i B2" if "applied_event E d (B\<lparr>bl_events := bl_events B @ es\<rparr>) = (r, B2)" for d es r B2
    using events_frame[of E d "B\<lparr>bl_events := bl_events B @ es\<rparr>"] that assms by (auto simp: known_event_def)
  with assms show ?thesis by (auto simp: handleWebhook_def split: sum.split prod.split)
qed

definition deliver :: "billing_env \<Rightarrow> nat list \<times> string option \<Rightarrow> billing \<Rightarrow> billing" where
  "deliver E d B = snd (handleWebhook E (fst d) (snd d) B)"

lemma deliveries_keep_events: "known_event i B \<Longrightarrow> known_event i (fold (\<lambda>(E, d). deliver E d) ds B)"
  by (induction ds arbitrary: B) (auto simp: deliver_def webhook_keeps_events)

lemma webhook_records:
  assumes "isStripeConfigured (be_config E)" "truthy (cf_webhookSecret (be_config E))" "truthy sig"
    and "sp_construct_event (be_api E) raw (the sig) (the (cf_webhookSecret (be_config E))) = Inr ev"
  shows "known_event (ev_id ev) (snd (handleWebhook E raw sig B))"
proof -
  have "known_event (ev_id ev) B2"
    if "applied_event E d (B\<lparr>bl_events := bl_events B @ [\<lparr>we_event = ev_id ev, we_type = t\<rparr>]\<rparr>) = (r, B2)" for d t r B2
    using events_frame[of E d "B\<lparr>bl_events := bl_events B @ [\<lparr>we_event = ev_id ev, we_type = t\<rparr>]\<rparr>"] that
    by (auto simp: known_event_def)
  then show ?thesis by (auto simp: webhook_ready[OF assms] split: sum.split prod.split)
qed

lemma link_fails: "\<not> user_reference_ok E u \<Longrightarrow> \<exists>err. upsertCustomerLink E c u g m B = (Inl err, B)"
  by (simp add: upsertCustomerLink_def)

section \<open>A concrete service\<close>

definition ann :: user_row where
  "ann = \<lparr>us_id = ''u1'', us_email = ''ann@x'', us_name = ''Ann'', us_avatarUrl = None\<rparr>"

definition ann_tables :: tables where
  "ann_tables = \<lparr>t_boards = [], t_members = [], t_favorites = Some [], t_invitations = [], t_workspaces = [],
     t_ws_members = [], t_ws_invitations = [], t_users = [ann], t_elements = []\<rparr>"

definition demo_subscription :: "string option \<Rightarrow> subscription" where
  "demo_subscription u = \<lparr>su_id = ''sub1'', su_customer = ''cus1'', su_status = ''active'', su_created = 1,
     su_items = [\<lparr>it_price = ''price_b'', it_periodEnd = Some 5\<rparr>], su_userId = u, su_organizationId = None,
     su_organization_id = None, su_trialEnd = None, su_cancelAtPeriodEnd = False\<rparr>"

definition demo_api :: "event_data \<Rightarrow> stripe_api" where
  "demo_api d = \<lparr>sp_retrieve = (\<lambda>c. Inr None), sp_list_customers = (\<lambda>m. Inr []),
     sp_create_customer = (\<lambda>m n u. Inr \<lparr>cu_id = ''cus2'', cu_email = Some m, cu_userId = Some u\<rparr>),
     sp_list_subscriptions = (\<lambda>c. Inr []), sp_checkout = (\<lambda>r. Inr (Some ''url'', ''cs1'')),
     sp_portal = (\<lambda>c r. Inr ''portal''), sp_construct_event = (\<lambda>raw sig secret. Inr \<lparr>ev_id = ''evt1'', ev_data = d\<rparr>)\<rparr>"

definition demo_env :: "event_data \<Rightarrow> billing_env" where
  "demo_env d = \<lparr>be_sql = demo_sql, be_config = \<lparr>cf_nodeEnv = ''production'', cf_corsOrigin = ''https://x'', cf_enabled = True,
     cf_secretKey = Some ''sk'', cf_priceStartup = Some ''price_s'', cf_priceBusiness = Some ''price_b'', cf_successUrl = None,
     cf_cancelUrl = None, cf_portalReturnUrl = None, cf_webhookSecret = Some ''wh''\<rparr>, be_api = demo_api d, be_tables = ann_tables\<rparr>"

definition linked :: billing where
  "linked = \<lparr>bl_links = [\<lparr>cl_customer = ''cus1'', cl_user = Some ''u1'', cl_organization = None, cl_email = Some ''ann@x'',
     cl_updatedAt = Some 0\<rparr>], bl_subscriptions = [], bl_events = []\<rparr>"

lemma demo_env_facts [simp]:
  "isStripeConfigured (be_config (demo_env d))" "cf_webhookSecret (be_config (demo_env d)) = Some ''wh''"
  "be_api (demo_env d) = demo_api d" "be_tables (demo_env d) = ann_tables" "be_sql (demo_env d) = demo_sql"
  "user_reference_ok (demo_env d) (Some u) = (u = ''u1'')" "user_reference_ok (demo_env d) None"
  by (auto simp: demo_env_def isStripeConfigured_def truthy_def user_reference_ok_def has_user_def ann_tables_def ann_def)

section \<open>Properties\<close>

text \<open>What an event asks for, and when the schema refuses it.\<close>

definition one_row :: "('r \<Rightarrow> string) \<Rightarrow> string \<Rightarrow> ('r \<Rightarrow> bool) \<Rightarrow> 'r list \<Rightarrow> 'r list \<Rightarrow> bool" where
  \<comment> \<open>the rows of the key are there and hold \<open>P\<close>, all others are as they were\<close>
  "one_row key k P old new = (filter (\<lambda>r. key r \<noteq> k) new = filter (\<lambda>r. key r \<noteq> k) old \<and>
     (\<exists>r \<in> set new. key r = k) \<and> (\<forall>r \<in> set new. key r = k \<longrightarrow> P r))"

definition linked_to :: "string \<Rightarrow> string option \<Rightarrow> string option \<Rightarrow> billing \<Rightarrow> billing \<Rightarrow> bool" where
  "linked_to customer user email old new =
     one_row cl_customer customer (\<lambda>l. cl_user l = user \<and> cl_email l = email) (bl_links old) (bl_links new)"

definition subscribed :: "billing_env \<Rightarrow> subscription \<Rightarrow> billing \<Rightarrow> billing \<Rightarrow> bool" where
  "subscribed E s old new = one_row sr_subscription (su_id s)
     (\<lambda>r. sr_customer r = su_customer s \<and> sr_user r = su_userId s \<and> sr_status r = su_status s \<and>
       sr_plan r = plan_name (getPlanFromPriceId (first_price s) (be_config E)))
     (bl_subscriptions old) (bl_subscriptions new)"

fun in_force :: "billing_env \<Rightarrow> event_data \<Rightarrow> billing \<Rightarrow> billing \<Rightarrow> bool" where
  "in_force E (CheckoutSessionCompleted s) old new = (bl_subscriptions new = bl_subscriptions old \<and>
     (if truthy (se_customer s) then linked_to (the (se_customer s)) (se_userId s) (se_email s) old new else bl_links new = bl_links old))"
| "in_force E (SubscriptionDeleted s) old new = (bl_links new = bl_links old \<and> one_row sr_subscription (su_id s)
     (\<lambda>r. sr_status r = su_status s \<and> sr_plan r = ''free'') (bl_subscriptions old) (bl_subscriptions new))"
| "in_force E (SubscriptionPaused s) old new = (bl_links new = bl_links old \<and> one_row sr_subscription (su_id s)
     (\<lambda>r. sr_status r = su_status s \<and> sr_plan r = ''free'') (bl_subscriptions old) (bl_subscriptions new))"
| "in_force E (OtherEvent t) old new = (bl_links new = bl_links old \<and> bl_subscriptions new = bl_subscriptions old)"
| "in_force E (SubscriptionCreated s) old new = (linked_to (su_customer s) (su_userId s) None old new \<and> subscribed E s old new)"
| "in_force E (SubscriptionUpdated s) old new = (linked_to (su_customer s) (su_userId s) None old new \<and> subscribed E s old new)"
| "in_force E (SubscriptionResumed s) old new = (linked_to (su_customer s) (su_userId s) None old new \<and> subscribed E s old new)"
| "in_force E (SubscriptionTrialWillEnd s) old new = (linked_to (su_customer s) (su_userId s) None old new \<and> subscribed E s old new)"

definition no_link :: "billing_env \<Rightarrow> string \<Rightarrow> string option \<Rightarrow> billing \<Rightarrow> bool" where
  \<comment> \<open>the user does not exist, or has another customer\<close>
  "no_link E customer user B = (\<not> user_reference_ok E user \<or>
     (user \<noteq> None \<and> (\<exists>l \<in> set (bl_links B). cl_customer l \<noteq> customer \<and> cl_user l = user)))"

fun schema_refuses :: "billing_env \<Rightarrow> event_data \<Rightarrow> billing \<Rightarrow> bool" where
  "schema_refuses E (CheckoutSessionCompleted s) B = (truthy (se_customer s) \<and> no_link E (the (se_customer s)) (se_userId s) B)"
| "schema_refuses E (SubscriptionDeleted s) B =
     (su_id s \<notin> sr_subscription ` set (bl_subscriptions B) \<and> \<not> user_reference_ok E (su_userId s))"
| "schema_refuses E (SubscriptionPaused s) B =
     (su_id s \<notin> sr_subscription ` set (bl_subscriptions B) \<and> \<not> user_reference_ok E (su_userId s))"
| "schema_refuses E (OtherEvent t) B = False"
| "schema_refuses E (SubscriptionCreated s) B = no_link E (su_customer s) (su_userId s) B"
| "schema_refuses E (SubscriptionUpdated s) B = no_link E (su_customer s) (su_userId s) B"
| "schema_refuses E (SubscriptionResumed s) B = no_link E (su_customer s) (su_userId s) B"
| "schema_refuses E (SubscriptionTrialWillEnd s) B = no_link E (su_customer s) (su_userId s) B"

lemma one_row_upsert:
  assumes "key row = k" "P row" "\<And>r. key (f r) = key r \<or> key (f r) = k" "\<And>r. key r = k \<Longrightarrow> key (f r) = k \<and> P (f r)"
  shows "one_row key k P rows (upsert_row (\<lambda>r. key r = k) f row rows)"
proof -
  have "filter (\<lambda>r. key r \<noteq> k) (map (\<lambda>r. if key r = k then f r else r) rows) = filter (\<lambda>r. key r \<noteq> k) rows"
    using assms(4) by (induction rows) auto
  then show ?thesis using assms by (auto simp: one_row_def upsert_row_def update_rows_def list_ex_iff split: if_splits)
qed

lemma upsertCustomerLink_in_force:
  "upsertCustomerLink E c u g m B = (r, B') \<Longrightarrow> if no_link E c u B then (\<exists>err. r = Inl err) \<and> B' = B
     else r = Inr () \<and> linked_to c u m B B' \<and> bl_subscriptions B' = bl_subscriptions B"
  by (auto simp: upsertCustomerLink_def no_link_def list_ex_iff Let_def linked_to_def intro!: one_row_upsert split: if_splits)

lemma upsertSubscription_in_force:
  assumes "upsertSubscription E s B = (r, B')"
  shows "if no_link E (su_customer s) (su_userId s) B then (\<exists>err. r = Inl err) \<and> B' = B
     else r = Inr () \<and> linked_to (su_customer s) (su_userId s) None B B' \<and> subscribed E s B B'"
proof -
  obtain r1 B1 where link: "upsertCustomerLink E (su_customer s) (su_userId s) (getSubscriptionOrganizationId s) None B = (r1, B1)"
    by fastforce
  note linked = upsertCustomerLink_in_force[OF link]
  show ?thesis
  proof (cases "no_link E (su_customer s) (su_userId s) B")
    case True
    then show ?thesis using linked link assms by (auto simp: upsertSubscription_def)
  next
    case False
    then have "user_reference_ok E (su_userId s)" by (simp add: no_link_def)
    then show ?thesis using False linked link assms
      by (auto simp: upsertSubscription_def Let_def subscribed_def linked_to_def subscription_values_def intro!: one_row_upsert)
  qed
qed

lemma markSubscriptionCanceled_in_force:
  "markSubscriptionCanceled E s B = (r, B') \<Longrightarrow>
     if schema_refuses E (SubscriptionDeleted s) B then (\<exists>err. r = Inl err) \<and> B' = B
     else r = Inr () \<and> in_force E (SubscriptionDeleted s) B B'"
  by (auto simp: markSubscriptionCanceled_def list_ex_iff subscription_values_def image_iff intro!: one_row_upsert split: if_splits)

lemma applied_event_in_force:
  assumes "applied_event E d B = (r, B')"
  shows "if schema_refuses E d B then (\<exists>err. r = Inl err) \<and> B' = B else r = Inr () \<and> in_force E d B B'"
proof (cases d)
  case (CheckoutSessionCompleted s)
  then show ?thesis using assms upsertCustomerLink_in_force[of E "the (se_customer s)" "se_userId s" _ "se_email s" B r B']
    by (auto simp: applied_event_def truthy_def split: option.splits if_splits)
next
  case (SubscriptionDeleted s)
  then show ?thesis using assms markSubscriptionCanceled_in_force[of E s B r B'] by (auto simp: applied_event_def split: if_splits)
next
  case (SubscriptionPaused s)
  then show ?thesis using assms markSubscriptionCanceled_in_force[of E s B r B'] by (auto simp: applied_event_def split: if_splits)
next
  case (SubscriptionCreated s)
  then show ?thesis using assms upsertSubscription_in_force[of E s B r B'] by (simp add: applied_event_def)
next
  case (SubscriptionUpdated s)
  then show ?thesis using assms upsertSubscription_in_force[of E s B r B'] by (simp add: applied_event_def)
next
  case (SubscriptionResumed s)
  then show ?thesis using assms upsertSubscription_in_force[of E s B r B'] by (simp add: applied_event_def)
next
  case (SubscriptionTrialWillEnd s)
  then show ?thesis using assms upsertSubscription_in_force[of E s B r B'] by (simp add: applied_event_def)
next
  case (OtherEvent t)
  then show ?thesis using assms by (auto simp: applied_event_def)
qed

text \<open>C25: Stripe delivers events more than once. The first delivery of an event puts it in force: the customer is linked
  and the subscription stored as the event has them, and nothing else changes. Only when the schema refuses it (the
  user does not exist, or has another customer) does the delivery throw, and then links and subscriptions stay as
  they were. Either way every later delivery of the event, whatever came in between, is answered as a duplicate
  and changes nothing: no event is processed twice, and one that was refused is not processed at all.\<close>

theorem webhook_processed_once:
  assumes "isStripeConfigured (be_config E)" "truthy (cf_webhookSecret (be_config E))" "truthy sig"
    and "sp_construct_event (be_api E) raw (the sig) (the (cf_webhookSecret (be_config E))) = Inr ev"
    and "\<not> known_event (ev_id ev) B" "handleWebhook E raw sig B = (answer, B1)"
    and "isStripeConfigured (be_config E')" "truthy (cf_webhookSecret (be_config E'))" "truthy sig'"
    and "sp_construct_event (be_api E') raw' (the sig') (the (cf_webhookSecret (be_config E'))) = Inr ev'" "ev_id ev' = ev_id ev"
  shows "(if schema_refuses E (ev_data ev) B
      then (\<exists>err. answer = Inl err) \<and> bl_links B1 = bl_links B \<and> bl_subscriptions B1 = bl_subscriptions B
      else answer = Inr False \<and> in_force E (ev_data ev) B B1) \<and>
    (let later = fold (\<lambda>(E, d). deliver E d) ds B1 in handleWebhook E' raw' sig' later = (Inr True, later))"
proof
  let ?B = "B\<lparr>bl_events := bl_events B @ [\<lparr>we_event = ev_id ev, we_type = event_type (ev_data ev)\<rparr>]\<rparr>"
  obtain r B2 where run: "applied_event E (ev_data ev) ?B = (r, B2)" by fastforce
  then have B1: "B1 = B2" "answer = (case r of Inl e \<Rightarrow> Inl e | Inr _ \<Rightarrow> Inr False)"
    using assms(5,6) webhook_ready[OF assms(1-4), of B] by (auto split: sum.splits)
  have recorded: "schema_refuses E (ev_data ev) ?B = schema_refuses E (ev_data ev) B" "in_force E (ev_data ev) ?B B2 = in_force E (ev_data ev) B B2"
    by (cases "ev_data ev"; simp add: no_link_def linked_to_def subscribed_def)+
  show "if schema_refuses E (ev_data ev) B
      then (\<exists>err. answer = Inl err) \<and> bl_links B1 = bl_links B \<and> bl_subscriptions B1 = bl_subscriptions B
      else answer = Inr False \<and> in_force E (ev_data ev) B B1"
    using applied_event_in_force[OF run] recorded B1 by (auto split: if_splits)
  have "known_event (ev_id ev) B1" using webhook_records[OF assms(1-4), of B] assms(6) by simp
  then have "known_event (ev_id ev') (fold (\<lambda>(E, d). deliver E d) ds B1)"
    unfolding assms(11) by (rule deliveries_keep_events)
  then show "let later = fold (\<lambda>(E, d). deliver E d) ds B1 in handleWebhook E' raw' sig' later = (Inr True, later)"
    using webhook_ready[OF assms(7-10)] by (simp add: Let_def)
qed

theorem webhook_processed_once_witness:
  "\<exists>B1. handleWebhook (demo_env (SubscriptionCreated (demo_subscription (Some ''u1'')))) [1] (Some ''sig'') linked = (Inr False, B1) \<and>
     (\<exists>r \<in> set (bl_subscriptions B1). sr_subscription r = ''sub1'' \<and> sr_plan r = ''business'' \<and> sr_user r = Some ''u1'') \<and>
     handleWebhook (demo_env (SubscriptionCreated (demo_subscription (Some ''u1'')))) [1] (Some ''sig2'') B1 = (Inr True, B1)"
proof -
  let ?s = "demo_subscription (Some ''u1'')" and ?E = "demo_env (SubscriptionCreated (demo_subscription (Some ''u1'')))"
  let ?ev = "\<lparr>ev_id = ''evt1'', ev_data = SubscriptionCreated ?s\<rparr>"
  obtain answer B1 where run: "handleWebhook ?E [1] (Some ''sig'') linked = (answer, B1)" by fastforce
  have "(if schema_refuses ?E (ev_data ?ev) linked
      then (\<exists>err. answer = Inl err) \<and> bl_links B1 = bl_links linked \<and> bl_subscriptions B1 = bl_subscriptions linked
      else answer = Inr False \<and> in_force ?E (ev_data ?ev) linked B1) \<and>
    (let later = fold (\<lambda>(E, d). deliver E d) [] B1 in handleWebhook ?E [1] (Some ''sig2'') later = (Inr True, later))"
    by (rule webhook_processed_once[where ev = ?ev and ev' = ?ev, OF _ _ _ _ _ run]) (simp_all add: truthy_def demo_api_def known_event_def linked_def)
  moreover have "\<not> schema_refuses ?E (ev_data ?ev) linked"
    by (simp add: no_link_def linked_def demo_subscription_def)
  moreover have "plan_name (getPlanFromPriceId (first_price ?s) (be_config ?E)) = ''business''"
    by (simp add: demo_subscription_def demo_env_def first_price_def getPlanFromPriceId_def)
  ultimately have "answer = Inr False" "subscribed ?E ?s linked B1" "handleWebhook ?E [1] (Some ''sig2'') B1 = (Inr True, B1)"
    by simp_all
  then show ?thesis using run \<open>plan_name _ = _\<close> unfolding subscribed_def one_row_def by (auto simp: demo_subscription_def)
qed

text \<open>An event whose processing fails is lost. Its row is written before it is processed and stays: the first
  delivery throws, so Stripe delivers again, but every later delivery is taken for a duplicate, whatever has been
  mended meanwhile, and the subscription is never stored.\<close>

theorem failed_event_is_swallowed:
  assumes "isStripeConfigured (be_config E)" "truthy (cf_webhookSecret (be_config E))" "truthy sig"
    and "sp_construct_event (be_api E) raw (the sig) (the (cf_webhookSecret (be_config E))) = Inr ev"
    and "ev_data ev = SubscriptionCreated s" "\<not> known_event (ev_id ev) B" "\<not> user_reference_ok E (su_userId s)"
  shows "\<exists>err B'. handleWebhook E raw sig B = (Inl err, B') \<and> bl_subscriptions B' = bl_subscriptions B \<and>
    handleWebhook (E\<lparr>be_tables := T\<rparr>) raw sig B' = (Inr True, B')"
proof -
  let ?B = "B\<lparr>bl_events := bl_events B @ [\<lparr>we_event = ev_id ev, we_type = event_type (ev_data ev)\<rparr>]\<rparr>"
  obtain err where err: "upsertCustomerLink E (su_customer s) (su_userId s) (getSubscriptionOrganizationId s) None ?B = (Inl err, ?B)"
    using link_fails[OF assms(7)] by blast
  then have first: "handleWebhook E raw sig B = (Inl err, ?B)"
    using webhook_ready[OF assms(1-4), of B] assms(5,6) by (simp add: applied_event_def upsertSubscription_def)
  have "known_event (ev_id ev) ?B" by (simp add: known_event_def)
  then have "handleWebhook (E\<lparr>be_tables := T\<rparr>) raw sig ?B = (Inr True, ?B)"
    using webhook_ready[of "E\<lparr>be_tables := T\<rparr>" sig raw ev ?B] assms(1-4) by simp
  with first show ?thesis by auto
qed

theorem failed_event_is_swallowed_witness:
  "\<exists>err B'. handleWebhook (demo_env (SubscriptionCreated (demo_subscription (Some ''u2'')))) [1] (Some ''sig'') linked = (Inl err, B') \<and>
     bl_subscriptions B' = []"
  using failed_event_is_swallowed[of "demo_env (SubscriptionCreated (demo_subscription (Some ''u2'')))" "Some ''sig''" "[1]"
    "\<lparr>ev_id = ''evt1'', ev_data = SubscriptionCreated (demo_subscription (Some ''u2''))\<rparr>" "demo_subscription (Some ''u2'')"
    linked ann_tables]
  by (auto simp: truthy_def demo_api_def known_event_def linked_def demo_subscription_def)

definition entitled :: "billing_env \<Rightarrow> string \<Rightarrow> billing \<Rightarrow> billing_plan \<Rightarrow> bool" where
  \<comment> \<open>an active subscription of that plan, in the table or at Stripe for the customer found for the user\<close>
  "entitled E userId B plan =
     ((\<exists>r \<in> set (bl_subscriptions B). sr_user r = Some userId \<and> sr_status r \<in> set ACTIVE_STATES \<and>
         plan = getPlanFromSubscriptionRecord (sr_plan r) (sr_status r)) \<or>
      (\<exists>user customer B' ss s. getUserById (be_tables E) userId = Some user \<and>
         findStripeCustomerByUser E (us_id user) (us_email user) B = (Inr (Some customer), B') \<and>
         sp_list_subscriptions (be_api E) (cu_id customer) = Inr ss \<and> s \<in> set ss \<and> su_status s \<in> set ACTIVE_STATES \<and>
         plan = (if su_status s = ''trialing'' then Trial else getPlanFromPriceId (first_price s) (be_config E))))"

lemma sort_head: "sort_key f xs = x # ys \<Longrightarrow> x \<in> set xs"
  by (metis list.set_intros(1) set_sort)

lemma picked_active: "pickActiveSubscription ss = Some s \<Longrightarrow> s \<in> set ss \<and> su_status s \<in> set ACTIVE_STATES"
  by (auto simp: pickActiveSubscription_def split: list.splits dest!: sort_head)

lemma newest_mem: "newest_subscription u B = Some r \<Longrightarrow> r \<in> set (bl_subscriptions B) \<and> sr_user r = Some u"
proof -
  let ?rows = "filter (\<lambda>r. sr_user r = Some u) (bl_subscriptions B)"
  assume n: "newest_subscription u B = Some r"
  have "r \<in> set ?rows"
  proof (cases "filter (\<lambda>r. sr_updatedAt r = None) ?rows")
    case Nil
    then show ?thesis using n by (auto simp: newest_subscription_def split: list.splits dest!: sort_head)
  next
    case (Cons q qs)
    then have "r = q" using n by (simp add: newest_subscription_def)
    then have "r \<in> set (filter (\<lambda>r. sr_updatedAt r = None) ?rows)" using Cons by simp
    then show ?thesis by simp
  qed
  then show ?thesis by simp
qed

lemma profile_fields [simp]:
  "bp_currentPlan (profile_of c plan e d t) = plan" "bp_limits (profile_of c plan e d t) = PLAN_LIMITS plan"
  "bp_isDevOverride (profile_of c plan e d t) = d" "bp_isTrialActive (profile_of c plan e d t) = t"
  "bp_trialExpiration (profile_of c plan e d t) = e"
  by (simp_all add: profile_of_def)

definition profile_sound :: "billing_env \<Rightarrow> string \<Rightarrow> billing \<Rightarrow> billing_profile \<Rightarrow> bool" where
  "profile_sound E userId B p = (bp_limits p = PLAN_LIMITS (bp_currentPlan p) \<and>
     (bp_currentPlan p = Dev \<longleftrightarrow> \<not> isStripeConfigured (be_config E) \<and> cf_nodeEnv (be_config E) \<noteq> ''production'') \<and>
     (bp_currentPlan p = Free \<or> bp_currentPlan p = Dev \<or> entitled E userId B (bp_currentPlan p)) \<and>
     bp_isDevOverride p = (bp_currentPlan p = Dev) \<and>
     (bp_isTrialActive p \<longleftrightarrow> bp_currentPlan p = Trial \<and>
        (\<exists>t. bp_trialExpiration p = Some t \<and> t \<noteq> 0 \<and> s_now (be_sql E) < t)))"

lemma price_plan: "getPlanFromPriceId p C \<noteq> Dev" "getPlanFromPriceId p C \<noteq> Trial" "getPlanFromSubscriptionRecord q t \<noteq> Dev"
  by (simp_all add: getPlanFromPriceId_def getPlanFromSubscriptionRecord_def)

lemma stripe_profile_sound:
  assumes "isStripeConfigured (be_config E)" "getUserById (be_tables E) u = Some user"
    and "profile_from_stripe E (be_api E) user usage B = (Inr p, B')"
  shows "profile_sound E u B p"
proof -
  have sound: "profile_sound E u B (profile_of usage plan e False (trial_running E plan e))"
    if "plan = Free \<or> entitled E u B plan" "plan \<noteq> Dev" for plan e
    using assms(1) that by (auto simp: profile_sound_def trial_running_def split: option.split)
  have free: "profile_sound E u B (profile_of usage Free None False False)"
    using sound[of Free None] by (simp add: trial_running_def)
  have found: "profile_sound E u B (profile_of usage plan e False (trial_running E plan e))"
    if "findStripeCustomerByUser E (us_id user) (us_email user) B = (Inr (Some c), B1)"
      "sp_list_subscriptions (be_api E) (cu_id c) = Inr ss" "pickActiveSubscription ss = Some s"
      "plan = (if su_status s = ''trialing'' then Trial else getPlanFromPriceId (first_price s) (be_config E))" for c B1 ss s plan e
  proof -
    have "entitled E u B plan" using that assms(2) picked_active[OF that(3)] unfolding entitled_def by blast
    then show ?thesis using that(4) by (intro sound) (auto simp: price_plan)
  qed
  show ?thesis using assms(3) free found
    by (auto simp: profile_from_stripe_def Let_def split: sum.splits option.splits prod.splits)
qed

text \<open>Nobody gets a paid plan without paying: the profile shows a plan beyond \<open>free\<close> only for an active, trialing,
  past due or unpaid subscription of that plan, stored for this user or listed by Stripe, and \<open>dev\<close> exactly without
  Stripe outside production; its limits are those of the plan, and a trial is active exactly before its end.\<close>

theorem profile_follows_subscription:
  assumes "fetchCurrentBillingProfile E userId B = (Inr p, B')"
  shows "profile_sound E userId B p"
proof -
  have dev: "profile_sound E userId B (profile_of c (if d then Dev else Free) None d False)"
    if "\<not> isStripeConfigured (be_config E)" "d = (cf_nodeEnv (be_config E) \<noteq> ''production'')" for c d
    using that by (auto simp: profile_sound_def)
  have row: "profile_sound E userId B (profile_of c plan e False (trial_running E plan e))"
    if "isStripeConfigured (be_config E)" "newest_subscription userId B = Some r" "sr_status r \<in> set ACTIVE_STATES"
      "plan = getPlanFromSubscriptionRecord (sr_plan r) (sr_status r)" for c r plan e
  proof -
    have "entitled E userId B plan" using newest_mem[OF that(2)] that(3,4) unfolding entitled_def by blast
    then show ?thesis using that(1,4) price_plan(3)
      by (auto simp: profile_sound_def trial_running_def split: option.split)
  qed
  show ?thesis
  proof (cases "isStripeConfigured (be_config E)")
    case True
    with assms row stripe_profile_sound[OF True] show ?thesis
      by (auto simp: fetchCurrentBillingProfile_def stripe_def Let_def split: option.splits sum.splits if_splits)
  next
    case False
    with assms dev show ?thesis
      by (auto simp: fetchCurrentBillingProfile_def stripe_def Let_def split: option.splits sum.splits)
  qed
qed

theorem profile_follows_subscription_witness:
  "\<exists>p B'. fetchCurrentBillingProfile (demo_env (OtherEvent ''x'')) ''u1'' (linked\<lparr>bl_subscriptions :=
       [subscription_values (demo_env (OtherEvent ''x'')) (demo_subscription (Some ''u1'')) ''business'']\<rparr>) = (Inr p, B') \<and>
     bp_currentPlan p = Business \<and> bp_limits p = PLAN_LIMITS Business"
proof -
  let ?E = "demo_env (OtherEvent ''x'')"
  let ?B = "linked\<lparr>bl_subscriptions := [subscription_values ?E (demo_subscription (Some ''u1'')) ''business'']\<rparr>"
  obtain p where p: "fetchCurrentBillingProfile ?E ''u1'' ?B = (Inr p, ?B)" "bp_currentPlan p = Business"
    by (simp add: fetchCurrentBillingProfile_def getUserById_def select_one_def ann_tables_def ann_def getUsageCounters_def
        listAccessibleBoards_def getFavoriteBoardMap_def favorite_rows_def workspace_boards_def direct_boards_def stripe_def newest_subscription_def
        subscription_values_def demo_subscription_def ACTIVE_STATES_def getPlanFromSubscriptionRecord_def Let_def)
  with profile_follows_subscription[OF p(1)] show ?thesis by (auto simp: profile_sound_def)
qed

section \<open>Lost links\<close>

definition users_of :: "customer_link_row list \<Rightarrow> string list" where
  "users_of ls = List.map_filter cl_user ls"

lemma set_users_of: "u \<in> set (users_of ls) \<longleftrightarrow> (\<exists>l \<in> set ls. cl_user l = Some u)"
  by (induction ls) (auto simp: users_of_def map_filter_simps split: option.split)

lemma users_of_append: "users_of (xs @ ys) = users_of xs @ users_of ys"
  by (simp add: users_of_def List.map_filter_def)

lemma users_of_single: "users_of [l] = (case cl_user l of None \<Rightarrow> [] | Some u \<Rightarrow> [u])"
  by (simp add: users_of_def map_filter_simps split: option.split)

text \<open>A webhook takes the user from his customer. The checkout puts the user id into the metadata of the session,
  not of the subscription, so the event of the new subscription carries none; storing it overwrites the link that the
  checkout has made with nobody, and the subscription it stores belongs to nobody.\<close>

theorem subscription_event_unlinks_user:
  assumes "su_userId s = None" "l \<in> set (bl_links B)" "cl_customer l = su_customer s" "cl_user l = Some u"
    and "distinct (users_of (bl_links B))" "distinct (map cl_customer (bl_links B))"
  shows "\<exists>B'. upsertSubscription E s B = (Inr (), B') \<and> select_one (\<lambda>l. cl_user l = Some u) (bl_links B') = None \<and>
    (\<exists>r \<in> set (bl_subscriptions B'). sr_subscription r = su_id s \<and> sr_user r = None)"
proof -
  have other: "cl_user k \<noteq> Some u" if "k \<in> set (bl_links B)" "cl_customer k \<noteq> su_customer s" for k
    using assms(2-5) that
  proof (induction "bl_links B" arbitrary: B)
    case (Cons x xs)
    from Cons.hyps(1)[of "B\<lparr>bl_links := xs\<rparr>"] Cons.prems Cons.hyps(2)[symmetric] show ?case
      by (auto simp: users_of_def map_filter_simps set_users_of[unfolded users_of_def] split: option.splits)
  qed simp
  let ?row = "\<lparr>cl_customer = su_customer s, cl_user = None, cl_organization = getSubscriptionOrganizationId s,
    cl_email = None, cl_updatedAt = Some (s_now (be_sql E))\<rparr>"
  have there: "list_ex (\<lambda>k. cl_customer k = su_customer s) (bl_links B)" using assms(2,3) by (auto simp: list_ex_iff)
  have link: "upsertCustomerLink E (su_customer s) None (getSubscriptionOrganizationId s) None B =
      (Inr (), B\<lparr>bl_links := update_rows (\<lambda>k. cl_customer k = su_customer s) (\<lambda>k. ?row) (bl_links B)\<rparr>)"
    using there by (simp add: upsertCustomerLink_def user_reference_ok_def upsert_row_def Let_def)
  have gone: "select_one (\<lambda>l. cl_user l = Some u)
      (update_rows (\<lambda>k. cl_customer k = su_customer s) (\<lambda>k. ?row) (bl_links B)) = None"
    using other by (auto simp: select_one_None)
  define row where "row = subscription_values E s (plan_name (getPlanFromPriceId (first_price s) (be_config E)))"
  have row: "sr_subscription row = su_id s" "sr_user row = None"
    using assms(1) by (simp_all add: row_def subscription_values_def)
  let ?B = "B\<lparr>bl_links := update_rows (\<lambda>k. cl_customer k = su_customer s) (\<lambda>k. ?row) (bl_links B),
    bl_subscriptions := upsert_row (\<lambda>r. sr_subscription r = su_id s) (\<lambda>r. row) row (bl_subscriptions B)\<rparr>"
  have "upsertSubscription E s B = (Inr (), ?B)"
    using link assms(1) by (simp add: upsertSubscription_def user_reference_ok_def row_def Let_def)
  moreover have "row \<in> set (bl_subscriptions ?B)" by (simp add: upsert_has)
  ultimately show ?thesis using gone row by (intro exI[of _ ?B]) auto
qed

theorem subscription_event_unlinks_user_witness:
  "\<exists>B'. upsertSubscription (demo_env (OtherEvent ''x'')) (demo_subscription None) linked = (Inr (), B') \<and>
     select_one (\<lambda>l. cl_user l = Some ''u1'') (bl_links B') = None"
  using subscription_event_unlinks_user[of "demo_subscription None" "hd (bl_links linked)" linked "''u1''" "demo_env (OtherEvent ''x'')"]
  by (auto simp: demo_subscription_def linked_def users_of_single)

text \<open>A user whose Stripe customer has been deleted can never check out again: the code notices the deletion and
  creates a new customer, but the link of the deleted one still holds the user, so the link of the new customer
  violates the unique index; every attempt fails, and each leaves another customer at Stripe.\<close>

theorem deleted_customer_blocks_checkout:
  assumes "isStripeConfigured (be_config E)" "cr_plan request \<in> {Startup, Business}"
    and "getUserById (be_tables E) u = Some user" "select_one (\<lambda>l. cl_user l = Some (us_id user)) (bl_links B) = Some l"
    and "sp_retrieve (be_api E) (cl_customer l) = Inr None" "sp_list_customers (be_api E) (us_email user) = Inr []"
    and "sp_create_customer (be_api E) (us_email user) (us_name user) (us_id user) = Inr c" "cu_id c \<noteq> cl_customer l"
  shows "startCheckout E u request B = (Inl (Raised (s_raise (be_sql E) UNIQUE_VIOLATION)), B)"
proof -
  have "l \<in> set (bl_links B) \<and> cl_user l = Some (us_id user)" using select_one_Some[OF assms(4)] .
  then have "list_ex (\<lambda>k. cl_customer k \<noteq> cu_id c \<and> cl_user k = Some (us_id user)) (bl_links B)"
    using assms(8) by (auto simp: list_ex_iff intro!: bexI[of _ l])
  then have "upsertCustomerLink E (cu_id c) (Some (us_id user)) None m B = (Inl (Raised (s_raise (be_sql E) UNIQUE_VIOLATION)), B)" for m
    by (simp add: upsertCustomerLink_def)
  moreover have "findStripeCustomerByUser E (us_id user) (us_email user) B = (Inr None, B)"
    using assms(1,4-6) by (simp add: findStripeCustomerByUser_def stripe_def find_customer_by_email_def)
  ultimately have "getOrCreateStripeCustomer E (us_id user) (us_email user) (us_name user) B =
      (Inl (Raised (s_raise (be_sql E) UNIQUE_VIOLATION)), B)"
    using assms(1,7) by (simp add: getOrCreateStripeCustomer_def stripe_def)
  with assms(1-3) show ?thesis by (auto simp: startCheckout_def stripe_def)
qed

theorem deleted_customer_blocks_checkout_witness:
  "startCheckout (demo_env (OtherEvent ''x'')) ''u1'' \<lparr>cr_plan = Startup, cr_successUrl = None, cr_cancelUrl = None\<rparr> linked =
     (Inl (Raised (DbError (Some ''23505'') None None None None)), linked)"
  using deleted_customer_blocks_checkout[of "demo_env (OtherEvent ''x'')" "\<lparr>cr_plan = Startup, cr_successUrl = None, cr_cancelUrl = None\<rparr>"
    "''u1''" ann linked "hd (bl_links linked)" "\<lparr>cu_id = ''cus2'', cu_email = Some ''ann@x'', cu_userId = Some ''u1''\<rparr>"]
  by (simp add: getUserById_def select_one_def ann_tables_def ann_def linked_def demo_api_def demo_sql_def UNIQUE_VIOLATION_def)

end
