(* ===== verification/Application.thy ===== *)
theory Application
  imports Billing Live_Routes Redis_Cleanup
begin

text \<open>
  The rest of the HTTP surface and the life of a process: the billing routes (\<open>billing/routes.ts\<close>), the
  health probes (\<open>app/health.routes.ts\<close>), request ids and the paths without a version
  (\<open>app/create-app.ts\<close>), the repeatable jobs of the worker (\<open>platform/jobs/queues.ts\<close>,
  \<open>app/background-jobs.ts\<close>) and start and shutdown of an app (\<open>apps/app-shell.ts\<close>). What a library
  answers (zod's URL test, pings, random ids) is an argument. The lemmas show what the billing routes
  answer, what the probe reports, and that an app shuts down once.
\<close>

section \<open>Billing routes\<close>

definition url_text :: "(string \<Rightarrow> bool) \<Rightarrow> wire \<Rightarrow> string option" where
  "url_text is_url v = (case v of WStr s \<Rightarrow> if is_url s then Some s else None | _ \<Rightarrow> None)"

fun plan_text :: "wire \<Rightarrow> billing_plan option" where
  "plan_text (WStr s) = (if s = ''startup'' then Some Startup else if s = ''business'' then Some Business else None)"
| "plan_text _ = None"

definition checkoutSchema :: "(string \<Rightarrow> bool) \<Rightarrow> wire \<Rightarrow> checkout_request option" where
  "checkoutSchema is_url body = with_fields body
     (case (plan_text (get_prop ''plan'' body), optional (url_text is_url) (get_prop ''successUrl'' body),
            optional (url_text is_url) (get_prop ''cancelUrl'' body)) of
        (Some plan, Some successUrl, Some cancelUrl) \<Rightarrow>
          Some \<lparr>cr_plan = plan, cr_successUrl = successUrl, cr_cancelUrl = cancelUrl\<rparr>
      | _ \<Rightarrow> None)"

definition portalSchema :: "(string \<Rightarrow> bool) \<Rightarrow> wire \<Rightarrow> string option option" where
  "portalSchema is_url body = with_fields body (optional (url_text is_url) (get_prop ''returnUrl'' body))"

definition billing_answer :: "'a outcome \<times> billing \<Rightarrow> ('a \<Rightarrow> 'b) \<Rightarrow> 'b answer \<times> billing" where
  \<comment> \<open>the \<open>try\<close> of the four handlers: the status is read off the message, the message is sent\<close>
  "billing_answer r f = (case r of
     (Inr x, B) \<Rightarrow> (Answer 200 (f x), B)
   | (Inl e, B) \<Rightarrow> (Refused (int (mapBillingErrorToStatus (error_message e))) (error_message e), B))"

definition profile_route :: "billing_env \<Rightarrow> string \<Rightarrow> billing \<Rightarrow> billing_profile answer \<times> billing" where
  "profile_route E u B = billing_answer (fetchCurrentBillingProfile E u B) id"

definition checkout_route :: "http_env \<Rightarrow> (string \<Rightarrow> bool) \<Rightarrow> billing_env \<Rightarrow> string \<Rightarrow> wire \<Rightarrow> billing \<Rightarrow>
    (string \<times> string \<times> billing_plan) answer \<times> billing" where
  "checkout_route H is_url E u body = parsed_or_400 H ''checkout'' body (checkoutSchema is_url body)
     (\<lambda>request B. billing_answer (startCheckout E u request B) id)"

definition portal_route :: "http_env \<Rightarrow> (string \<Rightarrow> bool) \<Rightarrow> billing_env \<Rightarrow> string \<Rightarrow> wire \<Rightarrow> billing \<Rightarrow>
    (string \<times> string) answer \<times> billing" where
  "portal_route H is_url E u body = parsed_or_400 H ''portal'' body (portalSchema is_url body)
     (\<lambda>returnUrl B. billing_answer (openBillingPortal E u returnUrl B) id)"

definition webhook_route :: "billing_env \<Rightarrow> string list \<Rightarrow> nat list option \<Rightarrow> billing \<Rightarrow> unit answer \<times> billing" where
  \<comment> \<open>the values of the signature header, and the body if it is a buffer\<close>
  "webhook_route E signatures body B =
     billing_answer (handleWebhook E (case body of None \<Rightarrow> [] | Some bytes \<Rightarrow> bytes)
       (case signatures of [] \<Rightarrow> None | s # _ \<Rightarrow> Some s) B) (\<lambda>duplicate. ())"

section \<open>Health\<close>

record health_env =
  he_pg :: bool
  he_ping :: bool
  he_zcard :: "string \<Rightarrow> int option"
    \<comment> \<open>\<open>None\<close>: the command fails\<close>
  he_newest :: "string \<Rightarrow> string list option"
    \<comment> \<open>\<open>ZREVRANGE key 0 0 WITHSCORES\<close>\<close>
  he_now :: int

record board_state_health =
  bh_dirtyBacklog :: int
  bh_lastDirtyAt :: "int option"
  bh_timeSinceLastDirtyMs :: "int option"

definition getBoardStateHealth :: "health_env \<Rightarrow> bool \<times> board_state_health" where
  \<comment> \<open>whether the status is \<open>ok\<close> rather than \<open>degraded\<close>\<close>
  "getBoardStateHealth E = (case (he_zcard E DIRTY_BOARDS_BY_AGE_KEY, he_newest E DIRTY_BOARDS_BY_AGE_KEY) of
     (Some backlog, Some newest) \<Rightarrow>
       (if length newest < 2 then (True, \<lparr>bh_dirtyBacklog = backlog, bh_lastDirtyAt = None, bh_timeSinceLastDirtyMs = None\<rparr>)
        else (let lastDirtyAt = parse_int (newest ! 1) in
          (True, \<lparr>bh_dirtyBacklog = backlog, bh_lastDirtyAt = lastDirtyAt,
             bh_timeSinceLastDirtyMs = map_option (\<lambda>t. max 0 (he_now E - t)) lastDirtyAt\<rparr>)))
   | _ \<Rightarrow> (False, \<lparr>bh_dirtyBacklog = 0, bh_lastDirtyAt = None, bh_timeSinceLastDirtyMs = None\<rparr>))"

definition isAllHealthy :: "bool \<Rightarrow> bool \<Rightarrow> bool \<Rightarrow> bool" where
  "isAllHealthy postgres redis boardState = (postgres \<and> redis \<and> boardState)"

record health_report =
  hr_ok :: bool
  hr_postgres :: bool
  hr_redis :: bool
  hr_openWebSocketConnections :: int
  hr_boardState :: board_state_health

definition healthRoute :: "health_env \<Rightarrow> int \<Rightarrow> int \<times> health_report" where
  \<comment> \<open>status code and body, with the open Socket.IO connections\<close>
  "healthRoute E connections = (let (boardOk, state) = getBoardStateHealth E; healthy = isAllHealthy (he_pg E) (he_ping E) boardOk in
     (if healthy then 200 else 503, \<lparr>hr_ok = healthy, hr_postgres = he_pg E, hr_redis = he_ping E,
        hr_openWebSocketConnections = connections, hr_boardState = state\<rparr>))"

section \<open>Requests\<close>

definition UNVERSIONED_PATHS :: "string list" where
  "UNVERSIONED_PATHS = [''/health'', ''/metrics'', ''/debug'', ''/openapi'', ''/swagger'']"

definition unversioned :: "string \<Rightarrow> bool" where
  \<comment> \<open>the \<open>skip\<close> of the global rate limiter: as written, so it tells upper from lower case (Express does not when it
    matches a route) and does not name \<open>/openapi.json\<close>\<close>
  "unversioned path = (\<exists>prefix \<in> set UNVERSIONED_PATHS. path = prefix \<or> starts_with (prefix @ ''/'') path)"

definition shouldLogRequest :: "string option \<Rightarrow> bool" where
  "shouldLogRequest url = (case url of None \<Rightarrow> False
     | Some u \<Rightarrow> u \<noteq> [] \<and> \<not> unversioned (takeWhile (\<lambda>c. c \<noteq> CHR ''?'') u))"

definition id_char :: "char \<Rightarrow> bool" where
  \<comment> \<open>\<open>[\w.@-]\<close>\<close>
  "id_char c = (let n = (of_char c :: nat) in
     48 \<le> n \<and> n \<le> 57 \<or> 65 \<le> n \<and> n \<le> 90 \<or> 97 \<le> n \<and> n \<le> 122 \<or> c \<in> set ''_.@-'')"

definition genReqId :: "string list \<Rightarrow> string \<Rightarrow> string" where
  \<comment> \<open>the values of \<open>x-request-id\<close> (several are an array, no string) and the \<open>randomUUID()\<close>\<close>
  "genReqId incoming uuid = (case incoming of
     [i] \<Rightarrow> if 8 \<le> length i \<and> length i \<le> 128 \<and> list_all id_char i then i else uuid
   | _ \<Rightarrow> uuid)"

section \<open>Repeatable jobs\<close>

definition BOARD_PERSIST_FLUSH_JOB :: string where "BOARD_PERSIST_FLUSH_JOB = ''flush-dirty-boards''"
definition BOARD_CLEANUP_JOB :: string where "BOARD_CLEANUP_JOB = ''cleanup-inactive-boards''"

record background =
  bg_queues :: "string list"
  bg_workers :: "(string \<times> string) list"
    \<comment> \<open>queue and scheduler id\<close>
  bg_schedules :: "((string \<times> string) \<times> int) list"
    \<comment> \<open>in Redis: the interval of each scheduler of each queue\<close>

definition upsertRepeatableJob :: "string \<Rightarrow> string \<Rightarrow> int \<Rightarrow> background \<Rightarrow> background" where
  "upsertRepeatableJob queue schedulerId everyMs s = s\<lparr>bg_schedules := js_put (queue, schedulerId) everyMs (bg_schedules s)\<rparr>"

definition registerQueue :: "string \<Rightarrow> background \<Rightarrow> background" where
  "registerQueue queue s = s\<lparr>bg_queues := bg_queues s @ [queue]\<rparr>"

definition add_worker :: "string \<Rightarrow> string \<Rightarrow> background \<Rightarrow> background" where
  "add_worker queue schedulerId s = s\<lparr>bg_workers := bg_workers s @ [(queue, schedulerId)]\<rparr>"

definition start_background :: "int \<Rightarrow> int \<Rightarrow> background \<Rightarrow> background" where
  "start_background persistMs cleanupMs s =
     add_worker ''board-maintenance'' BOARD_CLEANUP_JOB (upsertRepeatableJob ''board-maintenance'' BOARD_CLEANUP_JOB cleanupMs
       (registerQueue ''board-maintenance''
     (add_worker ''board-persist-flush'' BOARD_PERSIST_FLUSH_JOB (upsertRepeatableJob ''board-persist-flush'' BOARD_PERSIST_FLUSH_JOB persistMs
       (registerQueue ''board-persist-flush'' s)))))"

definition stop_background :: "background \<Rightarrow> background" where
  "stop_background s = s\<lparr>bg_workers := [], bg_queues := []\<rparr>"

definition repeatable :: "string \<Rightarrow> ('w \<Rightarrow> ('a result \<times> 'w) option) \<Rightarrow> string \<Rightarrow> 'w \<Rightarrow> ('a option result \<times> 'w) option" where
  \<comment> \<open>the processor of \<open>createRepeatableWorker\<close>: jobs of another name are let go\<close>
  "repeatable schedulerId processor name w = (if name \<noteq> schedulerId then Some (Inr None, w)
     else map_option (\<lambda>(r, w). (map_sum id Some r, w)) (processor w))"

definition persist_flush_job :: "'w env \<Rightarrow> bool \<Rightarrow> string \<Rightarrow> 'w \<Rightarrow> (string list option result \<times> 'w) option" where
  "persist_flush_job E incremental = repeatable BOARD_PERSIST_FLUSH_JOB
     (\<lambda>w. map_option (\<lambda>(ids, w). (Inr ids, w)) (flushDirtyBoards E incremental w))"

definition maintenance_job :: "'w env \<Rightarrow> bool \<Rightarrow> bool \<Rightarrow> string \<Rightarrow> 'w \<Rightarrow> ((nat \<times> nat) option result \<times> 'w) option" where
  \<comment> \<open>the two clean-ups, which the source runs concurrently, one after the other\<close>
  "maintenance_job E incremental useActiveIndex = repeatable BOARD_CLEANUP_JOB (\<lambda>w. do {
     (flushed, w) \<leftarrow> cleanupInactiveBoards E incremental useActiveIndex DEFAULT_IDLE_TTL_MS DEFAULT_SCAN_LIMIT w;
     (case cleanupTransientDataByIdleTime E DEFAULT_IDLE_TTL_MS DEFAULT_SCAN_LIMIT w of (deleted, w) \<Rightarrow>
        Some (map_sum id (\<lambda>ids. (length ids, length deleted)) flushed, w)) })"

section \<open>Life of an app\<close>

datatype shell_event =
    Started bool
    \<comment> \<open>whether \<open>start\<close> succeeded\<close>
  | Signal
  | ShutdownEnds bool
  | ForceExitDue

record shell =
  sh_shuttingDown :: bool
  sh_shutdowns :: nat
    \<comment> \<open>calls of \<open>shutdown\<close>\<close>
  sh_timer :: bool
  sh_completed :: bool
  sh_exit :: "int option"

definition new_shell :: shell where
  "new_shell = \<lparr>sh_shuttingDown = False, sh_shutdowns = 0, sh_timer = False, sh_completed = False, sh_exit = None\<rparr>"

definition handleSignal :: "shell \<Rightarrow> shell" where
  "handleSignal s = (if sh_shuttingDown s then s
     else s\<lparr>sh_shuttingDown := True, sh_timer := True, sh_shutdowns := sh_shutdowns s + 1\<rparr>)"

fun shell_step :: "shell_event \<Rightarrow> shell \<Rightarrow> shell" where
  \<comment> \<open>nothing runs after \<open>process.exit\<close>; \<open>shutdown\<close> ends only once it was called\<close>
  "shell_step ev s = (if sh_exit s \<noteq> None then s else (case ev of
     Started ok \<Rightarrow> if ok then s else s\<lparr>sh_exit := Some 1\<rparr>
   | Signal \<Rightarrow> handleSignal s
   | ShutdownEnds ok \<Rightarrow> if \<not> sh_shuttingDown s then s
       else if ok then s\<lparr>sh_timer := False, sh_completed := True, sh_exit := Some 0\<rparr> else s\<lparr>sh_exit := Some 1\<rparr>
   | ForceExitDue \<Rightarrow> if sh_timer s then s\<lparr>sh_exit := Some 1\<rparr> else s))"

section \<open>What they guarantee\<close>

definition shell_ok :: "shell \<Rightarrow> bool" where
  "shell_ok s = (sh_shutdowns s = (if sh_shuttingDown s then 1 else 0) \<and> (sh_exit s = Some 0 \<longleftrightarrow> sh_completed s) \<and>
     (sh_completed s \<longrightarrow> sh_shuttingDown s) \<and> (sh_shuttingDown s \<and> sh_exit s = None \<longrightarrow> sh_timer s))"

text \<open>However many signals an app gets, and whatever order they, the timer and the end of the shutdown come in, it calls
  \<open>shutdown\<close> at most once, exits with 0 exactly if that completed, and cannot hang: as long as it is shutting down the
  timer that ends it is armed.\<close>

theorem app_shuts_down_once: "shell_ok (fold shell_step events new_shell)"
proof -
  have "shell_ok s \<Longrightarrow> shell_ok (fold shell_step events s)" for s
  proof (induction events arbitrary: s)
    case (Cons ev events)
    have "shell_ok (shell_step ev s)" using Cons.prems
      by (cases ev) (auto simp: shell_ok_def handleSignal_def)
    then show ?case using Cons.IH by simp
  qed simp
  then show ?thesis by (simp add: shell_ok_def new_shell_def)
qed

text \<open>Schedules do not stack: whatever intervals the workers of earlier deployments and replicas started with, the queues
  end up with the intervals of the last start, and with one schedule for each job.\<close>

theorem schedules_do_not_stack:
  "bg_schedules (fold (\<lambda>(p, c). start_background p c) (starts @ [(persistMs, cleanupMs)]) \<lparr>bg_queues = [], bg_workers = [], bg_schedules = []\<rparr>) =
   [((''board-persist-flush'', BOARD_PERSIST_FLUSH_JOB), persistMs), ((''board-maintenance'', BOARD_CLEANUP_JOB), cleanupMs)]"
proof -
  have step: "bg_schedules (start_background p c s) =
      [((''board-persist-flush'', BOARD_PERSIST_FLUSH_JOB), p), ((''board-maintenance'', BOARD_CLEANUP_JOB), c)]"
    if "bg_schedules s = [] \<or> (\<exists>p c. bg_schedules s =
      [((''board-persist-flush'', BOARD_PERSIST_FLUSH_JOB), p), ((''board-maintenance'', BOARD_CLEANUP_JOB), c)])" for p c s
    using that by (auto simp: start_background_def add_worker_def upsertRepeatableJob_def registerQueue_def)
  have "bg_schedules (fold (\<lambda>(p, c). start_background p c) starts s) = [] \<or>
      (\<exists>p c. bg_schedules (fold (\<lambda>(p, c). start_background p c) starts s) =
        [((''board-persist-flush'', BOARD_PERSIST_FLUSH_JOB), p), ((''board-maintenance'', BOARD_CLEANUP_JOB), c)])"
    if "bg_schedules s = [] \<or> (\<exists>p c. bg_schedules s =
      [((''board-persist-flush'', BOARD_PERSIST_FLUSH_JOB), p), ((''board-maintenance'', BOARD_CLEANUP_JOB), c)])" for s
    using that
  proof (induction starts arbitrary: s)
    case (Cons pc starts)
    obtain p c where pc: "pc = (p, c)" by fastforce
    show ?case using Cons.IH[of "start_background p c s"] step[OF Cons.prems, of p c] unfolding pc by auto
  qed simp
  then show ?thesis by (simp add: step)
qed

text \<open>The probe answers 200 exactly when the database and Redis answer, and never without the report.\<close>

lemma health_status:
  "fst (healthRoute E n) = 200 \<longleftrightarrow> he_pg E \<and> he_ping E \<and> he_zcard E DIRTY_BOARDS_BY_AGE_KEY \<noteq> None \<and>
     he_newest E DIRTY_BOARDS_BY_AGE_KEY \<noteq> None"
  by (auto simp: healthRoute_def getBoardStateHealth_def isAllHealthy_def Let_def split: option.split)

text \<open>A billing route hands the message of any error to its caller, also that of the database, which names tables and
  columns: \<open>errorHandler\<close>, which hides the message of an internal error, is not reached.\<close>

theorem billing_routes_send_internal_messages:
  assumes "fetchCurrentBillingProfile E u B = (Inl e, B')" "resolveStatus e = 500"
  shows "\<exists>status. profile_route E u B = (Refused status (error_message e), B') \<and>
    errorHandler e = (Refused 500 ''Internal server error'' :: unit answer)"
  using assms by (simp add: profile_route_def billing_answer_def errorHandler_def)

text \<open>What the webhook route answers: 200 for an event that was processed and for one that was there before, and a
  refusal in all other cases, so that Stripe delivers it again.\<close>

theorem webhook_route_outcome:
  "case handleWebhook E (case body of None \<Rightarrow> [] | Some bytes \<Rightarrow> bytes) (case signatures of [] \<Rightarrow> None | s # _ \<Rightarrow> Some s) B of
     (Inr duplicate, B') \<Rightarrow> webhook_route E signatures body B = (Answer 200 (), B')
   | (Inl e, B') \<Rightarrow> \<exists>status \<in> {400, 404, 500, 503}. webhook_route E signatures body B = (Refused status (error_message e), B')"
  by (auto simp: webhook_route_def billing_answer_def mapBillingErrorToStatus_def split: prod.split sum.split)

end
