(* ===== verification/Pipeline.thy ===== *)
theory Pipeline
  imports Sessions Application
begin

text \<open>
  The order in which the API works on a request (\<open>app/create-app.ts\<close>): the check of the origin, the rate
  limiters, the routers and where they are mounted, with the guards of the pages for developers
  (\<open>app/openapi.routes.ts\<close>, \<open>app/swagger.routes.ts\<close>, \<open>app/debug.routes.ts\<close>) and the counter of legacy
  requests. Express is the argument \<open>express\<close>: which paths a mount matches, which requests a route or a
  router matches; so are the answers of the \<open>cors\<close> package, of the body parser and of the limiters'
  stores. What a router does with a request is in the theories of the routes.
\<close>

section \<open>Requests and what they meet\<close>

record api_request =
  ar_method :: string
  ar_path :: string
    \<comment> \<open>\<open>req.path\<close>, what the mounts leave of it\<close>
  ar_originalUrl :: string
  ar_request :: request
    \<comment> \<open>its headers, cookies, query and body\<close>

datatype limiter = Global_limiter | Auth_limiter | Probe_limiter

datatype router =
    Webhook_router | Auth_router | User_router | Billing_router | Workspace_router | Board_access_router | Board_router
  | Live_page | Ready_page | Metrics_page | Debug_page | Openapi_page | Swagger_page

datatype api_reply =
    Status int string
  | Entered router
    \<comment> \<open>a route of this router answers\<close>
  | By_cors
  | By_parser
    \<comment> \<open>the error handler, on a body that cannot be read\<close>

record express =
  ex_under :: "string \<Rightarrow> string \<Rightarrow> string option"
    \<comment> \<open>what is left of a path under a mount\<close>
  ex_page :: "string \<Rightarrow> api_request \<Rightarrow> bool"
    \<comment> \<open>\<open>app.get(path)\<close> matches\<close>
  ex_route :: "router \<Rightarrow> api_request \<Rightarrow> bool"
    \<comment> \<open>a route of the router matches, its path taken from the mount\<close>
  ex_cors :: "bool \<Rightarrow> api_request \<Rightarrow> bool"
    \<comment> \<open>the \<open>cors\<close> package answers itself, given whether it allows the origin\<close>
  ex_unreadable :: "api_request \<Rightarrow> bool"

record 'l api_state =
  as_store :: 'l
  as_charged :: "limiter list"
  as_legacy :: int

record 'l api_env =
  av_express :: express
  av_charge :: "limiter \<Rightarrow> api_request \<Rightarrow> 'l \<Rightarrow> bool \<times> 'l"
    \<comment> \<open>whether the store finds the budget of the limiter used up\<close>
  av_verify :: "string \<Rightarrow> string option"
    \<comment> \<open>\<open>verifyAccessToken\<close>\<close>
  av_corsOrigin :: string
  av_nodeEnv :: string
  av_rateLimitDisabled :: bool
  av_enableLegacyApiRoutes :: bool

type_synonym 'l middleware = "api_request \<Rightarrow> 'l api_state \<Rightarrow> api_reply option \<times> 'l api_state"
  \<comment> \<open>\<open>None\<close> is \<open>next()\<close>\<close>

fun run_chain :: "'l middleware list \<Rightarrow> 'l middleware" where
  "run_chain [] rq s = (None, s)"
| "run_chain (m # ms) rq s = (case m rq s of (Some r, s) \<Rightarrow> (Some r, s) | (None, s) \<Rightarrow> run_chain ms rq s)"

definition mount :: "'l api_env \<Rightarrow> string \<Rightarrow> 'l middleware list \<Rightarrow> 'l middleware" where
  \<comment> \<open>\<open>use(prefix, ...)\<close>\<close>
  "mount E prefix chain rq s = (case ex_under (av_express E) prefix (ar_path rq) of
     None \<Rightarrow> (None, s) | Some rest \<Rightarrow> run_chain chain (rq\<lparr>ar_path := rest\<rparr>) s)"

definition page :: "'l api_env \<Rightarrow> string \<Rightarrow> 'l middleware list \<Rightarrow> 'l middleware" where
  \<comment> \<open>\<open>get(path, ...)\<close>\<close>
  "page E path chain rq s = (if ex_page (av_express E) path rq then run_chain chain rq s else (None, s))"

definition reply_with :: "api_reply \<Rightarrow> 'l middleware" where
  "reply_with r rq s = (Some r, s)"

definition routes :: "'l api_env \<Rightarrow> router \<Rightarrow> 'l middleware" where
  "routes E r rq s = (if ex_route (av_express E) r rq then (Some (Entered r), s) else (None, s))"

section \<open>Guards\<close>

definition API_V1_PREFIX :: string where "API_V1_PREFIX = ''/api/v1''"

definition STATE_CHANGING_METHODS :: "string list" where
  "STATE_CHANGING_METHODS = [''POST'', ''PUT'', ''PATCH'', ''DELETE'']"

definition cors_step :: "'l api_env \<Rightarrow> 'l middleware" where
  "cors_step E rq s = (if ex_cors (av_express E) (cors_allows (av_corsOrigin E) (rq_origin (ar_request rq))) rq then (Some By_cors, s) else (None, s))"

definition originCheck :: "'l api_env \<Rightarrow> 'l middleware" where
  "originCheck E rq s = (case rq_origin (ar_request rq) of None \<Rightarrow> (None, s)
     | Some origin \<Rightarrow> if ar_method rq \<in> set STATE_CHANGING_METHODS \<and> origin \<notin> set (parseAllowedOrigins (av_corsOrigin E))
         then (Some (Status 403 ''Untrusted origin''), s) else (None, s))"

definition charge :: "'l api_env \<Rightarrow> limiter \<Rightarrow> 'l middleware" where
  "charge E l rq s = (case av_charge E l rq (as_store s) of (used_up, store) \<Rightarrow>
     (let s = s\<lparr>as_store := store, as_charged := as_charged s @ [l]\<rparr> in
      if used_up then (Some (Status 429 ''Too many requests''), s) else (None, s)))"

definition globalLimiter :: "'l api_env \<Rightarrow> 'l middleware" where
  "globalLimiter E rq s = (if unversioned (ar_path rq) then (None, s) else charge E Global_limiter rq s)"

definition probeGuards :: "'l api_env \<Rightarrow> 'l middleware list" where
  "probeGuards E = (if av_rateLimitDisabled E then [] else [charge E Probe_limiter])"

definition body_parser :: "'l api_env \<Rightarrow> 'l middleware" where
  "body_parser E rq s = (if ex_unreadable (av_express E) rq then (Some By_parser, s) else (None, s))"

definition not_in_production :: "'l api_env \<Rightarrow> 'l middleware" where
  \<comment> \<open>the first handler of the debug and the Swagger router\<close>
  "not_in_production E rq s = (if av_nodeEnv E = ''production'' then (Some (Status 404 ''Not found''), s) else (None, s))"

definition openapi_router :: "'l api_env \<Rightarrow> 'l middleware" where
  "openapi_router E = page E ''/openapi.json'' [not_in_production E, reply_with (Entered Openapi_page)]"

definition swagger_router :: "'l api_env \<Rightarrow> 'l middleware list" where
  "swagger_router E = [not_in_production E, routes E Swagger_page]"

definition debug_router :: "'l api_env \<Rightarrow> 'l middleware list" where
  "debug_router E = [not_in_production E, page E ''/state'' [reply_with (Entered Debug_page)]]"

section \<open>The application\<close>

definition auth_step :: "'l api_env \<Rightarrow> 'l middleware" where
  "auth_step E rq s = (case authMiddleware (av_verify E) (ar_request rq) of
     Inl message \<Rightarrow> (Some (Status 401 message), s) | Inr u \<Rightarrow> (None, s))"

definition createBoardRouter :: "'l api_env \<Rightarrow> 'l middleware list" where
  \<comment> \<open>the routes of access and mutations, then those behind \<open>authMiddleware\<close>, which guards each of the four\<close>
  "createBoardRouter E = [routes E Board_access_router, auth_step E, routes E Board_router]"

definition jsonNotFoundHandler :: "'l middleware" where
  "jsonNotFoundHandler rq s = (Some (Status 404 (''Not found: '' @ ar_method rq @ '' '' @ ar_originalUrl rq)), s)"

definition legacy_counter :: "'l middleware" where
  "legacy_counter rq s = (None, s\<lparr>as_legacy := as_legacy s + 1\<rparr>)"

definition mountModuleRouters :: "'l api_env \<Rightarrow> bool \<Rightarrow> 'l middleware list" where
  "mountModuleRouters E countLegacy = (let legacyCounter = (if countLegacy then [legacy_counter] else []) in
     [mount E ''/auth'' (legacyCounter @ (if av_rateLimitDisabled E then [] else [charge E Auth_limiter]) @ [routes E Auth_router]),
      mount E ''/users'' (legacyCounter @ [routes E User_router]),
      mount E ''/'' (legacyCounter @ [routes E Billing_router]),
      mount E ''/'' (legacyCounter @ [routes E Workspace_router]),
      mount E ''/'' (legacyCounter @ createBoardRouter E)])"

definition probes :: "'l api_env \<Rightarrow> 'l middleware list" where
  "probes E = [
     page E ''/health/live'' (probeGuards E @ [reply_with (Entered Live_page)]),
     page E ''/health/ready'' (probeGuards E @ [reply_with (Entered Ready_page)]),
     page E ''/health'' (probeGuards E @ [reply_with (Entered Ready_page)]),
     page E ''/metrics'' (probeGuards E @ [reply_with (Entered Metrics_page)]),
     mount E ''/debug'' (probeGuards E @ debug_router E)]"

definition contract_pages :: "'l api_env \<Rightarrow> 'l middleware list" where
  \<comment> \<open>a list of paths mounts at the first of them that matches\<close>
  "contract_pages E =
     (if av_rateLimitDisabled E then []
      else [\<lambda>rq s. if ex_under (av_express E) ''/openapi'' (ar_path rq) \<noteq> None \<or> ex_under (av_express E) ''/openapi.json'' (ar_path rq) \<noteq> None
              then charge E Probe_limiter rq s else (None, s),
            mount E ''/swagger'' [charge E Probe_limiter]]) @
     [openapi_router E, mount E ''/swagger'' (swagger_router E)]"

definition createApp :: "'l api_env \<Rightarrow> 'l middleware" where
  "createApp E = run_chain (
     [cors_step E, originCheck E] @ (if av_rateLimitDisabled E then [] else [globalLimiter E]) @
     [routes E Webhook_router, body_parser E] @ probes E @ contract_pages E @
     [mount E API_V1_PREFIX (mountModuleRouters E False)] @
     (if av_enableLegacyApiRoutes E then mountModuleRouters E True else []) @
     [jsonNotFoundHandler])"

section \<open>Chains\<close>

lemma run_chain_append: "run_chain (ms @ ns) rq s = (case run_chain ms rq s of (Some r, s) \<Rightarrow> (Some r, s) | (None, s) \<Rightarrow> run_chain ns rq s)"
  by (induction ms arbitrary: s) (auto split: prod.split option.split)

definition pays :: "(router \<Rightarrow> limiter set) \<Rightarrow> limiter set \<Rightarrow> 'l middleware \<Rightarrow> bool" where
  \<comment> \<open>after the limiters \<open>D\<close> were charged: a router is entered only when those that are due for it have been, and
    the global limiter is left alone\<close>
  "pays due D m = (\<forall>rq s r s'. m rq s = (r, s') \<longrightarrow> (\<exists>more. as_charged s' = as_charged s @ more \<and> Global_limiter \<notin> set more \<and>
     (\<forall>e. r = Some (Entered e) \<longrightarrow> due e \<subseteq> D \<union> set more)))"

lemma paysD:
  assumes "pays due D m" "m rq s = (r, s')"
  obtains more where "as_charged s' = as_charged s @ more" "Global_limiter \<notin> set more" "\<And>e. r = Some (Entered e) \<Longrightarrow> due e \<subseteq> D \<union> set more"
proof -
  have "\<exists>more. as_charged s' = as_charged s @ more \<and> Global_limiter \<notin> set more \<and> (\<forall>e. r = Some (Entered e) \<longrightarrow> due e \<subseteq> D \<union> set more)"
    by (rule mp[OF spec[OF spec[OF spec[OF spec[OF assms(1)[unfolded pays_def]]]]] assms(2)])
  then show thesis using that by auto
qed

lemma pays_Cons:
  assumes m: "pays due D m" and ms: "pays due D (run_chain ms)"
  shows "pays due D (run_chain (m # ms))"
  unfolding pays_def
proof (intro allI impI)
  fix rq s r s' assume run: "run_chain (m # ms) rq s = (r, s')"
  obtain a t where t: "m rq s = (a, t)" by fastforce
  obtain more where more: "as_charged t = as_charged s @ more" "Global_limiter \<notin> set more" "\<And>e. a = Some (Entered e) \<Longrightarrow> due e \<subseteq> D \<union> set more"
    using paysD[OF m t] by metis
  show "\<exists>more. as_charged s' = as_charged s @ more \<and> Global_limiter \<notin> set more \<and> (\<forall>e. r = Some (Entered e) \<longrightarrow> due e \<subseteq> D \<union> set more)"
  proof (cases a)
    case None
    then have "run_chain ms rq t = (r, s')" using run t by simp
    then obtain rest where rest: "as_charged s' = as_charged t @ rest" "Global_limiter \<notin> set rest" "\<And>e. r = Some (Entered e) \<Longrightarrow> due e \<subseteq> D \<union> set rest"
      using paysD[OF ms] by metis
    show ?thesis using more(1,2) rest(1,2) by (intro exI[of _ "more @ rest"]) (use rest(3) in fastforce)
  next
    case (Some b)
    then show ?thesis using run t more by auto
  qed
qed

lemma pays_chain: "\<forall>m \<in> set ms. pays due D m \<Longrightarrow> pays due D (run_chain ms)"
  by (induction ms) (auto simp del: run_chain.simps(2) intro!: pays_Cons simp: pays_def[of due D "run_chain []"])

lemma pays_after_charge:
  assumes "l \<noteq> Global_limiter" "pays due (insert l D) (run_chain ms)"
  shows "pays due D (run_chain (charge E l # ms))"
  unfolding pays_def
proof (intro allI impI)
  fix rq s r s' assume run: "run_chain (charge E l # ms) rq s = (r, s')"
  obtain used_up store where c: "av_charge E l rq (as_store s) = (used_up, store)" by fastforce
  let ?t = "s\<lparr>as_store := store, as_charged := as_charged s @ [l]\<rparr>"
  show "\<exists>more. as_charged s' = as_charged s @ more \<and> Global_limiter \<notin> set more \<and> (\<forall>e. r = Some (Entered e) \<longrightarrow> due e \<subseteq> D \<union> set more)"
  proof (cases used_up)
    case True
    then show ?thesis using run c assms(1) by (auto simp: charge_def)
  next
    case False
    then have "run_chain ms rq ?t = (r, s')" using run c by (simp add: charge_def)
    then obtain more where more: "as_charged s' = as_charged ?t @ more" "Global_limiter \<notin> set more" "\<And>e. r = Some (Entered e) \<Longrightarrow> due e \<subseteq> insert l D \<union> set more"
      using paysD[OF assms(2)] by metis
    show ?thesis using more(1,2) assms(1) by (intro exI[of _ "l # more"]) (use more(3) in fastforce)
  qed
qed

lemma pays_mount: "pays due D (run_chain ms) \<Longrightarrow> pays due D (mount E prefix ms)"
  unfolding pays_def mount_def by (auto split: option.splits)

lemma pays_page: "pays due D (run_chain ms) \<Longrightarrow> pays due D (page E path ms)"
  unfolding pays_def page_def by auto

lemma pays_end: "due r \<subseteq> D \<Longrightarrow> pays due D (reply_with (Entered r))" "due r \<subseteq> D \<Longrightarrow> pays due D (routes E r)"
  by (auto simp: pays_def reply_with_def routes_def)

lemma pays_guards [simp]:
  "pays due D (cors_step E)" "pays due D (originCheck E)" "l \<noteq> Global_limiter \<Longrightarrow> pays due D (charge E l)"
  "pays due D (body_parser E)" "pays due D (not_in_production E)" "pays due D (auth_step E)" "pays due D jsonNotFoundHandler"
  "pays due D legacy_counter"
  by (auto simp: pays_def cors_step_def originCheck_def charge_def body_parser_def not_in_production_def
    auth_step_def jsonNotFoundHandler_def legacy_counter_def Let_def split: prod.splits option.splits if_splits sum.splits)

text \<open>Which limiters are due for a router.\<close>

fun due :: "router \<Rightarrow> limiter set" where
  "due Auth_router = {Auth_limiter}"
| "due Live_page = {Probe_limiter}"
| "due Ready_page = {Probe_limiter}"
| "due Metrics_page = {Probe_limiter}"
| "due Debug_page = {Probe_limiter}"
| "due Openapi_page = {Probe_limiter}"
| "due Swagger_page = {Probe_limiter}"
| "due _ = {}"

lemma pays_module_routers:
  assumes "\<not> av_rateLimitDisabled E"
  shows "\<forall>m \<in> set (mountModuleRouters E count). pays due D m"
proof -
  have "pays due D (run_chain (charge E Auth_limiter # [routes E Auth_router]))"
    by (rule pays_after_charge) (simp_all add: pays_chain pays_end)
  from this pays_Cons[OF pays_guards(8) this]
  show ?thesis using assms
    by (auto simp: mountModuleRouters_def Let_def createBoardRouter_def intro!: pays_mount pays_chain pays_end)
qed

lemma pays_probe:
  assumes "due e \<subseteq> {Probe_limiter}" "\<not> av_rateLimitDisabled E"
  shows "pays due D (page E path (probeGuards E @ [reply_with (Entered e)]))"
proof -
  have "pays due D (run_chain (charge E Probe_limiter # [reply_with (Entered e)]))"
    by (rule pays_after_charge) (use assms(1) in \<open>auto intro!: pays_chain pays_end\<close>)
  then show ?thesis using assms(2) by (auto simp: probeGuards_def intro!: pays_page)
qed

lemma pays_debug:
  assumes "\<not> av_rateLimitDisabled E"
  shows "pays due D (mount E ''/debug'' (probeGuards E @ debug_router E))"
proof -
  have "pays due D (run_chain (charge E Probe_limiter # debug_router E))"
    by (rule pays_after_charge) (auto simp: debug_router_def intro!: pays_chain pays_page pays_end)
  then show ?thesis using assms by (auto simp: probeGuards_def intro!: pays_mount)
qed

text \<open>A limiter mounted apart from the pages it is for: requests outside its mount must not enter them.\<close>

lemma pays_gate:
  assumes gate: "\<And>rq s. m rq s = (if P rq then charge E l (f rq) s else (None, s))" and "l \<noteq> Global_limiter"
    and inside: "pays due (insert l D) (run_chain ms)" and outside: "pays due D (\<lambda>rq s. if P rq then (None, s) else run_chain ms rq s)"
  shows "pays due D (run_chain (m # ms))"
  unfolding pays_def
proof (intro allI impI)
  fix rq s r s' assume run: "run_chain (m # ms) rq s = (r, s')"
  obtain used_up store where c: "av_charge E l (f rq) (as_store s) = (used_up, store)" by fastforce
  let ?t = "s\<lparr>as_store := store, as_charged := as_charged s @ [l]\<rparr>"
  consider (outside) "\<not> P rq" | (refused) "P rq" used_up | (inside) "P rq" "\<not> used_up" by blast
  then show "\<exists>more. as_charged s' = as_charged s @ more \<and> Global_limiter \<notin> set more \<and> (\<forall>e. r = Some (Entered e) \<longrightarrow> due e \<subseteq> D \<union> set more)"
  proof cases
    case outside
    then have "(\<lambda>rq s. if P rq then (None, s) else run_chain ms rq s) rq s = (r, s')" using run gate by simp
    from paysD[OF assms(4) this] show ?thesis by metis
  next
    case refused
    then show ?thesis using run c assms(2) gate by (auto simp: charge_def)
  next
    case inside
    then have "run_chain ms rq ?t = (r, s')" using run c gate by (simp add: charge_def)
    then obtain more where more: "as_charged s' = as_charged ?t @ more" "Global_limiter \<notin> set more" "\<And>e. r = Some (Entered e) \<Longrightarrow> due e \<subseteq> insert l D \<union> set more"
      using paysD[OF assms(3)] by metis
    show ?thesis using more(1,2) assms(2) by (intro exI[of _ "l # more"]) (use more(3) in fastforce)
  qed
qed

lemma pays_weaken: "pays due D m \<Longrightarrow> pays due D (\<lambda>rq s. if P rq then (None, s) else m rq s)"
  unfolding pays_def by auto

definition pages_under_mounts :: "express \<Rightarrow> bool" where
  \<comment> \<open>what Express documents of \<open>use\<close> and \<open>get\<close>: a mount matches every path that a page of the same path matches\<close>
  "pages_under_mounts X = (\<forall>path rq. ex_page X path rq \<longrightarrow> ex_under X path (ar_path rq) \<noteq> None)"

lemma pays_swagger: "pays due D (run_chain [mount E ''/swagger'' [charge E Probe_limiter], mount E ''/swagger'' (swagger_router E)])"
proof (rule pays_gate[where P = "\<lambda>rq. ex_under (av_express E) ''/swagger'' (ar_path rq) \<noteq> None" and E = E and l = Probe_limiter
      and f = "\<lambda>rq. rq\<lparr>ar_path := the (ex_under (av_express E) ''/swagger'' (ar_path rq))\<rparr>"])
  show "pays due (insert Probe_limiter D) (run_chain [mount E ''/swagger'' (swagger_router E)])"
    by (auto simp: swagger_router_def simp del: run_chain.simps intro!: pays_chain pays_mount pays_end)
  show "pays due D (\<lambda>rq s. if ex_under (av_express E) ''/swagger'' (ar_path rq) \<noteq> None then (None, s)
      else run_chain [mount E ''/swagger'' (swagger_router E)] rq s)"
    by (auto simp: pays_def mount_def)
qed (auto simp: mount_def split: option.split prod.split)

lemma pays_contract_pages:
  assumes "\<not> av_rateLimitDisabled E" "pages_under_mounts (av_express E)"
  shows "pays due D (run_chain (contract_pages E))"
proof -
  let ?P = "\<lambda>rq. ex_under (av_express E) ''/openapi'' (ar_path rq) \<noteq> None \<or> ex_under (av_express E) ''/openapi.json'' (ar_path rq) \<noteq> None"
  let ?m = "\<lambda>rq s. if ?P rq then charge E Probe_limiter rq s else (None, s)"
  let ?swagger = "[mount E ''/swagger'' [charge E Probe_limiter], mount E ''/swagger'' (swagger_router E)]"
  let ?pages = "[mount E ''/swagger'' [charge E Probe_limiter], openapi_router E, mount E ''/swagger'' (swagger_router E)]"
  have "pays due D (run_chain (?m # ?pages))"
  proof (rule pays_gate[where P = ?P and E = E and l = Probe_limiter and f = "\<lambda>rq. rq"])
    show "pays due (insert Probe_limiter D) (run_chain ?pages)"
      by (auto simp: swagger_router_def openapi_router_def simp del: run_chain.simps intro!: pays_chain pays_mount pays_page pays_end)
    have "run_chain ?pages rq s = run_chain ?swagger rq s" if outside: "\<not> ?P rq" for rq s
    proof -
      have "\<not> ex_page (av_express E) ''/openapi.json'' rq" using outside assms(2) unfolding pages_under_mounts_def by blast
      then have "openapi_router E rq t = (None, t)" for t by (simp add: openapi_router_def page_def)
      then show ?thesis by (simp split: prod.split option.split)
    qed
    then have same: "(\<lambda>rq s. if ?P rq then (None, s) else run_chain ?pages rq s) = (\<lambda>rq s. if ?P rq then (None, s) else run_chain ?swagger rq s)"
      by (intro ext) presburger
    show "pays due D (\<lambda>rq s. if ?P rq then (None, s) else run_chain ?pages rq s)"
      unfolding same by (rule pays_weaken[OF pays_swagger])
  qed simp_all
  then show ?thesis using assms(1) by (simp add: contract_pages_def del: run_chain.simps)
qed

lemma run_chain_group: "run_chain (ms @ ns) = run_chain (run_chain ms # ns)"
  by (intro ext) (simp add: run_chain_append)

lemma pays_append: "pays due D (run_chain ms) \<Longrightarrow> pays due D (run_chain ns) \<Longrightarrow> pays due D (run_chain (ms @ ns))"
  unfolding run_chain_group by (rule pays_Cons)

lemma pays_rest:
  assumes "\<not> av_rateLimitDisabled E" "pages_under_mounts (av_express E)"
  shows "pays due {} (run_chain ([routes E Webhook_router, body_parser E] @ probes E @ contract_pages E @
     [mount E API_V1_PREFIX (mountModuleRouters E False)] @ (if av_enableLegacyApiRoutes E then mountModuleRouters E True else []) @
     [jsonNotFoundHandler]))"
proof -
  have modules: "pays due {} (run_chain (mountModuleRouters E count))" for count
    by (rule pays_chain[OF pays_module_routers[OF assms(1)]])
  then have "pays due {} (run_chain [mount E API_V1_PREFIX (mountModuleRouters E False)])"
    by (intro pays_chain) (simp add: pays_mount)
  moreover have "pays due {} (run_chain (if av_enableLegacyApiRoutes E then mountModuleRouters E True else []))"
    using modules by (auto simp: pays_def)
  moreover have "pays due {} (run_chain (probes E))"
    by (rule pays_chain) (auto simp: probes_def intro!: pays_probe[OF _ assms(1)] pays_debug[OF assms(1)])
  moreover have "pays due {} (run_chain [routes E Webhook_router, body_parser E])"
    by (rule pays_chain) (auto intro!: pays_end)
  moreover have "pays due {} (run_chain [jsonNotFoundHandler])" by (rule pays_chain) simp
  ultimately show ?thesis by (intro pays_append pays_contract_pages assms)
qed

text \<open>C20: With the rate limits on, a request reaches a router only after it was charged to the limiters that are due: each
  request to the routes of authentication, under either prefix, to theirs, and each to the probes, the debug pages, the
  OpenAPI document and the Swagger pages to that of the probes. The global one is charged for exactly the paths that
  its \<open>skip\<close> does not name, so not for the probes as they are written in the code, but for the document at
  \<open>/openapi.json\<close> and for a probe asked for in other letters (\<open>/HEALTH\<close>) too.\<close>

theorem requests_pay_their_limiters:
  assumes "\<not> av_rateLimitDisabled E" "pages_under_mounts (av_express E)" "createApp E rq s = (Some (Entered e), s')"
  shows "\<exists>more. as_charged s' = as_charged s @ more \<and> due e \<subseteq> set more \<and>
    (Global_limiter \<in> set more \<longleftrightarrow> \<not> unversioned (ar_path rq))"
proof -
  define rest where "rest = [routes E Webhook_router, body_parser E] @ probes E @ contract_pages E @
     [mount E API_V1_PREFIX (mountModuleRouters E False)] @ (if av_enableLegacyApiRoutes E then mountModuleRouters E True else []) @
     [jsonNotFoundHandler]"
  have rest: "pays due {} (run_chain rest)" unfolding rest_def by (rule pays_rest[OF assms(1,2)])
  have run: "run_chain (cors_step E # originCheck E # globalLimiter E # rest) rq s = (Some (Entered e), s')"
    using assms(1,3) by (simp add: createApp_def rest_def)
  then have front: "cors_step E rq s = (None, s)" "originCheck E rq s = (None, s)"
    by (auto simp: cors_step_def originCheck_def split: if_splits option.splits)
  show ?thesis
  proof (cases "unversioned (ar_path rq)")
    case True
    then have "run_chain rest rq s = (Some (Entered e), s')" using run front by (simp add: globalLimiter_def)
    then show ?thesis using paysD[OF rest] True by (metis sup_bot_left)
  next
    case False
    obtain used_up store where c: "av_charge E Global_limiter rq (as_store s) = (used_up, store)" by fastforce
    let ?t = "s\<lparr>as_store := store, as_charged := as_charged s @ [Global_limiter]\<rparr>"
    have "run_chain rest rq ?t = (Some (Entered e), s')"
      using run front False c by (cases used_up) (simp_all add: globalLimiter_def charge_def)
    then obtain more where "as_charged s' = as_charged ?t @ more" "due e \<subseteq> {} \<union> set more"
      using paysD[OF rest] by metis
    then show ?thesis using False by (intro exI[of _ "Global_limiter # more"]) auto
  qed
qed

section \<open>Guards that hold\<close>

text \<open>A request of a browser on another site that would change something is answered before it is charged to a limiter or
  enters a router.\<close>

theorem foreign_origin_is_refused:
  assumes "rq_origin (ar_request rq) = Some origin" "ar_method rq \<in> set STATE_CHANGING_METHODS"
    and "origin \<notin> set (parseAllowedOrigins (av_corsOrigin E))"
  shows "createApp E rq s \<in> {(Some By_cors, s), (Some (Status 403 ''Untrusted origin''), s)}"
  using assms by (simp add: createApp_def cors_step_def originCheck_def)

definition ends_outside :: "api_reply set \<Rightarrow> 'l middleware \<Rightarrow> bool" where
  "ends_outside R m = (\<forall>rq s. fst (m rq s) \<notin> Some ` R)"

lemma outside_chain: "\<forall>m \<in> set ms. ends_outside R m \<Longrightarrow> ends_outside R (run_chain ms)"
proof (induction ms)
  case (Cons m ms)
  then have "fst (m rq s) \<notin> Some ` R" "fst (run_chain ms rq t) \<notin> Some ` R" for rq s t by (auto simp: ends_outside_def)
  then show ?case by (auto simp: ends_outside_def split: prod.splits option.splits) (metis fst_conv image_eqI)+
qed (simp add: ends_outside_def)

lemma outside_mount: "ends_outside R (run_chain ms) \<Longrightarrow> ends_outside R (mount E prefix ms)"
  by (auto simp: ends_outside_def mount_def split: option.splits)

lemma outside_page: "ends_outside R (run_chain ms) \<Longrightarrow> ends_outside R (page E path ms)"
  by (auto simp: ends_outside_def page_def)

lemma outside_guards:
  assumes "R \<subseteq> range Entered"
  shows "ends_outside R (cors_step E)" "ends_outside R (originCheck E)" "ends_outside R (charge E l)" "ends_outside R (globalLimiter E)"
    "ends_outside R (body_parser E)" "ends_outside R (not_in_production E)" "ends_outside R (auth_step E)"
    "ends_outside R jsonNotFoundHandler" "ends_outside R legacy_counter"
  using assms by (auto simp: ends_outside_def cors_step_def originCheck_def charge_def globalLimiter_def body_parser_def
    not_in_production_def auth_step_def jsonNotFoundHandler_def legacy_counter_def Let_def split: prod.splits option.splits if_splits sum.splits)

lemma outside_end: "Entered r \<notin> R \<Longrightarrow> ends_outside R (reply_with (Entered r))" "Entered r \<notin> R \<Longrightarrow> ends_outside R (routes E r)"
  by (auto simp: ends_outside_def reply_with_def routes_def)

definition DEVELOPER_PAGES :: "api_reply set" where
  "DEVELOPER_PAGES = {Entered Debug_page, Entered Openapi_page, Entered Swagger_page}"

lemma developer_entered: "DEVELOPER_PAGES \<subseteq> range Entered"
  by (auto simp: DEVELOPER_PAGES_def)

lemma outside_hidden: "av_nodeEnv E = ''production'' \<Longrightarrow> R \<subseteq> range Entered \<Longrightarrow> ends_outside R (run_chain (not_in_production E # ms))"
  by (auto simp: ends_outside_def not_in_production_def)

lemmas outside_intros = outside_chain outside_mount outside_page outside_end outside_guards[OF developer_entered]

lemma outside_modules: "m \<in> set (mountModuleRouters E count) \<Longrightarrow> ends_outside DEVELOPER_PAGES m"
  by (auto simp: mountModuleRouters_def createBoardRouter_def Let_def DEVELOPER_PAGES_def split: if_splits
    intro!: outside_chain outside_mount outside_end outside_guards)

lemma outside_probes:
  assumes "av_nodeEnv E = ''production''"
  shows "m \<in> set (probes E) \<Longrightarrow> ends_outside DEVELOPER_PAGES m"
proof -
  have "ends_outside DEVELOPER_PAGES (run_chain (debug_router E))"
    unfolding debug_router_def by (rule outside_hidden[OF assms developer_entered])
  then have "ends_outside DEVELOPER_PAGES (run_chain [charge E l, run_chain (debug_router E)])" for l
    by (auto intro!: outside_chain outside_guards developer_entered)
  moreover have "run_chain (charge E l # debug_router E) = run_chain [charge E l, run_chain (debug_router E)]" for l
    by (intro ext) (auto split: prod.split option.split)
  ultimately have "ends_outside DEVELOPER_PAGES (mount E ''/debug'' (probeGuards E @ debug_router E))"
    using \<open>ends_outside DEVELOPER_PAGES (run_chain (debug_router E))\<close>
    by (auto simp: probeGuards_def simp del: run_chain.simps intro!: outside_mount)
  moreover have "ends_outside DEVELOPER_PAGES (page E path (probeGuards E @ [reply_with (Entered e)]))" if "Entered e \<notin> DEVELOPER_PAGES" for path e
    using that by (auto simp: probeGuards_def simp del: run_chain.simps intro!: outside_page outside_chain outside_end outside_guards developer_entered)
  ultimately show "m \<in> set (probes E) \<Longrightarrow> ends_outside DEVELOPER_PAGES m"
    by (auto simp: probes_def DEVELOPER_PAGES_def)
qed

lemma outside_contract:
  assumes "av_nodeEnv E = ''production''"
  shows "m \<in> set (contract_pages E) \<Longrightarrow> ends_outside DEVELOPER_PAGES m"
proof -
  have "ends_outside DEVELOPER_PAGES (\<lambda>rq s. if Q rq then charge E l rq s else (None, s))" for Q l
    using outside_guards(3)[OF developer_entered, of E l] unfolding ends_outside_def by auto
  moreover have "ends_outside DEVELOPER_PAGES (openapi_router E)" "ends_outside DEVELOPER_PAGES (mount E ''/swagger'' (swagger_router E))"
    unfolding openapi_router_def swagger_router_def
    by (intro outside_page outside_mount outside_hidden[OF assms developer_entered])+
  moreover have "ends_outside DEVELOPER_PAGES (mount E ''/swagger'' [charge E l])" for l
    by (auto intro!: outside_mount outside_chain outside_guards developer_entered)
  ultimately show "m \<in> set (contract_pages E) \<Longrightarrow> ends_outside DEVELOPER_PAGES m"
    by (auto simp: contract_pages_def split: if_splits)
qed

text \<open>In production nobody gets the debug page, the API document or the Swagger page, whatever path, method and
  credentials he uses.\<close>

theorem developer_pages_hidden:
  assumes "av_nodeEnv E = ''production''"
  shows "fst (createApp E rq s) \<notin> Some ` {Entered Debug_page, Entered Openapi_page, Entered Swagger_page}"
proof -
  have "ends_outside DEVELOPER_PAGES (createApp E)" unfolding createApp_def
  proof (rule outside_chain, rule ballI)
    fix m assume m: "m \<in> set ([cors_step E, originCheck E] @ (if av_rateLimitDisabled E then [] else [globalLimiter E]) @
       [routes E Webhook_router, body_parser E] @ probes E @ contract_pages E @
       [mount E API_V1_PREFIX (mountModuleRouters E False)] @
       (if av_enableLegacyApiRoutes E then mountModuleRouters E True else []) @ [jsonNotFoundHandler])"
    have "ends_outside DEVELOPER_PAGES (run_chain (mountModuleRouters E count))" for count
      by (intro outside_chain ballI outside_modules)
    moreover have "ends_outside DEVELOPER_PAGES (routes E Webhook_router)" by (rule outside_end) (simp add: DEVELOPER_PAGES_def)
    ultimately show "ends_outside DEVELOPER_PAGES m"
      using m outside_modules outside_probes[OF assms] outside_contract[OF assms] outside_guards[OF developer_entered]
      by (auto split: if_splits intro!: outside_mount)
  qed
  then show ?thesis unfolding ends_outside_def DEVELOPER_PAGES_def by blast
qed

section \<open>What counts as a legacy request\<close>

definition nobody_answers :: "'l api_env \<Rightarrow> api_request \<Rightarrow> bool" where
  \<comment> \<open>no page, no router of the program and no package answers the request\<close>
  "nobody_answers E rq = ((\<forall>e path. \<not> ex_route (av_express E) e (rq\<lparr>ar_path := path\<rparr>)) \<and> (\<forall>path \<in> {''/health/live'', ''/health/ready'', ''/health'', ''/metrics'', ''/openapi.json''}. \<not> ex_page (av_express E) path rq) \<and>
     (\<forall>allowed. \<not> ex_cors (av_express E) allowed rq) \<and> \<not> ex_unreadable (av_express E) rq \<and>
     ex_under (av_express E) ''/debug'' (ar_path rq) = None \<and> ex_under (av_express E) ''/swagger'' (ar_path rq) = None)"

definition passes :: "int \<Rightarrow> 'l middleware \<Rightarrow> api_request \<Rightarrow> bool" where
  \<comment> \<open>lets the request through and counts it \<open>k\<close> times\<close>
  "passes k m rq = (\<forall>s. \<exists>s'. m rq s = (None, s') \<and> as_legacy s' = as_legacy s + k)"

lemma passes_Nil: "passes 0 (run_chain []) rq"
  by (simp add: passes_def)

lemma passes_Cons:
  assumes "passes j m rq" "passes k (run_chain ms) rq"
  shows "passes (j + k) (run_chain (m # ms)) rq"
  unfolding passes_def
proof
  fix s
  obtain t where t: "m rq s = (None, t)" "as_legacy t = as_legacy s + j" using assms(1) by (auto simp: passes_def)
  obtain u where "run_chain ms rq t = (None, u)" "as_legacy u = as_legacy t + k" using assms(2) by (auto simp: passes_def)
  then show "\<exists>s'. run_chain (m # ms) rq s = (None, s') \<and> as_legacy s' = as_legacy s + (j + k)" using t by simp
qed

lemma passes_all: "\<forall>m \<in> set ms. passes 0 m rq \<Longrightarrow> passes 0 (run_chain ms) rq"
  using passes_Cons[of 0 _ rq 0] by (induction ms) (auto simp: passes_Nil simp del: run_chain.simps)

lemma passes_append: "passes 0 (run_chain ms) rq \<Longrightarrow> passes k (run_chain ns) rq \<Longrightarrow> passes k (run_chain (ms @ ns)) rq"
  unfolding passes_def run_chain_append by (metis (no_types, lifting) add_0_right case_prod_conv option.simps(4))

lemma passes_mount: "(\<And>path. passes 0 (run_chain ms) (rq\<lparr>ar_path := path\<rparr>)) \<Longrightarrow> passes 0 (mount E prefix ms) rq"
  by (auto simp: passes_def mount_def split: option.split)

definition quiet_path :: "'l api_env \<Rightarrow> api_request \<Rightarrow> bool" where
  \<comment> \<open>no router answers, the caller is signed in and no budget is used up\<close>
  "quiet_path E rq = ((\<forall>e. \<not> ex_route (av_express E) e rq) \<and> (\<exists>u. authMiddleware (av_verify E) (ar_request rq) = Inr u) \<and>
     (\<forall>l q store. \<not> fst (av_charge E l q store)))"

lemma passes_charge:
  fixes E :: "'a api_env"
  assumes "quiet_path E q"
  shows "passes 0 (charge E l) rq"
  unfolding passes_def
proof
  fix s :: "'a api_state"
  obtain used_up store where c: "av_charge E l rq (as_store s) = (used_up, store)" by fastforce
  have "\<not> fst (av_charge E l rq (as_store s))" using assms by (simp add: quiet_path_def)
  then show "\<exists>s'. charge E l rq s = (None, s') \<and> as_legacy s' = as_legacy s + 0" using c by (simp add: charge_def)
qed

lemma passes_quiet:
  assumes "quiet_path E rq"
  shows "passes 0 (routes E e) rq" "passes 0 (charge E l) rq" "passes 0 (auth_step E) rq"
    "passes 0 (if c then (\<lambda>rq s. if Q rq then charge E l rq s else (None, s)) else (\<lambda>rq s. (None, s))) rq"
proof -
  show *: "passes 0 (charge E l) rq" by (rule passes_charge[OF assms])
  show "passes 0 (routes E e) rq" "passes 0 (auth_step E) rq"
    using assms by (auto simp: passes_def routes_def quiet_path_def auth_step_def)
  show "passes 0 (if c then (\<lambda>rq s. if Q rq then charge E l rq s else (None, s)) else (\<lambda>rq s. (None, s))) rq"
    using * by (auto simp: passes_def)
qed

lemma passes_modules:
  assumes "\<And>path. quiet_path E (rq\<lparr>ar_path := path\<rparr>)"
  shows "passes 0 (run_chain (mountModuleRouters E False)) rq"
  by (rule passes_all) (auto simp: mountModuleRouters_def createBoardRouter_def Let_def simp del: run_chain.simps
    intro!: passes_mount passes_all passes_quiet assms)

lemma counted_router:
  assumes "\<And>path. quiet_path E (rq\<lparr>ar_path := path\<rparr>)" "ex_under (av_express E) ''/'' (ar_path rq) = Some (ar_path rq)"
    and "\<forall>m \<in> set ms. \<exists>e. m = routes E e \<or> m = auth_step E"
  shows "passes 1 (mount E ''/'' ([legacy_counter] @ ms)) rq"
proof -
  have quiet: "quiet_path E rq" using assms(1)[of "ar_path rq"] by simp
  have "passes 1 legacy_counter rq" by (simp add: passes_def legacy_counter_def)
  moreover have "passes 0 (run_chain ms) rq" using assms(3) passes_quiet[OF quiet] by (intro passes_all) auto
  ultimately have "passes 1 (run_chain (legacy_counter # ms)) rq" using passes_Cons[of 1 legacy_counter rq 0 ms] by simp
  then show ?thesis using assms(2) by (simp add: passes_def mount_def)
qed

lemma passes_unmounted: "ex_under (av_express E) prefix (ar_path rq) = None \<Longrightarrow> passes 0 (mount E prefix ms) rq"
  by (simp add: passes_def mount_def)

lemma passes_legacy:
  assumes "\<And>path. quiet_path E (rq\<lparr>ar_path := path\<rparr>)" "ex_under (av_express E) ''/'' (ar_path rq) = Some (ar_path rq)"
    and "ex_under (av_express E) ''/auth'' (ar_path rq) = None" "ex_under (av_express E) ''/users'' (ar_path rq) = None"
  shows "passes 3 (run_chain (mountModuleRouters E True)) rq"
proof -
  note router = counted_router[OF assms(1,2)]
  have "passes (0 + (0 + (1 + (1 + (1 + 0))))) (run_chain (mountModuleRouters E True)) rq"
    unfolding mountModuleRouters_def Let_def if_True
    by (intro passes_Cons passes_Nil passes_unmounted[OF assms(3)] passes_unmounted[OF assms(4)] router) (auto simp: createBoardRouter_def)
  then show ?thesis by simp
qed

text \<open>The counter of legacy requests counts what no legacy route matches: a signed-in request for an unknown path, under
  \<open>/api/v1\<close> too, goes through the counters of all three routers mounted at the root and is answered 404.\<close>

theorem unknown_paths_count_as_legacy:
  assumes "av_enableLegacyApiRoutes E" "nobody_answers E rq"
    and "authMiddleware (av_verify E) (ar_request rq) = Inr u" "rq_origin (ar_request rq) = None"
    and "\<forall>l q store. \<not> fst (av_charge E l q store)"
    and "ex_under (av_express E) ''/'' (ar_path rq) = Some (ar_path rq)"
    and "ex_under (av_express E) ''/auth'' (ar_path rq) = None" "ex_under (av_express E) ''/users'' (ar_path rq) = None"
  shows "\<exists>s'. createApp E rq s = (Some (Status 404 (''Not found: '' @ ar_method rq @ '' '' @ ar_originalUrl rq)), s') \<and> as_legacy s' = as_legacy s + 3"
proof -
  have quiet: "quiet_path E (rq\<lparr>ar_path := path\<rparr>)" for path
    using assms(2,3,5) by (simp add: nobody_answers_def quiet_path_def)
  then have quiet': "quiet_path E rq" using quiet[of "ar_path rq"] by simp
  have no_page: "passes 0 (page E path ms) rq" if "path \<in> {''/health/live'', ''/health/ready'', ''/health'', ''/metrics'', ''/openapi.json''}" for path ms using that assms(2) by (auto simp: passes_def page_def nobody_answers_def)
  have first: "passes 0 (cors_step E) rq" "passes 0 (originCheck E) rq" "passes 0 (globalLimiter E) rq" "passes 0 (body_parser E) rq"
    using assms(2,4) passes_charge[OF quiet', of Global_limiter rq]
    by (auto simp: passes_def cors_step_def originCheck_def globalLimiter_def body_parser_def nobody_answers_def)
  have unmounted: "passes 0 (mount E ''/debug'' ms) rq" "passes 0 (mount E ''/swagger'' ms) rq" for ms
    using assms(2) by (auto simp: nobody_answers_def intro!: passes_unmounted)
  have limit: "passes 0 (\<lambda>rq s. if Q rq then charge E l rq s else (None, s)) rq" for Q l
    using passes_quiet(4)[OF quiet', of True Q l] by simp
  have v1: "passes 0 (mount E API_V1_PREFIX (mountModuleRouters E False)) rq"
    by (rule passes_mount[OF passes_modules]) (simp add: quiet)
  let ?front = "[cors_step E, originCheck E] @ (if av_rateLimitDisabled E then [] else [globalLimiter E]) @
       [routes E Webhook_router, body_parser E] @ probes E @ contract_pages E @ [mount E API_V1_PREFIX (mountModuleRouters E False)]"
  have contract: "passes 0 m rq" if "m \<in> set (contract_pages E)" for m
    using that limit no_page unmounted(2) unfolding contract_pages_def openapi_router_def by (auto split: if_splits)
  have "passes 0 m rq" if "m \<in> set (probes E)" for m
    using that no_page unmounted(1) unfolding probes_def by auto
  with contract first v1 passes_quiet(1)[OF quiet'] have "\<forall>m \<in> set ?front. passes 0 m rq" by (auto split: if_splits)
  then have "passes 0 (run_chain ?front) rq" by (rule passes_all)
  then have "passes 3 (run_chain (?front @ mountModuleRouters E True)) rq"
    using passes_legacy[OF quiet assms(6-8)] by (rule passes_append)
  then obtain s' where "run_chain (?front @ mountModuleRouters E True) rq s = (None, s')" "as_legacy s' = as_legacy s + 3"
    unfolding passes_def by blast
  moreover have "createApp E = run_chain ((?front @ mountModuleRouters E True) @ [jsonNotFoundHandler])"
    using assms(1) by (simp add: createApp_def)
  ultimately show ?thesis by (simp only: run_chain_append) (simp add: jsonNotFoundHandler_def)
qed

section \<open>The cookie of a session and the prefix\<close>

definition cookie_sent_to :: "string \<Rightarrow> string \<Rightarrow> bool" where
  \<comment> \<open>path-match of RFC 6265, which browsers follow: the path of the cookie, and the path of the request\<close>
  "cookie_sent_to cookie path = (cookie = path \<or> starts_with cookie path \<and> cookie \<noteq> [] \<and>
     (last cookie = CHR ''/'' \<or> length cookie < length path \<and> path ! length cookie = CHR ''/''))"

text \<open>The refresh cookie has the path \<open>/auth\<close>, so a browser sends it to the legacy routes and never to those under
  \<open>/api/v1\<close>: there every refresh that relies on the cookie is answered 401.\<close>

theorem versioned_refresh_misses_cookie:
  assumes "js_get REFRESH_TOKEN_COOKIE_NAME (rq_cookies req) = None \<or>
      cookie_sent_to (ck_path (buildRefreshTokenCookieOptions (ae_config E))) (API_V1_PREFIX @ ''/auth/refresh'')"
    and "validateRequestInput req (refresh_body (rq_body req)) = Some None" "isAllowedOrigin (ae_config E) (rq_origin req)"
  shows "cookie_sent_to (ck_path (buildRefreshTokenCookieOptions (ae_config E))) ''/auth/refresh'' \<and>
    refresh E req rows = (send_error 401 ''Missing refresh token'' [], rows)"
proof -
  have "\<not> cookie_sent_to (ck_path (buildRefreshTokenCookieOptions (ae_config E))) (API_V1_PREFIX @ ''/auth/refresh'')"
    by (simp add: cookie_sent_to_def buildRefreshTokenCookieOptions_def with_security_def API_V1_PREFIX_def)
  with assms(1) have "string_cookie req REFRESH_TOKEN_COOKIE_NAME = None" by (auto simp: string_cookie_def)
  then show ?thesis using assms(2,3)
    by (simp add: refresh_def refresh_lookup_def refresh_token_of_def cookie_sent_to_def buildRefreshTokenCookieOptions_def with_security_def)
qed

section \<open>A small server\<close>

definition small_under :: "string \<Rightarrow> string \<Rightarrow> string option" where
  "small_under prefix path = (if prefix = ''/'' then Some path else if path = prefix then Some ''/''
     else if starts_with (prefix @ ''/'') path then Some (drop (length prefix) path) else None)"

definition small_express :: express where
  "small_express = \<lparr>ex_under = small_under, ex_page = (\<lambda>path rq. ar_method rq = ''GET'' \<and> ar_path rq = path),
     ex_route = (\<lambda>e rq. e = Auth_router \<and> ar_method rq = ''POST'' \<and> ar_path rq = ''/refresh''),
     ex_cors = (\<lambda>allowed rq. ar_method rq = ''OPTIONS''), ex_unreadable = (\<lambda>rq. False)\<rparr>"

definition small_api :: "string \<Rightarrow> unit api_env" where
  "small_api nodeEnv = \<lparr>av_express = small_express, av_charge = (\<lambda>l rq s. (False, s)), av_verify = (\<lambda>t. Some ''u1''),
     av_corsOrigin = ''https://app.example'', av_nodeEnv = nodeEnv, av_rateLimitDisabled = False, av_enableLegacyApiRoutes = True\<rparr>"

definition small_request :: "string \<Rightarrow> string \<Rightarrow> string option \<Rightarrow> api_request" where
  "small_request verb path origin = \<lparr>ar_method = verb, ar_path = path, ar_originalUrl = path, ar_request = \<lparr>rq_authorization = Some ''Bearer t'', rq_cookies = [],
     rq_cookieHeader = None, rq_origin = origin, rq_query = [], rq_body = JObj []\<rparr>\<rparr>"

definition new_state :: "unit api_state" where
  "new_state = \<lparr>as_store = (), as_charged = [], as_legacy = 0\<rparr>"

lemmas small_eval = createApp_def mountModuleRouters_def createBoardRouter_def mount_def page_def routes_def small_api_def
  small_express_def small_under_def small_request_def new_state_def cors_step_def originCheck_def globalLimiter_def charge_def
  body_parser_def probes_def contract_pages_def probeGuards_def openapi_router_def unversioned_def UNVERSIONED_PATHS_def API_V1_PREFIX_def

lemma small_pages: "pages_under_mounts (av_express (small_api nodeEnv))"
  by (simp add: pages_under_mounts_def small_api_def small_express_def small_under_def)

theorem requests_pay_their_limiters_witness:
  "\<exists>s' more. createApp (small_api ''test'') (small_request ''POST'' ''/api/v1/auth/refresh'' None) new_state = (Some (Entered Auth_router), s') \<and>
    as_charged s' = more \<and> {Auth_limiter, Global_limiter} \<subseteq> set more"
proof -
  obtain s' where run: "createApp (small_api ''test'') (small_request ''POST'' ''/api/v1/auth/refresh'' None) new_state = (Some (Entered Auth_router), s')"
    by (cases "createApp (small_api ''test'') (small_request ''POST'' ''/api/v1/auth/refresh'' None) new_state") (auto simp: small_eval)
  show ?thesis using requests_pay_their_limiters[OF _ small_pages run] run
    by (auto simp: small_api_def small_request_def new_state_def unversioned_def UNVERSIONED_PATHS_def)
qed

theorem foreign_origin_is_refused_witness:
  "createApp (small_api ''production'') (small_request ''POST'' ''/api/v1/auth/refresh'' (Some ''https://evil.example'')) new_state =
    (Some (Status 403 ''Untrusted origin''), new_state)"
proof -
  have foreign: "''https://evil.example'' \<notin> set (parseAllowedOrigins ''https://app.example'')" by code_simp
  then have "createApp (small_api ''production'') (small_request ''POST'' ''/api/v1/auth/refresh'' (Some ''https://evil.example'')) new_state
    \<in> {(Some By_cors, new_state), (Some (Status 403 ''Untrusted origin''), new_state)}"
    by (intro foreign_origin_is_refused) (simp_all add: small_request_def small_api_def STATE_CHANGING_METHODS_def)
  moreover have "fst (createApp (small_api ''production'') (small_request ''POST'' p (Some ''https://evil.example'')) s) \<noteq> Some By_cors" for p s
    using foreign by (simp add: createApp_def cors_step_def originCheck_def small_api_def small_express_def small_request_def STATE_CHANGING_METHODS_def)
  ultimately show ?thesis by (metis fst_conv insertE singletonD)
qed

theorem developer_pages_hidden_witness:
  "fst (createApp (small_api ''production'') (small_request ''GET'' ''/openapi.json'' None) new_state) \<noteq> Some (Entered Openapi_page)"
  using developer_pages_hidden[of "small_api ''production''" "small_request ''GET'' ''/openapi.json'' None" new_state]
  by (auto simp: small_api_def)

theorem unknown_paths_count_as_legacy_witness:
  "\<exists>s'. createApp (small_api ''production'') (small_request ''GET'' ''/api/v1/nothing'' None) new_state =
    (Some (Status 404 ''Not found: GET /api/v1/nothing''), s') \<and> as_legacy s' = 3"
proof -
  have "\<exists>s'. createApp (small_api ''production'') (small_request ''GET'' ''/api/v1/nothing'' None) new_state =
    (Some (Status 404 (''Not found: '' @ ar_method (small_request ''GET'' ''/api/v1/nothing'' None) @ '' '' @
       ar_originalUrl (small_request ''GET'' ''/api/v1/nothing'' None))), s') \<and> as_legacy s' = as_legacy new_state + 3"
    by (rule unknown_paths_count_as_legacy[where u = "''u1''"])
      (simp_all add: small_api_def small_request_def nobody_answers_def small_express_def small_under_def authMiddleware_def readAccessToken_def
        bearer_def truthy_def)
  then show ?thesis by (simp add: small_request_def new_state_def)
qed

theorem versioned_refresh_misses_cookie_witness:
  "refresh (demo_auth ''3'' ''f'') (demo_request\<lparr>rq_cookies := [(''accessToken'', JStr ''t'')], rq_body := JNull\<rparr>) [demo_token ''1'' None] =
    (send_error 401 ''Missing refresh token'' [], [demo_token ''1'' None])"
  using versioned_refresh_misses_cookie[of "demo_request\<lparr>rq_cookies := [(''accessToken'', JStr ''t'')], rq_body := JNull\<rparr>" "demo_auth ''3'' ''f''"
      "[demo_token ''1'' None]"] demo_origin[of "''3''" "''f''"]
  by (simp add: REFRESH_TOKEN_COOKIE_NAME_def validateRequestInput_def demo_request_def)

end
