(* ===== verification/Api_Document.thy ===== *)
theory Api_Document
  imports Pipeline Preview_Jobs
begin

text \<open>
  The published description of the API (\<open>app/openapi/document.ts\<close>) beside the routes it describes: the
  schemas as values with the test of zod, the operations with their parameters, bodies and responses
  (summaries, descriptions and examples are left out), and the registrations of the routers in the order
  of their files. The lemmas compare the two: the operations are those that are mounted, a success is
  answered with a documented status, a documented body is one the handler takes; and where the document
  says something else.
\<close>

section \<open>Schemas\<close>

datatype schema =
    Z_string
  | Z_text
      \<comment> \<open>\<open>z.string().min(1)\<close>\<close>
  | Z_trimmed
      \<comment> \<open>\<open>z.string().trim().min(1)\<close>\<close>
  | Z_uuid
  | Z_email
  | Z_datetime
  | Z_int
  | Z_nonnegative_int
  | Z_boolean
  | Z_unknown
  | Z_enum "string list"
  | Z_nullable schema
  | Z_array schema
  | Z_record schema
      \<comment> \<open>\<open>z.record(z.string(), schema)\<close>\<close>
  | Z_object "(string \<times> bool \<times> schema) list"
      \<comment> \<open>with whether the key is required\<close>
  | Z_checked schema "wire \<Rightarrow> bool"
      \<comment> \<open>\<open>refine\<close>, \<open>min\<close> and \<open>max\<close> of arrays, \<open>custom\<close>\<close>

record formats =
  fo_isUuid :: "string \<Rightarrow> bool"
  fo_isEmail :: "string \<Rightarrow> bool"
  fo_isDatetime :: "string \<Rightarrow> bool"

fun is_int :: "wire \<Rightarrow> bool" where
  "is_int (WNum (Fin q)) = (of_int \<lfloor>q\<rfloor> = q)"
| "is_int v = False"

fun nonnegative :: "wire \<Rightarrow> bool" where
  "nonnegative (WNum (Fin q)) = (0 \<le> q)"
| "nonnegative v = False"

fun fits :: "formats \<Rightarrow> schema \<Rightarrow> wire \<Rightarrow> bool"
  and fits_fields :: "formats \<Rightarrow> (string \<times> bool \<times> schema) list \<Rightarrow> wire \<Rightarrow> bool" where
  \<comment> \<open>\<open>safeParse(value).success\<close>\<close>
  "fits F Z_string v = (\<exists>s. v = WStr s)"
| "fits F Z_text v = (case v of WStr s \<Rightarrow> s \<noteq> [] | _ \<Rightarrow> False)"
| "fits F Z_trimmed v = (case v of WStr s \<Rightarrow> js_trim s \<noteq> [] | _ \<Rightarrow> False)"
| "fits F Z_uuid v = (case v of WStr s \<Rightarrow> fo_isUuid F s | _ \<Rightarrow> False)"
| "fits F Z_email v = (case v of WStr s \<Rightarrow> fo_isEmail F s | _ \<Rightarrow> False)"
| "fits F Z_datetime v = (case v of WStr s \<Rightarrow> fo_isDatetime F s | _ \<Rightarrow> False)"
| "fits F Z_int v = is_int v"
| "fits F Z_nonnegative_int v = (is_int v \<and> nonnegative v)"
| "fits F Z_boolean v = (case v of WBool b \<Rightarrow> True | _ \<Rightarrow> False)"
| "fits F Z_unknown v = True"
| "fits F (Z_enum names) v = (case v of WStr s \<Rightarrow> s \<in> set names | _ \<Rightarrow> False)"
| "fits F (Z_nullable z) v = (v = WNull \<or> fits F z v)"
| "fits F (Z_array z) v = (case v of WArr items \<Rightarrow> list_all (fits F z) items | _ \<Rightarrow> False)"
| "fits F (Z_record z) v = (case v of WObj entries \<Rightarrow> list_all (\<lambda>e. fits F z (snd e)) entries | _ \<Rightarrow> False)"
| "fits F (Z_object keys) v = (case v of WObj entries \<Rightarrow> fits_fields F keys v | _ \<Rightarrow> False)"
| "fits F (Z_checked z check) v = (fits F z v \<and> check v)"
| "fits_fields F [] v = True"
| "fits_fields F ((key, required, z) # keys) v =
     ((if get_prop key v = WUndefined then \<not> required \<or> fits F z WUndefined else fits F z (get_prop key v)) \<and> fits_fields F keys v)"

section \<open>The schemas of the document\<close>

definition healthResponseSchema :: schema where
  "healthResponseSchema = Z_object [
     (''status'', True, Z_enum [''ok'', ''degraded'']), (''postgres'', True, Z_enum [''ok'', ''error'']),
     (''redis'', True, Z_enum [''ok'', ''error'']), (''uptime'', True, Z_int),
     (''openWebSocketConnections'', True, Z_nonnegative_int),
     (''boardState'', True, Z_object [(''dirtyBacklog'', True, Z_nonnegative_int), (''lastDirtyAt'', True, Z_nullable Z_int),
        (''timeSinceLastDirtyMs'', True, Z_nullable Z_nonnegative_int)])]"

definition userProfileSchema :: schema where
  "userProfileSchema = Z_object [(''id'', True, Z_string), (''email'', True, Z_email), (''name'', True, Z_string),
     (''avatarUrl'', True, Z_nullable Z_string)]"

definition boardElementsResponseSchema :: schema where
  "boardElementsResponseSchema = Z_object [(''elements'', True, Z_record Z_unknown), (''lastSequence'', True, Z_int)]"

definition mutationBatchResponseSchema :: schema where
  "mutationBatchResponseSchema = Z_object [(''results'', True, Z_array (Z_object [
     (''mutationId'', True, Z_string), (''status'', True, Z_enum [''applied'', ''already_applied'', ''rejected'']),
     (''sequence'', False, Z_int), (''serverTimestamp'', False, Z_int), (''error'', False, Z_string), (''change'', False, Z_unknown)]))]"

definition membersListSchema :: schema where
  "membersListSchema = Z_object [(''members'', True, Z_array (Z_record Z_unknown))]"

definition invitesListSchema :: schema where
  "invitesListSchema = Z_object [(''invites'', True, Z_array (Z_record Z_unknown))]"

definition boardResponseSchema :: schema where
  "boardResponseSchema = Z_object [(''id'', True, Z_uuid), (''workspaceId'', True, Z_uuid), (''name'', True, Z_string),
     (''permission'', True, Z_enum [''view'', ''edit'']), (''linkShareViewEnabled'', True, Z_boolean),
     (''linkShareViewToken'', True, Z_nullable Z_string), (''linkShareEditEnabled'', True, Z_boolean),
     (''linkShareEditToken'', True, Z_nullable Z_string), (''createdAt'', True, Z_datetime), (''updatedAt'', True, Z_datetime)]"

definition boardsListSchema :: schema where
  "boardsListSchema = Z_object [(''boards'', True, Z_array boardResponseSchema)]"

definition workspacesListSchema :: schema where
  "workspacesListSchema = Z_object [(''workspaces'', True, Z_record Z_unknown)]"

definition workspaceBoardsSchema :: schema where
  "workspaceBoardsSchema = Z_object [(''boards'', True, Z_record Z_unknown)]"

definition any_record :: schema where
  \<comment> \<open>\<open>boardMemberSchema\<close>, \<open>providerPayloadSchema\<close> and five unnamed ones\<close>
  "any_record = Z_record Z_unknown"

definition nameBody :: schema where
  \<comment> \<open>\<open>createWorkspaceBodySchema\<close>, \<open>createBoardBodySchema\<close>\<close>
  "nameBody = Z_object [(''name'', True, Z_trimmed)]"

definition workspaceInvitationBody :: schema where
  "workspaceInvitationBody = Z_object [(''email'', True, Z_email), (''role'', False, Z_enum [''admin'', ''editor'', ''viewer''])]"

definition boardInviteBody :: schema where
  "boardInviteBody = Z_object [(''email'', True, Z_email), (''permission'', False, Z_enum [''view'', ''edit''])]"

definition permissionBody :: schema where
  \<comment> \<open>\<open>updateBoardMemberPermissionBodySchema\<close>, \<open>rotateBoardLinkSharingBodySchema\<close>\<close>
  "permissionBody = Z_object [(''permission'', True, Z_enum [''view'', ''edit''])]"

definition linkSharingBody :: schema where
  "linkSharingBody = Z_object [(''enabled'', True, Z_boolean), (''permission'', False, Z_enum [''view'', ''edit''])]"

definition boardAccessQuery :: schema where
  "boardAccessQuery = Z_object [(''shareToken'', False, Z_trimmed)]"

definition authCallbackQuery :: schema where
  "authCallbackQuery = Z_object [(''code'', True, Z_text), (''state'', True, Z_text)]"

definition devLoginBody :: schema where
  "devLoginBody = Z_object [(''email'', True, Z_email)]"

definition refreshTokenCookie :: "bool \<Rightarrow> schema" where
  \<comment> \<open>\<open>refreshTokenCookieSchema\<close>, and its \<open>partial()\<close>\<close>
  "refreshTokenCookie required = Z_object [(''refreshToken'', required, Z_text)]"

definition refreshBody :: schema where
  "refreshBody = Z_object [(''refreshToken'', False, Z_text)]"

fun some_items :: "string list \<Rightarrow> wire \<Rightarrow> bool" where
  "some_items keys v = (\<exists>key \<in> set keys. case get_prop key v of WArr items \<Rightarrow> items \<noteq> [] | _ \<Rightarrow> False)"

definition patchElementsBody :: schema where
  "patchElementsBody = Z_checked (Z_object [(''upserts'', True, Z_array Z_unknown), (''deletes'', True, Z_array Z_unknown),
     (''sessionId'', False, Z_trimmed)]) (some_items [''upserts'', ''deletes''])"

fun between_items :: "nat \<Rightarrow> nat \<Rightarrow> wire \<Rightarrow> bool" where
  "between_items m n (WArr items) = (m \<le> length items \<and> length items \<le> n)"
| "between_items m n v = False"

definition mutationsBody :: schema where
  "mutationsBody = Z_object [(''mutations'', True, Z_checked (Z_array (Z_checked Z_unknown isMutation)) (between_items 1 100)),
     (''sessionId'', False, Z_trimmed)]"

section \<open>The document\<close>

datatype api_operation = Operation (op_method: string) (op_path: string) (op_params: "(string \<times> schema) list")
  (op_query: "schema option") (op_cookie: "schema option") (op_body: "schema option") (op_responses: "(int \<times> schema option) list")

abbreviation (input) "wid_param \<equiv> [(''wid'', Z_string)]"
abbreviation (input) "id_param \<equiv> [(''id'', Z_string)]"
abbreviation (input) "token_param \<equiv> [(''token'', Z_text)]"

definition first_paths :: "api_operation list" where
  \<comment> \<open>health, workspaces, authentication\<close>
  "first_paths = [
     Operation ''GET'' ''/health'' [] None None None [(200, Some healthResponseSchema), (503, Some healthResponseSchema)],
     Operation ''GET'' ''/workspaces'' [] None None None [(200, Some workspacesListSchema)],
     Operation ''POST'' ''/workspaces'' [] None None (Some nameBody) [(201, None)],
     Operation ''PATCH'' ''/workspaces/{wid}'' wid_param None None (Some nameBody) [(200, None)],
     Operation ''GET'' ''/auth/callback'' [] (Some authCallbackQuery) None None [(302, None)],
     Operation ''POST'' ''/auth/dev-login'' [] None None (Some devLoginBody) [(200, None)],
     Operation ''POST'' ''/auth/refresh'' [] None (Some (refreshTokenCookie True)) (Some refreshBody) [(200, None), (401, None)],
     Operation ''POST'' ''/auth/logout'' [] None (Some (refreshTokenCookie False)) None [(200, None)]]"

definition workspace_paths :: "api_operation list" where
  \<comment> \<open>invitations and boards of a workspace\<close>
  "workspace_paths = [
     Operation ''GET'' ''/workspaces/{wid}/invitations'' wid_param None None None [(200, Some invitesListSchema)],
     Operation ''POST'' ''/workspaces/{wid}/invitations'' wid_param None None (Some workspaceInvitationBody) [(201, None)],
     Operation ''GET'' ''/workspaces/{wid}/boards'' wid_param None None None [(200, Some workspaceBoardsSchema), (403, None)],
     Operation ''POST'' ''/workspaces/{wid}/boards'' wid_param None None (Some nameBody) [(201, None)]]"

definition board_paths :: "api_operation list" where
  \<comment> \<open>a board, its invitations, members and links\<close>
  "board_paths = [
     Operation ''GET'' ''/boards/{id}'' id_param (Some boardAccessQuery) None None [(200, Some boardResponseSchema), (403, None), (404, None)],
     Operation ''PATCH'' ''/boards/{id}'' id_param None None (Some nameBody) [(200, Some boardResponseSchema), (403, None), (404, None)],
     Operation ''DELETE'' ''/boards/{id}'' id_param None None None [(204, None), (403, None)],
     Operation ''POST'' ''/boards/{id}/invites'' id_param None None (Some boardInviteBody) [(201, None)],
     Operation ''PATCH'' ''/boards/{id}/members/{memberId}'' [(''id'', Z_string), (''memberId'', Z_string)] None None
       (Some permissionBody) [(204, None)],
     Operation ''DELETE'' ''/boards/{id}/members/{memberId}'' [(''id'', Z_string), (''memberId'', Z_string)] None None None
       [(204, None), (403, None)],
     Operation ''PATCH'' ''/boards/{id}/link-sharing'' id_param None None (Some linkSharingBody) [(200, None)],
     Operation ''POST'' ''/boards/{id}/link-sharing/rotate'' id_param None None (Some permissionBody) [(200, None)]]"

definition account_paths :: "api_operation list" where
  \<comment> \<open>sign-in, profile, billing\<close>
  "account_paths = [
     Operation ''GET'' ''/auth/google'' [] None None None [(302, None)],
     Operation ''GET'' ''/users/me'' [] None None None [(200, Some userProfileSchema), (401, None)],
     Operation ''GET'' ''/billing/profile'' [] None None None [(200, Some any_record)],
     Operation ''POST'' ''/billing/checkout'' [] None None None [(200, Some any_record)],
     Operation ''POST'' ''/billing/portal'' [] None None None [(200, Some any_record)]]"

definition workspace_member_paths :: "api_operation list" where
  \<comment> \<open>members of a workspace, workspace invitations by token, the list of boards\<close>
  "workspace_member_paths = [
     Operation ''GET'' ''/workspaces/{wid}/members'' [] (Some (Z_object [])) None None [(200, Some membersListSchema)],
     Operation ''DELETE'' ''/workspaces/{wid}/members/{memberId}'' [(''wid'', Z_uuid), (''memberId'', Z_uuid)] None None None
       [(204, None), (404, None)],
     Operation ''GET'' ''/invitations/{token}'' token_param None None None [(200, Some any_record)],
     Operation ''POST'' ''/invitations/{token}/accept'' token_param None None None [(200, Some any_record)],
     Operation ''GET'' ''/boards'' [] None None None [(200, Some boardsListSchema)]]"

definition patch_reply :: schema where
  "patch_reply = Z_object [(''ok'', True, Z_boolean), (''sequence'', True, Z_int), (''serverTimestamp'', True, Z_int)]"

definition live_paths :: "api_operation list" where
  \<comment> \<open>elements, mutations, previews, presence, share links\<close>
  "live_paths = [
     Operation ''GET'' ''/boards/{id}/elements'' id_param (Some boardAccessQuery) None None [(200, Some boardElementsResponseSchema)],
     Operation ''PATCH'' ''/boards/{id}/elements'' id_param (Some boardAccessQuery) None (Some patchElementsBody) [(200, Some patch_reply)],
     Operation ''POST'' ''/boards/{id}/mutations'' id_param (Some boardAccessQuery) None (Some mutationsBody)
       [(200, Some mutationBatchResponseSchema)],
     Operation ''POST'' ''/boards/{id}/preview-jobs'' id_param None None None [(202, Some any_record)],
     Operation ''GET'' ''/boards/{id}/active-users'' id_param None None None [(200, Some any_record)],
     Operation ''POST'' ''/boards/{id}/presence'' id_param (Some boardAccessQuery) None None [(204, None)],
     Operation ''DELETE'' ''/boards/{id}/presence/{sessionId}'' [(''id'', Z_string), (''sessionId'', Z_string)] (Some boardAccessQuery)
       None None [(204, None)],
     Operation ''GET'' ''/shared/{token}'' token_param None None None [(200, Some any_record)]]"

definition board_member_paths :: "api_operation list" where
  \<comment> \<open>copies, favourites, members and invitations of a board\<close>
  "board_member_paths = [
     Operation ''POST'' ''/boards/{id}/duplicate'' id_param None None None [(201, Some boardResponseSchema)],
     Operation ''PUT'' ''/boards/{id}/favorite'' id_param None None None [(200, Some boardResponseSchema)],
     Operation ''DELETE'' ''/boards/{id}/favorite'' id_param None None None [(200, Some boardResponseSchema)],
     Operation ''POST'' ''/boards/{id}/leave'' id_param None None None [(204, None), (400, None)],
     Operation ''GET'' ''/boards/{id}/members'' id_param None None None [(200, Some membersListSchema)],
     Operation ''POST'' ''/boards/{id}/members'' id_param None None (Some permissionBody) [(201, Some any_record)],
     Operation ''POST'' ''/boards/invites/{token}/accept'' token_param None None None [(204, None), (404, None)],
     Operation ''GET'' ''/sharing/pending-invites'' [] (Some (Z_object [])) None None [(200, Some invitesListSchema)],
     Operation ''DELETE'' ''/sharing/pending-invites/{token}'' token_param None None None [(204, None), (404, None)],
     Operation ''DELETE'' ''/boards/{id}/invites/{inviteId}'' [(''id'', Z_string), (''inviteId'', Z_string)] None None None [(204, None)]]"

definition createOpenApiDocument :: "api_operation list" where
  "createOpenApiDocument = first_paths @ workspace_paths @ board_paths @ account_paths @ workspace_member_paths @ live_paths @
     board_member_paths"

definition INTERNAL_ROUTE_PATHS :: "string list" where
  "INTERNAL_ROUTE_PATHS = [''/debug/state'', ''/metrics'', ''/openapi.json'', ''/swagger'', ''/billing/webhook'']"

lemmas document_defs = createOpenApiDocument_def first_paths_def workspace_paths_def board_paths_def account_paths_def
  workspace_member_paths_def live_paths_def board_member_paths_def

section \<open>The routes\<close>

type_synonym route = "string \<times> string"

definition google_routes :: "route list" where "google_routes = [(''GET'', ''/google''), (''GET'', ''/callback'')]"

definition session_routes :: "route list" where
  "session_routes = [(''POST'', ''/refresh''), (''POST'', ''/dev-login''), (''POST'', ''/logout'')]"

definition auth_routes :: "route list" where "auth_routes = google_routes @ session_routes"

definition user_routes :: "route list" where "user_routes = [(''GET'', ''/me'')]"

definition billing_routes :: "route list" where
  "billing_routes = [(''GET'', ''/billing/profile''), (''POST'', ''/billing/checkout''), (''POST'', ''/billing/portal'')]"

definition workspace_routes :: "route list" where
  "workspace_routes = [(''GET'', ''/workspaces''), (''POST'', ''/workspaces''), (''PATCH'', ''/workspaces/:wid''),
     (''GET'', ''/workspaces/:wid/members''), (''DELETE'', ''/workspaces/:wid/members/:memberId''),
     (''GET'', ''/workspaces/:wid/invitations''), (''POST'', ''/workspaces/:wid/invitations''),
     (''GET'', ''/invitations/:token''), (''POST'', ''/invitations/:token/accept'')]"

definition access_routes :: "route list" where
  "access_routes = [(''GET'', ''/boards/:id''), (''GET'', ''/boards/:id/elements''), (''POST'', ''/boards/:id/preview-jobs''),
     (''GET'', ''/boards/:id/active-users''), (''POST'', ''/boards/:id/presence''), (''DELETE'', ''/boards/:id/presence/:sessionId''),
     (''GET'', ''/shared/:token'')]"

definition mutation_routes :: "route list" where
  "mutation_routes = [(''PATCH'', ''/boards/:id/elements''), (''POST'', ''/boards/:id/mutations'')]"

definition management_routes :: "route list" where
  "management_routes = [(''GET'', ''/workspaces/:wid/boards''), (''GET'', ''/boards''), (''POST'', ''/workspaces/:wid/boards''),
     (''PATCH'', ''/boards/:id''), (''POST'', ''/boards/:id/duplicate''), (''DELETE'', ''/boards/:id''),
     (''PUT'', ''/boards/:id/favorite''), (''DELETE'', ''/boards/:id/favorite''), (''POST'', ''/boards/:id/leave'')]"

definition member_routes :: "route list" where
  "member_routes = [(''GET'', ''/boards/:id/members''), (''POST'', ''/boards/:id/members''),
     (''PATCH'', ''/boards/:id/members/:memberId''), (''DELETE'', ''/boards/:id/members/:memberId'')]"

definition invitation_routes :: "route list" where
  "invitation_routes = [(''POST'', ''/boards/:id/invites''), (''POST'', ''/boards/invites/:token/accept''),
     (''DELETE'', ''/sharing/pending-invites/:token''), (''GET'', ''/sharing/pending-invites''), (''DELETE'', ''/boards/:id/invites/:inviteId'')]"

definition link_sharing_routes :: "route list" where
  "link_sharing_routes = [(''PATCH'', ''/boards/:id/link-sharing''), (''POST'', ''/boards/:id/link-sharing/rotate'')]"

definition word_char :: "char \<Rightarrow> bool" where
  "word_char c = (let n = (of_char c :: nat) in
     48 \<le> n \<and> n \<le> 57 \<or> 65 \<le> n \<and> n \<le> 90 \<or> 97 \<le> n \<and> n \<le> 122 \<or> c = CHR ''_'')"

function normalizeParams :: "string \<Rightarrow> string" where
  \<comment> \<open>\<open>:name\<close> becomes \<open>{name}\<close>\<close>
  "normalizeParams [] = []"
| "normalizeParams (c # s) = (if c = CHR '':'' \<and> takeWhile word_char s \<noteq> []
     then CHR ''{'' # takeWhile word_char s @ CHR ''}'' # normalizeParams (dropWhile word_char s) else c # normalizeParams s)"
  by pat_completeness auto

termination
  by (relation "measure length") (auto intro: le_imp_less_Suc length_dropWhile_le)

definition joinPaths :: "string \<Rightarrow> string \<Rightarrow> string" where
  \<comment> \<open>for paths that begin with a slash and do not end with one\<close>
  "joinPaths prefix path = (if prefix = ''/'' then [] else prefix) @ path"

definition mounted :: "string \<Rightarrow> route list \<Rightarrow> route list" where
  "mounted prefix = map (\<lambda>(verb, path). (verb, joinPaths prefix (normalizeParams path)))"

definition product_routes :: "route list" where
  \<comment> \<open>\<open>mountModuleRouters\<close>\<close>
  "product_routes = mounted ''/auth'' auth_routes @ mounted ''/users'' user_routes @ mounted ''/'' billing_routes @
     mounted ''/'' workspace_routes @ mounted ''/'' (access_routes @ mutation_routes @ management_routes @ member_routes @
     invitation_routes @ link_sharing_routes)"

definition documentedOperations :: "api_operation list \<Rightarrow> route list" where
  "documentedOperations = map (\<lambda>p. (op_method p, op_path p))"

lemmas route_defs = product_routes_def auth_routes_def google_routes_def session_routes_def user_routes_def billing_routes_def workspace_routes_def access_routes_def
  mutation_routes_def management_routes_def member_routes_def invitation_routes_def link_sharing_routes_def

section \<open>The contract\<close>


text \<open>The document and the routes agree: the documented operations are the mounted routes of the product, method by
  method, and the health check; none of the internal paths is documented.\<close>

theorem documented_routes_are_mounted:
  "set (documentedOperations createOpenApiDocument) = insert (''GET'', ''/health'') (set product_routes) \<and>
   snd ` set (documentedOperations createOpenApiDocument) \<inter> set INTERNAL_ROUTE_PATHS = {}"
  by (simp add: route_defs mounted_def joinPaths_def word_char_def documentedOperations_def document_defs INTERNAL_ROUTE_PATHS_def) auto

section \<open>Path parameters\<close>

fun template_params :: "string \<Rightarrow> string list" where
  \<comment> \<open>the names in braces\<close>
  "template_params [] = []"
| "template_params (c # s) = (if c = CHR ''{'' then takeWhile (\<lambda>c. c \<noteq> CHR ''}'') s # template_params s else template_params s)"

lemma undeclared_path_parameter:
  "map (\<lambda>p. (op_method p, op_path p)) (filter (\<lambda>p. template_params (op_path p) \<noteq> map fst (op_params p)) createOpenApiDocument) =
    [(''GET'', ''/workspaces/{wid}/members'')]"
  by (simp add: document_defs)

end
