(* ===== verification/Api_Contract.thy ===== *)
theory Api_Contract
  imports Api_Document
begin

text \<open>
  The document of \<open>Api_Document\<close> against what the handlers do: the statuses of their successes, the
  shapes of what they answer and the documented requests they refuse.
\<close>

section \<open>Statuses\<close>

definition documented_statuses :: "string \<Rightarrow> string \<Rightarrow> int list" where
  "documented_statuses verb path = (case List.find (\<lambda>p. op_path p = path \<and> op_method p = verb) createOpenApiDocument of
     None \<Rightarrow> [] | Some p \<Rightarrow> map fst (op_responses p))"

fun succeeds_in :: "int list \<Rightarrow> 'a answer \<Rightarrow> bool" where
  \<comment> \<open>a success has one of these statuses\<close>
  "succeeds_in statuses (Refused status message) = True"
| "succeeds_in statuses (Answer status body) = (status \<in> set statuses)"

lemma succeeds_parsed:
  "(\<And>x s. succeeds_in A (fst (handler x s))) \<Longrightarrow> succeeds_in A (fst (parsed_or_400 H schema input parsed handler s))"
  by (simp add: parsed_or_400_def split: option.split)

lemma succeeds_settle: "(\<And>x. succeeds_in A (done x)) \<Longrightarrow> succeeds_in A (fst (settle r done))"
  by (simp add: settle_def errorHandler_def split: prod.split sum.split)

lemma succeeds_found: "status \<in> set A \<Longrightarrow> succeeds_in A (found_or_404 message status x)"
  by (simp add: found_or_404_def split: option.split)

lemma succeeds_error [simp]: "succeeds_in A (errorHandler e)"
  by (simp add: errorHandler_def)

lemma succeeds_for_role: "(\<And>T. succeeds_in A (fst (handler T))) \<Longrightarrow> succeeds_in A (fst (for_role S u ok b handler T))"
  by (simp add: for_role_def FORBIDDEN_def split: sum.split)

lemma succeeds_for_admins: "(\<And>T. succeeds_in A (fst (handler T))) \<Longrightarrow> succeeds_in A (fst (for_admins wid u handler T))"
  by (simp add: for_admins_def FORBIDDEN_def)

lemma succeeds_billing: "200 \<in> set A \<Longrightarrow> succeeds_in A (fst (billing_answer r f))"
  by (simp add: billing_answer_def split: prod.split sum.split)


lemma succeeds_accept_failure [simp]: "succeeds_in A (accept_failure e)"
  by (cases e) auto

lemmas succeeds_intros = succeeds_parsed succeeds_settle succeeds_found succeeds_for_role succeeds_for_admins succeeds_billing

lemma board_routes_succeed:
  "200 \<in> set A \<Longrightarrow> succeeds_in A (fst (workspace_boards_route H S u wid T))"
  "200 \<in> set A \<Longrightarrow> succeeds_in A (fst (list_boards_route S u T))"
  "201 \<in> set A \<Longrightarrow> succeeds_in A (fst (create_board_route H S u wid body T))"
  "200 \<in> set A \<Longrightarrow> succeeds_in A (fst (rename_board_route H S u boardId body T))"
  "201 \<in> set A \<Longrightarrow> succeeds_in A (fst (duplicate_board_route H S u boardId T))"
  "204 \<in> set A \<Longrightarrow> succeeds_in A (fst (delete_board_route H S u boardId T))"
  "200 \<in> set A \<Longrightarrow> succeeds_in A (fst (favorite_route H S u on boardId T))"
  "204 \<in> set A \<Longrightarrow> succeeds_in A (fst (leave_board_route H S u boardId T))"
  by (auto simp: workspace_boards_route_def list_boards_route_def create_board_route_def rename_board_route_def duplicate_board_route_def
      delete_board_route_def favorite_route_def leave_board_route_def FORBIDDEN_def with_access_def
      intro!: succeeds_intros split: prod.split option.split sum.split)

lemma member_routes_succeed:
  "200 \<in> set A \<Longrightarrow> succeeds_in A (fst (board_members_route H S u boardId T))"
  "201 \<in> set A \<Longrightarrow> succeeds_in A (fst (add_member_route H S u boardId body T))"
  "204 \<in> set A \<Longrightarrow> succeeds_in A (fst (change_member_route H S u boardId memberId body T))"
  "204 \<in> set A \<Longrightarrow> succeeds_in A (fst (remove_member_route H S u boardId memberId T))"
  "201 \<in> set A \<Longrightarrow> succeeds_in A (fst (invite_route H S race1 race2 u boardId body T))"
  "204 \<in> set A \<Longrightarrow> succeeds_in A (fst (accept_invite_route H S u token T))"
  "204 \<in> set A \<Longrightarrow> succeeds_in A (fst (decline_invite_route H S u token T))"
  "200 \<in> set A \<Longrightarrow> succeeds_in A (fst (pending_invites_route S u T))"
  "204 \<in> set A \<Longrightarrow> succeeds_in A (fst (revoke_invite_route H S u boardId inviteId T))"
  "200 \<in> set A \<Longrightarrow> succeeds_in A (fst (link_sharing_route H S u boardId body T))"
  "200 \<in> set A \<Longrightarrow> succeeds_in A (fst (rotate_link_route H S u boardId body T))"
  "200 \<in> set A \<Longrightarrow> succeeds_in A (fst (shared_route H token T))"
  by (auto simp: board_members_route_def add_member_route_def change_member_route_def remove_member_route_def invite_route_def
      accept_invite_route_def decline_invite_route_def no_content_or_404_def pending_invites_route_def revoke_invite_route_def
      link_sharing_route_def rotate_link_route_def shared_route_def FORBIDDEN_def intro!: succeeds_intros split: prod.split option.split sum.split)

lemma workspace_routes_succeed:
  "200 \<in> set A \<Longrightarrow> succeeds_in A (list_workspaces_route u T)"
  "201 \<in> set A \<Longrightarrow> succeeds_in A (fst (create_workspace_route H S u body T))"
  "200 \<in> set A \<Longrightarrow> succeeds_in A (fst (rename_workspace_route H S u wid body T))"
  "200 \<in> set A \<Longrightarrow> succeeds_in A (fst (workspace_members_route H u wid T))"
  "204 \<in> set A \<Longrightarrow> succeeds_in A (fst (remove_workspace_member_route H u wid memberId T))"
  "200 \<in> set A \<Longrightarrow> succeeds_in A (fst (workspace_invitations_route H u wid T))"
  "201 \<in> set A \<Longrightarrow> succeeds_in A (fst (create_invitation_route H S race1 race2 u wid body T))"
  "200 \<in> set A \<Longrightarrow> succeeds_in A (fst (get_invitation_route H token T))"
  "200 \<in> set A \<Longrightarrow> succeeds_in A (fst (accept_invitation_route H S u token T))"
  "200 \<in> set A \<Longrightarrow> succeeds_in A (me_route u T)"
  "200 \<in> set A \<Longrightarrow> succeeds_in A (fst (profile_route B u b))"
  "200 \<in> set A \<Longrightarrow> succeeds_in A (fst (checkout_route H is_url B u body b))"
  "200 \<in> set A \<Longrightarrow> succeeds_in A (fst (portal_route H is_url B u body b))"
  by (auto simp: list_workspaces_route_def create_workspace_route_def rename_workspace_route_def workspace_members_route_def
      remove_workspace_member_route_def workspace_invitations_route_def create_invitation_route_def get_invitation_route_def
      accept_invitation_route_def me_route_def profile_route_def checkout_route_def portal_route_def FORBIDDEN_def
      intro!: succeeds_intros split: prod.split option.split sum.split)

definition as_documented :: "string \<Rightarrow> string \<Rightarrow> 'a answer \<Rightarrow> bool" where
  "as_documented verb path a = succeeds_in (documented_statuses verb path) a"

definition live_succeeds :: "int list \<Rightarrow> ('a answer \<times> 's) option \<Rightarrow> bool" where
  "live_succeeds A r = (case r of None \<Rightarrow> True | Some (a, s) \<Rightarrow> succeeds_in A a)"

lemma live_simps [simp]:
  "live_succeeds A None"
  "live_succeeds A (Some (a, s)) = succeeds_in A a"
  by (simp_all add: live_succeeds_def)

lemma live_bind: "(\<And>y. live_succeeds A (f y)) \<Longrightarrow> live_succeeds A (Option.bind x f)"
  by (cases x) auto

lemma live_board_request:
  assumes "succeeds_in A refusal" "\<And>b x found s. live_succeeds A (handler b x found s)"
  shows "live_succeeds A (board_request H S T u boardId query schema input parsed enough refusal handler s)"
  using assms by (auto simp: board_request_def with_access_def split: option.split sum.split)

lemma live_routes_succeed:
  "200 \<in> set A \<Longrightarrow> live_succeeds A (get_board_route H S T u boardId query s)"
  "200 \<in> set A \<Longrightarrow> live_succeeds A (get_elements_route H S T E u boardId query l)"
  "200 \<in> set A \<Longrightarrow> live_succeeds A (active_users_route H S T E u boardId query l)"
  "204 \<in> set A \<Longrightarrow> live_succeeds A (touch_presence_route H S T E u boardId query body l)"
  "204 \<in> set A \<Longrightarrow> live_succeeds A (drop_presence_route H S T E u boardId sessionId query l)"
  "202 \<in> set A \<Longrightarrow> live_succeeds A (preview_jobs_route H S T P now u boardId query p)"
  by (auto simp: get_board_route_def get_elements_route_def active_users_route_def touch_presence_route_def drop_presence_route_def
      preview_jobs_route_def FORBIDDEN_def intro!: live_board_request live_bind split: option.split sum.split prod.split)

lemma mutation_routes_succeed:
  "200 \<in> set A \<Longrightarrow> live_succeeds A (patch_elements_route H S T E cfg as_element as_id u boardId query body l)"
  "200 \<in> set A \<Longrightarrow> live_succeeds A (mutations_route H S T E cfg decode u boardId query body l)"
  by (auto simp: patch_elements_route_def mutations_route_def Let_def intro!: live_board_request live_bind split: option.split sum.split prod.split)

lemma session_replies:
  "rp_status (fst (refresh AE req rows)) \<in> {200, 400, 401, 403}"
  "rp_status (fst (logout AE req rows)) \<in> {200, 400, 403}"
  "rp_status (google_start AE req) \<in> {302, 400}"
  "rp_status (fst (google_callback AE req a)) \<in> {302, 400, 403, 500}"
  "case fst (dev_login AE req a) of Inl e \<Rightarrow> True | Inr r \<Rightarrow> rp_status r \<in> {200, 400, 403, 404}"
  by (auto simp: refresh_def refresh_lookup_def refresh_reply_def reuse_reply_def logout_def google_start_def google_callback_def
      oauth_denied_def sign_in_google_def signed_in_def authentication_failed_def dev_login_def send_error_def Let_def
      split: option.splits sum.splits prod.splits bool.splits)

definition live_as_documented :: "string \<Rightarrow> string \<Rightarrow> ('a answer \<times> 's) option \<Rightarrow> bool" where
  "live_as_documented verb path r = live_succeeds (documented_statuses verb path) r"

definition reply_as_documented :: "string \<Rightarrow> string \<Rightarrow> reply \<Rightarrow> bool" where
  "reply_as_documented verb path r = (400 \<le> rp_status r \<or> int (rp_status r) \<in> set (documented_statuses verb path))"

lemma statuses_of_document:
  "200 \<in> set (documented_statuses ''GET'' ''/workspaces/{wid}/boards'')"
  "200 \<in> set (documented_statuses ''GET'' ''/boards'')"
  "201 \<in> set (documented_statuses ''POST'' ''/workspaces/{wid}/boards'')"
  "200 \<in> set (documented_statuses ''PATCH'' ''/boards/{id}'')"
  "201 \<in> set (documented_statuses ''POST'' ''/boards/{id}/duplicate'')"
  "204 \<in> set (documented_statuses ''DELETE'' ''/boards/{id}'')"
  "200 \<in> set (documented_statuses ''PUT'' ''/boards/{id}/favorite'')"
  "200 \<in> set (documented_statuses ''DELETE'' ''/boards/{id}/favorite'')"
  "204 \<in> set (documented_statuses ''POST'' ''/boards/{id}/leave'')"
  "200 \<in> set (documented_statuses ''GET'' ''/boards/{id}/members'')"
  "201 \<in> set (documented_statuses ''POST'' ''/boards/{id}/members'')"
  "204 \<in> set (documented_statuses ''PATCH'' ''/boards/{id}/members/{memberId}'')"
  "204 \<in> set (documented_statuses ''DELETE'' ''/boards/{id}/members/{memberId}'')"
  "201 \<in> set (documented_statuses ''POST'' ''/boards/{id}/invites'')"
  "204 \<in> set (documented_statuses ''POST'' ''/boards/invites/{token}/accept'')"
  "204 \<in> set (documented_statuses ''DELETE'' ''/sharing/pending-invites/{token}'')"
  "200 \<in> set (documented_statuses ''GET'' ''/sharing/pending-invites'')"
  "204 \<in> set (documented_statuses ''DELETE'' ''/boards/{id}/invites/{inviteId}'')"
  "200 \<in> set (documented_statuses ''PATCH'' ''/boards/{id}/link-sharing'')"
  "200 \<in> set (documented_statuses ''POST'' ''/boards/{id}/link-sharing/rotate'')"
  "200 \<in> set (documented_statuses ''GET'' ''/shared/{token}'')"
  "200 \<in> set (documented_statuses ''GET'' ''/workspaces'')"
  "201 \<in> set (documented_statuses ''POST'' ''/workspaces'')"
  "200 \<in> set (documented_statuses ''PATCH'' ''/workspaces/{wid}'')"
  "200 \<in> set (documented_statuses ''GET'' ''/workspaces/{wid}/members'')"
  "204 \<in> set (documented_statuses ''DELETE'' ''/workspaces/{wid}/members/{memberId}'')"
  "200 \<in> set (documented_statuses ''GET'' ''/workspaces/{wid}/invitations'')"
  "201 \<in> set (documented_statuses ''POST'' ''/workspaces/{wid}/invitations'')"
  "200 \<in> set (documented_statuses ''GET'' ''/invitations/{token}'')"
  "200 \<in> set (documented_statuses ''POST'' ''/invitations/{token}/accept'')"
  "200 \<in> set (documented_statuses ''GET'' ''/users/me'')"
  "200 \<in> set (documented_statuses ''GET'' ''/billing/profile'')"
  "200 \<in> set (documented_statuses ''POST'' ''/billing/checkout'')"
  "200 \<in> set (documented_statuses ''POST'' ''/billing/portal'')"
  "200 \<in> set (documented_statuses ''GET'' ''/boards/{id}'')"
  "200 \<in> set (documented_statuses ''GET'' ''/boards/{id}/elements'')"
  "200 \<in> set (documented_statuses ''GET'' ''/boards/{id}/active-users'')"
  "204 \<in> set (documented_statuses ''POST'' ''/boards/{id}/presence'')"
  "204 \<in> set (documented_statuses ''DELETE'' ''/boards/{id}/presence/{sessionId}'')"
  "202 \<in> set (documented_statuses ''POST'' ''/boards/{id}/preview-jobs'')"
  "200 \<in> set (documented_statuses ''PATCH'' ''/boards/{id}/elements'')"
  "200 \<in> set (documented_statuses ''POST'' ''/boards/{id}/mutations'')"
  "200 \<in> set (documented_statuses ''POST'' ''/auth/refresh'')"
  "200 \<in> set (documented_statuses ''POST'' ''/auth/logout'')"
  "302 \<in> set (documented_statuses ''GET'' ''/auth/google'')"
  "302 \<in> set (documented_statuses ''GET'' ''/auth/callback'')"
  "200 \<in> set (documented_statuses ''POST'' ''/auth/dev-login'')"
  "200 \<in> set (documented_statuses ''GET'' ''/health'')"
  "503 \<in> set (documented_statuses ''GET'' ''/health'')"
  by (simp_all add: documented_statuses_def document_defs)

lemma reply_in: "rp_status r \<in> insert n N \<Longrightarrow> int n \<in> set (documented_statuses verb path) \<Longrightarrow> (\<And>m. m \<in> N \<Longrightarrow> 400 \<le> m) \<Longrightarrow>
    reply_as_documented verb path r"
  by (auto simp: reply_as_documented_def)

lemma session_routes_documented:
  "reply_as_documented ''POST'' ''/auth/refresh'' (fst (refresh AE req rows))"
  "reply_as_documented ''POST'' ''/auth/logout'' (fst (logout AE req rows))"
  "reply_as_documented ''GET'' ''/auth/google'' (google_start AE req)"
  "reply_as_documented ''GET'' ''/auth/callback'' (fst (google_callback AE req a))"
  by (rule session_replies(1-4)[THEN reply_in]; auto simp: statuses_of_document)+

lemma login_documented:
  "case fst (dev_login AE req a) of Inl e \<Rightarrow> True | Inr r \<Rightarrow> reply_as_documented ''POST'' ''/auth/dev-login'' r"
  using session_replies(5)[of AE req a] by (auto simp: reply_as_documented_def statuses_of_document split: sum.splits)

text \<open>C23: Whatever a documented route is asked, and whatever it finds: if it succeeds, its status is one of those the document
  gives for it; the health check has no other statuses at all.\<close>

theorem successes_are_documented:
  "as_documented ''GET'' ''/workspaces/{wid}/boards'' (fst (workspace_boards_route H S u wid T)) \<and>
   as_documented ''GET'' ''/boards'' (fst (list_boards_route S u T)) \<and>
   as_documented ''POST'' ''/workspaces/{wid}/boards'' (fst (create_board_route H S u wid body T)) \<and>
   as_documented ''PATCH'' ''/boards/{id}'' (fst (rename_board_route H S u boardId body T)) \<and>
   as_documented ''POST'' ''/boards/{id}/duplicate'' (fst (duplicate_board_route H S u boardId T)) \<and>
   as_documented ''DELETE'' ''/boards/{id}'' (fst (delete_board_route H S u boardId T)) \<and>
   as_documented ''PUT'' ''/boards/{id}/favorite'' (fst (favorite_route H S u True boardId T)) \<and>
   as_documented ''DELETE'' ''/boards/{id}/favorite'' (fst (favorite_route H S u False boardId T)) \<and>
   as_documented ''POST'' ''/boards/{id}/leave'' (fst (leave_board_route H S u boardId T)) \<and>
   as_documented ''GET'' ''/boards/{id}/members'' (fst (board_members_route H S u boardId T)) \<and>
   as_documented ''POST'' ''/boards/{id}/members'' (fst (add_member_route H S u boardId body T)) \<and>
   as_documented ''PATCH'' ''/boards/{id}/members/{memberId}'' (fst (change_member_route H S u boardId memberId body T)) \<and>
   as_documented ''DELETE'' ''/boards/{id}/members/{memberId}'' (fst (remove_member_route H S u boardId memberId T)) \<and>
   as_documented ''POST'' ''/boards/{id}/invites'' (fst (invite_route H S race1 race2 u boardId body T)) \<and>
   as_documented ''POST'' ''/boards/invites/{token}/accept'' (fst (accept_invite_route H S u token T)) \<and>
   as_documented ''DELETE'' ''/sharing/pending-invites/{token}'' (fst (decline_invite_route H S u token T)) \<and>
   as_documented ''GET'' ''/sharing/pending-invites'' (fst (pending_invites_route S u T)) \<and>
   as_documented ''DELETE'' ''/boards/{id}/invites/{inviteId}'' (fst (revoke_invite_route H S u boardId inviteId T)) \<and>
   as_documented ''PATCH'' ''/boards/{id}/link-sharing'' (fst (link_sharing_route H S u boardId body T)) \<and>
   as_documented ''POST'' ''/boards/{id}/link-sharing/rotate'' (fst (rotate_link_route H S u boardId body T)) \<and>
   as_documented ''GET'' ''/shared/{token}'' (fst (shared_route H token T)) \<and>
   as_documented ''GET'' ''/workspaces'' (list_workspaces_route u T) \<and>
   as_documented ''POST'' ''/workspaces'' (fst (create_workspace_route H S u body T)) \<and>
   as_documented ''PATCH'' ''/workspaces/{wid}'' (fst (rename_workspace_route H S u wid body T)) \<and>
   as_documented ''GET'' ''/workspaces/{wid}/members'' (fst (workspace_members_route H u wid T)) \<and>
   as_documented ''DELETE'' ''/workspaces/{wid}/members/{memberId}'' (fst (remove_workspace_member_route H u wid memberId T)) \<and>
   as_documented ''GET'' ''/workspaces/{wid}/invitations'' (fst (workspace_invitations_route H u wid T)) \<and>
   as_documented ''POST'' ''/workspaces/{wid}/invitations'' (fst (create_invitation_route H S race1 race2 u wid body T)) \<and>
   as_documented ''GET'' ''/invitations/{token}'' (fst (get_invitation_route H token T)) \<and>
   as_documented ''POST'' ''/invitations/{token}/accept'' (fst (accept_invitation_route H S u token T)) \<and>
   as_documented ''GET'' ''/users/me'' (me_route u T) \<and>
   as_documented ''GET'' ''/billing/profile'' (fst (profile_route B u b)) \<and>
   as_documented ''POST'' ''/billing/checkout'' (fst (checkout_route H is_url B u body b)) \<and>
   as_documented ''POST'' ''/billing/portal'' (fst (portal_route H is_url B u body b)) \<and>
   live_as_documented ''GET'' ''/boards/{id}'' (get_board_route H S T uo boardId query l) \<and>
   live_as_documented ''GET'' ''/boards/{id}/elements'' (get_elements_route H S T E uo boardId query l) \<and>
   live_as_documented ''GET'' ''/boards/{id}/active-users'' (active_users_route H S T E uo boardId query l) \<and>
   live_as_documented ''POST'' ''/boards/{id}/presence'' (touch_presence_route H S T E uo boardId query body l) \<and>
   live_as_documented ''DELETE'' ''/boards/{id}/presence/{sessionId}'' (drop_presence_route H S T E uo boardId sessionId query l) \<and>
   live_as_documented ''POST'' ''/boards/{id}/preview-jobs'' (preview_jobs_route H S T P now uo boardId query p) \<and>
   live_as_documented ''PATCH'' ''/boards/{id}/elements'' (patch_elements_route H S T E cfg as_element as_id uo boardId query body l) \<and>
   live_as_documented ''POST'' ''/boards/{id}/mutations'' (mutations_route H S T E cfg decode uo boardId query body l) \<and>
   reply_as_documented ''POST'' ''/auth/refresh'' (fst (refresh AE req rows)) \<and>
   reply_as_documented ''POST'' ''/auth/logout'' (fst (logout AE req rows)) \<and>
   reply_as_documented ''GET'' ''/auth/google'' (google_start AE req) \<and>
   reply_as_documented ''GET'' ''/auth/callback'' (fst (google_callback AE req a)) \<and>
   (case fst (dev_login AE req a) of Inl e \<Rightarrow> True | Inr r \<Rightarrow> reply_as_documented ''POST'' ''/auth/dev-login'' r) \<and>
   fst (healthRoute he connections) \<in> set (documented_statuses ''GET'' ''/health'')"
  by (intro conjI)
    (simp_all add: as_documented_def live_as_documented_def board_routes_succeed member_routes_succeed workspace_routes_succeed
      live_routes_succeed mutation_routes_succeed statuses_of_document healthRoute_def Let_def session_routes_documented
      login_documented split: prod.split)

section \<open>Bodies\<close>

definition formats_of :: "http_env \<Rightarrow> (string \<Rightarrow> bool) \<Rightarrow> formats" where
  "formats_of H isDatetime = \<lparr>fo_isUuid = ht_isUuid H, fo_isEmail = ht_isEmail H, fo_isDatetime = isDatetime\<rparr>"

text \<open>Three documented requests are refused: to add a member with the documented body, which does not name the user, and to
  start a checkout or to open the portal without a body, as documented.\<close>

theorem documented_requests_refused:
  assumes "fits F permissionBody body" "get_prop ''userId'' body = WUndefined"
  shows "(\<exists>issue. add_member_route H S u boardId body T = (Refused 400 issue, T)) \<and>
    (\<exists>issue. checkout_route H is_url B u WUndefined b = (Refused 400 issue, b)) \<and>
    (\<exists>issue. portal_route H is_url B u WUndefined b = (Refused 400 issue, b)) \<and>
    map op_body (filter (\<lambda>p. op_method p = ''POST'' \<and> op_path p \<in> {''/boards/{id}/members'', ''/billing/checkout'', ''/billing/portal''})
      createOpenApiDocument) = [None, None, Some permissionBody]"
proof (intro conjI)
  have "upsertBoardMemberBodySchema H body = None"
    using assms(2) by (cases body) (simp_all add: upsertBoardMemberBodySchema_def)
  then show "\<exists>issue. add_member_route H S u boardId body T = (Refused 400 issue, T)"
    by (auto simp: add_member_route_def parsed_or_400_def split: option.split)
  show "\<exists>issue. checkout_route H is_url B u WUndefined b = (Refused 400 issue, b)"
    by (simp add: checkout_route_def checkoutSchema_def parsed_or_400_def)
  show "\<exists>issue. portal_route H is_url B u WUndefined b = (Refused 400 issue, b)"
    by (simp add: portal_route_def portalSchema_def parsed_or_400_def)
qed (simp add: document_defs)

section \<open>Answers\<close>

definition nullable :: "string option \<Rightarrow> wire" where
  "nullable x = (case x of None \<Rightarrow> WNull | Some s \<Rightarrow> WStr s)"

definition board_entries :: "(int \<Rightarrow> string) \<Rightarrow> board_row \<Rightarrow> (string \<times> wire) list" where
  \<comment> \<open>a row as JSON; \<open>toISO\<close> is \<open>toISOString\<close>\<close>
  "board_entries toISO b = [(''id'', WStr (b_id b)), (''workspaceId'', WStr (b_workspace b)), (''name'', WStr (b_name b)),
     (''currentCommitId'', nullable (b_commit b)), (''currentBranch'', nullable (b_branch b)), (''previewSvg'', nullable (b_previewSvg b)),
     (''previewVersion'', nullable (b_previewVersion b)), (''previewUpdatedAt'', nullable (map_option toISO (b_previewUpdatedAt b))),
     (''linkShareViewEnabled'', WBool (b_viewEnabled b)), (''linkShareViewToken'', nullable (b_viewToken b)),
     (''linkShareEditEnabled'', WBool (b_editEnabled b)), (''linkShareEditToken'', nullable (b_editToken b)),
     (''createdAt'', nullable (map_option toISO (b_createdAt b))), (''updatedAt'', nullable (map_option toISO (b_updatedAt b)))]"

definition catalog_entries :: "(int \<Rightarrow> string) \<Rightarrow> catalog_board \<Rightarrow> (string \<times> wire) list" where
  "catalog_entries toISO c = board_entries toISO (cb_board c) @ [(''isFavorite'', WBool (cb_isFavorite c)),
     (''favoriteCreatedAt'', nullable (map_option toISO (cb_favoriteCreatedAt c)))]"

definition board_reply :: "(int \<Rightarrow> string) \<Rightarrow> catalog_board \<Rightarrow> string option \<Rightarrow> wire" where
  \<comment> \<open>\<open>{ ...board, permission: access.permission }\<close>\<close>
  "board_reply toISO c permission = WObj (catalog_entries toISO c @
     [(''permission'', case permission of None \<Rightarrow> WUndefined | Some p \<Rightarrow> WStr p)])"

definition list_reply :: "string \<Rightarrow> ('r \<Rightarrow> wire) \<Rightarrow> (string \<times> 'r) list \<Rightarrow> wire" where
  \<comment> \<open>\<open>{ key: toRecord(rows) }\<close>\<close>
  "list_reply key row_json rows = WObj [(key, WObj (map (\<lambda>(i, r). (i, row_json r)) rows))]"

definition profile_reply :: "user_row \<Rightarrow> wire" where
  "profile_reply u = WObj [(''id'', WStr (us_id u)), (''email'', WStr (us_email u)), (''name'', WStr (us_name u)),
     (''avatarUrl'', nullable (us_avatarUrl u))]"

definition health_reply :: "int \<Rightarrow> health_report \<Rightarrow> wire" where
  "health_reply uptime r = (let int_of = (\<lambda>n. WNum (Fin (of_int n))); ok = (\<lambda>b. WStr (if b then ''ok'' else ''error'')) in
     WObj [(''status'', WStr (if hr_ok r then ''ok'' else ''degraded'')), (''postgres'', ok (hr_postgres r)), (''redis'', ok (hr_redis r)),
       (''uptime'', int_of uptime), (''openWebSocketConnections'', int_of (hr_openWebSocketConnections r)),
       (''boardState'', WObj [(''dirtyBacklog'', int_of (bh_dirtyBacklog (hr_boardState r))),
          (''lastDirtyAt'', case bh_lastDirtyAt (hr_boardState r) of None \<Rightarrow> WNull | Some t \<Rightarrow> int_of t),
          (''timeSinceLastDirtyMs'', case bh_timeSinceLastDirtyMs (hr_boardState r) of None \<Rightarrow> WNull | Some t \<Rightarrow> int_of t)])])"

lemma nullable_fits [simp]: "fits F (Z_nullable Z_string) (nullable x)"
  by (cases x) (auto simp: nullable_def)

lemma nullable_defined [simp]: "nullable x \<noteq> WUndefined"
  by (cases x) (simp_all add: nullable_def)

text \<open>The document describes other shapes than are sent: a renamed or copied board and a favourite have no permission, the
  boards of a user, the members of a board or a workspace and the invitations of a workspace are objects by id, no arrays.
  The workspaces and the boards of a workspace are sent as described.\<close>

theorem documented_shapes_differ:
  "\<not> fits F boardResponseSchema (WObj (board_entries toISO r)) \<and> \<not> fits F boardResponseSchema (WObj (catalog_entries toISO c)) \<and>
   \<not> fits F boardsListSchema (list_reply ''boards'' row_json rows) \<and> \<not> fits F membersListSchema (list_reply ''members'' row_json rows) \<and>
   \<not> fits F invitesListSchema (list_reply ''invitations'' row_json rows) \<and>
   fits F workspacesListSchema (list_reply ''workspaces'' row_json rows) \<and> fits F workspaceBoardsSchema (list_reply ''boards'' row_json rows)"
  by (simp add: boardResponseSchema_def board_entries_def catalog_entries_def boardsListSchema_def membersListSchema_def
      invitesListSchema_def workspacesListSchema_def workspaceBoardsSchema_def list_reply_def list_all_iff)

text \<open>The reads of a board, of the profile and of the health are answered as described, for a board whose times are set; the
  ids and addresses are taken to be well formed, the counts not to be negative.\<close>

theorem reads_follow_the_document:
  assumes "fo_isUuid F (b_id (cb_board c))" "fo_isUuid F (b_workspace (cb_board c))" "permission \<in> {''view'', ''edit''}"
    and "b_createdAt (cb_board c) = Some t" "b_updatedAt (cb_board c) = Some t'" "\<forall>t. fo_isDatetime F (toISO t)"
    and "fo_isEmail F (us_email user)" "0 \<le> connections" "\<And>key n. he_zcard he key = Some n \<Longrightarrow> 0 \<le> n"
  shows "fits F boardResponseSchema (board_reply toISO c (Some permission)) \<and> fits F userProfileSchema (profile_reply user) \<and>
    fits F healthResponseSchema (health_reply uptime (snd (healthRoute he connections)))"
proof (intro conjI)
  show "fits F boardResponseSchema (board_reply toISO c (Some permission))"
    using assms(1-6) by (auto simp: boardResponseSchema_def board_reply_def catalog_entries_def board_entries_def nullable_def split: option.split)
  show "fits F userProfileSchema (profile_reply user)"
    using assms(7) by (auto simp: userProfileSchema_def profile_reply_def nullable_def split: option.split)
  show "fits F healthResponseSchema (health_reply uptime (snd (healthRoute he connections)))"
    using assms(8,9) by (auto simp: healthResponseSchema_def health_reply_def healthRoute_def getBoardStateHealth_def Let_def split: option.split prod.split)
qed

section \<open>Witnesses\<close>

definition edit_body :: wire where
  "edit_body = WObj [(''permission'', WStr ''edit'')]"

theorem documented_requests_refused_witness:
  "(\<exists>issue. add_member_route demo_http demo_sql ''u'' (WStr ''b'') edit_body demo_tables = (Refused 400 issue, demo_tables)) \<and>
   (\<exists>issue. checkout_route demo_http (\<lambda>s. True) (demo_env (OtherEvent ''ping'')) ''u1'' WUndefined linked = (Refused 400 issue, linked))"
proof -
  have "fits (formats_of demo_http (\<lambda>s. True)) permissionBody edit_body" "get_prop ''userId'' edit_body = WUndefined"
    by (simp_all add: permissionBody_def edit_body_def)
  from documented_requests_refused[OF this] show ?thesis by blast
qed

definition small_formats :: formats where
  "small_formats = \<lparr>fo_isUuid = (\<lambda>s. s \<noteq> []), fo_isEmail = (\<lambda>s. s \<noteq> []), fo_isDatetime = (\<lambda>s. s \<noteq> [])\<rparr>"

definition small_health :: health_env where
  "small_health = \<lparr>he_pg = True, he_ping = True, he_zcard = (\<lambda>key. Some 2), he_newest = (\<lambda>key. Some [''b'', ''5'']), he_now = 7\<rparr>"

definition dated_board :: catalog_board where
  "dated_board = \<lparr>cb_board = (demo_board ''b'')\<lparr>b_createdAt := Some 0, b_updatedAt := Some 1\<rparr>, cb_isFavorite = False, cb_favoriteCreatedAt = None\<rparr>"

theorem reads_follow_the_document_witness:
  "fits small_formats boardResponseSchema (board_reply (\<lambda>t. ''1970'') dated_board (Some ''edit'')) \<and>
   fits small_formats userProfileSchema (profile_reply ann) \<and>
   fits small_formats healthResponseSchema (health_reply 412 (snd (healthRoute small_health 3)))"
  by (rule reads_follow_the_document[where t = 0 and t' = 1])
    (auto simp: small_formats_def dated_board_def demo_board_def ann_def small_health_def)

end
