(* ===== verification/Tracing.thy ===== *)
theory Tracing
  imports Preview_Render Board_Keys
begin

text \<open>
  The sampling of traces (\<open>platform/observability/tracing.ts\<close>): the hash of a board and its week, the
  calendar behind the key of an ISO week, the board in the URL of a span, and the spans and URLs that
  are kept out. The calendar of JavaScript dates is that of ECMAScript; how far a time zone is from UTC
  at an instant is the argument \<open>offset\<close> (the program uses UTC, \<open>utc\<close>). The sampler behind the rotation
  is an argument.
\<close>

section \<open>The calendar\<close>

definition DAY_MS :: int where "DAY_MS = 86400000"

definition day_from_year :: "int \<Rightarrow> int" where
  \<comment> \<open>the day, counted from 1970, that a year starts on\<close>
  "day_from_year y = 365 * (y - 1970) + (y - 1969) div 4 - (y - 1901) div 100 + (y - 1601) div 400"

definition year_of_day :: "int \<Rightarrow> int" where
  \<comment> \<open>\<open>getUTCFullYear()\<close>: an estimate by the mean length of a year, off by at most one\<close>
  "year_of_day d = (let y = 1970 + (400 * d) div 146097 in
     if d < day_from_year y then y - 1 else if day_from_year (y + 1) \<le> d then y + 1 else y)"

definition month_starts :: "int \<Rightarrow> int list" where
  "month_starts y = (if day_from_year (y + 1) - day_from_year y = 366
     then [0, 31, 60, 91, 121, 152, 182, 213, 244, 274, 305, 335] else [0, 31, 59, 90, 120, 151, 181, 212, 243, 273, 304, 334])"

record date_parts =
  dp_year :: int
  dp_month :: int
  dp_day :: int

definition date_parts_of :: "int \<Rightarrow> date_parts" where
  "date_parts_of d = (let y = year_of_day d; n = d - day_from_year y; starts = filter (\<lambda>s. s \<le> n) (month_starts y)
     in \<lparr>dp_year = y, dp_month = int (length starts), dp_day = n - last starts + 1\<rparr>)"

definition date_utc :: "int \<Rightarrow> int \<Rightarrow> int \<Rightarrow> int" where
  \<comment> \<open>\<open>Date.UTC(year, month, day)\<close>; years below 100 are those of the twentieth century\<close>
  "date_utc year month day = (let year = (if 0 \<le> year \<and> year \<le> 99 then 1900 + year else year); y = year + month div 12 in
     (day_from_year y + month_starts y ! nat (month mod 12) + day - 1) * DAY_MS)"

definition utc_day :: "int \<Rightarrow> int" where
  \<comment> \<open>\<open>getUTCDay()\<close>: 0 is Sunday\<close>
  "utc_day t = (t div DAY_MS + 4) mod 7"

definition utc_full_year :: "int \<Rightarrow> int" where
  "utc_full_year t = year_of_day (t div DAY_MS)"

section \<open>The key of a week\<close>

definition padStart2 :: "string \<Rightarrow> string" where
  \<comment> \<open>\<open>padStart(2, '0')\<close>\<close>
  "padStart2 s = replicate (2 - length s) (CHR ''0'') @ s"

definition utc :: "int \<Rightarrow> int" where
  "utc t = 0"

definition isoWeekKey :: "(int \<Rightarrow> int) \<Rightarrow> int \<Rightarrow> string" where
  "isoWeekKey offset date =
     (let parts = date_parts_of ((date + offset date) div DAY_MS);
          wallClock = date_utc (dp_year parts) (dp_month parts - 1) (dp_day parts);
          dayOfWeek = (utc_day wallClock + 6) mod 7;
          thursday = wallClock + (3 - dayOfWeek) * DAY_MS;
          yearStart = date_utc (utc_full_year thursday) 0 1;
          week = (thursday - yearStart) div DAY_MS div 7 + 1
      in dec (utc_full_year thursday) @ ''-W'' @ padStart2 (dec week))"

section \<open>Rotation\<close>

definition BOARD_ROTATION_PERCENT :: nat where "BOARD_ROTATION_PERCENT = 5"

definition fnv1a :: "string \<Rightarrow> nat" where
  "fnv1a input = unat (fold (\<lambda>c hash. xor hash (of_nat (of_char c)) * 0x01000193) input (0x811c9dc5 :: 32 word))"

definition rotationDecisionForBoard :: "string \<Rightarrow> string \<Rightarrow> bool" where
  "rotationDecisionForBoard boardId weekKey \<longleftrightarrow> fnv1a (boardId @ '':'' @ weekKey) mod 100 < BOARD_ROTATION_PERCENT"

definition hex_digit :: "char \<Rightarrow> bool" where
  \<comment> \<open>\<open>[0-9a-f]\<close>, regardless of case\<close>
  "hex_digit c = (let n = (of_char c :: nat) in 48 \<le> n \<and> n \<le> 57 \<or> 65 \<le> n \<and> n \<le> 70 \<or> 97 \<le> n \<and> n \<le> 102)"

fun hex_groups :: "nat list \<Rightarrow> string \<Rightarrow> bool" where
  \<comment> \<open>groups of hexadecimal digits of these lengths, joined by hyphens, and nothing else\<close>
  "hex_groups [] s = False"
| "hex_groups [n] s = (length s = n \<and> list_all hex_digit s)"
| "hex_groups (n # ns) s = (n < length s \<and> list_all hex_digit (take n s) \<and> s ! n = CHR ''-'' \<and> hex_groups ns (drop (n + 1) s))"

definition board_id_here :: "string \<Rightarrow> string option" where
  \<comment> \<open>\<open>BOARD_ID_PATTERN\<close> at the start of the text: its group\<close>
  "board_id_here s = (if js_lower (take 5 s) \<noteq> ''board'' then None else
     (let rest = drop 5 s; rest = (if js_lower (take 1 rest) = ''s'' then drop 1 rest else rest) in
      if take 1 rest \<noteq> ''/'' then None
      else if hex_groups [8, 4, 4, 4, 12] (take 36 (drop 1 rest)) then Some (take 36 (drop 1 rest)) else None))"

fun board_id_in :: "string \<Rightarrow> string option" where
  \<comment> \<open>\<open>BOARD_ID_PATTERN.exec(value)\<close>: the first match\<close>
  "board_id_in [] = None"
| "board_id_in (c # s) = (case board_id_here (c # s) of Some i \<Rightarrow> Some i | None \<Rightarrow> board_id_in s)"

type_synonym attributes = "(string \<times> wire) list"

fun first_board_id :: "string list \<Rightarrow> attributes \<Rightarrow> string option" where
  "first_board_id [] attributes = None"
| "first_board_id (key # keys) attributes = (case js_get key attributes of
     Some (WStr value) \<Rightarrow> (case board_id_in value of Some i \<Rightarrow> Some i | None \<Rightarrow> first_board_id keys attributes)
   | _ \<Rightarrow> first_board_id keys attributes)"

definition boardIdFromAttributes :: "attributes option \<Rightarrow> string option" where
  "boardIdFromAttributes attributes = (case attributes of None \<Rightarrow> None
     | Some attrs \<Rightarrow> first_board_id [''http.url'', ''http.target'', ''url.full'', ''url.path''] attrs)"

datatype sampling_decision = NOT_RECORD | RECORD | RECORD_AND_SAMPLED

definition shouldSample :: "(attributes option \<Rightarrow> sampling_decision) \<Rightarrow> int \<Rightarrow> attributes option \<Rightarrow> sampling_decision" where
  \<comment> \<open>\<open>fallback\<close> is the sampler by ratio, applied to the rest of its arguments\<close>
  "shouldSample fallback now attributes = (case boardIdFromAttributes attributes of
     Some boardId \<Rightarrow> if boardId \<noteq> [] \<and> rotationDecisionForBoard boardId (isoWeekKey utc now) then RECORD_AND_SAMPLED
       else fallback attributes
   | None \<Rightarrow> fallback attributes)"

section \<open>Spans that are kept out\<close>

definition SUPPRESSED_SPAN_KEY_PATTERNS :: "string list" where
  "SUPPRESSED_SPAN_KEY_PATTERNS = ['':mutation_lock'', '':load_lock:'', '':eviction_lock'']"

definition haystack :: "string \<Rightarrow> attributes \<Rightarrow> string" where
  "haystack name attributes = name @ concat (map (\<lambda>(key, value). case value of WStr s \<Rightarrow> '' '' @ key @ ''='' @ s | _ \<Rightarrow> []) attributes)"

definition suppressed :: "string \<Rightarrow> attributes \<Rightarrow> bool" where
  "suppressed name attributes = list_ex (js_includes (haystack name attributes)) SUPPRESSED_SPAN_KEY_PATTERNS"

definition onEnd :: "(string \<times> attributes) \<Rightarrow> (string \<times> attributes) list \<Rightarrow> (string \<times> attributes) list" where
  \<comment> \<open>on the spans handed to the exporter\<close>
  "onEnd ended exported = (if suppressed (fst ended) (snd ended) then exported else exported @ [ended])"

definition ignoreIncomingRequest :: "string option \<Rightarrow> bool" where
  \<comment> \<open>\<open>SUPPRESSED_URL_PATTERNS\<close> on the URL of a request\<close>
  "ignoreIncomingRequest url = (let u = (case url of None \<Rightarrow> [] | Some u \<Rightarrow> u) in
     starts_with ''/socket.io/'' u \<or> starts_with ''/metrics'' u \<or> starts_with ''/healthz'' u \<or>
     starts_with ''/health/'' u \<or> u = ''/health'')"

section \<open>Years\<close>

lemma div_bounds: "0 < k \<Longrightarrow> k * (a div k) \<le> a \<and> a < k * (a div k) + k" for a k :: int
  using mult_div_mod_eq[of k a] pos_mod_bound[of k a] pos_mod_sign[of k a] by linarith

lemma div_step: "0 < k \<Longrightarrow> (a + 1) div k = a div k + (if k dvd a + 1 then 1 else 0)" for a k :: int
proof -
  assume k: "0 < k"
  define q r where "q = a div k" and "r = a mod k"
  have a: "a = k * q + r" "0 \<le> r" "r < k" using k by (auto simp: q_def r_def)
  have *: "a + 1 = (r + 1) + k * q" using a by simp
  show ?thesis
  proof (cases "r + 1 = k")
    case True
    then have "a + 1 = k * (q + 1)" using a by (simp add: algebra_simps)
    then show ?thesis using k by (simp flip: q_def)
  next
    case False
    then have "(r + 1) div k = 0" "\<not> k dvd (r + 1)" using a k by (auto simp: zdvd_not_zless)
    moreover have "k dvd (r + 1) + k * q \<longleftrightarrow> k dvd r + 1" by (rule dvd_add_left_iff) simp
    ultimately show ?thesis using k by (simp add: * q_def[symmetric] del: add.assoc)
  qed
qed
lemma day_from_year_near:
  "146097 * y - 287811596 \<le> 400 * day_from_year y" "400 * day_from_year y \<le> 146097 * y - 287810501"
  using div_bounds[of 4 "y - 1969"] div_bounds[of 100 "y - 1901"] div_bounds[of 400 "y - 1601"]
  by (simp_all add: day_from_year_def)

lemma day_from_year_mono: "y < z \<Longrightarrow> day_from_year y < day_from_year z"
  using day_from_year_near(2)[of y] day_from_year_near(1)[of z] by linarith

lemma day_from_year_le: "y \<le> z \<Longrightarrow> day_from_year y \<le> day_from_year z"
  using day_from_year_mono[of y z] by (cases "y = z") auto

lemma year_bounds: "day_from_year (year_of_day d) \<le> d \<and> d < day_from_year (year_of_day d + 1)"
proof -
  define y where "y = 1970 + (400 * d) div 146097"
  have q: "146097 * (y - 1970) \<le> 400 * d" "400 * d < 146097 * (y - 1970) + 146097"
    using div_bounds[of 146097 "400 * d"] by (simp_all add: y_def)
  have "day_from_year (y - 1) \<le> d" using q(1) day_from_year_near(2)[of "y - 1"] by simp
  moreover have "d < day_from_year (y + 1 + 1)" using q(2) day_from_year_near(1)[of "y + 1 + 1"] by simp
  ultimately show ?thesis by (auto simp: year_of_day_def Let_def y_def[symmetric] simp del: add.assoc)
qed

lemma year_unique: "day_from_year y \<le> d \<Longrightarrow> d < day_from_year (y + 1) \<Longrightarrow> year_of_day d = y"
  using year_bounds[of d] day_from_year_le[of "year_of_day d + 1" y] day_from_year_le[of "y + 1" "year_of_day d"]
  by linarith

lemma year_length: "day_from_year (y + 1) - day_from_year y \<in> {365, 366}"
proof -
  have "4 dvd y - 1968" if d: "100 dvd y - 1900"
  proof -
    obtain c where "y - 1900 = 100 * c" using d by (rule dvdE)
    then have "y - 1968 = 4 * (25 * c - 17)" by simp
    then show ?thesis by simp
  qed
  moreover have "100 dvd y - 1900" if d: "400 dvd y - 1600"
  proof -
    obtain c where "y - 1600 = 400 * c" using d by (rule dvdE)
    then have "y - 1900 = 100 * (4 * c - 3)" by simp
    then show ?thesis by simp
  qed
  ultimately show ?thesis
    using div_step[of 4 "y - 1969"] div_step[of 100 "y - 1901"] div_step[of 400 "y - 1601"]
    by (auto simp: day_from_year_def split: if_splits)
qed

lemma year_from: "0 \<le> d \<Longrightarrow> 1970 \<le> year_of_day d"
proof (rule ccontr)
  assume "0 \<le> d" "\<not> 1970 \<le> year_of_day d"
  then have "day_from_year (year_of_day d + 1) \<le> day_from_year 1970" by (intro day_from_year_le) simp
  moreover have "day_from_year 1970 = 0" by (simp add: day_from_year_def)
  ultimately show False using year_bounds[of d] \<open>0 \<le> d\<close> by linarith
qed

lemma year_utc [simp]: "year_of_day (day_from_year y) = y"
  by (rule year_unique) (simp_all add: day_from_year_mono)

section \<open>Days and weeks\<close>

lemma month_found:
  fixes n :: int
  assumes "0 \<le> n" "starts = filter (\<lambda>s. s \<le> n) (0 # rest)" "length rest = 11" "sorted_wrt (<) (0 # rest)"
  shows "starts \<noteq> []" "length starts \<le> 12" "(0 # rest) ! (length starts - 1) = last starts"
proof -
  have "filter (\<lambda>s. s \<le> n) xs = takeWhile (\<lambda>s. s \<le> n) xs" if "sorted_wrt (<) xs" for xs
    using that
  proof (induction xs)
    case (Cons a xs)
    then show ?case by (cases xs) (auto simp: filter_empty_conv)
  qed simp
  then have t: "starts = takeWhile (\<lambda>s. s \<le> n) (0 # rest)" using assms(2,4) by metis
  show ne: "starts \<noteq> []" using assms(1,2) by simp
  show "length starts \<le> 12" using length_filter_le[of "\<lambda>s. s \<le> n" "0 # rest"] assms(2,3) by simp
  have "starts ! (length starts - 1) = (0 # rest) ! (length starts - 1)"
    unfolding t by (rule takeWhile_nth) (use ne t in simp)
  then show "(0 # rest) ! (length starts - 1) = last starts" using ne by (simp add: last_conv_nth)
qed

lemma date_roundtrip:
  assumes "0 \<le> d"
  shows "date_utc (dp_year (date_parts_of d)) (dp_month (date_parts_of d) - 1) (dp_day (date_parts_of d)) = d * DAY_MS"
proof -
  define y n where "y = year_of_day d" and "n = d - day_from_year y"
  define starts where "starts = filter (\<lambda>s. s \<le> n) (month_starts y)"
  have n: "0 \<le> n" using year_bounds[of d] by (simp add: n_def y_def)
  obtain rest where rest: "month_starts y = 0 # rest" "length rest = 11" "sorted_wrt (<) (0 # rest)"
    by (cases "day_from_year (y + 1) - day_from_year y = 366") (auto simp: month_starts_def)
  note m = month_found[OF n starts_def[unfolded rest(1)] rest(2,3)]
  have y: "\<not> y \<le> 99" using year_from[OF assms] by (simp add: y_def)
  have "(int (length starts) - 1) div 12 = 0" "(int (length starts) - 1) mod 12 = int (length starts) - 1"
    using m(1,2) by (cases starts; simp)+
  moreover have "nat (int (length starts) - 1) = length starts - 1" by simp
  ultimately show ?thesis using y m(3)
    by (simp add: date_utc_def date_parts_of_def Let_def y_def[symmetric] n_def[symmetric] starts_def[symmetric] rest(1)[symmetric]) (simp add: n_def)
qed

definition week_of :: "int \<Rightarrow> int" where
  \<comment> \<open>the weeks from Monday to Sunday, counted\<close>
  "week_of t = (t div DAY_MS + 3) div 7"

definition week_year :: "int \<Rightarrow> int" where
  \<comment> \<open>the year of the Thursday of a week\<close>
  "week_year q = year_of_day (7 * q)"

definition week_number :: "int \<Rightarrow> int" where
  "week_number q = (7 * q - day_from_year (week_year q)) div 7 + 1"

lemma isoWeekKey_week:
  assumes "0 \<le> t"
  shows "isoWeekKey utc t = dec (week_year (week_of t)) @ ''-W'' @ padStart2 (dec (week_number (week_of t)))"
proof -
  define d where "d = t div DAY_MS"
  define q where "q = (d + 3) div 7"
  have d: "0 \<le> d" using assms by (simp add: d_def DAY_MS_def pos_imp_zdiv_nonneg_iff)
  have day: "(utc_day (d * DAY_MS) + 6) mod 7 = (d + 3) mod 7"
    by (simp add: utc_day_def DAY_MS_def) presburger
  have thursday: "d * DAY_MS + (3 - (d + 3) mod 7) * DAY_MS = 7 * q * DAY_MS"
  proof -
    have "d * DAY_MS + (3 - (d + 3) mod 7) * DAY_MS = (d + 3 - (d + 3) mod 7) * DAY_MS" by (simp add: algebra_simps)
    also have "\<dots> = 7 * q * DAY_MS" by (simp only: q_def minus_mod_eq_mult_div)
    finally show ?thesis .
  qed
  have q: "0 \<le> 7 * q" using d by (simp add: q_def pos_imp_zdiv_nonneg_iff)
  have year: "utc_full_year (7 * q * DAY_MS) = week_year q" by (simp add: utc_full_year_def week_year_def DAY_MS_def)
  have "\<not> week_year q \<le> 99" using year_from[OF q] by (simp add: week_year_def)
  then have start: "date_utc (week_year q) 0 1 = day_from_year (week_year q) * DAY_MS"
    by (simp add: date_utc_def month_starts_def Let_def)
  have "(7 * q * DAY_MS - day_from_year (week_year q) * DAY_MS) div DAY_MS = 7 * q - day_from_year (week_year q)"
    by (simp add: DAY_MS_def flip: left_diff_distrib)
  then show ?thesis
    by (simp add: isoWeekKey_def utc_def Let_def d_def[symmetric] date_roundtrip[OF d] day thursday year start week_of_def
      q_def[symmetric] week_number_def)
qed

lemma week_number_bounds: "1 \<le> week_number q \<and> week_number q \<le> 53"
proof -
  have "0 \<le> 7 * q - day_from_year (week_year q)" "7 * q - day_from_year (week_year q) < 366"
    using year_bounds[of "7 * q"] year_length[of "week_year q"] by (auto simp: week_year_def)
  then show ?thesis unfolding week_number_def using div_bounds[of 7 "7 * q - day_from_year (week_year q)"] by simp
qed

lemma week_fixed: "week_year q = week_year r \<Longrightarrow> week_number q = week_number r \<Longrightarrow> q = r"
  using div_bounds[of 7 "7 * q - day_from_year (week_year q)"] div_bounds[of 7 "7 * r - day_from_year (week_year r)"]
  unfolding week_number_def by simp

lemma no_W: "c \<in> set (dec n @ ''-'') \<Longrightarrow> c \<noteq> CHR ''W''"
  using dec_nat_digits[of c] by (auto simp: dec_def is_digit_def split: if_splits)

lemma padStart2_inj: "0 \<le> m \<Longrightarrow> 0 \<le> n \<Longrightarrow> padStart2 (dec m) = padStart2 (dec n) \<Longrightarrow> m = n"
proof -
  have digits: "digits_value (padStart2 s) = digits_value s" for s
  proof -
    have "fold (\<lambda>c acc. acc * 10 + (of_char c - 48)) (replicate k (CHR ''0'')) 0 = (0 :: nat)" for k by (induction k) auto
    then show ?thesis by (simp add: digits_value_def padStart2_def)
  qed
  assume "0 \<le> m" "0 \<le> n" "padStart2 (dec m) = padStart2 (dec n)"
  then show "m = n" using digits[of "dec m"] digits[of "dec n"] by (simp add: dec_def)
qed

lemma key_inj:
  assumes "dec y @ ''-W'' @ v = dec z @ ''-W'' @ w"
  shows "y = z \<and> v = w"
proof -
  have part: "takeWhile (\<lambda>c. c \<noteq> CHR ''W'') (dec n @ ''-W'' @ u) = dec n @ ''-''" "dropWhile (\<lambda>c. c \<noteq> CHR ''W'') (dec n @ ''-W'' @ u) = CHR ''W'' # u" for n u
    using takeWhile_append2[of "dec n @ ''-''" "\<lambda>c. c \<noteq> CHR ''W''" "CHR ''W'' # u"] dropWhile_append2[of "dec n @ ''-''" "\<lambda>c. c \<noteq> CHR ''W''" "CHR ''W'' # u"]
      no_W[of _ n] by auto
  have "dec y @ ''-'' = dec z @ ''-''" "CHR ''W'' # v = CHR ''W'' # w" using assms part[of y v] part[of z w] by metis+
  then show ?thesis using dec_inj by auto
qed

text \<open>The key of the week names the week: two instants since 1970 have the same key exactly if they are in the same week,
  from Monday to Sunday, also where the week lies across the turn of a year; its number is between 1 and 53.\<close>

theorem iso_week_keys:
  assumes "0 \<le> t" "0 \<le> u"
  shows "(isoWeekKey utc t = isoWeekKey utc u \<longleftrightarrow> week_of t = week_of u) \<and> 1 \<le> week_number (week_of t) \<and> week_number (week_of t) \<le> 53"
proof -
  have "week_of t = week_of u" if "isoWeekKey utc t = isoWeekKey utc u"
  proof -
    have "week_year (week_of t) = week_year (week_of u) \<and> padStart2 (dec (week_number (week_of t))) = padStart2 (dec (week_number (week_of u)))"
      using that unfolding isoWeekKey_week[OF assms(1)] isoWeekKey_week[OF assms(2)] by (rule key_inj)
    then show ?thesis
      using week_fixed padStart2_inj[of "week_number (week_of t)" "week_number (week_of u)"]
        week_number_bounds[of "week_of t"] week_number_bounds[of "week_of u"] by simp
  qed
  moreover have "isoWeekKey utc t = isoWeekKey utc u" if "week_of t = week_of u"
    using that by (simp add: isoWeekKey_week assms)
  ultimately show ?thesis using week_number_bounds by blast
qed

text \<open>The decision on a board is the same on every replica for a week: if the rotation has sampled one span of it, it
  samples every other of that week, whatever the sampler by ratio says.\<close>

theorem rotation_is_stable:
  assumes "0 \<le> t" "0 \<le> u" "week_of t = week_of u"
    and "boardIdFromAttributes a = Some b" "boardIdFromAttributes a' = Some b"
    and "shouldSample (\<lambda>_. NOT_RECORD) t a = RECORD_AND_SAMPLED"
  shows "shouldSample fallback u a' = RECORD_AND_SAMPLED"
proof -
  have "isoWeekKey utc t = isoWeekKey utc u" using assms(1-3) by (simp add: isoWeekKey_week)
  then show ?thesis using assms(4-6) by (simp add: shouldSample_def split: if_splits)
qed

text \<open>The version of a preview and the bucket of a trace come from the same hash.\<close>

lemma hashString_fnv1a: "hashString input = hex_nat (fnv1a input)"
  by (simp add: hashString_def fnv1a_def fnv_step_def[abs_def])

section \<open>The spans of the locks\<close>

lemma includes_skip: "CHR '':'' \<notin> set u \<Longrightarrow> js_includes (u @ v) (CHR '':'' # p) = js_includes v (CHR '':'' # p)"
  by (induction u) auto

lemma includes_none: "CHR '':'' \<notin> set u \<Longrightarrow> \<not> js_includes u (CHR '':'' # p)"
  using includes_skip[of u "[]" p] by simp

lemma includes_colon: "js_includes (CHR '':'' # v) (CHR '':'' # p) = (starts_with p v \<or> js_includes v (CHR '':'' # p))"
  by simp

definition command_span :: "string \<Rightarrow> string \<Rightarrow> string \<Rightarrow> string \<times> attributes" where
  \<comment> \<open>what the instrumentation of ioredis makes of a command on a key\<close>
  "command_span command key rest = (command, [(''db.system'', WStr ''redis''), (''db.statement'', WStr (command @ '' '' @ key @ '' '' @ rest))])"

lemma command_haystack:
  assumes "CHR '':'' \<notin> set command" "CHR '':'' \<notin> set b" "CHR '':'' \<notin> set rest" "CHR '':'' \<notin> set suffix"
  shows "js_includes (haystack (fst (command_span command (bkey b suffix) rest)) (snd (command_span command (bkey b suffix) rest))) (CHR '':'' # p) =
    (starts_with p (b @ CHR '':'' # suffix @ '' '' @ rest) \<or> starts_with p (suffix @ '' '' @ rest))"
proof -
  define front where "front = command @ '' db.system=redis'' @ '' db.statement='' @ command @ '' board''"
  have h: "haystack (fst (command_span command (bkey b suffix) rest)) (snd (command_span command (bkey b suffix) rest)) =
      front @ CHR '':'' # b @ CHR '':'' # suffix @ '' '' @ rest"
    by (simp add: haystack_def command_span_def bkey_def front_def)
  have front: "CHR '':'' \<notin> set front" using assms(1) by (simp add: front_def)
  have last: "CHR '':'' \<notin> set (suffix @ '' '' @ rest)" using assms(3,4) by simp
  show ?thesis
    by (simp only: h includes_skip[OF front] includes_colon includes_skip[OF assms(2)] includes_none[OF last] simp_thms)
qed

lemma starts_with_self: "starts_with p (p @ s)"
  by (induction p) auto

lemma not_id_start:
  assumes "list_all (\<lambda>c. hex_digit c \<or> c = CHR ''-'') b"
  shows "\<not> starts_with ''mutation_lock'' (b @ CHR '':'' # s)" "\<not> starts_with ''load_lock:'' (b @ CHR '':'' # s)"
    "\<not> starts_with ''eviction_lock'' (b @ CHR '':'' # s)"
proof -
  show "\<not> starts_with ''mutation_lock'' (b @ CHR '':'' # s)" "\<not> starts_with ''load_lock:'' (b @ CHR '':'' # s)"
    using assms by (cases b; auto simp: hex_digit_def)+
  consider "b = []" | c where "b = [c]" | c d r where "b = c # d # r" by (metis list.exhaust)
  then show "\<not> starts_with ''eviction_lock'' (b @ CHR '':'' # s)" using assms by cases (auto simp: hex_digit_def)
qed

text \<open>Of the three locks whose polling should leave no spans, two leave none: the pattern of the load lock ends with a
  colon that its key does not have, so each command on it is exported.\<close>

theorem load_lock_spans_exported:
  assumes "CHR '':'' \<notin> set command" "CHR '':'' \<notin> set rest" "list_all (\<lambda>c. hex_digit c \<or> c = CHR ''-'') b"
  shows "onEnd (command_span command (boardMutationLockKey b) rest) spans = spans \<and>
    onEnd (command_span command (boardEvictionLockKey b) rest) spans = spans \<and>
    onEnd (command_span command (boardLoadLockKey b) rest) spans = spans @ [command_span command (boardLoadLockKey b) rest]"
proof -
  have b: "CHR '':'' \<notin> set b" using assms(3) by (auto simp: hex_digit_def list_all_iff)
  note h = command_haystack[OF assms(1) b assms(2)] and n = not_id_start[OF assms(3)]
  show ?thesis
    by (simp add: onEnd_def suppressed_def SUPPRESSED_SPAN_KEY_PATTERNS_def key_defs h n)
qed

section \<open>Concrete spans\<close>

definition demo_span_board :: string where
  "demo_span_board = ''0123abcd-0000-4000-8000-000000000008''"

definition demo_attributes :: attributes where
  "demo_attributes = [(''http.target'', WStr (''/api/v1/boards/'' @ demo_span_board @ ''/elements''))]"

theorem iso_week_keys_witness:
  "isoWeekKey utc 1767139200000 = isoWeekKey utc 1767484799999 \<and> isoWeekKey utc 1767139200000 = ''2026-W01''"
proof -
  have "isoWeekKey utc 1767139200000 = isoWeekKey utc 1767484799999 \<longleftrightarrow> week_of 1767139200000 = week_of 1767484799999"
    using iso_week_keys[of 1767139200000 1767484799999] by simp
  moreover have "week_of 1767139200000 = week_of 1767484799999" by (simp add: week_of_def DAY_MS_def)
  moreover have "isoWeekKey utc 1767139200000 = ''2026-W01''" by code_simp
  ultimately show ?thesis by simp
qed

theorem rotation_is_stable_witness:
  "shouldSample (\<lambda>_. RECORD) 1767484799999 (Some demo_attributes) = RECORD_AND_SAMPLED"
proof -
  have i: "boardIdFromAttributes (Some demo_attributes) = Some demo_span_board" by code_simp
  have w: "week_of 1767139200000 = week_of 1767484799999" by (simp add: week_of_def DAY_MS_def)
  have s: "shouldSample (\<lambda>_. NOT_RECORD) 1767139200000 (Some demo_attributes) = RECORD_AND_SAMPLED"
  proof -
    have "isoWeekKey utc 1767139200000 = ''2026-W01''" by code_simp
    moreover have "rotationDecisionForBoard demo_span_board ''2026-W01''"
      by (simp add: rotationDecisionForBoard_def fnv1a_def demo_span_board_def BOARD_ROTATION_PERCENT_def)
    ultimately show ?thesis using i by (simp add: shouldSample_def demo_span_board_def)
  qed
  show ?thesis using rotation_is_stable[OF _ _ w i i s] by simp
qed

theorem load_lock_spans_exported_witness:
  "onEnd (command_span ''set'' (boardLoadLockKey demo_span_board) ''[4 other arguments]'') [] =
    [command_span ''set'' (boardLoadLockKey demo_span_board) ''[4 other arguments]'']"
  using load_lock_spans_exported[of "''set''" "''[4 other arguments]''" demo_span_board "[]"]
  by (simp add: demo_span_board_def hex_digit_def)

end
