(* ===== verification/Metrics.thy ===== *)
theory Metrics
  imports JS_Values Board_Keys
begin

text \<open>
  The metrics of a process (\<open>platform/observability/metrics.ts\<close>) and the samplers that run when they are
  scraped (\<open>app/metrics-collectors.ts\<close>). The Prometheus client is third-party code: the state keeps the
  calls it gets, and \<open>fails\<close> says which of them it answers with an exception. The lemmas show that the
  client gets declared series only, whatever the callers pass, and that one failing sampler does not stop
  the others.
\<close>

section \<open>The catalogue\<close>

datatype metric_type = Counter | Summary | Histogram | Gauge

record metric_spec =
  ms_type :: metric_type
  ms_help :: string
  ms_buckets :: "rat list"
  ms_labelNames :: "string list option"

definition HISTOGRAM_LOCK_BUCKETS :: "rat list" where
  "HISTOGRAM_LOCK_BUCKETS = [5 / 1000, 1 / 100, 25 / 1000, 5 / 100, 1 / 10, 25 / 100, 5 / 10, 1, 2, 5]"

definition HISTOGRAM_HANDLER_BUCKETS :: "rat list" where
  "HISTOGRAM_HANDLER_BUCKETS = [1 / 1000, 5 / 1000, 1 / 100, 25 / 1000, 5 / 100, 1 / 10, 25 / 100, 5 / 10, 1]"

definition JOB_QUEUES :: "(string \<times> string) list" where
  "JOB_QUEUES = [(''boardPersistFlush'', ''board-persist-flush''), (''boardMaintenance'', ''board-maintenance''),
     (''domainEvents'', ''board-mutations''), (''domainControlEvents'', ''board-control-events''), (''boardPreview'', ''board-preview''),
     (''domainEventsDlq'', ''domain-events-dlq'')]"

definition KNOWN_QUEUES :: "string list" where
  "KNOWN_QUEUES = [''board-persist-flush'', ''board-maintenance'', ''board-preview'', ''board-mutations'', ''board-control-events'']"

definition METRIC_CATALOG :: "(string \<times> metric_spec) list" where
  "METRIC_CATALOG = [
     (''redis_commands_total'', \<lparr>ms_type = Counter, ms_help = ''Redis commands issued, grouped by bounded category and command name'', ms_buckets = [], ms_labelNames = Some [''category'', ''command'']\<rparr>),
     (''flush_rows_persisted_total'', \<lparr>ms_type = Counter, ms_help = ''Element rows upserted/deleted in Postgres by board state flushes'', ms_buckets = [], ms_labelNames = None\<rparr>),
     (''legacy_requests_total'', \<lparr>ms_type = Counter, ms_help = ''Requests served by the legacy unversioned API routes'', ms_buckets = [], ms_labelNames = None\<rparr>),
     (''oauth_fragment_tokens_total'', \<lparr>ms_type = Counter, ms_help = ''OAuth callbacks that emitted access/refresh tokens in the redirect fragment'', ms_buckets = [], ms_labelNames = None\<rparr>),
     (''bullmq_jobs_failed_total'', \<lparr>ms_type = Counter, ms_help = ''BullMQ jobs that exhausted or failed an attempt'', ms_buckets = [], ms_labelNames = Some [''queue'']\<rparr>),
     (''domain_events_enqueue_failed_total'', \<lparr>ms_type = Counter, ms_help = ''Cross-app domain event enqueues that failed (delivery degraded, primary result unaffected)'', ms_buckets = [], ms_labelNames = None\<rparr>),
     (''socketio_client_events_total'', \<lparr>ms_type = Counter, ms_help = ''Socket.IO client events received'', ms_buckets = [], ms_labelNames = Some [''event'']\<rparr>),
     (''socketio_handler_errors_total'', \<lparr>ms_type = Counter, ms_help = ''Socket.IO handler executions that threw'', ms_buckets = [], ms_labelNames = Some [''event'']\<rparr>),
     (''socketio_throttled_events_total'', \<lparr>ms_type = Counter, ms_help = ''Client events dropped by per-socket rate limiting or byte caps'', ms_buckets = [], ms_labelNames = Some [''event'']\<rparr>),
     (''mutation_apply_change_set_duration_ms'', \<lparr>ms_type = Summary, ms_help = ''Time to apply one element change set against Redis board state (ms)'', ms_buckets = [], ms_labelNames = None\<rparr>),
     (''flush_duration_ms'', \<lparr>ms_type = Summary, ms_help = ''Duration of a full dirty-board flush cycle (ms)'', ms_buckets = [], ms_labelNames = None\<rparr>),
     (''mutation_process_batch_duration_ms'', \<lparr>ms_type = Summary, ms_help = ''Duration of a mutation processBatch call (ms)'', ms_buckets = [], ms_labelNames = None\<rparr>),
     (''mutation_lock_acquisition_duration_seconds'', \<lparr>ms_type = Histogram, ms_help = ''Time spent acquiring the per-board mutation lock (local queue + Redis SET NX)'', ms_buckets = HISTOGRAM_LOCK_BUCKETS, ms_labelNames = None\<rparr>),
     (''socketio_handler_duration_seconds'', \<lparr>ms_type = Histogram, ms_help = ''Socket.IO handler execution duration'', ms_buckets = HISTOGRAM_HANDLER_BUCKETS, ms_labelNames = Some [''event'']\<rparr>),
     (''board_dirty_backlog'', \<lparr>ms_type = Gauge, ms_help = ''Number of boards waiting for persistence flush'', ms_buckets = [], ms_labelNames = None\<rparr>),
     (''board_dirty_age_max_seconds'', \<lparr>ms_type = Gauge, ms_help = ''Age of the oldest dirty-board marker in seconds'', ms_buckets = [], ms_labelNames = None\<rparr>),
     (''queue_depth'', \<lparr>ms_type = Gauge, ms_help = ''Jobs waiting or delayed per queue'', ms_buckets = [], ms_labelNames = Some [''queue'']\<rparr>),
     (''queue_oldest_age_seconds'', \<lparr>ms_type = Gauge, ms_help = ''Age of the oldest waiting/delayed job per queue'', ms_buckets = [], ms_labelNames = Some [''queue'']\<rparr>),
     (''dlq_depth'', \<lparr>ms_type = Gauge, ms_help = ''Dead-letter queue depth (populated from P2a onwards)'', ms_buckets = [], ms_labelNames = None\<rparr>),
     (''db_pool_clients_active'', \<lparr>ms_type = Gauge, ms_help = ''Postgres backends in active (non-idle) state for this application_name'', ms_buckets = [], ms_labelNames = None\<rparr>),
     (''db_pool_clients_idle'', \<lparr>ms_type = Gauge, ms_help = ''Postgres idle backends for this application_name'', ms_buckets = [], ms_labelNames = None\<rparr>),
     (''db_pool_max_connections'', \<lparr>ms_type = Gauge, ms_help = ''Configured pool size cap for this application'', ms_buckets = [], ms_labelNames = None\<rparr>),
     (''socketio_connected_sockets'', \<lparr>ms_type = Gauge, ms_help = ''Currently connected Socket.IO sockets on this replica'', ms_buckets = [], ms_labelNames = None\<rparr>)]"

section \<open>The registry\<close>

type_synonym labels = "(string \<times> string) list"

datatype prom_call =
    Create metric_type string "string list"
    \<comment> \<open>a new metric with its label names\<close>
  | Change metric_type string "labels option" rat
    \<comment> \<open>\<open>inc\<close>, \<open>observe\<close> or \<open>set\<close>\<close>

type_synonym prom_client = "prom_call list \<Rightarrow> prom_call \<Rightarrow> bool"

record metrics =
  mt_maps :: "metric_type \<Rightarrow> string list"
    \<comment> \<open>the keys of the maps \<open>counters\<close>, \<open>summaries\<close>, \<open>histograms\<close> and \<open>gauges\<close>\<close>
  mt_warned :: "string list"
  mt_calls :: "prom_call list"

definition specFor :: "string \<Rightarrow> metric_spec option" where
  "specFor name = js_get name METRIC_CATALOG"

definition spec_of_type :: "metric_type \<Rightarrow> string \<Rightarrow> metric_spec option" where
  \<comment> \<open>\<open>counterSpec\<close>, \<open>histogramSpec\<close>, \<open>gaugeSpec\<close>; \<open>None\<close> is their exception\<close>
  "spec_of_type t name = (case specFor name of None \<Rightarrow> None | Some spec \<Rightarrow> if ms_type spec = t then Some spec else None)"

definition warnOnce :: "string \<Rightarrow> metrics \<Rightarrow> metrics" where
  "warnOnce message m = (if message \<in> set (mt_warned m) then m else m\<lparr>mt_warned := mt_warned m @ [message]\<rparr>)"

datatype sanitized = Drop | Keep "labels option"

fun take_declared :: "string \<Rightarrow> string list \<Rightarrow> labels \<Rightarrow> labels \<Rightarrow> metrics \<Rightarrow> labels option \<times> metrics" where
  \<comment> \<open>the loop over the declared labels\<close>
  "take_declared name [] labels acc m = (Some acc, m)"
| "take_declared name (key # keys) labels acc m = (case js_get key labels of
     None \<Rightarrow> (None, warnOnce (''metric '' @ name @ '' missing declared label \"'' @ key @ ''\"; update dropped'') m)
   | Some v \<Rightarrow> take_declared name keys labels (js_put key v acc) m)"

definition warn_undeclared :: "string \<Rightarrow> string list \<Rightarrow> labels \<Rightarrow> metrics \<Rightarrow> metrics" where
  "warn_undeclared name allowed labels m = fold (\<lambda>(key, v) m. if key \<in> set allowed then m
     else warnOnce (''metric '' @ name @ '' got undeclared label \"'' @ key @ ''\"; stripped'') m) labels m"

definition sanitizeLabels :: "string \<Rightarrow> string list option \<Rightarrow> labels option \<Rightarrow> metrics \<Rightarrow> sanitized \<times> metrics" where
  "sanitizeLabels name allowed labels m = (let given = (case labels of None \<Rightarrow> [] | Some ls \<Rightarrow> ls) in
     case allowed of
       None \<Rightarrow> (Keep None, if given \<noteq> [] then warnOnce (''metric '' @ name @ '' declares no labels; dropping supplied labels'') m else m)
     | Some names \<Rightarrow>
         if names = [] then (Keep None, if given \<noteq> [] then warnOnce (''metric '' @ name @ '' declares no labels; dropping supplied labels'') m else m)
         else (case take_declared name names given [] m of
             (None, m) \<Rightarrow> (Drop, m)
           | (Some sanitized, m) \<Rightarrow> (Keep (Some sanitized), warn_undeclared name names given m)))"

definition call_client :: "prom_client \<Rightarrow> prom_call \<Rightarrow> metrics \<Rightarrow> bool \<times> metrics" where
  \<comment> \<open>whether the client throws\<close>
  "call_client fails c m = (fails (mt_calls m) c, m\<lparr>mt_calls := mt_calls m @ [c]\<rparr>)"

definition prom_metric :: "prom_client \<Rightarrow> metric_type \<Rightarrow> string \<Rightarrow> metric_spec \<Rightarrow> metrics \<Rightarrow> bool \<times> metrics" where
  \<comment> \<open>\<open>promCounter\<close>, \<open>promSummary\<close>, \<open>promHistogram\<close>, \<open>promGauge\<close>: whether creating the metric throws\<close>
  "prom_metric fails t name spec m = (if name \<in> set (mt_maps m t) then (False, m)
     else (case call_client fails (Create t name (case ms_labelNames spec of None \<Rightarrow> [] | Some names \<Rightarrow> names)) m of
         (True, m) \<Rightarrow> (True, m)
       | (False, m) \<Rightarrow> (False, m\<lparr>mt_maps := (mt_maps m)(t := mt_maps m t @ [name])\<rparr>)))"

definition update_metric :: "prom_client \<Rightarrow> metric_type \<Rightarrow> string \<Rightarrow> metric_spec \<Rightarrow> labels option \<Rightarrow> rat \<Rightarrow> metrics \<Rightarrow> metrics" where
  "update_metric fails t name spec labels v m = (case prom_metric fails t name spec m of
     (True, m) \<Rightarrow> m
   | (False, m) \<Rightarrow> snd (call_client fails (Change t name labels v) m))"

definition labelled_update :: "prom_client \<Rightarrow> metric_type \<Rightarrow> string \<Rightarrow> rat \<Rightarrow> labels option \<Rightarrow> metrics \<Rightarrow> metrics" where
  \<comment> \<open>\<open>incrementCounter\<close>, \<open>observeDuration\<close> and \<open>setGauge\<close>, with their \<open>try\<close>: exceptions are logged only\<close>
  "labelled_update fails t name v labels m = (case spec_of_type t name of
     None \<Rightarrow> m
   | Some spec \<Rightarrow> (case sanitizeLabels name (ms_labelNames spec) labels m of
       (Drop, m) \<Rightarrow> m
     | (Keep kept, m) \<Rightarrow> update_metric fails t name spec kept v m))"

definition incrementCounter :: "prom_client \<Rightarrow> string \<Rightarrow> rat \<Rightarrow> labels option \<Rightarrow> metrics \<Rightarrow> metrics" where
  "incrementCounter fails = labelled_update fails Counter"

definition observeDuration :: "prom_client \<Rightarrow> string \<Rightarrow> rat \<Rightarrow> labels option \<Rightarrow> metrics \<Rightarrow> metrics" where
  "observeDuration fails = labelled_update fails Histogram"

definition setGauge :: "prom_client \<Rightarrow> string \<Rightarrow> rat \<Rightarrow> labels option \<Rightarrow> metrics \<Rightarrow> metrics" where
  "setGauge fails = labelled_update fails Gauge"

definition observeTiming :: "prom_client \<Rightarrow> string \<Rightarrow> rat \<Rightarrow> metrics \<Rightarrow> metrics" where
  \<comment> \<open>no label names are passed to the client, and the type of the metric is not checked\<close>
  "observeTiming fails name valueMs m = (case specFor name of None \<Rightarrow> m
     | Some spec \<Rightarrow> update_metric fails Summary name (spec\<lparr>ms_labelNames := None\<rparr>) None valueMs m)"

definition createRuntimeMetrics :: "prom_client \<Rightarrow> metrics" where
  \<comment> \<open>without the default metrics of the client\<close>
  "createRuntimeMetrics fails =
     setGauge fails ''dlq_depth'' 0 None
       (fold (\<lambda>queue m. setGauge fails ''queue_oldest_age_seconds'' 0 (Some [(''queue'', queue)])
                          (setGauge fails ''queue_depth'' 0 (Some [(''queue'', queue)]) m))
          KNOWN_QUEUES \<lparr>mt_maps = (\<lambda>_. []), mt_warned = [], mt_calls = []\<rparr>)"

section \<open>Samplers\<close>

definition board_dirty_collector :: "prom_client \<Rightarrow> number_text \<Rightarrow> int option \<Rightarrow> string list option \<Rightarrow> int \<Rightarrow> metrics \<Rightarrow> bool \<times> metrics" where
  \<comment> \<open>with the answers to \<open>SCARD\<close> and \<open>ZRANGE ... WITHSCORES\<close>, \<open>None\<close> if they fail; whether it rejects\<close>
  "board_dirty_collector fails N backlog oldest now m = (case backlog of None \<Rightarrow> (True, m)
     | Some n \<Rightarrow> (let m = setGauge fails ''board_dirty_backlog'' (of_int n) None m in
         case oldest of None \<Rightarrow> (True, m)
         | Some xs \<Rightarrow> (let ageSeconds = (case (if 2 \<le> length xs then nt_read N (xs ! 1) else NaN) of
               Fin t \<Rightarrow> if t > 0 then max 0 ((of_int now - t) / 1000) else 0 | _ \<Rightarrow> 0)
             in (False, setGauge fails ''board_dirty_age_max_seconds'' ageSeconds None m))))"

record queue_sample =
  qs_name :: string
  qs_counts :: "(int option \<times> int option) option"
    \<comment> \<open>\<open>waiting\<close> and \<open>delayed\<close>\<close>
  qs_oldest :: "rat option option"
    \<comment> \<open>the timestamp of the oldest job, if there is one with a number\<close>

definition int_or_zero :: "int option \<Rightarrow> int" where
  "int_or_zero n = (case n of None \<Rightarrow> 0 | Some k \<Rightarrow> k)"

fun queue_collector :: "prom_client \<Rightarrow> queue_sample list \<Rightarrow> int \<Rightarrow> metrics \<Rightarrow> bool \<times> metrics" where
  "queue_collector fails [] now m = (False, m)"
| "queue_collector fails (q # qs) now m = (case qs_counts q of None \<Rightarrow> (True, m)
     | Some (waiting, delayed) \<Rightarrow>
         (let m = setGauge fails ''queue_depth'' (of_int (int_or_zero waiting + int_or_zero delayed)) (Some [(''queue'', qs_name q)]) m in
          case qs_oldest q of None \<Rightarrow> (True, m)
          | Some t \<Rightarrow> queue_collector fails qs now (setGauge fails ''queue_oldest_age_seconds''
              (case t of None \<Rightarrow> 0 | Some t \<Rightarrow> max 0 ((of_int now - t) / 1000)) (Some [(''queue'', qs_name q)]) m)))"

definition dlq_collector :: "prom_client \<Rightarrow> (int option \<times> int option) option option \<Rightarrow> metrics \<Rightarrow> bool \<times> metrics" where
  \<comment> \<open>the counts of the dead-letter queue, if there is one\<close>
  "dlq_collector fails counts m = (case counts of None \<Rightarrow> (False, m)
     | Some None \<Rightarrow> (True, m)
     | Some (Some (waiting, completed)) \<Rightarrow> (False, setGauge fails ''dlq_depth'' (of_int (int_or_zero waiting + int_or_zero completed)) None m))"

definition pool_counts :: "(string option \<times> int) list \<Rightarrow> int \<times> int" where
  \<comment> \<open>active and idle\<close>
  "pool_counts rows = fold (\<lambda>(state, count) (active, idle). case state of None \<Rightarrow> (active, idle)
     | Some s \<Rightarrow> if s = ''idle'' then (active, idle + count) else (active + count, idle)) rows (0, 0)"

definition db_pool_collector :: "prom_client \<Rightarrow> (string option \<times> int) list option \<Rightarrow> metrics \<Rightarrow> bool \<times> metrics" where
  "db_pool_collector fails rows m = (case rows of None \<Rightarrow> (True, m)
     | Some rows \<Rightarrow> (case pool_counts rows of (active, idle) \<Rightarrow>
         (False, setGauge fails ''db_pool_clients_idle'' (of_int idle) None (setGauge fails ''db_pool_clients_active'' (of_int active) None m))))"

definition scrape :: "(metrics \<Rightarrow> bool \<times> metrics) list \<Rightarrow> metrics \<Rightarrow> bool list \<times> metrics" where
  \<comment> \<open>\<open>allSettled\<close>: which samplers rejected; they set gauges of their own, so they are run one after the other\<close>
  "scrape collectors m = fold (\<lambda>collector (rejected, m). case collector m of (r, m) \<Rightarrow> (rejected @ [r], m)) collectors ([], m)"

section \<open>What the client gets\<close>

definition declared :: "metric_spec \<Rightarrow> string list" where
  "declared spec = (case ms_labelNames spec of None \<Rightarrow> [] | Some names \<Rightarrow> names)"

fun label_keys :: "labels option \<Rightarrow> string list" where
  "label_keys None = []"
| "label_keys (Some labels) = map fst labels"

definition of_catalog :: "metric_type \<Rightarrow> string \<Rightarrow> string list \<Rightarrow> bool" where
  "of_catalog t name names = (case specFor name of None \<Rightarrow> False | Some spec \<Rightarrow> ms_type spec = t \<and> declared spec = names)"

definition created :: "prom_client \<Rightarrow> metric_type \<Rightarrow> string \<Rightarrow> string list \<Rightarrow> prom_call list \<Rightarrow> bool" where
  \<comment> \<open>one of the calls created the metric and did not fail\<close>
  "created fails t name names calls = (\<exists>u v. calls = u @ Create t name names # v \<and> \<not> fails u (Create t name names))"

fun legal_call :: "prom_client \<Rightarrow> prom_call list \<Rightarrow> prom_call \<Rightarrow> bool" where
  \<comment> \<open>after these calls: a metric is created from the catalogue, and again only if that failed; it is changed
    only after that succeeded, with exactly its declared labels\<close>
  "legal_call fails before (Create t name names) = (of_catalog t name names \<and>
     (\<forall>u v. before = u @ Create t name names # v \<longrightarrow> fails u (Create t name names)))"
| "legal_call fails before (Change t name labels v) = (of_catalog t name (label_keys labels) \<and>
     created fails t name (label_keys labels) before)"

definition legal_calls :: "prom_client \<Rightarrow> prom_call list \<Rightarrow> bool" where
  "legal_calls fails calls = (\<forall>u c v. calls = u @ c # v \<longrightarrow> legal_call fails u c)"

definition metrics_ok :: "prom_client \<Rightarrow> metrics \<Rightarrow> bool" where
  "metrics_ok fails m \<longleftrightarrow> distinct (mt_warned m) \<and> legal_calls fails (mt_calls m) \<and>
     (\<forall>t name names. of_catalog t name names \<longrightarrow> (name \<in> set (mt_maps m t) \<longleftrightarrow> created fails t name names (mt_calls m)))"

lemma legal_calls_snoc: "legal_calls fails (calls @ [c]) \<longleftrightarrow> legal_calls fails calls \<and> legal_call fails calls c"
proof
  show "legal_calls fails (calls @ [c])" if "legal_calls fails calls \<and> legal_call fails calls c"
    unfolding legal_calls_def
  proof (intro allI impI)
    fix u d v assume *: "calls @ [c] = u @ d # v"
    show "legal_call fails u d"
    proof (cases v rule: rev_cases)
      case Nil with * that show ?thesis by simp
    next
      case (snoc v' x) with * that show ?thesis by (simp add: legal_calls_def)
    qed
  qed
qed (auto simp: legal_calls_def)

lemma created_snoc:
  "created fails t name names (calls @ [c]) \<longleftrightarrow> created fails t name names calls \<or> c = Create t name names \<and> \<not> fails calls c"
  (is "?l \<longleftrightarrow> ?r")
proof
  assume ?l
  then obtain u v where *: "calls @ [c] = u @ Create t name names # v" "\<not> fails u (Create t name names)" by (auto simp: created_def)
  show ?r
  proof (cases v rule: rev_cases)
    case Nil with * show ?thesis by simp
  next
    case (snoc v' x) with * show ?thesis by (auto simp: created_def)
  qed
next
  show "?r \<Longrightarrow> ?l" unfolding created_def by (metis append_Cons append_assoc append_Nil2 append_Nil)
qed

lemma catalog_fixes: "of_catalog t name names \<Longrightarrow> of_catalog t' name names' \<Longrightarrow> t' = t \<and> names' = names"
  by (auto simp: of_catalog_def split: option.splits)

lemma warn_ok: "metrics_ok fails m \<Longrightarrow> metrics_ok fails (warnOnce message m)"
  by (auto simp: metrics_ok_def warnOnce_def)

lemma warn_undeclared_ok: "metrics_ok fails m \<Longrightarrow> metrics_ok fails (warn_undeclared name allowed labels m)"
  unfolding warn_undeclared_def by (induction labels arbitrary: m) (auto simp: warn_ok)

lemma take_declared_result:
  assumes "take_declared name keys labels acc m = (r, m')" "metrics_ok fails m" "distinct (map fst acc @ keys)"
  shows "metrics_ok fails m' \<and> (\<forall>ls. r = Some ls \<longrightarrow> map fst ls = map fst acc @ keys)"
  using assms
proof (induction keys arbitrary: acc m)
  case (Cons key keys)
  show ?case
  proof (cases "js_get key labels")
    case None
    then show ?thesis using Cons.prems by (auto simp: warn_ok)
  next
    case (Some v)
    have "map fst (js_put key v acc) = map fst acc @ [key]" using Cons.prems(3) by (auto simp: keys_js_put js_add_def)
    then show ?thesis using Cons.IH[of "js_put key v acc" m] Cons.prems Some by simp
  qed
qed auto

lemma catalog_labels: "specFor name = Some spec \<Longrightarrow> distinct (declared spec)"
proof -
  have "\<forall>spec \<in> snd ` set METRIC_CATALOG. distinct (declared spec)" by (simp add: METRIC_CATALOG_def declared_def)
  then show "specFor name = Some spec \<Longrightarrow> distinct (declared spec)" 
    by (auto simp: specFor_def js_get_def dest!: map_of_SomeD)
qed

lemma sanitize_result:
  assumes "sanitizeLabels name (ms_labelNames spec) labels m = (r, m')" "metrics_ok fails m" "distinct (declared spec)"
  shows "metrics_ok fails m' \<and> (\<forall>kept. r = Keep kept \<longrightarrow> label_keys kept = declared spec)"
proof (cases "declared spec = []")
  case True
  then show ?thesis using assms(1,2) by (auto simp: sanitizeLabels_def declared_def Let_def warn_ok split: option.splits)
next
  case False
  then obtain names where names: "ms_labelNames spec = Some names" "declared spec = names" "names \<noteq> []"
    by (auto simp: declared_def split: option.splits)
  define given where "given = (case labels of None \<Rightarrow> [] | Some ls \<Rightarrow> ls)"
  obtain taken m1 where t: "take_declared name names given [] m = (taken, m1)" by fastforce
  have "metrics_ok fails m1 \<and> (\<forall>ls. taken = Some ls \<longrightarrow> map fst ls = names)"
    using take_declared_result[OF t assms(2)] assms(3) names(2) by simp
  then show ?thesis
    using assms(1) names t by (auto simp: sanitizeLabels_def given_def[symmetric] warn_undeclared_ok split: option.splits)
qed

lemma call_ok:
  assumes "metrics_ok fails m" "legal_call fails (mt_calls m) c" "\<forall>t name names. c \<noteq> Create t name names"
  shows "metrics_ok fails (snd (call_client fails c m))"
  using assms by (auto simp: metrics_ok_def call_client_def legal_calls_snoc created_snoc)

lemma prom_metric_ok:
  assumes "metrics_ok fails m" "of_catalog t name (case ms_labelNames spec of None \<Rightarrow> [] | Some names \<Rightarrow> names)"
    and "prom_metric fails t name spec m = (thrown, m')"
  shows "metrics_ok fails m' \<and> (\<not> thrown \<longrightarrow> created fails t name (case ms_labelNames spec of None \<Rightarrow> [] | Some names \<Rightarrow> names) (mt_calls m'))"
proof (cases "name \<in> set (mt_maps m t)")
  case True
  then show ?thesis using assms by (auto simp: prom_metric_def metrics_ok_def)
next
  case False
  let ?names = "case ms_labelNames spec of None \<Rightarrow> [] | Some names \<Rightarrow> names"
  let ?c = "Create t name ?names"
  have none: "\<not> created fails t name ?names (mt_calls m)" using False assms(1,2) by (auto simp: metrics_ok_def)
  then have legal: "legal_call fails (mt_calls m) ?c" using assms(2) by (auto simp: created_def)
  show ?thesis
  proof (cases "fails (mt_calls m) ?c")
    case True
    then have m': "thrown" "m' = m\<lparr>mt_calls := mt_calls m @ [?c]\<rparr>"
      using False assms(3) by (auto simp: prom_metric_def call_client_def)
    then show ?thesis using assms(1) legal True by (auto simp: metrics_ok_def legal_calls_snoc created_snoc)
  next
    case ok: False
    then have m': "m' = m\<lparr>mt_calls := mt_calls m @ [?c], mt_maps := (mt_maps m)(t := mt_maps m t @ [name])\<rparr>"
      using False assms(3) by (auto simp: prom_metric_def call_client_def)
    have "name' \<in> set (mt_maps m' t') \<longleftrightarrow> created fails t' name' names (mt_calls m')" if "of_catalog t' name' names" for t' name' names
      using that assms(1,2) ok catalog_fixes[of t name ?names t' names]
      by (auto simp: m' metrics_ok_def created_snoc)
    moreover have "legal_calls fails (mt_calls m')" "distinct (mt_warned m')"
      using assms(1) legal by (auto simp: m' metrics_ok_def legal_calls_snoc)
    ultimately show ?thesis using ok by (auto simp: metrics_ok_def m' created_snoc)
  qed
qed

lemma update_ok:
  assumes "metrics_ok fails m" "of_catalog t name (label_keys labels)"
    and "(case ms_labelNames spec of None \<Rightarrow> [] | Some names \<Rightarrow> names) = label_keys labels"
  shows "metrics_ok fails (update_metric fails t name spec labels v m)"
proof -
  obtain thrown m' where p: "prom_metric fails t name spec m = (thrown, m')" by fastforce
  note r = prom_metric_ok[OF assms(1) _ p, unfolded assms(3), OF assms(2)]
  show ?thesis
  proof (cases thrown)
    case True
    then show ?thesis using r by (simp add: update_metric_def p)
  next
    case False
    then have "legal_call fails (mt_calls m') (Change t name labels v)" using r assms(2) by simp
    then show ?thesis using r call_ok[of fails m' "Change t name labels v"] False by (simp add: update_metric_def p)
  qed
qed

lemma labelled_ok: "metrics_ok fails m \<Longrightarrow> metrics_ok fails (labelled_update fails t name v labels m)"
proof -
  assume ok: "metrics_ok fails m"
  show ?thesis
  proof (cases "spec_of_type t name")
    case (Some spec)
    then have spec: "specFor name = Some spec" "ms_type spec = t" by (auto simp: spec_of_type_def split: option.splits if_splits)
    obtain r m' where s: "sanitizeLabels name (ms_labelNames spec) labels m = (r, m')" by fastforce
    note result = sanitize_result[OF s ok catalog_labels[OF spec(1)]]
    show ?thesis
    proof (cases r)
      case (Keep kept)
      have "metrics_ok fails (update_metric fails t name spec kept v m')"
        by (rule update_ok) (use result Keep spec in \<open>auto simp: of_catalog_def declared_def\<close>)
      then show ?thesis by (simp add: labelled_update_def Some s Keep)
    qed (use result in \<open>simp add: labelled_update_def Some s\<close>)
  qed (simp add: labelled_update_def ok)
qed

section \<open>Whatever the callers do\<close>

datatype metric_op =
    Increment string rat "labels option"
  | Duration string rat "labels option"
  | Set_gauge string rat "labels option"
  | Timing string rat
    \<comment> \<open>of a metric whose type is \<open>Summary\<close>, as TypeScript checks\<close>

fun apply_op :: "prom_client \<Rightarrow> metric_op \<Rightarrow> metrics \<Rightarrow> metrics" where
  "apply_op fails (Increment name v labels) = incrementCounter fails name v labels"
| "apply_op fails (Duration name v labels) = observeDuration fails name v labels"
| "apply_op fails (Set_gauge name v labels) = setGauge fails name v labels"
| "apply_op fails (Timing name v) = (if spec_of_type Summary name = None then id else observeTiming fails name v)"

lemma catalog_summaries: "specFor name = Some spec \<Longrightarrow> ms_type spec = Summary \<Longrightarrow> declared spec = []"
proof -
  have "\<forall>spec \<in> snd ` set METRIC_CATALOG. ms_type spec = Summary \<longrightarrow> declared spec = []" by (simp add: METRIC_CATALOG_def declared_def)
  then show "specFor name = Some spec \<Longrightarrow> ms_type spec = Summary \<Longrightarrow> declared spec = []" 
    by (auto simp: specFor_def js_get_def dest!: map_of_SomeD)
qed

lemma op_ok: "metrics_ok fails m \<Longrightarrow> metrics_ok fails (apply_op fails op m)"
proof (cases op)
  case (Timing name v)
  assume ok: "metrics_ok fails m"
  show ?thesis
  proof (cases "spec_of_type Summary name")
    case (Some spec)
    then have spec: "specFor name = Some spec" "ms_type spec = Summary" by (auto simp: spec_of_type_def split: option.splits if_splits)
    have "metrics_ok fails (update_metric fails Summary name (spec\<lparr>ms_labelNames := None\<rparr>) None v m)"
      by (rule update_ok) (use ok spec catalog_summaries[OF spec] in \<open>auto simp: of_catalog_def\<close>)
    then show ?thesis using Some by (simp add: Timing observeTiming_def spec(1))
  qed (simp add: Timing ok)
qed (simp_all add: incrementCounter_def observeDuration_def setGauge_def labelled_ok)

lemma new_metrics_ok: "metrics_ok fails (createRuntimeMetrics fails)"
proof -
  have start: "metrics_ok fails \<lparr>mt_maps = (\<lambda>_. []), mt_warned = [], mt_calls = []\<rparr>"
    by (simp add: metrics_ok_def legal_calls_def created_def)
  have "metrics_ok fails m \<Longrightarrow> metrics_ok fails (fold (\<lambda>queue m. setGauge fails ''queue_oldest_age_seconds'' 0 (Some [(''queue'', queue)])
      (setGauge fails ''queue_depth'' 0 (Some [(''queue'', queue)]) m)) queues m)" for m queues
    by (induction queues arbitrary: m) (simp_all add: setGauge_def labelled_ok)
  from labelled_ok[OF this[OF start]] show ?thesis by (simp only: createRuntimeMetrics_def setGauge_def)
qed

text \<open>C32: Whatever names, labels and values the program passes, and whichever calls the client fails on: the client gets metrics
  of the catalogue only, each created once unless the client refused it, and changes them only after the creation succeeded, with
  exactly their declared labels; and no warning is logged twice.\<close>

theorem metric_calls_declared:
  "distinct (mt_warned (fold (apply_op fails) ops (createRuntimeMetrics fails))) \<and>
   legal_calls fails (mt_calls (fold (apply_op fails) ops (createRuntimeMetrics fails)))"
proof -
  have "metrics_ok fails m \<Longrightarrow> metrics_ok fails (fold (apply_op fails) ops m)" for m
    by (induction ops arbitrary: m) (simp_all add: op_ok)
  from this[OF new_metrics_ok] show ?thesis by (simp add: metrics_ok_def)
qed

text \<open>What the sampler of the pool counts: every connection with a state is active or idle.\<close>

lemma pool_counts_sum:
  "pool_counts rows = (a, i) \<Longrightarrow> a + i = sum_list (map snd (filter (\<lambda>(state, n). state \<noteq> None) rows))"
proof -
  have "fold (\<lambda>(state, count) (active, idle). case state of None \<Rightarrow> (active, idle)
      | Some s \<Rightarrow> if s = ''idle'' then (active, idle + count) else (active + count, idle)) rows (x, y) = (a, i) \<Longrightarrow>
      a + i = x + y + sum_list (map snd (filter (\<lambda>(state, n). state \<noteq> None) rows))" for x y
    by (induction rows arbitrary: x y) (auto split: option.splits if_splits)
  from this[of 0 0] show "pool_counts rows = (a, i) \<Longrightarrow> ?thesis" by (simp add: pool_counts_def)
qed

end
