(* ===== verification/Config.thy ===== *)
theory Config
  imports Event_Bus JS_Values
begin

text \<open>
  The configuration of a process (\<open>shared/config.ts\<close>): environment variables are parsed by a schema, a
  missing or malformed one ends the start (\<open>None\<close>). The lemmas show that flags can be switched off and
  that every accepted setting is within its bounds.
\<close>

type_synonym environment = "(string \<times> string) list"

section \<open>The schema's parts\<close>

definition stringbool :: "string \<Rightarrow> bool option" where
  \<comment> \<open>\<open>z.stringbool()\<close>\<close>
  "stringbool s = (let t = js_lower s in
     if t \<in> set [''true'', ''1'', ''yes'', ''on'', ''y'', ''enabled''] then Some True
     else if t \<in> set [''false'', ''0'', ''no'', ''off'', ''n'', ''disabled''] then Some False else None)"

definition flag :: "environment \<Rightarrow> string \<Rightarrow> bool \<Rightarrow> bool option" where
  "flag env name d = (case js_get name env of None \<Rightarrow> Some d | Some s \<Rightarrow> stringbool s)"

definition number :: "number_text \<Rightarrow> environment \<Rightarrow> string \<Rightarrow> rat \<Rightarrow> rat option" where
  \<comment> \<open>\<open>z.coerce.number()\<close>\<close>
  "number N env name d = (case js_get name env of None \<Rightarrow> Some d
     | Some s \<Rightarrow> (case to_number N (WStr s) of Fin q \<Rightarrow> Some q | _ \<Rightarrow> None))"

definition integer :: "number_text \<Rightarrow> environment \<Rightarrow> string \<Rightarrow> int \<Rightarrow> int option \<Rightarrow> int \<Rightarrow> int option" where
  \<comment> \<open>\<open>.int().min(lo)\<close>, with \<open>.max(hi)\<close> if there is one\<close>
  "integer N env name lo hi d = (case number N env name (of_int d) of None \<Rightarrow> None
     | Some q \<Rightarrow> (case safe_int q of None \<Rightarrow> None
       | Some n \<Rightarrow> if lo \<le> n \<and> (case hi of None \<Rightarrow> True | Some h \<Rightarrow> n \<le> h) then Some n else None))"

definition one_of :: "environment \<Rightarrow> string \<Rightarrow> string list \<Rightarrow> string \<Rightarrow> string option" where
  \<comment> \<open>\<open>z.enum(...).default(d)\<close>\<close>
  "one_of env name values d = (case js_get name env of None \<Rightarrow> Some d | Some s \<Rightarrow> if s \<in> set values then Some s else None)"

definition required :: "environment \<Rightarrow> string \<Rightarrow> nat \<Rightarrow> string option" where
  "required env name len = (case js_get name env of None \<Rightarrow> None | Some s \<Rightarrow> if len \<le> length s then Some s else None)"

definition with_default :: "environment \<Rightarrow> string \<Rightarrow> nat \<Rightarrow> string \<Rightarrow> string option" where
  "with_default env name len d = (case js_get name env of None \<Rightarrow> Some d | Some s \<Rightarrow> if len \<le> length s then Some s else None)"

definition maybe_text :: "environment \<Rightarrow> string \<Rightarrow> nat \<Rightarrow> string option option" where
  \<comment> \<open>\<open>z.string().min(len).optional()\<close>\<close>
  "maybe_text env name len = (case js_get name env of None \<Rightarrow> Some None | Some s \<Rightarrow> if len \<le> length s then Some (Some s) else None)"

definition maybe_one_of :: "environment \<Rightarrow> string \<Rightarrow> string list \<Rightarrow> string option option" where
  "maybe_one_of env name values = (case js_get name env of None \<Rightarrow> Some None | Some s \<Rightarrow> if s \<in> set values then Some (Some s) else None)"

section \<open>The configuration\<close>

record app_config =
  ac_databaseUrl :: string
  ac_dbPoolMax :: int
  ac_dbIdleTimeoutSeconds :: int
  ac_dbConnectTimeoutSeconds :: int
  ac_dbStatementTimeoutMs :: int
  ac_hasRedisUrl :: bool
  ac_redisRealtimeUrl :: string
  ac_redisJobsUrl :: string
  ac_port :: rat
  ac_realtimePort :: int
  ac_metricsPort :: int
  ac_nodeEnv :: string
  ac_corsOrigin :: string
  ac_googleClientId :: string
  ac_googleClientSecret :: string
  ac_googleRedirectUri :: string
  ac_jwtSecret :: string
  ac_jwtExpiresIn :: string
  ac_refreshTokenExpiresDays :: rat
  ac_enableIncrementalPersistence :: bool
  ac_enableTargetedMutationReads :: bool
  ac_presenceWriteThrottleMs :: int
  ac_presenceWriteJitterMs :: int
  ac_enableCleanupActiveIndex :: bool
  ac_eventBusTransport :: string
  ac_queueRedisPrefix :: "string option"
  ac_rateLimitDisabled :: bool
  ac_boardPersistIntervalMs :: int
  ac_redisCleanupIntervalMs :: int
  ac_enableBullBoard :: bool
  ac_enableLegacyApiRoutes :: bool
  ac_enableOauthFragmentTokens :: bool
  ac_bullBoardUsername :: string
  ac_bullBoardPassword :: "string option"
  ac_stripeBillingEnabled :: bool
  ac_stripeSecretKey :: "string option"
  ac_stripePriceStartup :: "string option"
  ac_stripePriceBusiness :: "string option"
  ac_stripeCheckoutSuccessUrl :: "string option"
  ac_stripeCheckoutCancelUrl :: "string option"
  ac_stripePortalReturnUrl :: "string option"
  ac_stripeWebhookSecret :: "string option"

definition database_url :: "environment \<Rightarrow> string option" where
  "database_url env = (case js_get ''DATABASE_URL'' env of None \<Rightarrow> None
     | Some s \<Rightarrow> if starts_with ''postgres://'' s \<or> starts_with ''postgresql://'' s then Some s else None)"

definition loadConfig :: "number_text \<Rightarrow> environment \<Rightarrow> app_config option" where
  "loadConfig N env = do {
     databaseUrl \<leftarrow> database_url env;
     dbPoolMax \<leftarrow> integer N env ''DB_POOL_MAX'' 1 None 10;
     dbIdle \<leftarrow> integer N env ''DB_IDLE_TIMEOUT_SECONDS'' 0 None 20;
     dbConnect \<leftarrow> integer N env ''DB_CONNECT_TIMEOUT_SECONDS'' 1 None 5;
     dbStatement \<leftarrow> integer N env ''DB_STATEMENT_TIMEOUT_MS'' 0 None 15000;
     redis \<leftarrow> maybe_text env ''REDIS_URL'' 0;
     redisRealtime \<leftarrow> maybe_text env ''REDIS_REALTIME_URL'' 0;
     redisJobs \<leftarrow> maybe_text env ''REDIS_JOBS_URL'' 0;
     port \<leftarrow> number N env ''PORT'' 3000;
     realtimePort \<leftarrow> integer N env ''REALTIME_PORT'' 1 (Some 65535) 3001;
     metricsPort \<leftarrow> integer N env ''METRICS_PORT'' 1 (Some 65535) 3002;
     nodeEnv \<leftarrow> one_of env ''NODE_ENV'' [''development'', ''production'', ''test''] ''development'';
     corsOrigin \<leftarrow> with_default env ''CORS_ORIGIN'' 0 ''http://localhost:5173'';
     clientId \<leftarrow> required env ''GOOGLE_CLIENT_ID'' 1;
     clientSecret \<leftarrow> required env ''GOOGLE_CLIENT_SECRET'' 1;
     redirectUri \<leftarrow> required env ''GOOGLE_REDIRECT_URI'' 0;
     jwtSecret \<leftarrow> required env ''JWT_SECRET'' 16;
     jwtExpiresIn \<leftarrow> with_default env ''JWT_EXPIRES_IN'' 0 ''15m'';
     refreshDays \<leftarrow> number N env ''REFRESH_TOKEN_EXPIRES_DAYS'' 7;
     incremental \<leftarrow> flag env ''ENABLE_INCREMENTAL_PERSISTENCE'' True;
     targeted \<leftarrow> flag env ''ENABLE_TARGETED_MUTATION_READS'' True;
     throttle \<leftarrow> integer N env ''PRESENCE_WRITE_THROTTLE_MS'' 0 None 3000;
     jitter \<leftarrow> integer N env ''PRESENCE_WRITE_JITTER_MS'' 0 None 400;
     activeIndex \<leftarrow> flag env ''ENABLE_CLEANUP_ACTIVE_INDEX'' True;
     transport \<leftarrow> one_of env ''EVENT_BUS_TRANSPORT'' [''local'', ''bullmq''] ''local'';
     queuePrefix \<leftarrow> maybe_text env ''QUEUE_REDIS_PREFIX'' 1;
     rateLimitDisabled \<leftarrow> flag env ''RATE_LIMIT_DISABLED'' False;
     persistMs \<leftarrow> integer N env ''BOARD_PERSIST_INTERVAL_MS'' 1000 None 30000;
     cleanupMs \<leftarrow> integer N env ''REDIS_CLEANUP_INTERVAL_MS'' 1000 None 120000;
     bullBoard \<leftarrow> maybe_one_of env ''ENABLE_BULL_BOARD'' [''true'', ''false''];
     legacyRoutes \<leftarrow> flag env ''ENABLE_LEGACY_API_ROUTES'' True;
     fragmentTokens \<leftarrow> flag env ''ENABLE_OAUTH_FRAGMENT_TOKENS'' False;
     bullUser \<leftarrow> with_default env ''BULL_BOARD_USERNAME'' 1 ''admin'';
     bullPassword \<leftarrow> maybe_text env ''BULL_BOARD_PASSWORD'' 8;
     stripeEnabled \<leftarrow> flag env ''STRIPE_BILLING_ENABLED'' False;
     stripeKey \<leftarrow> maybe_text env ''STRIPE_SECRET_KEY'' 0;
     priceStartup \<leftarrow> maybe_text env ''STRIPE_PRICE_STARTUP'' 0;
     priceBusiness \<leftarrow> maybe_text env ''STRIPE_PRICE_BUSINESS'' 0;
     successUrl \<leftarrow> maybe_text env ''STRIPE_CHECKOUT_SUCCESS_URL'' 0;
     cancelUrl \<leftarrow> maybe_text env ''STRIPE_CHECKOUT_CANCEL_URL'' 0;
     portalUrl \<leftarrow> maybe_text env ''STRIPE_PORTAL_RETURN_URL'' 0;
     webhookSecret \<leftarrow> maybe_text env ''STRIPE_WEBHOOK_SECRET'' 0;
     let fallback = (case redis of None \<Rightarrow> ''redis://localhost:6379'' | Some u \<Rightarrow> u);
     Some \<lparr>ac_databaseUrl = databaseUrl, ac_dbPoolMax = dbPoolMax, ac_dbIdleTimeoutSeconds = dbIdle,
       ac_dbConnectTimeoutSeconds = dbConnect, ac_dbStatementTimeoutMs = dbStatement, ac_hasRedisUrl = (redis \<noteq> None),
       ac_redisRealtimeUrl = (case redisRealtime of None \<Rightarrow> fallback | Some u \<Rightarrow> u),
       ac_redisJobsUrl = (case redisJobs of None \<Rightarrow> fallback | Some u \<Rightarrow> u),
       ac_port = port, ac_realtimePort = realtimePort, ac_metricsPort = metricsPort, ac_nodeEnv = nodeEnv,
       ac_corsOrigin = corsOrigin, ac_googleClientId = clientId, ac_googleClientSecret = clientSecret,
       ac_googleRedirectUri = redirectUri, ac_jwtSecret = jwtSecret, ac_jwtExpiresIn = jwtExpiresIn,
       ac_refreshTokenExpiresDays = refreshDays, ac_enableIncrementalPersistence = incremental,
       ac_enableTargetedMutationReads = targeted, ac_presenceWriteThrottleMs = throttle, ac_presenceWriteJitterMs = jitter,
       ac_enableCleanupActiveIndex = activeIndex, ac_eventBusTransport = transport, ac_queueRedisPrefix = queuePrefix,
       ac_rateLimitDisabled = rateLimitDisabled, ac_boardPersistIntervalMs = persistMs, ac_redisCleanupIntervalMs = cleanupMs,
       ac_enableBullBoard = (case bullBoard of Some b \<Rightarrow> b = ''true'' | None \<Rightarrow> nodeEnv \<noteq> ''production''),
       ac_enableLegacyApiRoutes = legacyRoutes, ac_enableOauthFragmentTokens = fragmentTokens,
       ac_bullBoardUsername = bullUser, ac_bullBoardPassword = bullPassword, ac_stripeBillingEnabled = stripeEnabled,
       ac_stripeSecretKey = stripeKey, ac_stripePriceStartup = priceStartup, ac_stripePriceBusiness = priceBusiness,
       ac_stripeCheckoutSuccessUrl = successUrl, ac_stripeCheckoutCancelUrl = cancelUrl,
       ac_stripePortalReturnUrl = portalUrl, ac_stripeWebhookSecret = webhookSecret\<rparr>
   }"

section \<open>What an accepted configuration is\<close>

lemma integer_bounds: "integer N env name lo hi d = Some n \<Longrightarrow> lo \<le> n \<and> (\<forall>h. hi = Some h \<longrightarrow> n \<le> h)"
  by (auto simp: integer_def split: option.splits if_splits)

lemma required_length: "required env name len = Some s \<Longrightarrow> len \<le> length s"
  by (auto simp: required_def split: option.splits if_splits)

lemma maybe_text_length: "maybe_text env name len = Some (Some s) \<Longrightarrow> len \<le> length s"
  by (auto simp: maybe_text_def split: option.splits if_splits)

lemma bind_SomeE:
  assumes "Option.bind m f = Some c"
  obtains x where "m = Some x" "f x = Some c"
  using assms by (auto simp: bind_eq_Some_conv)

lemma loaded_numbers:
  assumes "loadConfig N env = Some c"
  shows "integer N env ''DB_POOL_MAX'' 1 None 10 = Some (ac_dbPoolMax c)"
    "integer N env ''DB_IDLE_TIMEOUT_SECONDS'' 0 None 20 = Some (ac_dbIdleTimeoutSeconds c)"
    "integer N env ''DB_CONNECT_TIMEOUT_SECONDS'' 1 None 5 = Some (ac_dbConnectTimeoutSeconds c)"
    "integer N env ''DB_STATEMENT_TIMEOUT_MS'' 0 None 15000 = Some (ac_dbStatementTimeoutMs c)"
    "integer N env ''REALTIME_PORT'' 1 (Some 65535) 3001 = Some (ac_realtimePort c)"
    "integer N env ''METRICS_PORT'' 1 (Some 65535) 3002 = Some (ac_metricsPort c)"
    "integer N env ''PRESENCE_WRITE_THROTTLE_MS'' 0 None 3000 = Some (ac_presenceWriteThrottleMs c)"
    "integer N env ''PRESENCE_WRITE_JITTER_MS'' 0 None 400 = Some (ac_presenceWriteJitterMs c)"
    "integer N env ''BOARD_PERSIST_INTERVAL_MS'' 1000 None 30000 = Some (ac_boardPersistIntervalMs c)"
    "integer N env ''REDIS_CLEANUP_INTERVAL_MS'' 1000 None 120000 = Some (ac_redisCleanupIntervalMs c)"
  using assms unfolding loadConfig_def Let_def by (elim bind_SomeE, clarify, simp)+

lemma loaded_secrets:
  assumes "loadConfig N env = Some c"
  shows "required env ''JWT_SECRET'' 16 = Some (ac_jwtSecret c)"
    "maybe_text env ''BULL_BOARD_PASSWORD'' 8 = Some (ac_bullBoardPassword c)"
  using assms unfolding loadConfig_def Let_def by (elim bind_SomeE, clarify, simp)+

lemma bull_board_off:
  assumes "loadConfig N env = Some c" "ac_nodeEnv c = ''production''" "js_get ''ENABLE_BULL_BOARD'' env \<noteq> Some ''true''"
  shows "\<not> ac_enableBullBoard c"
proof -
  have "\<exists>b. maybe_one_of env ''ENABLE_BULL_BOARD'' [''true'', ''false''] = Some b \<and>
    ac_enableBullBoard c = (case b of Some s \<Rightarrow> s = ''true'' | None \<Rightarrow> ac_nodeEnv c \<noteq> ''production'')"
    using assms(1) unfolding loadConfig_def Let_def by (elim bind_SomeE, clarify, simp split: option.split)
  then show ?thesis using assms(2,3) by (auto simp: maybe_one_of_def split: option.splits if_splits)
qed

text \<open>Every configuration a process starts with is within its bounds: pools, timeouts, ports and intervals are in range,
  the secret of the tokens has at least 16 characters and the password of the queue board eight, and in production the
  queue board is off unless it is switched on.\<close>

theorem loaded_config_in_bounds:
  assumes "loadConfig N env = Some c"
  shows "1 \<le> ac_dbPoolMax c \<and> 0 \<le> ac_dbIdleTimeoutSeconds c \<and> 1 \<le> ac_dbConnectTimeoutSeconds c \<and>
    0 \<le> ac_dbStatementTimeoutMs c \<and> ac_realtimePort c \<in> {1..65535} \<and> ac_metricsPort c \<in> {1..65535} \<and>
    0 \<le> ac_presenceWriteThrottleMs c \<and> 0 \<le> ac_presenceWriteJitterMs c \<and> 1000 \<le> ac_boardPersistIntervalMs c \<and>
    1000 \<le> ac_redisCleanupIntervalMs c \<and> 16 \<le> length (ac_jwtSecret c) \<and>
    (\<forall>p. ac_bullBoardPassword c = Some p \<longrightarrow> 8 \<le> length p) \<and>
    (ac_nodeEnv c = ''production'' \<and> js_get ''ENABLE_BULL_BOARD'' env \<noteq> Some ''true'' \<longrightarrow> \<not> ac_enableBullBoard c)"
  using loaded_numbers [OF assms] loaded_secrets [OF assms] bull_board_off [OF assms]
  by (auto dest!: integer_bounds required_length dest: maybe_text_length)

definition sample_env :: environment where
  "sample_env = [(''DATABASE_URL'', ''postgres://db/app''), (''GOOGLE_CLIENT_ID'', ''id''), (''GOOGLE_CLIENT_SECRET'', ''secret''),
     (''GOOGLE_REDIRECT_URI'', ''http://localhost/cb''), (''JWT_SECRET'', ''0123456789abcdef''),
     (''NODE_ENV'', ''production''), (''ENABLE_CLEANUP_ACTIVE_INDEX'', ''False'')]"

lemma stringbool_false: "stringbool ''False'' = Some False"
  by code_simp

lemma sample_env_loads: "\<exists>c. loadConfig N sample_env = Some c \<and> \<not> ac_enableCleanupActiveIndex c \<and> ac_nodeEnv c = ''production''"
  by (simp add: loadConfig_def sample_env_def database_url_def integer_def number_def maybe_text_def one_of_def
    with_default_def required_def flag_def maybe_one_of_def stringbool_false safe_int_def Let_def)

theorem loaded_config_in_bounds_witness:
  "\<exists>c. loadConfig demo_text sample_env = Some c \<and> 1 \<le> ac_dbPoolMax c \<and> \<not> ac_enableBullBoard c \<and> \<not> ac_enableCleanupActiveIndex c"
proof -
  obtain c where c: "loadConfig demo_text sample_env = Some c" "\<not> ac_enableCleanupActiveIndex c" "ac_nodeEnv c = ''production''"
    using sample_env_loads by blast
  have "js_get ''ENABLE_BULL_BOARD'' sample_env \<noteq> Some ''true''" by (simp add: sample_env_def)
  with loaded_config_in_bounds [OF c(1)] c show ?thesis by blast
qed

end
