(* ===== verification/Admin_Pages.thy ===== *)
theory Admin_Pages
  imports Redis_Cleanup Config
begin

text \<open>
  The pages for operators: the state page (\<open>app/debug.routes.ts\<close>) and the dashboard of the queues with
  its password (\<open>app/bull-board.routes.ts\<close>). The answers of Postgres and \<open>INFO\<close>, SHA-256 and base64 are
  arguments. The lemmas show who gets past the password and that production never shows the dashboard
  without one.
\<close>

section \<open>The state page\<close>

definition MAX_REDIS_KEYS :: nat where "MAX_REDIS_KEYS = 100"
definition DEFAULT_BOARD_SCAN_LIMIT :: nat where "DEFAULT_BOARD_SCAN_LIMIT = 20"

fun scan_pages :: "nat \<Rightarrow> rkey list list \<Rightarrow> rkey list \<Rightarrow> rkey list" where
  \<comment> \<open>the loop over the cursors: the pages of one scan, until it is over or there are enough keys\<close>
  "scan_pages limit [] keys = keys"
| "scan_pages limit (found # pages) keys = (let keys = keys @ found in
     if length keys < limit then scan_pages limit pages keys else keys)"

definition scanRedisKeys :: "'w env \<Rightarrow> string \<Rightarrow> nat \<Rightarrow> 'w \<Rightarrow> rkey list" where
  "scanRedisKeys E pattern limit w = take limit (scan_pages limit (e_scan E pattern w) [])"

record board_sample =
  bd_sequence :: "string option"
  bd_clientCount :: nat
  bd_elementCount :: nat
  bd_lastActive :: "string option"

record redis_info =
  ri_dbSize :: nat
  ri_keyPattern :: string
  ri_sampledKeys :: "rkey list"
  ri_boardState :: "board_sample option"
  ri_memory :: "string list"

fun lines_of :: "string \<Rightarrow> string list" where
  \<comment> \<open>\<open>split('\n')\<close>\<close>
  "lines_of [] = [[]]"
| "lines_of (c # s) = (if c = char_of (10 :: nat) then [] # lines_of s
     else (case lines_of s of l # ls \<Rightarrow> (c # l) # ls | [] \<Rightarrow> [[c]]))"

definition memory_lines :: "string \<Rightarrow> string list" where
  "memory_lines info = map js_trim (filter (\<lambda>line. starts_with ''used_memory_human:'' line \<or>
     starts_with ''used_memory_peak_human:'' line \<or> starts_with ''mem_fragmentation_ratio:'' line) (lines_of info))"

definition getRedisInfo :: "'w env \<Rightarrow> string \<Rightarrow> nat \<Rightarrow> string option \<Rightarrow> 'w \<Rightarrow> redis_info" where
  \<comment> \<open>with the answers of \<open>INFO memory\<close> and \<open>DBSIZE\<close>\<close>
  "getRedisInfo E info dbSize boardId w =
     (let board = (case boardId of None \<Rightarrow> None | Some b \<Rightarrow> if b = [] then None else Some b);
          keyPattern = (case board of None \<Rightarrow> ''board:*'' | Some b \<Rightarrow> ''board:'' @ b @ '':*'')
      in \<lparr>ri_dbSize = dbSize, ri_keyPattern = keyPattern, ri_sampledKeys = scanRedisKeys E keyPattern MAX_REDIS_KEYS w,
          ri_boardState = (case board of None \<Rightarrow> None
            | Some b \<Rightarrow> Some \<lparr>bd_sequence = e_get E (boardSeqKey b) w, bd_clientCount = e_scard E (boardClientsKey b) w,
                bd_elementCount = e_hlen E (boardElementsKey b) w, bd_lastActive = e_get E (boardLastActiveKey b) w\<rparr>),
          ri_memory = memory_lines info\<rparr>)"

datatype 'p debug_answer =
    Hidden
  | Malformed string
  | Shown string 'p redis_info "board_metrics option"

definition debug_state :: "'w env \<Rightarrow> string \<Rightarrow> (nat \<Rightarrow> 'p) \<Rightarrow> string \<Rightarrow> nat \<Rightarrow> string + (string option \<times> nat option) \<Rightarrow> 'w \<Rightarrow>
    ('p debug_answer \<times> 'w) option" where
  \<comment> \<open>the router and its route: \<open>database\<close> is \<open>getDatabaseInfo\<close>, the last argument but one the parsed query\<close>
  "debug_state E nodeEnv database info dbSize query w =
     (if nodeEnv = ''production'' then Some (Hidden, w)
      else (case query of Inl message \<Rightarrow> Some (Malformed message, w)
        | Inr (boardId, limit) \<Rightarrow>
            (let postgres = database (case limit of None \<Rightarrow> DEFAULT_BOARD_SCAN_LIMIT | Some l \<Rightarrow> l);
                 redis = getRedisInfo E info dbSize boardId w
             in (case boardId of
                   None \<Rightarrow> Some (Shown nodeEnv postgres redis None, w)
                 | Some b \<Rightarrow> if b = [] then Some (Shown nodeEnv postgres redis None, w)
                     else map_option (\<lambda>(m, w). (Shown nodeEnv postgres redis (Some m), w)) (getBoardMetrics E b w)))))"

section \<open>The dashboard of the queues\<close>

record ('d) basic_auth =
  ba_sha256 :: "string \<Rightarrow> 'd"
  ba_decode :: "string \<Rightarrow> string"
    \<comment> \<open>base64, read as UTF-8\<close>

definition createBasicAuthGate :: "'d basic_auth \<Rightarrow> string \<Rightarrow> string \<Rightarrow> string option \<Rightarrow> bool" where
  \<comment> \<open>on the authorization header: \<open>next()\<close>, or 401\<close>
  "createBasicAuthGate A username password header = (case header of None \<Rightarrow> False
     | Some h \<Rightarrow> if \<not> starts_with ''Basic '' h then False
         else (let decoded = ba_decode A (drop 6 h) in
           if CHR '':'' \<notin> set decoded then False
           else ba_sha256 A (takeWhile (\<lambda>c. c \<noteq> CHR '':'') decoded) = ba_sha256 A username \<and>
                ba_sha256 A (tl (dropWhile (\<lambda>c. c \<noteq> CHR '':'') decoded)) = ba_sha256 A password))"

datatype dashboard = Not_mounted | Behind_gate string string | Open_to_all

definition mountBullBoard :: "string \<Rightarrow> string option \<Rightarrow> string \<Rightarrow> dashboard" where
  "mountBullBoard username password nodeEnv = (case password of
     Some p \<Rightarrow> if p \<noteq> [] then Behind_gate username p else if nodeEnv = ''production'' then Not_mounted else Open_to_all
   | None \<Rightarrow> if nodeEnv = ''production'' then Not_mounted else Open_to_all)"

definition worker_dashboard :: "app_config \<Rightarrow> dashboard" where
  \<comment> \<open>what the worker mounts\<close>
  "worker_dashboard c = (if ac_enableBullBoard c then mountBullBoard (ac_bullBoardUsername c) (ac_bullBoardPassword c) (ac_nodeEnv c) else Not_mounted)"

definition dashboard_admits :: "'d basic_auth \<Rightarrow> dashboard \<Rightarrow> string option \<Rightarrow> bool" where
  "dashboard_admits A d header = (case d of Not_mounted \<Rightarrow> False | Open_to_all \<Rightarrow> True
     | Behind_gate u p \<Rightarrow> createBasicAuthGate A u p header)"

section \<open>Who gets in\<close>

lemma colon_split:
  assumes "CHR '':'' \<in> set s"
  shows "s = takeWhile (\<lambda>c. c \<noteq> CHR '':'') s @ CHR '':'' # tl (dropWhile (\<lambda>c. c \<noteq> CHR '':'') s)"
proof -
  obtain x xs where d: "dropWhile (\<lambda>c. c \<noteq> CHR '':'') s = x # xs"
    using assms by (cases "dropWhile (\<lambda>c. c \<noteq> CHR '':'') s") (auto simp: dropWhile_eq_Nil_conv)
  then have "x = CHR '':''" using hd_dropWhile[of "\<lambda>c. c \<noteq> CHR '':''" s] by simp
  then show ?thesis using d by (metis list.sel(3) takeWhile_dropWhile_id)
qed

text \<open>In production the dashboard of the queues is shown only to somebody who sends the user name and the password of the
  configuration, a password of at least eight characters, and if none is configured to nobody. The digests are taken to
  differ for different texts.\<close>

theorem production_dashboard_needs_password:
  assumes "loadConfig N env = Some c" "ac_nodeEnv c = ''production''" "inj (ba_sha256 A)"
    and "dashboard_admits A (worker_dashboard c) header"
  shows "\<exists>h p. header = Some h \<and> starts_with ''Basic '' h \<and> ac_bullBoardPassword c = Some p \<and> 8 \<le> length p \<and>
    ba_decode A (drop 6 h) = ac_bullBoardUsername c @ CHR '':'' # p"
proof -
  obtain p where p: "ac_bullBoardPassword c = Some p" "worker_dashboard c = Behind_gate (ac_bullBoardUsername c) p"
    using assms(2,4) by (auto simp: dashboard_admits_def worker_dashboard_def mountBullBoard_def split: if_splits option.splits)
  obtain h where h: "header = Some h" "createBasicAuthGate A (ac_bullBoardUsername c) p (Some h)"
    using assms(4) p(2) by (cases header) (auto simp: dashboard_admits_def createBasicAuthGate_def)
  let ?d = "ba_decode A (drop 6 h)"
  have d: "starts_with ''Basic '' h" "CHR '':'' \<in> set ?d" "takeWhile (\<lambda>c. c \<noteq> CHR '':'') ?d = ac_bullBoardUsername c"
    "tl (dropWhile (\<lambda>c. c \<noteq> CHR '':'') ?d) = p"
    using h(2) injD[OF assms(3)] by (auto simp: createBasicAuthGate_def Let_def split: if_splits)
  have "8 \<le> length p" using loaded_secrets(2)[OF assms(1)] maybe_text_length[of env "''BULL_BOARD_PASSWORD''" 8 p] p(1) by simp
  then show ?thesis using h(1) p(1) d colon_split[OF d(2)] by auto
qed

text \<open>A user name with a colon locks everybody out: the gate takes the text up to the first colon for the name.\<close>

lemma colon_name_locks_out:
  assumes "inj (ba_sha256 A)" "CHR '':'' \<in> set username"
  shows "\<not> createBasicAuthGate A username password header"
proof
  assume "createBasicAuthGate A username password header"
  then obtain d where "takeWhile (\<lambda>c. c \<noteq> CHR '':'') d = username"
    using injD[OF assms(1)] by (auto simp: createBasicAuthGate_def Let_def split: option.splits if_splits)
  then show False using assms(2) set_takeWhileD[of "CHR '':''" "\<lambda>c. c \<noteq> CHR '':''" d] by auto
qed

text \<open>The sample of the state page: at most a hundred keys, all of them from the scan.\<close>

lemma scan_pages_from: "set (scan_pages limit pages keys) \<subseteq> set keys \<union> set (concat pages)"
  by (induction limit pages keys rule: scan_pages.induct) (auto simp: Let_def split: if_splits)

lemma sampled_keys:
  "length (scanRedisKeys E pattern limit w) \<le> limit \<and> set (scanRedisKeys E pattern limit w) \<subseteq> set (concat (e_scan E pattern w))"
  using scan_pages_from[of limit "e_scan E pattern w" "[]"] set_take_subset[of limit "scan_pages limit (e_scan E pattern w) []"]
  by (auto simp: scanRedisKeys_def)

section \<open>A worker in production\<close>

definition password_env :: environment where
  "password_env = sample_env @ [(''ENABLE_BULL_BOARD'', ''true''), (''BULL_BOARD_PASSWORD'', ''secret-1'')]"

definition plain_auth :: "string basic_auth" where
  "plain_auth = \<lparr>ba_sha256 = (\<lambda>s. s), ba_decode = (\<lambda>s. s)\<rparr>"

lemma password_env_loads: "\<exists>c. loadConfig N password_env = Some c \<and> ac_nodeEnv c = ''production'' \<and> ac_enableBullBoard c \<and>
    ac_bullBoardPassword c = Some ''secret-1'' \<and> ac_bullBoardUsername c = ''admin''"
  by (simp add: loadConfig_def password_env_def sample_env_def database_url_def integer_def number_def maybe_text_def one_of_def
    with_default_def required_def flag_def maybe_one_of_def stringbool_false safe_int_def Let_def)

theorem production_dashboard_needs_password_witness:
  "\<exists>c. loadConfig demo_text password_env = Some c \<and> dashboard_admits plain_auth (worker_dashboard c) (Some ''Basic admin:secret-1'') \<and>
    (\<exists>p. ac_bullBoardPassword c = Some p \<and> 8 \<le> length p)"
proof -
  obtain c where c: "loadConfig demo_text password_env = Some c" "ac_nodeEnv c = ''production''" "ac_enableBullBoard c"
    "ac_bullBoardPassword c = Some ''secret-1''" "ac_bullBoardUsername c = ''admin''"
    using password_env_loads by blast
  have "dashboard_admits plain_auth (worker_dashboard c) (Some ''Basic admin:secret-1'')"
    by (simp add: dashboard_admits_def worker_dashboard_def mountBullBoard_def createBasicAuthGate_def plain_auth_def c)
  with production_dashboard_needs_password[OF c(1,2) _ this] c(1) show ?thesis by (auto simp: plain_auth_def)
qed

end
