(* ===== verification/Runtime.thy ===== *)
theory Runtime
  imports Config
begin

text \<open>
  The composition root (\<open>app/runtime.ts\<close>): services are built when they are first read and cached, each
  with the services its constructor reads; and what the three programs read of it (\<open>apps/api.main.ts\<close>,
  \<open>apps/realtime.main.ts\<close>, \<open>apps/worker.main.ts\<close>, \<open>shutdownInfra\<close> of \<open>apps/app-shell.ts\<close>). The state is
  the keys of the cache in the order they were built. The lemmas show that each is built once, after what
  it needs, and which services a program never builds.
\<close>

datatype service =
    Db | Redis | PubRedis | SubRedis | JobsRedis
  | EventQueues | Events | Metrics_service
  | AuthService | AuthMiddleware | UserService | WorkspaceService | BoardService | BillingService
  | BoardStateService | BoardPersistenceService | RedisCleanupService
  | BoardPreviewRenderer | PreviewJobService | MutationProcessor

fun services_read :: "app_config \<Rightarrow> service \<Rightarrow> service list" where
  \<comment> \<open>what building a service reads of the runtime, in order\<close>
  "services_read c EventQueues = (if ac_eventBusTransport c = ''bullmq'' then [JobsRedis, JobsRedis, JobsRedis] else [])"
| "services_read c Events = (if ac_eventBusTransport c = ''bullmq'' then [EventQueues, JobsRedis] else [EventQueues])"
| "services_read c AuthMiddleware = [AuthService]"
| "services_read c UserService = [Db]"
| "services_read c WorkspaceService = [Db]"
| "services_read c BoardService = [Db]"
| "services_read c BillingService = [Db, UserService, WorkspaceService, BoardService]"
| "services_read c BoardStateService = [Redis, Db, Metrics_service]"
| "services_read c BoardPersistenceService = [BoardStateService]"
| "services_read c RedisCleanupService = [Redis, BoardStateService]"
| "services_read c PreviewJobService = [Db, JobsRedis, BoardPreviewRenderer, Metrics_service]"
| "services_read c MutationProcessor = [BoardStateService]"
| "services_read c _ = []"

fun depth :: "service \<Rightarrow> nat" where
  "depth Events = 2"
| "depth BillingService = 2"
| "depth BoardPersistenceService = 2"
| "depth RedisCleanupService = 2"
| "depth MutationProcessor = 2"
| "depth EventQueues = 1"
| "depth AuthMiddleware = 1"
| "depth UserService = 1"
| "depth WorkspaceService = 1"
| "depth BoardService = 1"
| "depth BoardStateService = 1"
| "depth PreviewJobService = 1"
| "depth _ = 0"

lemma read_deeper: "r \<in> set (services_read c s) \<Longrightarrow> depth r < depth s"
  by (cases s) (auto split: if_splits)

function get_service :: "app_config \<Rightarrow> service \<Rightarrow> service list \<Rightarrow> service list" where
  \<comment> \<open>a getter: \<open>once(key, build)\<close>\<close>
  "get_service c s built = (if s \<in> set built then built else fold (get_service c) (services_read c s) built @ [s])"
  by pat_completeness auto

termination
  by (relation "measure (\<lambda>(c, s, built). depth s)") (auto simp: read_deeper)

declare get_service.simps [simp del]

definition read_services :: "app_config \<Rightarrow> service list \<Rightarrow> service list \<Rightarrow> service list" where
  "read_services c reads built = fold (get_service c) reads built"

section \<open>What the programs read\<close>

definition api_start :: "service list" where
  \<comment> \<open>the collectors and \<open>createApp\<close>; the legacy mounts read the same services again\<close>
  "api_start = [Metrics_service, Metrics_service, Metrics_service, Db, BillingService, Db, Redis, Db, Redis, Metrics_service, Db, Redis,
     BoardStateService, BoardService, WorkspaceService, AuthMiddleware, BoardStateService, MutationProcessor, AuthService,
     PreviewJobService, Events, AuthService, UserService, Db, Metrics_service, UserService, AuthMiddleware, BillingService,
     AuthMiddleware, WorkspaceService, AuthMiddleware]"

definition realtime_start :: "service list" where
  "realtime_start = [Metrics_service, Metrics_service, AuthService, UserService, BoardService, BoardStateService, MutationProcessor,
     Events, PubRedis, SubRedis, Metrics_service]"

definition worker_start :: "service list" where
  \<comment> \<open>\<open>createBackgroundJobs\<close>, the collectors, the subscriptions, the preview worker, \<open>start\<close> of the jobs and the dashboard\<close>
  "worker_start = [JobsRedis, Metrics_service, Metrics_service, Metrics_service, Events, Events, PreviewJobService,
     Metrics_service, Metrics_service, PreviewJobService, EventQueues]"

definition worker_jobs :: "service list" where
  \<comment> \<open>the bodies of the repeated jobs and of the event handlers\<close>
  "worker_jobs = [BoardPersistenceService, RedisCleanupService, RedisCleanupService, PreviewJobService, PreviewJobService]"

definition scrape_reads :: "service list" where
  \<comment> \<open>the collectors of dirty boards and of the queues\<close>
  "scrape_reads = [Redis, EventQueues]"

definition shutdownInfra :: "service list" where
  "shutdownInfra = [Redis, PubRedis, SubRedis, JobsRedis, Db]"

section \<open>Built once, in order\<close>

definition built_ok :: "app_config \<Rightarrow> service list \<Rightarrow> bool" where
  "built_ok c built = (distinct built \<and> (\<forall>u s v. built = u @ s # v \<longrightarrow> set (services_read c s) \<subseteq> set u))"

lemma built_ok_snoc: "built_ok c built \<Longrightarrow> s \<notin> set built \<Longrightarrow> set (services_read c s) \<subseteq> set built \<Longrightarrow> built_ok c (built @ [s])"
  unfolding built_ok_def
proof (intro conjI allI impI; elim conjE)
  fix u r v
  assume *: "\<forall>u s v. built = u @ s # v \<longrightarrow> set (services_read c s) \<subseteq> set u" "set (services_read c s) \<subseteq> set built"
    "built @ [s] = u @ r # v"
  show "set (services_read c r) \<subseteq> set u"
    using * by (cases v rule: rev_cases) auto
qed simp

lemma get_service_depth: "r \<in> set (get_service c s b) \<Longrightarrow> r \<in> set b \<or> depth r \<le> depth s"
proof (induction c s b arbitrary: r rule: get_service.induct)
  case (1 c s built)
  show ?case
  proof (cases "s \<in> set built")
    case True
    then show ?thesis using "1.prems" by (simp add: get_service.simps[of c s])
  next
    case False
    have "\<forall>r \<in> set (fold (get_service c) (services_read c s) built). r \<in> set built \<or> depth r \<le> depth s"
    proof (rule fold_invariant[where Q = "\<lambda>x. x \<in> set (services_read c s)"])
      fix x b assume x: "x \<in> set (services_read c s)" and b: "\<forall>r \<in> set b. r \<in> set built \<or> depth r \<le> depth s"
      show "\<forall>r \<in> set (get_service c x b). r \<in> set built \<or> depth r \<le> depth s"
        using "1.IH"[OF False x] read_deeper[OF x] b by (meson le_trans less_imp_le)
    qed auto
    then show ?thesis using "1.prems" False by (auto simp: get_service.simps[of c s])
  qed
qed

lemma get_service_grows: "set b \<subseteq> set (get_service c s b)"
proof (induction c s b rule: get_service.induct)
  case (1 c s built)
  have "s \<notin> set built \<Longrightarrow> set built \<subseteq> set (fold (get_service c) (services_read c s) built)"
    by (rule fold_invariant[where Q = "\<lambda>x. x \<in> set (services_read c s)"]) (use 1 in blast)+
  then show ?case by (auto simp: get_service.simps[of c s])
qed

lemma get_service_has: "s \<in> set (get_service c s b)"
  by (simp add: get_service.simps[of c s])

lemma reads_grow: "set b \<union> set reads \<subseteq> set (fold (get_service c) reads b)"
proof (induction reads arbitrary: b)
  case (Cons r reads)
  show ?case using Cons.IH[of "get_service c r b"] get_service_grows[of b c r] get_service_has[of r c b] by auto
qed simp

lemma get_service_ok: "built_ok c b \<Longrightarrow> built_ok c (get_service c s b)"
proof (induction c s b rule: get_service.induct)
  case (1 c s built)
  show ?case
  proof (cases "s \<in> set built")
    case True
    then show ?thesis using 1 by (simp add: get_service.simps[of c s])
  next
    case False
    let ?b = "fold (get_service c) (services_read c s) built"
    have ok: "built_ok c ?b"
      by (rule fold_invariant[where Q = "\<lambda>x. x \<in> set (services_read c s)"]) (use 1 False in auto)
    have "\<forall>r \<in> set ?b. r \<in> set built \<or> depth r < depth s"
    proof (rule fold_invariant[where Q = "\<lambda>x. x \<in> set (services_read c s)"])
      fix x b assume x: "x \<in> set (services_read c s)" and b: "\<forall>r \<in> set b. r \<in> set built \<or> depth r < depth s"
      show "\<forall>r \<in> set (get_service c x b). r \<in> set built \<or> depth r < depth s"
        using get_service_depth[of _ c x b] read_deeper[OF x] b by (meson le_less_trans)
    qed auto
    then have "s \<notin> set ?b" using False by blast
    then have "built_ok c (?b @ [s])"
      using ok reads_grow[of built "services_read c s" c] by (intro built_ok_snoc) auto
    then show ?thesis using False by (simp add: get_service.simps[of c s])
  qed
qed

lemma reads_ok: "built_ok c b \<Longrightarrow> built_ok c (fold (get_service c) reads b)"
  by (induction reads arbitrary: b) (auto simp: get_service_ok)

lemma nothing_built_ok: "built_ok c []"
  by (simp add: built_ok_def)

text \<open>However a program reads the runtime, no service is built twice, each is built after those its constructor reads, and
  what was read is there.\<close>

theorem services_built_once:
  "built_ok c (read_services c reads []) \<and> set reads \<subseteq> set (read_services c reads [])"
  using reads_ok[OF nothing_built_ok] reads_grow[of "[]" reads c] by (simp add: read_services_def)

section \<open>Who builds what\<close>

lemma services_stay:
  assumes closed: "\<And>s. s \<in> S \<Longrightarrow> set (services_read c s) \<subseteq> S"
  shows "set b \<subseteq> S \<Longrightarrow> s \<in> S \<Longrightarrow> set (get_service c s b) \<subseteq> S"
  using closed
proof (induction c s b rule: get_service.induct)
  case (1 c s built)
  have "s \<notin> set built \<Longrightarrow> set (fold (get_service c) (services_read c s) built) \<subseteq> S"
    by (rule fold_invariant[where Q = "\<lambda>x. x \<in> set (services_read c s)"]) (use 1 in blast)+
  then show ?case using "1.prems" by (auto simp: get_service.simps[of c s])
qed

lemma reads_stay:
  assumes closed: "\<And>s. s \<in> S \<Longrightarrow> set (services_read c s) \<subseteq> S"
  shows "set b \<subseteq> S \<Longrightarrow> set reads \<subseteq> S \<Longrightarrow> set (read_services c reads b) \<subseteq> S"
  unfolding read_services_def
  by (induction reads arbitrary: b) (simp_all add: services_stay[OF closed])

lemma never_built:
  assumes "\<And>s. s \<notin> N \<Longrightarrow> set (services_read c s) \<inter> N = {}" "set reads \<inter> N = {}"
  shows "N \<inter> set (read_services c reads []) = {}"
  using reads_stay[of "- N" c "[]" reads] assms by auto

lemmas program_reads = api_start_def realtime_start_def worker_start_def worker_jobs_def scrape_reads_def shutdownInfra_def

lemma nobody_reads_workers: "s \<notin> {BoardPersistenceService, RedisCleanupService} \<Longrightarrow> set (services_read c s) \<inter> {BoardPersistenceService, RedisCleanupService} = {}"
  by (cases s) auto

lemma nobody_reads_billing: "s \<notin> {BillingService, PreviewJobService, BoardPreviewRenderer} \<Longrightarrow>
    set (services_read c s) \<inter> {BillingService, PreviewJobService, BoardPreviewRenderer} = {}"
  by (cases s) auto

lemma nobody_reads_auth: "s \<notin> {AuthService, AuthMiddleware, BillingService} \<Longrightarrow>
    set (services_read c s) \<inter> {AuthService, AuthMiddleware, BillingService} = {}"
  by (cases s) auto

lemma nobody_reads_pubsub: "s \<notin> {PubRedis, SubRedis} \<Longrightarrow> set (services_read c s) \<inter> {PubRedis, SubRedis} = {}"
  by (cases s) auto

text \<open>What the programs never build, from start through scrapes to shutdown: the API neither the persistence nor the
  clean-up service, the realtime server nothing of billing and previews, the worker nothing of authentication and billing.\<close>

theorem programs_build_what_they_need:
  "{BoardPersistenceService, RedisCleanupService} \<inter> set (read_services c (api_start @ scrape_reads @ shutdownInfra @ [Events]) []) = {} \<and>
   {BillingService, PreviewJobService, BoardPreviewRenderer} \<inter> set (read_services c (realtime_start @ scrape_reads @ shutdownInfra @ [Events]) []) = {} \<and>
   {AuthService, AuthMiddleware, BillingService} \<inter> set (read_services c (worker_start @ worker_jobs @ scrape_reads @ [PreviewJobService, EventQueues, Events] @ shutdownInfra) []) = {}"
  by (intro conjI never_built nobody_reads_workers nobody_reads_billing nobody_reads_auth) (auto simp: program_reads)

text \<open>The shutdown reads the connections it closes, so the API opens two connections, for publishing and subscribing,
  that it never used, to close them at once.\<close>

lemma shutdown_opens_connections:
  "{PubRedis, SubRedis} \<inter> set (read_services c (api_start @ scrape_reads) []) = {} \<and>
   {PubRedis, SubRedis} \<subseteq> set (read_services c (api_start @ scrape_reads @ shutdownInfra) [])"
proof
  show "{PubRedis, SubRedis} \<inter> set (read_services c (api_start @ scrape_reads) []) = {}"
    by (intro never_built nobody_reads_pubsub) (auto simp: program_reads)
  show "{PubRedis, SubRedis} \<subseteq> set (read_services c (api_start @ scrape_reads @ shutdownInfra) [])"
    using reads_grow[of "[]" "api_start @ scrape_reads @ shutdownInfra" c] by (auto simp: read_services_def shutdownInfra_def)
qed

end
