(* ===== verification/Shutdown.thy ===== *)
theory Shutdown
  imports Application
begin

text \<open>
  How the three programs end (\<open>apps/api.main.ts\<close>, \<open>apps/realtime.main.ts\<close>, \<open>apps/worker.main.ts\<close>) inside
  the shell of \<open>Application\<close>: the steps of their \<open>shutdown\<close> in order, with the connections of their HTTP
  server. As Node documents it, the callback of \<open>server.close\<close> waits for all connections, and
  \<open>closeAllConnections\<close> leaves those alone that were upgraded to WebSockets. The lemmas show that the
  teardown keeps its order and its time limit, and that the realtime server cannot end it while a client
  stays.
\<close>

definition KEEP_ALIVE_GRACE_MS :: int where "KEEP_ALIVE_GRACE_MS = 2000"

definition DEFAULT_SHUTDOWN_TIMEOUT_MS :: int where "DEFAULT_SHUTDOWN_TIMEOUT_MS = 10000"

datatype teardown =
    Stop_jobs
  | Stop_previews
  | Close_server
  | Quit_connections
      \<comment> \<open>\<open>shutdownInfra\<close>\<close>
  | Close_events
  | Stop_tracing

definition api_shutdown :: "teardown list" where
  "api_shutdown = [Close_server, Quit_connections, Close_events, Stop_tracing]"

definition realtime_shutdown :: "teardown list" where
  "realtime_shutdown = [Close_server, Quit_connections, Close_events, Stop_tracing]"

definition worker_shutdown :: "teardown list" where
  "worker_shutdown = [Stop_jobs, Stop_previews, Close_events, Close_server, Quit_connections, Stop_tracing]"

record proc =
  pc_listening :: bool
  pc_http :: nat
    \<comment> \<open>connections that speak HTTP\<close>
  pc_upgraded :: nat
    \<comment> \<open>those upgraded to WebSockets\<close>
  pc_now :: int
  pc_signalAt :: "int option"
  pc_graceAt :: "int option"
    \<comment> \<open>when the timer beside \<open>server.close\<close> is due\<close>
  pc_todo :: "teardown list"
    \<comment> \<open>the step awaited, and those after it\<close>
  pc_done :: "teardown list"
  pc_shell :: shell

datatype proc_event =
    Signalled
  | Connect | Upgrade | Hang_up | Hang_up_upgraded
  | Pass int
  | Grace_due
  | Force_due
  | Step_done
  | Step_fails
  | All_done

definition begin_next :: "proc \<Rightarrow> proc" where
  \<comment> \<open>what the next step does at once\<close>
  "begin_next p = (if pc_todo p \<noteq> [] \<and> hd (pc_todo p) = Close_server
     then p\<lparr>pc_listening := False, pc_graceAt := Some (pc_now p + KEEP_ALIVE_GRACE_MS)\<rparr> else p)"

definition may_pass :: "int \<Rightarrow> proc \<Rightarrow> bool" where
  \<comment> \<open>timers fire when they are due\<close>
  "may_pass d p = (0 \<le> d \<and> (case pc_graceAt p of None \<Rightarrow> True | Some t \<Rightarrow> pc_now p + d \<le> t) \<and>
     (case pc_signalAt p of None \<Rightarrow> True | Some t \<Rightarrow> pc_now p + d \<le> t + DEFAULT_SHUTDOWN_TIMEOUT_MS))"

fun proc_step :: "teardown list \<Rightarrow> proc_event \<Rightarrow> proc \<Rightarrow> proc" where
  \<comment> \<open>an event that cannot happen changes nothing; \<open>server.close\<close> and \<open>shutdownInfra\<close> do not reject. Both timers are
    \<open>unref\<close>ed and alone keep no process alive. While a step is under way something else does, the connections of the
    server, of Redis or of Postgres or the flush of the exporter; an end by an empty event loop is no event here\<close>
  "proc_step prog ev p = (if sh_exit (pc_shell p) \<noteq> None then p else (case ev of
     Signalled \<Rightarrow> if sh_shuttingDown (pc_shell p) then p
       else begin_next (p\<lparr>pc_shell := shell_step Signal (pc_shell p), pc_signalAt := Some (pc_now p), pc_todo := prog\<rparr>)
   | Connect \<Rightarrow> if pc_listening p then p\<lparr>pc_http := pc_http p + 1\<rparr> else p
   | Upgrade \<Rightarrow> if 0 < pc_http p then p\<lparr>pc_http := pc_http p - 1, pc_upgraded := pc_upgraded p + 1\<rparr> else p
   | Hang_up \<Rightarrow> p\<lparr>pc_http := pc_http p - 1\<rparr>
   | Hang_up_upgraded \<Rightarrow> p\<lparr>pc_upgraded := pc_upgraded p - 1\<rparr>
   | Pass d \<Rightarrow> if may_pass d p then p\<lparr>pc_now := pc_now p + d\<rparr> else p
   | Grace_due \<Rightarrow> (case pc_graceAt p of
         Some t \<Rightarrow> if t \<le> pc_now p then p\<lparr>pc_http := 0, pc_graceAt := None\<rparr> else p | None \<Rightarrow> p)
   | Force_due \<Rightarrow> (case pc_signalAt p of
         Some t \<Rightarrow> if t + DEFAULT_SHUTDOWN_TIMEOUT_MS \<le> pc_now p then p\<lparr>pc_shell := shell_step ForceExitDue (pc_shell p)\<rparr> else p
       | None \<Rightarrow> p)
   | Step_done \<Rightarrow> (case pc_todo p of
         [] \<Rightarrow> p
       | a # rest \<Rightarrow> if a = Close_server \<and> 0 < pc_http p + pc_upgraded p then p
           else begin_next (p\<lparr>pc_todo := rest, pc_done := pc_done p @ [a]\<rparr>))
   | Step_fails \<Rightarrow> (case pc_todo p of
         [] \<Rightarrow> p
       | a # rest \<Rightarrow> if a \<in> {Close_server, Quit_connections} then p
           else p\<lparr>pc_shell := shell_step (ShutdownEnds False) (pc_shell p)\<rparr>)
   | All_done \<Rightarrow> if sh_shuttingDown (pc_shell p) \<and> pc_todo p = [] then p\<lparr>pc_shell := shell_step (ShutdownEnds True) (pc_shell p)\<rparr> else p))"

definition serving :: "nat \<Rightarrow> nat \<Rightarrow> int \<Rightarrow> proc" where
  "serving http upgraded now = \<lparr>pc_listening = True, pc_http = http, pc_upgraded = upgraded, pc_now = now, pc_signalAt = None,
     pc_graceAt = None, pc_todo = [], pc_done = [], pc_shell = new_shell\<rparr>"

section \<open>Order and time\<close>

definition proc_ok :: "teardown list \<Rightarrow> proc \<Rightarrow> bool" where
  "proc_ok prog p = ((sh_shuttingDown (pc_shell p) \<longleftrightarrow> pc_signalAt p \<noteq> None) \<and>
     (if pc_signalAt p = None then pc_todo p = [] \<and> pc_done p = [] else pc_done p @ pc_todo p = prog) \<and>
     (sh_exit (pc_shell p) = None \<longrightarrow> sh_timer (pc_shell p) = (pc_signalAt p \<noteq> None)) \<and>
     (case pc_signalAt p of None \<Rightarrow> True | Some t \<Rightarrow> pc_now p \<le> t + DEFAULT_SHUTDOWN_TIMEOUT_MS) \<and>
     (Close_server \<in> set (pc_done p) \<longrightarrow> \<not> pc_listening p \<and> pc_http p = 0 \<and> pc_upgraded p = 0) \<and>
     (pc_todo p \<noteq> [] \<and> hd (pc_todo p) = Close_server \<longrightarrow> \<not> pc_listening p) \<and>
     (sh_exit (pc_shell p) = Some 0 \<longrightarrow> pc_signalAt p \<noteq> None \<and> pc_todo p = []))"

lemma begin_next_simps [simp]:
  "pc_shell (begin_next p) = pc_shell p" "pc_signalAt (begin_next p) = pc_signalAt p" "pc_todo (begin_next p) = pc_todo p"
  "pc_done (begin_next p) = pc_done p" "pc_now (begin_next p) = pc_now p" "pc_http (begin_next p) = pc_http p"
  "pc_upgraded (begin_next p) = pc_upgraded p"
  "pc_listening (begin_next p) = (pc_listening p \<and> \<not> (pc_todo p \<noteq> [] \<and> hd (pc_todo p) = Close_server))"
  by (simp_all add: begin_next_def)

lemma proc_step_ok: "proc_ok prog p \<Longrightarrow> proc_ok prog (proc_step prog ev p)"
proof (cases ev)
  case Signalled
  assume "proc_ok prog p"
  then show ?thesis by (auto simp: Signalled proc_ok_def handleSignal_def DEFAULT_SHUTDOWN_TIMEOUT_MS_def)
qed (auto simp: proc_ok_def may_pass_def split: option.splits list.splits)

lemma run_ok: "proc_ok prog p \<Longrightarrow> proc_ok prog (fold (proc_step prog) events p)"
proof (induction events arbitrary: p)
  case (Cons ev events)
  show ?case using Cons.IH[OF proc_step_ok[OF Cons.prems]] by (simp del: proc_step.simps)
qed simp

lemma serving_ok: "proc_ok prog (serving http upgraded now)"
  by (simp add: proc_ok_def serving_def new_shell_def)

lemma prefix_closed: "ds @ todo = prog \<Longrightarrow> prog \<in> {api_shutdown, realtime_shutdown, worker_shutdown} \<Longrightarrow> Quit_connections \<in> set ds \<Longrightarrow>
    Close_server \<in> set ds"
  by (auto simp: api_shutdown_def realtime_shutdown_def worker_shutdown_def append_eq_Cons_conv)

text \<open>C33: Whatever clients do, however long the steps take and whichever of them fail: a program closes its connections to Redis
  and Postgres only when its server has no connection left and takes none, it exits with 0 only after every step, and ten
  seconds after the signal it is gone.\<close>

theorem teardown_in_order_and_time:
  assumes "prog \<in> {api_shutdown, realtime_shutdown, worker_shutdown}"
    and "p = fold (proc_step prog) events (serving http upgraded now)"
  shows "(Quit_connections \<in> set (pc_done p) \<longrightarrow> \<not> pc_listening p \<and> pc_http p = 0 \<and> pc_upgraded p = 0) \<and>
    (sh_exit (pc_shell p) = Some 0 \<longrightarrow> pc_done p = prog) \<and>
    (\<forall>t. pc_signalAt p = Some t \<longrightarrow> pc_now p \<le> t + 10000 \<and>
       (pc_now p = t + 10000 \<longrightarrow> sh_exit (pc_shell (proc_step prog Force_due p)) \<noteq> None))"
proof -
  have ok: "proc_ok prog p" using run_ok[OF serving_ok] assms(2) by simp
  then show ?thesis
    using prefix_closed[OF _ assms(1), of "pc_done p" "pc_todo p"]
    by (auto simp: proc_ok_def DEFAULT_SHUTDOWN_TIMEOUT_MS_def split: if_splits)
qed

text \<open>Without WebSockets a shutdown succeeds at the latest when the grace is over and its steps have ended, whatever requests
  hang.\<close>

theorem quiet_server_shuts_down:
  "sh_exit (pc_shell (fold (proc_step api_shutdown) ([Signalled, Pass 2000, Grace_due] @ replicate 4 Step_done @ [All_done]) (serving http 0 now))) = Some 0 \<and>
   sh_exit (pc_shell (fold (proc_step worker_shutdown)
     (Signalled # replicate 3 Step_done @ [Pass 2000, Grace_due] @ replicate 3 Step_done @ [All_done]) (serving http 0 now))) = Some 0"
  by (simp add: api_shutdown_def worker_shutdown_def serving_def new_shell_def handleSignal_def begin_next_def may_pass_def numeral_eq_Suc
      KEEP_ALIVE_GRACE_MS_def DEFAULT_SHUTDOWN_TIMEOUT_MS_def)

section \<open>The realtime server\<close>

definition held :: "proc \<Rightarrow> bool" where
  "held p = (0 < pc_upgraded p \<and> pc_done p = [] \<and> sh_exit (pc_shell p) \<noteq> Some 0 \<and>
     (pc_todo p = [] \<and> \<not> sh_shuttingDown (pc_shell p) \<or> (\<exists>rest. pc_todo p = Close_server # rest)))"

lemma held_step: "held p \<Longrightarrow> ev \<noteq> Hang_up_upgraded \<Longrightarrow> held (proc_step realtime_shutdown ev p)"
  by (cases ev) (auto simp: held_def realtime_shutdown_def handleSignal_def split: option.splits list.splits)

text \<open>C26: As long as one client keeps its WebSocket, the realtime server never gets past the first step of its shutdown: it quits
  no connection, flushes and closes nothing after it, and does not exit with 0.\<close>

theorem sockets_block_realtime_shutdown:
  assumes "0 < upgraded" "Hang_up_upgraded \<notin> set events"
    and "p = fold (proc_step realtime_shutdown) events (serving http upgraded now)"
  shows "pc_done p = [] \<and> sh_exit (pc_shell p) \<noteq> Some 0"
proof -
  have "Hang_up_upgraded \<notin> set events \<Longrightarrow> held q \<Longrightarrow> held (fold (proc_step realtime_shutdown) events q)" for q
  proof (induction events arbitrary: q)
    case (Cons ev events)
    have "held (proc_step realtime_shutdown ev q)"
      by (rule held_step[OF Cons.prems(2)]) (use Cons.prems(1) in auto)
    with Cons.IH[of "proc_step realtime_shutdown ev q"] Cons.prems(1)
    show ?case by (simp del: proc_step.simps)
  qed simp
  moreover have "held (serving http upgraded now)" using assms(1) by (simp add: held_def serving_def new_shell_def)
  ultimately show ?thesis using assms(2,3) by (simp add: held_def)
qed

section \<open>Witnesses\<close>

theorem teardown_in_order_and_time_witness:
  "\<exists>p. p = fold (proc_step worker_shutdown) (Signalled # replicate 3 Step_done @ [Pass 2000, Grace_due] @ replicate 2 Step_done) (serving 3 0 0) \<and>
     Quit_connections \<in> set (pc_done p) \<and> pc_http p = 0"
proof -
  let ?p = "fold (proc_step worker_shutdown) (Signalled # replicate 3 Step_done @ [Pass 2000, Grace_due] @ replicate 2 Step_done) (serving 3 0 0)"
  have "Quit_connections \<in> set (pc_done ?p)"
    by (simp add: worker_shutdown_def serving_def new_shell_def handleSignal_def begin_next_def may_pass_def numeral_eq_Suc
        KEEP_ALIVE_GRACE_MS_def DEFAULT_SHUTDOWN_TIMEOUT_MS_def)
  then show ?thesis using teardown_in_order_and_time[OF _ refl, of worker_shutdown] by blast
qed

theorem sockets_block_realtime_shutdown_witness:
  "\<exists>p. p = fold (proc_step realtime_shutdown) [Signalled, Pass 2000, Grace_due, Step_done, Pass 8000, Force_due] (serving 2 1 0) \<and>
     pc_done p = [] \<and> sh_exit (pc_shell p) = Some 1"
proof -
  let ?p = "fold (proc_step realtime_shutdown) [Signalled, Pass 2000, Grace_due, Step_done, Pass 8000, Force_due] (serving 2 1 0)"
  have "sh_exit (pc_shell ?p) = Some 1"
    by (simp add: realtime_shutdown_def serving_def new_shell_def handleSignal_def begin_next_def may_pass_def
        KEEP_ALIVE_GRACE_MS_def DEFAULT_SHUTDOWN_TIMEOUT_MS_def)
  moreover have "pc_done ?p = [] \<and> sh_exit (pc_shell ?p) \<noteq> Some 0"
    by (rule sockets_block_realtime_shutdown[OF _ _ refl]) simp_all
  ultimately show ?thesis by blast
qed

end
