(* ===== verification/Spec2Isabelle.thy ===== *)
theory Spec2Isabelle
  imports Local_Lock Redis_Cleanup Heartbeat Socket_Handlers Sessions Preview_Jobs Crdt_Rooms Api_Contract Tracing Metrics Admin_Pages Runtime Shutdown
begin

text \<open>
  A model of notebortt-backend, the server of a collaborative note canvas: boards of elements
  that many users edit at once, kept hot in Redis and saved in Postgres, with REST services for
  boards, workspaces and invitations and a Socket.IO server for live editing.

  \<^bold>\<open>The parts and how they interact.\<close> Three programs share one code base: \<open>api\<close> (REST), \<open>realtime\<close>
  (Socket.IO) and \<open>worker\<close> (queues). Their common core is \<open>src/modules/collaboration\<close>: a board is
  loaded from Postgres into Redis (\<open>load-domain.ts\<close>), mutations are applied to the Redis state under a
  lock (\<open>mutations/processor.ts\<close>, \<open>state-domain.ts\<close>), every changed element is marked, and a flush
  writes the marked elements back (\<open>persistence-domain.ts\<close>); who is on a board decides whether a
  mutation is saved at once or later (\<open>presence-domain.ts\<close>). The board and workspace services work on
  the Postgres tables; the realtime server admits sockets to rooms and turns their messages into
  mutations.

  \<^bold>\<open>Theories and sources.\<close>
    \<^item> \<open>JS_Prelude\<close>, \<open>JS_Strings\<close>: JavaScript sets, maps, objects, JSON documents, number and string
      methods, errors with their cause chain.
    \<^item> \<open>External_Services\<close>: Redis, Postgres, the clock and the random sources as a record \<open>env\<close> of
      operations over an abstract world, with what the program relies on as the laws of the locales
      \<open>redis_client\<close>, \<open>pg_client\<close>, \<open>services\<close> and \<open>quiet_services\<close>; \<open>Memory_Services\<close>: an executable
      instance that satisfies all of them and runs the witnesses.
    \<^item> \<open>Board_Keys\<close> (\<open>board-state/keys.ts\<close>), \<open>State_Utils\<close> (\<open>state-utils.ts\<close>), \<open>Board_Load\<close>
      (\<open>load-domain.ts\<close>), \<open>Board_State\<close> (\<open>state-domain.ts\<close>), \<open>Presence\<close> (\<open>presence-domain.ts\<close>),
      \<open>Mutation_Lock\<close> and \<open>Local_Lock\<close> (\<open>mutation-lock-domain.ts\<close> and the promise chains of the
      other files), \<open>Persistence\<close> (\<open>persistence-domain.ts\<close>), \<open>Flush_Interleaving\<close> (its phases between
      other operations), \<open>Redis_Cleanup\<close> (\<open>redis-cleanup.service.ts\<close>).
    \<^item> \<open>Lock_Enforcement\<close> (\<open>mutations/lock-enforcement.ts\<close>), \<open>Mutation_Processor\<close> and \<open>Mutation_Batch\<close>
      (\<open>mutations/processor.ts\<close>).
    \<^item> \<open>Board_Tables\<close> (the schema under \<open>platform/db/schema\<close>), \<open>Board_Access\<close>, \<open>Board_Membership\<close>,
      \<open>Board_Lifecycle\<close> (\<open>modules/boards\<close>), \<open>Workspaces\<close> (\<open>modules/workspaces\<close>).
    \<^item> \<open>Payloads\<close> (\<open>socketio/payloads.ts\<close>, the size caps, the mutation check of the REST routes),
      \<open>Participants\<close> (\<open>socketio/participants.ts\<close>), \<open>Tick_Persistence\<close> (\<open>socketio/tick-persistence.ts\<close>),
      \<open>Crdt_Rooms\<close> (\<open>socketio/crdt-room.ts\<close>), \<open>Socket_Session\<close>, \<open>Heartbeat\<close> and \<open>Socket_Handlers\<close>
      (\<open>socketio/server.ts\<close>, \<open>identity.ts\<close> and \<open>handlers/\<close>).
    \<^item> \<open>Users\<close> (\<open>modules/users\<close>), \<open>Credentials\<close> (cookies, origins, tokens and identity: \<open>shared/cookies.ts\<close>,
      \<open>shared/cors.ts\<close>, \<open>modules/auth\<close>), \<open>Sessions\<close> (refresh families and the OAuth flow:
      \<open>auth/routes\<close>), \<open>Billing\<close> (\<open>modules/billing/billing\<close>).
    \<^item> \<open>Http\<close> (\<open>shared/http.ts\<close>, \<open>errors.ts\<close>, \<open>validation.ts\<close>, \<open>openapi/schemas.ts\<close>), \<open>Workspace_Routes\<close>
      (\<open>workspaces/routes.ts\<close>), \<open>Board_Routes\<close> and \<open>Live_Routes\<close> (\<open>boards/routes\<close>: those on the tables, and
      those on live boards).
    \<^item> \<open>Event_Bus\<close> (\<open>shared/events.ts\<close>), \<open>JS_Values\<close> (arithmetic, conversions and JSON of values without a
      checked type), \<open>Preview_Render\<close> (\<open>previews/board-preview.service.ts\<close>), \<open>Preview_Jobs\<close>
      (\<open>previews/preview-job.service.ts\<close> and the event handlers of \<open>apps/worker.main.ts\<close>).
    \<^item> \<open>Application\<close> (\<open>billing/routes.ts\<close>, \<open>app/health.routes.ts\<close>, \<open>app/create-app.ts\<close>,
      \<open>app/background-jobs.ts\<close>, \<open>platform/jobs/queues.ts\<close>, \<open>apps/app-shell.ts\<close>), \<open>Config\<close>
      (\<open>shared/config.ts\<close>), \<open>Pipeline\<close> (\<open>app/create-app.ts\<close>: what a request passes and pays on its way to
      a router), \<open>Runtime\<close> (\<open>app/runtime.ts\<close> and what the programs of \<open>apps\<close> read of it), \<open>Shutdown\<close> (how they end:
      \<open>apps/api.main.ts\<close>, \<open>apps/realtime.main.ts\<close>, \<open>apps/worker.main.ts\<close>), \<open>Admin_Pages\<close>
      (\<open>app/debug.routes.ts\<close>, \<open>app/bull-board.routes.ts\<close>).
    \<^item> \<open>Api_Document\<close> (\<open>app/openapi/document.ts\<close> and the registrations of the routers) and
      \<open>Api_Contract\<close> (the document against the handlers).
    \<^item> \<open>Tracing\<close> (\<open>platform/observability/tracing.ts\<close>), \<open>Metrics\<close> (\<open>platform/observability/metrics.ts\<close>,
      \<open>app/metrics-collectors.ts\<close>).
  The state of the collaboration core is the abstract world, read through \<open>rview\<close> (string keys with
  their expiry, hashes, sets, sorted sets, lists, the element rows); the state of the board and
  workspace services is the record \<open>tables\<close>, one list of rows per table, that of billing the record
  \<open>billing\<close>, that of a socket, a room or a queue a record of its own. Every function of the source
  is a definition of the same name; a definition with another name is a named part of one (the loop
  body, the pipeline, the transaction, the handler of a route). What runs between two statements of a
  request is an argument of the request (the \<open>meanwhile\<close> of the sessions and of the previews) or a step
  of a relation (the runs of rooms, locks, flushes and token families).

  \<^bold>\<open>What the lemmas show.\<close> \<open>applyChangeSet\<close> refines an abstract change of a board and keeps every
  difference between Redis and Postgres marked; a flush saves the board exactly, and however change
  sets run between its phases nothing unsaved loses its mark; the outcome of a mutation on every
  branch; the mutation lock excludes while its lease runs, also after others have expired; loading fills Redis with the rows; the access check decides the
  declarative rules, accessible boards are listed exactly, invitations and memberships move through
  their states, a workspace keeps its one owner; a room never exceeds its cap; what the parsers accept
  is bounded. A socket that may only view changes nothing, what it sends carries its own identity, its
  rate is bounded, its heartbeat keeps it in its room; positions moved live are saved within the maximal wait. Every REST change of a
  board or workspace is made by somebody whose role allows it. A family of refresh tokens has at most
  one good token, a callback needs the cookies of its browser, an identity needs its token. A webhook
  event takes effect with its first delivery and never again, a billing profile follows its subscription. What one process emits another decodes, every dead letter is summarised, a changed board gets a
  preview job, the shapes of a preview are inside it; an app shuts down once, its configuration is within
  its bounds. A request enters a router only after it was charged to the limiters that are due, the
  developer's pages are hidden in production and the dashboard needs its password; the client of the
  metrics is called as the catalogue declares, the rotation of the sampled boards changes from week to
  week; each service is built once, after what it needs. The document of the API lists the mounted
  routes, and their successes have documented statuses. Theorems of kind \<open>error\<close> state where the code does less than it seems to promise.

  \<^bold>\<open>Bounds and fuel.\<close> The poll loops (waiting for a load, acquiring a lock) may run for ever and are
  \<open>option\<close>-valued; their lemmas show that they return when the keys in their way expire. Everything
  else is total. Integers of JavaScript are \<open>int\<close> or \<open>rat\<close>, with the infinities and NaN where values
  are not checked (doubles are not rounded); the hashes of the user colour and of the preview are a
  \<open>32 word\<close>. Strings are ASCII; \<open>Credentials\<close> reads them as the bytes of UTF-8. The clock is read once per
  call where the source reads it several times in a row without an \<open>await\<close>.

  \<^bold>\<open>Not modelled.\<close> Log lines, and the calls of the metrics inside the operations; the set-up of the tracing
  SDK; the texts and examples of the API document; the seed, the scripts and the connections of the
  clients. The packages are parameters: Express, Socket.IO, BullMQ, Yjs, the Stripe and OAuth clients,
  JWT, prom-client, OpenTelemetry, drizzle and ioredis (the last two are \<open>env\<close> and the statements of \<open>Board_Tables\<close>). The commands of one pipeline of ioredis run as
  one step that succeeds, also where the code does not ask for \<open>MULTI\<close>: another client between two commands of such
  a pipeline, and the failure of a single one of them, are not modelled. A process does not end by an empty event loop. A statement of
  the board services fails by its constraints only, not by a lost connection. The ids of users in the
  metadata of Stripe are taken to be well formed.
\<close>

end
